(* ===== verification/Prelude.thy ===== *)
theory Prelude
  imports Main "HOL-Library.Word" "HOL-Library.Multiset"
begin

text \<open>
  What every component of the model shares: the machine types of the C code, the byte-order
  helpers, the string functions of the C library the configuration parser calls, and the
  collections the component proofs use as simplification bundles.

  The target is little-endian (the x86 hosts the gateway is built for), so a big-endian header
  field read into a register is the byte-swapped value.
\<close>

unbundle bit_operations_syntax

named_theorems token_defs "the token handlers of the configuration parsers"
named_theorems flow_defs "the per-packet decisions of the data path"

section \<open>Machine types\<close>

type_synonym u8 = "8 word"
type_synonym u16 = "16 word"
type_synonym u32 = "32 word"
type_synonym u64 = "64 word"

text \<open>The ranges of the machine types.\<close>

lemma unat_u8_less: "unat (w :: u8) < 256"
  using unsigned_less [of w, where 'a = nat] by simp

lemma unat_u16_less: "unat (w :: u16) < 65536"
  using unsigned_less [of w, where 'a = nat] by simp

lemma unat_u32_less: "unat (w :: u32) < 4294967296"
  using unsigned_less [of w, where 'a = nat] by simp

lemma unat_of_nat_u32: "n < 4294967296 \<Longrightarrow> unat (of_nat n :: u32) = n"
  by (simp add: unat_of_nat)

lemma unat_of_nat_u16: "n < 65536 \<Longrightarrow> unat (of_nat n :: u16) = n"
  by (simp add: unat_of_nat)

lemma unat_of_nat_u8: "n < 256 \<Longrightarrow> unat (of_nat n :: u8) = n"
  by (simp add: unat_of_nat)

lemma unat_ucast_u32_u16: "unat (w :: u32) < 65536 \<Longrightarrow> unat (ucast w :: u16) = unat w"
  by (simp add: unsigned_ucast_eq take_bit_nat_eq_self)

lemma unat_ucast_u16_u32 [simp]: "unat (ucast (w :: u16) :: u32) = unat w"
  using unat_u16_less [of w] by (simp add: unsigned_ucast_eq take_bit_nat_eq_self)

text \<open>Error numbers the code returns negated.\<close>

datatype errno = EINVAL | EEXIST | ENOENT | ENOSPC | ENOTSUP | ENAMETOOLONG | ENOMEM | E2BIG | EFAIL | UB

text \<open>\<open>EFAIL\<close> stands for the bare \<open>-1\<close> some functions return, \<open>UB\<close> for an access C leaves undefined.\<close>

section \<open>Byte order\<close>

definition bswap16 :: "u16 \<Rightarrow> u16" where
  "bswap16 w = push_bit 8 w OR drop_bit 8 w"

definition bytes_of_u16 :: "u16 \<Rightarrow> u8 list" where
  "bytes_of_u16 w = [ucast (drop_bit 8 w), ucast w]"

definition u16_of_bytes :: "u8 \<Rightarrow> u8 \<Rightarrow> u16" where
  "u16_of_bytes h l = push_bit 8 (ucast h) OR ucast l"

definition bytes_of_u32 :: "u32 \<Rightarrow> u8 list" where
  "bytes_of_u32 w = [ucast (drop_bit 24 w), ucast (drop_bit 16 w), ucast (drop_bit 8 w), ucast w]"

definition u32_of_bytes :: "u8 \<Rightarrow> u8 \<Rightarrow> u8 \<Rightarrow> u8 \<Rightarrow> u32" where
  "u32_of_bytes a b c d =
     push_bit 24 (ucast a) OR push_bit 16 (ucast b) OR push_bit 8 (ucast c) OR ucast d"

definition bytes_of_u64 :: "u64 \<Rightarrow> u8 list" where
  "bytes_of_u64 w = bytes_of_u32 (ucast (drop_bit 32 w)) @ bytes_of_u32 (ucast w)"

text \<open>Bit-level reading of the codecs; the round trips follow by extensionality on bits.\<close>

lemma bit_u16_of_bytes:
  "bit (u16_of_bytes h l) n \<longleftrightarrow> (if n < 8 then bit l n else n < 16 \<and> bit h (n - 8))"
  by (auto simp: u16_of_bytes_def bit_simps dest: bit_imp_le_length)

lemma bit_u32_of_bytes:
  "bit (u32_of_bytes a b c d) n \<longleftrightarrow>
     (if n < 8 then bit d n else if n < 16 then bit c (n - 8)
      else if n < 24 then bit b (n - 16) else n < 32 \<and> bit a (n - 24))"
  by (auto simp: u32_of_bytes_def bit_simps dest: bit_imp_le_length)

lemma u16_of_bytes_of_u16 [simp]: "u16_of_bytes (ucast (drop_bit 8 w)) (ucast (w :: u16)) = w"
  by (rule bit_word_eqI) (auto simp: bit_u16_of_bytes bit_simps)

lemma u32_of_bytes_of_u32 [simp]:
  "u32_of_bytes (ucast (drop_bit 24 w)) (ucast (drop_bit 16 w)) (ucast (drop_bit 8 w)) (ucast (w :: u32)) = w"
  by (rule bit_word_eqI) (auto simp: bit_u32_of_bytes bit_simps)

text \<open>The value of a 16-bit word put together from its bytes.\<close>

lemma unat_u16_of_bytes: "unat (u16_of_bytes h l) = 256 * unat h + unat l"
proof -
  have "push_bit 8 (ucast h) AND ucast l = (0 :: u16)"
    by (rule bit_word_eqI) (auto simp: bit_simps dest: bit_imp_le_length)
  then have "u16_of_bytes h l = push_bit 8 (ucast h) + ucast l"
    unfolding u16_of_bytes_def by (rule disjunctive_add_eq_or [symmetric])
  also have "\<dots> = of_nat (256 * unat h + unat l)"
    by (simp add: push_bit_eq_mult mult.commute)
  finally show ?thesis
    using unat_u8_less [of h] unat_u8_less [of l] by (simp only:) (rule unat_of_nat_u16, simp)
qed

lemma bytes_of_u32_of_bytes [simp]: "bytes_of_u32 (u32_of_bytes a b c d) = [a, b, c, d]"
  by (auto simp: bytes_of_u32_def bit_simps bit_u32_of_bytes intro!: bit_word_eqI)

lemma bytes_of_u16_of_bytes [simp]: "bytes_of_u16 (u16_of_bytes a b) = [a, b]"
  by (auto simp: bytes_of_u16_def bit_simps bit_u16_of_bytes intro!: bit_word_eqI)

lemma length_bytes_of_u16 [simp]: "length (bytes_of_u16 w) = 2"
  by (simp add: bytes_of_u16_def)

lemma length_bytes_of_u32 [simp]: "length (bytes_of_u32 w) = 4"
  by (simp add: bytes_of_u32_def)

lemma length_bytes_of_u64 [simp]: "length (bytes_of_u64 w) = 8"
  by (simp add: bytes_of_u64_def)

section \<open>The C library's string functions\<close>

definition isdigit :: "char \<Rightarrow> bool" where
  "isdigit c \<longleftrightarrow> 48 \<le> (of_char c :: nat) \<and> (of_char c :: nat) \<le> 57"

definition isspace :: "char \<Rightarrow> bool" where
  "isspace c \<longleftrightarrow> (of_char c :: nat) \<in> {9, 10, 11, 12, 13, 32}"

definition digit_val :: "char \<Rightarrow> nat" where
  "digit_val c = of_char c - 48"

text \<open>\<open>dec_val 0 s\<close>: the value of a string of decimal digits.\<close>

fun dec_val :: "nat \<Rightarrow> string \<Rightarrow> nat" where
  "dec_val acc [] = acc"
| "dec_val acc (c # cs) = dec_val (10 * acc + digit_val c) cs"

text \<open>
  \<open>strtol (s, NULL, 10)\<close> with its 64-bit saturation, and \<open>atoi\<close>, which the C library on the
  target defines as \<open>(int) strtol (s, NULL, 10)\<close>; the value is the two's complement 32-bit word.
\<close>

definition strtol10 :: "string \<Rightarrow> int" where
  "strtol10 s =
     (let s1 = dropWhile isspace s;
          neg = (case s1 of c # _ \<Rightarrow> c = CHR ''-'' | [] \<Rightarrow> False);
          s2 = (case s1 of c # cs \<Rightarrow> if c = CHR ''-'' \<or> c = CHR ''+'' then cs else s1 | [] \<Rightarrow> []);
          n = int (dec_val 0 (takeWhile isdigit s2))
      in if neg then max (- (2 ^ 63)) (- n) else min (2 ^ 63 - 1) n)"

definition atoi :: "string \<Rightarrow> u32" where
  "atoi s = word_of_int (strtol10 s)"

text \<open>Decimal rendering, used to state round trips of the parsers.\<close>

fun show_dec :: "nat \<Rightarrow> string" where
  "show_dec n = (if n < 10 then [char_of (48 + n)] else show_dec (n div 10) @ [char_of (48 + n mod 10)])"

declare show_dec.simps [simp del]

lemma dec_val_append: "dec_val acc (xs @ ys) = dec_val (dec_val acc xs) ys"
  by (induction xs arbitrary: acc) auto

lemma isdigit_char_of [simp]: "n < 10 \<Longrightarrow> isdigit (char_of (48 + n :: nat))"
  by (simp add: isdigit_def)

lemma digit_val_char_of [simp]: "n < 10 \<Longrightarrow> digit_val (char_of (48 + n :: nat)) = n"
  by (simp add: digit_val_def)

lemma show_dec_digits: "list_all isdigit (show_dec n)"
proof (induction n rule: show_dec.induct)
  case (1 n)
  then show ?case by (subst show_dec.simps) auto
qed

lemma show_dec_nonempty [simp]: "show_dec n \<noteq> []"
  by (subst show_dec.simps) simp

lemma dec_val_show_dec [simp]: "dec_val 0 (show_dec n) = n"
proof (induction n rule: show_dec.induct)
  case (1 n)
  then show ?case by (subst show_dec.simps) (auto simp: dec_val_append)
qed

lemma isdigit_not_space: "isdigit c \<Longrightarrow> \<not> isspace c"
  by (auto simp: isdigit_def isspace_def)

lemma isdigit_not_sign: "isdigit c \<Longrightarrow> c \<noteq> CHR ''-'' \<and> c \<noteq> CHR ''+''"
  by (auto simp: isdigit_def)

text \<open>\<open>strtol\<close> of a string of digits is their value (below the saturation bound).\<close>

lemma strtol10_digits:
  assumes "list_all isdigit s" and "dec_val 0 s < 2 ^ 63"
  shows "strtol10 s = int (dec_val 0 s)"
proof -
  have tw: "takeWhile isdigit s = s"
    using assms(1) by (simp add: takeWhile_eq_all_conv list_all_iff)
  have dw: "dropWhile isspace s = s"
    using assms(1) by (cases s) (auto dest: isdigit_not_space)
  show ?thesis
  proof (cases s)
    case Nil
    then show ?thesis by (simp add: strtol10_def)
  next
    case (Cons c cs)
    with assms(1) have "c \<noteq> CHR ''-''" and "c \<noteq> CHR ''+''"
      using isdigit_not_sign by auto
    with Cons dw have "strtol10 s = min (2 ^ 63 - 1) (int (dec_val 0 (takeWhile isdigit s)))"
      by (simp add: strtol10_def Let_def)
    also have "\<dots> = int (dec_val 0 s)"
      using assms(2) by (subst tw) simp
    finally show ?thesis .
  qed
qed

lemma atoi_show_dec:
  assumes "n < 2 ^ 63"
  shows "atoi (show_dec n) = of_nat n"
  using assms by (simp add: atoi_def strtol10_digits show_dec_digits)

lemma unat_atoi_show_dec:
  assumes "n < 2 ^ 32"
  shows "unat (atoi (show_dec n)) = n"
  using assms by (simp add: atoi_show_dec unat_of_nat)

lemma atoi_show_u32 [simp]: "atoi (show_dec (unat (w :: u32))) = w"
proof -
  have "unat w < 4294967296" by (rule unat_u32_less)
  then show ?thesis by (simp add: atoi_show_dec)
qed

section \<open>Lists as C arrays\<close>

text \<open>Order-preserving filters keep every element once: what is kept and what is dropped add up.\<close>

lemma mset_partition: "mset (filter P xs) + mset (filter (\<lambda>x. \<not> P x) xs) = mset xs"
  by (induction xs) auto

lemma nth_append_last [simp]: "(xs @ [x]) ! length xs = x"
  by simp

end
