(* ===== verification/Tables.thy ===== *)
theory Tables
  imports Prelude
begin

text \<open>
  The tables the configuration is loaded into. Each of \<open>sp4.c\<close>, \<open>sp6.c\<close> and \<open>sa.c\<close> keeps a
  growable array (\<open>extend_sp_arr\<close>, \<open>extend_sa_arr\<close>), sorts it once with \<open>qsort\<close> and searches it
  by SPI with \<open>bsearch\<close>, the order being the sign of the 32-bit difference of two SPIs
  (\<open>sp_cmp\<close>, \<open>sa_cmp\<close>). The three modules share one shape, so the facts about it are proved
  once, in the locales \<open>grow_array\<close> and \<open>spi_order\<close>, and interpreted by each module on its own
  operations. \<open>qsort\<close> and \<open>bsearch\<close> are the C library's: a stable merge sort and the
  half-interval search, as in the C library of the target.
\<close>

section \<open>Growable arrays\<close>

text \<open>
  \<open>v_tbl\<close> is the array pointer (\<open>None\<close> for NULL; otherwise all allocated slots), \<open>v_cnt\<close> the
  number of slots in use and \<open>v_sz\<close> the number allocated.
\<close>

record 'a vec =
  v_tbl :: "'a list option"
  v_cnt :: nat
  v_sz :: nat

definition vec_empty :: "'a vec" where
  "vec_empty = \<lparr>v_tbl = None, v_cnt = 0, v_sz = 0\<rparr>"

text \<open>
  The body the three \<open>extend_*_arr\<close> functions share. \<open>mem_ok\<close> says whether the allocation made
  by this call, if any, succeeds. A failed \<open>realloc\<close> overwrites the pointer with NULL.
\<close>

definition extend_arr :: "nat \<Rightarrow> 'a \<Rightarrow> bool \<Rightarrow> 'a vec \<Rightarrow> 'a vec \<times> bool" where
  "extend_arr init zero mem_ok v =
     (case v_tbl v of
        None \<Rightarrow>
          (if mem_ok then (v\<lparr>v_tbl := Some (replicate init zero), v_sz := init\<rparr>, True)
           else (v, False))
      | Some xs \<Rightarrow>
          (if v_sz v \<le> v_cnt v then
             (if mem_ok then (v\<lparr>v_tbl := Some (xs @ replicate (v_sz v) zero), v_sz := 2 * v_sz v\<rparr>, True)
              else (v\<lparr>v_tbl := None\<rparr>, False))
           else (v, True)))"

definition vec_ok :: "'a vec \<Rightarrow> bool" where
  "vec_ok v \<longleftrightarrow>
     (case v_tbl v of
        None \<Rightarrow> v_cnt v = 0
      | Some xs \<Rightarrow> length xs = v_sz v \<and> v_cnt v \<le> v_sz v \<and> 0 < v_sz v)"

definition vec_elems :: "'a vec \<Rightarrow> 'a list" where
  "vec_elems v = (case v_tbl v of None \<Rightarrow> [] | Some xs \<Rightarrow> take (v_cnt v) xs)"

text \<open>
  The slot a parser fills: \<open>&tbl[*ri]\<close>. Reading and writing it is only defined inside the
  allocation, which is what \<open>vec_slot\<close> returning \<open>Some\<close> says.
\<close>

definition vec_slot :: "'a vec \<Rightarrow> 'a option" where
  "vec_slot v =
     (case v_tbl v of
        None \<Rightarrow> None
      | Some xs \<Rightarrow> (if v_cnt v < length xs then Some (xs ! v_cnt v) else None))"

definition vec_put_slot :: "'a \<Rightarrow> 'a vec \<Rightarrow> 'a vec" where
  "vec_put_slot x v = v\<lparr>v_tbl := map_option (\<lambda>xs. xs[v_cnt v := x]) (v_tbl v)\<rparr>"

definition vec_commit :: "'a vec \<Rightarrow> 'a vec" where
  "vec_commit v = v\<lparr>v_cnt := v_cnt v + 1\<rparr>"

lemma vec_ok_empty [simp]: "vec_ok vec_empty"
  by (simp add: vec_ok_def vec_empty_def)

lemma vec_elems_empty [simp]: "vec_elems vec_empty = []"
  by (simp add: vec_elems_def vec_empty_def)

lemma length_vec_elems: "vec_ok v \<Longrightarrow> length (vec_elems v) = v_cnt v"
  by (auto simp: vec_ok_def vec_elems_def split: option.splits)

locale grow_array =
  fixes extend :: "bool \<Rightarrow> 'a vec \<Rightarrow> 'a vec \<times> bool"
  assumes extend_ok: "vec_ok v \<Longrightarrow> extend m v = (v', True) \<Longrightarrow> vec_ok v'"
    and extend_room: "vec_ok v \<Longrightarrow> extend m v = (v', True) \<Longrightarrow>
        \<exists>xs. v_tbl v' = Some xs \<and> v_cnt v' < length xs"
    and extend_elems: "vec_ok v \<Longrightarrow> extend m v = (v', True) \<Longrightarrow> vec_elems v' = vec_elems v"
    and extend_cnt: "extend m v = (v', b) \<Longrightarrow> v_cnt v' = v_cnt v"
    and extend_total: "m \<Longrightarrow> snd (extend m v)"
begin

text \<open>After a successful extension the slot exists, so filling and committing it is in bounds.\<close>

lemma slot_exists: "vec_ok v \<Longrightarrow> extend m v = (v', True) \<Longrightarrow> \<exists>x. vec_slot v' = Some x"
  using extend_room [of v m v'] by (auto simp: vec_slot_def)

lemma put_slot_ok:
  assumes "vec_ok v" and "extend m v = (v', True)"
  shows "vec_ok (vec_put_slot x v')" and "vec_elems (vec_put_slot x v') = vec_elems v"
proof -
  from assms obtain xs where "vec_ok v'" and "v_tbl v' = Some xs" and "v_cnt v' < length xs"
    and "vec_elems v' = vec_elems v"
    using extend_ok extend_room extend_elems by blast
  then show "vec_ok (vec_put_slot x v')" and "vec_elems (vec_put_slot x v') = vec_elems v"
    by (auto simp: vec_ok_def vec_put_slot_def vec_elems_def split: option.splits)
qed

lemma commit_appends:
  assumes "vec_ok v" and "extend m v = (v', True)"
  shows "vec_ok (vec_commit (vec_put_slot x v'))"
    and "vec_elems (vec_commit (vec_put_slot x v')) = vec_elems v @ [x]"
proof -
  from assms obtain xs where "vec_ok v'" and "v_tbl v' = Some xs" and "v_cnt v' < length xs"
    and "vec_elems v' = vec_elems v"
    using extend_ok extend_room extend_elems by blast
  then show "vec_ok (vec_commit (vec_put_slot x v'))"
    and "vec_elems (vec_commit (vec_put_slot x v')) = vec_elems v @ [x]"
    by (auto simp: vec_ok_def vec_put_slot_def vec_elems_def vec_commit_def take_Suc_conv_app_nth
        split: option.splits)
qed

end

text \<open>The shared body satisfies the laws for any positive initial size.\<close>

lemma grow_array_extend_arr: "0 < init \<Longrightarrow> grow_array (extend_arr init zero)"
  by unfold_locales
    (auto simp: extend_arr_def vec_ok_def vec_elems_def split: option.splits if_splits)

text \<open>
  A failed \<open>realloc\<close> leaves a NULL table with a non-zero count; the next call then allocates
  only the initial slots, fewer than the count, and reports success.
\<close>

lemma extend_arr_realloc_failure:
  assumes "vec_ok v" and "v_tbl v = Some xs" and "v_sz v \<le> v_cnt v" and "init \<le> v_cnt v"
    and v1: "fst (extend_arr init zero False v) = v1"
  shows "snd (extend_arr init zero True v1) \<and> vec_slot (fst (extend_arr init zero True v1)) = None"
  using assms by (auto simp: extend_arr_def vec_slot_def)

text \<open>
  As long as no line fails, the slots past the count hold the zero element: a rule then starts
  from a cleared slot.
\<close>

definition vec_clean :: "'a \<Rightarrow> 'a vec \<Rightarrow> bool" where
  "vec_clean z v \<longleftrightarrow> (case v_tbl v of None \<Rightarrow> True | Some xs \<Rightarrow> (\<forall>x \<in> set (drop (v_cnt v) xs). x = z))"

lemma vec_clean_empty [simp]: "vec_clean z vec_empty"
  by (simp add: vec_clean_def vec_empty_def)

lemma extend_arr_clean:
  assumes "0 < init" and "vec_ok v" and "vec_clean z v" and "extend_arr init z m v = (v', True)"
  shows "vec_clean z v' \<and> vec_slot v' = Some z"
proof (cases "v_tbl v")
  case None
  with assms show ?thesis
    by (auto simp: extend_arr_def vec_clean_def vec_slot_def vec_ok_def split: if_splits)
next
  case (Some xs)
  have hd: "xs ! v_cnt v = z" if "v_cnt v < length xs"
    using assms(3) that Some nth_mem [of 0 "drop (v_cnt v) xs"] by (auto simp: vec_clean_def)
  show ?thesis
    using assms Some hd
    by (auto simp: extend_arr_def vec_clean_def vec_slot_def vec_ok_def nth_append
        split: if_splits)
qed

lemma commit_clean:
  assumes "vec_clean z v"
  shows "vec_clean z (vec_commit (vec_put_slot x v))"
proof -
  have "set (drop (Suc (v_cnt v)) xs) \<subseteq> set (drop (v_cnt v) xs)" for xs :: "'a list"
    by (rule set_drop_subset_set_drop) simp
  with assms show ?thesis
    by (auto simp: vec_clean_def vec_commit_def vec_put_slot_def split: option.splits)
qed

text \<open>The counted part of a table replaced by a list of the same length.\<close>

definition vec_set_elems :: "'a list \<Rightarrow> 'a vec \<Rightarrow> 'a vec" where
  "vec_set_elems ys v = v\<lparr>v_tbl := map_option (\<lambda>xs. ys @ drop (v_cnt v) xs) (v_tbl v)\<rparr>"

lemma vec_set_elems_ok:
  assumes "vec_ok v" and "length ys = v_cnt v"
  shows "vec_ok (vec_set_elems ys v)" and "vec_elems (vec_set_elems ys v) = ys"
  using assms by (auto simp: vec_ok_def vec_elems_def vec_set_elems_def split: option.splits)

section \<open>Comparison by SPI, sorting and searching\<close>

text \<open>The common body of \<open>sp_cmp\<close> and \<open>sa_cmp\<close>: \<open>(int)(spi1 - spi2)\<close>.\<close>

definition spi_diff :: "u32 \<Rightarrow> u32 \<Rightarrow> int" where
  "spi_diff s1 s2 = sint (s1 - s2)"

fun merge_by :: "('a \<Rightarrow> 'a \<Rightarrow> int) \<Rightarrow> 'a list \<Rightarrow> 'a list \<Rightarrow> 'a list" where
  "merge_by cmp [] ys = ys"
| "merge_by cmp xs [] = xs"
| "merge_by cmp (x # xs) (y # ys) =
     (if cmp x y \<le> 0 then x # merge_by cmp xs (y # ys) else y # merge_by cmp (x # xs) ys)"

fun c_qsort :: "('a \<Rightarrow> 'a \<Rightarrow> int) \<Rightarrow> 'a list \<Rightarrow> 'a list" where
  "c_qsort cmp [] = []"
| "c_qsort cmp [x] = [x]"
| "c_qsort cmp xs =
     merge_by cmp (c_qsort cmp (take (length xs div 2) xs)) (c_qsort cmp (drop (length xs div 2) xs))"

function bsearch_loop :: "('a \<Rightarrow> int) \<Rightarrow> 'a list \<Rightarrow> nat \<Rightarrow> nat \<Rightarrow> nat option" where
  "bsearch_loop c xs l u =
     (if l < u then
        (let idx = (l + u) div 2; r = c (xs ! idx)
         in if r < 0 then bsearch_loop c xs l idx
            else if 0 < r then bsearch_loop c xs (Suc idx) u
            else Some idx)
      else None)"
  by pat_completeness auto
termination
  by (relation "measure (\<lambda>(c, xs, l, u). u - l)") (auto simp: less_diff_conv2)

declare bsearch_loop.simps [simp del]

definition bsearch :: "('a \<Rightarrow> int) \<Rightarrow> 'a list \<Rightarrow> nat option" where
  "bsearch c xs = bsearch_loop c xs 0 (length xs)"

lemma mset_merge_by [simp]: "mset (merge_by cmp xs ys) = mset xs + mset ys"
  by (induction cmp xs ys rule: merge_by.induct) auto

lemma set_merge_by [simp]: "set (merge_by cmp xs ys) = set xs \<union> set ys"
  by (induction cmp xs ys rule: merge_by.induct) auto

lemma mset_c_qsort [simp]: "mset (c_qsort cmp xs) = mset xs"
proof (induction cmp xs rule: c_qsort.induct)
  case (3 cmp x y zs)
  then show ?case
    by (simp flip: mset_append)
qed simp_all

lemma set_c_qsort [simp]: "set (c_qsort cmp xs) = set xs"
  by (rule mset_eq_setD) simp

lemma length_c_qsort [simp]: "length (c_qsort cmp xs) = length xs"
  by (rule mset_eq_length) simp

text \<open>Sorting and searching against a rank: what any comparison with the rank's sign gives.\<close>

lemma sorted_merge_by:
  assumes "\<And>x y. x \<in> set xs \<union> set ys \<Longrightarrow> y \<in> set xs \<union> set ys \<Longrightarrow> (cmp x y \<le> 0) = (f x \<le> (f y :: nat))"
    and "sorted (map f xs)" and "sorted (map f ys)"
  shows "sorted (map f (merge_by cmp xs ys))"
  using assms
proof (induction cmp xs ys rule: merge_by.induct)
  case (3 cmp x xs y ys)
  have ord: "(cmp x y \<le> 0) = (f x \<le> f y)"
    by (rule "3.prems"(1)) auto
  show ?case
  proof (cases "cmp x y \<le> 0")
    case True
    then have "sorted (map f (merge_by cmp xs (y # ys)))"
      using "3.prems" by (intro "3.IH"(1)) auto
    with True "3.prems"(2,3) ord show ?thesis by auto
  next
    case False
    then have "sorted (map f (merge_by cmp (x # xs) ys))"
      using "3.prems" by (intro "3.IH"(2)) auto
    with False "3.prems"(2,3) ord show ?thesis by auto
  qed
qed auto

lemma sorted_c_qsort:
  assumes "\<And>x y. x \<in> set xs \<Longrightarrow> y \<in> set xs \<Longrightarrow> (cmp x y \<le> 0) = (f x \<le> (f y :: nat))"
  shows "sorted (map f (c_qsort cmp xs))"
  using assms
proof (induction cmp xs rule: c_qsort.induct)
  case (3 cmp x y zs)
  let ?xs = "x # y # zs" and ?h = "length (x # y # zs) div 2"
  have sub: "set (take ?h ?xs) \<subseteq> set ?xs" "set (drop ?h ?xs) \<subseteq> set ?xs"
    by (rule set_take_subset, rule set_drop_subset)
  have "sorted (map f (merge_by cmp (c_qsort cmp (take ?h ?xs)) (c_qsort cmp (drop ?h ?xs))))"
  proof (rule sorted_merge_by)
    show "sorted (map f (c_qsort cmp (take ?h ?xs)))"
      using sub(1) "3.prems" by (intro "3.IH"(1)) blast
    show "sorted (map f (c_qsort cmp (drop ?h ?xs)))"
      using sub(2) "3.prems" by (intro "3.IH"(2)) blast
  next
    fix a b
    assume "a \<in> set (c_qsort cmp (take ?h ?xs)) \<union> set (c_qsort cmp (drop ?h ?xs))"
      and "b \<in> set (c_qsort cmp (take ?h ?xs)) \<union> set (c_qsort cmp (drop ?h ?xs))"
    then have "a \<in> set ?xs" and "b \<in> set ?xs"
      using sub unfolding set_c_qsort by blast+
    then show "(cmp a b \<le> 0) = (f a \<le> f b)" by (rule "3.prems")
  qed
  then show ?case by simp
qed simp_all

lemma bsearch_loop_Some:
  "bsearch_loop c xs l u = Some i \<Longrightarrow> l \<le> i \<and> i < u \<and> c (xs ! i) = 0"
proof (induction c xs l u rule: bsearch_loop.induct)
  case (1 c xs l u)
  from "1.prems" have lu: "l < u"
    by (subst (asm) bsearch_loop.simps) (auto split: if_splits)
  let ?m = "(l + u) div 2"
  from lu have m: "l \<le> ?m" "?m < u" by auto
  consider "c (xs ! ?m) < 0" | "0 < c (xs ! ?m)" | "c (xs ! ?m) = 0" by linarith
  then show ?case
  proof cases
    case 1
    with "1.prems" lu have "bsearch_loop c xs l ?m = Some i"
      by (subst (asm) bsearch_loop.simps) (simp add: Let_def)
    with "1.IH"(1) [OF lu refl refl 1] m show ?thesis by auto
  next
    case 2
    then have neg: "\<not> c (xs ! ?m) < 0" by simp
    from 2 "1.prems" lu have "bsearch_loop c xs (Suc ?m) u = Some i"
      by (subst (asm) bsearch_loop.simps) (simp add: Let_def)
    with "1.IH"(2) [OF lu refl refl neg 2] m show ?thesis by auto
  next
    case 3
    with "1.prems" lu m show ?thesis
      by (subst (asm) bsearch_loop.simps) (auto simp: Let_def)
  qed
qed

lemma bsearch_loop_None:
  assumes "bsearch_loop c xs l u = None" and "u \<le> length xs"
    and "\<And>i j. i < j \<Longrightarrow> j < length xs \<Longrightarrow> c (xs ! i) < 0 \<Longrightarrow> c (xs ! j) < 0"
    and "\<And>i j. i < j \<Longrightarrow> j < length xs \<Longrightarrow> 0 < c (xs ! j) \<Longrightarrow> 0 < c (xs ! i)"
    and "l \<le> k" and "k < u"
  shows "c (xs ! k) \<noteq> 0"
  using assms
proof (induction c xs l u rule: bsearch_loop.induct)
  case (1 c xs l u)
  from "1.prems"(5,6) have lu: "l < u" by simp
  let ?m = "(l + u) div 2"
  from lu have m: "l \<le> ?m" "?m < u" by auto
  consider "c (xs ! ?m) < 0" | "0 < c (xs ! ?m)" | "c (xs ! ?m) = 0" by linarith
  then show ?case
  proof cases
    case 1
    from 1 "1.prems"(1) lu have rec: "bsearch_loop c xs l ?m = None"
      by (subst (asm) bsearch_loop.simps) (simp add: Let_def)
    show ?thesis
    proof (cases "k < ?m")
      case True
      then show ?thesis
        using "1.IH"(1) [OF lu refl refl 1 rec] "1.prems" m by simp
    next
      case False
      then show ?thesis
        using "1.prems"(3) [of ?m k] 1 "1.prems"(2,6) by (cases "k = ?m") auto
    qed
  next
    case 2
    then have neg: "\<not> c (xs ! ?m) < 0" by simp
    from 2 "1.prems"(1) lu have rec: "bsearch_loop c xs (Suc ?m) u = None"
      by (subst (asm) bsearch_loop.simps) (simp add: Let_def)
    show ?thesis
    proof (cases "?m < k")
      case True
      then show ?thesis
        using "1.IH"(2) [OF lu refl refl neg 2 rec] "1.prems" by simp
    next
      case False
      then show ?thesis
        using "1.prems"(4) [of k ?m] 2 "1.prems"(2) m by (cases "k = ?m") auto
    qed
  next
    case 3
    with "1.prems"(1) lu show ?thesis
      by (subst (asm) bsearch_loop.simps) (simp add: Let_def)
  qed
qed

section \<open>The order on SPIs\<close>

text \<open>
  \<open>spi_window b ks\<close>: the SPIs lie in one half of the 32-bit circle, counted from \<open>b\<close>. On such a
  window the sign of the wrapped difference is the order of the distances from \<open>b\<close>; over a wider
  range the comparison is not transitive.
\<close>

definition spi_window :: "u32 \<Rightarrow> u32 set \<Rightarrow> bool" where
  "spi_window b ks \<longleftrightarrow> (\<forall>k \<in> ks. unat (k - b) < 2 ^ 31)"

lemma sint_word_of_int_small: "- (2 ^ 31) \<le> k \<Longrightarrow> k < 2 ^ 31 \<Longrightarrow> sint (word_of_int k :: u32) = k"
  by transfer (simp add: signed_take_bit_int_eq_self)

lemma sint_diff_nat:
  "x < 2 ^ 31 \<Longrightarrow> y < 2 ^ 31 \<Longrightarrow> sint (word_of_int (int x - int y) :: u32) = int x - int y"
  by (rule sint_word_of_int_small) auto

lemma sint_diff_window:
  fixes p q b :: u32
  assumes "unat (p - b) < 2 ^ 31" and "unat (q - b) < 2 ^ 31"
  shows "sint (p - q) = int (unat (p - b)) - int (unat (q - b))"
proof -
  have "p - q = word_of_int (int (unat (p - b)) - int (unat (q - b)))"
    by (simp add: wi_hom_syms)
  moreover have "sint (word_of_int (int (unat (p - b)) - int (unat (q - b))) :: u32)
      = int (unat (p - b)) - int (unat (q - b))"
    by (rule sint_diff_nat [OF assms])
  ultimately show ?thesis by simp
qed

lemma spi_diff_le:
  assumes "unat (p - b) < 2 ^ 31" and "unat (q - b) < 2 ^ 31"
  shows "(spi_diff p q \<le> 0) = (unat (p - b) \<le> unat (q - b))"
    and "(spi_diff p q < 0) = (unat (p - b) < unat (q - b))"
    and "(0 < spi_diff p q) = (unat (q - b) < unat (p - b))"
  unfolding spi_diff_def sint_diff_window [OF assms] by linarith+

lemma spi_diff_eq_0 [simp]: "spi_diff p q = 0 \<longleftrightarrow> p = q"
  by (metis (no_types) eq_iff_diff_eq_0 sint_0 spi_diff_def signed_word_eqI)

text \<open>The three SPIs a third of the circle apart are each below the next.\<close>

lemma spi_diff_cycle:
  "spi_diff 1 0x55555556 < 0 \<and> spi_diff 0x55555556 0xAAAAAAAB < 0 \<and> spi_diff 0xAAAAAAAB 1 < 0"
  by (simp add: spi_diff_def)

locale spi_order =
  fixes cmp :: "'a \<Rightarrow> 'a \<Rightarrow> int"
    and key :: "'a \<Rightarrow> u32"
  assumes cmp_key: "cmp p q = spi_diff (key p) (key q)"
begin

lemma qsort_sorted:
  assumes "spi_window b (key ` set xs)"
  shows "sorted (map (\<lambda>x. unat (key x - b)) (c_qsort cmp xs))"
proof (rule sorted_c_qsort)
  fix x y
  assume "x \<in> set xs" and "y \<in> set xs"
  with assms have "unat (key x - b) < 2 ^ 31" and "unat (key y - b) < 2 ^ 31"
    by (auto simp: spi_window_def)
  then show "(cmp x y \<le> 0) = (unat (key x - b) \<le> unat (key y - b))"
    by (simp add: cmp_key spi_diff_le(1))
qed

lemma bsearch_found:
  assumes "bsearch (cmp t) xs = Some i"
  shows "i < length xs" and "key (xs ! i) = key t"
  using bsearch_loop_Some [OF assms [unfolded bsearch_def]] by (auto simp: cmp_key)

lemma bsearch_absent:
  assumes win: "spi_window b (key ` set (t # xs))"
    and sorted: "sorted (map (\<lambda>x. unat (key x - b)) xs)"
    and none: "bsearch (cmp t) xs = None"
  shows "key t \<notin> key ` set xs"
proof
  let ?r = "\<lambda>x. unat (key x - b)"
  have r: "?r (xs ! i) < 2 ^ 31" if "i < length xs" for i
    using win that by (auto simp: spi_window_def)
  have rt: "?r t < 2 ^ 31" using win by (simp add: spi_window_def)
  have le: "?r (xs ! i) \<le> ?r (xs ! j)" if "i < j" "j < length xs" for i j
    using sorted that by (simp add: sorted_iff_nth_mono_less)
  have sgn: "(cmp t (xs ! i) < 0) = (?r t < ?r (xs ! i))" "(0 < cmp t (xs ! i)) = (?r (xs ! i) < ?r t)"
    if "i < length xs" for i
    using spi_diff_le(2,3) [OF rt r [OF that]] by (simp_all add: cmp_key)
  assume "key t \<in> key ` set xs"
  then obtain k where k: "k < length xs" "key (xs ! k) = key t"
    by (auto simp: in_set_conv_nth)
  have "cmp t (xs ! k) \<noteq> 0"
  proof (rule bsearch_loop_None [OF none [unfolded bsearch_def]])
    fix i j
    assume ij: "i < j" "j < length xs"
    then have il: "i < length xs" by simp
    show "cmp t (xs ! i) < 0 \<Longrightarrow> cmp t (xs ! j) < 0"
      using le [OF ij] sgn(1) [OF il] sgn(1) [OF ij(2)] by simp
    show "0 < cmp t (xs ! j) \<Longrightarrow> 0 < cmp t (xs ! i)"
      using le [OF ij] sgn(2) [OF il] sgn(2) [OF ij(2)] by simp
  qed (use k in auto)
  with k(2) show False by (simp add: cmp_key)
qed

text \<open>Together: on a sorted table the search decides membership.\<close>

lemma bsearch_decides:
  assumes "spi_window b (key ` set (t # xs))" and "sorted (map (\<lambda>x. unat (key x - b)) xs)"
  shows "(\<exists>i. bsearch (cmp t) xs = Some i) \<longleftrightarrow> key t \<in> key ` set xs"
proof
  assume "\<exists>i. bsearch (cmp t) xs = Some i"
  then obtain i where "bsearch (cmp t) xs = Some i" ..
  from bsearch_found [OF this] show "key t \<in> key ` set xs"
    by (metis image_eqI nth_mem)
next
  assume "key t \<in> key ` set xs"
  then show "\<exists>i. bsearch (cmp t) xs = Some i"
    using bsearch_absent [OF assms] by (cases "bsearch (cmp t) xs") auto
qed

end

end
