(* ===== verification/Tokens.thy ===== *)
theory Tokens
  imports Prelude
begin

text \<open>
  The configuration parser's primitives (\<open>parser.h\<close>, \<open>parser.c\<close>): checks that set the parse
  status, number, range and address parsing, the split of a line into tokens, and the shape all
  token loops share (\<open>parse_sp4_tokens\<close>, \<open>parse_sp6_tokens\<close>, \<open>parse_sa_tokens\<close>,
  \<open>parse_rt_tokens\<close>, \<open>parse_flow_tokens\<close>).

  A token handler takes the current token, the tokens after it and the parser state. It returns
  the new state and either the error that makes the status negative (the state is then the one at
  the failing check: slots already written stay written) or the tokens that are left.
\<close>

section \<open>Status and checks\<close>

text \<open>
  The messages of \<open>parse_status\<close>, without their formatting. \<open>Fault\<close> marks a line on which the C
  code reads a token that is not there (a NULL pointer given to \<open>strcmp\<close>).
\<close>

datatype parse_error =
    Unrecognized string
  | Already_present string
  | Conflict string string
  | End_of_tokens
  | Not_number string
  | Invalid_SPI string
  | Bad_addr string
  | Bad_range string
  | Over_limit string
  | Missing string
  | Not_allowed string
  | Port_mismatch string
  | Too_many_arguments
  | Too_many_rules
  | Fault

type_synonym 's tok_result = "'s \<times> (parse_error + string list)"

text \<open>\<open>APP_CHECK (exp, status, msg)\<close> followed by the return on a negative status.\<close>

definition app_check :: "bool \<Rightarrow> parse_error \<Rightarrow> 's \<Rightarrow> 's tok_result \<Rightarrow> 's tok_result" where
  [token_defs]: "app_check c e s k = (if c then k else (s, Inl e))"

text \<open>\<open>INCREMENT_TOKEN_INDEX\<close> followed by the return on a negative status.\<close>

definition next_token ::
  "string list \<Rightarrow> 's \<Rightarrow> (string \<Rightarrow> string list \<Rightarrow> 's tok_result) \<Rightarrow> 's tok_result" where
  [token_defs]: "next_token rest s k = (case rest of [] \<Rightarrow> (s, Inl End_of_tokens) | a # rest' \<Rightarrow> k a rest')"

text \<open>\<open>is_str_num\<close> returns 0 on a string of digits (the empty string included).\<close>

definition is_str_num :: "string \<Rightarrow> bool" where
  "is_str_num s \<longleftrightarrow> list_all isdigit s"

lemma is_str_num_show_dec [simp]: "is_str_num (show_dec n)"
  by (simp add: is_str_num_def show_dec_digits)

section \<open>Addresses\<close>

text \<open>
  \<open>inet_pton\<close> belongs to the system library: the address parsers take it as a parameter. The IPv4
  result is \<open>s_addr\<close> as loaded on the target (network byte order in memory), the IPv6 result the
  16 bytes \<open>s6_addr\<close>; \<open>None\<close> is any return value other than 1.
\<close>

record inet =
  inet_pton4 :: "string \<Rightarrow> u32 option"
  inet_pton6 :: "string \<Rightarrow> u8 list option"

definition bswap32 :: "u32 \<Rightarrow> u32" where
  "bswap32 w = u32_of_bytes (ucast w) (ucast (drop_bit 8 w)) (ucast (drop_bit 16 w)) (ucast (drop_bit 24 w))"

text \<open>The part of \<open>token\<close> before the first \<open>/\<close>, and the part after it if there is one.\<close>

definition split_slash :: "string \<Rightarrow> string \<times> string option" where
  "split_slash tok =
     (takeWhile (\<lambda>c. c \<noteq> CHR ''/'') tok,
      case dropWhile (\<lambda>c. c \<noteq> CHR ''/'') tok of [] \<Rightarrow> None | _ # pch \<Rightarrow> Some pch)"

text \<open>
  \<open>strlcpy\<close> into the 16 bytes of \<open>ip_str\<close> keeps at most 15 characters, so the length check that
  follows it never fails. The mask is returned as the code computes it, whatever its size.
\<close>

definition parse_ipv4_addr :: "inet \<Rightarrow> string \<Rightarrow> (u32 \<times> u32) option" where
  "parse_ipv4_addr lib tok =
     (let (addr, m) = split_slash tok; ip_str = take 15 addr in
      if (case m of Some pch \<Rightarrow> \<not> is_str_num pch | None \<Rightarrow> False) then None
      else let mask = (case m of Some pch \<Rightarrow> atoi pch | None \<Rightarrow> 0) in
        if 16 \<le> length ip_str then None
        else case inet_pton4 lib ip_str of None \<Rightarrow> None | Some ip \<Rightarrow> Some (ip, mask))"

text \<open>The IPv6 buffer has 256 bytes and the check against \<open>INET6_ADDRSTRLEN\<close> (46) is effective.\<close>

definition parse_ipv6_addr :: "inet \<Rightarrow> string \<Rightarrow> (u8 list \<times> u32) option" where
  "parse_ipv6_addr lib tok =
     (let (addr, m) = split_slash tok; ip_str = take 255 addr in
      if (case m of Some pch \<Rightarrow> \<not> is_str_num pch | None \<Rightarrow> False) then None
      else let mask = (case m of Some pch \<Rightarrow> atoi pch | None \<Rightarrow> 0) in
        if 46 \<le> length ip_str then None
        else case inet_pton6 lib ip_str of None \<Rightarrow> None | Some ip \<Rightarrow> Some (ip, mask))"

lemma split_slash_join:
  assumes "list_all (\<lambda>c. c \<noteq> CHR ''/'') a"
  shows "split_slash (a @ CHR ''/'' # m) = (a, Some m)"
  using assms by (induction a) (auto simp: split_slash_def)

lemma split_slash_none:
  assumes "list_all (\<lambda>c. c \<noteq> CHR ''/'') a"
  shows "split_slash a = (a, None)"
  using assms by (induction a) (auto simp: split_slash_def)

lemma parse_ipv4_addr_mask:
  assumes "list_all (\<lambda>c. c \<noteq> CHR ''/'') a" and "length a \<le> 15" and "d < 2 ^ 32"
  shows "parse_ipv4_addr lib (a @ CHR ''/'' # show_dec d) =
    map_option (\<lambda>ip. (ip, of_nat d)) (inet_pton4 lib a)"
  using assms by (simp add: parse_ipv4_addr_def split_slash_join atoi_show_dec split: option.splits)

lemma parse_ipv6_addr_mask:
  assumes "list_all (\<lambda>c. c \<noteq> CHR ''/'') a" and "length a \<le> 45" and "d < 2 ^ 32"
  shows "parse_ipv6_addr lib (a @ CHR ''/'' # show_dec d) =
    map_option (\<lambda>ip. (ip, of_nat d)) (inet_pton6 lib a)"
  using assms by (simp add: parse_ipv6_addr_def split_slash_join atoi_show_dec split: option.splits)

section \<open>Ranges\<close>

text \<open>
  The loop of \<open>parse_range\<close>: \<open>low\<close> is \<open>range_low\<close> (\<open>-1\<close> until a colon was seen), \<open>num\<close> the digits
  collected in \<open>num_str\<close>. Characters that are neither digits nor a colon are skipped.
\<close>

fun parse_range_loop :: "string \<Rightarrow> u32 \<Rightarrow> string \<Rightarrow> (u32 \<times> string) option" where
  "parse_range_loop [] low num = Some (low, num)"
| "parse_range_loop (ch # cs) low num =
     (if isdigit ch then
        (if 19 \<le> length num then None else parse_range_loop cs low (num @ [ch]))
      else if ch = CHR '':'' then
        (if low \<noteq> - 1 then None else parse_range_loop cs (atoi num) [])
      else parse_range_loop cs low num)"

definition parse_range :: "string \<Rightarrow> (u16 \<times> u16) option" where
  "parse_range tok =
     (case parse_range_loop tok (- 1) [] of
        None \<Rightarrow> None
      | Some (range_low, num) \<Rightarrow>
          (if num = [] then None else Some (ucast range_low, ucast (atoi num))))"

lemma parse_range_loop_digits:
  assumes "list_all isdigit ds" and "length num + length ds \<le> 19"
  shows "parse_range_loop (ds @ cs) low num = parse_range_loop cs low (num @ ds)"
  using assms by (induction ds arbitrary: num) auto

lemma show_dec_length: "n < 10 ^ k \<Longrightarrow> 0 < k \<Longrightarrow> length (show_dec n) \<le> k"
proof (induction n arbitrary: k rule: show_dec.induct)
  case (1 n)
  show ?case
  proof (cases "n < 10")
    case True
    with "1.prems"(2) show ?thesis by (subst show_dec.simps) simp
  next
    case False
    with "1.prems" obtain j where k: "k = Suc j" "0 < j"
      by (cases k; cases "k - 1") auto
    with "1.prems" have "n div 10 < 10 ^ j"
      by (simp add: less_mult_imp_div_less mult.commute)
    with "1.IH" [OF False this k(2)] False k show ?thesis
      by (subst show_dec.simps) simp
  qed
qed

lemma ucast_u16_u32 [simp]: "ucast (ucast (w :: u16) :: u32) = w"
  by (rule bit_word_eqI) (auto simp: bit_simps)

lemma atoi_show_u16: "atoi (show_dec (unat (w :: u16))) = ucast w"
proof -
  have "unat w < 2 ^ 16" using unsigned_less [of w] by simp
  then have "unat w < 2 ^ 63" by simp
  then show ?thesis by (simp add: atoi_show_dec)
qed

lemma parse_range_pair:
  fixes lo hi :: u16
  shows "parse_range (show_dec (unat lo) @ CHR '':'' # show_dec (unat hi)) = Some (lo, hi)"
proof -
  have short: "length (show_dec (unat w)) \<le> 19" for w :: u16
  proof -
    have "unat w < 65536" using unsigned_less [of w] by simp
    then have "unat w < 10 ^ 19" by simp
    then show ?thesis by (rule show_dec_length) simp
  qed
  have val: "atoi (show_dec (unat w)) = ucast w" for w :: u16
    by (rule atoi_show_u16)
  have "\<not> isdigit CHR '':''" by (simp add: isdigit_def)
  then show ?thesis
    using parse_range_loop_digits [OF show_dec_digits, of "[]" "unat hi" "[]"]
    by (simp add: parse_range_def parse_range_loop_digits show_dec_digits short val)
qed

text \<open>A token with no colon is accepted: its low bound is \<open>(uint16_t)-1\<close>.\<close>

lemma parse_range_no_colon:
  fixes hi :: u16
  shows "parse_range (show_dec (unat hi)) = Some (0xFFFF, hi)"
proof -
  have "unat hi < 65536" using unsigned_less [of hi] by simp
  then have "length (show_dec (unat hi)) \<le> 19"
    by (intro show_dec_length) auto
  then have "parse_range_loop (show_dec (unat hi)) (- 1) [] = Some (- 1, show_dec (unat hi))"
    using parse_range_loop_digits [OF show_dec_digits, of "[]" "unat hi" "[]"] by simp
  moreover have "ucast (atoi (show_dec (unat hi))) = hi"
    by (simp add: atoi_show_u16)
  moreover have "ucast (- 1 :: u32) = (0xFFFF :: u16)"
  proof -
    have "(- 1 :: u32) = 0xFFFFFFFF" by simp
    also have "ucast \<dots> = (0xFFFF :: u16)" by simp
    finally show ?thesis .
  qed
  ultimately show ?thesis by (simp add: parse_range_def)
qed

section \<open>Splitting a line\<close>

definition is_delim :: "char \<Rightarrow> bool" where
  "is_delim c \<longleftrightarrow> (of_char c :: nat) \<in> {32, 12, 10, 13, 9, 11}"

text \<open>\<open>strtok_r\<close> with \<open>PARSE_DELIMITER\<close>: the next token and what remains after its delimiter.\<close>

definition strtok_r :: "string \<Rightarrow> (string \<times> string) option" where
  "strtok_r s =
     (let s1 = dropWhile is_delim s in
      if s1 = [] then None
      else Some (takeWhile (\<lambda>c. \<not> is_delim c) s1, drop 1 (dropWhile (\<lambda>c. \<not> is_delim c) s1)))"

fun tokenize :: "nat \<Rightarrow> string \<Rightarrow> string list \<times> string" where
  "tokenize 0 s = ([], s)"
| "tokenize (Suc n) s =
     (case strtok_r s of
        None \<Rightarrow> ([], [])
      | Some (tok, s') \<Rightarrow> (let (toks, s'') = tokenize n s' in (tok # toks, s'')))"

text \<open>
  \<open>parse_tokenize_string\<close>: the tokens written to the array, and whether the line had no more than
  \<open>n\<close> of them (otherwise the function returns \<open>-E2BIG\<close> and leaves \<open>*n_tokens\<close> at \<open>n\<close>).
\<close>

definition parse_tokenize_string :: "nat \<Rightarrow> string \<Rightarrow> string list \<times> bool" where
  "parse_tokenize_string n s =
     (let (toks, s') = tokenize n s in (toks, \<not> (length toks = n \<and> strtok_r s' \<noteq> None)))"

lemma tokenize_length: "length (fst (tokenize n s)) \<le> n"
  by (induction n arbitrary: s) (auto simp: case_prod_beta split: option.splits)

lemma strtok_r_token: "strtok_r s = Some (t, s') \<Longrightarrow> t \<noteq> [] \<and> list_all (\<lambda>c. \<not> is_delim c) t"
  using hd_dropWhile [of is_delim s]
  by (auto simp: strtok_r_def Let_def list_all_iff takeWhile_eq_Nil_iff dest: set_takeWhileD
      split: if_splits)

lemma tokenize_tokens:
  "\<forall>t \<in> set (fst (tokenize n s)). t \<noteq> [] \<and> list_all (\<lambda>c. \<not> is_delim c) t"
  by (induction n arbitrary: s) (auto simp: case_prod_beta split: option.splits dest: strtok_r_token)

section \<open>The token loop\<close>

text \<open>
  Every \<open>parse_*_tokens\<close> is \<open>for (ti = k; ti < n_tokens; ti++)\<close> around a chain of
  \<open>strcmp\<close> cases. The locale states that shape; each parser interprets it with its own case chain
  as \<open>step\<close> and its own loop.
\<close>

locale token_loop =
  fixes step :: "string \<Rightarrow> string list \<Rightarrow> 's \<Rightarrow> 's tok_result"
    and loop :: "string list \<Rightarrow> 's \<Rightarrow> 's \<times> parse_error option"
  assumes step_consumes: "step t rest s = (s', Inr rest') \<Longrightarrow> length rest' \<le> length rest"
    and loop_Nil: "loop [] s = (s, None)"
    and loop_Cons: "loop (t # rest) s =
        (case step t rest s of
           (s', Inl e) \<Rightarrow> (s', Some e)
         | (s', Inr rest') \<Rightarrow> loop rest' s')"
begin

lemma loop_step: "step t rest s = (s', Inr rest') \<Longrightarrow> loop (t # rest) s = loop rest' s'"
  by (simp add: loop_Cons)

lemma loop_error: "step t rest s = (s', Inl e) \<Longrightarrow> loop (t # rest) s = (s', Some e)"
  by (simp add: loop_Cons)

text \<open>What every accepting step keeps, a loop that ends without an error keeps.\<close>

lemma loop_invariant:
  assumes inv: "\<And>t rest s s' rest'. I s \<Longrightarrow> step t rest s = (s', Inr rest') \<Longrightarrow> I s'"
  shows "I s \<Longrightarrow> loop toks s = (s', None) \<Longrightarrow> I s'"
proof (induction "length toks" arbitrary: toks s rule: less_induct)
  case less
  show ?case
  proof (cases toks)
    case Nil
    with less.prems show ?thesis by (simp add: loop_Nil)
  next
    case (Cons t rest)
    with less.prems(2) obtain s1 rest' where st: "step t rest s = (s1, Inr rest')"
      and lp: "loop rest' s1 = (s', None)"
      by (auto simp: loop_Cons split: prod.splits sum.splits)
    have "length rest' < length toks" using step_consumes [OF st] Cons by simp
    then show ?thesis using less.hyps inv [OF less.prems(1) st] lp by blast
  qed
qed

text \<open>The same with the tokens in view: \<open>T\<close> collects the tokens of the line.\<close>

lemma loop_trace:
  assumes inv: "\<And>t rest s s' rest'. t \<in> T \<Longrightarrow> set rest \<subseteq> T \<Longrightarrow> I s \<Longrightarrow>
      step t rest s = (s', Inr rest') \<Longrightarrow> I s' \<and> set rest' \<subseteq> T"
  shows "set toks \<subseteq> T \<Longrightarrow> I s \<Longrightarrow> loop toks s = (s', None) \<Longrightarrow> I s'"
proof (induction "length toks" arbitrary: toks s rule: less_induct)
  case less
  show ?case
  proof (cases toks)
    case Nil
    with less.prems show ?thesis by (simp add: loop_Nil)
  next
    case (Cons t rest)
    with less.prems(3) obtain s1 rest' where st: "step t rest s = (s1, Inr rest')"
      and lp: "loop rest' s1 = (s', None)"
      by (auto simp: loop_Cons split: prod.splits sum.splits)
    have "length rest' < length toks" using step_consumes [OF st] Cons by simp
    moreover have "I s1 \<and> set rest' \<subseteq> T" using inv [OF _ _ less.prems(2) st] less.prems(1) Cons by simp
    ultimately show ?thesis using less.hyps lp by blast
  qed
qed

text \<open>What every step keeps, failing or not, the loop keeps.\<close>

lemma loop_frame:
  assumes inv: "\<And>t rest s. I s \<Longrightarrow> I (fst (step t rest s))"
  shows "I s \<Longrightarrow> I (fst (loop toks s))"
proof (induction "length toks" arbitrary: toks s rule: less_induct)
  case less
  show ?case
  proof (cases toks)
    case Nil
    with less.prems show ?thesis by (simp add: loop_Nil)
  next
    case (Cons t rest)
    obtain s1 r where st: "step t rest s = (s1, r)" by force
    have I1: "I s1" using inv [OF less.prems, of t rest] st by simp
    show ?thesis
    proof (cases r)
      case (Inl e)
      with I1 Cons st show ?thesis by (simp add: loop_error)
    next
      case (Inr rest')
      with st have "length rest' < length toks" using step_consumes [of t rest s s1 rest'] Cons by simp
      then show ?thesis using less.hyps I1 Inr Cons st by (simp add: loop_step)
    qed
  qed
qed

end

section \<open>An address reader for examples\<close>

text \<open>A finite instance of the address functions, on which the witnesses evaluate.\<close>

definition sample_inet :: inet where
  "sample_inet =
     \<lparr>inet_pton4 = (\<lambda>a. if a = ''192.168.1.0'' then Some 0x0001A8C0
                        else if a = ''10.0.0.1'' then Some 0x0100000A else None),
      inet_pton6 = (\<lambda>a. if a = ''2001::1'' then Some ([0x20, 0x01] @ replicate 13 0 @ [1]) else None)\<rparr>"

end
