(* ===== verification/SA_Types.thy ===== *)
theory SA_Types
  imports Tables Tokens
begin

text \<open>
  The security association record of \<open>ipsec.h\<close>, its flag macros, the tables of supported
  algorithms of \<open>sa.c\<close> and the lookups in them. Members of C unions are separate record fields;
  no code path modelled here reads a member other than the one last written.
\<close>

section \<open>Constants\<close>

abbreviation INVALID_SPI :: u32 where "INVALID_SPI \<equiv> 0"
abbreviation DISCARD :: u32 where "DISCARD \<equiv> 0"
abbreviation BYPASS :: u32 where "BYPASS \<equiv> 0xFFFFFFFF"
abbreviation UINT16_MAX :: u16 where "UINT16_MAX \<equiv> 0xFFFF"

definition MAX_KEY_SIZE :: nat where "MAX_KEY_SIZE = 64"
definition SA_INIT_NB :: nat where "SA_INIT_NB = 128"

section \<open>Enumerations\<close>

text \<open>The value a zeroed record holds is the \<open>_UNSET\<close> constructor: the library's enums start at 1.\<close>

datatype cipher_alg = CIPHER_UNSET | CIPHER_NULL | CIPHER_3DES_CBC | CIPHER_AES_CBC | CIPHER_AES_CTR

datatype auth_alg = AUTH_UNSET | AUTH_NULL | AUTH_SHA1_HMAC | AUTH_SHA256_HMAC | AUTH_SHA384_HMAC
  | AUTH_SHA512_HMAC | AUTH_AES_GMAC | AUTH_AES_XCBC_MAC

datatype aead_alg = AEAD_UNSET | AEAD_AES_CCM | AEAD_AES_GCM | AEAD_CHACHA20_POLY1305

datatype action_type = TYPE_NONE | TYPE_INLINE_CRYPTO | TYPE_INLINE_PROTOCOL
  | TYPE_LOOKASIDE_PROTOCOL | TYPE_CPU_CRYPTO

datatype sa_dir = DIR_UNSET | EGRESS | INGRESS

section \<open>Records\<close>

record ip_addr =
  ip4 :: u32
  ip6 :: "u8 list"

text \<open>
  \<open>struct rte_ipsec_session\<close> as far as the application uses it: the action type, the session
  handle (\<open>None\<close> for NULL) and the offload flags of the security session.
\<close>

record rte_ipsec_session =
  ses_type :: action_type
  ses :: "nat option"
  hw_trailer :: bool
  need_mdata :: bool

record ipsec_sa =
  primary :: rte_ipsec_session
  fallback :: rte_ipsec_session
  spi :: u32
  cdev_id_qp :: u32
  seq :: u64
  salt :: u32
  fallback_sessions :: u32
  cipher_algo :: cipher_alg
  auth_algo :: auth_alg
  aead_algo :: aead_alg
  digest_len :: u16
  iv_len :: u16
  block_size :: u16
  flags :: u16
  src :: ip_addr
  dst :: ip_addr
  udp_sport :: u16
  udp_dport :: u16
  cipher_key :: "u8 list"
  cipher_key_len :: u16
  auth_key :: "u8 list"
  auth_key_len :: u16
  aad_len :: u16
  direction :: sa_dir
  udp_encap :: u8
  portid :: u16
  esn :: u64
  mss :: u16
  fdir_qid :: u8
  fdir_flag :: u8

definition zero_session :: rte_ipsec_session where
  "zero_session = \<lparr>ses_type = TYPE_NONE, ses = None, hw_trailer = False, need_mdata = False\<rparr>"

definition zero_addr :: ip_addr where
  "zero_addr = \<lparr>ip4 = 0, ip6 = replicate 16 0\<rparr>"

definition zero_sa :: ipsec_sa where
  "zero_sa = \<lparr>primary = zero_session, fallback = zero_session, spi = 0, cdev_id_qp = 0, seq = 0,
     salt = 0, fallback_sessions = 0, cipher_algo = CIPHER_UNSET, auth_algo = AUTH_UNSET,
     aead_algo = AEAD_UNSET, digest_len = 0, iv_len = 0, block_size = 0, flags = 0,
     src = zero_addr, dst = zero_addr, udp_sport = 0, udp_dport = 0,
     cipher_key = replicate MAX_KEY_SIZE 0, cipher_key_len = 0,
     auth_key = replicate MAX_KEY_SIZE 0, auth_key_len = 0, aad_len = 0, direction = DIR_UNSET,
     udp_encap = 0, portid = 0, esn = 0, mss = 0, fdir_qid = 0, fdir_flag = 0\<rparr>"

section \<open>Flags\<close>

definition IP4_TUNNEL :: u16 where "IP4_TUNNEL = 1"
definition IP6_TUNNEL :: u16 where "IP6_TUNNEL = 2"
definition TRANSPORT :: u16 where "TRANSPORT = 4"
definition IP4_TRANSPORT :: u16 where "IP4_TRANSPORT = 8"
definition IP6_TRANSPORT :: u16 where "IP6_TRANSPORT = 16"
definition SA_TELEMETRY_ENABLE :: u16 where "SA_TELEMETRY_ENABLE = 32"

definition is_transport :: "u16 \<Rightarrow> bool" where
  "is_transport f \<longleftrightarrow> f AND TRANSPORT \<noteq> 0"

definition is_tunnel :: "u16 \<Rightarrow> bool" where
  "is_tunnel f \<longleftrightarrow> f AND (IP4_TUNNEL OR IP6_TUNNEL) \<noteq> 0"

definition is_ip4 :: "u16 \<Rightarrow> bool" where
  "is_ip4 f \<longleftrightarrow> f AND (IP4_TUNNEL OR IP4_TRANSPORT) \<noteq> 0"

definition is_ip6 :: "u16 \<Rightarrow> bool" where
  "is_ip6 f \<longleftrightarrow> f AND (IP6_TUNNEL OR IP6_TRANSPORT) \<noteq> 0"

definition is_ip4_tunnel :: "u16 \<Rightarrow> bool" where
  "is_ip4_tunnel f \<longleftrightarrow> f AND IP4_TUNNEL \<noteq> 0"

definition is_ip6_tunnel :: "u16 \<Rightarrow> bool" where
  "is_ip6_tunnel f \<longleftrightarrow> f AND IP6_TUNNEL \<noteq> 0"

definition without_transport_version :: "u16 \<Rightarrow> u16" where
  "without_transport_version f = f AND (IP4_TUNNEL OR IP6_TUNNEL OR TRANSPORT)"

lemmas flag_consts = IP4_TUNNEL_def IP6_TUNNEL_def TRANSPORT_def IP4_TRANSPORT_def
  IP6_TRANSPORT_def SA_TELEMETRY_ENABLE_def
lemmas flag_defs = flag_consts is_transport_def is_tunnel_def is_ip4_def is_ip6_def
  is_ip4_tunnel_def is_ip6_tunnel_def without_transport_version_def

lemma wtv_or:
  "without_transport_version (f OR g) = without_transport_version f OR without_transport_version g"
  by (simp add: without_transport_version_def bit.conj_disj_distrib2)

lemma wtv_consts [simp]:
  "without_transport_version IP4_TUNNEL = IP4_TUNNEL" "without_transport_version IP6_TUNNEL = IP6_TUNNEL"
  "without_transport_version TRANSPORT = TRANSPORT" "without_transport_version SA_TELEMETRY_ENABLE = 0"
  by (simp_all add: flag_defs)

lemma flag_distinct [simp]:
  "IP4_TUNNEL \<noteq> IP6_TUNNEL" "IP4_TUNNEL \<noteq> TRANSPORT" "IP6_TUNNEL \<noteq> IP4_TUNNEL"
  "IP6_TUNNEL \<noteq> TRANSPORT" "TRANSPORT \<noteq> IP4_TUNNEL" "TRANSPORT \<noteq> IP6_TUNNEL"
  by (simp_all add: flag_consts)

section \<open>Supported algorithms\<close>

record supported_cipher_algo =
  c_keyword :: string
  c_algo :: cipher_alg
  c_iv_len :: u16
  c_block_size :: u16
  c_key_len :: u16

record supported_auth_algo =
  a_keyword :: string
  a_algo :: auth_alg
  a_iv_len :: u16
  a_digest_len :: u16
  a_key_len :: u16
  a_key_not_req :: bool

record supported_aead_algo =
  e_keyword :: string
  e_algo :: aead_alg
  e_iv_len :: u16
  e_block_size :: u16
  e_digest_len :: u16
  e_key_len :: u16
  e_aad_len :: u8

definition cipher_algos :: "supported_cipher_algo list" where
  "cipher_algos =
    [\<lparr>c_keyword = ''null'', c_algo = CIPHER_NULL, c_iv_len = 0, c_block_size = 4, c_key_len = 0\<rparr>,
     \<lparr>c_keyword = ''aes-128-cbc'', c_algo = CIPHER_AES_CBC, c_iv_len = 16, c_block_size = 16, c_key_len = 16\<rparr>,
     \<lparr>c_keyword = ''aes-192-cbc'', c_algo = CIPHER_AES_CBC, c_iv_len = 16, c_block_size = 16, c_key_len = 24\<rparr>,
     \<lparr>c_keyword = ''aes-256-cbc'', c_algo = CIPHER_AES_CBC, c_iv_len = 16, c_block_size = 16, c_key_len = 32\<rparr>,
     \<lparr>c_keyword = ''aes-128-ctr'', c_algo = CIPHER_AES_CTR, c_iv_len = 8, c_block_size = 4, c_key_len = 20\<rparr>,
     \<lparr>c_keyword = ''aes-192-ctr'', c_algo = CIPHER_AES_CTR, c_iv_len = 16, c_block_size = 16, c_key_len = 28\<rparr>,
     \<lparr>c_keyword = ''aes-256-ctr'', c_algo = CIPHER_AES_CTR, c_iv_len = 16, c_block_size = 16, c_key_len = 36\<rparr>,
     \<lparr>c_keyword = ''3des-cbc'', c_algo = CIPHER_3DES_CBC, c_iv_len = 8, c_block_size = 8, c_key_len = 24\<rparr>]"

definition auth_algos :: "supported_auth_algo list" where
  "auth_algos =
    [\<lparr>a_keyword = ''null'', a_algo = AUTH_NULL, a_iv_len = 0, a_digest_len = 0, a_key_len = 0, a_key_not_req = True\<rparr>,
     \<lparr>a_keyword = ''sha1-hmac'', a_algo = AUTH_SHA1_HMAC, a_iv_len = 0, a_digest_len = 12, a_key_len = 20, a_key_not_req = False\<rparr>,
     \<lparr>a_keyword = ''sha256-hmac'', a_algo = AUTH_SHA256_HMAC, a_iv_len = 0, a_digest_len = 16, a_key_len = 32, a_key_not_req = False\<rparr>,
     \<lparr>a_keyword = ''sha384-hmac'', a_algo = AUTH_SHA384_HMAC, a_iv_len = 0, a_digest_len = 24, a_key_len = 48, a_key_not_req = False\<rparr>,
     \<lparr>a_keyword = ''sha512-hmac'', a_algo = AUTH_SHA512_HMAC, a_iv_len = 0, a_digest_len = 32, a_key_len = 64, a_key_not_req = False\<rparr>,
     \<lparr>a_keyword = ''aes-gmac'', a_algo = AUTH_AES_GMAC, a_iv_len = 8, a_digest_len = 16, a_key_len = 20, a_key_not_req = False\<rparr>,
     \<lparr>a_keyword = ''aes-xcbc-mac-96'', a_algo = AUTH_AES_XCBC_MAC, a_iv_len = 0, a_digest_len = 12, a_key_len = 16, a_key_not_req = False\<rparr>]"

definition aead_algos :: "supported_aead_algo list" where
  "aead_algos =
    [\<lparr>e_keyword = ''aes-128-gcm'', e_algo = AEAD_AES_GCM, e_iv_len = 8, e_block_size = 4, e_digest_len = 16, e_key_len = 20, e_aad_len = 8\<rparr>,
     \<lparr>e_keyword = ''aes-192-gcm'', e_algo = AEAD_AES_GCM, e_iv_len = 8, e_block_size = 4, e_digest_len = 16, e_key_len = 28, e_aad_len = 8\<rparr>,
     \<lparr>e_keyword = ''aes-256-gcm'', e_algo = AEAD_AES_GCM, e_iv_len = 8, e_block_size = 4, e_digest_len = 16, e_key_len = 36, e_aad_len = 8\<rparr>,
     \<lparr>e_keyword = ''aes-128-ccm'', e_algo = AEAD_AES_CCM, e_iv_len = 8, e_block_size = 4, e_digest_len = 16, e_key_len = 20, e_aad_len = 8\<rparr>,
     \<lparr>e_keyword = ''aes-192-ccm'', e_algo = AEAD_AES_CCM, e_iv_len = 8, e_block_size = 4, e_digest_len = 16, e_key_len = 28, e_aad_len = 8\<rparr>,
     \<lparr>e_keyword = ''aes-256-ccm'', e_algo = AEAD_AES_CCM, e_iv_len = 8, e_block_size = 4, e_digest_len = 16, e_key_len = 36, e_aad_len = 8\<rparr>,
     \<lparr>e_keyword = ''chacha20-poly1305'', e_algo = AEAD_CHACHA20_POLY1305, e_iv_len = 12, e_block_size = 64, e_digest_len = 16, e_key_len = 36, e_aad_len = 8\<rparr>]"

definition find_match_cipher_algo :: "string \<Rightarrow> supported_cipher_algo option" where
  "find_match_cipher_algo kw = List.find (\<lambda>a. kw = c_keyword a) cipher_algos"

definition find_match_auth_algo :: "string \<Rightarrow> supported_auth_algo option" where
  "find_match_auth_algo kw = List.find (\<lambda>a. kw = a_keyword a) auth_algos"

definition find_match_aead_algo :: "string \<Rightarrow> supported_aead_algo option" where
  "find_match_aead_algo kw = List.find (\<lambda>a. kw = e_keyword a) aead_algos"

lemma find_in_set: "List.find P xs = Some x \<Longrightarrow> x \<in> set xs \<and> P x"
  by (auto simp: find_Some_iff)

lemma find_match_cipher_algo_Some:
  "find_match_cipher_algo kw = Some a \<Longrightarrow> a \<in> set cipher_algos \<and> c_keyword a = kw"
  by (auto simp: find_match_cipher_algo_def dest: find_in_set)

lemma find_match_auth_algo_Some:
  "find_match_auth_algo kw = Some a \<Longrightarrow> a \<in> set auth_algos \<and> a_keyword a = kw"
  by (auto simp: find_match_auth_algo_def dest: find_in_set)

lemma find_match_aead_algo_Some:
  "find_match_aead_algo kw = Some a \<Longrightarrow> a \<in> set aead_algos \<and> e_keyword a = kw"
  by (auto simp: find_match_aead_algo_def dest: find_in_set)

text \<open>
  What the packet code relies on: block sizes are powers of two (the masks \<open>block_size - 1\<close> and
  the alignment macro need it), key lengths fit the key buffers, AEAD and CTR keys carry a
  four-byte salt.
\<close>

lemma cipher_algos_wf:
  "a \<in> set cipher_algos \<Longrightarrow> c_block_size a \<in> {4, 8, 16} \<and> c_key_len a \<le> 64 \<and> c_iv_len a \<le> 16
     \<and> (c_algo a = CIPHER_AES_CTR \<longrightarrow> 4 \<le> c_key_len a)"
  by (auto simp: cipher_algos_def)

lemma auth_algos_wf:
  "a \<in> set auth_algos \<Longrightarrow> a_digest_len a \<le> 32 \<and> a_key_len a \<le> 64
     \<and> (a_algo a = AUTH_AES_GMAC \<longrightarrow> 4 \<le> a_key_len a)"
  by (auto simp: auth_algos_def)

lemma aead_algos_wf:
  "a \<in> set aead_algos \<Longrightarrow> e_block_size a \<in> {4, 64} \<and> e_key_len a \<le> 64 \<and> 4 \<le> e_key_len a
     \<and> e_iv_len a \<le> 12 \<and> e_digest_len a = 16"
  by (auto simp: aead_algos_def)

section \<open>Searching the SA table\<close>

definition sa_cmp :: "ipsec_sa \<Rightarrow> ipsec_sa \<Rightarrow> int" where
  "sa_cmp p q = spi_diff (spi p) (spi q)"

text \<open>\<open>sa_spi_present\<close> on the first \<open>num\<close> entries of the context's array; \<open>None\<close> is \<open>-ENOENT\<close>.\<close>

definition sa_spi_present :: "ipsec_sa list \<Rightarrow> u32 \<Rightarrow> nat \<Rightarrow> nat option" where
  "sa_spi_present sar s num = bsearch (sa_cmp (zero_sa\<lparr>spi := s\<rparr>)) (take num sar)"

interpretation sa_ord: spi_order sa_cmp spi
  by unfold_locales (simp add: sa_cmp_def)

lemma sa_spi_present_found:
  assumes "sa_spi_present sar s num = Some i"
  shows "i < num \<and> i < length sar \<and> spi (sar ! i) = s"
  using sa_ord.bsearch_found [OF assms [unfolded sa_spi_present_def]] by auto

end
