(* ===== verification/SP_Rules.thy ===== *)
theory SP_Rules
  imports SA_Types
begin

text \<open>
  What \<open>sp4.c\<close> and \<open>sp6.c\<close> have in common. The two files repeat the same token handlers on two
  rule types that differ only in their ACL fields; here the rule type is \<open>'f acl_rule\<close> with the
  fields as a parameter, and the handlers for \<open>esp\<close>, \<open>protect\<close>, \<open>bypass\<close>, \<open>discard\<close> and \<open>pri\<close>
  are written once. Both files also resolve the SPI of a rule to an SA index in
  \<open>check_spi_value\<close>.
\<close>

section \<open>Rules\<close>

record rule_data =
  category_mask :: u32
  priority :: u32
  userdata :: u32

record 'f acl_rule =
  data :: rule_data
  field :: 'f

text \<open>The locals of a \<open>parse_sp*_tokens\<close> call: the slot being filled and the presence flags.\<close>

record 'f sp_pst =
  sp_rule :: "'f acl_rule"
  esp_p :: bool
  protect_p :: bool
  bypass_p :: bool
  discard_p :: bool
  pri_p :: bool
  src_p :: bool
  dst_p :: bool
  proto_p :: bool
  sport_p :: bool
  dport_p :: bool

definition set_userdata :: "u32 \<Rightarrow> 'f sp_pst \<Rightarrow> 'f sp_pst" where
  "set_userdata w s = s\<lparr>sp_rule := (sp_rule s)\<lparr>data := (data (sp_rule s))\<lparr>userdata := w\<rparr>\<rparr>\<rparr>"

definition set_priority :: "u32 \<Rightarrow> 'f sp_pst \<Rightarrow> 'f sp_pst" where
  "set_priority w s = s\<lparr>sp_rule := (sp_rule s)\<lparr>data := (data (sp_rule s))\<lparr>priority := w\<rparr>\<rparr>\<rparr>"

definition set_field :: "('f \<Rightarrow> 'f) \<Rightarrow> 'f sp_pst \<Rightarrow> 'f sp_pst" where
  "set_field g s = s\<lparr>sp_rule := (sp_rule s)\<lparr>field := g (field (sp_rule s))\<rparr>\<rparr>"

lemmas sp_setters = set_userdata_def set_priority_def set_field_def

text \<open>The state on entry to the token loop: \<open>category_mask\<close> set, no option seen.\<close>

definition sp_start :: "'f acl_rule \<Rightarrow> 'f sp_pst" where
  "sp_start r = \<lparr>sp_rule = r\<lparr>data := (data r)\<lparr>category_mask := 1\<rparr>\<rparr>, esp_p = False,
     protect_p = False, bypass_p = False, discard_p = False, pri_p = False, src_p = False,
     dst_p = False, proto_p = False, sport_p = False, dport_p = False\<rparr>"

section \<open>Token handlers\<close>

definition sp_tok_esp :: "string \<Rightarrow> string list \<Rightarrow> 'f sp_pst \<Rightarrow> 'f sp_pst tok_result" where
  [token_defs]: "sp_tok_esp t rest s =
     app_check (\<not> esp_p s) (Already_present t) s (s\<lparr>esp_p := True\<rparr>, Inr rest)"

definition sp_tok_protect :: "string \<Rightarrow> string list \<Rightarrow> 'f sp_pst \<Rightarrow> 'f sp_pst tok_result" where
  [token_defs]: "sp_tok_protect t rest s =
     app_check (\<not> protect_p s) (Already_present t) s (
     app_check (\<not> bypass_p s) (Conflict t ''bypass'') s (
     app_check (\<not> discard_p s) (Conflict t ''discard'') s (
     next_token rest s (\<lambda>a rest'.
     app_check (is_str_num a) (Not_number a) s (
     let tv = atoi a in
     app_check (tv \<noteq> DISCARD \<and> tv \<noteq> BYPASS) (Invalid_SPI a) s
       ((set_userdata tv s)\<lparr>protect_p := True\<rparr>, Inr rest'))))))"

definition sp_tok_bypass :: "string \<Rightarrow> string list \<Rightarrow> 'f sp_pst \<Rightarrow> 'f sp_pst tok_result" where
  [token_defs]: "sp_tok_bypass t rest s =
     app_check (\<not> bypass_p s) (Already_present t) s (
     app_check (\<not> protect_p s) (Conflict t ''protect'') s (
     app_check (\<not> discard_p s) (Conflict t ''discard'') s
       ((set_userdata BYPASS s)\<lparr>bypass_p := True\<rparr>, Inr rest)))"

definition sp_tok_discard :: "string \<Rightarrow> string list \<Rightarrow> 'f sp_pst \<Rightarrow> 'f sp_pst tok_result" where
  [token_defs]: "sp_tok_discard t rest s =
     app_check (\<not> discard_p s) (Already_present t) s (
     app_check (\<not> protect_p s) (Conflict t ''protect'') s (
     app_check (\<not> bypass_p s) (Conflict t ''discard'') s
       ((set_userdata DISCARD s)\<lparr>discard_p := True\<rparr>, Inr rest)))"

definition sp_tok_pri :: "string \<Rightarrow> string list \<Rightarrow> 'f sp_pst \<Rightarrow> 'f sp_pst tok_result" where
  [token_defs]: "sp_tok_pri t rest s =
     app_check (\<not> pri_p s) (Already_present t) s (
     next_token rest s (\<lambda>a rest'.
     app_check (is_str_num a) (Not_number a) s
       ((set_priority (atoi a) s)\<lparr>pri_p := True\<rparr>, Inr rest')))"

text \<open>The handlers with a \<open>from:to\<close> argument, on the field setter of the rule type.\<close>

definition sp_tok_proto ::
  "(u8 \<times> u8 \<Rightarrow> 'f \<Rightarrow> 'f) \<Rightarrow> string \<Rightarrow> string list \<Rightarrow> 'f sp_pst \<Rightarrow> 'f sp_pst tok_result" where
  [token_defs]: "sp_tok_proto upd t rest s =
     app_check (\<not> proto_p s) (Already_present t) s (
     next_token rest s (\<lambda>a rest'.
     case parse_range a of
       None \<Rightarrow> (s, Inl (Bad_range a))
     | Some (low, high) \<Rightarrow>
         app_check (low \<le> 0xff) (Over_limit ''proto low'') s (
         app_check (high \<le> 0xff) (Over_limit ''proto high'') s
           ((set_field (upd (ucast low, ucast high)) s)\<lparr>proto_p := True\<rparr>, Inr rest'))))"

definition sp_tok_sport ::
  "(u16 \<times> u16 \<Rightarrow> 'f \<Rightarrow> 'f) \<Rightarrow> string \<Rightarrow> string list \<Rightarrow> 'f sp_pst \<Rightarrow> 'f sp_pst tok_result" where
  [token_defs]: "sp_tok_sport upd t rest s =
     app_check (\<not> sport_p s) (Already_present t) s (
     next_token rest s (\<lambda>a rest'.
     case parse_range a of
       None \<Rightarrow> (s, Inl (Bad_range a))
     | Some r \<Rightarrow> ((set_field (upd r) s)\<lparr>sport_p := True\<rparr>, Inr rest')))"

definition sp_tok_dport ::
  "(u16 \<times> u16 \<Rightarrow> 'f \<Rightarrow> 'f) \<Rightarrow> string \<Rightarrow> string list \<Rightarrow> 'f sp_pst \<Rightarrow> 'f sp_pst tok_result" where
  [token_defs]: "sp_tok_dport upd t rest s =
     app_check (\<not> dport_p s) (Already_present t) s (
     next_token rest s (\<lambda>a rest'.
     case parse_range a of
       None \<Rightarrow> (s, Inl (Bad_range a))
     | Some r \<Rightarrow> ((set_field (upd r) s)\<lparr>dport_p := True\<rparr>, Inr rest')))"

text \<open>The checks after the loop.\<close>

definition sp_finish :: "'f sp_pst \<Rightarrow> parse_error option" where
  "sp_finish s =
     (if \<not> esp_p s then Some (Missing ''esp'')
      else if \<not> (protect_p s \<or> bypass_p s \<or> discard_p s)
        then Some (Missing ''protect, bypass or discard'')
      else None)"

section \<open>The action invariant\<close>

text \<open>
  At most one action was given, and \<open>userdata\<close> encodes it: a real SPI for \<open>protect\<close>, the two
  reserved values for \<open>bypass\<close> and \<open>discard\<close>.
\<close>

definition sp_action_inv :: "'f sp_pst \<Rightarrow> bool" where
  "sp_action_inv s \<longleftrightarrow>
     category_mask (data (sp_rule s)) = 1 \<and>
     (protect_p s \<longrightarrow> \<not> bypass_p s \<and> \<not> discard_p s \<and>
        userdata (data (sp_rule s)) \<noteq> DISCARD \<and> userdata (data (sp_rule s)) \<noteq> BYPASS) \<and>
     (bypass_p s \<longrightarrow> \<not> discard_p s \<and> userdata (data (sp_rule s)) = BYPASS) \<and>
     (discard_p s \<longrightarrow> userdata (data (sp_rule s)) = DISCARD)"

lemma sp_action_inv_start [simp]: "sp_action_inv (sp_start r)"
  by (simp add: sp_action_inv_def sp_start_def)

lemma sp_tok_inv:
  "sp_action_inv s \<Longrightarrow> sp_action_inv (fst (sp_tok_esp t rest s))"
  "sp_action_inv s \<Longrightarrow> sp_action_inv (fst (sp_tok_protect t rest s))"
  "sp_action_inv s \<Longrightarrow> sp_action_inv (fst (sp_tok_bypass t rest s))"
  "sp_action_inv s \<Longrightarrow> sp_action_inv (fst (sp_tok_discard t rest s))"
  "sp_action_inv s \<Longrightarrow> sp_action_inv (fst (sp_tok_pri t rest s))"
  "sp_action_inv s \<Longrightarrow> sp_action_inv (fst (sp_tok_proto setp t rest s))"
  "sp_action_inv s \<Longrightarrow> sp_action_inv (fst (sp_tok_sport setr t rest s))"
  "sp_action_inv s \<Longrightarrow> sp_action_inv (fst (sp_tok_dport setr t rest s))"
  by (auto simp: sp_action_inv_def token_defs sp_setters Let_def split: list.splits option.splits)

lemma sp_tok_consumes:
  "sp_tok_esp t rest s = (s', Inr rest') \<Longrightarrow> length rest' \<le> length rest"
  "sp_tok_protect t rest s = (s', Inr rest') \<Longrightarrow> length rest' \<le> length rest"
  "sp_tok_bypass t rest s = (s', Inr rest') \<Longrightarrow> length rest' \<le> length rest"
  "sp_tok_discard t rest s = (s', Inr rest') \<Longrightarrow> length rest' \<le> length rest"
  "sp_tok_pri t rest s = (s', Inr rest') \<Longrightarrow> length rest' \<le> length rest"
  "sp_tok_proto setp t rest s = (s', Inr rest') \<Longrightarrow> length rest' \<le> length rest"
  "sp_tok_sport setr t rest s = (s', Inr rest') \<Longrightarrow> length rest' \<le> length rest"
  "sp_tok_dport setr t rest s = (s', Inr rest') \<Longrightarrow> length rest' \<le> length rest"
  by (auto simp: token_defs Let_def split: list.splits option.splits if_splits)

text \<open>The meaning of a stored rule, and what the invariant and the final checks say of it.\<close>

datatype sp_action = Protect u32 | Bypass | Discard

definition rule_action :: "'f acl_rule \<Rightarrow> sp_action" where
  "rule_action r =
     (if userdata (data r) = DISCARD then Discard
      else if userdata (data r) = BYPASS then Bypass
      else Protect (userdata (data r)))"

lemma rule_action_Protect:
  "rule_action r = Protect w \<longleftrightarrow> userdata (data r) = w \<and> w \<noteq> DISCARD \<and> w \<noteq> BYPASS"
  by (auto simp: rule_action_def)

definition flags_action :: "'f sp_pst \<Rightarrow> sp_action \<Rightarrow> bool" where
  "flags_action s a \<longleftrightarrow>
     (case a of
        Protect w \<Rightarrow> protect_p s \<and> \<not> bypass_p s \<and> \<not> discard_p s \<and> w \<noteq> DISCARD \<and> w \<noteq> BYPASS
      | Bypass \<Rightarrow> bypass_p s \<and> \<not> protect_p s \<and> \<not> discard_p s
      | Discard \<Rightarrow> discard_p s \<and> \<not> protect_p s \<and> \<not> bypass_p s)"

lemma sp_finish_action:
  assumes "sp_action_inv s" and "sp_finish s = None"
  shows "esp_p s \<and> flags_action s (rule_action (sp_rule s)) \<and> category_mask (data (sp_rule s)) = 1"
  using assms
  by (auto simp: sp_action_inv_def sp_finish_def flags_action_def rule_action_def split: if_splits)

text \<open>
  The flags trace back to the line: an option counts as seen only if its keyword is among the
  tokens \<open>T\<close>, and the SPI of a \<open>protect\<close> is the number one of them spells.
\<close>

definition spelled :: "string set \<Rightarrow> u32 \<Rightarrow> bool" where
  "spelled T w \<longleftrightarrow> (\<exists>a \<in> T. is_str_num a \<and> w = atoi a)"

lemma spelledI: "a \<in> T \<Longrightarrow> is_str_num a \<Longrightarrow> spelled T (atoi a)"
  by (auto simp: spelled_def)

definition sp_trace :: "string set \<Rightarrow> 'f sp_pst \<Rightarrow> bool" where
  "sp_trace T s \<longleftrightarrow>
     sp_action_inv s \<and> (esp_p s \<longrightarrow> ''esp'' \<in> T) \<and> (bypass_p s \<longrightarrow> ''bypass'' \<in> T) \<and>
     (discard_p s \<longrightarrow> ''discard'' \<in> T) \<and>
     (protect_p s \<longrightarrow> ''protect'' \<in> T \<and> spelled T (userdata (data (sp_rule s))))"

lemma sp_trace_start [simp]: "sp_trace T (sp_start r)"
  by (simp add: sp_trace_def) (simp add: sp_start_def)

lemma sp_trace_frame [simp]:
  "sp_trace T (set_field g s) = sp_trace T s"
  "sp_trace T (s\<lparr>src_p := b\<rparr>) = sp_trace T s"
  "sp_trace T (s\<lparr>dst_p := b\<rparr>) = sp_trace T s"
  by (simp_all add: sp_trace_def sp_action_inv_def set_field_def)

lemma sp_tok_trace_esp:
  "sp_trace T s \<Longrightarrow> set rest \<subseteq> T \<Longrightarrow> ''esp'' \<in> T \<Longrightarrow>
   sp_tok_esp ''esp'' rest s = (s', Inr rest') \<Longrightarrow> sp_trace T s' \<and> set rest' \<subseteq> T"
  by (cases rest) (clarsimp simp: sp_trace_def sp_action_inv_def sp_tok_esp_def app_check_def next_token_def
      sp_setters Let_def split: option.splits if_splits)+

lemma sp_tok_trace_protect:
  "sp_trace T s \<Longrightarrow> set rest \<subseteq> T \<Longrightarrow> ''protect'' \<in> T \<Longrightarrow>
   sp_tok_protect ''protect'' rest s = (s', Inr rest') \<Longrightarrow> sp_trace T s' \<and> set rest' \<subseteq> T"
  by (cases rest) (auto simp: sp_trace_def sp_action_inv_def sp_tok_protect_def app_check_def next_token_def
      sp_setters Let_def intro: spelledI split: option.splits if_splits)

lemma sp_tok_trace_bypass:
  "sp_trace T s \<Longrightarrow> set rest \<subseteq> T \<Longrightarrow> ''bypass'' \<in> T \<Longrightarrow>
   sp_tok_bypass ''bypass'' rest s = (s', Inr rest') \<Longrightarrow> sp_trace T s' \<and> set rest' \<subseteq> T"
  by (cases rest) (auto simp: sp_trace_def sp_action_inv_def sp_tok_bypass_def app_check_def next_token_def
      sp_setters Let_def intro: spelledI split: option.splits if_splits)

lemma sp_tok_trace_discard:
  "sp_trace T s \<Longrightarrow> set rest \<subseteq> T \<Longrightarrow> ''discard'' \<in> T \<Longrightarrow>
   sp_tok_discard ''discard'' rest s = (s', Inr rest') \<Longrightarrow> sp_trace T s' \<and> set rest' \<subseteq> T"
  by (cases rest) (auto simp: sp_trace_def sp_action_inv_def sp_tok_discard_def app_check_def next_token_def
      sp_setters Let_def intro: spelledI split: option.splits if_splits)

lemma sp_tok_trace_pri:
  "sp_trace T s \<Longrightarrow> set rest \<subseteq> T \<Longrightarrow>
   sp_tok_pri t rest s = (s', Inr rest') \<Longrightarrow> sp_trace T s' \<and> set rest' \<subseteq> T"
  by (cases rest) (clarsimp simp: sp_trace_def sp_action_inv_def sp_tok_pri_def app_check_def next_token_def
      sp_setters Let_def split: option.splits if_splits)+

lemma sp_tok_trace_proto:
  "sp_trace T s \<Longrightarrow> set rest \<subseteq> T \<Longrightarrow>
   sp_tok_proto upd t rest s = (s', Inr rest') \<Longrightarrow> sp_trace T s' \<and> set rest' \<subseteq> T"
  by (cases rest) (clarsimp simp: sp_trace_def sp_action_inv_def sp_tok_proto_def app_check_def next_token_def
      sp_setters Let_def split: option.splits if_splits)+

lemma sp_tok_trace_sport:
  "sp_trace T s \<Longrightarrow> set rest \<subseteq> T \<Longrightarrow>
   sp_tok_sport upd t rest s = (s', Inr rest') \<Longrightarrow> sp_trace T s' \<and> set rest' \<subseteq> T"
  by (cases rest) (clarsimp simp: sp_trace_def sp_action_inv_def sp_tok_sport_def app_check_def next_token_def
      sp_setters Let_def split: option.splits if_splits)+

lemma sp_tok_trace_dport:
  "sp_trace T s \<Longrightarrow> set rest \<subseteq> T \<Longrightarrow>
   sp_tok_dport upd t rest s = (s', Inr rest') \<Longrightarrow> sp_trace T s' \<and> set rest' \<subseteq> T"
  by (cases rest) (clarsimp simp: sp_trace_def sp_action_inv_def sp_tok_dport_def app_check_def next_token_def
      sp_setters Let_def split: option.splits if_splits)+

lemmas sp_tok_trace = sp_tok_trace_esp sp_tok_trace_protect sp_tok_trace_bypass sp_tok_trace_discard
  sp_tok_trace_pri sp_tok_trace_proto sp_tok_trace_sport sp_tok_trace_dport

text \<open>What an accepted rule means, and that the line says so.\<close>

definition rule_from :: "string set \<Rightarrow> 'f acl_rule \<Rightarrow> bool" where
  "rule_from T r \<longleftrightarrow>
     category_mask (data r) = 1 \<and> ''esp'' \<in> T \<and>
     (case rule_action r of
        Protect w \<Rightarrow> ''protect'' \<in> T \<and> spelled T w
      | Bypass \<Rightarrow> ''bypass'' \<in> T
      | Discard \<Rightarrow> ''discard'' \<in> T)"

lemma sp_trace_rule: "sp_trace T s \<Longrightarrow> sp_finish s = None \<Longrightarrow> rule_from T (sp_rule s)"
  by (auto simp: sp_trace_def sp_action_inv_def sp_finish_def rule_from_def rule_action_def
      split: if_splits)

section \<open>Filling a table slot\<close>

text \<open>
  The frame the two parsers share: extend the table, fill the slot by the token loop (\<open>run\<close>),
  check, and count the rule only if every check passed. A failed extension returns with the
  status as it was (no error), an unchanged count and no rule.
\<close>

definition sp_fill ::
  "(bool \<Rightarrow> 'f acl_rule vec \<Rightarrow> 'f acl_rule vec \<times> bool) \<Rightarrow>
   ('f sp_pst \<Rightarrow> 'f sp_pst \<times> parse_error option) \<Rightarrow> bool \<Rightarrow> 'f acl_rule vec \<Rightarrow>
   'f acl_rule vec \<times> parse_error option" where
  "sp_fill ext run mem_ok v =
     (case ext mem_ok v of
        (v1, False) \<Rightarrow> (v1, None)
      | (v1, True) \<Rightarrow>
          (case vec_slot v1 of
             None \<Rightarrow> (v1, Some Fault)
           | Some r \<Rightarrow>
               (case run (sp_start r) of
                  (s, Some e) \<Rightarrow> (vec_put_slot (sp_rule s) v1, Some e)
                | (s, None) \<Rightarrow>
                    (case sp_finish s of
                       Some e \<Rightarrow> (vec_put_slot (sp_rule s) v1, Some e)
                     | None \<Rightarrow> (vec_commit (vec_put_slot (sp_rule s) v1), None)))))"

lemma sp_fill_ok:
  fixes run :: "'f sp_pst \<Rightarrow> 'f sp_pst \<times> parse_error option"
  assumes ga: "grow_array ext" and v: "vec_ok v" and fill: "sp_fill ext run True v = (v', None)"
  shows "\<exists>r s. run (sp_start r) = (s, None) \<and> sp_finish s = None \<and> vec_ok v' \<and>
           vec_elems v' = vec_elems v @ [sp_rule s]"
proof -
  obtain v1 where v1: "ext True v = (v1, True)"
    using grow_array.extend_total [OF ga, of True v] by (cases "ext True v") auto
  from grow_array.slot_exists [OF ga v v1] obtain r where r: "vec_slot v1 = Some r" ..
  obtain s e where s: "run (sp_start r) = (s, e)" by force
  from fill v1 r s have e: "e = None" and fin: "sp_finish s = None"
    and v': "v' = vec_commit (vec_put_slot (sp_rule s) v1)"
    by (auto simp: sp_fill_def split: option.splits)
  show ?thesis
    using s e fin v' grow_array.commit_appends [OF ga v v1] by metis
qed

text \<open>Whatever the outcome, rules counted before stay in place, and at most one is added.\<close>

lemma sp_fill_frame:
  fixes run :: "'f sp_pst \<Rightarrow> 'f sp_pst \<times> parse_error option"
  assumes ga: "grow_array ext" and v: "vec_ok v" and fill: "sp_fill ext run True v = (v', Some e)"
  shows "vec_ok v' \<and> vec_elems v' = vec_elems v"
proof -
  obtain v1 where v1: "ext True v = (v1, True)"
    using grow_array.extend_total [OF ga, of True v] by (cases "ext True v") auto
  from grow_array.slot_exists [OF ga v v1] obtain r where r: "vec_slot v1 = Some r" ..
  obtain s e' where s: "run (sp_start r) = (s, e')" by force
  from fill v1 r s have "v' = vec_put_slot (sp_rule s) v1"
    by (auto simp: sp_fill_def split: option.splits)
  then show ?thesis
    using grow_array.put_slot_ok [OF ga v v1] by metis
qed

text \<open>On a table with clean slots the run starts from the zero rule, and the rule it fills is appended.\<close>

lemma sp_fill_clean:
  fixes run :: "'f sp_pst \<Rightarrow> 'f sp_pst \<times> parse_error option"
  assumes init: "0 < init" and v: "vec_ok v" "vec_clean z v"
    and run: "run (sp_start z) = (s, None)" "sp_finish s = None"
  shows "\<exists>v'. sp_fill (extend_arr init z) run True v = (v', None) \<and> vec_ok v' \<and> vec_clean z v' \<and>
           vec_elems v' = vec_elems v @ [sp_rule s]"
proof -
  have ga: "grow_array (extend_arr init z)" by (rule grow_array_extend_arr [OF init])
  obtain v1 where v1: "extend_arr init z True v = (v1, True)"
    using grow_array.extend_total [OF ga, of True v] by (cases "extend_arr init z True v") auto
  from extend_arr_clean [OF init v v1] have c: "vec_clean z v1" and r: "vec_slot v1 = Some z"
    by simp_all
  with v1 run have "sp_fill (extend_arr init z) run True v =
      (vec_commit (vec_put_slot (sp_rule s) v1), None)"
    by (simp add: sp_fill_def)
  then show ?thesis
    using grow_array.commit_appends [OF ga v(1) v1] commit_clean [OF c] by metis
qed

section \<open>The text of a rule\<close>

text \<open>
  The options of a rule line as data, and its tokens in the order of the user guide. An address is
  given by its text, the value \<open>inet_pton\<close> reads from it and its prefix length.
\<close>

record 'a sp_line =
  l_action :: sp_action
  l_pri :: "u32 option"
  l_src :: "(string \<times> 'a \<times> u32) option"
  l_dst :: "(string \<times> 'a \<times> u32) option"
  l_proto :: "(u8 \<times> u8) option"
  l_sport :: "(u16 \<times> u16) option"
  l_dport :: "(u16 \<times> u16) option"

definition action_toks :: "sp_action \<Rightarrow> string list" where
  "action_toks a =
     (case a of Protect w \<Rightarrow> [''protect'', show_dec (unat w)] | Bypass \<Rightarrow> [''bypass''] | Discard \<Rightarrow> [''discard''])"

definition opt_toks :: "string \<Rightarrow> ('b \<Rightarrow> string) \<Rightarrow> 'b option \<Rightarrow> string list" where
  "opt_toks kw f x = (case x of None \<Rightarrow> [] | Some y \<Rightarrow> [kw, f y])"

definition range_str :: "nat \<times> nat \<Rightarrow> string" where
  "range_str r = show_dec (fst r) @ CHR '':'' # show_dec (snd r)"

definition addr_str :: "string \<times> 'a \<times> u32 \<Rightarrow> string" where
  "addr_str a = fst a @ CHR ''/'' # show_dec (unat (snd (snd a)))"

definition sp_line_toks :: "'a sp_line \<Rightarrow> string list" where
  "sp_line_toks l =
     ''esp'' # action_toks (l_action l) @
     opt_toks ''pri'' (\<lambda>p. show_dec (unat p)) (l_pri l) @
     opt_toks ''src'' addr_str (l_src l) @
     opt_toks ''dst'' addr_str (l_dst l) @
     opt_toks ''proto'' (\<lambda>r. range_str (unat (fst r), unat (snd r))) (l_proto l) @
     opt_toks ''sport'' (\<lambda>r. range_str (unat (fst r), unat (snd r))) (l_sport l) @
     opt_toks ''dport'' (\<lambda>r. range_str (unat (fst r), unat (snd r))) (l_dport l)"

definition action_code :: "sp_action \<Rightarrow> u32" where
  "action_code a = (case a of Protect w \<Rightarrow> w | Bypass \<Rightarrow> BYPASS | Discard \<Rightarrow> DISCARD)"

definition action_ok :: "sp_action \<Rightarrow> bool" where
  "action_ok a \<longleftrightarrow> (case a of Protect w \<Rightarrow> w \<noteq> DISCARD \<and> w \<noteq> BYPASS | _ \<Rightarrow> True)"

lemma rule_action_code: "action_ok a \<Longrightarrow> userdata (data r) = action_code a \<Longrightarrow> rule_action r = a"
  by (auto simp: rule_action_def action_code_def action_ok_def split: sp_action.splits)

lemma parse_range_u16 [simp]:
  "parse_range (range_str (unat (lo :: u16), unat (hi :: u16))) = Some (lo, hi)"
  by (simp add: range_str_def parse_range_pair)

lemma unat_ucast_u8_u16: "unat (ucast (w :: u8) :: u16) = unat w"
  proof -
  have "unat w < 256" by (rule unat_u8_less)
  then have "unat w < 2 ^ 16" by simp
  then show ?thesis by (simp add: unsigned_ucast_eq take_bit_nat_eq_self)
qed

lemma parse_range_u8 [simp]:
  "parse_range (range_str (unat (lo :: u8), unat (hi :: u8))) = Some (ucast lo, ucast hi)"
  using parse_range_u16 [of "ucast lo" "ucast hi"] by (simp add: unat_ucast_u8_u16)

lemma u8_le_0xff [simp]: "(ucast (w :: u8) :: u16) \<le> 0xff"
proof -
  have "unat w < 256" by (rule unat_u8_less)
  then show ?thesis by (simp add: word_le_nat_alt unat_ucast_u8_u16)
qed

lemma ucast_u8_u16_u8 [simp]: "ucast (ucast (w :: u8) :: u16) = w"
  by (rule bit_word_eqI) (auto simp: bit_simps)

section \<open>Resolving SPIs to SA indices\<close>

text \<open>
  The loop of \<open>check_spi_value\<close> over the rules of one direction. \<open>present\<close> is
  \<open>sa_spi_present\<close> on the SA context of that direction. The rules already visited keep their
  rewritten \<open>userdata\<close> when the loop stops at an unknown SPI (\<open>False\<close>, the code's \<open>-ENOENT\<close>).
\<close>

fun check_spi_rules :: "(u32 \<Rightarrow> nat option) \<Rightarrow> 'f acl_rule list \<Rightarrow> 'f acl_rule list \<times> bool" where
  "check_spi_rules present [] = ([], True)"
| "check_spi_rules present (r # rs) =
     (let w = userdata (data r) in
      if w \<noteq> DISCARD \<and> w \<noteq> BYPASS then
        (case present w of
           None \<Rightarrow> (r # rs, False)
         | Some idx \<Rightarrow>
             (let (rs', ok) = check_spi_rules present rs
              in (r\<lparr>data := (data r)\<lparr>userdata := of_nat idx + 1\<rparr>\<rparr> # rs', ok)))
      else (let (rs', ok) = check_spi_rules present rs in (r # rs', ok)))"

text \<open>What the data path reads in a resolved rule: the action on the index plus one.\<close>

definition resolved :: "(u32 \<Rightarrow> nat option) \<Rightarrow> 'f acl_rule \<Rightarrow> 'f acl_rule \<Rightarrow> bool" where
  "resolved present r r' \<longleftrightarrow>
     field r' = field r \<and> priority (data r') = priority (data r) \<and>
     (case rule_action r of
        Protect w \<Rightarrow> (\<exists>i. present w = Some i \<and> userdata (data r') = of_nat i + 1)
      | _ \<Rightarrow> r' = r)"

lemma check_spi_rules_resolved:
  "check_spi_rules present rs = (rs', True) \<Longrightarrow> list_all2 (resolved present) rs rs'"
  by (induction rs arbitrary: rs')
    (auto simp: resolved_def rule_action_def Let_def split: prod.splits if_splits option.splits)

lemma check_spi_rules_fails:
  "snd (check_spi_rules present rs) \<longleftrightarrow>
     (\<forall>r \<in> set rs. \<forall>w. rule_action r = Protect w \<longrightarrow> present w \<noteq> None)"
proof (induction rs)
  case (Cons r rs)
  obtain rs' ok where rec: "check_spi_rules present rs = (rs', ok)" by force
  with Cons show ?case
    by (cases "present (userdata (data r))") (auto simp: rule_action_Protect Let_def)
qed simp

lemma length_check_spi_rules [simp]: "length (fst (check_spi_rules present rs)) = length rs"
  by (induction rs) (auto simp: Let_def split: prod.splits option.splits)

text \<open>The same on a table, with \<open>sas\<close> the array of the SA context the rules refer to.\<close>

definition check_spi_vec :: "ipsec_sa list \<Rightarrow> 'f acl_rule vec \<Rightarrow> 'f acl_rule vec \<times> bool" where
  "check_spi_vec sas v =
     (let (rs, ok) = check_spi_rules (\<lambda>w. sa_spi_present sas w (length sas)) (vec_elems v)
      in (vec_set_elems rs v, ok))"

definition resolved_in :: "ipsec_sa list \<Rightarrow> 'f acl_rule \<Rightarrow> 'f acl_rule \<Rightarrow> bool" where
  "resolved_in sas r r' \<longleftrightarrow>
     field r' = field r \<and> priority (data r') = priority (data r) \<and>
     (case rule_action r of
        Protect w \<Rightarrow> (\<exists>i < length sas. spi (sas ! i) = w \<and> userdata (data r') = of_nat i + 1)
      | _ \<Rightarrow> r' = r)"

lemma resolved_in_present:
  "resolved (\<lambda>w. sa_spi_present sas w (length sas)) r r' \<Longrightarrow> resolved_in sas r r'"
  by (auto simp: resolved_def resolved_in_def dest: sa_spi_present_found split: sp_action.splits)

lemma check_spi_vec_ok:
  assumes "vec_ok v" and "check_spi_vec sas v = (v', ok)"
  shows "vec_ok v' \<and> v_cnt v' = v_cnt v"
proof -
  let ?p = "\<lambda>w. sa_spi_present sas w (length sas)"
  have "length (fst (check_spi_rules ?p (vec_elems v))) = v_cnt v"
    by (simp add: length_vec_elems [OF assms(1)])
  then have "vec_ok (vec_set_elems (fst (check_spi_rules ?p (vec_elems v))) v)"
    by (rule vec_set_elems_ok [OF assms(1)])
  with assms(2) show ?thesis
    by (auto simp: check_spi_vec_def vec_set_elems_def split: prod.splits)
qed

lemma check_spi_vec_resolved:
  assumes "vec_ok v" and "check_spi_vec sas v = (v', True)"
  shows "list_all2 (resolved_in sas) (vec_elems v) (vec_elems v')"
proof -
  let ?p = "\<lambda>w. sa_spi_present sas w (length sas)"
  obtain rs where rs: "check_spi_rules ?p (vec_elems v) = (rs, True)" and v': "v' = vec_set_elems rs v"
    using assms(2) by (auto simp: check_spi_vec_def split: prod.splits)
  have "length rs = v_cnt v"
    using rs length_check_spi_rules [of ?p "vec_elems v"] length_vec_elems [OF assms(1)] by simp
  then have "vec_elems v' = rs" by (simp add: v' vec_set_elems_ok [OF assms(1)])
  moreover have "list_all2 (resolved_in sas) (vec_elems v) rs"
    by (rule list_all2_mono [OF check_spi_rules_resolved [OF rs]]) (rule resolved_in_present)
  ultimately show ?thesis by simp
qed

section \<open>The socket context\<close>

text \<open>
  The part of \<open>struct socket_ctx\<close> the rule files use. An ACL context is built by \<open>librte_acl\<close>:
  \<open>acl_build\<close> stands for \<open>rte_acl_create\<close>, \<open>rte_acl_add_rules\<close> and \<open>rte_acl_build\<close> on a name and
  a list of rules, \<open>None\<close> for a failure of any of them. \<open>Inl\<close> is a call of \<open>rte_exit\<close>.
\<close>

datatype exit_cause = Sp_in_initialized | Sp_out_initialized | Sp_in_unmatched | Sp_out_unmatched
  | Acl_failure

type_synonym ('f, 'c) acl_build = "string \<Rightarrow> int \<Rightarrow> 'f acl_rule list \<Rightarrow> 'c option"

definition acl_init :: "('f, 'c) acl_build \<Rightarrow> string \<Rightarrow> int \<Rightarrow> 'f acl_rule list \<Rightarrow> exit_cause + 'c" where
  "acl_init build name socketid rules =
     (case build name socketid rules of None \<Rightarrow> Inl Acl_failure | Some ctx \<Rightarrow> Inr ctx)"

text \<open>A context is built only for a direction that has rules.\<close>

definition acl_init_opt ::
  "('f, 'c) acl_build \<Rightarrow> string \<Rightarrow> int \<Rightarrow> 'f acl_rule vec \<Rightarrow> exit_cause + 'c option" where
  "acl_init_opt build name socket_id v =
     (if 0 < v_cnt v then
        (case acl_init build name socket_id (vec_elems v) of Inl e \<Rightarrow> Inl e | Inr c \<Rightarrow> Inr (Some c))
      else Inr None)"

lemma acl_init_opt_Some:
  "acl_init_opt build name sid v = Inr c \<Longrightarrow> (c \<noteq> None) = (0 < v_cnt v)"
  by (auto simp: acl_init_opt_def split: if_splits sum.splits)

end
