(* ===== verification/SP4.thy ===== *)
theory SP4
  imports SP_Rules
begin

text \<open>
  The IPv4 security policies, \<open>sp4.c\<close>: the rule tables of both directions, the parser of an
  \<open>sp ipv4\<close> line, the resolution of SPIs (\<open>check_spi_value\<close>, \<open>sp4_init\<close>) and the sorted search
  (\<open>sp4_sort_arr\<close>, \<open>sp4_spi_present\<close>).
\<close>

section \<open>Rules and tables\<close>

text \<open>
  The fields of \<open>struct acl4_rules\<close>, each a value and a mask or upper bound: protocol, source,
  destination, source port, destination port.
\<close>

record fields4 =
  proto4 :: "u8 \<times> u8"
  src4 :: "u32 \<times> u32"
  dst4 :: "u32 \<times> u32"
  sport4 :: "u16 \<times> u16"
  dport4 :: "u16 \<times> u16"

type_synonym acl4_rule = "fields4 acl_rule"

definition INIT_ACL_RULE_NUM :: nat where "INIT_ACL_RULE_NUM = 128"

definition zero_rule4 :: acl4_rule where
  "zero_rule4 = \<lparr>data = \<lparr>category_mask = 0, priority = 0, userdata = 0\<rparr>,
     field = \<lparr>proto4 = (0, 0), src4 = (0, 0), dst4 = (0, 0), sport4 = (0, 0), dport4 = (0, 0)\<rparr>\<rparr>"

record sp4_db =
  acl4_rules_in :: "acl4_rule vec"
  acl4_rules_out :: "acl4_rule vec"

definition sp4_empty :: sp4_db where
  "sp4_empty = \<lparr>acl4_rules_in = vec_empty, acl4_rules_out = vec_empty\<rparr>"

definition extend_sp4_arr :: "bool \<Rightarrow> acl4_rule vec \<Rightarrow> acl4_rule vec \<times> bool" where
  "extend_sp4_arr = extend_arr INIT_ACL_RULE_NUM zero_rule4"

interpretation sp4_arr: grow_array extend_sp4_arr
  unfolding extend_sp4_arr_def INIT_ACL_RULE_NUM_def by (rule grow_array_extend_arr) simp

section \<open>Parsing a rule\<close>

type_synonym sp4_pst = "fields4 sp_pst"

definition sp4_tok_src :: "inet \<Rightarrow> string \<Rightarrow> string list \<Rightarrow> sp4_pst \<Rightarrow> sp4_pst tok_result" where
  [token_defs]: "sp4_tok_src lib t rest s =
     app_check (\<not> src_p s) (Already_present t) s (
     next_token rest s (\<lambda>a rest'.
     case parse_ipv4_addr lib a of
       None \<Rightarrow> (s, Inl (Bad_addr a))
     | Some (ip, depth) \<Rightarrow>
         ((set_field (src4_update (\<lambda>_. (bswap32 ip, depth))) s)\<lparr>src_p := True\<rparr>, Inr rest')))"

definition sp4_tok_dst :: "inet \<Rightarrow> string \<Rightarrow> string list \<Rightarrow> sp4_pst \<Rightarrow> sp4_pst tok_result" where
  [token_defs]: "sp4_tok_dst lib t rest s =
     app_check (\<not> dst_p s) (Already_present t) s (
     next_token rest s (\<lambda>a rest'.
     case parse_ipv4_addr lib a of
       None \<Rightarrow> (s, Inl (Bad_addr a))
     | Some (ip, depth) \<Rightarrow>
         ((set_field (dst4_update (\<lambda>_. (bswap32 ip, depth))) s)\<lparr>dst_p := True\<rparr>, Inr rest')))"

text \<open>The chain of \<open>strcmp\<close> cases in the body of the loop.\<close>

definition sp4_step :: "inet \<Rightarrow> string \<Rightarrow> string list \<Rightarrow> sp4_pst \<Rightarrow> sp4_pst tok_result" where
  "sp4_step lib t rest s =
     (if t = ''esp'' then sp_tok_esp t rest s
      else if t = ''protect'' then sp_tok_protect t rest s
      else if t = ''bypass'' then sp_tok_bypass t rest s
      else if t = ''discard'' then sp_tok_discard t rest s
      else if t = ''pri'' then sp_tok_pri t rest s
      else if t = ''src'' then sp4_tok_src lib t rest s
      else if t = ''dst'' then sp4_tok_dst lib t rest s
      else if t = ''proto'' then sp_tok_proto (\<lambda>r. proto4_update (\<lambda>_. r)) t rest s
      else if t = ''sport'' then sp_tok_sport (\<lambda>r. sport4_update (\<lambda>_. r)) t rest s
      else if t = ''dport'' then sp_tok_dport (\<lambda>r. dport4_update (\<lambda>_. r)) t rest s
      else (s, Inl (Unrecognized t)))"

lemma sp4_tok_addr_consumes:
  "sp4_tok_src lib t rest s = (s', Inr rest') \<Longrightarrow> length rest' \<le> length rest"
  "sp4_tok_dst lib t rest s = (s', Inr rest') \<Longrightarrow> length rest' \<le> length rest"
  by (auto simp: token_defs split: list.splits option.splits if_splits)

lemma sp4_tok_addr_inv:
  "sp_action_inv s \<Longrightarrow> sp_action_inv (fst (sp4_tok_src lib t rest s))"
  "sp_action_inv s \<Longrightarrow> sp_action_inv (fst (sp4_tok_dst lib t rest s))"
  by (auto simp: sp_action_inv_def token_defs sp_setters split: list.splits option.splits)

lemma sp4_step_consumes: "sp4_step lib t rest s = (s', Inr rest') \<Longrightarrow> length rest' \<le> length rest"
  unfolding sp4_step_def
  by (auto split: if_split_asm dest: sp_tok_consumes sp4_tok_addr_consumes)

lemma sp4_step_inv: "sp_action_inv s \<Longrightarrow> sp_action_inv (fst (sp4_step lib t rest s))"
  by (simp add: sp4_step_def sp_tok_inv sp4_tok_addr_inv)

function sp4_loop :: "inet \<Rightarrow> string list \<Rightarrow> sp4_pst \<Rightarrow> sp4_pst \<times> parse_error option" where
  "sp4_loop lib [] s = (s, None)"
| "sp4_loop lib (t # rest) s =
     (case sp4_step lib t rest s of
        (s', Inl e) \<Rightarrow> (s', Some e)
      | (s', Inr rest') \<Rightarrow> sp4_loop lib rest' s')"
  by pat_completeness auto
termination
  by (relation "measure (\<lambda>(lib, toks, s). length toks)") (auto dest!: sym sp4_step_consumes)

interpretation sp4_toks: token_loop "sp4_step lib" "sp4_loop lib" for lib
  by unfold_locales (simp_all add: sp4_step_consumes)

text \<open>
  \<open>parse_sp4_tokens\<close> on the tokens of a line (\<open>tokens[0]\<close> is \<open>ipv4\<close>, \<open>tokens[1]\<close> the direction).
  \<open>mem_ok\<close> is the outcome of the allocation the call may make.
\<close>

definition parse_sp4_tokens ::
  "inet \<Rightarrow> bool \<Rightarrow> string list \<Rightarrow> sp4_db \<Rightarrow> sp4_db \<times> parse_error option" where
  "parse_sp4_tokens lib mem_ok toks db =
     (if length toks < 2 then (db, Some Fault)
      else if toks ! 1 = ''in'' then
        (let (v, e) = sp_fill extend_sp4_arr (sp4_loop lib (drop 2 toks)) mem_ok (acl4_rules_in db)
         in (db\<lparr>acl4_rules_in := v\<rparr>, e))
      else if toks ! 1 = ''out'' then
        (let (v, e) = sp_fill extend_sp4_arr (sp4_loop lib (drop 2 toks)) mem_ok (acl4_rules_out db)
         in (db\<lparr>acl4_rules_out := v\<rparr>, e))
      else (db, Some (Unrecognized (toks ! 0))))"

definition sp4_ok :: "sp4_db \<Rightarrow> bool" where
  "sp4_ok db \<longleftrightarrow> vec_ok (acl4_rules_in db) \<and> vec_ok (acl4_rules_out db)"

lemma sp4_ok_empty [simp]: "sp4_ok sp4_empty"
  by (simp add: sp4_ok_def sp4_empty_def)

lemma sp4_rules_of:
  assumes "parse_sp4_tokens lib True toks db = (db', None)" and "sp4_ok db"
  shows "sp4_ok db' \<and> (\<exists>r s. sp4_loop lib (drop 2 toks) (sp_start r) = (s, None) \<and> sp_finish s = None \<and>
    (if toks ! 1 = ''in''
     then vec_elems (acl4_rules_in db') = vec_elems (acl4_rules_in db) @ [sp_rule s] \<and>
       acl4_rules_out db' = acl4_rules_out db
     else toks ! 1 = ''out'' \<and> acl4_rules_in db' = acl4_rules_in db \<and>
       vec_elems (acl4_rules_out db') = vec_elems (acl4_rules_out db) @ [sp_rule s]))"
  using assms
  by (auto simp: parse_sp4_tokens_def sp4_ok_def split: if_splits prod.splits
      dest!: sp_fill_ok [OF sp4_arr.grow_array_axioms, rotated]) blast+

section \<open>The options of a line\<close>

text \<open>One lemma per option: what the loop does on its tokens when the option was not seen before.\<close>

declare sp4_loop.simps(2) [simp del]

lemma sp4_seg_esp:
  "\<not> esp_p s \<Longrightarrow> sp4_loop lib (''esp'' # rest) s = sp4_loop lib rest (s\<lparr>esp_p := True\<rparr>)"
  by (simp add: sp4_loop.simps sp4_step_def token_defs)

lemma sp4_seg_action:
  "action_ok a \<Longrightarrow> \<not> protect_p s \<Longrightarrow> \<not> bypass_p s \<Longrightarrow> \<not> discard_p s \<Longrightarrow>
   sp4_loop lib (action_toks a @ rest) s =
     sp4_loop lib rest ((set_userdata (action_code a) s)\<lparr>protect_p := (\<exists>w. a = Protect w),
       bypass_p := (a = Bypass), discard_p := (a = Discard)\<rparr>)"
  by (cases s; cases a) (simp_all add: sp4_loop.simps sp4_step_def token_defs action_toks_def action_ok_def action_code_def
      set_userdata_def)

lemma sp4_seg_pri:
  "\<not> pri_p s \<Longrightarrow>
   sp4_loop lib (opt_toks ''pri'' (\<lambda>p. show_dec (unat p)) x @ rest) s =
     sp4_loop lib rest ((set_priority (case x of None \<Rightarrow> priority (data (sp_rule s)) | Some p \<Rightarrow> p) s)
       \<lparr>pri_p := (x \<noteq> None)\<rparr>)"
  by (cases s; cases x) (simp_all add: sp4_loop.simps sp4_step_def token_defs opt_toks_def set_priority_def)

definition addr4_ok :: "inet \<Rightarrow> (string \<times> u32 \<times> u32) option \<Rightarrow> bool" where
  "addr4_ok lib x \<longleftrightarrow>
     (case x of None \<Rightarrow> True
      | Some (a, ip, d) \<Rightarrow> list_all (\<lambda>c. c \<noteq> CHR ''/'') a \<and> length a \<le> 15 \<and> inet_pton4 lib a = Some ip)"

lemma parse_addr4: "addr4_ok lib (Some x) \<Longrightarrow> parse_ipv4_addr lib (addr_str x) = Some (snd x)"
  using parse_ipv4_addr_mask [of "fst x" "unat (snd (snd x))" lib] unat_u32_less [of "snd (snd x)"]
  by (cases x) (simp add: addr4_ok_def addr_str_def)

lemma sp4_seg_src:
  "\<not> src_p s \<Longrightarrow> addr4_ok lib x \<Longrightarrow>
   sp4_loop lib (opt_toks ''src'' addr_str x @ rest) s =
     sp4_loop lib rest ((set_field (\<lambda>f. f\<lparr>src4 := (case x of None \<Rightarrow> src4 f | Some (a, ip, d) \<Rightarrow> (bswap32 ip, d))\<rparr>) s)
       \<lparr>src_p := (x \<noteq> None)\<rparr>)"
  by (cases s; cases x) (auto simp: sp4_loop.simps sp4_step_def token_defs opt_toks_def set_field_def parse_addr4)

lemma sp4_seg_dst:
  "\<not> dst_p s \<Longrightarrow> addr4_ok lib x \<Longrightarrow>
   sp4_loop lib (opt_toks ''dst'' addr_str x @ rest) s =
     sp4_loop lib rest ((set_field (\<lambda>f. f\<lparr>dst4 := (case x of None \<Rightarrow> dst4 f | Some (a, ip, d) \<Rightarrow> (bswap32 ip, d))\<rparr>) s)
       \<lparr>dst_p := (x \<noteq> None)\<rparr>)"
  by (cases s; cases x) (auto simp: sp4_loop.simps sp4_step_def token_defs opt_toks_def set_field_def parse_addr4)

lemma sp4_seg_proto:
  "\<not> proto_p s \<Longrightarrow>
   sp4_loop lib (opt_toks ''proto'' (\<lambda>r. range_str (unat (fst r), unat (snd r))) x @ rest) s =
     sp4_loop lib rest ((set_field (\<lambda>f. f\<lparr>proto4 := (case x of None \<Rightarrow> proto4 f | Some r \<Rightarrow> r)\<rparr>) s)
       \<lparr>proto_p := (x \<noteq> None)\<rparr>)"
  by (cases s; cases x) (auto simp: sp4_loop.simps sp4_step_def token_defs opt_toks_def set_field_def)

lemma sp4_seg_ports:
  "\<not> sport_p s \<Longrightarrow>
   sp4_loop lib (opt_toks ''sport'' (\<lambda>r. range_str (unat (fst r), unat (snd r))) x @ rest) s =
     sp4_loop lib rest ((set_field (\<lambda>f. f\<lparr>sport4 := (case x of None \<Rightarrow> sport4 f | Some r \<Rightarrow> r)\<rparr>) s)
       \<lparr>sport_p := (x \<noteq> None)\<rparr>)"
  "\<not> dport_p s \<Longrightarrow>
   sp4_loop lib (opt_toks ''dport'' (\<lambda>r. range_str (unat (fst r), unat (snd r))) x) s =
     sp4_loop lib [] ((set_field (\<lambda>f. f\<lparr>dport4 := (case x of None \<Rightarrow> dport4 f | Some r \<Rightarrow> r)\<rparr>) s)
       \<lparr>dport_p := (x \<noteq> None)\<rparr>)"
  by (cases s; cases x; auto simp: sp4_loop.simps sp4_step_def token_defs opt_toks_def set_field_def)+

lemmas sp4_segs = sp4_seg_esp sp4_seg_action sp4_seg_pri sp4_seg_src sp4_seg_dst sp4_seg_proto
  sp4_seg_ports

text \<open>The rule a line describes: options left out are zero.\<close>

definition addr4_field :: "(string \<times> u32 \<times> u32) option \<Rightarrow> u32 \<times> u32" where
  "addr4_field x = (case x of None \<Rightarrow> (0, 0) | Some (a, ip, d) \<Rightarrow> (bswap32 ip, d))"

definition line_rule4 :: "u32 sp_line \<Rightarrow> acl4_rule" where
  "line_rule4 l =
     \<lparr>data = \<lparr>category_mask = 1, priority = (case l_pri l of None \<Rightarrow> 0 | Some p \<Rightarrow> p),
        userdata = action_code (l_action l)\<rparr>,
      field = \<lparr>proto4 = (case l_proto l of None \<Rightarrow> (0, 0) | Some r \<Rightarrow> r),
        src4 = addr4_field (l_src l), dst4 = addr4_field (l_dst l),
        sport4 = (case l_sport l of None \<Rightarrow> (0, 0) | Some r \<Rightarrow> r),
        dport4 = (case l_dport l of None \<Rightarrow> (0, 0) | Some r \<Rightarrow> r)\<rparr>\<rparr>"

definition line4_ok :: "inet \<Rightarrow> u32 sp_line \<Rightarrow> bool" where
  "line4_ok lib l \<longleftrightarrow> action_ok (l_action l) \<and> addr4_ok lib (l_src l) \<and> addr4_ok lib (l_dst l)"

lemma sp4_loop_line:
  assumes "line4_ok lib l"
  shows "\<exists>s. sp4_loop lib (sp_line_toks l) (sp_start zero_rule4) = (s, None) \<and>
           sp_finish s = None \<and> sp_rule s = line_rule4 l"
  using assms
  by (cases "l_action l")
    (simp_all add: line4_ok_def sp_line_toks_def sp4_segs sp_start_def sp_setters zero_rule4_def
      sp_finish_def line_rule4_def addr4_field_def cong: option.case_cong)

section \<open>Resolution\<close>

text \<open>
  The rules are global while the contexts are per socket: \<open>sp4_init\<close> takes and returns both. The
  SA contexts appear by \<open>sa_spi_present\<close> on their arrays. On \<open>rte_exit\<close> nothing is returned.
\<close>

record 'c socket_sp4 =
  sa_in :: "ipsec_sa list"
  sa_out :: "ipsec_sa list"
  sp_ip4_in :: "'c option"
  sp_ip4_out :: "'c option"

definition check_spi_value4 :: "ipsec_sa list \<Rightarrow> bool \<Rightarrow> sp4_db \<Rightarrow> sp4_db \<times> bool" where
  "check_spi_value4 sas inbound db =
     (if inbound then
        (let (v, ok) = check_spi_vec sas (acl4_rules_in db) in (db\<lparr>acl4_rules_in := v\<rparr>, ok))
      else
        (let (v, ok) = check_spi_vec sas (acl4_rules_out db) in (db\<lparr>acl4_rules_out := v\<rparr>, ok)))"

definition sp4_init ::
  "(fields4, 'c) acl_build \<Rightarrow> int \<Rightarrow> 'c socket_sp4 \<Rightarrow> sp4_db \<Rightarrow> exit_cause + ('c socket_sp4 \<times> sp4_db)" where
  "sp4_init build socket_id ctx db =
     (if sp_ip4_in ctx \<noteq> None then Inl Sp_in_initialized
      else if sp_ip4_out ctx \<noteq> None then Inl Sp_out_initialized
      else let (db1, ok1) = check_spi_value4 (sa_in ctx) True db in
        if \<not> ok1 then Inl Sp_in_unmatched
        else let (db2, ok2) = check_spi_value4 (sa_out ctx) False db1 in
          if \<not> ok2 then Inl Sp_out_unmatched
          else case acl_init_opt build ''sp_ip4_in'' socket_id (acl4_rules_in db2) of
              Inl e \<Rightarrow> Inl e
            | Inr cin \<Rightarrow>
                (case acl_init_opt build ''sp_ip4_out'' socket_id (acl4_rules_out db2) of
                   Inl e \<Rightarrow> Inl e
                 | Inr cout \<Rightarrow>
                     Inr (ctx\<lparr>sp_ip4_in := (case cin of None \<Rightarrow> sp_ip4_in ctx | Some c \<Rightarrow> Some c),
                       sp_ip4_out := (case cout of None \<Rightarrow> sp_ip4_out ctx | Some c \<Rightarrow> Some c)\<rparr>, db2)))"

section \<open>Sorting and searching\<close>

definition sp4_cmp :: "acl4_rule \<Rightarrow> acl4_rule \<Rightarrow> int" where
  "sp4_cmp p q = spi_diff (userdata (data p)) (userdata (data q))"

definition sp4_sort_arr :: "sp4_db \<Rightarrow> sp4_db" where
  "sp4_sort_arr db =
     db\<lparr>acl4_rules_in := vec_set_elems (c_qsort sp4_cmp (vec_elems (acl4_rules_in db))) (acl4_rules_in db),
        acl4_rules_out := vec_set_elems (c_qsort sp4_cmp (vec_elems (acl4_rules_out db))) (acl4_rules_out db)\<rparr>"

text \<open>
  The index of a rule with the SPI, with the addresses and masks the caller asks for: source and
  destination, the addresses back in network byte order. \<open>None\<close> is \<open>-ENOENT\<close>.
\<close>

definition sp4_spi_present ::
  "sp4_db \<Rightarrow> u32 \<Rightarrow> bool \<Rightarrow> (nat \<times> (u32 \<times> u32) \<times> (u32 \<times> u32)) option" where
  "sp4_spi_present db w inbound =
     (let acr = vec_elems (if inbound then acl4_rules_in db else acl4_rules_out db);
          tmpl = zero_rule4\<lparr>data := (data zero_rule4)\<lparr>userdata := w\<rparr>\<rparr>
      in case bsearch (sp4_cmp tmpl) acr of
           None \<Rightarrow> None
         | Some i \<Rightarrow>
             (let f = field (acr ! i)
              in Some (i, (bswap32 (fst (src4 f)), snd (src4 f)), (bswap32 (fst (dst4 f)), snd (dst4 f)))))"

interpretation sp4_ord: spi_order sp4_cmp "\<lambda>r. userdata (data r)"
  by unfold_locales (simp add: sp4_cmp_def)

lemma sp4_sort_elems:
  assumes "sp4_ok db"
  shows "vec_elems (acl4_rules_in (sp4_sort_arr db)) = c_qsort sp4_cmp (vec_elems (acl4_rules_in db))"
    and "vec_elems (acl4_rules_out (sp4_sort_arr db)) = c_qsort sp4_cmp (vec_elems (acl4_rules_out db))"
    and "sp4_ok (sp4_sort_arr db)"
  using assms by (simp_all add: sp4_sort_arr_def sp4_ok_def vec_set_elems_ok length_vec_elems)

section \<open>Properties\<close>

lemma sp4_tok_addr_trace:
  "sp_trace T s \<Longrightarrow> set rest \<subseteq> T \<Longrightarrow>
   sp4_tok_src lib t rest s = (s', Inr rest') \<Longrightarrow> sp_trace T s' \<and> set rest' \<subseteq> T"
  "sp_trace T s \<Longrightarrow> set rest \<subseteq> T \<Longrightarrow>
   sp4_tok_dst lib t rest s = (s', Inr rest') \<Longrightarrow> sp_trace T s' \<and> set rest' \<subseteq> T"
  by (cases rest; auto simp: token_defs split: option.splits if_splits)+

lemma sp4_step_trace:
  assumes "t \<in> T" and "set rest \<subseteq> T" and "sp_trace T s" and "sp4_step lib t rest s = (s', Inr rest')"
  shows "sp_trace T s' \<and> set rest' \<subseteq> T"
  using assms(1,4) unfolding sp4_step_def
  by (auto split: if_split_asm dest: sp_tok_trace [OF assms(3,2)] sp4_tok_addr_trace [OF assms(3,2)])

lemma sp4_loop_trace:
  "sp4_loop lib toks (sp_start r) = (s, None) \<Longrightarrow> sp_finish s = None \<Longrightarrow> rule_from (set toks) (sp_rule s)"
  using sp4_toks.loop_trace [where T = "set toks" and I = "sp_trace (set toks)", OF _ order_refl sp_trace_start]
    sp4_step_trace sp_trace_rule by metis

text \<open>
  C20. A line \<open>parse_sp4_tokens\<close> accepts adds exactly one rule, at the end of the table of the
  direction it names, and leaves the other table alone. The rule has category mask 1, its line
  contains \<open>esp\<close>, and its action is one the line spells out: a discard rule comes only from
  \<open>discard\<close>, a bypass rule only from \<open>bypass\<close>, and a protect rule carries the number of a token.
\<close>

theorem parse_sp4_accepts:
  assumes "sp4_ok db" and "parse_sp4_tokens lib True toks db = (db', None)"
  shows "sp4_ok db' \<and> (\<exists>r. rule_from (set (drop 2 toks)) r \<and>
    (if toks ! 1 = ''in''
     then vec_elems (acl4_rules_in db') = vec_elems (acl4_rules_in db) @ [r] \<and>
       acl4_rules_out db' = acl4_rules_out db
     else toks ! 1 = ''out'' \<and> acl4_rules_in db' = acl4_rules_in db \<and>
       vec_elems (acl4_rules_out db') = vec_elems (acl4_rules_out db) @ [r]))"
  using sp4_rules_of [OF assms(2,1)] sp4_loop_trace by metis

theorem parse_sp4_accepts_witness:
  "\<exists>db' r. parse_sp4_tokens sample_inet True [''ipv4'', ''in'', ''esp'', ''discard''] sp4_empty = (db', None) \<and>
     vec_elems (acl4_rules_in db') = [r] \<and> rule_from {''esp'', ''discard''} r"
proof -
  obtain db' e where p:
    "parse_sp4_tokens sample_inet True [''ipv4'', ''in'', ''esp'', ''discard''] sp4_empty = (db', e)"
    by force
  then have "e = None"
    by (auto simp: parse_sp4_tokens_def sp4_empty_def sp_fill_def extend_sp4_arr_def extend_arr_def
        vec_empty_def vec_slot_def INIT_ACL_RULE_NUM_def sp4_loop.simps sp4_step_def token_defs
        sp_start_def sp_setters sp_finish_def)
  with p parse_sp4_accepts [OF sp4_ok_empty] show ?thesis
    by (fastforce simp: sp4_empty_def insert_commute)
qed

text \<open>
  C27. A line \<open>parse_sp4_tokens\<close> rejects with an error changes no rule: both tables hold the rules
  they held, in the same order, and stay well formed.
\<close>

theorem parse_sp4_rejects:
  assumes "sp4_ok db" and "parse_sp4_tokens lib True toks db = (db', Some e)"
  shows "sp4_ok db' \<and> vec_elems (acl4_rules_in db') = vec_elems (acl4_rules_in db) \<and>
    vec_elems (acl4_rules_out db') = vec_elems (acl4_rules_out db)"
  using assms
  by (auto simp: parse_sp4_tokens_def sp4_ok_def split: if_splits prod.splits
      dest!: sp_fill_frame [OF sp4_arr.grow_array_axioms, rotated])

theorem parse_sp4_rejects_witness:
  "\<exists>db'. parse_sp4_tokens sample_inet True [''ipv4'', ''in'', ''esp''] sp4_empty =
      (db', Some (Missing ''protect, bypass or discard'')) \<and> vec_elems (acl4_rules_in db') = []"
proof -
  obtain db' e where p: "parse_sp4_tokens sample_inet True [''ipv4'', ''in'', ''esp''] sp4_empty = (db', e)"
    by force
  then have "e = Some (Missing ''protect, bypass or discard'')"
    by (auto simp: parse_sp4_tokens_def sp4_empty_def sp_fill_def extend_sp4_arr_def extend_arr_def
        vec_empty_def vec_slot_def INIT_ACL_RULE_NUM_def sp4_loop.simps sp4_step_def token_defs
        sp_start_def sp_setters sp_finish_def)
  with p parse_sp4_rejects [OF sp4_ok_empty] show ?thesis
    by (fastforce simp: sp4_empty_def)
qed

text \<open>
  C26. The tokens of an inbound line in the order of the user guide, whatever options it has, parse
  back to the rule the line describes: each option lands in its ACL field, options left out are zero,
  and the rule is appended to the inbound table.
\<close>

theorem parse_sp4_line:
  assumes "sp4_ok db" and "vec_clean zero_rule4 (acl4_rules_in db)" and "line4_ok lib l"
  shows "\<exists>v. parse_sp4_tokens lib True (''ipv4'' # ''in'' # sp_line_toks l) db =
      (db\<lparr>acl4_rules_in := v\<rparr>, None) \<and>
    vec_elems v = vec_elems (acl4_rules_in db) @ [line_rule4 l] \<and>
    rule_action (line_rule4 l) = l_action l \<and> vec_clean zero_rule4 v"
proof -
  obtain s where s: "sp4_loop lib (sp_line_toks l) (sp_start zero_rule4) = (s, None)"
    "sp_finish s = None" "sp_rule s = line_rule4 l"
    using sp4_loop_line [OF assms(3)] by blast
  have v: "vec_ok (acl4_rules_in db)" using assms(1) by (simp add: sp4_ok_def)
  have "rule_action (line_rule4 l) = l_action l"
    using assms(3) by (intro rule_action_code) (simp_all add: line4_ok_def line_rule4_def)
  then show ?thesis
    using sp_fill_clean [OF _ v assms(2), of INIT_ACL_RULE_NUM "sp4_loop lib (sp_line_toks l)" s] s
    by (auto simp: parse_sp4_tokens_def extend_sp4_arr_def INIT_ACL_RULE_NUM_def)
qed

definition sample_line4 :: "u32 sp_line" where
  "sample_line4 = \<lparr>l_action = Protect 5, l_pri = Some 1, l_src = Some (''192.168.1.0'', 0x0001A8C0, 24),
     l_dst = None, l_proto = None, l_sport = Some (0, 65535), l_dport = Some (80, 80)\<rparr>"

theorem parse_sp4_line_witness:
  "\<exists>v. parse_sp4_tokens sample_inet True (''ipv4'' # ''in'' # sp_line_toks sample_line4) sp4_empty =
      (sp4_empty\<lparr>acl4_rules_in := v\<rparr>, None) \<and> vec_elems v = [line_rule4 sample_line4]"
  using parse_sp4_line [of sp4_empty sample_inet sample_line4]
  by (auto simp: sp4_empty_def sp4_ok_def line4_ok_def sample_line4_def action_ok_def addr4_ok_def
      sample_inet_def)

text \<open>
  After \<open>sp4_sort_arr\<close>, \<open>sp4_spi_present\<close> decides membership: when the SPIs involved lie in
  one half of the 32-bit circle, the search finds an index exactly when some inbound rule of the
  unsorted table carries the SPI, and the index it returns is that of a rule with the SPI.
\<close>

theorem sp4_sorted_search:
  assumes "sp4_ok db" and "rs = vec_elems (acl4_rules_in db)"
    and "spi_window b (insert w ((\<lambda>r. userdata (data r)) ` set rs))"
  shows "(sp4_spi_present (sp4_sort_arr db) w True \<noteq> None \<longleftrightarrow> w \<in> (\<lambda>r. userdata (data r)) ` set rs) \<and>
    (\<forall>i a m. sp4_spi_present (sp4_sort_arr db) w True = Some (i, a, m) \<longrightarrow>
       i < length rs \<and> userdata (data (vec_elems (acl4_rules_in (sp4_sort_arr db)) ! i)) = w)"
proof -
  let ?t = "zero_rule4\<lparr>data := (data zero_rule4)\<lparr>userdata := w\<rparr>\<rparr>"
  let ?s = "c_qsort sp4_cmp rs"
  have win: "spi_window b ((\<lambda>r. userdata (data r)) ` set (?t # ?s))"
    using assms(3) by (simp add: spi_window_def)
  have sorted: "sorted (map (\<lambda>x. unat (userdata (data x) - b)) ?s)"
    using assms(3) by (intro sp4_ord.qsort_sorted) (simp add: spi_window_def)
  have el: "vec_elems (acl4_rules_in (sp4_sort_arr db)) = ?s"
    using sp4_sort_elems(1) [OF assms(1)] assms(2) by simp
  show ?thesis
    using sp4_ord.bsearch_decides [OF win sorted] sp4_ord.bsearch_found [of ?t ?s]
    by (auto simp: sp4_spi_present_def el Let_def split: option.splits)
qed

definition sample_db4 :: sp4_db where
  "sample_db4 = sp4_empty\<lparr>acl4_rules_in :=
     \<lparr>v_tbl = Some (map (\<lambda>w. zero_rule4\<lparr>data := \<lparr>category_mask = 1, priority = 0, userdata = w\<rparr>\<rparr>) [7, 5] @ [zero_rule4]),
      v_cnt = 2, v_sz = 3\<rparr>\<rparr>"

theorem sp4_sorted_search_witness:
  "sp4_spi_present (sp4_sort_arr sample_db4) 5 True \<noteq> None \<and>
   sp4_spi_present (sp4_sort_arr sample_db4) 6 True = None"
proof -
  have ok: "sp4_ok sample_db4"
    by (simp add: sample_db4_def sp4_ok_def vec_ok_def sp4_empty_def vec_empty_def)
  have ids: "(\<lambda>r. userdata (data r)) ` set (vec_elems (acl4_rules_in sample_db4)) = {7, 5}"
    by (simp add: sample_db4_def sp4_empty_def vec_elems_def)
  have win: "spi_window 0 (insert w ((\<lambda>r. userdata (data r)) ` set (vec_elems (acl4_rules_in sample_db4))))"
    if "w \<in> {5, 6}" for w
    using that unfolding ids by (auto simp: spi_window_def)
  show ?thesis
    using conjunct1 [OF sp4_sorted_search [OF ok refl win, of 5]]
      conjunct1 [OF sp4_sorted_search [OF ok refl win, of 6]]
    unfolding ids by (simp del: not_None_eq)
qed

text \<open>
  When \<open>sp4_init\<close> succeeds, every protect rule of both directions has been resolved: its SPI
  is that of an SA of the socket's context and \<open>userdata\<close> is that SA's index plus one; bypass and
  discard rules, fields and priorities are as parsed, and a context exists exactly for the
  directions that have rules.
\<close>

theorem sp4_init_resolves:
  assumes "sp4_ok db" and "sp4_init build sid ctx db = Inr (ctx', db')"
  shows "list_all2 (resolved_in (sa_in ctx)) (vec_elems (acl4_rules_in db)) (vec_elems (acl4_rules_in db')) \<and>
    list_all2 (resolved_in (sa_out ctx)) (vec_elems (acl4_rules_out db)) (vec_elems (acl4_rules_out db')) \<and>
    (sp_ip4_in ctx' \<noteq> None \<longleftrightarrow> vec_elems (acl4_rules_in db) \<noteq> []) \<and>
    (sp_ip4_out ctx' \<noteq> None \<longleftrightarrow> vec_elems (acl4_rules_out db) \<noteq> [])"
proof -
  obtain v w where c1: "check_spi_vec (sa_in ctx) (acl4_rules_in db) = (v, True)"
    and c2: "check_spi_vec (sa_out ctx) (acl4_rules_out db) = (w, True)"
    and db': "acl4_rules_in db' = v" "acl4_rules_out db' = w"
    and ctx: "(sp_ip4_in ctx' \<noteq> None) = (0 < v_cnt v)" "(sp_ip4_out ctx' \<noteq> None) = (0 < v_cnt w)"
    using assms(2)
    by (fastforce simp: sp4_init_def check_spi_value4_def Let_def
        split: if_splits prod.splits sum.splits option.splits dest: acl_init_opt_Some)
  have ok: "vec_ok (acl4_rules_in db)" "vec_ok (acl4_rules_out db)"
    using assms(1) by (simp_all add: sp4_ok_def)
  show ?thesis
    using check_spi_vec_resolved [OF ok(1) c1] check_spi_vec_resolved [OF ok(2) c2]
      check_spi_vec_ok [OF ok(1) c1] check_spi_vec_ok [OF ok(2) c2] ctx db'
      length_vec_elems [OF ok(1)] length_vec_elems [OF ok(2)] by auto
qed

theorem sp4_init_resolves_witness:
  "\<exists>ctx' db'. sp4_init (\<lambda>n s rs. Some (length rs)) 0
       \<lparr>sa_in = [zero_sa\<lparr>spi := 5\<rparr>, zero_sa\<lparr>spi := 7\<rparr>], sa_out = [], sp_ip4_in = None, sp_ip4_out = None\<rparr>
       sample_db4 = Inr (ctx', db') \<and>
     list_all2 (resolved_in [zero_sa\<lparr>spi := 5\<rparr>, zero_sa\<lparr>spi := 7\<rparr>])
       (vec_elems (acl4_rules_in sample_db4)) (vec_elems (acl4_rules_in db')) \<and>
     sp_ip4_in ctx' \<noteq> None"
proof -
  let ?ctx = "\<lparr>sa_in = [zero_sa\<lparr>spi := 5\<rparr>, zero_sa\<lparr>spi := 7\<rparr>], sa_out = [], sp_ip4_in = None, sp_ip4_out = None\<rparr>"
  have ok: "sp4_ok sample_db4"
    by (simp add: sample_db4_def sp4_ok_def vec_ok_def sp4_empty_def vec_empty_def)
  have pres: "sa_spi_present (sa_in ?ctx) 5 (length (sa_in ?ctx)) = Some 0"
    "sa_spi_present (sa_in ?ctx) 7 (length (sa_in ?ctx)) = Some 1"
    by (simp_all add: sa_spi_present_def bsearch_def bsearch_loop.simps sa_cmp_def spi_diff_def)
  obtain r where r: "sp4_init (\<lambda>n s rs. Some (length rs)) 0 ?ctx sample_db4 = Inr r"
    using pres
    by (simp add: sp4_init_def check_spi_value4_def check_spi_vec_def sample_db4_def sp4_empty_def vec_empty_def
        vec_elems_def zero_rule4_def acl_init_opt_def acl_init_def vec_set_elems_def)
  obtain ctx' db' where "r = (ctx', db')" by force
  with r have run: "sp4_init (\<lambda>n s rs. Some (length rs)) 0 ?ctx sample_db4 = Inr (ctx', db')" by simp
  have ne: "vec_elems (acl4_rules_in sample_db4) \<noteq> []"
    by (simp add: sample_db4_def sp4_empty_def vec_elems_def)
  show ?thesis
    using sp4_init_resolves [OF ok run] run ne by auto
qed

end
