(* ===== verification/SP6.thy ===== *)
theory SP6
  imports SP_Rules
begin

text \<open>
  The IPv6 security policies, \<open>sp6.c\<close>. The module repeats \<open>sp4.c\<close> on a rule with eleven fields:
  an address is kept as four 32-bit words, each with its share of the prefix length.
\<close>

section \<open>Rules and tables\<close>

text \<open>
  \<open>src6\<close> and \<open>dst6\<close> are the four ACL fields of an address, most significant word first: value and
  mask of \<open>field[1..4]\<close> and \<open>field[5..8]\<close>.
\<close>

record fields6 =
  proto6 :: "u8 \<times> u8"
  src6 :: "(u32 \<times> u32) list"
  dst6 :: "(u32 \<times> u32) list"
  sport6 :: "u16 \<times> u16"
  dport6 :: "u16 \<times> u16"

type_synonym acl6_rule = "fields6 acl_rule"

definition INIT_ACL_RULE_NUM6 :: nat where "INIT_ACL_RULE_NUM6 = 128"

definition zero_rule6 :: acl6_rule where
  "zero_rule6 = \<lparr>data = \<lparr>category_mask = 0, priority = 0, userdata = 0\<rparr>,
     field = \<lparr>proto6 = (0, 0), src6 = replicate 4 (0, 0), dst6 = replicate 4 (0, 0),
       sport6 = (0, 0), dport6 = (0, 0)\<rparr>\<rparr>"

record sp6_db =
  acl6_rules_in :: "acl6_rule vec"
  acl6_rules_out :: "acl6_rule vec"

definition sp6_empty :: sp6_db where
  "sp6_empty = \<lparr>acl6_rules_in = vec_empty, acl6_rules_out = vec_empty\<rparr>"

definition extend_sp6_arr :: "bool \<Rightarrow> acl6_rule vec \<Rightarrow> acl6_rule vec \<times> bool" where
  "extend_sp6_arr = extend_arr INIT_ACL_RULE_NUM6 zero_rule6"

interpretation sp6_arr: grow_array extend_sp6_arr
  unfolding extend_sp6_arr_def INIT_ACL_RULE_NUM6_def by (rule grow_array_extend_arr) simp

section \<open>Addresses as four words\<close>

text \<open>The share of a prefix length that falls on each word, most significant first.\<close>

definition depth_words :: "u32 \<Rightarrow> u32 list" where
  "depth_words d0 =
     (let m1 = (if 32 < d0 then 32 else d0); d1 = (if 32 < d0 then d0 - 32 else 0);
          m2 = (if 32 < d1 then 32 else d1); d2 = (if 32 < d1 then d1 - 32 else 0);
          m3 = (if 32 < d2 then 32 else d2); d3 = (if 32 < d2 then d2 - 32 else 0);
          m4 = (if 32 < d3 then 32 else d3)
      in [m1, m2, m3, m4])"

text \<open>The values and masks stored for the 16 address bytes and a prefix length.\<close>

definition addr6_fields :: "u8 list \<Rightarrow> u32 \<Rightarrow> (u32 \<times> u32) list" where
  "addr6_fields a d =
     zip [u32_of_bytes (a ! 0) (a ! 1) (a ! 2) (a ! 3), u32_of_bytes (a ! 4) (a ! 5) (a ! 6) (a ! 7),
          u32_of_bytes (a ! 8) (a ! 9) (a ! 10) (a ! 11), u32_of_bytes (a ! 12) (a ! 13) (a ! 14) (a ! 15)]
       (depth_words d)"

text \<open>\<open>IPV6_FROM_SP\<close>, the address bytes it yields in network order, and the mask sums.\<close>

definition IPV6_FROM_SP :: "(u32 \<times> u32) list \<Rightarrow> nat \<Rightarrow> nat \<Rightarrow> u64" where
  "IPV6_FROM_SP f lo hi = push_bit 32 (ucast (fst (f ! hi))) OR ucast (fst (f ! lo))"

definition IPV6_ADDR_FROM_SP :: "(u32 \<times> u32) list \<Rightarrow> u8 list" where
  "IPV6_ADDR_FROM_SP f = bytes_of_u64 (IPV6_FROM_SP f 1 0) @ bytes_of_u64 (IPV6_FROM_SP f 3 2)"

definition IPV6_MASK_FROM_SP :: "(u32 \<times> u32) list \<Rightarrow> u32" where
  "IPV6_MASK_FROM_SP f = snd (f ! 0) + snd (f ! 1) + snd (f ! 2) + snd (f ! 3)"

section \<open>Parsing a rule\<close>

type_synonym sp6_pst = "fields6 sp_pst"

definition sp6_tok_src :: "inet \<Rightarrow> string \<Rightarrow> string list \<Rightarrow> sp6_pst \<Rightarrow> sp6_pst tok_result" where
  [token_defs]: "sp6_tok_src lib t rest s =
     app_check (\<not> src_p s) (Already_present t) s (
     next_token rest s (\<lambda>a rest'.
     case parse_ipv6_addr lib a of
       None \<Rightarrow> (s, Inl (Bad_addr a))
     | Some (ip, depth) \<Rightarrow>
         ((set_field (src6_update (\<lambda>_. addr6_fields ip depth)) s)\<lparr>src_p := True\<rparr>, Inr rest')))"

definition sp6_tok_dst :: "inet \<Rightarrow> string \<Rightarrow> string list \<Rightarrow> sp6_pst \<Rightarrow> sp6_pst tok_result" where
  [token_defs]: "sp6_tok_dst lib t rest s =
     app_check (\<not> dst_p s) (Already_present t) s (
     next_token rest s (\<lambda>a rest'.
     case parse_ipv6_addr lib a of
       None \<Rightarrow> (s, Inl (Bad_addr a))
     | Some (ip, depth) \<Rightarrow>
         ((set_field (dst6_update (\<lambda>_. addr6_fields ip depth)) s)\<lparr>dst_p := True\<rparr>, Inr rest')))"

definition sp6_tok_proto :: "string \<Rightarrow> string list \<Rightarrow> sp6_pst \<Rightarrow> sp6_pst tok_result" where
  [token_defs]: "sp6_tok_proto = sp_tok_proto (\<lambda>r. proto6_update (\<lambda>_. r))"

definition sp6_tok_sport :: "string \<Rightarrow> string list \<Rightarrow> sp6_pst \<Rightarrow> sp6_pst tok_result" where
  [token_defs]: "sp6_tok_sport = sp_tok_sport (\<lambda>r. sport6_update (\<lambda>_. r))"

definition sp6_tok_dport :: "string \<Rightarrow> string list \<Rightarrow> sp6_pst \<Rightarrow> sp6_pst tok_result" where
  [token_defs]: "sp6_tok_dport = sp_tok_dport (\<lambda>r. dport6_update (\<lambda>_. r))"

lemmas sp6_shared = sp6_tok_proto_def sp6_tok_sport_def sp6_tok_dport_def

text \<open>The chain of \<open>strcmp\<close> cases in the body of the loop.\<close>

definition sp6_step :: "inet \<Rightarrow> string \<Rightarrow> string list \<Rightarrow> sp6_pst \<Rightarrow> sp6_pst tok_result" where
  "sp6_step lib t rest s =
     (if t = ''esp'' then sp_tok_esp t rest s
      else if t = ''protect'' then sp_tok_protect t rest s
      else if t = ''bypass'' then sp_tok_bypass t rest s
      else if t = ''discard'' then sp_tok_discard t rest s
      else if t = ''pri'' then sp_tok_pri t rest s
      else if t = ''src'' then sp6_tok_src lib t rest s
      else if t = ''dst'' then sp6_tok_dst lib t rest s
      else if t = ''proto'' then sp6_tok_proto t rest s
      else if t = ''sport'' then sp6_tok_sport t rest s
      else if t = ''dport'' then sp6_tok_dport t rest s
      else (s, Inl (Unrecognized t)))"

lemma sp6_tok_addr_consumes:
  "sp6_tok_src lib t rest s = (s', Inr rest') \<Longrightarrow> length rest' \<le> length rest"
  "sp6_tok_dst lib t rest s = (s', Inr rest') \<Longrightarrow> length rest' \<le> length rest"
  by (auto simp: token_defs split: list.splits option.splits if_splits)

lemma sp6_tok_addr_inv:
  "sp_action_inv s \<Longrightarrow> sp_action_inv (fst (sp6_tok_src lib t rest s))"
  "sp_action_inv s \<Longrightarrow> sp_action_inv (fst (sp6_tok_dst lib t rest s))"
  by (auto simp: sp_action_inv_def token_defs sp_setters split: list.splits option.splits)

lemma sp6_step_consumes: "sp6_step lib t rest s = (s', Inr rest') \<Longrightarrow> length rest' \<le> length rest"
  unfolding sp6_step_def sp6_shared
  by (auto split: if_split_asm dest: sp_tok_consumes sp6_tok_addr_consumes)

lemma sp6_step_inv: "sp_action_inv s \<Longrightarrow> sp_action_inv (fst (sp6_step lib t rest s))"
  by (simp add: sp6_step_def sp6_shared sp_tok_inv sp6_tok_addr_inv)

function sp6_loop :: "inet \<Rightarrow> string list \<Rightarrow> sp6_pst \<Rightarrow> sp6_pst \<times> parse_error option" where
  "sp6_loop lib [] s = (s, None)"
| "sp6_loop lib (t # rest) s =
     (case sp6_step lib t rest s of
        (s', Inl e) \<Rightarrow> (s', Some e)
      | (s', Inr rest') \<Rightarrow> sp6_loop lib rest' s')"
  by pat_completeness auto
termination
  by (relation "measure (\<lambda>(lib, toks, s). length toks)") (auto dest!: sym sp6_step_consumes)

interpretation sp6_toks: token_loop "sp6_step lib" "sp6_loop lib" for lib
  by unfold_locales (simp_all add: sp6_step_consumes)

text \<open>
  \<open>parse_sp6_tokens\<close> on the tokens of a line (\<open>tokens[0]\<close> is \<open>ipv6\<close>, \<open>tokens[1]\<close> the direction).
  \<open>mem_ok\<close> is the outcome of the allocation the call may make.
\<close>

definition parse_sp6_tokens ::
  "inet \<Rightarrow> bool \<Rightarrow> string list \<Rightarrow> sp6_db \<Rightarrow> sp6_db \<times> parse_error option" where
  "parse_sp6_tokens lib mem_ok toks db =
     (if length toks < 2 then (db, Some Fault)
      else if toks ! 1 = ''in'' then
        (let (v, e) = sp_fill extend_sp6_arr (sp6_loop lib (drop 2 toks)) mem_ok (acl6_rules_in db)
         in (db\<lparr>acl6_rules_in := v\<rparr>, e))
      else if toks ! 1 = ''out'' then
        (let (v, e) = sp_fill extend_sp6_arr (sp6_loop lib (drop 2 toks)) mem_ok (acl6_rules_out db)
         in (db\<lparr>acl6_rules_out := v\<rparr>, e))
      else (db, Some (Unrecognized (toks ! 0))))"

definition sp6_ok :: "sp6_db \<Rightarrow> bool" where
  "sp6_ok db \<longleftrightarrow> vec_ok (acl6_rules_in db) \<and> vec_ok (acl6_rules_out db)"

lemma sp6_ok_empty [simp]: "sp6_ok sp6_empty"
  by (simp add: sp6_ok_def sp6_empty_def)

lemma sp6_rules_of:
  assumes "parse_sp6_tokens lib True toks db = (db', None)" and "sp6_ok db"
  shows "sp6_ok db' \<and> (\<exists>r s. sp6_loop lib (drop 2 toks) (sp_start r) = (s, None) \<and> sp_finish s = None \<and>
    (if toks ! 1 = ''in''
     then vec_elems (acl6_rules_in db') = vec_elems (acl6_rules_in db) @ [sp_rule s] \<and>
       acl6_rules_out db' = acl6_rules_out db
     else toks ! 1 = ''out'' \<and> acl6_rules_in db' = acl6_rules_in db \<and>
       vec_elems (acl6_rules_out db') = vec_elems (acl6_rules_out db) @ [sp_rule s]))"
  using assms
  by (auto simp: parse_sp6_tokens_def sp6_ok_def split: if_splits prod.splits
      dest!: sp_fill_ok [OF sp6_arr.grow_array_axioms, rotated]) blast+

section \<open>The options of a line\<close>

text \<open>One lemma per option: what the loop does on its tokens when the option was not seen before.\<close>

declare sp6_loop.simps(2) [simp del]

lemma sp6_seg_esp:
  "\<not> esp_p s \<Longrightarrow> sp6_loop lib (''esp'' # rest) s = sp6_loop lib rest (s\<lparr>esp_p := True\<rparr>)"
  by (simp add: sp6_loop.simps sp6_step_def token_defs)

lemma sp6_seg_action:
  "action_ok a \<Longrightarrow> \<not> protect_p s \<Longrightarrow> \<not> bypass_p s \<Longrightarrow> \<not> discard_p s \<Longrightarrow>
   sp6_loop lib (action_toks a @ rest) s =
     sp6_loop lib rest ((set_userdata (action_code a) s)\<lparr>protect_p := (\<exists>w. a = Protect w),
       bypass_p := (a = Bypass), discard_p := (a = Discard)\<rparr>)"
  by (cases s; cases a) (simp_all add: sp6_loop.simps sp6_step_def token_defs action_toks_def action_ok_def action_code_def
      set_userdata_def)

lemma sp6_seg_pri:
  "\<not> pri_p s \<Longrightarrow>
   sp6_loop lib (opt_toks ''pri'' (\<lambda>p. show_dec (unat p)) x @ rest) s =
     sp6_loop lib rest ((set_priority (case x of None \<Rightarrow> priority (data (sp_rule s)) | Some p \<Rightarrow> p) s)
       \<lparr>pri_p := (x \<noteq> None)\<rparr>)"
  by (cases s; cases x) (simp_all add: sp6_loop.simps sp6_step_def token_defs opt_toks_def set_priority_def)

definition addr6_ok :: "inet \<Rightarrow> (string \<times> u8 list \<times> u32) option \<Rightarrow> bool" where
  "addr6_ok lib x \<longleftrightarrow>
     (case x of None \<Rightarrow> True
      | Some (a, ip, d) \<Rightarrow> list_all (\<lambda>c. c \<noteq> CHR ''/'') a \<and> length a \<le> 45 \<and> inet_pton6 lib a = Some ip)"

lemma parse_addr6: "addr6_ok lib (Some x) \<Longrightarrow> parse_ipv6_addr lib (addr_str x) = Some (snd x)"
  using parse_ipv6_addr_mask [of "fst x" "unat (snd (snd x))" lib] unat_u32_less [of "snd (snd x)"]
  by (cases x) (simp add: addr6_ok_def addr_str_def)

lemma sp6_seg_src:
  "\<not> src_p s \<Longrightarrow> addr6_ok lib x \<Longrightarrow>
   sp6_loop lib (opt_toks ''src'' addr_str x @ rest) s =
     sp6_loop lib rest ((set_field (\<lambda>f. f\<lparr>src6 := (case x of None \<Rightarrow> src6 f | Some (a, ip, d) \<Rightarrow> addr6_fields ip d)\<rparr>) s)
       \<lparr>src_p := (x \<noteq> None)\<rparr>)"
  by (cases s; cases x) (auto simp: sp6_loop.simps sp6_step_def token_defs opt_toks_def set_field_def parse_addr6)

lemma sp6_seg_dst:
  "\<not> dst_p s \<Longrightarrow> addr6_ok lib x \<Longrightarrow>
   sp6_loop lib (opt_toks ''dst'' addr_str x @ rest) s =
     sp6_loop lib rest ((set_field (\<lambda>f. f\<lparr>dst6 := (case x of None \<Rightarrow> dst6 f | Some (a, ip, d) \<Rightarrow> addr6_fields ip d)\<rparr>) s)
       \<lparr>dst_p := (x \<noteq> None)\<rparr>)"
  by (cases s; cases x) (auto simp: sp6_loop.simps sp6_step_def token_defs opt_toks_def set_field_def parse_addr6)

lemma sp6_seg_proto:
  "\<not> proto_p s \<Longrightarrow>
   sp6_loop lib (opt_toks ''proto'' (\<lambda>r. range_str (unat (fst r), unat (snd r))) x @ rest) s =
     sp6_loop lib rest ((set_field (\<lambda>f. f\<lparr>proto6 := (case x of None \<Rightarrow> proto6 f | Some r \<Rightarrow> r)\<rparr>) s)
       \<lparr>proto_p := (x \<noteq> None)\<rparr>)"
  by (cases s; cases x) (auto simp: sp6_loop.simps sp6_step_def token_defs opt_toks_def set_field_def)

lemma sp6_seg_ports:
  "\<not> sport_p s \<Longrightarrow>
   sp6_loop lib (opt_toks ''sport'' (\<lambda>r. range_str (unat (fst r), unat (snd r))) x @ rest) s =
     sp6_loop lib rest ((set_field (\<lambda>f. f\<lparr>sport6 := (case x of None \<Rightarrow> sport6 f | Some r \<Rightarrow> r)\<rparr>) s)
       \<lparr>sport_p := (x \<noteq> None)\<rparr>)"
  "\<not> dport_p s \<Longrightarrow>
   sp6_loop lib (opt_toks ''dport'' (\<lambda>r. range_str (unat (fst r), unat (snd r))) x) s =
     sp6_loop lib [] ((set_field (\<lambda>f. f\<lparr>dport6 := (case x of None \<Rightarrow> dport6 f | Some r \<Rightarrow> r)\<rparr>) s)
       \<lparr>dport_p := (x \<noteq> None)\<rparr>)"
  by (cases s; cases x; auto simp: sp6_loop.simps sp6_step_def token_defs opt_toks_def set_field_def)+

lemmas sp6_segs = sp6_seg_esp sp6_seg_action sp6_seg_pri sp6_seg_src sp6_seg_dst sp6_seg_proto
  sp6_seg_ports

text \<open>The rule a line describes: options left out are zero.\<close>

definition addr6_field :: "(string \<times> u8 list \<times> u32) option \<Rightarrow> (u32 \<times> u32) list" where
  "addr6_field x = (case x of None \<Rightarrow> replicate 4 (0, 0) | Some (a, ip, d) \<Rightarrow> addr6_fields ip d)"

definition line_rule6 :: "u8 list sp_line \<Rightarrow> acl6_rule" where
  "line_rule6 l =
     \<lparr>data = \<lparr>category_mask = 1, priority = (case l_pri l of None \<Rightarrow> 0 | Some p \<Rightarrow> p),
        userdata = action_code (l_action l)\<rparr>,
      field = \<lparr>proto6 = (case l_proto l of None \<Rightarrow> (0, 0) | Some r \<Rightarrow> r),
        src6 = addr6_field (l_src l), dst6 = addr6_field (l_dst l),
        sport6 = (case l_sport l of None \<Rightarrow> (0, 0) | Some r \<Rightarrow> r),
        dport6 = (case l_dport l of None \<Rightarrow> (0, 0) | Some r \<Rightarrow> r)\<rparr>\<rparr>"

definition line6_ok :: "inet \<Rightarrow> u8 list sp_line \<Rightarrow> bool" where
  "line6_ok lib l \<longleftrightarrow> action_ok (l_action l) \<and> addr6_ok lib (l_src l) \<and> addr6_ok lib (l_dst l)"

lemma sp6_loop_line:
  assumes "line6_ok lib l"
  shows "\<exists>s. sp6_loop lib (sp_line_toks l) (sp_start zero_rule6) = (s, None) \<and>
           sp_finish s = None \<and> sp_rule s = line_rule6 l"
  using assms
  by (cases "l_action l")
    (simp_all add: line6_ok_def sp_line_toks_def sp6_segs sp_start_def sp_setters zero_rule6_def
      sp_finish_def line_rule6_def addr6_field_def cong: option.case_cong)

section \<open>Resolution\<close>

text \<open>
  The rules are global while the contexts are per socket: \<open>sp6_init\<close> takes and returns both. The
  SA contexts appear by \<open>sa_spi_present\<close> on their arrays. On \<open>rte_exit\<close> nothing is returned.
\<close>

record 'c socket_sp6 =
  sa6_in :: "ipsec_sa list"
  sa6_out :: "ipsec_sa list"
  sp_ip6_in :: "'c option"
  sp_ip6_out :: "'c option"

definition check_spi_value6 :: "ipsec_sa list \<Rightarrow> bool \<Rightarrow> sp6_db \<Rightarrow> sp6_db \<times> bool" where
  "check_spi_value6 sas inbound db =
     (if inbound then
        (let (v, ok) = check_spi_vec sas (acl6_rules_in db) in (db\<lparr>acl6_rules_in := v\<rparr>, ok))
      else
        (let (v, ok) = check_spi_vec sas (acl6_rules_out db) in (db\<lparr>acl6_rules_out := v\<rparr>, ok)))"

definition sp6_init ::
  "(fields6, 'c) acl_build \<Rightarrow> int \<Rightarrow> 'c socket_sp6 \<Rightarrow> sp6_db \<Rightarrow> exit_cause + ('c socket_sp6 \<times> sp6_db)" where
  "sp6_init build socket_id ctx db =
     (if sp_ip6_in ctx \<noteq> None then Inl Sp_in_initialized
      else if sp_ip6_out ctx \<noteq> None then Inl Sp_out_initialized
      else let (db1, ok1) = check_spi_value6 (sa6_in ctx) True db in
        if \<not> ok1 then Inl Sp_in_unmatched
        else let (db2, ok2) = check_spi_value6 (sa6_out ctx) False db1 in
          if \<not> ok2 then Inl Sp_out_unmatched
          else case acl_init_opt build ''sp_ip6_in'' socket_id (acl6_rules_in db2) of
              Inl e \<Rightarrow> Inl e
            | Inr cin \<Rightarrow>
                (case acl_init_opt build ''sp_ip6_out'' socket_id (acl6_rules_out db2) of
                   Inl e \<Rightarrow> Inl e
                 | Inr cout \<Rightarrow>
                     Inr (ctx\<lparr>sp_ip6_in := (case cin of None \<Rightarrow> sp_ip6_in ctx | Some c \<Rightarrow> Some c),
                       sp_ip6_out := (case cout of None \<Rightarrow> sp_ip6_out ctx | Some c \<Rightarrow> Some c)\<rparr>, db2)))"

section \<open>Sorting and searching\<close>

definition sp6_cmp :: "acl6_rule \<Rightarrow> acl6_rule \<Rightarrow> int" where
  "sp6_cmp p q = spi_diff (userdata (data p)) (userdata (data q))"

definition sp6_sort_arr :: "sp6_db \<Rightarrow> sp6_db" where
  "sp6_sort_arr db =
     db\<lparr>acl6_rules_in := vec_set_elems (c_qsort sp6_cmp (vec_elems (acl6_rules_in db))) (acl6_rules_in db),
        acl6_rules_out := vec_set_elems (c_qsort sp6_cmp (vec_elems (acl6_rules_out db))) (acl6_rules_out db)\<rparr>"

text \<open>
  The index of a rule with the SPI, with the addresses and masks the caller asks for: source and
  destination, the addresses back in network byte order. \<open>None\<close> is \<open>-ENOENT\<close>.
\<close>

definition sp6_spi_present ::
  "sp6_db \<Rightarrow> u32 \<Rightarrow> bool \<Rightarrow> (nat \<times> (u8 list \<times> u32) \<times> (u8 list \<times> u32)) option" where
  "sp6_spi_present db w inbound =
     (let acr = vec_elems (if inbound then acl6_rules_in db else acl6_rules_out db);
          tmpl = zero_rule6\<lparr>data := (data zero_rule6)\<lparr>userdata := w\<rparr>\<rparr>
      in case bsearch (sp6_cmp tmpl) acr of
           None \<Rightarrow> None
         | Some i \<Rightarrow>
             (let f = field (acr ! i)
              in Some (i, (IPV6_ADDR_FROM_SP (src6 f), IPV6_MASK_FROM_SP (src6 f)), (IPV6_ADDR_FROM_SP (dst6 f), IPV6_MASK_FROM_SP (dst6 f)))))"

interpretation sp6_ord: spi_order sp6_cmp "\<lambda>r. userdata (data r)"
  by unfold_locales (simp add: sp6_cmp_def)

lemma sp6_sort_elems:
  assumes "sp6_ok db"
  shows "vec_elems (acl6_rules_in (sp6_sort_arr db)) = c_qsort sp6_cmp (vec_elems (acl6_rules_in db))"
    and "vec_elems (acl6_rules_out (sp6_sort_arr db)) = c_qsort sp6_cmp (vec_elems (acl6_rules_out db))"
    and "sp6_ok (sp6_sort_arr db)"
  using assms by (simp_all add: sp6_sort_arr_def sp6_ok_def vec_set_elems_ok length_vec_elems)

section \<open>Properties\<close>

lemma sp6_tok_addr_trace:
  "sp_trace T s \<Longrightarrow> set rest \<subseteq> T \<Longrightarrow>
   sp6_tok_src lib t rest s = (s', Inr rest') \<Longrightarrow> sp_trace T s' \<and> set rest' \<subseteq> T"
  "sp_trace T s \<Longrightarrow> set rest \<subseteq> T \<Longrightarrow>
   sp6_tok_dst lib t rest s = (s', Inr rest') \<Longrightarrow> sp_trace T s' \<and> set rest' \<subseteq> T"
  by (cases rest; auto simp: token_defs split: option.splits if_splits)+

lemma sp6_step_trace:
  assumes "t \<in> T" and "set rest \<subseteq> T" and "sp_trace T s" and "sp6_step lib t rest s = (s', Inr rest')"
  shows "sp_trace T s' \<and> set rest' \<subseteq> T"
  using assms(1,4) unfolding sp6_step_def sp6_shared
  by (auto split: if_split_asm dest: sp_tok_trace [OF assms(3,2)] sp6_tok_addr_trace [OF assms(3,2)])

lemma sp6_loop_trace:
  "sp6_loop lib toks (sp_start r) = (s, None) \<Longrightarrow> sp_finish s = None \<Longrightarrow> rule_from (set toks) (sp_rule s)"
  using sp6_toks.loop_trace [where T = "set toks" and I = "sp_trace (set toks)", OF _ order_refl sp_trace_start]
    sp6_step_trace sp_trace_rule by metis


text \<open>The split of a prefix length: four shares of at most 32 that add up to the length, cut at 128.\<close>

lemma depth_words_bounds:
  "length (depth_words d) = 4 \<and> (\<forall>m \<in> set (depth_words d). m \<le> 32)"
  by (auto simp: depth_words_def Let_def not_less)

lemma depth_words_sum:
  "depth_words d ! 0 + depth_words d ! 1 + depth_words d ! 2 + depth_words d ! 3 =
     (if d < 128 then d else 128)"
proof -
  have step: "32 < x - 32 \<longleftrightarrow> 64 < x" if "32 < x" for x :: u32
    using that by (simp add: word_less_def uint_sub_if')
  have step2: "32 < x - 64 \<longleftrightarrow> 96 < x" if "64 < x" for x :: u32
    using that by (simp add: word_less_def uint_sub_if')
  have step3: "32 < x - 96 \<longleftrightarrow> 128 < x" if "96 < x" for x :: u32
    using that by (simp add: word_less_def uint_sub_if')
  consider "d \<le> 32" | "32 < d" "d \<le> 64" | "64 < d" "d \<le> 96" | "96 < d" "d \<le> 128" | "128 < d"
    by fastforce
  then show ?thesis
  proof cases
    case 1
    then show ?thesis by (auto simp: depth_words_def Let_def word_less_def word_le_def)
  next
    case 2
    then have "d < 128" "\<not> 64 < d" by (simp_all add: word_less_def word_le_def)
    with 2 step [of d] show ?thesis by (simp add: depth_words_def Let_def)
  next
    case 3
    then have "32 < d" "d < 128" "\<not> 96 < d" by (simp_all add: word_less_def word_le_def)
    with 3 step [of d] step2 [of d] show ?thesis by (simp add: depth_words_def Let_def)
  next
    case 4
    then have "32 < d" "64 < d" "\<not> 128 < d" by (simp_all add: word_less_def word_le_def)
    moreover from 4 have "d = 128 \<or> d < 128" by auto
    ultimately show ?thesis using 4 step [of d] step2 [of d] step3 [of d]
      by (auto simp: depth_words_def Let_def)
  next
    case 5
    then have "32 < d" "64 < d" "96 < d" "\<not> d < 128" by (auto simp: word_less_def)
    with 5 step step2 step3 show ?thesis by (simp add: depth_words_def Let_def)
  qed
qed

lemma bytes_of_u64_words:
  "bytes_of_u64 (push_bit 32 (ucast (hi :: u32)) OR ucast (lo :: u32)) = bytes_of_u32 hi @ bytes_of_u32 lo"
proof -
  have "ucast (drop_bit 32 (push_bit 32 (ucast hi) OR ucast lo :: u64)) = hi"
    by (rule bit_word_eqI) (auto simp: bit_simps dest: bit_imp_le_length)
  moreover have "ucast (push_bit 32 (ucast hi) OR ucast lo :: u64) = lo"
    by (rule bit_word_eqI) (auto simp: bit_simps)
  ultimately show ?thesis by (simp add: bytes_of_u64_def)
qed

lemma addr6_recombine:
  assumes "length a = 16"
  shows "IPV6_ADDR_FROM_SP (addr6_fields a d) = a"
proof -
  have "a = map ((!) a) [0..<16]"
    using map_nth [of a] assms by simp
  moreover have "[0..<16::nat] = [0,1,2,3,4,5,6,7,8,9,10,11,12,13,14,15]"
    by (simp add: upt_rec)
  ultimately have a: "a = [a!0,a!1,a!2,a!3,a!4,a!5,a!6,a!7,a!8,a!9,a!10,a!11,a!12,a!13,a!14,a!15]"
    by simp
  have "IPV6_ADDR_FROM_SP (addr6_fields a d) =
      [a!0,a!1,a!2,a!3,a!4,a!5,a!6,a!7,a!8,a!9,a!10,a!11,a!12,a!13,a!14,a!15]"
    by (simp add: IPV6_ADDR_FROM_SP_def IPV6_FROM_SP_def addr6_fields_def depth_words_def Let_def
        bytes_of_u64_words)
  with a show ?thesis by simp
qed

lemma mask6_recombine: "IPV6_MASK_FROM_SP (addr6_fields a d) = (if d < 128 then d else 128)"
  using depth_words_sum [of d]
  by (simp add: IPV6_MASK_FROM_SP_def addr6_fields_def depth_words_def Let_def)

text \<open>
  An \<open>sp ipv6\<close> line parses to the rule it describes, and the rule remembers the addresses: the
  16 bytes of an address, split over four ACL fields in host order, are what \<open>IPV6_SRC_FROM_SP\<close> and
  \<open>IPV6_DST_FROM_SP\<close> put together again, and the four mask shares add up to the prefix length
  (lengths above 128 count as 128).
\<close>

theorem parse_sp6_line:
  assumes "sp6_ok db" and "vec_clean zero_rule6 (acl6_rules_in db)" and "line6_ok lib l"
    and "l_src l = Some (sa, sip, sd)" and "length sip = 16"
    and "l_dst l = Some (da, dip, dd)" and "length dip = 16"
  shows "\<exists>v f. parse_sp6_tokens lib True (''ipv6'' # ''in'' # sp_line_toks l) db =
      (db\<lparr>acl6_rules_in := v\<rparr>, None) \<and>
    vec_elems v = vec_elems (acl6_rules_in db) @ [line_rule6 l] \<and> f = field (line_rule6 l) \<and>
    rule_action (line_rule6 l) = l_action l \<and>
    IPV6_ADDR_FROM_SP (src6 f) = sip \<and> IPV6_MASK_FROM_SP (src6 f) = (if sd < 128 then sd else 128) \<and>
    IPV6_ADDR_FROM_SP (dst6 f) = dip \<and> IPV6_MASK_FROM_SP (dst6 f) = (if dd < 128 then dd else 128)"
proof -
  obtain s where s: "sp6_loop lib (sp_line_toks l) (sp_start zero_rule6) = (s, None)"
    "sp_finish s = None" "sp_rule s = line_rule6 l"
    using sp6_loop_line [OF assms(3)] by blast
  have v: "vec_ok (acl6_rules_in db)" using assms(1) by (simp add: sp6_ok_def)
  have "rule_action (line_rule6 l) = l_action l"
    using assms(3) by (intro rule_action_code) (simp_all add: line6_ok_def line_rule6_def)
  moreover have "src6 (field (line_rule6 l)) = addr6_fields sip sd"
    and "dst6 (field (line_rule6 l)) = addr6_fields dip dd"
    using assms(4,6) by (simp_all add: line_rule6_def addr6_field_def)
  ultimately show ?thesis
    using sp_fill_clean [OF _ v assms(2), of INIT_ACL_RULE_NUM6 "sp6_loop lib (sp_line_toks l)" s] s
      addr6_recombine [OF assms(5)] addr6_recombine [OF assms(7)] mask6_recombine
    by (auto simp: parse_sp6_tokens_def extend_sp6_arr_def INIT_ACL_RULE_NUM6_def)
qed

definition sample_addr6 :: "u8 list" where
  "sample_addr6 = [0x20, 0x01] @ replicate 13 0 @ [1]"

definition sample_line6 :: "u8 list sp_line" where
  "sample_line6 = \<lparr>l_action = Protect 5, l_pri = None, l_src = Some (''2001::1'', sample_addr6, 70),
     l_dst = Some (''2001::1'', sample_addr6, 128), l_proto = None, l_sport = None, l_dport = Some (80, 80)\<rparr>"

theorem parse_sp6_line_witness:
  "\<exists>v. parse_sp6_tokens sample_inet True (''ipv6'' # ''in'' # sp_line_toks sample_line6) sp6_empty =
      (sp6_empty\<lparr>acl6_rules_in := v\<rparr>, None) \<and> vec_elems v = [line_rule6 sample_line6] \<and>
     IPV6_MASK_FROM_SP (src6 (field (line_rule6 sample_line6))) = 70"
  using parse_sp6_line [of sp6_empty sample_inet sample_line6 "''2001::1''" sample_addr6 70 "''2001::1''" sample_addr6 128]
  by (auto simp: sp6_empty_def sp6_ok_def line6_ok_def sample_line6_def action_ok_def addr6_ok_def
      sample_inet_def sample_addr6_def)

text \<open>
  \<open>parse_sp6_tokens\<close> adds exactly one rule for a line it accepts, with an action the line spells
  out, and for a line it rejects no rule of either table changes.
\<close>

theorem parse_sp6_outcome:
  assumes "sp6_ok db" and "parse_sp6_tokens lib True toks db = (db', e)"
  shows "sp6_ok db' \<and>
    (case e of
       Some _ \<Rightarrow> vec_elems (acl6_rules_in db') = vec_elems (acl6_rules_in db) \<and>
         vec_elems (acl6_rules_out db') = vec_elems (acl6_rules_out db)
     | None \<Rightarrow> (\<exists>r. rule_from (set (drop 2 toks)) r \<and>
         (if toks ! 1 = ''in''
          then vec_elems (acl6_rules_in db') = vec_elems (acl6_rules_in db) @ [r] \<and>
            acl6_rules_out db' = acl6_rules_out db
          else toks ! 1 = ''out'' \<and> acl6_rules_in db' = acl6_rules_in db \<and>
            vec_elems (acl6_rules_out db') = vec_elems (acl6_rules_out db) @ [r])))"
proof (cases e)
  case None
  with assms have "parse_sp6_tokens lib True toks db = (db', None)" by simp
  from sp6_rules_of [OF this assms(1)] sp6_loop_trace None show ?thesis
    by (simp only: option.case) metis
next
  case (Some x)
  with assms show ?thesis
    by (auto simp: parse_sp6_tokens_def sp6_ok_def split: if_splits prod.splits
        dest!: sp_fill_frame [OF sp6_arr.grow_array_axioms, rotated])
qed

theorem parse_sp6_outcome_witness:
  "\<exists>db'. parse_sp6_tokens sample_inet True [''ipv6'', ''out'', ''esp''] sp6_empty =
      (db', Some (Missing ''protect, bypass or discard'')) \<and> vec_elems (acl6_rules_out db') = []"
proof -
  obtain db' e where p: "parse_sp6_tokens sample_inet True [''ipv6'', ''out'', ''esp''] sp6_empty = (db', e)"
    by force
  then have "e = Some (Missing ''protect, bypass or discard'')"
    by (auto simp: parse_sp6_tokens_def sp6_empty_def sp_fill_def extend_sp6_arr_def extend_arr_def
        vec_empty_def vec_slot_def INIT_ACL_RULE_NUM6_def sp6_loop.simps sp6_step_def token_defs
        sp_start_def sp_setters sp_finish_def)
  with p parse_sp6_outcome [of sp6_empty, OF _ p] show ?thesis
    by (simp add: sp6_empty_def sp6_ok_def)
qed

end
