(* ===== verification/SA_Config.thy ===== *)
theory SA_Config
  imports SA_Types
begin

text \<open>
  The \<open>sa\<close> lines of the configuration (\<open>sa.c\<close>): key strings, the growable SA tables, one handler
  per option of \<open>parse_sa_tokens\<close>, the loop over them and the checks after it.
\<close>

section \<open>Key strings\<close>

definition isxdigit :: "char \<Rightarrow> bool" where
  "isxdigit c \<longleftrightarrow> isdigit c \<or> (of_char c :: nat) \<in> {65..70} \<or> (of_char c :: nat) \<in> {97..102}"

definition xdigit_val :: "char \<Rightarrow> nat" where
  "xdigit_val c =
     (let n = of_char c in if n < 65 then n - 48 else if n < 97 then n - 55 else n - 87)"

text \<open>
  \<open>(uint8_t) strtol (s, NULL, 16)\<close> on the at most two characters of \<open>sub_str\<close>, where neither a
  \<open>0x\<close> prefix with a digit nor an overflow can occur.
\<close>

definition strtol16 :: "string \<Rightarrow> u8" where
  "strtol16 s =
     (let s1 = dropWhile isspace s;
          neg = (case s1 of c # _ \<Rightarrow> c = CHR ''-'' | [] \<Rightarrow> False);
          s2 = (case s1 of c # cs \<Rightarrow> if c = CHR ''-'' \<or> c = CHR ''+'' then cs else s1 | [] \<Rightarrow> []);
          n = foldl (\<lambda>v c. 16 * v + xdigit_val c) 0 (takeWhile isxdigit s2)
      in word_of_int (if neg then - int n else int n))"

text \<open>
  \<open>parse_key_string\<close>: the bytes written to the key buffer, and whether the string was well formed
  (otherwise the function returns 0, with the bytes before the bad group already written). The
  function has no bound on the number of bytes; the callers below check it against the buffer.
\<close>

function parse_key_string :: "string \<Rightarrow> u8 list \<times> bool" where
  "parse_key_string str =
     (let sub = takeWhile (\<lambda>c. c \<noteq> CHR '':'') str in
      if 2 < length sub then ([], False)
      else case dropWhile (\<lambda>c. c \<noteq> CHR '':'') str of
          [] \<Rightarrow> ([strtol16 sub], True)
        | _ # rest \<Rightarrow> (let (bs, ok) = parse_key_string rest in (strtol16 sub # bs, ok)))"
  by pat_completeness auto
termination
proof (relation "measure length")
  fix str sub x rest
  assume "dropWhile (\<lambda>c. c \<noteq> CHR '':'') str = (x :: char) # rest"
  then have "Suc (length rest) \<le> length str"
    using length_dropWhile_le [of "\<lambda>c. c \<noteq> CHR '':''" str] by simp
  then show "(rest, str) \<in> measure length" by simp
qed simp

declare parse_key_string.simps [simp del]

text \<open>The hexadecimal text of a key, and the round trip.\<close>

definition hex_char :: "nat \<Rightarrow> char" where
  "hex_char n = char_of (if n < 10 then 48 + n else 87 + n)"

definition hex_byte :: "u8 \<Rightarrow> string" where
  "hex_byte b = [hex_char (unat b div 16), hex_char (unat b mod 16)]"

fun key_text :: "u8 list \<Rightarrow> string" where
  "key_text [] = []"
| "key_text [b] = hex_byte b"
| "key_text (b # bs) = hex_byte b @ CHR '':'' # key_text bs"

lemma of_hex_char: "n < 16 \<Longrightarrow> (of_char (hex_char n) :: nat) = (if n < 10 then 48 + n else 87 + n)"
  by (simp add: hex_char_def)

lemma hex_char_facts:
  assumes "n < 16"
  shows "isxdigit (hex_char n)" and "xdigit_val (hex_char n) = n"
    and "\<not> isspace (hex_char n)" and "hex_char n \<noteq> CHR ''-''" and "hex_char n \<noteq> CHR ''+''"
    and "hex_char n \<noteq> CHR '':''"
proof -
  show "isxdigit (hex_char n)" "xdigit_val (hex_char n) = n" "\<not> isspace (hex_char n)"
    using assms by (auto simp: of_hex_char isxdigit_def isdigit_def xdigit_val_def isspace_def Let_def)
  have "(of_char (hex_char n) :: nat) \<notin> {43, 45, 58}" using assms by (auto simp: of_hex_char)
  then show "hex_char n \<noteq> CHR ''-''" "hex_char n \<noteq> CHR ''+''" "hex_char n \<noteq> CHR '':''"
    by auto
qed

lemma strtol16_hex_byte [simp]: "strtol16 (hex_byte b) = b"
proof -
  have lt: "unat b div 16 < 16" "unat b mod 16 < 16"
    using unat_u8_less [of b] by auto
  have two: "strtol16 [hex_char h, hex_char l] = word_of_int (int (16 * h + l))"
    if "h < 16" "l < 16" for h l
    using hex_char_facts [OF that(1)] hex_char_facts [OF that(2)]
    by (simp add: strtol16_def Let_def)
  have "strtol16 (hex_byte b) = word_of_int (int (16 * (unat b div 16) + unat b mod 16))"
    unfolding hex_byte_def by (rule two [OF lt])
  also have "16 * (unat b div 16) + unat b mod 16 = unat b" by simp
  finally show ?thesis by simp
qed

lemma hex_byte_no_colon: "list_all (\<lambda>c. c \<noteq> CHR '':'') (hex_byte b)"
  using unat_u8_less [of b] by (auto simp: hex_byte_def intro!: hex_char_facts(6))

lemma split_colon:
  assumes "list_all (\<lambda>c. c \<noteq> CHR '':'') xs"
  shows "takeWhile (\<lambda>c. c \<noteq> CHR '':'') (xs @ CHR '':'' # ys) = xs"
    and "dropWhile (\<lambda>c. c \<noteq> CHR '':'') (xs @ CHR '':'' # ys) = CHR '':'' # ys"
    and "takeWhile (\<lambda>c. c \<noteq> CHR '':'') xs = xs"
    and "dropWhile (\<lambda>c. c \<noteq> CHR '':'') xs = []"
  using assms by (induction xs) auto

lemma length_hex_byte [simp]: "length (hex_byte b) = 2"
  by (simp add: hex_byte_def)

lemma parse_key_text_lib: "bs \<noteq> [] \<Longrightarrow> parse_key_string (key_text bs) = (bs, True)"
proof (induction bs rule: key_text.induct)
  case (2 b)
  then show ?case
    by (subst parse_key_string.simps) (simp add: Let_def split_colon [OF hex_byte_no_colon [of b]])
next
  case (3 b c cs)
  then show ?case
    by (subst parse_key_string.simps) (simp add: Let_def split_colon [OF hex_byte_no_colon [of b]])
qed simp

section \<open>Parser state\<close>

text \<open>
  What the parser reads besides the line: the address functions, the value \<open>rte_rand\<close> returns in
  this call (it is called at most once per line) and whether the IPsec library mode is enabled.
\<close>

record sa_env =
  env_inet :: inet
  env_rand :: u64
  env_lib_enabled :: bool

text \<open>
  The globals a line may change before it is accepted (\<open>sa_cnt\<close>, \<open>nb_crypto_sessions\<close>,
  \<open>app_sa_prm.udp_encap\<close>), the slot being filled and the presence flags.
\<close>

record sa_glob =
  nb_v4 :: u32
  nb_v6 :: u32
  nb_crypto_sessions :: u32
  prm_udp_encap :: bool

record sa_pst =
  rule :: ipsec_sa
  glob :: sa_glob
  cipher_algo_p :: bool
  auth_algo_p :: bool
  aead_algo_p :: bool
  sa_src_p :: bool
  sa_dst_p :: bool
  mode_p :: bool
  type_p :: bool
  portid_p :: bool
  fallback_p :: bool
  udp_encap_p :: bool

definition upd_rule :: "(ipsec_sa \<Rightarrow> ipsec_sa) \<Rightarrow> sa_pst \<Rightarrow> sa_pst" where
  "upd_rule f s = s\<lparr>rule := f (rule s)\<rparr>"

definition upd_glob :: "(sa_glob \<Rightarrow> sa_glob) \<Rightarrow> sa_pst \<Rightarrow> sa_pst" where
  "upd_glob f s = s\<lparr>glob := f (glob s)\<rparr>"

definition set_ses_type :: "action_type \<Rightarrow> sa_pst \<Rightarrow> sa_pst" where
  "set_ses_type ty s = upd_rule (\<lambda>r. r\<lparr>primary := (primary r)\<lparr>ses_type := ty\<rparr>\<rparr>) s"

lemmas sa_setters = upd_rule_def upd_glob_def set_ses_type_def

text \<open>The key bytes over the front of a buffer of \<open>MAX_KEY_SIZE\<close> bytes.\<close>

definition write_key :: "u8 list \<Rightarrow> u8 list \<Rightarrow> u8 list" where
  "write_key bs buf = bs @ drop (length bs) buf"

text \<open>\<open>memcpy (&rule->salt, &key[n], 4)\<close> on the little-endian target.\<close>

definition salt_at :: "u8 list \<Rightarrow> nat \<Rightarrow> u32" where
  "salt_at key n = u32_of_bytes (key ! (n + 3)) (key ! (n + 2)) (key ! (n + 1)) (key ! n)"

text \<open>
  The key argument of the three algorithm options: the keyword, then the key string, of which the
  bytes are stored by \<open>put\<close> before the length is checked. More bytes than the buffer holds are
  written past its end: \<open>Fault\<close>.
\<close>

definition sa_key_arg ::
  "string \<Rightarrow> u16 \<Rightarrow> (u8 list \<Rightarrow> sa_pst \<Rightarrow> sa_pst) \<Rightarrow> string list \<Rightarrow> sa_pst \<Rightarrow>
   (string list \<Rightarrow> sa_pst \<Rightarrow> sa_pst tok_result) \<Rightarrow> sa_pst tok_result" where
  [token_defs]: "sa_key_arg kw want put rest s k =
     next_token rest s (\<lambda>a rest1.
     app_check (a = kw) (Unrecognized a) s (
     next_token rest1 s (\<lambda>b rest2.
     let (bs, ok) = parse_key_string b; s' = put bs s in
     if MAX_KEY_SIZE < length bs then (s, Inl Fault)
     else app_check ((if ok then length bs else 0) = unat want) (Unrecognized b) s' (k rest2 s'))))"

section \<open>Token handlers\<close>

definition sa_tok_mode :: "string \<Rightarrow> string list \<Rightarrow> sa_pst \<Rightarrow> sa_pst tok_result" where
  [token_defs]: "sa_tok_mode t rest s =
     app_check (\<not> mode_p s) (Already_present t) s (
     next_token rest s (\<lambda>a rest'.
     if a = ''ipv4-tunnel'' then
       ((upd_glob (\<lambda>g. g\<lparr>nb_v4 := nb_v4 g + 1\<rparr>) (upd_rule (\<lambda>r. r\<lparr>flags := flags r OR IP4_TUNNEL\<rparr>) s))\<lparr>mode_p := True\<rparr>,
        Inr rest')
     else if a = ''ipv6-tunnel'' then
       ((upd_glob (\<lambda>g. g\<lparr>nb_v6 := nb_v6 g + 1\<rparr>) (upd_rule (\<lambda>r. r\<lparr>flags := flags r OR IP6_TUNNEL\<rparr>) s))\<lparr>mode_p := True\<rparr>,
        Inr rest')
     else if a = ''transport'' then
       ((upd_glob (\<lambda>g. g\<lparr>nb_v4 := nb_v4 g + 1, nb_v6 := nb_v6 g + 1\<rparr>)
           (upd_rule (\<lambda>r. r\<lparr>flags := flags r OR TRANSPORT\<rparr>) s))\<lparr>mode_p := True\<rparr>,
        Inr rest')
     else (s, Inl (Unrecognized a))))"

definition sa_tok_telemetry :: "string list \<Rightarrow> sa_pst \<Rightarrow> sa_pst tok_result" where
  [token_defs]: "sa_tok_telemetry rest s =
     (upd_rule (\<lambda>r. r\<lparr>flags := flags r OR SA_TELEMETRY_ENABLE\<rparr>) s, Inr rest)"

definition sa_tok_cipher :: "sa_env \<Rightarrow> string \<Rightarrow> string list \<Rightarrow> sa_pst \<Rightarrow> sa_pst tok_result" where
  [token_defs]: "sa_tok_cipher env t rest s =
     app_check (\<not> cipher_algo_p s) (Already_present t) s (
     next_token rest s (\<lambda>a rest'.
     case find_match_cipher_algo a of
       None \<Rightarrow> (s, Inl (Unrecognized a))
     | Some algo \<Rightarrow>
         (let s1 = upd_rule (\<lambda>r. r\<lparr>cipher_algo := c_algo algo, block_size := c_block_size algo,
                     iv_len := c_iv_len algo, cipher_key_len := c_key_len algo\<rparr>) s in
          if c_algo algo = CIPHER_NULL then (s1\<lparr>cipher_algo_p := True\<rparr>, Inr rest')
          else sa_key_arg ''cipher_key'' (c_key_len algo)
                 (\<lambda>bs. upd_rule (\<lambda>r. r\<lparr>cipher_key := write_key bs (cipher_key r)\<rparr>)) rest' s1
               (\<lambda>rest2 s2.
                  let s3 = (if c_algo algo = CIPHER_AES_CBC \<or> c_algo algo = CIPHER_3DES_CBC
                            then upd_rule (\<lambda>r. r\<lparr>salt := ucast (env_rand env)\<rparr>) s2 else s2);
                      s4 = (if c_algo algo = CIPHER_AES_CTR
                            then upd_rule (\<lambda>r. r\<lparr>cipher_key_len := c_key_len algo - 4,
                                   salt := salt_at (cipher_key r) (unat (c_key_len algo - 4))\<rparr>) s3
                            else s3)
                  in (s4\<lparr>cipher_algo_p := True\<rparr>, Inr rest2)))))"

definition sa_tok_auth :: "string \<Rightarrow> string list \<Rightarrow> sa_pst \<Rightarrow> sa_pst tok_result" where
  [token_defs]: "sa_tok_auth t rest s =
     app_check (\<not> auth_algo_p s) (Already_present t) s (
     next_token rest s (\<lambda>a rest'.
     case find_match_auth_algo a of
       None \<Rightarrow> (s, Inl (Unrecognized a))
     | Some algo \<Rightarrow>
         (let s1 = upd_rule (\<lambda>r. r\<lparr>auth_algo := a_algo algo, auth_key_len := a_key_len algo,
                     digest_len := a_digest_len algo\<rparr>) s in
          if a_key_not_req algo then (s1\<lparr>auth_algo_p := True\<rparr>, Inr rest')
          else sa_key_arg ''auth_key'' (a_key_len algo)
                 (\<lambda>bs. upd_rule (\<lambda>r. r\<lparr>auth_key := write_key bs (auth_key r)\<rparr>)) rest' s1
               (\<lambda>rest2 s2.
                  let s3 = (if a_algo algo = AUTH_AES_GMAC
                            then upd_rule (\<lambda>r. r\<lparr>auth_key_len := a_key_len algo - 4,
                                   iv_len := a_iv_len algo,
                                   salt := salt_at (auth_key r) (unat (a_key_len algo - 4))\<rparr>) s2
                            else s2)
                  in (s3\<lparr>auth_algo_p := True\<rparr>, Inr rest2)))))"

definition sa_tok_aead :: "string \<Rightarrow> string list \<Rightarrow> sa_pst \<Rightarrow> sa_pst tok_result" where
  [token_defs]: "sa_tok_aead t rest s =
     app_check (\<not> aead_algo_p s) (Already_present t) s (
     next_token rest s (\<lambda>a rest'.
     case find_match_aead_algo a of
       None \<Rightarrow> (s, Inl (Unrecognized a))
     | Some algo \<Rightarrow>
         (let s1 = upd_rule (\<lambda>r. r\<lparr>aead_algo := e_algo algo, cipher_key_len := e_key_len algo,
                     digest_len := e_digest_len algo, aad_len := ucast (e_aad_len algo),
                     block_size := e_block_size algo, iv_len := e_iv_len algo\<rparr>) s
          in sa_key_arg ''aead_key'' (e_key_len algo)
               (\<lambda>bs. upd_rule (\<lambda>r. r\<lparr>cipher_key := write_key bs (cipher_key r)\<rparr>)) rest' s1
             (\<lambda>rest2 s2.
                ((upd_rule (\<lambda>r. r\<lparr>cipher_key_len := e_key_len algo - 4,
                    salt := salt_at (cipher_key r) (unat (e_key_len algo - 4))\<rparr>) s2)
                 \<lparr>aead_algo_p := True\<rparr>, Inr rest2)))))"

text \<open>
  The endpoint addresses. Which parser reads them depends on the mode seen so far; before any mode
  option the token is consumed and dropped.
\<close>

definition sa_tok_src :: "sa_env \<Rightarrow> string \<Rightarrow> string list \<Rightarrow> sa_pst \<Rightarrow> sa_pst tok_result" where
  [token_defs]: "sa_tok_src env t rest s =
     app_check (\<not> sa_src_p s) (Already_present t) s (
     next_token rest s (\<lambda>a rest'.
     if is_ip4_tunnel (flags (rule s)) then
       (case parse_ipv4_addr (env_inet env) a of
          None \<Rightarrow> (s, Inl (Bad_addr a))
        | Some (ip, _) \<Rightarrow>
            ((upd_rule (\<lambda>r. r\<lparr>src := (src r)\<lparr>ip4 := bswap32 ip\<rparr>\<rparr>) s)\<lparr>sa_src_p := True\<rparr>, Inr rest'))
     else if is_ip6_tunnel (flags (rule s)) then
       (case parse_ipv6_addr (env_inet env) a of
          None \<Rightarrow> (s, Inl (Bad_addr a))
        | Some (ip, _) \<Rightarrow>
            ((upd_rule (\<lambda>r. r\<lparr>src := (src r)\<lparr>ip6 := ip\<rparr>\<rparr>) s)\<lparr>sa_src_p := True\<rparr>, Inr rest'))
     else if is_transport (flags (rule s)) then (s, Inl (Unrecognized a))
     else (s\<lparr>sa_src_p := True\<rparr>, Inr rest')))"

definition sa_tok_dst :: "sa_env \<Rightarrow> string \<Rightarrow> string list \<Rightarrow> sa_pst \<Rightarrow> sa_pst tok_result" where
  [token_defs]: "sa_tok_dst env t rest s =
     app_check (\<not> sa_dst_p s) (Already_present t) s (
     next_token rest s (\<lambda>a rest'.
     if is_ip4_tunnel (flags (rule s)) then
       (case parse_ipv4_addr (env_inet env) a of
          None \<Rightarrow> (s, Inl (Bad_addr a))
        | Some (ip, _) \<Rightarrow>
            ((upd_rule (\<lambda>r. r\<lparr>dst := (dst r)\<lparr>ip4 := bswap32 ip\<rparr>\<rparr>) s)\<lparr>sa_dst_p := True\<rparr>, Inr rest'))
     else if is_ip6_tunnel (flags (rule s)) then
       (case parse_ipv6_addr (env_inet env) a of
          None \<Rightarrow> (s, Inl (Bad_addr a))
        | Some (ip, _) \<Rightarrow>
            ((upd_rule (\<lambda>r. r\<lparr>dst := (dst r)\<lparr>ip6 := ip\<rparr>\<rparr>) s)\<lparr>sa_dst_p := True\<rparr>, Inr rest'))
     else if is_transport (flags (rule s)) then (s, Inl (Unrecognized a))
     else (s\<lparr>sa_dst_p := True\<rparr>, Inr rest')))"

definition sa_tok_type :: "string \<Rightarrow> string list \<Rightarrow> sa_pst \<Rightarrow> sa_pst tok_result" where
  [token_defs]: "sa_tok_type t rest s =
     app_check (\<not> type_p s) (Already_present t) s (
     next_token rest s (\<lambda>a rest'.
     if a = ''inline-crypto-offload'' then ((set_ses_type TYPE_INLINE_CRYPTO s)\<lparr>type_p := True\<rparr>, Inr rest')
     else if a = ''inline-protocol-offload'' then ((set_ses_type TYPE_INLINE_PROTOCOL s)\<lparr>type_p := True\<rparr>, Inr rest')
     else if a = ''lookaside-protocol-offload'' then ((set_ses_type TYPE_LOOKASIDE_PROTOCOL s)\<lparr>type_p := True\<rparr>, Inr rest')
     else if a = ''no-offload'' then ((set_ses_type TYPE_NONE s)\<lparr>type_p := True\<rparr>, Inr rest')
     else if a = ''cpu-crypto'' then ((set_ses_type TYPE_CPU_CRYPTO s)\<lparr>type_p := True\<rparr>, Inr rest')
     else (s, Inl (Unrecognized a))))"

text \<open>
  Assigning the port, or checking it against one assigned before. The comparison is between the
  \<open>uint16_t\<close> promoted to \<open>int\<close> and the unreduced value of \<open>atoi\<close>.
\<close>

definition sa_set_port :: "string \<Rightarrow> sa_pst \<Rightarrow> (sa_pst \<Rightarrow> sa_pst tok_result) \<Rightarrow> sa_pst tok_result" where
  [token_defs]: "sa_set_port a s k =
     (if portid (rule s) = UINT16_MAX then k (upd_rule (\<lambda>r. r\<lparr>portid := ucast (atoi a)\<rparr>) s)
      else if ucast (portid (rule s)) \<noteq> atoi a then (s, Inl (Port_mismatch a))
      else k s)"

definition sa_tok_port :: "string \<Rightarrow> string list \<Rightarrow> sa_pst \<Rightarrow> sa_pst tok_result" where
  [token_defs]: "sa_tok_port t rest s =
     app_check (\<not> portid_p s) (Already_present t) s (
     next_token rest s (\<lambda>a rest'. sa_set_port a s (\<lambda>s'. (s'\<lparr>portid_p := True\<rparr>, Inr rest'))))"

definition sa_tok_mss :: "string list \<Rightarrow> sa_pst \<Rightarrow> sa_pst tok_result" where
  [token_defs]: "sa_tok_mss rest s =
     next_token rest s (\<lambda>a rest'. (upd_rule (\<lambda>r. r\<lparr>mss := ucast (atoi a)\<rparr>) s, Inr rest'))"

definition sa_tok_esn :: "string list \<Rightarrow> sa_pst \<Rightarrow> sa_pst tok_result" where
  [token_defs]: "sa_tok_esn rest s =
     next_token rest s (\<lambda>a rest'. (upd_rule (\<lambda>r. r\<lparr>esn := word_of_int (strtol10 a)\<rparr>) s, Inr rest'))"

definition sa_tok_fallback :: "sa_env \<Rightarrow> string \<Rightarrow> string list \<Rightarrow> sa_pst \<Rightarrow> sa_pst tok_result" where
  [token_defs]: "sa_tok_fallback env t rest s =
     app_check (env_lib_enabled env) (Not_allowed ''legacy'') s (
     app_check (ses_type (primary (rule s)) = TYPE_INLINE_CRYPTO) (Not_allowed ''primary'') s (
     app_check (direction (rule s) = INGRESS) (Not_allowed ''egress'') s (
     app_check (\<not> fallback_p s) (Already_present t) s (
     next_token rest s (\<lambda>a rest'.
     let accept = (\<lambda>ty. ((upd_glob (\<lambda>g. g\<lparr>nb_crypto_sessions := nb_crypto_sessions g + 1\<rparr>)
             (upd_rule (\<lambda>r. r\<lparr>fallback := (fallback r)\<lparr>ses_type := ty\<rparr>, fallback_sessions := 1\<rparr>) s))
             \<lparr>fallback_p := True\<rparr>, Inr rest'))
     in if a = ''lookaside-none'' then accept TYPE_NONE
        else if a = ''cpu-crypto'' then accept TYPE_CPU_CRYPTO
        else (s, Inl (Unrecognized a)))))))"

text \<open>
  \<open>check_flow_params\<close> only decides whether a message is printed; port and queue are kept either way.
\<close>

definition sa_tok_flow :: "string list \<Rightarrow> sa_pst \<Rightarrow> sa_pst tok_result" where
  [token_defs]: "sa_tok_flow rest s =
     (if ses_type (primary (rule s)) \<in> {TYPE_NONE, TYPE_CPU_CRYPTO} then
        (let s1 = upd_rule (\<lambda>r. r\<lparr>fdir_flag := 1\<rparr>) s in
         next_token rest s1 (\<lambda>a rest'.
         sa_set_port a s1 (\<lambda>s2.
         next_token rest' s2 (\<lambda>q rest2.
           (upd_rule (\<lambda>r. r\<lparr>fdir_qid := ucast (atoi q)\<rparr>) s2, Inr rest2)))))
      else (s, Inl (Not_allowed ''flow-direction'')))"

definition sa_tok_udp_encap :: "string \<Rightarrow> string list \<Rightarrow> sa_pst \<Rightarrow> sa_pst tok_result" where
  [token_defs]: "sa_tok_udp_encap t rest s =
     (case ses_type (primary (rule s)) of
        TYPE_LOOKASIDE_PROTOCOL \<Rightarrow>
          app_check (\<not> udp_encap_p s) (Already_present t) s
            ((upd_glob (\<lambda>g. g\<lparr>prm_udp_encap := True\<rparr>) (upd_rule (\<lambda>r. r\<lparr>udp_encap := 1\<rparr>) s))\<lparr>udp_encap_p := True\<rparr>, Inr rest)
      | TYPE_INLINE_PROTOCOL \<Rightarrow>
          app_check (\<not> udp_encap_p s) (Already_present t) s
            ((upd_glob (\<lambda>g. g\<lparr>prm_udp_encap := True\<rparr>) (upd_rule (\<lambda>r. r\<lparr>udp_encap := 1\<rparr>) s))\<lparr>udp_encap_p := True\<rparr>, Inr rest)
      | TYPE_INLINE_CRYPTO \<Rightarrow>
          (upd_rule (\<lambda>r. r\<lparr>udp_encap := 1, udp_sport := 0, udp_dport := 4500\<rparr>) s, Inr rest)
      | _ \<Rightarrow> (s, Inl (Not_allowed ''udp-encap'')))"

definition sa_step :: "sa_env \<Rightarrow> string \<Rightarrow> string list \<Rightarrow> sa_pst \<Rightarrow> sa_pst tok_result" where
  "sa_step env t rest s =
     (if t = ''mode'' then sa_tok_mode t rest s
      else if t = ''telemetry'' then sa_tok_telemetry rest s
      else if t = ''cipher_algo'' then sa_tok_cipher env t rest s
      else if t = ''auth_algo'' then sa_tok_auth t rest s
      else if t = ''aead_algo'' then sa_tok_aead t rest s
      else if t = ''src'' then sa_tok_src env t rest s
      else if t = ''dst'' then sa_tok_dst env t rest s
      else if t = ''type'' then sa_tok_type t rest s
      else if t = ''port_id'' then sa_tok_port t rest s
      else if t = ''mss'' then sa_tok_mss rest s
      else if t = ''esn'' then sa_tok_esn rest s
      else if t = ''fallback'' then sa_tok_fallback env t rest s
      else if t = ''flow-direction'' then sa_tok_flow rest s
      else if t = ''udp-encap'' then sa_tok_udp_encap t rest s
      else (s, Inl (Unrecognized t)))"

lemma sa_key_arg_consumes:
  assumes "sa_key_arg kw want put rest s k = (s', Inr rest')"
    and "\<And>r s1 s2 r2. k r s1 = (s2, Inr r2) \<Longrightarrow> length r2 \<le> length r"
  shows "length rest' \<le> length rest"
  using assms(1)
  by (auto simp: sa_key_arg_def next_token_def app_check_def Let_def split: list.splits if_splits prod.splits
      dest!: assms(2))

lemma sa_tok_consumes:
  "sa_tok_mode t rest s = (s', Inr rest') \<Longrightarrow> length rest' \<le> length rest"
  "sa_tok_telemetry rest s = (s', Inr rest') \<Longrightarrow> length rest' \<le> length rest"
  "sa_tok_src env t rest s = (s', Inr rest') \<Longrightarrow> length rest' \<le> length rest"
  "sa_tok_dst env t rest s = (s', Inr rest') \<Longrightarrow> length rest' \<le> length rest"
  "sa_tok_type t rest s = (s', Inr rest') \<Longrightarrow> length rest' \<le> length rest"
  "sa_tok_port t rest s = (s', Inr rest') \<Longrightarrow> length rest' \<le> length rest"
  "sa_tok_mss rest s = (s', Inr rest') \<Longrightarrow> length rest' \<le> length rest"
  "sa_tok_esn rest s = (s', Inr rest') \<Longrightarrow> length rest' \<le> length rest"
  "sa_tok_fallback env t rest s = (s', Inr rest') \<Longrightarrow> length rest' \<le> length rest"
  "sa_tok_flow rest s = (s', Inr rest') \<Longrightarrow> length rest' \<le> length rest"
  "sa_tok_udp_encap t rest s = (s', Inr rest') \<Longrightarrow> length rest' \<le> length rest"
  by (auto simp: token_defs Let_def split: list.splits option.splits if_splits action_type.splits)

lemma sa_tok_algo_consumes:
  "sa_tok_cipher env t rest s = (s', Inr rest') \<Longrightarrow> length rest' \<le> length rest"
  "sa_tok_auth t rest s = (s', Inr rest') \<Longrightarrow> length rest' \<le> length rest"
  "sa_tok_aead t rest s = (s', Inr rest') \<Longrightarrow> length rest' \<le> length rest"
  by (auto simp: sa_tok_cipher_def sa_tok_auth_def sa_tok_aead_def next_token_def app_check_def Let_def
      split: list.splits option.splits if_splits dest!: sa_key_arg_consumes)

lemma sa_step_consumes: "sa_step env t rest s = (s', Inr rest') \<Longrightarrow> length rest' \<le> length rest"
  unfolding sa_step_def
  by (auto split: if_split_asm dest: sa_tok_consumes sa_tok_algo_consumes)

section \<open>The loop and the final checks\<close>

function sa_loop :: "sa_env \<Rightarrow> string list \<Rightarrow> sa_pst \<Rightarrow> sa_pst \<times> parse_error option" where
  "sa_loop env [] s = (s, None)"
| "sa_loop env (t # rest) s =
     (case sa_step env t rest s of
        (s', Inl e) \<Rightarrow> (s', Some e)
      | (s', Inr rest') \<Rightarrow> sa_loop env rest' s')"
  by pat_completeness auto
termination
  by (relation "measure (\<lambda>(env, toks, s). length toks)") (auto dest!: sym sa_step_consumes)

declare sa_loop.simps(2) [simp del]

interpretation sa_toks: token_loop "sa_step env" "sa_loop env" for env
  by unfold_locales (simp_all add: sa_step_consumes sa_loop.simps)

definition sa_finish :: "sa_pst \<Rightarrow> parse_error option" where
  "sa_finish s =
     (if aead_algo_p s then
        (if cipher_algo_p s then Some (Conflict ''aead'' ''cipher'')
         else if auth_algo_p s then Some (Conflict ''aead'' ''auth'')
         else if \<not> mode_p s then Some (Missing ''mode'') else None)
      else if \<not> cipher_algo_p s then Some (Missing ''cipher or AEAD'')
      else if \<not> auth_algo_p s then Some (Missing ''auth or AEAD'')
      else if \<not> mode_p s then Some (Missing ''mode'') else None)"

text \<open>The session type an accepted rule ends up with, and the session it accounts for.\<close>

definition sa_accept :: "sa_pst \<Rightarrow> sa_pst" where
  "sa_accept s =
     (let s1 = (if \<not> type_p s \<or> (\<not> portid_p s \<and> ses_type (primary (rule s)) \<noteq> TYPE_CPU_CRYPTO)
                then set_ses_type TYPE_NONE s else s)
      in upd_glob (\<lambda>g. g\<lparr>nb_crypto_sessions := nb_crypto_sessions g + 1\<rparr>) s1)"

definition sa_start :: "ipsec_sa \<Rightarrow> sa_glob \<Rightarrow> sa_pst" where
  "sa_start r g = \<lparr>rule = r, glob = g, cipher_algo_p = False, auth_algo_p = False, aead_algo_p = False,
     sa_src_p = False, sa_dst_p = False, mode_p = False, type_p = False, portid_p = False,
     fallback_p = False, udp_encap_p = False\<rparr>"

definition extend_sa_arr :: "bool \<Rightarrow> ipsec_sa vec \<Rightarrow> ipsec_sa vec \<times> bool" where
  "extend_sa_arr = extend_arr SA_INIT_NB zero_sa"

interpretation sa_arr: grow_array extend_sa_arr
  unfolding extend_sa_arr_def SA_INIT_NB_def by (rule grow_array_extend_arr) simp

text \<open>
  The body of \<open>parse_sa_tokens\<close> for one direction. A line with SPI 0 ends without an error and
  without a rule.
\<close>

definition sa_fill ::
  "sa_env \<Rightarrow> bool \<Rightarrow> sa_dir \<Rightarrow> string list \<Rightarrow> ipsec_sa vec \<Rightarrow> sa_glob \<Rightarrow>
   ipsec_sa vec \<times> sa_glob \<times> parse_error option" where
  "sa_fill env mem_ok dir toks v g =
     (case extend_sa_arr mem_ok v of
        (v1, False) \<Rightarrow> (v1, g, None)
      | (v1, True) \<Rightarrow>
          (case vec_slot v1 of
             None \<Rightarrow> (v1, g, Some Fault)
           | Some r0 \<Rightarrow>
               (let r1 = r0\<lparr>direction := dir\<rparr> in
                if \<not> is_str_num (toks ! 1) then (vec_put_slot r1 v1, g, Some (Not_number (toks ! 1)))
                else if atoi (toks ! 1) = INVALID_SPI then (vec_put_slot r1 v1, g, None)
                else
                  case sa_loop env (drop 2 toks)
                      (sa_start (r1\<lparr>flags := 0, spi := atoi (toks ! 1), portid := UINT16_MAX\<rparr>) g) of
                    (s, Some e) \<Rightarrow> (vec_put_slot (rule s) v1, glob s, Some e)
                  | (s, None) \<Rightarrow>
                      (case sa_finish s of
                         Some e \<Rightarrow> (vec_put_slot (rule s) v1, glob s, Some e)
                       | None \<Rightarrow>
                           (let s' = sa_accept s
                            in (vec_commit (vec_put_slot (rule s') v1), glob s', None))))))"

record sa_db =
  sas_in :: "ipsec_sa vec"
  sas_out :: "ipsec_sa vec"
  sa_in_cnt :: "u32 \<times> u32"
  sa_out_cnt :: "u32 \<times> u32"
  db_crypto_sessions :: u32
  db_udp_encap :: bool

definition sa_empty :: sa_db where
  "sa_empty = \<lparr>sas_in = vec_empty, sas_out = vec_empty, sa_in_cnt = (0, 0), sa_out_cnt = (0, 0),
     db_crypto_sessions = 0, db_udp_encap = False\<rparr>"

definition sa_glob_of :: "u32 \<times> u32 \<Rightarrow> sa_db \<Rightarrow> sa_glob" where
  "sa_glob_of c db = \<lparr>nb_v4 = fst c, nb_v6 = snd c, nb_crypto_sessions = db_crypto_sessions db,
     prm_udp_encap = db_udp_encap db\<rparr>"

text \<open>\<open>parse_sa_tokens\<close>: any first token other than \<open>in\<close> selects the outbound table.\<close>

definition parse_sa_tokens ::
  "sa_env \<Rightarrow> bool \<Rightarrow> string list \<Rightarrow> sa_db \<Rightarrow> sa_db \<times> parse_error option" where
  "parse_sa_tokens env mem_ok toks db =
     (if length toks < 2 then (db, Some Fault)
      else if toks ! 0 = ''in'' then
        (let (v, g, e) = sa_fill env mem_ok INGRESS toks (sas_in db) (sa_glob_of (sa_in_cnt db) db)
         in (db\<lparr>sas_in := v, sa_in_cnt := (nb_v4 g, nb_v6 g),
               db_crypto_sessions := nb_crypto_sessions g, db_udp_encap := prm_udp_encap g\<rparr>, e))
      else
        (let (v, g, e) = sa_fill env mem_ok EGRESS toks (sas_out db) (sa_glob_of (sa_out_cnt db) db)
         in (db\<lparr>sas_out := v, sa_out_cnt := (nb_v4 g, nb_v6 g),
               db_crypto_sessions := nb_crypto_sessions g, db_udp_encap := prm_udp_encap g\<rparr>, e)))"

section \<open>What an accepted line guarantees\<close>

definition cipher_row :: "ipsec_sa \<Rightarrow> bool" where
  "cipher_row r \<longleftrightarrow> (\<exists>c \<in> set cipher_algos. cipher_algo r = c_algo c \<and> block_size r = c_block_size c \<and>
     cipher_key_len r = (if c_algo c = CIPHER_AES_CTR then c_key_len c - 4 else c_key_len c))"

definition auth_row :: "ipsec_sa \<Rightarrow> bool" where
  "auth_row r \<longleftrightarrow> (\<exists>a \<in> set auth_algos. auth_algo r = a_algo a \<and> digest_len r = a_digest_len a \<and>
     auth_key_len r = (if a_algo a = AUTH_AES_GMAC then a_key_len a - 4 else a_key_len a))"

definition aead_row :: "ipsec_sa \<Rightarrow> bool" where
  "aead_row r \<longleftrightarrow> (\<exists>e \<in> set aead_algos. aead_algo r = e_algo e \<and> block_size r = e_block_size e \<and>
     digest_len r = e_digest_len e \<and> iv_len r = e_iv_len e \<and> aad_len r = ucast (e_aad_len e) \<and>
     cipher_key_len r = e_key_len e - 4 \<and> salt r = salt_at (cipher_key r) (unat (e_key_len e - 4)))"

definition alg_inv :: "bool \<Rightarrow> bool \<Rightarrow> bool \<Rightarrow> ipsec_sa \<Rightarrow> bool" where
  "alg_inv c a e r \<longleftrightarrow>
     (c \<and> \<not> e \<longrightarrow> cipher_row r) \<and> (a \<and> \<not> e \<longrightarrow> auth_row r) \<and> (e \<and> \<not> c \<and> \<not> a \<longrightarrow> aead_row r)"

lemma alg_inv_frame [simp]:
  "alg_inv c a e (r\<lparr>primary := x0\<rparr>) = alg_inv c a e r"
  "alg_inv c a e (r\<lparr>fallback := x1\<rparr>) = alg_inv c a e r"
  "alg_inv c a e (r\<lparr>fallback_sessions := x2\<rparr>) = alg_inv c a e r"
  "alg_inv c a e (r\<lparr>flags := x3\<rparr>) = alg_inv c a e r"
  "alg_inv c a e (r\<lparr>src := x4\<rparr>) = alg_inv c a e r"
  "alg_inv c a e (r\<lparr>dst := x5\<rparr>) = alg_inv c a e r"
  "alg_inv c a e (r\<lparr>portid := x6\<rparr>) = alg_inv c a e r"
  "alg_inv c a e (r\<lparr>mss := x7\<rparr>) = alg_inv c a e r"
  "alg_inv c a e (r\<lparr>esn := x8\<rparr>) = alg_inv c a e r"
  "alg_inv c a e (r\<lparr>fdir_flag := x9\<rparr>) = alg_inv c a e r"
  "alg_inv c a e (r\<lparr>fdir_qid := x10\<rparr>) = alg_inv c a e r"
  "alg_inv c a e (r\<lparr>udp_encap := x11\<rparr>) = alg_inv c a e r"
  "alg_inv c a e (r\<lparr>udp_sport := x12\<rparr>) = alg_inv c a e r"
  "alg_inv c a e (r\<lparr>udp_dport := x13\<rparr>) = alg_inv c a e r"
  by (simp_all add: alg_inv_def cipher_row_def auth_row_def aead_row_def)

definition modes :: "u16 set" where
  "modes = {IP4_TUNNEL, IP6_TUNNEL, TRANSPORT}"

definition sa_inv :: "sa_pst \<Rightarrow> bool" where
  "sa_inv s \<longleftrightarrow>
     (if mode_p s then without_transport_version (flags (rule s)) \<in> modes
      else without_transport_version (flags (rule s)) = 0) \<and>
     alg_inv (cipher_algo_p s) (auth_algo_p s) (aead_algo_p s) (rule s)"

lemma sa_inv_start: "sa_inv (sa_start (r\<lparr>flags := 0, spi := x, portid := y\<rparr>) g)"
  by (simp add: sa_inv_def sa_start_def alg_inv_def without_transport_version_def)

lemma sa_inv_mode: "sa_inv s \<Longrightarrow> sa_tok_mode t rest s = (s', Inr rest') \<Longrightarrow> sa_inv s'"
  by (cases rest) (auto simp: sa_tok_mode_def app_check_def next_token_def sa_inv_def sa_setters wtv_or modes_def
      split: if_splits)

lemma sa_inv_frame:
  "sa_inv s \<Longrightarrow> sa_tok_telemetry rest s = (s', Inr rest') \<Longrightarrow> sa_inv s'"
  "sa_inv s \<Longrightarrow> sa_tok_type t rest s = (s', Inr rest') \<Longrightarrow> sa_inv s'"
  "sa_inv s \<Longrightarrow> sa_tok_port t rest s = (s', Inr rest') \<Longrightarrow> sa_inv s'"
  "sa_inv s \<Longrightarrow> sa_tok_mss rest s = (s', Inr rest') \<Longrightarrow> sa_inv s'"
  "sa_inv s \<Longrightarrow> sa_tok_esn rest s = (s', Inr rest') \<Longrightarrow> sa_inv s'"
  "sa_inv s \<Longrightarrow> sa_tok_fallback env t rest s = (s', Inr rest') \<Longrightarrow> sa_inv s'"
  "sa_inv s \<Longrightarrow> sa_tok_flow rest s = (s', Inr rest') \<Longrightarrow> sa_inv s'"
  "sa_inv s \<Longrightarrow> sa_tok_udp_encap t rest s = (s', Inr rest') \<Longrightarrow> sa_inv s'"
  by (auto simp: token_defs sa_inv_def sa_setters wtv_or Let_def
      split: list.splits if_split_asm action_type.splits)

lemma sa_inv_addr:
  "sa_inv s \<Longrightarrow> sa_tok_src env t rest s = (s', Inr rest') \<Longrightarrow> sa_inv s'"
  "sa_inv s \<Longrightarrow> sa_tok_dst env t rest s = (s', Inr rest') \<Longrightarrow> sa_inv s'"
  by (auto simp: token_defs sa_inv_def sa_setters split: list.splits if_split_asm option.splits)

text \<open>The key argument: an accepted one has the length asked for and sits at the front of the buffer.\<close>

lemma sa_key_arg_accept:
  assumes "sa_key_arg kw want put rest s k = (s', Inr rest')" and "want \<noteq> 0"
  shows "\<exists>bs rest2. length bs = unat want \<and> length bs \<le> MAX_KEY_SIZE \<and> k rest2 (put bs s) = (s', Inr rest')"
proof -
  from assms(1) obtain a b rest2 where rest: "rest = a # b # rest2"
    by (auto simp: sa_key_arg_def next_token_def app_check_def split: list.splits if_splits)
  obtain bs ok where b: "parse_key_string b = (bs, ok)" by force
  have "unat want \<noteq> 0" using assms(2) by (simp add: unat_eq_0)
  then have "length bs = unat want \<and> length bs \<le> MAX_KEY_SIZE \<and> k rest2 (put bs s) = (s', Inr rest')"
    using assms(1) unfolding rest sa_key_arg_def next_token_def app_check_def
    by (simp add: b Let_def split: if_splits)
  then show ?thesis by blast
qed

lemma key_len_nonzero:
  "c \<in> set cipher_algos \<Longrightarrow> c_algo c \<noteq> CIPHER_NULL \<Longrightarrow> c_key_len c \<noteq> 0"
  "a \<in> set auth_algos \<Longrightarrow> \<not> a_key_not_req a \<Longrightarrow> a_key_len a \<noteq> 0"
  "e \<in> set aead_algos \<Longrightarrow> e_key_len e \<noteq> 0"
  by (auto simp: cipher_algos_def auth_algos_def aead_algos_def)

lemma gmac_needs_key: "a \<in> set auth_algos \<Longrightarrow> a_algo a = AUTH_AES_GMAC \<Longrightarrow> \<not> a_key_not_req a"
  by (auto simp: auth_algos_def)

lemma cipher_rowI:
  assumes "c \<in> set cipher_algos" and "cipher_algo r = c_algo c" and "block_size r = c_block_size c"
    and "cipher_key_len r = (if c_algo c = CIPHER_AES_CTR then c_key_len c - 4 else c_key_len c)"
  shows "cipher_row r"
  using assms unfolding cipher_row_def by blast

lemma auth_rowI:
  assumes "a \<in> set auth_algos" and "auth_algo r = a_algo a" and "digest_len r = a_digest_len a"
    and "auth_key_len r = (if a_algo a = AUTH_AES_GMAC then a_key_len a - 4 else a_key_len a)"
  shows "auth_row r"
  using assms unfolding auth_row_def by blast

lemma aead_rowI:
  assumes "e \<in> set aead_algos" and "aead_algo r = e_algo e" and "block_size r = e_block_size e"
    and "digest_len r = e_digest_len e" and "iv_len r = e_iv_len e" and "aad_len r = ucast (e_aad_len e)"
    and "cipher_key_len r = e_key_len e - 4" and "salt r = salt_at (cipher_key r) (unat (e_key_len e - 4))"
  shows "aead_row r"
  using assms unfolding aead_row_def by blast

lemma sa_tok_aead_accept:
  assumes "sa_tok_aead t rest s = (s', Inr rest')"
  shows "\<not> aead_algo_p s \<and> aead_row (rule s') \<and> aead_algo_p s' \<and> cipher_algo_p s' = cipher_algo_p s \<and>
    auth_algo_p s' = auth_algo_p s \<and> mode_p s' = mode_p s \<and> flags (rule s') = flags (rule s)"
proof -
  from assms obtain a rest1 e where np: "\<not> aead_algo_p s" and rest: "rest = a # rest1"
    and e: "find_match_aead_algo a = Some e"
    by (auto simp: sa_tok_aead_def next_token_def app_check_def split: list.splits option.splits if_splits)
  from e have es: "e \<in> set aead_algos" by (simp add: find_match_aead_algo_Some)
  note arg = sa_key_arg_accept [OF _ key_len_nonzero(3) [OF es]]
  from assms np obtain bs s2 where s': "s' = s2\<lparr>aead_algo_p := True\<rparr>"
    and s2: "s2 = upd_rule (\<lambda>r. r\<lparr>cipher_key_len := e_key_len e - 4,
        salt := salt_at (cipher_key r) (unat (e_key_len e - 4))\<rparr>)
      (upd_rule (\<lambda>r. r\<lparr>cipher_key := write_key bs (cipher_key r)\<rparr>)
        (upd_rule (\<lambda>r. r\<lparr>aead_algo := e_algo e, cipher_key_len := e_key_len e, digest_len := e_digest_len e,
           aad_len := ucast (e_aad_len e), block_size := e_block_size e, iv_len := e_iv_len e\<rparr>) s))"
    unfolding rest sa_tok_aead_def next_token_def app_check_def by (auto simp: e Let_def dest!: arg)
  have "aead_row (rule s2)"
    by (rule aead_rowI [OF es]) (simp_all add: s2 upd_rule_def)
  with np s' s2 show ?thesis by (simp add: upd_rule_def)
qed

text \<open>Which fields each algorithm option leaves alone: what the rows of the other one read.\<close>

lemma auth_row_cipher [simp]:
  "auth_row (r\<lparr>cipher_algo := a\<rparr>) = auth_row r" "auth_row (r\<lparr>block_size := b\<rparr>) = auth_row r"
  "auth_row (r\<lparr>iv_len := i\<rparr>) = auth_row r" "auth_row (r\<lparr>cipher_key_len := l\<rparr>) = auth_row r"
  "auth_row (r\<lparr>cipher_key := k\<rparr>) = auth_row r" "auth_row (r\<lparr>salt := x\<rparr>) = auth_row r"
  by (simp_all add: auth_row_def)

lemma cipher_row_auth [simp]:
  "cipher_row (r\<lparr>auth_algo := a\<rparr>) = cipher_row r" "cipher_row (r\<lparr>auth_key_len := l\<rparr>) = cipher_row r"
  "cipher_row (r\<lparr>digest_len := d\<rparr>) = cipher_row r" "cipher_row (r\<lparr>auth_key := k\<rparr>) = cipher_row r"
  "cipher_row (r\<lparr>iv_len := i\<rparr>) = cipher_row r" "cipher_row (r\<lparr>salt := x\<rparr>) = cipher_row r"
  by (simp_all add: cipher_row_def)

lemma sa_tok_cipher_accept:
  assumes "sa_tok_cipher env t rest s = (s', Inr rest')"
  shows "\<not> cipher_algo_p s \<and> cipher_row (rule s') \<and> cipher_algo_p s' \<and>
    auth_row (rule s') = auth_row (rule s) \<and> auth_algo_p s' = auth_algo_p s \<and>
    aead_algo_p s' = aead_algo_p s \<and> mode_p s' = mode_p s \<and> flags (rule s') = flags (rule s)"
proof -
  from assms obtain a rest1 c where np: "\<not> cipher_algo_p s" and rest: "rest = a # rest1"
    and c: "find_match_cipher_algo a = Some c"
    by (auto simp: sa_tok_cipher_def next_token_def app_check_def split: list.splits option.splits if_splits)
  from c have cs: "c \<in> set cipher_algos" by (simp add: find_match_cipher_algo_Some)
  let ?s1 = "upd_rule (\<lambda>r. r\<lparr>cipher_algo := c_algo c, block_size := c_block_size c,
                     iv_len := c_iv_len c, cipher_key_len := c_key_len c\<rparr>) s"
  show ?thesis
  proof (cases "c_algo c = CIPHER_NULL")
    case True
    with assms np have s': "s' = ?s1\<lparr>cipher_algo_p := True\<rparr>"
      unfolding rest sa_tok_cipher_def next_token_def app_check_def by (simp add: c Let_def)
    have "cipher_row (rule s')"
      by (rule cipher_rowI [OF cs]) (simp_all add: s' upd_rule_def True)
    with np s' show ?thesis by (simp add: upd_rule_def)
  next
    case False
    note arg = sa_key_arg_accept [OF _ key_len_nonzero(1) [OF cs False]]
    from assms np False obtain bs s2 where s2: "s2 = upd_rule (\<lambda>r. r\<lparr>cipher_key := write_key bs (cipher_key r)\<rparr>) ?s1"
      and s': "s' = (let s3 = (if c_algo c = CIPHER_AES_CBC \<or> c_algo c = CIPHER_3DES_CBC
            then upd_rule (\<lambda>r. r\<lparr>salt := ucast (env_rand env)\<rparr>) s2 else s2);
          s4 = (if c_algo c = CIPHER_AES_CTR
            then upd_rule (\<lambda>r. r\<lparr>cipher_key_len := c_key_len c - 4,
                   salt := salt_at (cipher_key r) (unat (c_key_len c - 4))\<rparr>) s3
            else s3)
        in s4\<lparr>cipher_algo_p := True\<rparr>)"
      unfolding rest sa_tok_cipher_def next_token_def app_check_def by (auto simp: c Let_def dest!: arg)
    have "cipher_row (rule s')"
      by (rule cipher_rowI [OF cs]) (simp_all add: s' s2 upd_rule_def Let_def)
    with np s' s2 show ?thesis by (simp add: upd_rule_def Let_def)
  qed
qed

lemma sa_tok_auth_accept:
  assumes "sa_tok_auth t rest s = (s', Inr rest')"
  shows "\<not> auth_algo_p s \<and> auth_row (rule s') \<and> auth_algo_p s' \<and>
    cipher_row (rule s') = cipher_row (rule s) \<and> cipher_algo_p s' = cipher_algo_p s \<and>
    aead_algo_p s' = aead_algo_p s \<and> mode_p s' = mode_p s \<and> flags (rule s') = flags (rule s)"
proof -
  from assms obtain a rest1 c where np: "\<not> auth_algo_p s" and rest: "rest = a # rest1"
    and c: "find_match_auth_algo a = Some c"
    by (auto simp: sa_tok_auth_def next_token_def app_check_def split: list.splits option.splits if_splits)
  from c have cs: "c \<in> set auth_algos" by (simp add: find_match_auth_algo_Some)
  let ?s1 = "upd_rule (\<lambda>r. r\<lparr>auth_algo := a_algo c, auth_key_len := a_key_len c,
                     digest_len := a_digest_len c\<rparr>) s"
  show ?thesis
  proof (cases "a_key_not_req c")
    case True
    with assms np have s': "s' = ?s1\<lparr>auth_algo_p := True\<rparr>"
      unfolding rest sa_tok_auth_def next_token_def app_check_def by (simp add: c Let_def)
    have "auth_row (rule s')"
      using gmac_needs_key [OF cs] True
      by (intro auth_rowI [OF cs]) (auto simp: s' upd_rule_def)
    with np s' show ?thesis by (simp add: upd_rule_def)
  next
    case False
    note arg = sa_key_arg_accept [OF _ key_len_nonzero(2) [OF cs False]]
    from assms np False obtain bs s2 where s2: "s2 = upd_rule (\<lambda>r. r\<lparr>auth_key := write_key bs (auth_key r)\<rparr>) ?s1"
      and s': "s' = (let s3 = (if a_algo c = AUTH_AES_GMAC
            then upd_rule (\<lambda>r. r\<lparr>auth_key_len := a_key_len c - 4, iv_len := a_iv_len c,
                   salt := salt_at (auth_key r) (unat (a_key_len c - 4))\<rparr>) s2
            else s2)
        in s3\<lparr>auth_algo_p := True\<rparr>)"
      unfolding rest sa_tok_auth_def next_token_def app_check_def by (auto simp: c Let_def dest!: arg)
    have "auth_row (rule s')"
      by (rule auth_rowI [OF cs]) (simp_all add: s' s2 upd_rule_def Let_def)
    with np s' s2 show ?thesis by (simp add: upd_rule_def Let_def)
  qed
qed

lemma sa_inv_algo:
  "sa_inv s \<Longrightarrow> sa_tok_cipher env t rest s = (s', Inr rest') \<Longrightarrow> sa_inv s'"
  "sa_inv s \<Longrightarrow> sa_tok_auth t rest s = (s', Inr rest') \<Longrightarrow> sa_inv s'"
  "sa_inv s \<Longrightarrow> sa_tok_aead t rest s = (s', Inr rest') \<Longrightarrow> sa_inv s'"
  subgoal by (drule sa_tok_cipher_accept) (simp add: sa_inv_def alg_inv_def)
  subgoal by (drule sa_tok_auth_accept) (simp add: sa_inv_def alg_inv_def)
  subgoal by (drule sa_tok_aead_accept) (simp add: sa_inv_def alg_inv_def)
  done

lemma sa_step_inv: "sa_inv s \<Longrightarrow> sa_step env t rest s = (s', Inr rest') \<Longrightarrow> sa_inv s'"
  unfolding sa_step_def
  by (auto split: if_split_asm dest: sa_inv_mode sa_inv_frame sa_inv_addr sa_inv_algo)

text \<open>The well-formedness of an SA that the packet code relies on.\<close>

definition sa_wf :: "ipsec_sa \<Rightarrow> bool" where
  "sa_wf r \<longleftrightarrow> without_transport_version (flags r) \<in> modes \<and> (aead_row r \<or> cipher_row r \<and> auth_row r)"

lemma sa_loop_wf:
  assumes "sa_loop env toks (sa_start (r\<lparr>flags := 0, spi := x, portid := y\<rparr>) g) = (s, None)" and "sa_finish s = None"
  shows "sa_wf (rule s)"
proof -
  have "sa_inv s"
    by (rule sa_toks.loop_invariant [of sa_inv, OF sa_step_inv sa_inv_start assms(1)])
  with assms(2) show ?thesis
    by (auto simp: sa_inv_def sa_wf_def alg_inv_def sa_finish_def split: if_splits)
qed

text \<open>No option changes the SPI or the direction, whether or not it is accepted.\<close>

definition sa_id :: "sa_pst \<Rightarrow> u32 \<times> sa_dir" where
  "sa_id s = (spi (rule s), direction (rule s))"

lemma sa_key_arg_id:
  assumes "\<And>bs s. sa_id (put bs s) = sa_id s" and "\<And>r s. sa_id (fst (k r s)) = sa_id s"
  shows "sa_id (fst (sa_key_arg kw want put rest s k)) = sa_id s"
  using assms
  by (auto simp: sa_key_arg_def next_token_def app_check_def Let_def split: list.splits prod.splits)

lemma sa_tok_id:
  "sa_id (fst (sa_tok_mode t rest s)) = sa_id s"
  "sa_id (fst (sa_tok_telemetry rest s)) = sa_id s"
  "sa_id (fst (sa_tok_src env t rest s)) = sa_id s"
  "sa_id (fst (sa_tok_dst env t rest s)) = sa_id s"
  "sa_id (fst (sa_tok_type t rest s)) = sa_id s"
  "sa_id (fst (sa_tok_port t rest s)) = sa_id s"
  "sa_id (fst (sa_tok_mss rest s)) = sa_id s"
  "sa_id (fst (sa_tok_esn rest s)) = sa_id s"
  "sa_id (fst (sa_tok_fallback env t rest s)) = sa_id s"
  "sa_id (fst (sa_tok_flow rest s)) = sa_id s"
  "sa_id (fst (sa_tok_udp_encap t rest s)) = sa_id s"
  by (auto simp: sa_id_def token_defs sa_setters Let_def split: list.splits option.splits action_type.splits)

lemma sa_tok_algo_id:
  "sa_id (fst (sa_tok_cipher env t rest s)) = sa_id s"
  "sa_id (fst (sa_tok_auth t rest s)) = sa_id s"
  "sa_id (fst (sa_tok_aead t rest s)) = sa_id s"
proof -
  have put: "sa_id (upd_rule (\<lambda>r. r\<lparr>cipher_key := f r\<rparr>) s) = sa_id s"
    "sa_id (upd_rule (\<lambda>r. r\<lparr>auth_key := f r\<rparr>) s) = sa_id s" for s f
    by (simp_all add: sa_id_def upd_rule_def)
  show "sa_id (fst (sa_tok_cipher env t rest s)) = sa_id s"
    unfolding sa_tok_cipher_def next_token_def app_check_def Let_def
    by (auto split: list.splits option.splits) 
      (subst sa_key_arg_id; simp add: sa_id_def upd_rule_def; fail | simp add: sa_id_def upd_rule_def)+
  show "sa_id (fst (sa_tok_auth t rest s)) = sa_id s"
    unfolding sa_tok_auth_def next_token_def app_check_def Let_def
    by (auto split: list.splits option.splits)
      (subst sa_key_arg_id; simp add: sa_id_def upd_rule_def; fail | simp add: sa_id_def upd_rule_def)+
  show "sa_id (fst (sa_tok_aead t rest s)) = sa_id s"
    unfolding sa_tok_aead_def next_token_def app_check_def Let_def
    by (auto split: list.splits option.splits)
      (subst sa_key_arg_id; simp add: sa_id_def upd_rule_def)+
qed

lemma sa_step_id: "sa_id (fst (sa_step env t rest s)) = sa_id s"
  by (simp add: sa_step_def sa_tok_id sa_tok_algo_id)

lemma sa_loop_id: "sa_id (fst (sa_loop env toks s)) = sa_id s"
  by (rule sa_toks.loop_frame [of "\<lambda>s'. sa_id s' = sa_id s"]) (simp_all add: sa_step_id)

definition sa_ok :: "sa_db \<Rightarrow> bool" where
  "sa_ok db \<longleftrightarrow> vec_ok (sas_in db) \<and> vec_ok (sas_out db)"

lemma sa_accept_rule:
  "sa_wf (rule (sa_accept s)) = sa_wf (rule s) \<and> sa_id (sa_accept s) = sa_id s"
proof -
  have "sa_wf (r\<lparr>primary := p\<rparr>) = sa_wf r" for r p
    by (simp add: sa_wf_def aead_row_def cipher_row_def auth_row_def)
  then show ?thesis by (simp add: sa_accept_def sa_setters sa_id_def Let_def)
qed

lemma sa_fill_accepts:
  assumes "vec_ok v" and "sa_fill env True dir toks v g = (v', g', None)"
  shows "vec_ok v' \<and>
    (if atoi (toks ! 1) = INVALID_SPI then vec_elems v' = vec_elems v
     else \<exists>r. sa_wf r \<and> spi r = atoi (toks ! 1) \<and> direction r = dir \<and> vec_elems v' = vec_elems v @ [r])"
proof -
  obtain v1 where v1: "extend_sa_arr True v = (v1, True)"
    using sa_arr.extend_total [of True v] by (cases "extend_sa_arr True v") auto
  from sa_arr.slot_exists [OF assms(1) v1] obtain r0 where r0: "vec_slot v1 = Some r0" ..
  let ?r = "(r0\<lparr>direction := dir\<rparr>)\<lparr>flags := 0, spi := atoi (toks ! 1), portid := UINT16_MAX\<rparr>"
  show ?thesis
  proof (cases "atoi (toks ! 1) = INVALID_SPI")
    case True
    with assms(2) v1 r0 have "v' = vec_put_slot (r0\<lparr>direction := dir\<rparr>) v1"
      by (auto simp: sa_fill_def Let_def split: if_splits)
    then show ?thesis using True sa_arr.put_slot_ok [OF assms(1) v1] by simp
  next
    case False
    obtain s e where l: "sa_loop env (drop 2 toks) (sa_start ?r g) = (s, e)" by force
    from assms(2) v1 r0 False l have e: "e = None" and fin: "sa_finish s = None"
      and v': "v' = vec_commit (vec_put_slot (rule (sa_accept s)) v1)"
      by (auto simp: sa_fill_def Let_def split: if_splits option.splits)
    have "sa_wf (rule s)" using sa_loop_wf l e fin by blast
    moreover have "sa_id s = (atoi (toks ! 1), dir)"
      using sa_loop_id [of env "drop 2 toks" "sa_start ?r g"] l by (simp add: sa_id_def sa_start_def)
    ultimately have "sa_wf (rule (sa_accept s))" "sa_id (sa_accept s) = (atoi (toks ! 1), dir)"
      using sa_accept_rule by simp_all
    then show ?thesis
      using False v' sa_arr.commit_appends [OF assms(1) v1] by (auto simp: sa_id_def)
  qed
qed

section \<open>Sorting\<close>

definition sa_sort_arr :: "sa_db \<Rightarrow> sa_db" where
  "sa_sort_arr db =
     db\<lparr>sas_in := vec_set_elems (c_qsort sa_cmp (vec_elems (sas_in db))) (sas_in db), sas_out := vec_set_elems (c_qsort sa_cmp (vec_elems (sas_out db))) (sas_out db)\<rparr>"

section \<open>Properties\<close>

text \<open>
  \<open>parse_key_string\<close> reads back every non-empty key from its text of two hexadecimal digits per
  byte separated by colons: all bytes, in order, with no group rejected.
\<close>

theorem parse_key_text:
  "parse_key_string (key_text (b # bs)) = (b # bs, True)"
  by (rule parse_key_text_lib) simp

text \<open>
  C30. An \<open>sa\<close> line \<open>parse_sa_tokens\<close> accepts either has SPI 0 and adds no SA, or adds exactly one
  well-formed SA at the end of the table of its direction: the SPI of the line, exactly one mode
  flag, and the parameters of one AEAD row, or of one cipher row and one authentication row, of the
  tables of supported algorithms, with the AEAD salt taken from the end of the key.
\<close>

theorem parse_sa_accepts:
  assumes "sa_ok db" and "parse_sa_tokens env True toks db = (db', None)"
  shows "sa_ok db' \<and>
    (if atoi (toks ! 1) = INVALID_SPI
     then vec_elems (sas_in db') = vec_elems (sas_in db) \<and> vec_elems (sas_out db') = vec_elems (sas_out db)
     else \<exists>r. sa_wf r \<and> spi r = atoi (toks ! 1) \<and>
       (if toks ! 0 = ''in''
        then direction r = INGRESS \<and> vec_elems (sas_in db') = vec_elems (sas_in db) @ [r] \<and> sas_out db' = sas_out db
        else direction r = EGRESS \<and> sas_in db' = sas_in db \<and> vec_elems (sas_out db') = vec_elems (sas_out db) @ [r]))"
proof (cases "toks ! 0 = ''in''")
  case True
  with assms(2) obtain v g where f: "sa_fill env True INGRESS toks (sas_in db) (sa_glob_of (sa_in_cnt db) db) = (v, g, None)"
    and db': "sas_in db' = v" "sas_out db' = sas_out db"
    by (auto simp: parse_sa_tokens_def split: if_splits prod.splits)
  from sa_fill_accepts [OF _ f] assms(1) True db' show ?thesis
    by (simp add: sa_ok_def split: if_splits)
next
  case False
  with assms(2) obtain v g where f: "sa_fill env True EGRESS toks (sas_out db) (sa_glob_of (sa_out_cnt db) db) = (v, g, None)"
    and db': "sas_out db' = v" "sas_in db' = sas_in db"
    by (auto simp: parse_sa_tokens_def split: if_splits prod.splits)
  from sa_fill_accepts [OF _ f] assms(1) False db' show ?thesis
    by (simp add: sa_ok_def split: if_splits)
qed

theorem parse_sa_accepts_witness:
  "\<exists>db' r. parse_sa_tokens \<lparr>env_inet = sample_inet, env_rand = 9, env_lib_enabled = True\<rparr> True
      [''in'', ''5'', ''cipher_algo'', ''null'', ''auth_algo'', ''null'', ''mode'', ''transport''] sa_empty = (db', None) \<and>
     vec_elems (sas_in db') = [r] \<and> sa_wf r \<and> spi r = 5 \<and> direction r = INGRESS"
proof -
  let ?env = "\<lparr>env_inet = sample_inet, env_rand = 9, env_lib_enabled = True\<rparr>"
  let ?toks = "[''in'', ''5'', ''cipher_algo'', ''null'', ''auth_algo'', ''null'', ''mode'', ''transport'']"
  have five: "is_str_num ''5''" "atoi ''5'' = 5"
    by (simp_all add: is_str_num_def isdigit_def atoi_def strtol10_def isspace_def digit_val_def)
  have algs: "find_match_cipher_algo ''null'' = Some (cipher_algos ! 0)" "find_match_auth_algo ''null'' = Some (auth_algos ! 0)"
    by (simp_all add: find_match_cipher_algo_def find_match_auth_algo_def cipher_algos_def auth_algos_def)
  obtain db' e where p: "parse_sa_tokens ?env True ?toks sa_empty = (db', e)" by force
  then have "e = None"
    by (auto simp: parse_sa_tokens_def sa_empty_def sa_fill_def extend_sa_arr_def extend_arr_def five algs
        vec_empty_def vec_slot_def SA_INIT_NB_def sa_loop.simps sa_step_def sa_tok_cipher_def sa_tok_auth_def
        sa_tok_mode_def app_check_def next_token_def sa_start_def sa_setters sa_finish_def Let_def
        cipher_algos_def auth_algos_def)
  with p have q: "parse_sa_tokens ?env True ?toks sa_empty = (db', None)" by simp
  have "sa_ok sa_empty" by (simp add: sa_ok_def sa_empty_def)
  from parse_sa_accepts [OF this q] q show ?thesis
    by (auto simp: five sa_empty_def)
qed

lemma parse_ipv4_addr_plain:
  assumes "list_all (\<lambda>c. c \<noteq> CHR ''/'') a" and "length a \<le> 15" and "inet_pton4 lib a = Some ip"
  shows "parse_ipv4_addr lib a = Some (ip, 0)"
  using assms by (simp add: parse_ipv4_addr_def split_slash_none)

lemma sa_key_arg_text:
  assumes "length k = unat want" and "k \<noteq> []" and "length k \<le> MAX_KEY_SIZE"
  shows "sa_key_arg kw want put (kw # key_text k # rest) s cont = cont rest (put k s)"
  using assms by (simp add: sa_key_arg_def next_token_def app_check_def parse_key_text_lib)

text \<open>
  C31. A tunnel SA with an AEAD algorithm, written with its key as text, parses to the SA it
  describes: the first bytes of the key are the cipher key, the last four the salt, the algorithm's
  parameters and both endpoint addresses are stored, and the SA is appended to the inbound table.
\<close>

theorem parse_sa_aead_line:
  assumes "sa_ok db" and "vec_clean zero_sa (sas_in db)" and "w \<noteq> INVALID_SPI"
    and "find_match_aead_algo kw = Some e" and "length k = unat (e_key_len e)"
    and "list_all (\<lambda>c. c \<noteq> CHR ''/'') a" and "length a \<le> 15" and "inet_pton4 (env_inet env) a = Some sip"
    and "list_all (\<lambda>c. c \<noteq> CHR ''/'') b" and "length b \<le> 15" and "inet_pton4 (env_inet env) b = Some dip"
  shows "\<exists>db' r. parse_sa_tokens env True [''in'', show_dec (unat w), ''aead_algo'', kw, ''aead_key'', key_text k,
        ''mode'', ''ipv4-tunnel'', ''src'', a, ''dst'', b] db = (db', None) \<and>
      vec_elems (sas_in db') = vec_elems (sas_in db) @ [r] \<and> spi r = w \<and> is_ip4_tunnel (flags r) \<and>
      take (length k) (cipher_key r) = k \<and> unat (cipher_key_len r) = length k - 4 \<and>
      salt r = salt_at k (length k - 4) \<and> aead_algo r = e_algo e \<and> iv_len r = e_iv_len e \<and>
      ip4 (src r) = bswap32 sip \<and> ip4 (dst r) = bswap32 dip"
proof -
  have es: "e \<in> set aead_algos" using assms(4) by (simp add: find_match_aead_algo_Some)
  note wf = aead_algos_wf [OF es]
  have k4: "4 \<le> length k" "length k \<le> 64"
    using wf assms(5) by (auto simp: word_le_nat_alt)
  then have kn: "k \<noteq> []" "length k \<le> MAX_KEY_SIZE" by (auto simp: MAX_KEY_SIZE_def)
  have sub: "unat (e_key_len e - 4) = length k - 4"
    using wf assms(5) by (simp add: unat_sub)
  obtain v1 where v1: "extend_sa_arr True (sas_in db) = (v1, True)"
    using sa_arr.extend_total [of True "sas_in db"] by (cases "extend_sa_arr True (sas_in db)") auto
  have v: "vec_ok (sas_in db)" using assms(1) by (simp add: sa_ok_def)
  have slot: "vec_slot v1 = Some zero_sa"
    using extend_arr_clean [OF _ v assms(2), of 128 True v1] v1 by (simp add: extend_sa_arr_def SA_INIT_NB_def)
  have tun: "is_ip4_tunnel (0 OR IP4_TUNNEL)" by (simp add: flag_defs)
  let ?s0 = "sa_start (zero_sa\<lparr>direction := INGRESS, flags := 0, spi := w, portid := UINT16_MAX\<rparr>) (sa_glob_of (sa_in_cnt db) db)"
  obtain s where s: "sa_loop env [''aead_algo'', kw, ''aead_key'', key_text k, ''mode'', ''ipv4-tunnel'', ''src'', a, ''dst'', b] ?s0 = (s, None)"
    and fin: "sa_finish s = None" and fields: "spi (rule s) = w" "is_ip4_tunnel (flags (rule s))"
      "cipher_key (rule s) = write_key k (replicate MAX_KEY_SIZE 0)" "cipher_key_len (rule s) = e_key_len e - 4"
      "salt (rule s) = salt_at (write_key k (replicate MAX_KEY_SIZE 0)) (length k - 4)"
      "aead_algo (rule s) = e_algo e" "iv_len (rule s) = e_iv_len e"
      "ip4 (src (rule s)) = bswap32 sip" "ip4 (dst (rule s)) = bswap32 dip"
    using assms(4) tun sub
    by (simp add: sa_loop.simps sa_step_def sa_tok_aead_def sa_tok_mode_def sa_tok_src_def sa_tok_dst_def
        next_token_def app_check_def sa_key_arg_text [OF assms(5) kn] Let_def sa_start_def sa_setters
        parse_ipv4_addr_plain [OF assms(6-8)] parse_ipv4_addr_plain [OF assms(9-11)] sa_finish_def zero_sa_def)
  obtain n where n: "length k = n + 4"
    using k4 by (metis le_iff_add add.commute)
  have at: "salt_at (write_key k z) (length k - 4) = salt_at k (length k - 4)" for z
    by (simp add: salt_at_def write_key_def nth_append n)
  have acc: "rule (sa_accept s) = (rule s)\<lparr>primary := primary (rule (sa_accept s))\<rparr>"
    by (simp add: sa_accept_def sa_setters Let_def)
  let ?r = "rule (sa_accept s)"
  let ?v = "vec_commit (vec_put_slot ?r v1)"
  let ?toks = "[''in'', show_dec (unat w), ''aead_algo'', kw, ''aead_key'', key_text k,
        ''mode'', ''ipv4-tunnel'', ''src'', a, ''dst'', b]"
  have "sa_fill env True INGRESS ?toks (sas_in db) (sa_glob_of (sa_in_cnt db) db) = (?v, glob (sa_accept s), None)"
    using v1 slot assms(3) s fin by (simp add: sa_fill_def Let_def)
  then have run: "\<exists>db'. parse_sa_tokens env True ?toks db = (db', None) \<and> sas_in db' = ?v"
    by (simp add: parse_sa_tokens_def)
  have r: "spi ?r = spi (rule s)" "flags ?r = flags (rule s)" "cipher_key ?r = cipher_key (rule s)"
    "cipher_key_len ?r = cipher_key_len (rule s)" "salt ?r = salt (rule s)" "aead_algo ?r = aead_algo (rule s)"
    "iv_len ?r = iv_len (rule s)" "src ?r = src (rule s)" "dst ?r = dst (rule s)"
    by (subst acc, simp)+
  have "vec_elems ?v = vec_elems (sas_in db) @ [?r]"
    by (rule sa_arr.commit_appends(2) [OF v v1])
  moreover have "take (length k) (cipher_key ?r) = k" "salt ?r = salt_at k (length k - 4)"
    "unat (cipher_key_len ?r) = length k - 4"
    by (simp_all only: r fields at sub) (simp add: write_key_def)
  ultimately show ?thesis
    using run by (metis r fields)
qed

theorem parse_sa_aead_line_witness:
  "\<exists>db' r. parse_sa_tokens \<lparr>env_inet = sample_inet, env_rand = 9, env_lib_enabled = True\<rparr> True
       [''in'', show_dec (unat (7 :: u32)), ''aead_algo'', ''aes-128-gcm'', ''aead_key'', key_text (replicate 20 0xAB),
        ''mode'', ''ipv4-tunnel'', ''src'', ''10.0.0.1'', ''dst'', ''192.168.1.0''] sa_empty = (db', None) \<and>
     vec_elems (sas_in db') = [r] \<and> spi r = 7 \<and> aead_algo r = AEAD_AES_GCM \<and> unat (cipher_key_len r) = 16"
proof -
  let ?env = "\<lparr>env_inet = sample_inet, env_rand = 9, env_lib_enabled = True\<rparr>"
  have m: "find_match_aead_algo ''aes-128-gcm'' = Some (aead_algos ! 0)"
    by (simp add: find_match_aead_algo_def aead_algos_def)
  have e: "length (replicate 20 (0xAB :: u8)) = unat (e_key_len (aead_algos ! 0))"
    "e_algo (aead_algos ! 0) = AEAD_AES_GCM" by (simp_all add: aead_algos_def)
  have db: "sa_ok sa_empty" "vec_clean zero_sa (sas_in sa_empty)" "vec_elems (sas_in sa_empty) = []"
    by (simp_all add: sa_ok_def sa_empty_def)
  have w: "(7 :: u32) \<noteq> 0" by simp
  have a: "list_all (\<lambda>c. c \<noteq> CHR ''/'') ''10.0.0.1''" "length ''10.0.0.1'' \<le> 15"
    "inet_pton4 (env_inet ?env) ''10.0.0.1'' = Some 0x0100000A" by (simp_all add: sample_inet_def)
  have b: "list_all (\<lambda>c. c \<noteq> CHR ''/'') ''192.168.1.0''" "length ''192.168.1.0'' \<le> 15"
    "inet_pton4 (env_inet ?env) ''192.168.1.0'' = Some 0x0001A8C0" by (simp_all add: sample_inet_def)
  have l20: "length (replicate 20 (0xAB :: u8)) - 4 = 16" by simp
  from parse_sa_aead_line [OF db(1,2) w m e(1) a b] show ?thesis
    unfolding db(3) e(2) l20 append_Nil by blast
qed

end
