(* ===== verification/IPIP.thy ===== *)
theory IPIP
  imports SA_Types
begin

text \<open>
  Packet buffers and the tunnel encapsulation of \<open>ipip.h\<close>. The mbuf functions of DPDK are a
  parameter (\<open>mbuf_api\<close>); what the code relies on is \<open>mbuf_api_ok\<close>, the documented effect of the
  four functions on the packet bytes. Packets are single-segment, so \<open>pkt_len\<close> and \<open>data_len\<close> are
  the number of bytes. Reading or writing past the bytes, and using the NULL a failed adjustment
  returns, is the error \<open>UB\<close>; the assertions of the code (compiled out of release builds) are not
  relied on.
\<close>

section \<open>Packet buffers\<close>

datatype l4_ptype = L4_NONE | L4_UDP | L4_TCP | L4_OTHER

text \<open>The counter block in the private area of an mbuf: salt, IV and counter.\<close>

record cnt_blk =
  cb_salt :: u32
  cb_iv :: "u8 list"
  cb_cnt :: u32

record mbuf =
  m_bytes :: "u8 list"
  m_port :: u16
  rx_sec_offload :: bool
  rx_sec_failed :: bool
  tx_sec_offload :: bool
  inner_esp_next_proto :: u8
  l4_type :: l4_ptype
  tunnel_esp :: bool
  icb :: cnt_blk
  aad :: "u8 list"
  l3_len :: nat
  l3_ipv4 :: bool
  esp_in_udp :: bool

definition pkt_len :: "mbuf \<Rightarrow> nat" where
  "pkt_len m = length (m_bytes m)"

text \<open>\<open>None\<close> is the NULL or \<open>-1\<close> of a request that does not fit.\<close>

record mbuf_api =
  pkt_adj :: "nat \<Rightarrow> mbuf \<Rightarrow> mbuf option"
  pkt_trim :: "nat \<Rightarrow> mbuf \<Rightarrow> mbuf option"
  pkt_prepend :: "nat \<Rightarrow> mbuf \<Rightarrow> mbuf option"
  pkt_append :: "nat \<Rightarrow> mbuf \<Rightarrow> mbuf option"
  align_ceil :: "u32 \<Rightarrow> u32 \<Rightarrow> u32"

text \<open>
  The documented behaviour: bytes are removed at the front (\<open>adj\<close>) or the end (\<open>trim\<close>) when there
  are enough of them, and added with arbitrary contents when there is room; nothing else changes.
  \<open>RTE_ALIGN_CEIL\<close> rounds up to a multiple of a power of two.
\<close>

definition mbuf_api_ok :: "mbuf_api \<Rightarrow> bool" where
  "mbuf_api_ok api \<longleftrightarrow>
     (\<forall>n m. pkt_adj api n m = (if n \<le> pkt_len m then Some (m\<lparr>m_bytes := drop n (m_bytes m)\<rparr>) else None)) \<and>
     (\<forall>n m. pkt_trim api n m = (if n \<le> pkt_len m then Some (m\<lparr>m_bytes := take (pkt_len m - n) (m_bytes m)\<rparr>) else None)) \<and>
     (\<forall>n m m'. pkt_prepend api n m = Some m' \<longrightarrow> (\<exists>new. length new = n \<and> m' = m\<lparr>m_bytes := new @ m_bytes m\<rparr>)) \<and>
     (\<forall>n m m'. pkt_append api n m = Some m' \<longrightarrow> (\<exists>new. length new = n \<and> m' = m\<lparr>m_bytes := m_bytes m @ new\<rparr>)) \<and>
     (\<forall>v a. unat a \<in> {4, 8, 16, 32, 64} \<and> unat v + unat a < 2 ^ 32 \<longrightarrow>
        unat (align_ceil api v a) = (unat v + unat a - 1) div unat a * unat a)"

lemma mbuf_api_okD:
  assumes "mbuf_api_ok api"
  shows "pkt_adj api n m = (if n \<le> pkt_len m then Some (m\<lparr>m_bytes := drop n (m_bytes m)\<rparr>) else None)"
    and "pkt_trim api n m = (if n \<le> pkt_len m then Some (m\<lparr>m_bytes := take (pkt_len m - n) (m_bytes m)\<rparr>) else None)"
    and "pkt_prepend api n m = Some m' \<Longrightarrow> \<exists>new. length new = n \<and> m' = m\<lparr>m_bytes := new @ m_bytes m\<rparr>"
    and "pkt_append api n m = Some m' \<Longrightarrow> \<exists>new. length new = n \<and> m' = m\<lparr>m_bytes := m_bytes m @ new\<rparr>"
    and "unat a \<in> {4, 8, 16, 32, 64} \<Longrightarrow> unat v + unat a < 2 ^ 32 \<Longrightarrow>
        unat (align_ceil api v a) = (unat v + unat a - 1) div unat a * unat a"
  using assms unfolding mbuf_api_ok_def by metis+

text \<open>An instance with enough head and tail room, for the witnesses.\<close>

definition sample_api :: mbuf_api where
  "sample_api =
     \<lparr>pkt_adj = (\<lambda>n m. if n \<le> pkt_len m then Some (m\<lparr>m_bytes := drop n (m_bytes m)\<rparr>) else None),
      pkt_trim = (\<lambda>n m. if n \<le> pkt_len m then Some (m\<lparr>m_bytes := take (pkt_len m - n) (m_bytes m)\<rparr>) else None),
      pkt_prepend = (\<lambda>n m. if n \<le> 128 then Some (m\<lparr>m_bytes := replicate n 0 @ m_bytes m\<rparr>) else None),
      pkt_append = (\<lambda>n m. if n \<le> 512 then Some (m\<lparr>m_bytes := m_bytes m @ replicate n 0xEE\<rparr>) else None),
      align_ceil = (\<lambda>v a. of_nat ((unat v + unat a - 1) div unat a * unat a))\<rparr>"

lemma sample_api_ok: "mbuf_api_ok sample_api"
proof -
  have "unat (of_nat ((unat v + unat a - 1) div unat a * unat a) :: u32) = (unat v + unat a - 1) div unat a * unat a"
    if "unat v + unat a < 2 ^ 32" for v a :: u32
  proof -
    have "(unat v + unat a - 1) div unat a * unat a \<le> unat v + unat a - 1" by (rule div_times_less_eq_dividend)
    also have "unat v + unat a - 1 < 4294967296" using that by simp
    finally show ?thesis by (rule unat_of_nat_u32)
  qed
  then show ?thesis
    unfolding mbuf_api_ok_def sample_api_def
    by (auto split: if_splits intro: exI [of _ "replicate _ _"])
qed

section \<open>Header fields\<close>

text \<open>16-bit loads and stores as the target performs them, and in network order.\<close>

definition le16_at :: "u8 list \<Rightarrow> nat \<Rightarrow> u16" where
  "le16_at bs i = u16_of_bytes (bs ! (i + 1)) (bs ! i)"

definition be16_at :: "u8 list \<Rightarrow> nat \<Rightarrow> u16" where
  "be16_at bs i = u16_of_bytes (bs ! i) (bs ! (i + 1))"

definition put_bytes :: "nat \<Rightarrow> u8 list \<Rightarrow> u8 list \<Rightarrow> u8 list" where
  "put_bytes i new bs = take i bs @ new @ drop (i + length new) bs"

definition put_le16 :: "nat \<Rightarrow> u16 \<Rightarrow> u8 list \<Rightarrow> u8 list" where
  "put_le16 i w bs = put_bytes i (rev (bytes_of_u16 w)) bs"

definition put_be16 :: "nat \<Rightarrow> u16 \<Rightarrow> u8 list \<Rightarrow> u8 list" where
  "put_be16 i w bs = put_bytes i (bytes_of_u16 w) bs"

definition ip_v :: "u8 list \<Rightarrow> nat" where
  "ip_v bs = unat (bs ! 0) div 16"

definition ip_hl :: "u8 list \<Rightarrow> nat" where
  "ip_hl bs = unat (bs ! 0) mod 16"

definition ip6_flow :: "u8 list \<Rightarrow> u32" where
  "ip6_flow bs = u32_of_bytes (bs ! 0) (bs ! 1) (bs ! 2) (bs ! 3)"

definition IPPROTO_ESP :: u8 where "IPPROTO_ESP = 50"
definition IPPROTO_UDP :: u8 where "IPPROTO_UDP = 17"
definition IPPROTO_TCP :: u8 where "IPPROTO_TCP = 6"
definition IPPROTO_IPIP :: u8 where "IPPROTO_IPIP = 4"
definition IPPROTO_IPV6 :: u8 where "IPPROTO_IPV6 = 41"
definition IPDEFTTL :: u8 where "IPDEFTTL = 64"

lemma length_put_bytes [simp]: "i + length new \<le> length bs \<Longrightarrow> length (put_bytes i new bs) = length bs"
  by (simp add: put_bytes_def)

lemma nth_put_bytes:
  "i + length new \<le> length bs \<Longrightarrow> k < length bs \<Longrightarrow>
   put_bytes i new bs ! k = (if i \<le> k \<and> k < i + length new then new ! (k - i) else bs ! k)"
  by (auto simp: put_bytes_def nth_append)

lemma length_put_16 [simp]:
  "i + 2 \<le> length bs \<Longrightarrow> length (put_le16 i w bs) = length bs"
  "i + 2 \<le> length bs \<Longrightarrow> length (put_be16 i w bs) = length bs"
  by (simp_all add: put_le16_def put_be16_def)

section \<open>Decrementing the TTL\<close>

text \<open>
  The checksum is adjusted in the byte order of the target: \<open>rte_cpu_to_be_16 (0x100)\<close> is 1 and
  \<open>rte_cpu_to_be_16 (0xffff - 0x100)\<close> is \<open>0xfffe\<close>.
\<close>

definition dec_ttl4 :: "u8 list \<Rightarrow> u8 list" where
  "dec_ttl4 bs =
     (let bs1 = bs[8 := bs ! 8 - 1]; sum = le16_at bs1 10 in
      put_le16 10
        (if bswap16 (0xffff - 0x100) \<le> sum then sum + bswap16 0x100 + 1 else sum + bswap16 0x100) bs1)"

definition dec_hops6 :: "u8 list \<Rightarrow> u8 list" where
  "dec_hops6 bs = bs[7 := bs ! 7 - 1]"

section \<open>Encapsulation\<close>

text \<open>
  \<open>ipip_outbound\<close>: the inner TTL or hop limit is decremented, the class of service is copied, and
  the outer header is written in front of \<open>offset\<close> bytes for the ESP header and IV. The fields of
  the outer IPv4 header that the code leaves alone (its checksum) keep what was in the head room.
\<close>

definition ipip_inner :: "u8 list \<Rightarrow> u8 list \<times> u8" where
  "ipip_inner bs =
     (if ip_v bs = 4 then (let bs' = dec_ttl4 bs in (bs', bs' ! 1))
      else (let bs' = dec_hops6 bs in (bs', ucast (drop_bit 20 (ip6_flow bs')))))"

definition outer6 :: "u8 \<Rightarrow> nat \<Rightarrow> ip_addr \<Rightarrow> ip_addr \<Rightarrow> u8 list" where
  "outer6 ds_ecn len s d =
     bytes_of_u32 (push_bit 28 6 OR push_bit 20 (ucast ds_ecn)) @ bytes_of_u16 (of_nat len - 40) @
     [IPPROTO_ESP, IPDEFTTL] @ ip6 s @ ip6 d"

definition outer4 :: "u8 \<Rightarrow> nat \<Rightarrow> ip_addr \<Rightarrow> ip_addr \<Rightarrow> u8 list \<Rightarrow> u8 list" where
  "outer4 ds_ecn len s d old_sum =
     [0x45, ds_ecn] @ bytes_of_u16 (of_nat len) @ [0, 0, 0, 0, IPDEFTTL, IPPROTO_ESP] @ old_sum @
     bytes_of_u32 (bswap32 (ip4 s)) @ bytes_of_u32 (bswap32 (ip4 d))"

definition ipip_outbound ::
  "mbuf_api \<Rightarrow> mbuf \<Rightarrow> nat \<Rightarrow> bool \<Rightarrow> ip_addr \<Rightarrow> ip_addr \<Rightarrow> errno + mbuf" where
  "ipip_outbound api m offset is_ipv6 s d =
     (if pkt_len m < (if m_bytes m \<noteq> [] \<and> ip_v (m_bytes m) = 4 then 12 else 8) then Inl UB
      else let (inner, ds_ecn) = ipip_inner (m_bytes m); m1 = m\<lparr>m_bytes := inner\<rparr> in
        if is_ipv6 then
          (case pkt_prepend api (offset + 40) m1 of
             None \<Rightarrow> Inl UB
           | Some m2 \<Rightarrow> Inr (m2\<lparr>m_bytes := put_bytes 0 (outer6 ds_ecn (pkt_len m2) s d) (m_bytes m2)\<rparr>))
        else
          (case pkt_prepend api (offset + 20) m1 of
             None \<Rightarrow> Inl UB
           | Some m2 \<Rightarrow>
               Inr (m2\<lparr>m_bytes := put_bytes 0 (outer4 ds_ecn (pkt_len m2) s d
                        [m_bytes m2 ! 10, m_bytes m2 ! 11]) (m_bytes m2),
                      l4_type := L4_NONE\<rparr>)))"

section \<open>Decapsulation\<close>

definition ip4_ecn_setup :: "u8 list \<Rightarrow> u8 list" where
  "ip4_ecn_setup bs =
     (if bs ! 1 AND 3 \<noteq> 0 then
        (let old = bs ! 1; new = old OR 3; bs1 = bs[1 := new];
             sum0 = unat old + unat (NOT new) + unat (be16_at bs1 10);
             sum1 = sum0 mod 65536 + sum0 div 65536
         in put_be16 10 (of_nat (sum1 + sum1 div 65536)) bs1)
      else bs)"

definition ip6_ecn_setup :: "u8 list \<Rightarrow> u8 list" where
  "ip6_ecn_setup bs =
     (if drop_bit 20 (ip6_flow bs) AND 3 \<noteq> 0
      then put_bytes 0 (bytes_of_u32 (ip6_flow bs OR push_bit 20 3)) bs else bs)"

definition l4_of_proto :: "u8 \<Rightarrow> l4_ptype" where
  "l4_of_proto p = (if p = IPPROTO_UDP then L4_UDP else if p = IPPROTO_TCP then L4_TCP else L4_NONE)"

definition ipip_inbound :: "mbuf_api \<Rightarrow> mbuf \<Rightarrow> nat \<Rightarrow> errno + mbuf" where
  "ipip_inbound api m offset =
     (let out = m_bytes m in
      if pkt_len m < 4 then Inl UB
      else let (ip_len, set_ecn) =
          (if ip_v out = 4 then (20, out ! 1 AND 3 = 3)
           else (40, drop_bit 20 (ip6_flow out) AND 3 = 3))
        in case pkt_adj api (offset + ip_len) m of
             None \<Rightarrow> Inl UB
           | Some m1 \<Rightarrow>
               (let inner = m_bytes m1 in
                if inner = [] then Inl UB
                else if ip_v inner = 4 then
                  (if length inner < 12 then Inl UB
                   else let b1 = (if set_ecn then ip4_ecn_setup inner else inner); b2 = dec_ttl4 b1
                     in Inr (m1\<lparr>m_bytes := b2, l4_type := l4_of_proto (b2 ! 9)\<rparr>))
                else
                  (if length inner < 8 then Inl UB
                   else let b1 = (if set_ecn then ip6_ecn_setup inner else inner)
                     in Inr (m1\<lparr>m_bytes := dec_hops6 b1\<rparr>))))"

section \<open>The header checksum\<close>

text \<open>
  The ten 16-bit words of an IPv4 header add up, checksum included, to a multiple of 65535 exactly
  when the checksum is right; \<open>hdr_sum\<close> is that sum.
\<close>

definition hdr_sum :: "u8 list \<Rightarrow> nat" where
  "hdr_sum bs = (\<Sum>i\<leftarrow>[0..<10]. unat (be16_at bs (2 * i)))"

lemma be16_nat: "unat (be16_at bs i) = 256 * unat (bs ! i) + unat (bs ! (i + 1))"
  by (simp add: be16_at_def unat_u16_of_bytes)

lemma le16_nat: "unat (le16_at bs i) = 256 * unat (bs ! (i + 1)) + unat (bs ! i)"
  by (simp add: le16_at_def unat_u16_of_bytes)

text \<open>Swapping the bytes of a word multiplies it by 256 modulo 65535.\<close>

lemma be16_le16_mod: "unat (be16_at bs i) mod 65535 = (256 * unat (le16_at bs i)) mod 65535"
proof -
  have "256 * unat (le16_at bs i) = unat (be16_at bs i) + 65535 * unat (bs ! (i + 1))"
    by (simp add: be16_nat le16_nat)
  then show ?thesis by simp
qed

lemma le16_put_le16 [simp]: "i + 2 \<le> length bs \<Longrightarrow> le16_at (put_le16 i w bs) i = w"
  by (simp add: le16_at_def put_le16_def nth_put_bytes bytes_of_u16_def)

lemma nth_put_16:
  "i + 2 \<le> length bs \<Longrightarrow> k < length bs \<Longrightarrow> k \<noteq> i \<Longrightarrow> k \<noteq> Suc i \<Longrightarrow> put_le16 i w bs ! k = bs ! k"
  "i + 2 \<le> length bs \<Longrightarrow> k < length bs \<Longrightarrow> k \<noteq> i \<Longrightarrow> k \<noteq> Suc i \<Longrightarrow> put_be16 i w bs ! k = bs ! k"
  by (auto simp: put_le16_def put_be16_def nth_put_bytes)

lemma be16_put_be16 [simp]: "i + 2 \<le> length bs \<Longrightarrow> be16_at (put_be16 i w bs) i = w"
  by (simp add: be16_at_def put_be16_def nth_put_bytes bytes_of_u16_def)

text \<open>The adjustment of the checksum register is an increment modulo 65535.\<close>

lemma ttl_sum_step:
  fixes s :: u16
  shows "unat (if bswap16 (0xffff - 0x100) \<le> s then s + bswap16 0x100 + 1 else s + bswap16 0x100) mod 65535
    = (unat s + 1) mod 65535"
proof -
  have c: "bswap16 (0xffff - 0x100) = 0xfffe" "bswap16 0x100 = 1" by (simp_all add: bswap16_def)
  show ?thesis
  proof (cases "0xfffe \<le> s")
    case True
    then have "unat s = 65534 \<or> unat s = 65535"
      using unat_u16_less [of s] by (auto simp: word_le_nat_alt)
    then have "s = 0xfffe \<or> s = 0xffff"
      by (auto intro: unsigned_word_eqI [where 'a = nat])
    then show ?thesis using c by auto
  next
    case False
    then have "unat s < 65534" by (simp add: word_le_nat_alt)
    then have "unat (s + 1) = unat s + 1" by (simp add: unat_word_ariths)
    with False c show ?thesis by simp
  qed
qed

lemma hdr_sum_split:
  "hdr_sum bs = unat (be16_at bs 0) + unat (be16_at bs 2) + unat (be16_at bs 4) + unat (be16_at bs 6) +
     unat (be16_at bs 8) + unat (be16_at bs 10) + unat (be16_at bs 12) + unat (be16_at bs 14) +
     unat (be16_at bs 16) + unat (be16_at bs 18)"
  by (simp add: hdr_sum_def upt_rec)

lemma length_dec_ttl4 [simp]: "12 \<le> length bs \<Longrightarrow> length (dec_ttl4 bs) = length bs"
  by (simp add: dec_ttl4_def Let_def)

lemma nth_dec_ttl4:
  "12 \<le> length bs \<Longrightarrow> k < length bs \<Longrightarrow> k \<noteq> 10 \<Longrightarrow> k \<noteq> 11 \<Longrightarrow>
   dec_ttl4 bs ! k = (if k = 8 then bs ! 8 - 1 else bs ! k)"
  by (simp add: dec_ttl4_def Let_def nth_put_16)

lemma dec_ttl4_sum:
  assumes "20 \<le> length bs"
  shows "unat (be16_at (dec_ttl4 bs) 10) mod 65535 = (unat (be16_at bs 10) + 256) mod 65535"
proof -
  have l: "le16_at (bs[8 := x]) 10 = le16_at bs 10" for x by (simp add: le16_at_def)
  have "unat (be16_at (dec_ttl4 bs) 10) mod 65535 = (256 * (unat (le16_at (dec_ttl4 bs) 10) mod 65535)) mod 65535"
    by (simp add: be16_le16_mod mod_mult_right_eq)
  also have "unat (le16_at (dec_ttl4 bs) 10) mod 65535 = (unat (le16_at bs 10) + 1) mod 65535"
    unfolding ttl_sum_step [of "le16_at bs 10", symmetric]
    using assms by (simp only: dec_ttl4_def Let_def l) (simp del: One_nat_def)
  also have "(256 * ((unat (le16_at bs 10) + 1) mod 65535)) mod 65535 = (256 * unat (le16_at bs 10) + 256) mod 65535"
    by (simp add: mod_mult_right_eq algebra_simps)
  also have "\<dots> = (unat (be16_at bs 10) + 256) mod 65535"
    by (metis be16_le16_mod mod_add_left_eq)
  finally show ?thesis .
qed

text \<open>
  C33. Decrementing the TTL keeps the IPv4 header checksum right: for every header with a TTL of at
  least one, the sum of its words does not change modulo 65535, whichever branch of the adjustment
  is taken.
\<close>

theorem dec_ttl4_checksum:
  assumes "20 \<le> length bs" and "bs ! 8 \<noteq> 0"
  shows "hdr_sum (dec_ttl4 bs) mod 65535 = hdr_sum bs mod 65535"
proof -
  let ?R = "unat (be16_at bs 0) + unat (be16_at bs 2) + unat (be16_at bs 4) + unat (be16_at bs 6) +
     unat (be16_at bs 12) + unat (be16_at bs 14) + unat (be16_at bs 16) + unat (be16_at bs 18)"
  have ne: "bs \<noteq> []" using assms(1) by auto
  have same: "be16_at (dec_ttl4 bs) i = be16_at bs i" if "i \<in> {0, 2, 4, 6, 12, 14, 16, 18}" for i
    using that assms(1) ne by (auto simp: be16_at_def nth_dec_ttl4)
  have "1 \<le> unat (bs ! 8)" using assms(2) by (simp add: Suc_le_eq unat_gt_0)
  then have "unat (bs ! 8 - 1) + 1 = unat (bs ! 8)" by (simp add: unat_sub word_le_nat_alt)
  then have ttl: "unat (be16_at (dec_ttl4 bs) 8) + 256 = unat (be16_at bs 8)"
    using assms(1) by (simp add: be16_nat nth_dec_ttl4)
  have "hdr_sum (dec_ttl4 bs) = ?R + unat (be16_at (dec_ttl4 bs) 8) + unat (be16_at (dec_ttl4 bs) 10)"
    by (simp add: hdr_sum_split same)
  then have "hdr_sum (dec_ttl4 bs) mod 65535
      = (?R + unat (be16_at (dec_ttl4 bs) 8) + (unat (be16_at (dec_ttl4 bs) 10) mod 65535)) mod 65535"
    by (simp add: mod_add_right_eq)
  also have "\<dots> = (?R + unat (be16_at (dec_ttl4 bs) 8) + (unat (be16_at bs 10) + 256)) mod 65535"
    by (simp only: dec_ttl4_sum [OF assms(1)] mod_add_right_eq)
  also have "?R + unat (be16_at (dec_ttl4 bs) 8) + (unat (be16_at bs 10) + 256) = hdr_sum bs"
    using ttl by (simp add: hdr_sum_split)
  finally show ?thesis .
qed

definition sample_ip4 :: "u8 list" where
  "sample_ip4 = [0x45, 0, 0, 24, 0, 0, 0, 0, 64, 17, 0x9A, 0xD2, 192, 168, 1, 1, 10, 0, 0, 1, 1, 2, 3, 4]"

theorem dec_ttl4_checksum_witness:
  "hdr_sum (dec_ttl4 sample_ip4) mod 65535 = hdr_sum sample_ip4 mod 65535"
  using dec_ttl4_checksum [of sample_ip4] by (simp add: sample_ip4_def)

text \<open>Folding the carries of a sum into 16 bits keeps it modulo 65535.\<close>

lemma fold16:
  assumes "s1 = x mod 65536 + x div 65536" and "x < 66047"
  shows "unat (of_nat (s1 + s1 div 65536) :: u16) mod 65535 = x mod 65535"
proof (cases "x < 65536")
  case True
  with assms(1) have "s1 = x" by simp
  with True show ?thesis by (simp add: unat_of_nat_u16)
next
  case False
  with assms(2) have "x div 65536 = 1" by (intro div_nat_eqI) simp_all
  moreover have "x mod 65536 = x - 65536" using False assms(2) by (simp add: mod_if)
  ultimately have s1: "s1 = x - 65535" using assms(1) False by simp
  with assms(2) have "s1 < 65536" by simp
  moreover have "x mod 65535 = s1 mod 65535" using s1 False by (simp add: le_mod_geq)
  ultimately show ?thesis by (simp add: unat_of_nat_u16)
qed

lemma unat_not_u8: "unat (NOT w :: u8) + unat w = 255"
proof -
  have "NOT w = 255 - w" by (simp add: not_eq_complement)
  moreover have "w \<le> 255" using unat_u8_less [of w] by (simp add: word_le_nat_alt)
  ultimately show ?thesis using unat_u8_less [of w] by (simp add: unat_sub)
qed

text \<open>
  \<open>ip4_ecn_setup\<close> breaks the header checksum: it complements the class of service as an 8-bit
  value where the incremental update needs 16 bits, so on every packet it marks the sum of the
  header is off by 255 modulo 65535.
\<close>

theorem ip4_ecn_setup_checksum:
  assumes "20 \<le> length bs" and "bs ! 1 AND 3 \<noteq> 0"
  shows "hdr_sum (ip4_ecn_setup bs) mod 65535 = (hdr_sum bs + 255) mod 65535"
proof -
  let ?old = "bs ! 1" and ?new = "bs ! 1 OR 3"
  let ?b1 = "bs[1 := ?new]"
  define x where "x = unat ?old + unat (NOT ?new) + unat (be16_at ?b1 10)"
  define s1 where "s1 = x mod 65536 + x div 65536"
  define c where "c = (of_nat (s1 + s1 div 65536) :: u16)"
  let ?R = "unat (be16_at bs 2) + unat (be16_at bs 4) + unat (be16_at bs 6) + unat (be16_at bs 8) +
     unat (be16_at bs 12) + unat (be16_at bs 14) + unat (be16_at bs 16) + unat (be16_at bs 18)"
  have ne: "bs \<noteq> []" using assms(1) by auto
  have bs': "ip4_ecn_setup bs = put_be16 10 c ?b1"
    using assms(2) by (simp add: ip4_ecn_setup_def Let_def c_def s1_def x_def)
  have same: "be16_at (ip4_ecn_setup bs) i = be16_at bs i" if "i \<in> {2, 4, 6, 8, 12, 14, 16, 18}" for i
    using that assms(1) by (auto simp: bs' be16_at_def nth_put_16)
  have w10: "be16_at (ip4_ecn_setup bs) 10 = c" "be16_at ?b1 10 = be16_at bs 10"
    using assms(1) by (simp_all add: bs') (simp add: be16_at_def)
  have w0: "unat (be16_at (ip4_ecn_setup bs) 0) = 256 * unat (bs ! 0) + unat ?new"
    using assms(1) ne by (simp add: bs' be16_nat nth_put_16)
  have b0: "unat (be16_at bs 0) = 256 * unat (bs ! 0) + unat ?old" by (simp add: be16_nat)
  have neg: "unat (NOT ?new) + unat ?new = 255" by (rule unat_not_u8)
  have "x < 66047"
    using unat_u8_less [of ?old] unat_u8_less [of "NOT ?new"] unat_u16_less [of "be16_at ?b1 10"]
    by (simp add: x_def)
  then have c: "unat c mod 65535 = x mod 65535"
    unfolding c_def by (rule fold16 [OF s1_def])
  have "hdr_sum (ip4_ecn_setup bs) = ?R + 256 * unat (bs ! 0) + unat ?new + unat c"
    by (simp add: hdr_sum_split same w10 w0)
  then have "hdr_sum (ip4_ecn_setup bs) mod 65535 = (?R + 256 * unat (bs ! 0) + unat ?new + x) mod 65535"
    by (metis c mod_add_right_eq)
  also have "?R + 256 * unat (bs ! 0) + unat ?new + x = hdr_sum bs + 255"
    using neg unfolding x_def hdr_sum_split w10(2) b0 by linarith
  finally show ?thesis .
qed

theorem ip4_ecn_setup_checksum_witness:
  "hdr_sum (ip4_ecn_setup (sample_ip4[1 := 3])) mod 65535 = (hdr_sum (sample_ip4[1 := 3]) + 255) mod 65535"
  using ip4_ecn_setup_checksum [of "sample_ip4[1 := 3]"] by (simp add: sample_ip4_def)

section \<open>Shapes of encapsulated packets\<close>

lemma length_outer4 [simp]: "length (outer4 e n s d [x, y]) = 20"
  by (simp add: outer4_def)

lemma outer4_fields [simp]:
  "ip_v (outer4 e n s d c @ r) = 4" "(outer4 e n s d c @ r) ! Suc 0 = e"
  by (simp_all add: outer4_def ip_v_def)

lemma put_bytes_front: "length new \<le> length xs \<Longrightarrow> put_bytes 0 new (xs @ ys) = new @ drop (length new) xs @ ys"
  by (simp add: put_bytes_def)

lemma ipip_outbound4_shape:
  assumes api: "mbuf_api_ok api" and v4: "ip_v (m_bytes m) = 4" and len: "12 \<le> pkt_len m"
    and out: "ipip_outbound api m offset False s d = Inr m'"
  shows "\<exists>c mid. length mid = offset \<and> length c = 2 \<and>
    m' = m\<lparr>m_bytes := outer4 (m_bytes m ! 1) (20 + offset + pkt_len m) s d c @ mid @ dec_ttl4 (m_bytes m), l4_type := L4_NONE\<rparr>"
proof -
  let ?bs = "m_bytes m"
  have ne: "?bs \<noteq> []" and l: "12 \<le> length ?bs" using len by (auto simp: pkt_len_def)
  have tos: "dec_ttl4 ?bs ! 1 = ?bs ! 1" using l by (simp add: nth_dec_ttl4)
  from out len ne v4 obtain m2 where m2: "pkt_prepend api (offset + 20) (m\<lparr>m_bytes := dec_ttl4 ?bs\<rparr>) = Some m2"
    and m': "m' = m2\<lparr>m_bytes := put_bytes 0 (outer4 (?bs ! 1) (pkt_len m2) s d
        [m_bytes m2 ! 10, m_bytes m2 ! 11]) (m_bytes m2), l4_type := L4_NONE\<rparr>"
    by (auto simp: ipip_outbound_def ipip_inner_def Let_def tos [simplified] split: option.splits)
  from mbuf_api_okD(3) [OF api m2] obtain new where new: "length new = offset + 20"
    and m2e: "m2 = m\<lparr>m_bytes := new @ dec_ttl4 ?bs\<rparr>" by auto
  have "pkt_len m2 = 20 + offset + pkt_len m"
    using l by (simp add: m2e pkt_len_def new)
  with m' m2e new show ?thesis
    by (intro exI [of _ "[m_bytes m2 ! 10, m_bytes m2 ! 11]"] exI [of _ "drop 20 new"])
      (simp add: put_bytes_front)
qed

text \<open>Taking the outer header off again, when the outer class of service does not carry CE.\<close>

lemma ipip_inbound4_shape:
  assumes api: "mbuf_api_ok api" and bytes: "m_bytes m = outer4 e n s d c @ mid @ inner"
    and "length c = 2" and "length mid = offset" and ce: "e AND 3 \<noteq> 3"
    and inner: "ip_v inner = 4" "12 \<le> length inner"
  shows "ipip_inbound api m offset =
    Inr (m\<lparr>m_bytes := dec_ttl4 inner, l4_type := l4_of_proto (inner ! 9)\<rparr>)"
proof -
  have len: "length (outer4 e n s d c) = 20" using assms(3) by (simp add: outer4_def)
  have ne: "inner \<noteq> []" using inner(2) by auto
  have "pkt_adj api (offset + 20) m = Some (m\<lparr>m_bytes := inner\<rparr>)"
    using assms(4) len by (simp add: mbuf_api_okD(1) [OF api] bytes pkt_len_def)
  then show ?thesis
    using ce inner ne len by (simp add: ipip_inbound_def bytes pkt_len_def Let_def nth_dec_ttl4)
qed

end
