(* ===== verification/ESP.thy ===== *)
theory ESP
  imports IPIP
begin

text \<open>
  ESP packet processing, \<open>esp.c\<close>: what is laid out in a packet and asked of the crypto device on
  the way out (\<open>esp_outbound\<close>, \<open>esp_outbound_post\<close>) and checked and taken off on the way in
  (\<open>esp_inbound\<close>, \<open>esp_inbound_post\<close>). Encryption itself is the device's: between the two halves
  the bytes of the payload are whatever the device leaves.
\<close>

section \<open>Crypto operations\<close>

datatype op_status = OP_SUCCESS | OP_NOT_PROCESSED | OP_ERROR

text \<open>
  The symmetric operation the code fills in: AEAD data offset and length, or cipher offset and
  length and authentication offset and length, and the offset of the digest in the packet.
\<close>

datatype sym_op = No_op | Aead_op nat nat nat | Cipher_auth_op nat nat nat nat nat

record crypto_op =
  op_status :: op_status
  op_sym :: sym_op
  op_iv :: "u8 list"

definition ctr_blk :: "u32 \<Rightarrow> u8 list \<Rightarrow> cnt_blk" where
  "ctr_blk s iv = \<lparr>cb_salt = s, cb_iv = iv, cb_cnt = bswap32 1\<rparr>"

definition slice :: "nat \<Rightarrow> nat \<Rightarrow> 'a list \<Rightarrow> 'a list" where
  "slice i n xs = take n (drop i xs)"

section \<open>Inbound\<close>

definition esp_in_hdr_len :: "u8 list \<Rightarrow> nat option" where
  "esp_in_hdr_len bs = (if ip_v bs = 4 then Some (ip_hl bs * 4) else if ip_v bs = 6 then Some 40 else None)"

definition esp_in_payload_len :: "mbuf \<Rightarrow> ipsec_sa \<Rightarrow> nat \<Rightarrow> int" where
  "esp_in_payload_len m sa h = int (pkt_len m) - int h - 8 - int (unat (iv_len sa)) - int (unat (digest_len sa))"

definition esp_inbound :: "mbuf \<Rightarrow> ipsec_sa \<Rightarrow> crypto_op \<Rightarrow> errno + mbuf \<times> crypto_op" where
  "esp_inbound m sa cop =
     (if ses_type (primary sa) = TYPE_INLINE_CRYPTO then Inr (m, cop)
      else if m_bytes m = [] then Inl UB
      else case esp_in_hdr_len (m_bytes m) of
          None \<Rightarrow> Inl EINVAL
        | Some h \<Rightarrow>
            (let payload_len = esp_in_payload_len m sa h; n = nat payload_len;
                 ivl = unat (iv_len sa); digest = pkt_len m - unat (digest_len sa) in
             if payload_len AND (int (unat (block_size sa)) - 1) \<noteq> 0 \<or> payload_len \<le> 0 then Inl EINVAL
             else if aead_algo sa = AEAD_AES_GCM then
               Inr (m\<lparr>icb := ctr_blk (salt sa) (slice (h + 8) 8 (m_bytes m)), aad := slice h 8 (m_bytes m)\<rparr>,
                    cop\<lparr>op_sym := Aead_op (h + 8 + ivl) n digest\<rparr>)
             else
               let done = (\<lambda>m' c'.
                     if auth_algo sa \<in> {AUTH_NULL, AUTH_SHA1_HMAC, AUTH_SHA256_HMAC} then
                       Inr (m', c'\<lparr>op_sym := Cipher_auth_op (h + 8 + ivl) n h (8 + ivl + n) digest\<rparr>)
                     else Inl EINVAL)
               in if cipher_algo sa \<in> {CIPHER_NULL, CIPHER_3DES_CBC, CIPHER_AES_CBC} then
                    done m (cop\<lparr>op_iv := slice (h + 8) ivl (m_bytes m)\<rparr>)
                  else if cipher_algo sa = CIPHER_AES_CTR then
                    done (m\<lparr>icb := ctr_blk (salt sa) (slice (h + 8) 8 (m_bytes m))\<rparr>) cop
                  else Inl EINVAL))"

text \<open>The status the inline offloads derive from the receive flags.\<close>

definition esp_in_status :: "mbuf \<Rightarrow> ipsec_sa \<Rightarrow> crypto_op \<Rightarrow> op_status" where
  "esp_in_status m sa cop =
     (if ses_type (primary sa) \<in> {TYPE_INLINE_PROTOCOL, TYPE_INLINE_CRYPTO} then
        (if rx_sec_offload m then (if rx_sec_failed m then OP_ERROR else OP_SUCCESS)
         else OP_NOT_PROCESSED)
      else op_status cop)"

text \<open>
  Removing the trailer: the next header and the packet without padding, pad length, next header
  and digest. The padding must count up from 1. Padding that would start before the packet is \<open>UB\<close>.
\<close>

definition padding_ok :: "u8 list \<Rightarrow> bool" where
  "padding_ok pad \<longleftrightarrow> (\<forall>i < length pad. unat (pad ! i) = i + 1)"

definition esp_in_trailer :: "mbuf_api \<Rightarrow> mbuf \<Rightarrow> ipsec_sa \<Rightarrow> errno + u8 \<times> mbuf" where
  "esp_in_trailer api m sa =
     (if ses_type (primary sa) = TYPE_INLINE_CRYPTO \<and> hw_trailer (primary sa) then
        Inr (inner_esp_next_proto m, m)
      else
        let dl = unat (digest_len sa) in
        if pkt_len m < dl + 2 then Inl UB
        else let np = pkt_len m - dl - 1; nexthdr = m_bytes m ! np; pad = unat (m_bytes m ! (np - 1)) in
          if pkt_len m < dl + 2 + pad then Inl UB
          else if \<not> padding_ok (slice (np - 1 - pad) pad (m_bytes m)) then Inl EINVAL
          else case pkt_trim api (pad + 2 + dl) m of
              None \<Rightarrow> Inl EINVAL
            | Some m' \<Rightarrow> Inr (nexthdr, m'))"

text \<open>Moving the IP header of a transport packet over the removed ESP header.\<close>

definition esp_in_transport :: "mbuf_api \<Rightarrow> mbuf \<Rightarrow> ipsec_sa \<Rightarrow> u8 \<Rightarrow> errno + mbuf" where
  "esp_in_transport api m sa nexthdr =
     (let old = m_bytes m in
      case pkt_adj api (8 + unat (iv_len sa)) m of
        None \<Rightarrow> Inl UB
      | Some m1 \<Rightarrow>
          (if old = [] then Inl UB
           else if ip_v old = 4 then
             (let h = ip_hl old * 4 in
              if pkt_len m1 < max h 20 then Inl UB
              else Inr (m1\<lparr>m_bytes := put_be16 2 (of_nat (pkt_len m1))
                     ((put_bytes 0 (take h old) (m_bytes m1))[9 := nexthdr])\<rparr>))
           else
             (if pkt_len m1 < 40 then Inl UB
              else Inr (m1\<lparr>m_bytes := put_be16 4 (of_nat (pkt_len m1) - 40)
                     ((put_bytes 0 (take 40 old) (m_bytes m1))[6 := nexthdr])\<rparr>))))"

definition esp_inbound_post :: "mbuf_api \<Rightarrow> mbuf \<Rightarrow> ipsec_sa \<Rightarrow> crypto_op \<Rightarrow> errno + mbuf" where
  "esp_inbound_post api m sa cop =
     (if esp_in_status m sa cop \<noteq> OP_SUCCESS then Inl EFAIL
      else case esp_in_trailer api m sa of
          Inl e \<Rightarrow> Inl e
        | Inr (nexthdr, m') \<Rightarrow>
            (if is_transport (flags sa) then esp_in_transport api m' sa nexthdr
             else ipip_inbound api m' (8 + unat (iv_len sa))))"

section \<open>Outbound\<close>

text \<open>The next-layer protocol and the header length of the transport modes; \<open>None\<close> for a bad version.\<close>

definition esp_out_class :: "u8 list \<Rightarrow> u16 \<Rightarrow> (nat \<times> u8) option" where
  "esp_out_class bs f =
     (if ip_v bs = 4 then Some (if is_transport f then (ip_hl bs * 4, bs ! 9) else (0, IPPROTO_IPIP))
      else if ip_v bs = 6 then Some (if is_transport f then (40, bs ! 6) else (0, IPPROTO_IPV6))
      else None)"

text \<open>\<open>pad_payload_len\<close> and \<open>pad_len\<close>, both 16 bits wide.\<close>

definition esp_pads :: "mbuf_api \<Rightarrow> nat \<Rightarrow> nat \<Rightarrow> u16 \<Rightarrow> u16 \<times> u16" where
  "esp_pads api len h block =
     (let pp = (ucast (align_ceil api (of_nat len - of_nat h + 2) (ucast block)) :: u16)
      in (pp, ucast ((ucast pp :: u32) + of_nat h - of_nat len)))"

definition esp_out_hdr_len :: "u16 \<Rightarrow> nat \<Rightarrow> nat option" where
  "esp_out_hdr_len f h =
     (if is_ip4_tunnel f then Some 20
      else if is_ip6_tunnel f then Some 40
      else if is_transport f then Some h else None)"

definition sw_trailer :: "ipsec_sa \<Rightarrow> bool" where
  "sw_trailer sa \<longleftrightarrow> ses_type (primary sa) \<noteq> TYPE_INLINE_CRYPTO \<or> \<not> hw_trailer (primary sa)"

text \<open>The headers in front of the payload: new bytes, and the offset of the ESP header.\<close>

definition esp_out_headers :: "mbuf_api \<Rightarrow> mbuf \<Rightarrow> ipsec_sa \<Rightarrow> nat \<Rightarrow> errno + mbuf \<times> nat" where
  "esp_out_headers api m sa h =
     (let off = 8 + unat (iv_len sa); w = without_transport_version (flags sa) in
      if w = IP4_TUNNEL then
        (case ipip_outbound api m off False (src sa) (dst sa) of Inl e \<Rightarrow> Inl e | Inr m' \<Rightarrow> Inr (m', 20))
      else if w = IP6_TUNNEL then
        (case ipip_outbound api m off True (src sa) (dst sa) of Inl e \<Rightarrow> Inl e | Inr m' \<Rightarrow> Inr (m', 40))
      else if w = TRANSPORT then
        (case pkt_prepend api off m of
           None \<Rightarrow> Inl UB
         | Some m1 \<Rightarrow>
             (let b = put_bytes 0 (take h (m_bytes m)) (m_bytes m1) in
              if ip_v b = 4 then
                Inr (m1\<lparr>m_bytes := put_be16 2 (of_nat (pkt_len m1)) (b[9 := IPPROTO_ESP])\<rparr>, h)
              else
                Inr (m1\<lparr>m_bytes := put_be16 4 (of_nat (pkt_len m1) - 40) (b[6 := IPPROTO_ESP])\<rparr>, h)))
      else Inl UB)"

text \<open>The IV written after the ESP header; \<open>None\<close> for an unsupported cipher.\<close>

definition esp_out_iv :: "ipsec_sa \<Rightarrow> u8 list option" where
  "esp_out_iv sa =
     (if aead_algo sa = AEAD_AES_GCM then Some (bytes_of_u64 (seq sa))
      else if cipher_algo sa \<in> {CIPHER_NULL, CIPHER_3DES_CBC, CIPHER_AES_CBC} then Some (replicate (unat (iv_len sa)) 0)
      else if cipher_algo sa = CIPHER_AES_CTR then Some (bytes_of_u64 (seq sa))
      else None)"

text \<open>The trailer: sequential padding, its length, the next header.\<close>

definition esp_trailer :: "nat \<Rightarrow> u8 \<Rightarrow> u8 list" where
  "esp_trailer pad_len nlp = map (\<lambda>i. of_nat (i + 1)) [0..<pad_len - 2] @ [of_nat (pad_len - 2), nlp]"

text \<open>
  The crypto operation of the lookaside and CPU paths, after the trailer is filled: \<open>e\<close> is the offset
  of the ESP header, which the tunnel modes set to the outer header length and transport keeps at
  the header length.
\<close>

definition esp_out_sym :: "ipsec_sa \<Rightarrow> nat \<Rightarrow> nat \<Rightarrow> mbuf \<Rightarrow> crypto_op \<Rightarrow> errno + mbuf \<times> crypto_op" where
  "esp_out_sym sa e pp m cop =
     (let ivl = unat (iv_len sa); digest = pkt_len m - unat (digest_len sa);
          blk = ctr_blk (salt sa) (bytes_of_u64 (seq sa)) in
      if aead_algo sa = AEAD_AES_GCM then
        Inr (m\<lparr>icb := blk, aad := slice e 8 (m_bytes m)\<rparr>, cop\<lparr>op_sym := Aead_op (e + 8 + ivl) pp digest\<rparr>)
      else
        case (if cipher_algo sa \<in> {CIPHER_NULL, CIPHER_3DES_CBC, CIPHER_AES_CBC} then Some (e + 8, pp + ivl)
              else if cipher_algo sa = CIPHER_AES_CTR then Some (e + 8 + ivl, pp) else None) of
          None \<Rightarrow> Inl EINVAL
        | Some (coff, clen) \<Rightarrow>
            (if auth_algo sa \<in> {AUTH_NULL, AUTH_SHA1_HMAC, AUTH_SHA256_HMAC} then
               Inr (m\<lparr>icb := blk\<rparr>, cop\<lparr>op_sym := Cipher_auth_op coff clen e (8 + ivl + pp) digest\<rparr>)
             else Inl EINVAL))"

text \<open>
  \<open>esp_outbound\<close>. The SA is returned beside the result because its sequence number advances before
  the last checks. \<open>t\<close> is where the trailer starts once the headers are in front.
\<close>

definition esp_outbound ::
  "mbuf_api \<Rightarrow> mbuf \<Rightarrow> ipsec_sa \<Rightarrow> crypto_op \<Rightarrow> (errno + mbuf \<times> crypto_op) \<times> ipsec_sa" where
  "esp_outbound api m sa cop =
     (if m_bytes m = [] then (Inl UB, sa)
      else case esp_out_class (m_bytes m) (flags sa) of
        None \<Rightarrow> (Inl EINVAL, sa)
      | Some (h0, nlp) \<Rightarrow>
          (if pkt_len m < (if ip_v (m_bytes m) = 4 then max 20 h0 else 40) then (Inl UB, sa)
           else let (pp, pl) = esp_pads api (pkt_len m) h0 (block_size sa); dl = digest_len sa in
             case esp_out_hdr_len (flags sa) h0 of
               None \<Rightarrow> (Inl EINVAL, sa)
             | Some h \<Rightarrow>
                 (if 65535 < h + 8 + unat (iv_len sa) + unat pp + unat dl then (Inl EINVAL, sa)
                  else case (if sw_trailer sa then pkt_append api (unat (pl + dl)) m else Some m) of
                      None \<Rightarrow> (Inl ENOSPC, sa)
                    | Some m1 \<Rightarrow>
                        (case esp_out_headers api m1 sa h of
                           Inl err \<Rightarrow> (Inl err, sa)
                         | Inr (m2, e) \<Rightarrow>
                             (let sa' = sa\<lparr>seq := seq sa + 1\<rparr>;
                                  b1 = put_bytes e (bytes_of_u32 (spi sa) @ bytes_of_u32 (ucast (seq sa'))) (m_bytes m2);
                                  t = pkt_len m2 - unat (pl + dl) in
                              case esp_out_iv sa' of
                                None \<Rightarrow> (Inl EINVAL, sa')
                              | Some iv \<Rightarrow>
                                  (let b2 = put_bytes (e + 8) iv b1 in
                                   if ses_type (primary sa) = TYPE_INLINE_CRYPTO then
                                     (if hw_trailer (primary sa) then
                                        (Inr (m2\<lparr>m_bytes := b2, inner_esp_next_proto := nlp, tunnel_esp := True\<rparr>, cop), sa')
                                      else if unat pl < 2 then (Inl UB, sa')
                                      else (Inr (m2\<lparr>m_bytes := put_bytes (t + unat pl - 2)
                                                 [of_nat (unat pl - 2), nlp] b2\<rparr>, cop), sa'))
                                   else if unat pl < 2 then (Inl UB, sa')
                                   else (esp_out_sym sa' e (unat pp)
                                           (m2\<lparr>m_bytes := put_bytes t (esp_trailer (unat pl) nlp) b2\<rparr>) cop, sa')))))))"

definition esp_outbound_post :: "mbuf \<Rightarrow> ipsec_sa \<Rightarrow> crypto_op \<Rightarrow> errno + mbuf" where
  "esp_outbound_post m sa cop =
     (if ses_type (primary sa) \<in> {TYPE_INLINE_PROTOCOL, TYPE_INLINE_CRYPTO} then
        Inr (m\<lparr>tx_sec_offload := True\<rparr>)
      else if op_status cop \<noteq> OP_SUCCESS then Inl EFAIL
      else Inr m)"

section \<open>Padding\<close>

text \<open>For packets of ordinary size the 16-bit computation is the exact one.\<close>

lemma esp_pads_exact:
  assumes api: "mbuf_api_ok api" and blk: "unat block \<in> {4, 8, 16, 32, 64}" and h: "h \<le> len" and len: "len < 65000"
  shows "unat (fst (esp_pads api len h block)) = (len - h + 2 + unat block - 1) div unat block * unat block"
    and "unat (snd (esp_pads api len h block)) + (len - h) = unat (fst (esp_pads api len h block))"
    and "2 \<le> unat (snd (esp_pads api len h block))"
    and "unat (snd (esp_pads api len h block)) \<le> unat block + 1"
proof -
  let ?n = "len - h + 2" and ?b = "unat block"
  let ?v = "of_nat len - of_nat h + 2 :: u32"
  let ?pp = "(?n + ?b - 1) div ?b * ?b"
  have v: "?v = of_nat ?n" using h by (simp add: of_nat_diff)
  have nv: "unat ?v = ?n" using len unfolding v by (intro unat_of_nat_u32) simp
  have bb: "unat (ucast block :: u32) = ?b" by simp
  have b64: "?b \<le> 64" "0 < ?b" using blk by auto
  have le: "?pp \<le> ?n + ?b - 1" by (rule div_times_less_eq_dividend)
  have ge: "?n \<le> ?pp"
  proof -
    have "?n + ?b - 1 < ?pp + ?b"
      using div_mod_decomp [of "?n + ?b - 1" ?b] mod_less_divisor [OF b64(2), of "?n + ?b - 1"] by linarith
    then show ?thesis by linarith
  qed
  have al: "unat (align_ceil api ?v (ucast block)) = ?pp"
    using mbuf_api_okD(5) [OF api, of "ucast block" ?v] blk b64 len nv bb by simp
  have lt: "?pp < 65536" using le b64 len by linarith
  have fp: "unat (fst (esp_pads api len h block)) = ?pp"
    using lt by (simp only: esp_pads_def Let_def fst_conv unat_ucast_u32_u16 al)
  then show "unat (fst (esp_pads api len h block)) = ?pp" .
  have "snd (esp_pads api len h block) = ucast (of_nat (unat (fst (esp_pads api len h block))) + of_nat h - of_nat len :: u32)"
    by (simp add: esp_pads_def Let_def)
  also have "of_nat (unat (fst (esp_pads api len h block))) + of_nat h - of_nat len = (of_nat (?pp - (len - h)) :: u32)"
    unfolding fp using ge h by (simp add: of_nat_diff)
  finally have sp: "unat (snd (esp_pads api len h block)) = ?pp - (len - h)"
    using lt by (simp only:) (subst unat_ucast_u32_u16; subst unat_of_nat_u32; simp)
  show "unat (snd (esp_pads api len h block)) + (len - h) = unat (fst (esp_pads api len h block))"
    using fp sp ge by simp
  show "2 \<le> unat (snd (esp_pads api len h block))" using sp ge by simp
  show "unat (snd (esp_pads api len h block)) \<le> ?b + 1"
    unfolding sp using diff_le_mono [OF le, of "len - h"] by simp
qed

lemma length_esp_trailer: "2 \<le> n \<Longrightarrow> length (esp_trailer n x) = n"
  by (simp add: esp_trailer_def)

lemma esp_trailer_padding:
  assumes "2 \<le> n" and "n < 258"
  shows "padding_ok (take (n - 2) (esp_trailer n x))" and "esp_trailer n x ! (n - 2) = of_nat (n - 2)"
    and "esp_trailer n x ! (n - 1) = x"
  using assms by (auto simp: esp_trailer_def padding_ok_def nth_append unat_of_nat_u8 simp del: of_nat_Suc)

section \<open>The outbound layout\<close>

text \<open>
  The processing of an IPv4 packet by an IPv4 tunnel SA with the trailer in software, as one
  equation: outer header, ESP header, IV, the packet with its TTL decremented, the trailer and the
  room for the digest.
\<close>

lemma put_bytes_mid:
  "length a = i \<Longrightarrow> length b = length new \<Longrightarrow> put_bytes i new (a @ b @ c) = a @ new @ c"
  by (simp add: put_bytes_def)

definition tunnel4_sa :: "ipsec_sa \<Rightarrow> bool" where
  "tunnel4_sa sa \<longleftrightarrow> without_transport_version (flags sa) = IP4_TUNNEL \<and>
     unat (block_size sa) \<in> {4, 8, 16, 32, 64} \<and> unat (iv_len sa) \<le> 16 \<and> unat (digest_len sa) \<le> 64 \<and>
     (esp_out_iv sa \<noteq> None \<longrightarrow> length (the (esp_out_iv sa)) = unat (iv_len sa))"

lemma wtv_tunnel4:
  assumes "without_transport_version f = IP4_TUNNEL"
  shows "\<not> is_transport f" and "is_ip4_tunnel f"
proof -
  have t: "is_transport f = is_transport (without_transport_version f)"
    "is_ip4_tunnel f = is_ip4_tunnel (without_transport_version f)"
    by (simp_all add: is_transport_def is_ip4_tunnel_def without_transport_version_def flag_consts and.assoc)
  show "\<not> is_transport f" "is_ip4_tunnel f" unfolding t assms by (simp_all add: flag_defs)
qed

lemma esp_out_iv_seq [simp]: "length (the (esp_out_iv (sa\<lparr>seq := n\<rparr>))) = length (the (esp_out_iv sa))"
  "(esp_out_iv (sa\<lparr>seq := n\<rparr>) = None) = (esp_out_iv sa = None)"
  by (auto simp: esp_out_iv_def)

lemma esp_out_sym_bytes:
  "esp_out_sym sa e pp m cop = Inr (m', cop') \<Longrightarrow> m_bytes m' = m_bytes m \<and> op_status cop' = op_status cop"
  by (auto simp: esp_out_sym_def Let_def split: if_splits)

lemma dec_ttl4_append: "12 \<le> length a \<Longrightarrow> dec_ttl4 (a @ b) = dec_ttl4 a @ b"
proof -
  assume l: "12 \<le> length a"
  have put: "put_le16 10 w (x @ b) = put_le16 10 w x @ b" if "12 \<le> length x" for w x
    using that by (simp add: put_le16_def put_bytes_def)
  have le: "le16_at (x @ b) 10 = le16_at x 10" if "12 \<le> length x" for x
    using that by (simp add: le16_at_def nth_append)
  show ?thesis
    using l put le by (simp add: dec_ttl4_def Let_def list_update_append nth_append)
qed

lemma ipv_append: "a \<noteq> [] \<Longrightarrow> ip_v (a @ b) = ip_v a"
  by (simp add: ip_v_def nth_append)

text \<open>Filling the gap before and after the inner packet.\<close>

lemma put_esp_iv:
  assumes "length o4 = 20" and "length mid = 8 + length iv" and "length sp = 8"
  shows "put_bytes 28 iv (put_bytes 20 sp (o4 @ mid @ rest)) = o4 @ sp @ iv @ rest"
proof -
  obtain m1 m2 where mid: "mid = m1 @ m2" "length m1 = 8" "length m2 = length iv"
    using assms(2) by (metis append_take_drop_id length_take length_drop min.absorb2 le_add1 diff_add_inverse)
  have "put_bytes 20 sp (o4 @ m1 @ m2 @ rest) = o4 @ sp @ m2 @ rest"
    by (rule put_bytes_mid) (use assms mid in simp_all)
  moreover have "put_bytes 28 iv ((o4 @ sp) @ m2 @ rest) = (o4 @ sp) @ iv @ rest"
    by (rule put_bytes_mid) (use assms mid in simp_all)
  ultimately show ?thesis by (simp add: mid)
qed

text \<open>The IV an outbound packet of the SA carries, by the kind of its cipher.\<close>

definition iv_of_packet :: "ipsec_sa \<Rightarrow> u64 \<Rightarrow> u8 list \<Rightarrow> bool" where
  "iv_of_packet sa n iv \<longleftrightarrow>
     (if aead_algo sa = AEAD_AES_GCM \<or> cipher_algo sa = CIPHER_AES_CTR then iv = bytes_of_u64 n
      else cipher_algo sa \<in> {CIPHER_NULL, CIPHER_3DES_CBC, CIPHER_AES_CBC} \<and> iv = replicate (unat (iv_len sa)) 0)"

lemma esp_out_iv_of_packet: "esp_out_iv sa = Some iv \<Longrightarrow> iv_of_packet sa (seq sa) iv"
  by (auto simp: esp_out_iv_def iv_of_packet_def split: if_splits)

lemma iv_of_packet_seq [simp]: "iv_of_packet (sa\<lparr>seq := k\<rparr>) n iv = iv_of_packet sa n iv"
  by (simp add: iv_of_packet_def)

text \<open>What the operation handed to the device is built from: counter block, AAD, and the trailer as data.\<close>

definition sealed_op :: "ipsec_sa \<Rightarrow> u64 \<Rightarrow> nat \<Rightarrow> mbuf \<Rightarrow> crypto_op \<Rightarrow> bool" where
  "sealed_op sa n pp m cop \<longleftrightarrow>
     icb m = \<lparr>cb_salt = salt sa, cb_iv = bytes_of_u64 n, cb_cnt = bswap32 1\<rparr> \<and>
     (let ivl = unat (iv_len sa); dig = 28 + ivl + pp in
      if aead_algo sa = AEAD_AES_GCM then
        aad m = bytes_of_u32 (spi sa) @ bytes_of_u32 (ucast n) \<and> op_sym cop = Aead_op (28 + ivl) pp dig
      else
        auth_algo sa \<in> {AUTH_NULL, AUTH_SHA1_HMAC, AUTH_SHA256_HMAC} \<and>
        op_sym cop = (if cipher_algo sa = CIPHER_AES_CTR then Cipher_auth_op (28 + ivl) pp 20 (8 + ivl + pp) dig
                      else Cipher_auth_op 28 (ivl + pp) 20 (8 + ivl + pp) dig))"

lemma sealed_op_seq [simp]: "sealed_op (sa\<lparr>seq := k\<rparr>) n pp m cop = sealed_op sa n pp m cop"
  by (simp add: sealed_op_def)

lemma esp_out_sym_sealed:
  assumes "esp_out_sym sa 20 pp m cop = Inr (m', cop')" and "pkt_len m = 28 + unat (iv_len sa) + pp + unat (digest_len sa)"
    and "m_bytes m = o4 @ bytes_of_u32 (spi sa) @ bytes_of_u32 (ucast (seq sa)) @ rest" and "length o4 = 20"
  shows "sealed_op sa (seq sa) pp m' cop'"
proof -
  have "slice 20 8 (m_bytes m) = bytes_of_u32 (spi sa) @ bytes_of_u32 (ucast (seq sa))"
    using assms(3,4) by (simp add: slice_def)
  then show ?thesis
    using assms(1,2) by (auto simp: esp_out_sym_def sealed_op_def ctr_blk_def Let_def split: if_splits)
qed

lemma esp_outbound_tunnel4:
  assumes api: "mbuf_api_ok api" and sa: "tunnel4_sa sa" and v4: "ip_v (m_bytes m) = 4"
    and len: "20 \<le> pkt_len m" "pkt_len m < 65000" and sw: "ses_type (primary sa) \<noteq> TYPE_INLINE_CRYPTO"
    and out: "esp_outbound api m sa cop = (Inr (m', cop'), sa')"
  shows "\<exists>c iv pl digest. length c = 2 \<and> length iv = unat (iv_len sa) \<and> length digest = unat (digest_len sa) \<and>
    2 \<le> pl \<and> pl \<le> unat (block_size sa) + 1 \<and> (pkt_len m + pl) mod unat (block_size sa) = 0 \<and>
    sa' = sa\<lparr>seq := seq sa + 1\<rparr> \<and> op_status cop' = op_status cop \<and>
    iv_of_packet sa (seq sa + 1) iv \<and> sealed_op sa (seq sa + 1) (pkt_len m + pl) m' cop' \<and>
    m_bytes m' = outer4 (m_bytes m ! 1) (pkt_len m') (src sa) (dst sa) c @
      (bytes_of_u32 (spi sa) @ bytes_of_u32 (ucast (seq sa + 1)) @ iv) @
      dec_ttl4 (m_bytes m) @ esp_trailer pl IPPROTO_IPIP @ digest"
proof -
  have tr: "\<not> is_transport (flags sa)" and tun: "is_ip4_tunnel (flags sa)"
    using sa wtv_tunnel4 by (auto simp: tunnel4_sa_def)
  have w: "without_transport_version (flags sa) = IP4_TUNNEL" using sa by (simp add: tunnel4_sa_def)
  have ne: "m_bytes m \<noteq> []" using len by (auto simp: pkt_len_def)
  obtain pp pl where pads: "esp_pads api (pkt_len m) 0 (block_size sa) = (pp, pl)" by force
  note ex = esp_pads_exact [OF api _ le0 len(2), of "block_size sa", unfolded pads fst_conv snd_conv]
  have blk: "unat (block_size sa) \<in> {4, 8, 16, 32, 64}" using sa by (simp add: tunnel4_sa_def)
  have pl2: "2 \<le> unat pl" "unat pl \<le> unat (block_size sa) + 1" using ex(3,4) [OF blk] .
  have ppl: "unat pl + pkt_len m = unat pp" using ex(2) [OF blk] by simp
  have md: "unat pp mod unat (block_size sa) = 0" using ex(1) [OF blk] by simp
  have sum: "unat (pl + digest_len sa) = unat pl + unat (digest_len sa)"
    using pl2(2) blk sa by (auto simp: tunnel4_sa_def unat_word_ariths)
  have cls: "esp_out_class (m_bytes m) (flags sa) = Some (0, IPPROTO_IPIP)"
    using v4 tr by (simp add: esp_out_class_def)
  have hl: "esp_out_hdr_len (flags sa) 0 = Some 20" using tun by (simp add: esp_out_hdr_len_def)
  have sws: "sw_trailer sa" using sw by (simp add: sw_trailer_def)
  from out obtain m1 where m1: "pkt_append api (unat (pl + digest_len sa)) m = Some m1"
    and out1: "(case esp_out_headers api m1 sa 20 of Inl err \<Rightarrow> (Inl err, sa)
       | Inr (m2, e) \<Rightarrow>
           (let sa' = sa\<lparr>seq := seq sa + 1\<rparr>;
                b1 = put_bytes e (bytes_of_u32 (spi sa) @ bytes_of_u32 (ucast (seq sa'))) (m_bytes m2);
                t = pkt_len m2 - unat (pl + digest_len sa)
            in case esp_out_iv sa' of None \<Rightarrow> (Inl EINVAL, sa')
               | Some iv \<Rightarrow> (let b2 = put_bytes (e + 8) iv b1 in
                    (esp_out_sym sa' e (unat pp) (m2\<lparr>m_bytes := put_bytes t (esp_trailer (unat pl) IPPROTO_IPIP) b2\<rparr>) cop, sa'))))
       = (Inr (m', cop'), sa')"
    using ne v4 len pl2 sws sw
    by (auto simp: esp_outbound_def cls pads hl Let_def split: if_splits option.splits sum.splits)
  let ?ivl = "unat (iv_len sa)" and ?dl = "unat (digest_len sa)" and ?bs = "m_bytes m"
  from mbuf_api_okD(4) [OF api m1] obtain new where new: "length new = unat pl + ?dl"
    and m1e: "m1 = m\<lparr>m_bytes := ?bs @ new\<rparr>" by (auto simp: sum)
  obtain n1 n2 where n12: "new = n1 @ n2" "length n1 = unat pl" "length n2 = ?dl"
    using new by (metis append_take_drop_id length_take length_drop min.absorb2 le_add1 diff_add_inverse)
  from out1 obtain m2 where hd: "ipip_outbound api m1 (8 + ?ivl) False (src sa) (dst sa) = Inr m2"
    by (auto simp: esp_out_headers_def Let_def w split: sum.splits)
  have v4': "ip_v (m_bytes m1) = 4" using v4 ne by (simp add: m1e ipv_append)
  have l12: "12 \<le> pkt_len m1" "12 \<le> length ?bs" using len by (auto simp: m1e pkt_len_def)
  from ipip_outbound4_shape [OF api v4' l12(1) hd] obtain c mid where mid: "length mid = 8 + ?ivl" and c: "length c = 2"
    and m2: "m2 = m1\<lparr>m_bytes := outer4 (m_bytes m1 ! 1) (20 + (8 + ?ivl) + pkt_len m1) (src sa) (dst sa) c @ mid @
        dec_ttl4 (m_bytes m1), l4_type := L4_NONE\<rparr>" by blast
  have tos: "m_bytes m1 ! 1 = ?bs ! 1" using l12 by (simp add: m1e nth_append)
  let ?o4 = "outer4 (?bs ! 1) (20 + (8 + ?ivl) + pkt_len m1) (src sa) (dst sa) c"
  have o20: "length (outer4 e n s d c) = 20" for e n s d using c by (simp add: outer4_def)
  have b2: "m_bytes m2 = ?o4 @ mid @ dec_ttl4 ?bs @ n1 @ n2"
    using l12(2) by (simp add: m2 m1e dec_ttl4_append n12) (simp add: tos [unfolded m1e n12, simplified])
  have plm: "pkt_len m2 = 20 + (8 + ?ivl) + pkt_len m1"
    using l12 o20 mid n12 by (simp add: pkt_len_def b2 m1e)
  have t: "pkt_len m2 - unat (pl + digest_len sa) = 28 + ?ivl + pkt_len m"
    using plm new by (simp add: sum m1e pkt_len_def)
  from out1 hd obtain iv where iv: "esp_out_iv (sa\<lparr>seq := seq sa + 1\<rparr>) = Some iv"
    by (auto simp: esp_out_headers_def Let_def w split: option.splits)
  have ivl: "length iv = ?ivl"
    using sa iv esp_out_iv_seq [where sa = sa and n = "seq sa + 1"]
    by (simp add: tunnel4_sa_def)
  let ?sp = "bytes_of_u32 (spi sa) @ bytes_of_u32 (ucast (seq sa + 1))"
  let ?tr = "esp_trailer (unat pl) IPPROTO_IPIP"
  have fill: "put_bytes 28 iv (put_bytes 20 ?sp (m_bytes m2)) = ?o4 @ ?sp @ iv @ dec_ttl4 ?bs @ n1 @ n2"
    unfolding b2 by (rule put_esp_iv) (simp_all add: o20 mid ivl)
  have "put_bytes (28 + ?ivl + pkt_len m) ?tr ((?o4 @ ?sp @ iv @ dec_ttl4 ?bs) @ n1 @ n2)
      = (?o4 @ ?sp @ iv @ dec_ttl4 ?bs) @ ?tr @ n2"
    by (rule put_bytes_mid) (use l12 o20 ivl n12 pl2 in \<open>simp_all add: pkt_len_def length_esp_trailer\<close>)
  then have b3: "put_bytes (28 + ?ivl + pkt_len m) ?tr (put_bytes 28 iv (put_bytes 20 ?sp (m_bytes m2)))
      = ?o4 @ (?sp @ iv) @ dec_ttl4 ?bs @ ?tr @ n2"
    unfolding fill by simp
  from out1 hd iv have sym: "esp_out_sym (sa\<lparr>seq := seq sa + 1\<rparr>) 20 (unat pp)
      (m2\<lparr>m_bytes := ?o4 @ (?sp @ iv) @ dec_ttl4 ?bs @ ?tr @ n2\<rparr>) cop = Inr (m', cop')"
    and sa': "sa' = sa\<lparr>seq := seq sa + 1\<rparr>"
    by (auto simp: esp_out_headers_def Let_def w t b3)
  from esp_out_sym_bytes [OF sym] have fin: "m_bytes m' = ?o4 @ (?sp @ iv) @ dec_ttl4 ?bs @ ?tr @ n2"
    and st: "op_status cop' = op_status cop" by simp_all
  have "pkt_len m' = 20 + (8 + ?ivl) + pkt_len m1"
    using l12 o20 ivl n12 pl2 new by (simp add: pkt_len_def fin m1e length_esp_trailer)
  with fin have fin': "m_bytes m' = outer4 (?bs ! 1) (pkt_len m') (src sa) (dst sa) c @ (?sp @ iv) @ dec_ttl4 ?bs @ ?tr @ n2"
    by simp
  let ?sa = "sa\<lparr>seq := seq sa + 1\<rparr>"
  let ?out = "?o4 @ (?sp @ iv) @ dec_ttl4 ?bs @ ?tr @ n2"
  have "length ?out = 20 + (8 + ?ivl) + pkt_len m + unat pl + ?dl"
    using l12 o20 ivl n12(3) pl2(1) by (simp only: length_append length_esp_trailer) (simp add: pkt_len_def)
  then have n: "pkt_len (m2\<lparr>m_bytes := ?out\<rparr>) = 28 + unat (iv_len ?sa) + unat pp + unat (digest_len ?sa)"
    using ppl by (simp only: pkt_len_def mbuf.select_convs mbuf.update_convs) simp
  have "sealed_op ?sa (seq ?sa) (unat pp) m' cop'"
    by (rule esp_out_sym_sealed [OF sym n, of ?o4 "iv @ dec_ttl4 ?bs @ ?tr @ n2"]) (simp_all add: o20)
  moreover have "unat pp = pkt_len m + unat pl" using ppl by simp
  ultimately have "sealed_op sa (seq sa + 1) (pkt_len m + unat pl) m' cop'" by simp
  moreover have "iv_of_packet sa (seq sa + 1) iv" using esp_out_iv_of_packet [OF iv] by simp
  moreover have "(pkt_len m + unat pl) mod unat (block_size sa) = 0" using md ppl by (simp add: add.commute)
  ultimately show ?thesis
    using c ivl n12(3) pl2 sa' st fin'
    by (intro exI [of _ c] exI [of _ iv] exI [of _ "unat pl"] exI [of _ n2]) simp
qed

section \<open>The inbound checks\<close>

lemma and_mask_mod:
  fixes x :: int
  assumes "b \<in> {4, 8, 16, 32, 64}"
  shows "x AND (int b - 1) = x mod int b"
proof -
  have "x AND (2 ^ n - 1) = x mod 2 ^ n" for n
    by (simp add: take_bit_eq_mod flip: take_bit_eq_mask mask_eq_exp_minus_1)
  from this [of 2] this [of 3] this [of 4] this [of 5] this [of 6] show ?thesis using assms by auto
qed

text \<open>Removing the trailer \<open>esp_trailer\<close> wrote.\<close>

lemma esp_in_trailer_of_trailer:
  assumes api: "mbuf_api_ok api" and bytes: "m_bytes m = front @ esp_trailer pl nlp @ digest"
    and pl: "2 \<le> pl" "pl < 258" and dl: "length digest = unat (digest_len sa)"
    and ty: "ses_type (primary sa) \<noteq> TYPE_INLINE_CRYPTO"
  shows "esp_in_trailer api m sa = Inr (nlp, m\<lparr>m_bytes := front\<rparr>)"
proof -
  let ?t = "esp_trailer pl nlp" and ?dl = "unat (digest_len sa)"
  have lt: "length ?t = pl" by (rule length_esp_trailer [OF pl(1)])
  have plen: "pkt_len m = length front + pl + ?dl" by (simp add: pkt_len_def bytes lt dl)
  note tr = esp_trailer_padding [OF pl, of nlp]
  have at: "m_bytes m ! (length front + k) = ?t ! k" if "k < pl" for k
    using that lt by (simp add: bytes nth_append)
  have e: "length front + pl - 1 = length front + (pl - 1)" "length front + pl - 2 = length front + (pl - 2)"
    "pl - 1 < pl" "pl - 2 < pl" "pl - 2 < 256" using pl by simp_all
  have np: "m_bytes m ! (length front + pl - 1) = nlp"
    unfolding e(1) at [OF e(3)] by (rule tr(3))
  have padb: "unat (m_bytes m ! (length front + pl - 2)) = pl - 2"
    unfolding e(2) at [OF e(4)] tr(2) by (rule unat_of_nat_u8 [OF e(5)])
  have sl: "slice (length front) (pl - 2) (m_bytes m) = take (pl - 2) ?t"
    using pl lt by (simp add: slice_def bytes)
  have idx: "pkt_len m - ?dl - 1 = length front + pl - 1" "length front + pl - 1 - 1 = length front + pl - 2"
    "length front + pl - 2 - (pl - 2) = length front"
    using plen pl by simp_all
  have tm: "pkt_trim api (pl - 2 + 2 + ?dl) m = Some (m\<lparr>m_bytes := front\<rparr>)"
    using plen pl by (simp add: mbuf_api_okD(2) [OF api] bytes lt)
  show ?thesis
    unfolding esp_in_trailer_def Let_def idx np padb sl
    using ty plen pl tr(1) tm by simp
qed

section \<open>Properties\<close>

text \<open>
  C22. What \<open>esp_outbound\<close> makes of an IPv4 packet on an IPv4 tunnel SA: a packet whose bytes are the
  outer header with the new total length, the SPI and the incremented sequence number, the IV, the
  original packet with only its TTL (and checksum) changed, sequential padding that fills the cipher
  block and ends in the pad length and next header 4, and room for the digest. With AES-GCM and AES-CTR
  the IV is the new 64-bit sequence number, so that no two packets of an SA share one; with the other
  ciphers it is zero and encrypted with the payload. The counter block the device gets holds the salt of
  the SA and the sequence number, the AAD is the ESP header, and the offsets of the operation are those
  of the payload and the digest. The sequence number of the SA advances by one.
\<close>

theorem esp_outbound_layout:
  assumes "mbuf_api_ok api" and "tunnel4_sa sa" and "ip_v (m_bytes m) = 4"
    and "20 \<le> pkt_len m" and "pkt_len m < 65000" and "ses_type (primary sa) \<noteq> TYPE_INLINE_CRYPTO"
    and "esp_outbound api m sa cop = (Inr (m', cop'), sa')"
  shows "\<exists>c iv pl digest. length c = 2 \<and> length iv = unat (iv_len sa) \<and> length digest = unat (digest_len sa) \<and>
    2 \<le> pl \<and> pl \<le> unat (block_size sa) + 1 \<and> (pkt_len m + pl) mod unat (block_size sa) = 0 \<and>
    sa' = sa\<lparr>seq := seq sa + 1\<rparr> \<and> op_status cop' = op_status cop \<and>
    iv_of_packet sa (seq sa + 1) iv \<and> sealed_op sa (seq sa + 1) (pkt_len m + pl) m' cop' \<and>
    m_bytes m' = outer4 (m_bytes m ! 1) (pkt_len m') (src sa) (dst sa) c @
      (bytes_of_u32 (spi sa) @ bytes_of_u32 (ucast (seq sa + 1)) @ iv) @
      dec_ttl4 (m_bytes m) @ esp_trailer pl IPPROTO_IPIP @ digest"
  by (rule esp_outbound_tunnel4 [OF assms])

text \<open>An SA and a packet for the witnesses: AES-128-GCM, spi 7, IPv4 tunnel.\<close>

definition sample_sa :: ipsec_sa where
  "sample_sa = zero_sa\<lparr>spi := 7, flags := IP4_TUNNEL, aead_algo := AEAD_AES_GCM, block_size := 4,
     iv_len := 8, digest_len := 16, seq := 41\<rparr>"

definition sample_mbuf :: mbuf where
  "sample_mbuf = \<lparr>m_bytes = sample_ip4, m_port = 0, rx_sec_offload = False, rx_sec_failed = False,
     tx_sec_offload = False, inner_esp_next_proto = 0, l4_type = L4_UDP, tunnel_esp = False,
     icb = \<lparr>cb_salt = 0, cb_iv = [], cb_cnt = 0\<rparr>, aad = [], l3_len = 20, l3_ipv4 = True, esp_in_udp = False\<rparr>"

definition sample_cop :: crypto_op where
  "sample_cop = \<lparr>op_status = OP_SUCCESS, op_sym = No_op, op_iv = []\<rparr>"

lemma sample_tunnel: "tunnel4_sa sample_sa"
  by (simp add: tunnel4_sa_def sample_sa_def esp_out_iv_def flag_defs)

lemma sample_packet:
  "ip_v (m_bytes sample_mbuf) = 4" "20 \<le> pkt_len sample_mbuf" "pkt_len sample_mbuf < 65000"
  "pkt_len sample_mbuf = 24" "m_bytes sample_mbuf ! 1 = 0"
  by (simp_all add: sample_mbuf_def sample_ip4_def ip_v_def pkt_len_def)

lemma sample_sa_fields:
  "flags sample_sa = IP4_TUNNEL" "block_size sample_sa = 4" "iv_len sample_sa = 8" "digest_len sample_sa = 16"
  "ses_type (primary sample_sa) = TYPE_NONE" "aead_algo sample_sa = AEAD_AES_GCM"
  by (simp_all add: sample_sa_def zero_sa_def zero_session_def)

lemma sample_outbound:
  "\<exists>m' cop' sa'. esp_outbound sample_api sample_mbuf sample_sa sample_cop = (Inr (m', cop'), sa')"
proof -
  have cls: "esp_out_class (m_bytes sample_mbuf) IP4_TUNNEL = Some (0, IPPROTO_IPIP)"
    using sample_packet by (simp add: esp_out_class_def flag_defs)
  have pads: "esp_pads sample_api 24 0 4 = (28, 4)"
    by (simp add: esp_pads_def sample_api_def)
  have hl: "esp_out_hdr_len IP4_TUNNEL 0 = Some 20" by (simp add: esp_out_hdr_len_def flag_defs)
  have sw: "sw_trailer sample_sa" by (simp add: sw_trailer_def sample_sa_fields)
  have app: "pkt_append sample_api 20 sample_mbuf = Some (sample_mbuf\<lparr>m_bytes := m_bytes sample_mbuf @ replicate 20 0xEE\<rparr>)"
    by (simp add: sample_api_def)
  have "\<exists>m2. ipip_outbound sample_api (sample_mbuf\<lparr>m_bytes := m_bytes sample_mbuf @ replicate 20 0xEE\<rparr>) 16 False
      (src sample_sa) (dst sample_sa) = Inr m2"
    by (simp add: ipip_outbound_def ipip_inner_def sample_mbuf_def sample_ip4_def ip_v_def pkt_len_def sample_api_def Let_def)
  then obtain m2 where m2: "ipip_outbound sample_api (sample_mbuf\<lparr>m_bytes := m_bytes sample_mbuf @ replicate 20 0xEE\<rparr>) 16 False
      (src sample_sa) (dst sample_sa) = Inr m2" ..
  have ne: "m_bytes sample_mbuf \<noteq> []" by (simp add: sample_mbuf_def sample_ip4_def)
  show ?thesis
    using sample_packet(1,4) ne app m2
    by (simp add: esp_outbound_def sample_sa_fields cls pads hl sw esp_out_headers_def esp_out_iv_def esp_out_sym_def Let_def)
qed

theorem esp_outbound_layout_witness:
  "\<exists>m' cop' sa'. esp_outbound sample_api sample_mbuf sample_sa sample_cop = (Inr (m', cop'), sa') \<and>
     sa' = sample_sa\<lparr>seq := seq sample_sa + 1\<rparr>"
proof -
  from sample_outbound obtain m' cop' sa'
    where out: "esp_outbound sample_api sample_mbuf sample_sa sample_cop = (Inr (m', cop'), sa')" by blast
  have ty: "ses_type (primary sample_sa) \<noteq> TYPE_INLINE_CRYPTO" by (simp add: sample_sa_def zero_sa_def zero_session_def)
  from esp_outbound_layout [OF sample_api_ok sample_tunnel sample_packet(1-3) ty out] out show ?thesis by blast
qed

text \<open>
  The crypto device between the halves. \<open>seal m cop\<close> are the bytes of the packet after the operation the
  outbound side asked for, \<open>unseal m cop\<close> those after the operation of the inbound side, or \<open>None\<close> when
  it reports a failure; both run with the keys of the SA. What is relied on is what the library documents:
  nothing in front of the data is changed, and an operation with the same data, counter block and AAD
  (AES-GCM), the same data and counter block (AES-CTR), or over the data behind an encrypted first block
  that is given as the IV (CBC) restores the data. \<open>k\<close> is the number of bytes of the IV field that are
  encrypted with the payload.
\<close>

definition restores :: "nat \<Rightarrow> nat \<Rightarrow> nat \<Rightarrow> u8 list \<Rightarrow> u8 list option \<Rightarrow> bool" where
  "restores front off n old r \<longleftrightarrow>
     (case r of None \<Rightarrow> False
      | Some b \<Rightarrow> length b = length old \<and> take front b = take front old \<and> slice off n b = slice off n old)"

definition esp_device_ok :: "cipher_alg \<Rightarrow> (mbuf \<Rightarrow> crypto_op \<Rightarrow> u8 list) \<Rightarrow> (mbuf \<Rightarrow> crypto_op \<Rightarrow> u8 list option) \<Rightarrow> bool" where
  "esp_device_ok alg seal unseal \<longleftrightarrow>
     (\<forall>m c off n dig. op_sym c = Aead_op off n dig \<and> off + n = dig \<and> dig \<le> pkt_len m \<longrightarrow>
        length (seal m c) = pkt_len m \<and> take off (seal m c) = take off (m_bytes m) \<and>
        (\<forall>m2 c2. m_bytes m2 = seal m c \<and> icb m2 = icb m \<and> aad m2 = aad m \<and> op_sym c2 = op_sym c \<longrightarrow>
           restores off off n (m_bytes m) (unseal m2 c2))) \<and>
     (\<forall>m c off k n aoff an dig. op_sym c = Cipher_auth_op off (k + n) aoff an dig \<and> off + k + n = dig \<and> dig \<le> pkt_len m \<longrightarrow>
        length (seal m c) = pkt_len m \<and> take off (seal m c) = take off (m_bytes m) \<and>
        (\<forall>m2 c2. m_bytes m2 = seal m c \<and> op_sym c2 = Cipher_auth_op (off + k) n aoff an dig \<and>
           (case alg of
              CIPHER_AES_CTR \<Rightarrow> k = 0 \<and> icb m2 = icb m
            | CIPHER_NULL \<Rightarrow> True
            | _ \<Rightarrow> 0 < k \<and> op_iv c2 = slice off k (seal m c)) \<longrightarrow>
           restores off (off + k) n (m_bytes m) (unseal m2 c2)))"

lemma device_aead:
  assumes "esp_device_ok alg seal unseal" and "op_sym c = Aead_op off n (off + n)"
  shows "off + n \<le> pkt_len m \<Longrightarrow>
    length (seal m c) = pkt_len m \<and> take off (seal m c) = take off (m_bytes m) \<and>
    (\<forall>m2 c2. m_bytes m2 = seal m c \<and> icb m2 = icb m \<and> aad m2 = aad m \<and> op_sym c2 = op_sym c \<longrightarrow>
       restores off off n (m_bytes m) (unseal m2 c2))"
proof -
  assume "off + n \<le> pkt_len m"
  with assms(2) have P: "op_sym c = Aead_op off n (off + n) \<and> off + n = off + n \<and> off + n \<le> pkt_len m" by simp
  show ?thesis
    by (rule mp [OF assms(1) [unfolded esp_device_ok_def, THEN conjunct1, THEN spec, THEN spec, THEN spec, THEN spec, THEN spec] P])
qed

lemma device_cipher:
  assumes "esp_device_ok alg seal unseal" and "op_sym c = Cipher_auth_op off (k + n) aoff an (off + k + n)"
  shows "off + k + n \<le> pkt_len m \<Longrightarrow>
    length (seal m c) = pkt_len m \<and> take off (seal m c) = take off (m_bytes m) \<and>
    (\<forall>m2 c2. m_bytes m2 = seal m c \<and> op_sym c2 = Cipher_auth_op (off + k) n aoff an (off + k + n) \<and>
       (case alg of
          CIPHER_AES_CTR \<Rightarrow> k = 0 \<and> icb m2 = icb m
        | CIPHER_NULL \<Rightarrow> True
        | _ \<Rightarrow> 0 < k \<and> op_iv c2 = slice off k (seal m c)) \<longrightarrow>
       restores off (off + k) n (m_bytes m) (unseal m2 c2))"
proof -
  assume "off + k + n \<le> pkt_len m"
  with assms(2) have P: "op_sym c = Cipher_auth_op off (k + n) aoff an (off + k + n) \<and> off + k + n = off + k + n \<and>
      off + k + n \<le> pkt_len m" by simp
  show ?thesis
    by (rule mp [OF assms(1) [unfolded esp_device_ok_def, THEN conjunct2, THEN spec, THEN spec, THEN spec, THEN spec, THEN spec,
        THEN spec, THEN spec, THEN spec] P])
qed

text \<open>The SA at the other end: the same algorithms, lengths and salt, in a tunnel, on a device or the CPU.\<close>

definition peer_sa :: "ipsec_sa \<Rightarrow> ipsec_sa \<Rightarrow> bool" where
  "peer_sa sa sa2 \<longleftrightarrow>
     aead_algo sa2 = aead_algo sa \<and> cipher_algo sa2 = cipher_algo sa \<and> auth_algo sa2 = auth_algo sa \<and> salt sa2 = salt sa \<and>
     iv_len sa2 = iv_len sa \<and> digest_len sa2 = digest_len sa \<and> block_size sa2 = block_size sa \<and>
     \<not> is_transport (flags sa2) \<and> ses_type (primary sa2) \<notin> {TYPE_INLINE_CRYPTO, TYPE_INLINE_PROTOCOL}"

lemma outer4_head: "outer4 a n x y c = 0x45 # tl (outer4 a n x y c)"
  by (simp add: outer4_def)

lemma esp_inbound_accepts:
  assumes "peer_sa sa sa2" and blk: "unat (block_size sa) \<in> {4, 8, 16, 32, 64}"
    and m0: "m_bytes r \<noteq> []" "m_bytes r ! 0 = 0x45"
    and len: "pkt_len r = 28 + unat (iv_len sa) + pp + unat (digest_len sa)" and pp: "0 < pp" "pp mod unat (block_size sa) = 0"
    and alg: "aead_algo sa = AEAD_AES_GCM \<or> cipher_algo sa \<in> {CIPHER_NULL, CIPHER_3DES_CBC, CIPHER_AES_CBC, CIPHER_AES_CTR} \<and>
      auth_algo sa \<in> {AUTH_NULL, AUTH_SHA1_HMAC, AUTH_SHA256_HMAC}"
  shows "esp_inbound r sa2 cop = Inr
    (let ivl = unat (iv_len sa); dig = 28 + ivl + pp; blk = ctr_blk (salt sa) (slice 28 8 (m_bytes r)) in
     if aead_algo sa = AEAD_AES_GCM then (r\<lparr>icb := blk, aad := slice 20 8 (m_bytes r)\<rparr>, cop\<lparr>op_sym := Aead_op (28 + ivl) pp dig\<rparr>)
     else if cipher_algo sa = CIPHER_AES_CTR then (r\<lparr>icb := blk\<rparr>, cop\<lparr>op_sym := Cipher_auth_op (28 + ivl) pp 20 (8 + ivl + pp) dig\<rparr>)
     else (r, cop\<lparr>op_iv := slice 28 ivl (m_bytes r), op_sym := Cipher_auth_op (28 + ivl) pp 20 (8 + ivl + pp) dig\<rparr>))"
proof -
  have h: "esp_in_hdr_len (m_bytes r) = Some 20" using m0(2) by (simp add: esp_in_hdr_len_def ip_v_def ip_hl_def)
  have f: "aead_algo sa2 = aead_algo sa" "cipher_algo sa2 = cipher_algo sa" "auth_algo sa2 = auth_algo sa" "salt sa2 = salt sa"
      "iv_len sa2 = iv_len sa" "digest_len sa2 = digest_len sa" "block_size sa2 = block_size sa" "ses_type (primary sa2) \<noteq> TYPE_INLINE_CRYPTO"
    using assms(1) by (simp_all add: peer_sa_def)
  have p: "esp_in_payload_len r sa2 20 = int pp" using len by (simp add: esp_in_payload_len_def f)
  have md: "int pp AND (int (unat (block_size sa)) - 1) = 0" by (simp only: and_mask_mod [OF blk] pp(2) flip: zmod_int)
  have dig: "pkt_len r - unat (digest_len sa) = 28 + unat (iv_len sa) + pp" using len by simp
  show ?thesis
    using m0(1) pp(1) alg
    by (auto simp: esp_inbound_def h f p md [simplified] dig Let_def)
qed

text \<open>The second half of the inbound path, on bytes that agree with those sent up to the middle of the headers.\<close>

lemma esp_tunnel_post:
  assumes api: "mbuf_api_ok api" and peer: "peer_sa sa sa2" and dl: "unat (block_size sa) \<in> {4, 8, 16, 32, 64}"
    and bs: "ip_v bs = 4" "12 \<le> length bs" "bs ! 1 AND 3 \<noteq> 3" and pl: "2 \<le> pl" "pl \<le> unat (block_size sa) + 1"
    and c: "length c = 2" and len: "length b = 28 + unat (iv_len sa) + (length bs + pl) + unat (digest_len sa)"
    and o4: "take 20 b = outer4 (bs ! 1) n s d c"
    and inner: "slice (28 + unat (iv_len sa)) (length bs + pl) b = dec_ttl4 bs @ esp_trailer pl IPPROTO_IPIP"
  shows "esp_inbound_post api (x\<lparr>m_bytes := b\<rparr>) sa2 (cop\<lparr>op_status := OP_SUCCESS\<rparr>) =
    Inr (x\<lparr>m_bytes := dec_ttl4 (dec_ttl4 bs), l4_type := l4_of_proto (bs ! 9)\<rparr>)"
proof -
  let ?ivl = "unat (iv_len sa)" and ?o4 = "outer4 (bs ! 1) n s d c"
  let ?mid = "slice 20 (8 + ?ivl) b" and ?dg = "drop (28 + ?ivl + (length bs + pl)) b"
  have f: "iv_len sa2 = iv_len sa" "digest_len sa2 = digest_len sa" "\<not> is_transport (flags sa2)"
      "ses_type (primary sa2) \<notin> {TYPE_INLINE_CRYPTO, TYPE_INLINE_PROTOCOL}"
    using peer by (simp_all add: peer_sa_def)
  have "b = take 20 b @ ?mid @ slice (28 + ?ivl) (length bs + pl) b @ ?dg"
  proof -
    have "b = take 20 b @ take (8 + ?ivl) (drop 20 b) @ take (length bs + pl) (drop (8 + ?ivl) (drop 20 b)) @
        drop (length bs + pl) (drop (8 + ?ivl) (drop 20 b))"
      by (simp only: append_take_drop_id)
    then show ?thesis by (simp add: slice_def add.commute add.left_commute)
  qed
  then have b: "b = (?o4 @ ?mid @ dec_ttl4 bs) @ esp_trailer pl IPPROTO_IPIP @ ?dg"
    using o4 inner by simp
  have l: "length ?mid = 8 + ?ivl" "length ?dg = unat (digest_len sa2)" using len by (simp_all add: slice_def f)
  have pl258: "pl < 258" using pl(2) dl by auto
  have "esp_in_trailer api (x\<lparr>m_bytes := b\<rparr>) sa2 = Inr (IPPROTO_IPIP, x\<lparr>m_bytes := b, m_bytes := ?o4 @ ?mid @ dec_ttl4 bs\<rparr>)"
    by (rule esp_in_trailer_of_trailer [OF api _ pl(1) pl258 l(2)]) (use b f(4) in auto)
  moreover have "bs \<noteq> []" using bs(2) by auto
  then have v: "ip_v (dec_ttl4 bs) = 4" "12 \<le> length (dec_ttl4 bs)" "dec_ttl4 bs ! 9 = bs ! 9"
    using bs(1,2) by (simp_all add: ip_v_def nth_dec_ttl4)
  moreover have "ipip_inbound api (x\<lparr>m_bytes := b, m_bytes := ?o4 @ ?mid @ dec_ttl4 bs\<rparr>) (8 + ?ivl) =
      Inr (x\<lparr>m_bytes := b, m_bytes := ?o4 @ ?mid @ dec_ttl4 bs, m_bytes := dec_ttl4 (dec_ttl4 bs), l4_type := l4_of_proto (dec_ttl4 bs ! 9)\<rparr>)"
    by (rule ipip_inbound4_shape [OF api _ c _ bs(3) v(1,2)]) (simp, rule l(1))
  ultimately show ?thesis
    using f by (simp add: esp_inbound_post_def esp_in_status_def)
qed

lemma slice_take: "i + n \<le> k \<Longrightarrow> take k xs = take k ys \<Longrightarrow> slice i n xs = slice i n ys"
proof -
  assume k: "i + n \<le> k" and t: "take k xs = take k ys"
  have "slice i n zs = slice i n (take k zs)" for zs :: "'a list"
    using k by (simp add: slice_def drop_take)
  from this [of xs] this [of ys] t show "slice i n xs = slice i n ys" by simp
qed

lemma esp_tunnel_returns:
  assumes api: "mbuf_api_ok api" and sa: "tunnel4_sa sa" and v4: "ip_v (m_bytes m) = 4"
    and len: "20 \<le> pkt_len m" "pkt_len m < 65000" and ty: "ses_type (primary sa) \<noteq> TYPE_INLINE_CRYPTO"
    and out: "esp_outbound api m sa cop = (Inr (m', cop'), sa')" and ce: "m_bytes m ! 1 AND 3 \<noteq> 3"
    and dev: "esp_device_ok (cipher_algo sa) seal unseal" and r: "m_bytes r = seal m' cop'" and peer: "peer_sa sa sa2"
    and iv: "cipher_algo sa \<in> {CIPHER_3DES_CBC, CIPHER_AES_CBC} \<Longrightarrow> 0 < unat (iv_len sa)"
  shows "\<exists>r' c2 b. esp_inbound r sa2 cop2 = Inr (r', c2) \<and> unseal r' c2 = Some b \<and>
    esp_inbound_post api (r'\<lparr>m_bytes := b\<rparr>) sa2 (c2\<lparr>op_status := OP_SUCCESS\<rparr>) =
      Inr (r'\<lparr>m_bytes := dec_ttl4 (dec_ttl4 (m_bytes m)), l4_type := l4_of_proto (m_bytes m ! 9)\<rparr>)"
proof -
  let ?bs = "m_bytes m" and ?ivl = "unat (iv_len sa)" and ?dl = "unat (digest_len sa)"
  from esp_outbound_tunnel4 [OF api sa v4 len ty out] obtain c i pl digest where
    c: "length c = 2" and i: "length i = ?ivl" and dg: "length digest = ?dl"
    and pl: "2 \<le> pl" "pl \<le> unat (block_size sa) + 1" and md: "(pkt_len m + pl) mod unat (block_size sa) = 0"
    and ivp: "iv_of_packet sa (seq sa + 1) i" and op: "sealed_op sa (seq sa + 1) (pkt_len m + pl) m' cop'"
    and bytes: "m_bytes m' = outer4 (?bs ! 1) (pkt_len m') (src sa) (dst sa) c @
      (bytes_of_u32 (spi sa) @ bytes_of_u32 (ucast (seq sa + 1)) @ i) @
      dec_ttl4 ?bs @ esp_trailer pl IPPROTO_IPIP @ digest" by (elim exE conjE) (rule that)
  let ?o4 = "outer4 (?bs ! 1) (pkt_len m') (src sa) (dst sa) c" and ?pp = "pkt_len m + pl"
  let ?esp = "bytes_of_u32 (spi sa) @ bytes_of_u32 (ucast (seq sa + 1))" and ?in = "dec_ttl4 ?bs @ esp_trailer pl IPPROTO_IPIP"
  have blk: "unat (block_size sa) \<in> {4, 8, 16, 32, 64}" using sa by (simp add: tunnel4_sa_def)
  have o20: "length ?o4 = 20" using c by (simp add: outer4_def)
  have b12: "12 \<le> length ?bs" using len(1) by (simp add: pkt_len_def)
  have lin: "length ?in = ?pp" using b12 pl(1) by (simp add: length_esp_trailer pkt_len_def)
  have m': "m_bytes m' = ?o4 @ ?esp @ i @ ?in @ digest" using bytes by simp
  have lm': "pkt_len m' = 28 + ?ivl + ?pp + ?dl"
  proof -
    have "length (m_bytes m') = 20 + (4 + 4 + (?ivl + (?pp + ?dl)))"
      by (subst m') (simp only: length_append o20 i lin [unfolded length_append] dg length_bytes_of_u32)
    then show ?thesis by (simp add: pkt_len_def)
  qed
  have parts: "take 20 (m_bytes m') = ?o4" "slice 20 8 (m_bytes m') = ?esp" "slice 28 ?ivl (m_bytes m') = i"
      "slice (28 + ?ivl) ?pp (m_bytes m') = ?in"
  proof -
    show "take 20 (m_bytes m') = ?o4" "slice 20 8 (m_bytes m') = ?esp" using o20 by (simp_all add: m' slice_def)
    show "slice 28 ?ivl (m_bytes m') = i" using o20 i by (simp add: m' slice_def)
    have "drop (28 + ?ivl) (m_bytes m') = ?in @ digest" using o20 i by (simp add: m')
    then show "slice (28 + ?ivl) ?pp (m_bytes m') = ?in" using lin by (simp add: slice_def)
  qed
  have post: "esp_inbound_post api (x\<lparr>m_bytes := b\<rparr>) sa2 (q\<lparr>op_status := OP_SUCCESS\<rparr>) =
      Inr (x\<lparr>m_bytes := dec_ttl4 (dec_ttl4 ?bs), l4_type := l4_of_proto (?bs ! 9)\<rparr>)"
    if "length b = pkt_len m'" "take 28 b = take 28 (m_bytes m')" "slice (28 + ?ivl) ?pp b = slice (28 + ?ivl) ?pp (m_bytes m')" for x b q
  proof (rule esp_tunnel_post [OF api peer blk v4 b12 ce pl c])
    have "take 20 b = take 20 (m_bytes m')" using arg_cong [OF that(2), of "take 20"] by (simp add: take_take)
    then show "take 20 b = outer4 (?bs ! 1) (pkt_len m') (src sa) (dst sa) c" by (simp only: parts)
    show "length b = 28 + ?ivl + (length ?bs + pl) + ?dl" using that(1) lm' by (simp only: pkt_len_def)
    show "slice (28 + ?ivl) (length ?bs + pl) b = ?in" using that(3) parts(4) by (simp only: pkt_len_def)
  qed
  have answer: "\<exists>b. unseal r' c2 = Some b \<and> esp_inbound_post api (r'\<lparr>m_bytes := b\<rparr>) sa2 (c2\<lparr>op_status := OP_SUCCESS\<rparr>) =
      Inr (r'\<lparr>m_bytes := dec_ttl4 (dec_ttl4 ?bs), l4_type := l4_of_proto (?bs ! 9)\<rparr>)"
    if "restores k (28 + ?ivl) ?pp (m_bytes m') (unseal r' c2)" "28 \<le> k" for k r' c2
  proof -
    from that(1) obtain b where b: "unseal r' c2 = Some b" "length b = pkt_len m'" "take k b = take k (m_bytes m')"
        "slice (28 + ?ivl) ?pp b = slice (28 + ?ivl) ?pp (m_bytes m')"
      by (auto simp: restores_def pkt_len_def split: option.splits)
    have "take 28 b = take 28 (m_bytes m')" using arg_cong [OF b(3), of "take 28"] that(2) by (simp add: take_take)
    from post [OF b(2) this b(4)] b(1) show ?thesis by blast
  qed
  have accept: "esp_inbound r sa2 cop2 = Inr
      (let dig = 28 + ?ivl + ?pp; blk = ctr_blk (salt sa) (slice 28 8 (m_bytes r)) in
       if aead_algo sa = AEAD_AES_GCM then (r\<lparr>icb := blk, aad := slice 20 8 (m_bytes r)\<rparr>, cop2\<lparr>op_sym := Aead_op (28 + ?ivl) ?pp dig\<rparr>)
       else if cipher_algo sa = CIPHER_AES_CTR then (r\<lparr>icb := blk\<rparr>, cop2\<lparr>op_sym := Cipher_auth_op (28 + ?ivl) ?pp 20 (8 + ?ivl + ?pp) dig\<rparr>)
       else (r, cop2\<lparr>op_iv := slice 28 ?ivl (m_bytes r), op_sym := Cipher_auth_op (28 + ?ivl) ?pp 20 (8 + ?ivl + ?pp) dig\<rparr>))"
    if "length (m_bytes r) = pkt_len m'" "take 28 (m_bytes r) = take 28 (m_bytes m')"
  proof -
    have "m_bytes r \<noteq> []" using that(1) lm' by auto
    moreover have "m_bytes r ! 0 = 0x45"
    proof -
      have "m_bytes r ! 0 = take 28 (m_bytes m') ! 0" by (simp flip: that(2))
      also have "\<dots> = ?o4 ! 0" using o20 by (simp add: m' nth_append)
      finally show ?thesis by (simp add: outer4_def)
    qed
    moreover have "pkt_len r = 28 + ?ivl + ?pp + ?dl" using that(1) lm' by (simp add: pkt_len_def)
    moreover have "0 < ?pp" using pl(1) by simp
    moreover have "aead_algo sa = AEAD_AES_GCM \<or> cipher_algo sa \<in> {CIPHER_NULL, CIPHER_3DES_CBC, CIPHER_AES_CBC, CIPHER_AES_CTR} \<and>
        auth_algo sa \<in> {AUTH_NULL, AUTH_SHA1_HMAC, AUTH_SHA256_HMAC}"
      using ivp op by (auto simp: iv_of_packet_def sealed_op_def Let_def split: if_splits)
    ultimately show ?thesis using esp_inbound_accepts [OF peer blk, of r ?pp cop2] md by (simp add: Let_def)
  qed
  consider (gcm) "aead_algo sa = AEAD_AES_GCM" | (ctr) "aead_algo sa \<noteq> AEAD_AES_GCM" "cipher_algo sa = CIPHER_AES_CTR"
    | (cbc) "aead_algo sa \<noteq> AEAD_AES_GCM" "cipher_algo sa \<in> {CIPHER_NULL, CIPHER_3DES_CBC, CIPHER_AES_CBC}"
    using ivp by (auto simp: iv_of_packet_def split: if_splits)
  then show ?thesis
  proof cases
    case gcm
    have op: "op_sym cop' = Aead_op (28 + ?ivl) ?pp (28 + ?ivl + ?pp)" "aad m' = ?esp"
        "icb m' = ctr_blk (salt sa) (bytes_of_u64 (seq sa + 1))" and i8: "i = bytes_of_u64 (seq sa + 1)"
      using op ivp gcm by (simp_all add: sealed_op_def ctr_blk_def iv_of_packet_def Let_def)
    from device_aead [OF dev op(1)] lm'
    have d: "length (m_bytes r) = pkt_len m'" "take (28 + ?ivl) (m_bytes r) = take (28 + ?ivl) (m_bytes m')"
      and u: "\<And>m2 c2. m_bytes m2 = m_bytes r \<Longrightarrow> icb m2 = icb m' \<Longrightarrow> aad m2 = aad m' \<Longrightarrow> op_sym c2 = op_sym cop' \<Longrightarrow>
        restores (28 + ?ivl) (28 + ?ivl) ?pp (m_bytes m') (unseal m2 c2)"
      by (auto simp: r)
    have "take 28 (m_bytes r) = take 28 (m_bytes m')" using arg_cong [OF d(2), of "take 28"] by (simp add: take_take)
    moreover have "slice 28 8 (m_bytes r) = bytes_of_u64 (seq sa + 1)" "slice 20 8 (m_bytes r) = ?esp"
      using slice_take [OF _ d(2), of 28 8] slice_take [OF _ d(2), of 20 8] parts i i8 by simp_all
    ultimately show ?thesis
      using accept [OF d(1)] gcm answer [OF u] op by (simp add: Let_def)
  next
    case ctr
    have op: "op_sym cop' = Cipher_auth_op (28 + ?ivl) (0 + ?pp) 20 (8 + ?ivl + ?pp) (28 + ?ivl + 0 + ?pp)"
        "icb m' = ctr_blk (salt sa) (bytes_of_u64 (seq sa + 1))" and i8: "i = bytes_of_u64 (seq sa + 1)"
      using op ivp ctr by (simp_all add: sealed_op_def ctr_blk_def iv_of_packet_def Let_def)
    from device_cipher [OF dev op(1)] lm' ctr(2)
    have d: "length (m_bytes r) = pkt_len m'" "take (28 + ?ivl) (m_bytes r) = take (28 + ?ivl) (m_bytes m')"
      and u: "\<And>m2 c2. m_bytes m2 = m_bytes r \<Longrightarrow> icb m2 = icb m' \<Longrightarrow> op_sym c2 = Cipher_auth_op (28 + ?ivl) ?pp 20 (8 + ?ivl + ?pp) (28 + ?ivl + ?pp) \<Longrightarrow>
        restores (28 + ?ivl) (28 + ?ivl) ?pp (m_bytes m') (unseal m2 c2)"
      by (auto simp: r)
    have "take 28 (m_bytes r) = take 28 (m_bytes m')" using arg_cong [OF d(2), of "take 28"] by (simp add: take_take)
    moreover have "slice 28 8 (m_bytes r) = bytes_of_u64 (seq sa + 1)"
      using slice_take [OF _ d(2), of 28 8] parts i i8 by simp
    ultimately show ?thesis
      using accept [OF d(1)] ctr answer [OF u] op by (simp add: Let_def)
  next
    case cbc
    have op: "op_sym cop' = Cipher_auth_op 28 (?ivl + ?pp) 20 (8 + ?ivl + ?pp) (28 + ?ivl + ?pp)"
      using op cbc by (auto simp: sealed_op_def Let_def)
    from device_cipher [OF dev op] lm' cbc(2) iv
    have d: "length (m_bytes r) = pkt_len m'" "take 28 (m_bytes r) = take 28 (m_bytes m')"
      and u: "\<And>m2 c2. m_bytes m2 = m_bytes r \<Longrightarrow> op_iv c2 = slice 28 ?ivl (m_bytes r) \<Longrightarrow>
        op_sym c2 = Cipher_auth_op (28 + ?ivl) ?pp 20 (8 + ?ivl + ?pp) (28 + ?ivl + ?pp) \<Longrightarrow>
        restores 28 (28 + ?ivl) ?pp (m_bytes m') (unseal m2 c2)"
      by (auto simp: r)
    show ?thesis
      using accept [OF d] cbc answer [OF u] by (auto simp: Let_def)
  qed
qed


definition scramble :: "nat \<Rightarrow> u8 list \<Rightarrow> u8 list" where
  "scramble off b = take off b @ map (\<lambda>x. x XOR 0x5A) (drop off b)"

text \<open>A device for the witness: from the start of the data on it flips bits, and the same operation flips them back.\<close>

definition flip_seal :: "mbuf \<Rightarrow> crypto_op \<Rightarrow> u8 list" where
  "flip_seal m c = (case op_sym c of No_op \<Rightarrow> m_bytes m | Aead_op off n dig \<Rightarrow> scramble off (m_bytes m)
     | Cipher_auth_op off n aoff an dig \<Rightarrow> scramble off (m_bytes m))"

definition flip_unseal :: "mbuf \<Rightarrow> crypto_op \<Rightarrow> u8 list option" where
  "flip_unseal m c = Some (flip_seal m c)"

lemma length_scramble [simp]: "length (scramble i b) = length b"
  by (simp add: scramble_def)

lemma nth_scramble: "n < length b \<Longrightarrow> scramble i b ! n = (if n < i then b ! n else b ! n XOR 0x5A)"
  by (cases "n < i") (auto simp: scramble_def nth_append min_def not_less)

lemma take_scramble: "take i (scramble i b) = take i b"
  by (rule nth_equalityI) (simp_all add: nth_scramble)

lemma scramble_restores: "i \<le> j \<Longrightarrow> restores i j n b (Some (scramble j (scramble i b)))"
proof -
  assume "i \<le> j"
  then have "drop j (scramble j (scramble i b)) = drop j b" "take i (scramble j (scramble i b)) = take i b"
    by (auto intro!: nth_equalityI simp: nth_scramble xor.assoc)
  then show ?thesis by (simp add: restores_def slice_def)
qed

lemma flip_device_ok: "esp_device_ok alg flip_seal flip_unseal"
  unfolding esp_device_ok_def
proof (intro conjI allI impI)
  show "restores off (off + k) n (m_bytes m) (flip_unseal m2 c2)"
    if "op_sym c = Cipher_auth_op off (k + n) aoff an dig \<and> off + k + n = dig \<and> dig \<le> pkt_len m"
      and "m_bytes m2 = flip_seal m c \<and> op_sym c2 = Cipher_auth_op (off + k) n aoff an dig \<and>
           (case alg of CIPHER_AES_CTR \<Rightarrow> k = 0 \<and> icb m2 = icb m | CIPHER_NULL \<Rightarrow> True
            | _ \<Rightarrow> 0 < k \<and> op_iv c2 = slice off k (flip_seal m c))" for m c off k n aoff an dig m2 c2
    using that scramble_restores [of off "off + k" n "m_bytes m"] by (simp add: flip_unseal_def flip_seal_def)
qed (simp_all add: flip_seal_def flip_unseal_def pkt_len_def take_scramble scramble_restores [of i i for i])


text \<open>
  C32. What \<open>esp_inbound\<close> asks of the crypto device stays inside the packet: on every accepted packet
  (lookaside or CPU), the data to decrypt is a positive whole number of cipher blocks, it ends
  where the digest starts, the digest ends at the end of the packet, and the packet bytes are as
  received.
\<close>

theorem esp_inbound_bounds:
  assumes "esp_inbound m sa cop = Inr (m', cop')" and "ses_type (primary sa) \<noteq> TYPE_INLINE_CRYPTO"
    and "unat (block_size sa) \<in> {4, 8, 16, 32, 64}"
  shows "m_bytes m' = m_bytes m \<and>
    (case op_sym cop' of
       Aead_op off n dig \<Rightarrow> aead_algo sa = AEAD_AES_GCM \<and> 0 < n \<and> n mod unat (block_size sa) = 0 \<and>
         off + n = dig \<and> dig + unat (digest_len sa) = pkt_len m
     | Cipher_auth_op coff n aoff an dig \<Rightarrow> 0 < n \<and> n mod unat (block_size sa) = 0 \<and>
         coff + n = dig \<and> aoff + an = dig \<and> dig + unat (digest_len sa) = pkt_len m
     | No_op \<Rightarrow> False)"
proof -
  from assms(1,2) obtain h where h: "esp_in_hdr_len (m_bytes m) = Some h" and ne: "m_bytes m \<noteq> []"
    by (auto simp: esp_inbound_def split: if_splits option.splits)
  let ?p = "esp_in_payload_len m sa h"
  from assms(1,2) h ne have p: "?p AND (int (unat (block_size sa)) - 1) = 0" "0 < ?p"
    by (auto simp: esp_inbound_def Let_def split: if_splits)
  have md: "nat ?p mod unat (block_size sa) = 0"
    using p and_mask_mod [OF assms(3), of ?p] by (metis nat_0 nat_int nat_mod_distrib of_nat_0_le_iff order_less_imp_le)
  have len: "pkt_len m = h + 8 + unat (iv_len sa) + nat ?p + unat (digest_len sa)"
  proof -
    have "int (nat ?p) = ?p" using p(2) by simp
    then have "int (pkt_len m) = int (h + 8 + unat (iv_len sa) + nat ?p + unat (digest_len sa))"
      unfolding of_nat_add by (simp only: esp_in_payload_len_def)
    then show ?thesis by (simp only: of_nat_eq_iff)
  qed
  show ?thesis
    using assms(1,2) h ne p md len
    by (auto simp: esp_inbound_def Let_def split: if_splits)
qed

theorem esp_inbound_bounds_witness:
  "\<exists>m' cop'. esp_inbound (sample_mbuf\<lparr>m_bytes := sample_ip4 @ replicate 36 0\<rparr>) sample_sa sample_cop = Inr (m', cop') \<and>
     m_bytes m' = sample_ip4 @ replicate 36 0"
proof -
  let ?m = "sample_mbuf\<lparr>m_bytes := sample_ip4 @ replicate 36 0\<rparr>"
  have "esp_in_hdr_len (m_bytes ?m) = Some 20" "esp_in_payload_len ?m sample_sa 20 = 8"
    by (simp_all add: esp_in_hdr_len_def sample_ip4_def ip_v_def ip_hl_def esp_in_payload_len_def sample_sa_fields pkt_len_def)
  then obtain r where r: "esp_inbound ?m sample_sa sample_cop = Inr r"
    by (simp add: esp_inbound_def sample_sa_fields sample_ip4_def Let_def)
  then obtain m' cop' where o: "esp_inbound ?m sample_sa sample_cop = Inr (m', cop')" by (cases r) auto
  from esp_inbound_bounds [OF this] o show ?thesis by (simp add: sample_sa_fields)
qed

end
