(* ===== verification/SAD.thy ===== *)
theory SAD
  imports IPIP SP4 SP6
begin

text \<open>
  The security association database, \<open>sad.h\<close> and \<open>sad.c\<close>, and the lookups \<open>sa.c\<close> puts on it. The
  database itself is \<open>librte_ipsec\<close>: \<open>sad_api\<close> is a parameter and \<open>sad_api_ok\<close> what the code relies
  on. A pointer to an SA is its index in the array of the SA context. The per-core cache in front
  of the database is the code's own.
\<close>

section \<open>The database\<close>

text \<open>A key is the SPI in network order, the destination and the source address.\<close>

type_synonym sad_key = "u32 \<times> u8 list \<times> u8 list"

record 'd sad_api =
  sad_new :: "string \<Rightarrow> bool \<Rightarrow> u32 \<Rightarrow> 'd option"
  sad_add :: "'d \<Rightarrow> u32 \<Rightarrow> nat \<Rightarrow> errno + 'd"
  sad_find :: "'d \<Rightarrow> sad_key \<Rightarrow> nat option"

text \<open>A new database is empty; adding an SA by SPI makes every key with that SPI find it.\<close>

definition sad_api_ok :: "'d sad_api \<Rightarrow> bool" where
  "sad_api_ok api \<longleftrightarrow>
     (\<forall>n v k d key. sad_new api n v k = Some d \<longrightarrow> sad_find api d key = None) \<and>
     (\<forall>d w p d' x. sad_add api d w p = Inr d' \<longrightarrow>
        sad_find api d' x = (if fst x = w then Some p else sad_find api d x))"

definition map_sad :: "(u32 \<times> nat) list sad_api" where
  "map_sad = \<lparr>sad_new = (\<lambda>_ _ _. Some []), sad_add = (\<lambda>d w p. Inr ((w, p) # d)),
     sad_find = (\<lambda>d x. map_of d (fst x))\<rparr>"

lemma map_sad_ok: "sad_api_ok map_sad"
  by (auto simp: sad_api_ok_def map_sad_def)

record 'd ipsec_sad =
  sad_v4 :: "'d option"
  sad_v6 :: "'d option"

record sad_cache =
  c_v4 :: "nat option list"
  c_v6 :: "nat option list"
  c_mask :: u32

definition le32_at :: "u8 list \<Rightarrow> nat \<Rightarrow> u32" where
  "le32_at bs i = u32_of_bytes (bs ! (i + 3)) (bs ! (i + 2)) (bs ! (i + 1)) (bs ! i)"

lemma bswap32_bswap32 [simp]: "bswap32 (bswap32 w) = w"
proof -
  have b: "ucast (u32_of_bytes a b c d) = d" "ucast (drop_bit 8 (u32_of_bytes a b c d)) = c"
    "ucast (drop_bit 16 (u32_of_bytes a b c d)) = b" "ucast (drop_bit 24 (u32_of_bytes a b c d)) = a" for a b c d :: u8
    using bytes_of_u32_of_bytes [of a b c d] by (simp_all add: bytes_of_u32_def)
  show ?thesis by (simp add: bswap32_def b)
qed

section \<open>Creation\<close>

definition ipsec_sad_create ::
  "'d sad_api \<Rightarrow> nat \<Rightarrow> string \<Rightarrow> u32 \<times> u32 \<Rightarrow> 'd ipsec_sad \<Rightarrow> errno + 'd ipsec_sad" where
  "ipsec_sad_create api namesize name cnt sad =
     (if namesize \<le> length (name @ ''_v4'') then Inl ENAMETOOLONG
      else case (if fst cnt \<noteq> 0
                 then map_option (\<lambda>d. sad\<lparr>sad_v4 := Some d\<rparr>) (sad_new api (name @ ''_v4'') False (fst cnt * 5 div 4))
                 else Some sad) of
          None \<Rightarrow> Inl EFAIL
        | Some sad1 \<Rightarrow>
            (if snd cnt \<noteq> 0 then
               (case sad_new api name True (snd cnt * 5 div 4) of
                  None \<Rightarrow> Inl EFAIL
                | Some d \<Rightarrow> Inr (sad1\<lparr>sad_v6 := Some d\<rparr>))
             else Inr sad1))"

text \<open>\<open>align32pow2\<close> is DPDK's; the two flags are the outcomes of the two allocations.\<close>

definition ipsec_sad_lcore_cache_init ::
  "(u32 \<Rightarrow> u32) \<Rightarrow> bool \<Rightarrow> bool \<Rightarrow> u32 \<Rightarrow> sad_cache \<Rightarrow> sad_cache \<times> bool" where
  "ipsec_sad_lcore_cache_init align32pow2 ok4 ok6 nb_cache_ent cache =
     (let n = align32pow2 nb_cache_ent in
      if n = 0 then (cache, True)
      else if \<not> ok4 then (cache\<lparr>c_v4 := []\<rparr>, False)
      else if \<not> ok6 then (cache\<lparr>c_v4 := replicate (unat n) None, c_v6 := []\<rparr>, False)
      else (cache\<lparr>c_v4 := replicate (unat n) None, c_v6 := replicate (unat n) None, c_mask := n - 1\<rparr>, True))"

section \<open>Adding an SA\<close>

definition sad_insert :: "'d sad_api \<Rightarrow> nat \<Rightarrow> 'd option \<Rightarrow> u32 \<Rightarrow> nat \<Rightarrow> errno + 'd option" where
  "sad_insert api alen d w p =
     (case d of
        None \<Rightarrow> Inl EINVAL
      | Some db \<Rightarrow>
          (if sad_find api db (bswap32 w, replicate alen 0, replicate alen 0) \<noteq> None then Inl EEXIST
           else case sad_add api db (bswap32 w) p of Inl e \<Rightarrow> Inl e | Inr db' \<Rightarrow> Inr (Some db')))"

text \<open>
  \<open>ipsec_sad_add\<close>: \<open>p4\<close> and \<open>p6\<close> are the outcomes of \<open>sp4_spi_present\<close> and \<open>sp6_spi_present\<close> for the
  SPI of a transport SA. An error after the IPv4 insertion leaves that insertion in place, as the
  returned database shows.
\<close>

definition ipsec_sad_add ::
  "'d sad_api \<Rightarrow> bool \<Rightarrow> bool \<Rightarrow> ipsec_sa \<Rightarrow> nat \<Rightarrow> 'd ipsec_sad \<Rightarrow> 'd ipsec_sad \<times> errno option" where
  "ipsec_sad_add api p4 p6 sa p sad =
     (let w = without_transport_version (flags sa);
          add4 = (\<lambda>s. case sad_insert api 4 (sad_v4 s) (spi sa) p of
                        Inl e \<Rightarrow> (s, Some e) | Inr d \<Rightarrow> (s\<lparr>sad_v4 := d\<rparr>, None));
          add6 = (\<lambda>s. case sad_insert api 16 (sad_v6 s) (spi sa) p of
                        Inl e \<Rightarrow> (s, Some e) | Inr d \<Rightarrow> (s\<lparr>sad_v6 := d\<rparr>, None))
      in if w = IP4_TUNNEL then add4 sad
         else if w = IP6_TUNNEL then add6 sad
         else if w = TRANSPORT then
           (case (if p4 then add4 sad else (sad, None)) of
              (s, Some e) \<Rightarrow> (s, Some e)
            | (s, None) \<Rightarrow> (if p6 then add6 s else (s, None)))
         else (sad, None))"

section \<open>Lookup\<close>

text \<open>\<open>cmp_sa_key\<close> on the bytes of the packet; addresses compare as they lie in memory.\<close>

definition cmp_sa_key :: "ipsec_sa \<Rightarrow> bool \<Rightarrow> u8 list \<Rightarrow> bool" where
  "cmp_sa_key sa is_v4 bs =
     (let ty = without_transport_version (flags sa) in
      ty = TRANSPORT \<or>
      (is_v4 \<and> ty = IP4_TUNNEL \<and> ip4 (src sa) = le32_at bs 12 \<and> ip4 (dst sa) = le32_at bs 16) \<or>
      (\<not> is_v4 \<and> ty = IP6_TUNNEL \<and> ip6 (src sa) = take 16 (drop 8 bs) \<and> ip6 (dst sa) = take 16 (drop 24 bs)))"

definition sa_cache_update :: "ipsec_sa list \<Rightarrow> u32 \<Rightarrow> nat \<Rightarrow> nat option list \<Rightarrow> nat option list" where
  "sa_cache_update sas msk p c =
     (if msk = 0 then c else c[unat (spi (sas ! p) AND msk) := Some p])"

text \<open>What the first loop of \<open>sad_lookup\<close> decides for a packet.\<close>

datatype sad_probe = Hit nat | Miss4 sad_key | Miss6 sad_key

definition sad_probe1 :: "sad_cache \<Rightarrow> ipsec_sa list \<Rightarrow> nat \<Rightarrow> mbuf \<Rightarrow> errno + sad_probe" where
  "sad_probe1 cache sas udp_hdr_len m =
     (let bs = m_bytes m; off = l3_len m + udp_hdr_len in
      if pkt_len m < off + 4 \<or> pkt_len m < (if l3_ipv4 m then 20 else 40) then Inl UB
      else let raw = le32_at bs off; w = bswap32 raw; idx = unat (w AND c_mask cache) in
        if l3_ipv4 m then
          (case (if c_mask cache \<noteq> 0 then c_v4 cache ! idx else None) of
             Some p \<Rightarrow> (if spi (sas ! p) = w \<and> cmp_sa_key (sas ! p) True bs then Inr (Hit p)
                        else Inr (Miss4 (raw, take 4 (drop 16 bs), take 4 (drop 12 bs))))
           | None \<Rightarrow> Inr (Miss4 (raw, take 4 (drop 16 bs), take 4 (drop 12 bs))))
        else
          (case (if c_mask cache \<noteq> 0 then c_v6 cache ! idx else None) of
             Some p \<Rightarrow> (if spi (sas ! p) = w \<and> cmp_sa_key (sas ! p) False bs then Inr (Hit p)
                        else Inr (Miss6 (raw, take 16 (drop 24 bs), take 16 (drop 8 bs))))
           | None \<Rightarrow> Inr (Miss6 (raw, take 16 (drop 24 bs), take 16 (drop 8 bs)))))"

text \<open>The loop: the UDP header length, once set by a packet, stays set for the rest of the burst.\<close>

fun sad_scan :: "sad_cache \<Rightarrow> ipsec_sa list \<Rightarrow> nat \<Rightarrow> mbuf list \<Rightarrow> errno + sad_probe list" where
  "sad_scan cache sas udp [] = Inr []"
| "sad_scan cache sas udp (m # ms) =
     (let udp' = (if esp_in_udp m then 8 else udp) in
      case sad_probe1 cache sas udp' m of
        Inl e \<Rightarrow> Inl e
      | Inr p \<Rightarrow> (case sad_scan cache sas udp' ms of Inl e \<Rightarrow> Inl e | Inr ps \<Rightarrow> Inr (p # ps)))"

text \<open>
  The bulk lookups and the loops after them. A bulk lookup on a database that was never created
  fails without writing its results, which the code then reads: \<open>UB\<close>.
\<close>

definition sad_resolve :: "'d sad_api \<Rightarrow> ipsec_sa list \<Rightarrow> 'd option \<Rightarrow> bool \<Rightarrow> sad_key \<Rightarrow> u8 list \<Rightarrow> errno + nat option" where
  "sad_resolve api sas d is_v4 key bs =
     (case d of
        None \<Rightarrow> Inl UB
      | Some db \<Rightarrow>
          (case sad_find api db key of
             Some p \<Rightarrow> Inr (if cmp_sa_key (sas ! p) is_v4 bs then Some p else None)
           | None \<Rightarrow> Inr None))"

fun sad_results :: "'d sad_api \<Rightarrow> ipsec_sa list \<Rightarrow> 'd ipsec_sad \<Rightarrow> sad_probe list \<Rightarrow> mbuf list \<Rightarrow> errno + nat option list" where
  "sad_results api sas sad (p # ps) (m # ms) =
     (case (case p of
              Hit q \<Rightarrow> Inr (Some q)
            | Miss4 key \<Rightarrow> sad_resolve api sas (sad_v4 sad) True key (m_bytes m)
            | Miss6 key \<Rightarrow> sad_resolve api sas (sad_v6 sad) False key (m_bytes m)) of
        Inl e \<Rightarrow> Inl e
      | Inr r \<Rightarrow> (case sad_results api sas sad ps ms of Inl e \<Rightarrow> Inl e | Inr rs \<Rightarrow> Inr (r # rs)))"
| "sad_results api sas sad _ _ = Inr []"

text \<open>The cache after the burst: every SA found for a miss, IPv4 misses first.\<close>

definition missed :: "bool \<Rightarrow> sad_probe list \<Rightarrow> nat option list \<Rightarrow> nat list" where
  "missed is_v4 ps rs =
     concat (map2 (\<lambda>p r. case (p, r) of
                      (Miss4 _, Some q) \<Rightarrow> if is_v4 then [q] else []
                    | (Miss6 _, Some q) \<Rightarrow> if is_v4 then [] else [q]
                    | _ \<Rightarrow> []) ps rs)"

definition sad_lookup ::
  "'d sad_api \<Rightarrow> ipsec_sa list \<Rightarrow> 'd ipsec_sad \<Rightarrow> sad_cache \<Rightarrow> mbuf list \<Rightarrow> errno + nat option list \<times> sad_cache" where
  "sad_lookup api sas sad cache pkts =
     (case sad_scan cache sas 0 pkts of
        Inl e \<Rightarrow> Inl e
      | Inr ps \<Rightarrow>
          (case sad_results api sas sad ps pkts of
             Inl e \<Rightarrow> Inl e
           | Inr rs \<Rightarrow>
               Inr (rs, cache\<lparr>c_v4 := fold (sa_cache_update sas (c_mask cache)) (missed True ps rs) (c_v4 cache),
                              c_v6 := fold (sa_cache_update sas (c_mask cache)) (missed False ps rs) (c_v6 cache)\<rparr>)))"

section \<open>What the database promises\<close>

lemma sad_api_okD:
  assumes "sad_api_ok api"
  shows "sad_new api n v k = Some d \<Longrightarrow> sad_find api d key = None"
    and "sad_add api d w p = Inr d' \<Longrightarrow> sad_find api d' x = (if fst x = w then Some p else sad_find api d x)"
  using assms unfolding sad_api_ok_def by blast+

text \<open>The database of one family: keyed by SPI alone, and every entry is an SA with that SPI.\<close>

definition db_ok :: "'d sad_api \<Rightarrow> ipsec_sa list \<Rightarrow> 'd option \<Rightarrow> bool" where
  "db_ok api sas d \<longleftrightarrow>
     (\<forall>db. d = Some db \<longrightarrow>
        (\<forall>x p. sad_find api db x = Some p \<longrightarrow> p < length sas \<and> fst x = bswap32 (spi (sas ! p))) \<and>
        (\<forall>x y. fst x = fst y \<longrightarrow> sad_find api db x = sad_find api db y))"

text \<open>One array of the cache: sized by the mask, an entry is what the database holds for its SPI.\<close>

definition cache_ok :: "'d sad_api \<Rightarrow> ipsec_sa list \<Rightarrow> 'd option \<Rightarrow> u32 \<Rightarrow> nat option list \<Rightarrow> bool" where
  "cache_ok api sas d msk c \<longleftrightarrow>
     msk = 0 \<or>
     (length c = unat msk + 1 \<and>
      (\<forall>p. Some p \<in> set c \<longrightarrow> p < length sas \<and>
         (\<exists>db. d = Some db \<and> (\<forall>x. fst x = bswap32 (spi (sas ! p)) \<longrightarrow> sad_find api db x = Some p))))"

definition sad_inv :: "'d sad_api \<Rightarrow> ipsec_sa list \<Rightarrow> 'd ipsec_sad \<Rightarrow> sad_cache \<Rightarrow> bool" where
  "sad_inv api sas sad cache \<longleftrightarrow>
     db_ok api sas (sad_v4 sad) \<and> db_ok api sas (sad_v6 sad) \<and>
     cache_ok api sas (sad_v4 sad) (c_mask cache) (c_v4 cache) \<and>
     cache_ok api sas (sad_v6 sad) (c_mask cache) (c_v6 cache)"

lemma db_okD:
  assumes "db_ok api sas (Some db)" and "sad_find api db x = Some p"
  shows "p < length sas" "fst x = bswap32 (spi (sas ! p))" "fst y = fst x \<Longrightarrow> sad_find api db y = Some p"
  using assms unfolding db_ok_def by metis+

lemma masked_index: "unat ((w :: u32) AND msk) < unat msk + 1"
proof -
  have "w AND msk \<le> msk" by (simp add: word_and_le1)
  then show ?thesis by (simp add: word_le_nat_alt)
qed

lemma cache_okD:
  assumes "cache_ok api sas d msk c" and "msk \<noteq> 0" and "c ! unat (w AND msk) = Some p"
  shows "p < length sas"
    and "\<exists>db. d = Some db \<and> (\<forall>x. fst x = bswap32 (spi (sas ! p)) \<longrightarrow> sad_find api db x = Some p)"
proof -
  have "unat (w AND msk) < length c"
    using assms(1,2) masked_index [of w msk] by (simp add: cache_ok_def)
  then have "Some p \<in> set c" using assms(3) by (metis nth_mem)
  then show "p < length sas"
    and "\<exists>db. d = Some db \<and> (\<forall>x. fst x = bswap32 (spi (sas ! p)) \<longrightarrow> sad_find api db x = Some p)"
    using assms(1,2) unfolding cache_ok_def by blast+
qed

lemma cache_ok_update:
  assumes "cache_ok api sas (Some db) msk c" and "db_ok api sas (Some db)" and "sad_find api db x = Some p"
  shows "cache_ok api sas (Some db) msk (sa_cache_update sas msk p c)"
proof -
  have "sad_find api db y = Some p" if "fst y = bswap32 (spi (sas ! p))" for y
    using that db_okD [OF assms(2,3)] by simp
  moreover have "p < length sas" using assms(2,3) by (rule db_okD)
  ultimately show ?thesis
    using assms(1) unfolding cache_ok_def sa_cache_update_def
    by (auto dest!: set_update_subset_insert [THEN subsetD])
qed

lemma cache_ok_fold:
  assumes "cache_ok api sas (Some db) msk c" and "db_ok api sas (Some db)"
    and "\<forall>p \<in> set ps. \<exists>x. sad_find api db x = Some p"
  shows "cache_ok api sas (Some db) msk (fold (sa_cache_update sas msk) ps c)"
  using assms(1,3) by (induction ps arbitrary: c) (auto intro: cache_ok_update [OF _ assms(2)])

section \<open>The lookup without a cache\<close>

text \<open>
  The reference: the offset of the ESP header of each packet of a burst as the loop computes it, and
  the SA the database holds for the packet's key, if its addresses fit.
\<close>

fun esp_offs :: "nat \<Rightarrow> mbuf list \<Rightarrow> nat list" where
  "esp_offs udp [] = []"
| "esp_offs udp (m # ms) =
     (let u = (if esp_in_udp m then 8 else udp) in (l3_len m + u) # esp_offs u ms)"

definition key_of :: "nat \<Rightarrow> mbuf \<Rightarrow> sad_key" where
  "key_of off m =
     (le32_at (m_bytes m) off,
      if l3_ipv4 m then take 4 (drop 16 (m_bytes m)) else take 16 (drop 24 (m_bytes m)),
      if l3_ipv4 m then take 4 (drop 12 (m_bytes m)) else take 16 (drop 8 (m_bytes m)))"

definition family_db :: "'d ipsec_sad \<Rightarrow> mbuf \<Rightarrow> 'd option" where
  "family_db sad m = (if l3_ipv4 m then sad_v4 sad else sad_v6 sad)"

definition sad_ref :: "'d sad_api \<Rightarrow> ipsec_sa list \<Rightarrow> 'd ipsec_sad \<Rightarrow> nat \<Rightarrow> mbuf \<Rightarrow> nat option" where
  "sad_ref api sas sad off m =
     (case family_db sad m of
        None \<Rightarrow> None
      | Some db \<Rightarrow>
          (case sad_find api db (key_of off m) of
             Some p \<Rightarrow> if cmp_sa_key (sas ! p) (l3_ipv4 m) (m_bytes m) then Some p else None
           | None \<Rightarrow> None))"

definition sad_fits :: "'d ipsec_sad \<Rightarrow> nat \<Rightarrow> mbuf \<Rightarrow> bool" where
  "sad_fits sad off m \<longleftrightarrow>
     off + 4 \<le> pkt_len m \<and> (if l3_ipv4 m then 20 else 40) \<le> pkt_len m \<and> family_db sad m \<noteq> None"

text \<open>What one packet's probe decides, on either outcome.\<close>

definition probe_ok :: "'d sad_api \<Rightarrow> ipsec_sa list \<Rightarrow> 'd ipsec_sad \<Rightarrow> nat \<Rightarrow> mbuf \<Rightarrow> sad_probe \<Rightarrow> bool" where
  "probe_ok api sas sad off m p \<longleftrightarrow>
     (case p of Hit q \<Rightarrow> sad_ref api sas sad off m = Some q
      | Miss4 k \<Rightarrow> l3_ipv4 m \<and> k = key_of off m
      | Miss6 k \<Rightarrow> \<not> l3_ipv4 m \<and> k = key_of off m)"

lemma cache_hit_ref:
  assumes "cache_ok api sas (family_db sad m) msk c" and "msk \<noteq> 0"
    and "c ! unat (w AND msk) = Some p" and "spi (sas ! p) = bswap32 (le32_at (m_bytes m) off)"
    and "cmp_sa_key (sas ! p) (l3_ipv4 m) (m_bytes m)"
  shows "sad_ref api sas sad off m = Some p"
proof -
  obtain db where "family_db sad m = Some db"
    and "\<forall>x. fst x = bswap32 (spi (sas ! p)) \<longrightarrow> sad_find api db x = Some p"
    using cache_okD(2) [OF assms(1-3)] by blast
  then show ?thesis
    using assms(4,5) by (simp add: sad_ref_def key_of_def)
qed

lemma sad_probe1_ok:
  assumes "sad_inv api sas sad cache" and "sad_fits sad (l3_len m + udp) m"
  shows "\<exists>p. sad_probe1 cache sas udp m = Inr p \<and> probe_ok api sas sad (l3_len m + udp) m p"
proof (cases "l3_ipv4 m")
  case True
  have c: "cache_ok api sas (family_db sad m) (c_mask cache) (c_v4 cache)"
    using assms(1) True by (simp add: sad_inv_def family_db_def)
  show ?thesis
    using assms(2) True cache_hit_ref [OF c] unfolding sad_fits_def sad_probe1_def
    by (fastforce simp: Let_def probe_ok_def key_of_def split: option.splits)
next
  case False
  have c: "cache_ok api sas (family_db sad m) (c_mask cache) (c_v6 cache)"
    using assms(1) False by (simp add: sad_inv_def family_db_def)
  show ?thesis
    using assms(2) False cache_hit_ref [OF c] unfolding sad_fits_def sad_probe1_def
    by (fastforce simp: Let_def probe_ok_def key_of_def split: option.splits)
qed

text \<open>The reference of the whole burst: \<open>sad_ref\<close> at each packet's offset.\<close>

definition sad_spec :: "'d sad_api \<Rightarrow> ipsec_sa list \<Rightarrow> 'd ipsec_sad \<Rightarrow> mbuf list \<Rightarrow> nat option list" where
  "sad_spec api sas sad pkts = map2 (sad_ref api sas sad) (esp_offs 0 pkts) pkts"

definition burst_fits :: "'d ipsec_sad \<Rightarrow> nat \<Rightarrow> mbuf list \<Rightarrow> bool" where
  "burst_fits sad udp pkts \<longleftrightarrow> list_all2 (sad_fits sad) (esp_offs udp pkts) pkts"

lemma sad_scan_ok:
  assumes "sad_inv api sas sad cache" and "burst_fits sad udp pkts"
  shows "\<exists>ps. sad_scan cache sas udp pkts = Inr ps \<and>
    list_all2 (\<lambda>p om. probe_ok api sas sad (fst om) (snd om) p) ps (zip (esp_offs udp pkts) pkts)"
  using assms(2)
proof (induction pkts arbitrary: udp)
  case (Cons m ms)
  let ?u = "if esp_in_udp m then 8 else udp"
  have f: "sad_fits sad (l3_len m + ?u) m" and g: "burst_fits sad ?u ms"
    using Cons.prems by (simp_all add: burst_fits_def Let_def del: if_split split del: if_split)
  obtain p where "sad_probe1 cache sas ?u m = Inr p" "probe_ok api sas sad (l3_len m + ?u) m p"
    using sad_probe1_ok [OF assms(1) f] by blast
  moreover obtain ps where "sad_scan cache sas ?u ms = Inr ps"
    "list_all2 (\<lambda>p om. probe_ok api sas sad (fst om) (snd om) p) ps (zip (esp_offs ?u ms) ms)"
    using Cons.IH [OF g] by blast
  ultimately show ?case by (simp add: Let_def split del: if_split)
qed simp

lemma sad_results_ok:
  assumes "list_all2 (\<lambda>p om. probe_ok api sas sad (fst om) (snd om) p) ps (zip offs ms)"
    and "list_all2 (sad_fits sad) offs ms"
  shows "sad_results api sas sad ps ms = Inr (map2 (sad_ref api sas sad) offs ms)"
  using assms(2,1)
proof (induction offs ms arbitrary: ps rule: list_all2_induct)
  case Nil
  then show ?case by simp
next
  case (Cons off offs m ms)
  then obtain p ps' where ps: "ps = p # ps'" and pr: "probe_ok api sas sad off m p"
    and "list_all2 (\<lambda>p om. probe_ok api sas sad (fst om) (snd om) p) ps' (zip offs ms)"
    by (auto simp: list_all2_Cons2)
  with Cons.IH have rest: "sad_results api sas sad ps' ms = Inr (map2 (sad_ref api sas sad) offs ms)" by blast
  show ?case
    using pr \<open>sad_fits sad off m\<close> rest unfolding ps probe_ok_def sad_fits_def
    by (auto simp: sad_resolve_def sad_ref_def family_db_def split: sad_probe.splits if_splits option.splits)
qed

text \<open>What the cache learns from a burst was found in the database of its family.\<close>

lemma sad_ref_found:
  "sad_ref api sas sad off m = Some q \<Longrightarrow>
     \<exists>db. family_db sad m = Some db \<and> sad_find api db (key_of off m) = Some q \<and>
       cmp_sa_key (sas ! q) (l3_ipv4 m) (m_bytes m)"
  by (auto simp: sad_ref_def split: option.splits if_splits)

lemma missed_Cons:
  "missed fam (p # ps) (r # rs) =
     (case (p, r) of
        (Miss4 _, Some q) \<Rightarrow> if fam then [q] else []
      | (Miss6 _, Some q) \<Rightarrow> if fam then [] else [q]
      | _ \<Rightarrow> []) @ missed fam ps rs"
  by (simp add: missed_def)

lemma missed_found:
  assumes "list_all2 (\<lambda>p om. probe_ok api sas sad (fst om) (snd om) p) ps (zip offs ms)"
    and "length offs = length ms"
    and "q \<in> set (missed fam ps (map2 (sad_ref api sas sad) offs ms))"
  shows "\<exists>db x. (if fam then sad_v4 sad else sad_v6 sad) = Some db \<and> sad_find api db x = Some q"
  using assms(2,1,3)
proof (induction offs ms arbitrary: ps rule: list_induct2)
  case (Cons off offs m ms)
  then obtain p ps' where ps: "ps = p # ps'" and pr: "probe_ok api sas sad off m p"
    and l: "list_all2 (\<lambda>p om. probe_ok api sas sad (fst om) (snd om) p) ps' (zip offs ms)"
    by (auto simp: list_all2_Cons2)
  show ?case
  proof (cases "q \<in> set (missed fam ps' (map2 (sad_ref api sas sad) offs ms))")
    case True
    with Cons.IH l show ?thesis by blast
  next
    case False
    with Cons.prems(2) have "sad_ref api sas sad off m = Some q \<and> fam = l3_ipv4 m"
      using pr unfolding ps probe_ok_def
      by (auto simp: missed_Cons split: sad_probe.splits option.splits if_splits)
    then show ?thesis by (auto dest!: sad_ref_found simp: family_db_def simp del: split_paired_Ex)
  qed
qed (simp add: missed_def)

lemma length_esp_offs [simp]: "length (esp_offs udp ms) = length ms"
  by (induction ms arbitrary: udp) (auto simp: Let_def)

lemma cache_ok_missed:
  assumes "cache_ok api sas d msk c" and "db_ok api sas d"
    and "\<And>q. q \<in> set qs \<Longrightarrow> \<exists>db x. d = Some db \<and> sad_find api db x = Some q"
  shows "cache_ok api sas d msk (fold (sa_cache_update sas msk) qs c)"
proof (cases d)
  case None
  then have "qs = []" using assms(3) by (cases qs) auto
  then show ?thesis using assms(1) by simp
next
  case (Some db)
  then show ?thesis using assms by (auto intro!: cache_ok_fold)
qed

text \<open>
  C8. The per-core cache in front of the security association database is invisible: on a burst whose
  packets are long enough and whose families have a database, \<open>sad_lookup\<close> returns for every packet
  exactly what a lookup of the database alone returns, with the tunnel addresses compared, whatever
  the cache held; and it leaves the cache coherent with the database.
\<close>

theorem sad_lookup_cache_transparent:
  assumes "sad_inv api sas sad cache" and "burst_fits sad 0 pkts"
  shows "\<exists>cache'. sad_lookup api sas sad cache pkts = Inr (sad_spec api sas sad pkts, cache') \<and>
     sad_inv api sas sad cache'"
proof -
  let ?offs = "esp_offs 0 pkts"
  obtain ps where sc: "sad_scan cache sas 0 pkts = Inr ps"
    and pr: "list_all2 (\<lambda>p om. probe_ok api sas sad (fst om) (snd om) p) ps (zip ?offs pkts)"
    using sad_scan_ok [OF assms] by blast
  have rs: "sad_results api sas sad ps pkts = Inr (sad_spec api sas sad pkts)"
    unfolding sad_spec_def using pr assms(2) by (intro sad_results_ok) (simp_all add: burst_fits_def)
  note found4 = missed_found [where fam = True, OF pr length_esp_offs, simplified]
    and found6 = missed_found [where fam = False, OF pr length_esp_offs, simplified]
  have "cache_ok api sas (sad_v4 sad) (c_mask cache)
      (fold (sa_cache_update sas (c_mask cache)) (missed True ps (sad_spec api sas sad pkts)) (c_v4 cache))"
    using assms(1) found4 unfolding sad_inv_def sad_spec_def by (intro cache_ok_missed) simp_all
  moreover have "cache_ok api sas (sad_v6 sad) (c_mask cache)
      (fold (sa_cache_update sas (c_mask cache)) (missed False ps (sad_spec api sas sad pkts)) (c_v6 cache))"
    using assms(1) found6 unfolding sad_inv_def sad_spec_def by (intro cache_ok_missed) simp_all
  ultimately show ?thesis
    using assms(1) unfolding sad_lookup_def by (simp add: sc rs sad_inv_def)
qed

text \<open>A tunnel SA, its database with one entry and a cold cache of two entries, for the witnesses.\<close>

definition sad_sample_sa :: ipsec_sa where
  "sad_sample_sa = zero_sa\<lparr>spi := 5, flags := IP4_TUNNEL, src := zero_addr\<lparr>ip4 := 0x0105A8C0\<rparr>,
     dst := zero_addr\<lparr>ip4 := 0x0205A8C0\<rparr>\<rparr>"

definition sample_esp4 :: mbuf where
  "sample_esp4 = \<lparr>m_bytes = [0x45,0,0,28, 0,0,0,0, 64,50,0,0, 0xC0,0xA8,5,1, 0xC0,0xA8,5,2, 0,0,0,5, 0,0,0,1],
     m_port = 0, rx_sec_offload = False, rx_sec_failed = False, tx_sec_offload = False,
     inner_esp_next_proto = 0, l4_type = L4_OTHER, tunnel_esp = True,
     icb = \<lparr>cb_salt = 0, cb_iv = [], cb_cnt = 0\<rparr>, aad = [], l3_len = 20, l3_ipv4 = True, esp_in_udp = False\<rparr>"

definition sample_sad :: "(u32 \<times> nat) list ipsec_sad" where
  "sample_sad = \<lparr>sad_v4 = Some [(bswap32 5, 0)], sad_v6 = None\<rparr>"

definition cold_cache :: sad_cache where
  "cold_cache = \<lparr>c_v4 = [None, None], c_v6 = [None, None], c_mask = 1\<rparr>"

lemma sample_sad_inv: "sad_inv map_sad [sad_sample_sa] sample_sad cold_cache"
  by (auto simp: sad_inv_def db_ok_def cache_ok_def sample_sad_def cold_cache_def map_sad_def sad_sample_sa_def)

lemma sad_lookup_cache_transparent_witness:
  "\<exists>cache'. sad_lookup map_sad [sad_sample_sa] sample_sad cold_cache [sample_esp4, sample_esp4] =
       Inr ([Some 0, Some 0], cache') \<and> sad_inv map_sad [sad_sample_sa] sample_sad cache'"
proof -
  have f: "burst_fits sample_sad 0 [sample_esp4, sample_esp4]"
    by (simp add: burst_fits_def sad_fits_def sample_esp4_def pkt_len_def family_db_def sample_sad_def)
  have "sad_spec map_sad [sad_sample_sa] sample_sad [sample_esp4, sample_esp4] = [Some 0, Some 0]"
    by code_simp
  then show ?thesis
    using sad_lookup_cache_transparent [OF sample_sad_inv f] by (simp only:)
qed

section \<open>Adding keeps the database sound\<close>

definition db_find :: "'d sad_api \<Rightarrow> 'd option \<Rightarrow> sad_key \<Rightarrow> nat option" where
  "db_find api d x = (case d of None \<Rightarrow> None | Some db \<Rightarrow> sad_find api db x)"

lemma sad_insert_ok:
  assumes "sad_api_ok api" and "sad_insert api n d w p = Inr d'"
    and "db_ok api sas d" and "p < length sas" and "spi (sas ! p) = w"
  shows "db_ok api sas d'"
    and "db_find api d' x = (if fst x = bswap32 w then Some p else db_find api d x)"
    and "fst x = bswap32 w \<Longrightarrow> db_find api d x = None"
proof -
  obtain db db' where d: "d = Some db" and d': "d' = Some db'"
    and new: "sad_find api db (bswap32 w, replicate n 0, replicate n 0) = None"
    and add: "sad_add api db (bswap32 w) p = Inr db'"
    using assms(2) by (auto simp: sad_insert_def split: option.splits if_splits sum.splits)
  have f: "sad_find api db' x = (if fst x = bswap32 w then Some p else sad_find api db x)" for x
    using sad_api_okD(2) [OF assms(1) add] .
  show "db_ok api sas d'"
    using assms(3-5) unfolding d d' db_ok_def by (auto simp: f split: if_splits)
  show "db_find api d' x = (if fst x = bswap32 w then Some p else db_find api d x)"
    by (simp add: db_find_def d d' f)
  show "fst x = bswap32 w \<Longrightarrow> db_find api d x = None"
    using assms(3) new unfolding d db_ok_def db_find_def
    by (metis fst_conv option.simps(5))
qed

lemma sad_insert_present:
  assumes "db_ok api sas d" and "db_find api d x \<noteq> None" and "fst x = bswap32 w"
  shows "sad_insert api n d w p = Inl EEXIST"
proof -
  obtain db where d: "d = Some db" using assms(2) by (cases d) (auto simp: db_find_def)
  have "sad_find api db (bswap32 w, replicate n 0, replicate n 0) = sad_find api db x"
    using assms(1,3) unfolding d db_ok_def by (metis fst_conv)
  then show ?thesis using assms(2) by (simp add: sad_insert_def d db_find_def)
qed

text \<open>The families whose database an SA enters: its tunnel's, or those with a policy for its SPI.\<close>

definition enters4 :: "ipsec_sa \<Rightarrow> bool \<Rightarrow> bool" where
  "enters4 sa p4 \<longleftrightarrow> without_transport_version (flags sa) = IP4_TUNNEL \<or>
     without_transport_version (flags sa) = TRANSPORT \<and> p4"

definition enters6 :: "ipsec_sa \<Rightarrow> bool \<Rightarrow> bool" where
  "enters6 sa p6 \<longleftrightarrow> without_transport_version (flags sa) = IP6_TUNNEL \<or>
     without_transport_version (flags sa) = TRANSPORT \<and> p6"

definition sad_insert_if :: "bool \<Rightarrow> 'd sad_api \<Rightarrow> nat \<Rightarrow> 'd option \<Rightarrow> u32 \<Rightarrow> nat \<Rightarrow> errno + 'd option" where
  "sad_insert_if b api n d w p = (if b then sad_insert api n d w p else Inr d)"

lemma ipsec_sad_add_cases:
  "ipsec_sad_add api p4 p6 sa p sad =
     (case sad_insert_if (enters4 sa p4) api 4 (sad_v4 sad) (spi sa) p of
        Inl e \<Rightarrow> (sad, Some e)
      | Inr d4 \<Rightarrow>
          (case sad_insert_if (enters6 sa p6) api 16 (sad_v6 sad) (spi sa) p of
             Inl e \<Rightarrow> (sad\<lparr>sad_v4 := d4\<rparr>, Some e)
           | Inr d6 \<Rightarrow> (sad\<lparr>sad_v4 := d4, sad_v6 := d6\<rparr>, None)))"
  by (cases sad) (auto simp: ipsec_sad_add_def enters4_def enters6_def sad_insert_if_def Let_def split: sum.splits)

lemma sad_insert_if_ok:
  assumes "sad_insert_if b api n d w p = Inr d'" and "sad_api_ok api"
    and "db_ok api sas d" and "p < length sas" and "spi (sas ! p) = w"
  shows "db_ok api sas d' \<and>
    (\<forall>x. db_find api d' x = (if b \<and> fst x = bswap32 w then Some p else db_find api d x) \<and>
       (fst x = bswap32 w \<longrightarrow> b \<longrightarrow> db_find api d x = None))"
proof (cases b)
  case True
  with assms(1) have "sad_insert api n d w p = Inr d'" by (simp add: sad_insert_if_def)
  from sad_insert_ok [OF assms(2) this assms(3-5)] True show ?thesis by (simp del: split_paired_All)
next
  case False
  then show ?thesis using assms(1,3) by (simp add: sad_insert_if_def)
qed

text \<open>
  C34. Adding an inbound SA keeps both databases sound (every entry is an SA of the context with the
  entry's SPI, and entries are keyed by SPI alone), also when it fails. When it succeeds, exactly
  the entered families find the new SA under its SPI, which no SA had there before, and every
  other SPI is found as before. An SPI already present in the family of the SA is refused with
  \<open>EEXIST\<close> and leaves the databases as they were.
\<close>

theorem ipsec_sad_add_sound:
  assumes "sad_api_ok api" and "db_ok api sas (sad_v4 sad)" and "db_ok api sas (sad_v6 sad)"
    and "p < length sas" and "ipsec_sad_add api p4 p6 (sas ! p) p sad = (sad', r)"
  shows "db_ok api sas (sad_v4 sad') \<and> db_ok api sas (sad_v6 sad') \<and>
    (r = None \<longrightarrow> (\<forall>x.
       db_find api (sad_v4 sad') x =
         (if enters4 (sas ! p) p4 \<and> fst x = bswap32 (spi (sas ! p)) then Some p else db_find api (sad_v4 sad) x) \<and>
       db_find api (sad_v6 sad') x =
         (if enters6 (sas ! p) p6 \<and> fst x = bswap32 (spi (sas ! p)) then Some p else db_find api (sad_v6 sad) x) \<and>
       (fst x = bswap32 (spi (sas ! p)) \<longrightarrow>
          (enters4 (sas ! p) p4 \<longrightarrow> db_find api (sad_v4 sad) x = None) \<and>
          (enters6 (sas ! p) p6 \<longrightarrow> db_find api (sad_v6 sad) x = None)))) \<and>
    (\<forall>x. enters4 (sas ! p) p4 \<and> fst x = bswap32 (spi (sas ! p)) \<and> db_find api (sad_v4 sad) x \<noteq> None \<longrightarrow>
       r = Some EEXIST \<and> sad' = sad)"
proof -
  have pres: "r = Some EEXIST \<and> sad' = sad"
    if "enters4 (sas ! p) p4" "fst x = bswap32 (spi (sas ! p))" "db_find api (sad_v4 sad) x \<noteq> None" for x
    using assms(5) that sad_insert_present [OF assms(2) that(3,2)]
    by (simp add: ipsec_sad_add_cases sad_insert_if_def)
  show ?thesis
  proof (cases "sad_insert_if (enters4 (sas ! p) p4) api 4 (sad_v4 sad) (spi (sas ! p)) p")
    case (Inl e)
    then have "sad' = sad" "r = Some e" using assms(5) by (simp_all add: ipsec_sad_add_cases)
    then show ?thesis using assms(2,3) pres by blast
  next
    case d4: (Inr d4)
    note i4 = sad_insert_if_ok [OF d4 assms(1,2,4) refl]
    show ?thesis
    proof (cases "sad_insert_if (enters6 (sas ! p) p6) api 16 (sad_v6 sad) (spi (sas ! p)) p")
      case (Inl e)
      with d4 assms(5) have "sad' = sad\<lparr>sad_v4 := d4\<rparr>" "r = Some e" by (simp_all add: ipsec_sad_add_cases)
      then show ?thesis using i4 assms(3) pres by auto
    next
      case d6: (Inr d6)
      note i6 = sad_insert_if_ok [OF d6 assms(1,3,4) refl]
      from d4 d6 assms(5) have r: "sad' = sad\<lparr>sad_v4 := d4, sad_v6 := d6\<rparr>" "r = None"
        by (simp_all add: ipsec_sad_add_cases)
      then have v: "sad_v4 sad' = d4" "sad_v6 sad' = d6" by simp_all
      show ?thesis unfolding v using i4 i6 pres r(2) by blast
    qed
  qed
qed

lemma ipsec_sad_add_sound_witness:
  "(\<lambda>(sad', r). db_find map_sad (sad_v4 sad') (bswap32 5, [], []) = Some 0 \<and> r = None)
     (ipsec_sad_add map_sad False False sad_sample_sa 0 \<lparr>sad_v4 = Some [], sad_v6 = None\<rparr>)"
proof -
  let ?s = "\<lparr>sad_v4 = Some [], sad_v6 = None\<rparr> :: (u32 \<times> nat) list ipsec_sad"
  have a: "ipsec_sad_add map_sad False False ([sad_sample_sa] ! 0) 0 ?s = (\<lparr>sad_v4 = Some [(bswap32 5, 0)], sad_v6 = None\<rparr>, None)"
    by code_simp
  have d: "db_ok map_sad [sad_sample_sa] (sad_v4 ?s)" "db_ok map_sad [sad_sample_sa] (sad_v6 ?s)"
    by (simp_all add: db_ok_def map_sad_def)
  have "enters4 ([sad_sample_sa] ! 0) False \<and> spi ([sad_sample_sa] ! 0) = 5" by code_simp
  then show ?thesis
    using ipsec_sad_add_sound [OF map_sad_ok d _ a, THEN conjunct2, THEN conjunct2, THEN conjunct1] a by simp
qed

section \<open>The lookups of the SA context\<close>

text \<open>\<open>priv\<close> is the SA pointer saved in the packet, \<open>None\<close> when there is none.\<close>

definition inbound_sa_check :: "ipsec_sa list \<Rightarrow> ipsec_sa option \<Rightarrow> nat \<Rightarrow> errno + bool" where
  "inbound_sa_check sas priv sa_idx =
     (case priv of
        Some s \<Rightarrow> (if sa_idx < length sas then Inr (spi (sas ! sa_idx) = spi s) else Inl UB)
      | None \<Rightarrow> Inr False)"

text \<open>A looked-up SA is its index and the fallback mark, the least bit of the pointer in C.\<close>

definition inbound_sa_lookup ::
  "'d sad_api \<Rightarrow> ipsec_sa list \<Rightarrow> 'd ipsec_sad \<Rightarrow> sad_cache \<Rightarrow> mbuf list \<Rightarrow>
     errno + (nat \<times> bool) option list \<times> sad_cache" where
  "inbound_sa_lookup api sas sad cache pkts =
     (case sad_lookup api sas sad cache pkts of
        Inl e \<Rightarrow> Inl e
      | Inr (rs, cache') \<Rightarrow>
          Inr (map2 (\<lambda>r m. map_option (\<lambda>p. (p, \<not> rx_sec_offload m \<and> 0 < fallback_sessions (sas ! p))) r) rs pkts,
               cache'))"

definition outbound_sa_lookup :: "ipsec_sa list \<Rightarrow> nat list \<Rightarrow> errno + nat list" where
  "outbound_sa_lookup sas idxs = (if list_all (\<lambda>i. i < length sas) idxs then Inr idxs else Inl UB)"



end
