(* ===== verification/Sessions.thy ===== *)
theory Sessions
  imports SA_Types
begin

text \<open>
  Security sessions, \<open>ipsec.c\<close> up to \<open>create_ipsec_esp_flow\<close>: the configuration handed to a crypto or
  network device for an SA, and the flow rules that steer its packets. The devices, their
  capabilities and the rule engine are parameters (\<open>device_env\<close>); a session handle is a number,
  \<open>None\<close> for NULL.
\<close>

section \<open>Session configuration\<close>

datatype sa_mode = MODE_UNSET | MODE_TRANSPORT | MODE_TUNNEL

text \<open>The tunnel addresses of a configuration, with the TTL or hop limit.\<close>

datatype tunnel_conf = Tun_unset | Tun4 u8 u32 u32 | Tun6 u8 "u8 list" "u8 list"

record security_conf =
  sc_action :: action_type
  sc_spi :: u32
  sc_salt :: u32
  sc_direction :: sa_dir
  sc_mode :: sa_mode
  sc_tunnel :: tunnel_conf
  sc_window :: u32
  sc_opt_esn :: u32
  sc_esn :: u64
  sc_opt_udp :: u8
  sc_sport :: u16
  sc_dport :: u16
  sc_userdata_sa :: bool

record app_sa_prm =
  prm_enable :: u32
  prm_window_size :: u32
  prm_enable_esn :: u32
  prm_cache_sz :: u32
  prm_flags :: u64

definition IPDEFTTL :: u8 where "IPDEFTTL = 64"

text \<open>The option fields \<open>esn\<close> and \<open>udp_encap\<close> are single bits.\<close>

definition set_ipsec_conf :: "app_sa_prm \<Rightarrow> ipsec_sa \<Rightarrow> security_conf \<Rightarrow> security_conf" where
  "set_ipsec_conf prm sa c =
     (let c1 = (if sc_mode c = MODE_TUNNEL then
                  if is_ip4_tunnel (flags sa) then c\<lparr>sc_tunnel := Tun4 IPDEFTTL (ip4 (src sa)) (ip4 (dst sa))\<rparr>
                  else if is_ip6_tunnel (flags sa) then c\<lparr>sc_tunnel := Tun6 IPDEFTTL (ip6 (src sa)) (ip6 (dst sa))\<rparr>
                  else c
                else c)
      in c1\<lparr>sc_window := prm_window_size prm, sc_opt_esn := prm_enable_esn prm AND 1,
            sc_opt_udp := udp_encap sa AND 1\<rparr>)"

definition base_conf :: "ipsec_sa \<Rightarrow> action_type \<Rightarrow> sa_mode \<Rightarrow> security_conf" where
  "base_conf sa ty md =
     \<lparr>sc_action = ty, sc_spi = spi sa, sc_salt = salt sa, sc_direction = direction sa, sc_mode = md,
      sc_tunnel = Tun_unset, sc_window = 0, sc_opt_esn = 0, sc_esn = 0, sc_opt_udp = 0,
      sc_sport = 0, sc_dport = 0, sc_userdata_sa = False\<rparr>"

section \<open>Flow rules\<close>

datatype flow_item = F_END | F_ETH | F_IPV4 u32 u32 | F_IPV6 "u8 list" "u8 list" | F_UDP u16 u16 | F_ESP u32

datatype flow_action = A_END | A_SECURITY "nat option" | A_RSS nat | A_QUEUE nat | A_PASSTHRU

text \<open>The arrays of the SA that a rule is built in, and the rule last created from them.\<close>

record sa_flow =
  fl_pattern :: "flow_item list"
  fl_action :: "flow_action list"
  fl_egress :: bool
  fl_ingress :: bool
  fl_created :: bool

definition zero_flow :: sa_flow where
  "zero_flow = \<lparr>fl_pattern = replicate 5 F_END, fl_action = replicate 3 A_END, fl_egress = False,
     fl_ingress = False, fl_created = False\<rparr>"

text \<open>What a device reads of the two arrays: the entries before the first end marker.\<close>

definition rule_items :: "sa_flow \<Rightarrow> flow_item list" where
  "rule_items fl = takeWhile (\<lambda>i. i \<noteq> F_END) (fl_pattern fl)"

definition rule_actions :: "sa_flow \<Rightarrow> flow_action list" where
  "rule_actions fl = takeWhile (\<lambda>a. a \<noteq> A_END) (fl_action fl)"

definition set_item :: "nat \<Rightarrow> flow_item \<Rightarrow> sa_flow \<Rightarrow> sa_flow" where
  "set_item i x fl = fl\<lparr>fl_pattern := (fl_pattern fl)[i := x]\<rparr>"

definition set_action :: "nat \<Rightarrow> flow_action \<Rightarrow> sa_flow \<Rightarrow> sa_flow" where
  "set_action i x fl = fl\<lparr>fl_action := (fl_action fl)[i := x]\<rparr>"

section \<open>The devices\<close>

record sec_cap =
  cap_action :: action_type
  cap_ipsec :: bool
  cap_mode :: sa_mode
  cap_dir :: sa_dir
  cap_hw_trailer :: bool
  cap_need_mdata :: bool

record device_env =
  env_prm :: app_sa_prm
  cdev_map :: "cipher_alg \<times> auth_alg \<times> aead_alg \<Rightarrow> nat option"
  cpu_crypto :: "nat \<Rightarrow> bool"
  sym_session :: "nat \<Rightarrow> ipsec_sa \<Rightarrow> nat option"
  cdev_sec_session :: "nat \<Rightarrow> security_conf \<Rightarrow> nat option"
  eth_sec_ctx :: "u16 \<Rightarrow> bool"
  eth_sec_session :: "u16 \<Rightarrow> security_conf \<Rightarrow> nat option"
  eth_sec_caps :: "u16 \<Rightarrow> sec_cap list option"
  rx_def_flow :: "u16 \<Rightarrow> bool"
  eth_rx_queues :: "u16 \<Rightarrow> errno + nat"
  eth_rss_ok :: "u16 \<Rightarrow> bool"
  flow_validate :: "u16 \<Rightarrow> sa_flow \<Rightarrow> bool"
  flow_create :: "u16 \<Rightarrow> sa_flow \<Rightarrow> bool"

section \<open>Sessions on a crypto device\<close>

text \<open>
  \<open>create_lookaside_session\<close> for the primary (\<open>fb = False\<close>) or fallback session of an SA.
  A symmetric session is stored even when the library returned NULL.
\<close>

definition session_of :: "bool \<Rightarrow> ipsec_sa \<Rightarrow> rte_ipsec_session" where
  "session_of fb sa = (if fb then fallback sa else primary sa)"

definition set_session :: "bool \<Rightarrow> rte_ipsec_session \<Rightarrow> ipsec_sa \<Rightarrow> ipsec_sa" where
  "set_session fb s sa = (if fb then sa\<lparr>fallback := s\<rparr> else sa\<lparr>primary := s\<rparr>)"

definition create_lookaside_session :: "device_env \<Rightarrow> bool \<Rightarrow> ipsec_sa \<Rightarrow> errno + ipsec_sa" where
  "create_lookaside_session env fb sa =
     (case cdev_map env (cipher_algo sa, auth_algo sa, aead_algo sa) of
        None \<Rightarrow> Inl EFAIL
      | Some q \<Rightarrow>
          (let ips = session_of fb sa in
           if ses_type ips \<notin> {TYPE_NONE, TYPE_CPU_CRYPTO} then
             if ses_type ips = TYPE_LOOKASIDE_PROTOCOL then
               (case cdev_sec_session env q (set_ipsec_conf (env_prm env) sa
                       (base_conf sa (ses_type ips) (if is_tunnel (flags sa) then MODE_TUNNEL else MODE_TRANSPORT))) of
                  None \<Rightarrow> Inl EFAIL
                | Some h \<Rightarrow> Inr (set_session fb (ips\<lparr>ses := Some h\<rparr>) sa\<lparr>cdev_id_qp := of_nat q\<rparr>))
             else Inl EFAIL
           else if ses_type ips = TYPE_CPU_CRYPTO \<and> \<not> cpu_crypto env q then Inl ENOTSUP
           else Inr (set_session fb (ips\<lparr>ses := sym_session env q sa\<rparr>) sa\<lparr>cdev_id_qp := of_nat q\<rparr>)))"

section \<open>Sessions on a network device\<close>

definition inline_conf :: "ipsec_sa \<Rightarrow> action_type \<Rightarrow> errno + security_conf" where
  "inline_conf sa ty =
     (let f = flags sa; c0 = base_conf sa ty MODE_UNSET;
          tun = (\<lambda>c. if is_ip4 f then Some (c\<lparr>sc_tunnel := Tun4 0 (ip4 (src sa)) (ip4 (dst sa))\<rparr>)
                     else if is_ip6 f then Some (c\<lparr>sc_tunnel := Tun6 0 (ip6 (src sa)) (ip6 (dst sa))\<rparr>)
                     else None);
          r = (if is_transport f then
                 (let c = c0\<lparr>sc_mode := MODE_TRANSPORT\<rparr> in Inr (case tun c of Some c' \<Rightarrow> c' | None \<Rightarrow> c))
               else if is_tunnel f then
                 (case tun (c0\<lparr>sc_mode := MODE_TUNNEL\<rparr>) of Some c' \<Rightarrow> Inr c' | None \<Rightarrow> Inl EFAIL)
               else Inr c0);
          udp = (\<lambda>c. if udp_encap sa \<noteq> 0 then
                       c\<lparr>sc_opt_udp := 1, sc_sport := bswap16 (udp_sport sa), sc_dport := bswap16 (udp_dport sa)\<rparr>
                     else c);
          esn' = (\<lambda>c. if 0 < esn sa then c\<lparr>sc_opt_esn := 1, sc_esn := esn sa\<rparr> else c)
      in case r of Inl e \<Rightarrow> Inl e | Inr c \<Rightarrow> Inr (esn' (udp c)))"

text \<open>The walk over the capability array, which the entry \<open>TYPE_NONE\<close> ends.\<close>

fun find_cap :: "action_type \<Rightarrow> sa_mode \<Rightarrow> sa_dir \<Rightarrow> sec_cap list \<Rightarrow> sec_cap option" where
  "find_cap ty md d [] = None"
| "find_cap ty md d (c # cs) =
     (if cap_action c = TYPE_NONE then None
      else if cap_action c = ty \<and> cap_ipsec c \<and> cap_mode c = md \<and> cap_dir c = d then Some c
      else find_cap ty md d cs)"

definition with_cap :: "nat \<Rightarrow> sec_cap \<Rightarrow> rte_ipsec_session \<Rightarrow> rte_ipsec_session" where
  "with_cap h c ips = ips\<lparr>ses := Some h, hw_trailer := cap_hw_trailer c, need_mdata := cap_need_mdata c\<rparr>"

text \<open>The pattern of an inline SA: Ethernet, IP with its addresses, UDP if encapsulated, ESP with the SPI.\<close>

definition inline_pattern :: "ipsec_sa \<Rightarrow> sa_flow \<Rightarrow> sa_flow" where
  "inline_pattern sa fl =
     (let f1 = set_item 0 F_ETH fl;
          f2 = (if is_ip6 (flags sa) then set_item 1 (F_IPV6 (ip6 (src sa)) (ip6 (dst sa))) f1
                else if is_ip4 (flags sa) then set_item 1 (F_IPV4 (ip4 (src sa)) (ip4 (dst sa))) f1
                else f1)
      in if udp_encap sa \<noteq> 0 then
           set_item 4 F_END (set_item 3 (F_ESP (bswap32 (spi sa)))
             (set_item 2 (F_UDP (bswap16 (udp_sport sa)) (bswap16 (udp_dport sa))) f2))
         else set_item 3 F_END (set_item 2 (F_ESP (bswap32 (spi sa))) f2))"

definition install_flow :: "device_env \<Rightarrow> u16 \<Rightarrow> sa_flow \<Rightarrow> errno option \<times> sa_flow" where
  "install_flow env port fl =
     (if flow_create env port fl then (None, fl\<lparr>fl_created := True\<rparr>) else (Some EFAIL, fl\<lparr>fl_created := False\<rparr>))"

text \<open>
  The actions: hand the packet to the session; inbound, spread over the queues by RSS, or else send
  to queue 0, or else nothing. The outcome of the queue attempt is not looked at.
\<close>

definition inline_actions :: "device_env \<Rightarrow> ipsec_sa \<Rightarrow> nat \<Rightarrow> bool \<Rightarrow> sa_flow \<Rightarrow> errno option \<times> sa_flow" where
  "inline_actions env sa h hw fl =
     (let p = portid sa;
          f = (set_action 1 A_END (set_action 0 (A_SECURITY (Some h)) fl))
                \<lparr>fl_egress := (direction sa = EGRESS), fl_ingress := (direction sa = INGRESS)\<rparr>
      in if direction sa = INGRESS then
           if rx_def_flow env p then (None, f)
           else (case eth_rx_queues env p of
                   Inl e \<Rightarrow> (Some e, f)
                 | Inr nq \<Rightarrow>
                     (let fr = set_action 1 (A_RSS nq) (set_action 2 A_END f) in
                      if \<not> eth_rss_ok env p then (Some EFAIL, fr)
                      else if flow_validate env p fr then install_flow env p fr
                      else let fe = set_action 1 A_END fr in
                        if flow_validate env p fe then install_flow env p fe else (Some EFAIL, fe)))
         else if direction sa = EGRESS \<and> hw then
           install_flow env p (set_action 2 A_END (set_action 1 A_PASSTHRU f))
         else install_flow env p f)"

definition inline_crypto_session ::
  "device_env \<Rightarrow> security_conf \<Rightarrow> ipsec_sa \<Rightarrow> sa_flow \<Rightarrow> errno option \<times> ipsec_sa \<times> sa_flow" where
  "inline_crypto_session env conf sa fl =
     (if \<not> eth_sec_ctx env (portid sa) then (Some EFAIL, sa, fl)
      else case eth_sec_session env (portid sa) conf of
        None \<Rightarrow> (Some EFAIL, sa\<lparr>primary := (primary sa)\<lparr>ses := None\<rparr>\<rparr>, fl)
      | Some h \<Rightarrow>
          (case eth_sec_caps env (portid sa) of
             None \<Rightarrow> (Some UB, sa, fl)
           | Some caps \<Rightarrow>
               (case find_cap TYPE_INLINE_CRYPTO MODE_TUNNEL (direction sa) caps of
                  None \<Rightarrow> (Some EFAIL, sa\<lparr>primary := (primary sa)\<lparr>ses := Some h\<rparr>\<rparr>, fl)
                | Some c \<Rightarrow>
                    (case inline_actions env sa h (cap_hw_trailer c) (inline_pattern sa fl) of
                       (r, fl') \<Rightarrow> (r, sa\<lparr>primary := with_cap h c (primary sa)\<rparr>, fl')))))"

definition inline_protocol_session ::
  "device_env \<Rightarrow> security_conf \<Rightarrow> ipsec_sa \<Rightarrow> errno option \<times> ipsec_sa" where
  "inline_protocol_session env conf0 sa =
     (if \<not> eth_sec_ctx env (portid sa) then (Some EFAIL, sa)
      else let conf = (set_ipsec_conf (env_prm env) sa conf0)\<lparr>sc_userdata_sa := True\<rparr> in
        case eth_sec_session env (portid sa) conf of
          None \<Rightarrow> (Some EFAIL, sa\<lparr>primary := (primary sa)\<lparr>ses := None\<rparr>\<rparr>)
        | Some h \<Rightarrow>
            (let sa1 = sa\<lparr>primary := (primary sa)\<lparr>ses := Some h\<rparr>\<rparr> in
             case eth_sec_caps env (portid sa) of
               None \<Rightarrow> (Some EFAIL, sa1)
             | Some caps \<Rightarrow>
                 (case find_cap TYPE_INLINE_PROTOCOL (sc_mode conf) (direction sa) caps of
                    None \<Rightarrow> (Some EFAIL, sa1)
                  | Some c \<Rightarrow> (None, sa\<lparr>primary := with_cap h c (primary sa)\<rparr>))))"

definition create_inline_session ::
  "device_env \<Rightarrow> ipsec_sa \<Rightarrow> sa_flow \<Rightarrow> errno option \<times> ipsec_sa \<times> sa_flow" where
  "create_inline_session env sa fl =
     (case inline_conf sa (ses_type (primary sa)) of
        Inl e \<Rightarrow> (Some e, sa, fl)
      | Inr conf \<Rightarrow>
          (if ses_type (primary sa) = TYPE_INLINE_CRYPTO then inline_crypto_session env conf sa fl
           else if ses_type (primary sa) = TYPE_INLINE_PROTOCOL then
             (case inline_protocol_session env conf sa of (r, sa') \<Rightarrow> (r, sa', fl))
           else (None, sa, fl)))"

section \<open>Flow director rules\<close>

definition create_ipsec_esp_flow :: "device_env \<Rightarrow> ipsec_sa \<Rightarrow> sa_flow \<Rightarrow> errno option \<times> sa_flow" where
  "create_ipsec_esp_flow env sa fl =
     (if direction sa = EGRESS then (Some EFAIL, fl)
      else if flags sa = TRANSPORT then (Some EFAIL, fl)
      else
        (let f0 = (set_item 0 F_ETH (set_action 0 (A_QUEUE (unat (fdir_qid sa))) fl))\<lparr>fl_egress := False, fl_ingress := True\<rparr>;
             esp = (\<lambda>f. set_item 3 F_END (set_item 2 (F_ESP (bswap32 (spi sa))) f));
             f1 = (if is_ip6 (flags sa) then esp (set_item 1 (F_IPV6 (ip6 (src sa)) (ip6 (dst sa))) f0)
                   else if is_ip4 (flags sa) then esp (set_item 1 (F_IPV4 (ip4 (src sa)) (ip4 (dst sa))) f0)
                   else f0);
             f2 = set_action 1 A_END f1
         in if flow_validate env (portid sa) f2 then install_flow env (portid sa) f2 else (Some EFAIL, f2)))"

section \<open>What the rules match\<close>

lemma find_cap_sound:
  "find_cap ty md d cs = Some c \<Longrightarrow> c \<in> set cs \<and> cap_action c = ty \<and> cap_ipsec c \<and> cap_mode c = md \<and> cap_dir c = d"
  by (induction cs) (auto split: if_splits)

lemma length_set_item [simp]:
  "length (fl_pattern (set_item i x fl)) = length (fl_pattern fl)"
  "fl_action (set_item i x fl) = fl_action fl"
  "length (fl_action (set_action i a fl)) = length (fl_action fl)"
  "fl_pattern (set_action i a fl) = fl_pattern fl"
  by (simp_all add: set_item_def set_action_def)

lemma list_upt_five: "length xs = 5 \<Longrightarrow> \<exists>a b c d e. xs = [a, b, c, d, e]"
  by (auto simp: numeral_eq_Suc length_Suc_conv)

lemma list_upt_three: "length xs = 3 \<Longrightarrow> \<exists>a b c. xs = [a, b, c]"
  by (auto simp: numeral_eq_Suc length_Suc_conv)

definition ip_item :: "ipsec_sa \<Rightarrow> flow_item" where
  "ip_item sa = (if is_ip6 (flags sa) then F_IPV6 (ip6 (src sa)) (ip6 (dst sa)) else F_IPV4 (ip4 (src sa)) (ip4 (dst sa)))"

definition sa_items :: "ipsec_sa \<Rightarrow> flow_item list" where
  "sa_items sa = F_ETH # ip_item sa #
     (if udp_encap sa \<noteq> 0 then [F_UDP (bswap16 (udp_sport sa)) (bswap16 (udp_dport sa))] else []) @
     [F_ESP (bswap32 (spi sa))]"

lemma inline_pattern_items:
  assumes "length (fl_pattern fl) = 5" and "is_ip4 (flags sa) \<or> is_ip6 (flags sa)"
  shows "rule_items (inline_pattern sa fl) = sa_items sa"
    and "fl_action (inline_pattern sa fl) = fl_action fl"
  using list_upt_five [OF assms(1)] assms(2)
  by (auto simp: inline_pattern_def Let_def set_item_def rule_items_def sa_items_def ip_item_def)

lemma install_flow_None:
  "install_flow env p fl = (None, fl') \<longleftrightarrow> flow_create env p fl \<and> fl' = fl\<lparr>fl_created := True\<rparr>"
  by (auto simp: install_flow_def)

lemma inline_actions_ok:
  assumes "inline_actions env sa h hw fl = (None, fl')" and "length (fl_action fl) = 3"
  shows "fl_pattern fl' = fl_pattern fl \<and> hd (rule_actions fl') = A_SECURITY (Some h) \<and>
     fl_egress fl' = (direction sa = EGRESS) \<and> fl_ingress fl' = (direction sa = INGRESS) \<and>
     (fl_created fl' \<or> direction sa = INGRESS \<and> rx_def_flow env (portid sa))"
  using assms(1) list_upt_three [OF assms(2)]
  by (auto simp: inline_actions_def Let_def install_flow_None set_action_def rule_actions_def
      split: if_splits sum.splits)


text \<open>A device with one capability per direction that accepts every rule, and an SA, for the witnesses.\<close>

definition sample_env :: device_env where
  "sample_env = \<lparr>env_prm = \<lparr>prm_enable = 1, prm_window_size = 64, prm_enable_esn = 0, prm_cache_sz = 128, prm_flags = 0\<rparr>,
     cdev_map = (\<lambda>_. Some 0), cpu_crypto = (\<lambda>_. False), sym_session = (\<lambda>_ _. Some 1),
     cdev_sec_session = (\<lambda>_ _. Some 2), eth_sec_ctx = (\<lambda>_. True), eth_sec_session = (\<lambda>_ _. Some 3),
     eth_sec_caps = (\<lambda>_. Some [\<lparr>cap_action = TYPE_INLINE_CRYPTO, cap_ipsec = True, cap_mode = MODE_TUNNEL,
        cap_dir = INGRESS, cap_hw_trailer = False, cap_need_mdata = True\<rparr>]),
     rx_def_flow = (\<lambda>_. False), eth_rx_queues = (\<lambda>_. Inr 4), eth_rss_ok = (\<lambda>_. True),
     flow_validate = (\<lambda>_ _. True), flow_create = (\<lambda>_ _. True)\<rparr>"

definition sample_inline_sa :: ipsec_sa where
  "sample_inline_sa = zero_sa\<lparr>primary := zero_session\<lparr>ses_type := TYPE_INLINE_CRYPTO\<rparr>, spi := 9, flags := IP4_TUNNEL,
     direction := INGRESS\<rparr>"


text \<open>
  Flow director rules. For an inbound SA with an IP version, a created rule matches the SA's
  addresses and SPI and sends its packets to the configured queue. For an SA without an IP version
  whose flags are not \<open>TRANSPORT\<close> alone, the check for transport mode does not fire and no IP or
  ESP item is written: from cleared arrays the created rule matches every Ethernet frame of the port.
\<close>

theorem create_ipsec_esp_flow_rule:
  assumes "create_ipsec_esp_flow env sa zero_flow = (None, fl)"
  shows "direction sa \<noteq> EGRESS \<and> fl_created fl \<and> fl_ingress fl \<and> \<not> fl_egress fl \<and>
     rule_actions fl = [A_QUEUE (unat (fdir_qid sa))] \<and>
     rule_items fl = (if is_ip4 (flags sa) \<or> is_ip6 (flags sa) then [F_ETH, ip_item sa, F_ESP (bswap32 (spi sa))]
                      else [F_ETH])"
  using assms
  by (auto simp: create_ipsec_esp_flow_def Let_def install_flow_None set_item_def set_action_def
      rule_actions_def rule_items_def ip_item_def zero_flow_def numeral_eq_Suc split: if_splits)

lemma create_ipsec_esp_flow_rule_witness:
  "\<exists>fl. create_ipsec_esp_flow sample_env (sample_inline_sa\<lparr>flags := TRANSPORT OR SA_TELEMETRY_ENABLE\<rparr>) zero_flow = (None, fl) \<and>
     rule_items fl = [F_ETH]"
proof -
  let ?sa = "sample_inline_sa\<lparr>flags := TRANSPORT OR SA_TELEMETRY_ENABLE\<rparr>"
  have "fst (create_ipsec_esp_flow sample_env ?sa zero_flow) = None" by code_simp
  then obtain fl where r: "create_ipsec_esp_flow sample_env ?sa zero_flow = (None, fl)"
    by (metis prod.collapse)
  have "\<not> (is_ip4 (flags ?sa) \<or> is_ip6 (flags ?sa))" by code_simp
  then show ?thesis using create_ipsec_esp_flow_rule [OF r] r by simp
qed

end
