(* ===== verification/Flow.thy ===== *)
theory Flow
  imports Tokens
begin

text \<open>
  Flow director rules of the configuration file, \<open>flow.c\<close>: the \<open>flow\<close> lines, their masks, the rule
  table of \<open>FLOW_RULES_MAX\<close> entries and its installation. The Ethernet device's rule engine is a
  parameter. Rejected lines leave the slot they were written to past the end of the table, where the
  next line clears it, so the table is the list of accepted rules.
\<close>

section \<open>Rules\<close>

definition FLOW_RULES_MAX :: nat where "FLOW_RULES_MAX = 128"

record flow_rule_entry =
  fr_is_ipv4 :: bool
  fr_src4 :: "u32 \<times> u32"
  fr_dst4 :: "u32 \<times> u32"
  fr_src6 :: "u8 list \<times> u8 list"
  fr_dst6 :: "u8 list \<times> u8 list"
  fr_port :: u16
  fr_queue :: u16
  fr_installed :: bool

text \<open>Addresses and masks are pairs of spec and mask, as they lie in the header fields.\<close>

definition zero_rule :: flow_rule_entry where
  "zero_rule = \<lparr>fr_is_ipv4 = False, fr_src4 = (0, 0), fr_dst4 = (0, 0),
     fr_src6 = (replicate 16 0, replicate 16 0), fr_dst6 = (replicate 16 0, replicate 16 0),
     fr_port = 0, fr_queue = 0, fr_installed = False\<rparr>"

text \<open>
  Why a line ends early: an error in the status, a return that leaves the status as it was, or a
  step that C does not define (a shift by the width, a write past the mask).
\<close>

datatype flow_exit = Bad parse_error | Silent | Undefined

section \<open>Masks\<close>

text \<open>\<open>rte_flow_item_ipv4_mask\<close> has all bits of both addresses set.\<close>

definition ipv4_addr_cpy :: "inet \<Rightarrow> string \<Rightarrow> flow_exit + u32 \<times> u32" where
  "ipv4_addr_cpy lib tok =
     (case parse_ipv4_addr lib tok of
        None \<Rightarrow> Inl (Bad (Bad_addr tok))
      | Some (ip, depth) \<Rightarrow>
          (if 32 < depth then Inl Silent
           else if depth = 32 then Inr (ip, 0xFFFFFFFF)
           else if depth = 0 then Inl Undefined
           else Inr (ip, push_bit (unat (32 - depth)) 0xFFFFFFFF)))"

text \<open>The loop clears bit \<open>i\<close> of the mask, counted from the first byte's top, for every \<open>i < depth\<close>.\<close>

definition clear_bit :: "nat \<Rightarrow> u8 list \<Rightarrow> u8 list" where
  "clear_bit i msk = msk[i div 8 := msk ! (i div 8) AND NOT (push_bit (7 - i mod 8) 1)]"

definition ipv6_addr_cpy :: "inet \<Rightarrow> string \<Rightarrow> flow_exit + u8 list \<times> u8 list" where
  "ipv6_addr_cpy lib tok =
     (case parse_ipv6_addr lib tok of
        None \<Rightarrow> Inl (Bad (Bad_addr tok))
      | Some (ip, depth) \<Rightarrow>
          (if 128 < depth then Inl Undefined
           else Inr (ip, fold clear_bit [0..<unat depth] (replicate 16 0xFF))))"

section \<open>Parsing a line\<close>

text \<open>
  The four tests of the loop body are consecutive \<open>if\<close>s: a test that consumed an argument leaves the
  argument as the current token for the tests after it. Tokens that match no test are skipped.
\<close>

type_synonym flow_scan = "flow_rule_entry \<times> string \<times> string list"

definition flow_arg ::
  "string \<Rightarrow> (flow_rule_entry \<Rightarrow> string \<Rightarrow> flow_exit + flow_rule_entry) \<Rightarrow> flow_scan \<Rightarrow> flow_exit + flow_scan" where
  "flow_arg key upd = (\<lambda>(r, cur, rest).
     if cur = key then
       (case rest of
          [] \<Rightarrow> Inl (Bad End_of_tokens)
        | a # rest' \<Rightarrow> (case upd r a of Inl e \<Rightarrow> Inl e | Inr r' \<Rightarrow> Inr (r', a, rest')))
     else Inr (r, cur, rest))"

definition flow_src :: "inet \<Rightarrow> flow_rule_entry \<Rightarrow> string \<Rightarrow> flow_exit + flow_rule_entry" where
  "flow_src lib r a =
     (if fr_is_ipv4 r then map_sum id (\<lambda>x. r\<lparr>fr_src4 := x\<rparr>) (ipv4_addr_cpy lib a)
      else map_sum id (\<lambda>x. r\<lparr>fr_src6 := x\<rparr>) (ipv6_addr_cpy lib a))"

definition flow_dst :: "inet \<Rightarrow> flow_rule_entry \<Rightarrow> string \<Rightarrow> flow_exit + flow_rule_entry" where
  "flow_dst lib r a =
     (if fr_is_ipv4 r then map_sum id (\<lambda>x. r\<lparr>fr_dst4 := x\<rparr>) (ipv4_addr_cpy lib a)
      else map_sum id (\<lambda>x. r\<lparr>fr_dst6 := x\<rparr>) (ipv6_addr_cpy lib a))"

definition flow_num :: "(u16 \<Rightarrow> flow_rule_entry \<Rightarrow> flow_rule_entry) \<Rightarrow> flow_rule_entry \<Rightarrow> string \<Rightarrow> flow_exit + flow_rule_entry" where
  "flow_num upd r a = (if is_str_num a then Inr (upd (ucast (atoi a)) r) else Inl (Bad (Not_number a)))"

definition flow_step :: "inet \<Rightarrow> flow_scan \<Rightarrow> flow_exit + flow_scan" where
  "flow_step lib s0 =
     (case flow_arg ''src'' (flow_src lib) s0 of Inl e \<Rightarrow> Inl e | Inr s1 \<Rightarrow>
     (case flow_arg ''dst'' (flow_dst lib) s1 of Inl e \<Rightarrow> Inl e | Inr s2 \<Rightarrow>
     (case flow_arg ''port'' (flow_num (\<lambda>v r. r\<lparr>fr_port := v\<rparr>)) s2 of Inl e \<Rightarrow> Inl e | Inr s3 \<Rightarrow>
     flow_arg ''queue'' (flow_num (\<lambda>v r. r\<lparr>fr_queue := v\<rparr>)) s3)))"

lemma flow_arg_consumes:
  "flow_arg key upd s = Inr s' \<Longrightarrow> length (snd (snd s')) \<le> length (snd (snd s))"
  by (cases s) (auto simp: flow_arg_def split: if_splits list.splits sum.splits)

lemma flow_step_consumes:
  "flow_step lib (r, t, rest) = Inr (r', t', rest') \<Longrightarrow> length rest' \<le> length rest"
  unfolding flow_step_def
  by (auto split: sum.splits dest!: flow_arg_consumes)

function flow_loop :: "inet \<Rightarrow> string list \<Rightarrow> flow_rule_entry \<Rightarrow> flow_exit + flow_rule_entry" where
  "flow_loop lib [] r = Inr r"
| "flow_loop lib (t # rest) r =
     (case flow_step lib (r, t, rest) of
        Inl e \<Rightarrow> Inl e
      | Inr (r', _, rest') \<Rightarrow> flow_loop lib rest' r')"
  by pat_completeness auto
termination
  by (relation "measure (\<lambda>(lib, toks, r). length toks)") (auto simp: less_Suc_eq_le intro: flow_step_consumes)

definition parse_flow_tokens ::
  "inet \<Rightarrow> string list \<Rightarrow> flow_rule_entry list \<Rightarrow> flow_rule_entry list \<times> flow_exit option" where
  "parse_flow_tokens lib toks tbl =
     (if FLOW_RULES_MAX \<le> length tbl then (tbl, Some Silent)
      else case toks of
        [] \<Rightarrow> (tbl, Some Undefined)
      | fam # rest \<Rightarrow>
          (if fam = ''ipv4'' \<or> fam = ''ipv6'' then
             (case flow_loop lib rest (zero_rule\<lparr>fr_is_ipv4 := (fam = ''ipv4'')\<rparr>) of
                Inl e \<Rightarrow> (tbl, Some e)
              | Inr r \<Rightarrow> (tbl @ [r], None))
           else (tbl, Some (Bad (Unrecognized fam)))))"

section \<open>Installation\<close>

datatype fl_item = FI_ETH | FI_IPV4 "u32 \<times> u32" "u32 \<times> u32" | FI_IPV6 "u8 list \<times> u8 list" "u8 list \<times> u8 list"

text \<open>Pattern and queue of the rule handed to the device; the attributes are always ingress.\<close>

definition flow_rule_of :: "flow_rule_entry \<Rightarrow> fl_item list \<times> u16" where
  "flow_rule_of r =
     ([FI_ETH, if fr_is_ipv4 r then FI_IPV4 (fr_src4 r) (fr_dst4 r) else FI_IPV6 (fr_src6 r) (fr_dst6 r)],
      fr_queue r)"

definition flow_init_single ::
  "(u16 \<Rightarrow> fl_item list \<times> u16 \<Rightarrow> bool) \<Rightarrow> (u16 \<Rightarrow> fl_item list \<times> u16 \<Rightarrow> bool) \<Rightarrow> flow_rule_entry \<Rightarrow> flow_rule_entry" where
  "flow_init_single validate create r =
     (if \<not> validate (fr_port r) (flow_rule_of r) then r
      else r\<lparr>fr_installed := create (fr_port r) (flow_rule_of r)\<rparr>)"

definition flow_init ::
  "(u16 \<Rightarrow> fl_item list \<times> u16 \<Rightarrow> bool) \<Rightarrow> (u16 \<Rightarrow> fl_item list \<times> u16 \<Rightarrow> bool) \<Rightarrow> flow_rule_entry list \<Rightarrow> flow_rule_entry list" where
  "flow_init validate create tbl = map (flow_init_single validate create) tbl"

section \<open>The rule table\<close>

text \<open>
  A line of the flow section adds at most one rule, at the end of the table, and only when it was
  read without an early return; its family is the first token. The table never exceeds its 128
  entries and the rules before are untouched. A full table takes no rule and reports no error.
\<close>

theorem parse_flow_tokens_outcome:
  assumes "parse_flow_tokens lib toks tbl = (tbl', res)" and "length tbl \<le> FLOW_RULES_MAX"
  shows "length tbl' \<le> FLOW_RULES_MAX \<and>
     (case res of
        None \<Rightarrow> \<exists>fam rest r. toks = fam # rest \<and> fam \<in> {''ipv4'', ''ipv6''} \<and> tbl' = tbl @ [r] \<and>
                  flow_loop lib rest (zero_rule\<lparr>fr_is_ipv4 := (fam = ''ipv4'')\<rparr>) = Inr r
      | Some e \<Rightarrow> tbl' = tbl \<and> (length tbl = FLOW_RULES_MAX \<longrightarrow> e = Silent))"
  using assms by (auto simp: parse_flow_tokens_def split: if_splits list.splits sum.splits)

lemma parse_flow_tokens_outcome_witness:
  "parse_flow_tokens \<lparr>inet_pton4 = (\<lambda>_. None), inet_pton6 = (\<lambda>_. None)\<rparr> [''ipv6'', ''queue'', ''3''] [] =
     ([zero_rule\<lparr>fr_queue := 3\<rparr>], None) \<and> length [zero_rule\<lparr>fr_queue := 3\<rparr>] \<le> FLOW_RULES_MAX"
proof -
  let ?lib = "\<lparr>inet_pton4 = (\<lambda>_. None), inet_pton6 = (\<lambda>_. None)\<rparr>"
  have r: "parse_flow_tokens ?lib [''ipv6'', ''queue'', ''3''] [] = ([zero_rule\<lparr>fr_queue := 3\<rparr>], None)"
    by code_simp
  from parse_flow_tokens_outcome [OF r] r show ?thesis by simp
qed

section \<open>Reading a rule back\<close>

definition slashed :: "string \<Rightarrow> nat \<Rightarrow> string" where
  "slashed a n = a @ CHR ''/'' # show_dec n"

lemma slashed_not_key:
  assumes "CHR ''/'' \<notin> set k"
  shows "slashed a n \<noteq> k"
proof -
  have "CHR ''/'' \<in> set (slashed a n)" by (simp add: slashed_def)
  then show ?thesis using assms by metis
qed

lemma show_dec_not_key:
  assumes "\<not> list_all isdigit k"
  shows "show_dec n \<noteq> k"
  using show_dec_digits [of n] assms by metis

lemma ipv4_addr_cpy_slashed:
  assumes "list_all (\<lambda>c. c \<noteq> CHR ''/'') a" and "length a \<le> 15" and "inet_pton4 lib a = Some ip"
    and "0 < d" and "d \<le> 32"
  shows "ipv4_addr_cpy lib (slashed a d) = Inr (ip, push_bit (32 - d) 0xFFFFFFFF)"
proof -
  have u: "unat (of_nat d :: u32) = d" using assms(5) by (intro unat_of_nat_u32) simp
  have cmp: "(32 < (of_nat d :: u32)) = False" "((of_nat d :: u32) = 32) = (d = 32)" "((of_nat d :: u32) = 0) = False"
    using assms(4,5) u by (auto simp: word_less_nat_alt word_unat_eq_iff)
  have "unat (32 - of_nat d :: u32) = 32 - d"
    using u assms(5) by (subst unat_sub) (simp_all add: word_le_nat_alt)
  then show ?thesis
    using assms parse_ipv4_addr_mask [OF assms(1,2), of d lib]
    by (auto simp: ipv4_addr_cpy_def slashed_def cmp)
qed

lemma flow_num_show:
  "flow_num upd r (show_dec (unat (w :: u16))) = Inr (upd w r)"
  by (simp add: flow_num_def atoi_show_u16)

text \<open>
  A flow line with both addresses, a port and a queue, in that order, is read back: the rule holds the
  addresses, the masks of their prefix lengths as the code computes them, the port and the queue.
\<close>

theorem parse_flow_line:
  fixes p q :: u16
  assumes "\<And>x. x \<in> {a, b} \<Longrightarrow> list_all (\<lambda>c. c \<noteq> CHR ''/'') x \<and> length x \<le> 15"
    and "inet_pton4 lib a = Some s" and "inet_pton4 lib b = Some d"
    and "0 < m" and "m \<le> 32" and "0 < n" and "n \<le> 32" and "length tbl < FLOW_RULES_MAX"
  shows "parse_flow_tokens lib [''ipv4'', ''src'', slashed a m, ''dst'', slashed b n,
       ''port'', show_dec (unat p), ''queue'', show_dec (unat q)] tbl =
     (tbl @ [zero_rule\<lparr>fr_is_ipv4 := True, fr_src4 := (s, push_bit (32 - m) 0xFFFFFFFF),
        fr_dst4 := (d, push_bit (32 - n) 0xFFFFFFFF), fr_port := p, fr_queue := q\<rparr>], None)"
proof -
  have src: "ipv4_addr_cpy lib (slashed a m) = Inr (s, push_bit (32 - m) 0xFFFFFFFF)"
    and dst: "ipv4_addr_cpy lib (slashed b n) = Inr (d, push_bit (32 - n) 0xFFFFFFFF)"
    using assms by (auto intro!: ipv4_addr_cpy_slashed)
  have keys: "slashed x k \<noteq> ''src''" "slashed x k \<noteq> ''dst''" "slashed x k \<noteq> ''port''" "slashed x k \<noteq> ''queue''" for x k
    by (simp_all add: slashed_not_key)
  have nums: "show_dec k \<noteq> ''src''" "show_dec k \<noteq> ''dst''" "show_dec k \<noteq> ''port''" "show_dec k \<noteq> ''queue''" for k
    by (simp_all add: show_dec_not_key isdigit_def)
  show ?thesis
    using assms(8)
    by (simp add: parse_flow_tokens_def flow_step_def flow_arg_def flow_src_def flow_dst_def src dst
        keys nums flow_num_show zero_rule_def)
qed

lemma parse_flow_line_witness:
  "\<exists>lib. parse_flow_tokens lib [''ipv4'', ''src'', slashed ''10.0.0.1'' 24, ''dst'', slashed ''10.0.0.2'' 32,
       ''port'', show_dec (unat (1 :: u16)), ''queue'', show_dec (unat (2 :: u16))] [] =
     ([zero_rule\<lparr>fr_is_ipv4 := True, fr_src4 := (0x0100000A, push_bit 8 0xFFFFFFFF),
        fr_dst4 := (0x0200000A, push_bit 0 0xFFFFFFFF), fr_port := 1, fr_queue := 2\<rparr>], None)"
proof -
  let ?lib = "\<lparr>inet_pton4 = (\<lambda>x. if x = ''10.0.0.1'' then Some 0x0100000A else Some 0x0200000A), inet_pton6 = (\<lambda>_. None)\<rparr>"
  have "parse_flow_tokens ?lib [''ipv4'', ''src'', slashed ''10.0.0.1'' 24, ''dst'', slashed ''10.0.0.2'' 32,
       ''port'', show_dec (unat (1 :: u16)), ''queue'', show_dec (unat (2 :: u16))] [] =
     ([] @ [zero_rule\<lparr>fr_is_ipv4 := True, fr_src4 := (0x0100000A, push_bit (32 - 24) 0xFFFFFFFF),
        fr_dst4 := (0x0200000A, push_bit (32 - 32) 0xFFFFFFFF), fr_port := 1, fr_queue := 2\<rparr>], None)"
    by (rule parse_flow_line) (auto simp: FLOW_RULES_MAX_def)
  then show ?thesis by auto
qed

section \<open>What the masks select\<close>

lemma bit_bswap32: "bit (bswap32 w) n \<longleftrightarrow> n < 32 \<and> bit w (8 * (3 - n div 8) + n mod 8)"
proof -
  have "n < 8 \<or> n \<in> {8..<16} \<or> n \<in> {16..<24} \<or> n \<in> {24..<32} \<or> 32 \<le> n" by auto
  then show ?thesis
    by (auto simp: bswap32_def bit_u32_of_bytes bit_simps div_nat_eqI mod_if le_div_geq add.commute)
qed

text \<open>The mask of a prefix length: the leading bits of the address in network order.\<close>

definition prefix_mask4 :: "nat \<Rightarrow> u32" where
  "prefix_mask4 d = bswap32 (push_bit (32 - d) 0xFFFFFFFF)"

text \<open>
  The IPv4 mask of a flow rule is shifted in host order and written to a field in network
  order: for every length from 1 to 31 it is not the mask of the prefix. The device ignores the
  low bits of the word, which are the leading bytes of the address: any two addresses that differ
  in the first byte only match the same rule for a length of at most 24.
\<close>

theorem flow_ipv4_mask_wrong:
  assumes "list_all (\<lambda>c. c \<noteq> CHR ''/'') a" and "length a \<le> 15" and "inet_pton4 lib a = Some ip"
    and "0 < d" and "d < 32"
  shows "\<exists>msk. ipv4_addr_cpy lib (slashed a d) = Inr (ip, msk) \<and> msk \<noteq> prefix_mask4 d \<and>
     (d \<le> 24 \<longrightarrow> (\<forall>w. w AND 0xFFFFFF00 = ip AND 0xFFFFFF00 \<longrightarrow> w AND msk = ip AND msk))"
proof -
  let ?m = "push_bit (32 - d) 0xFFFFFFFF :: u32"
  have all: "bit (0xFFFFFFFF :: u32) n \<longleftrightarrow> n < 32" for n
  proof -
    have "(0xFFFFFFFF :: u32) = - 1" by simp
    then show ?thesis by (simp only: bit_minus_1_iff possible_bit_word) simp
  qed
  have m: "bit ?m n \<longleftrightarrow> 32 - d \<le> n \<and> n < 32" for n
    by (simp only: bit_push_bit_iff all possible_bit_word) auto
  have low: "bit (0xFFFFFF00 :: u32) n \<longleftrightarrow> 8 \<le> n \<and> n < 32" for n
  proof -
    have "(0xFFFFFF00 :: u32) = push_bit 8 0xFFFFFFFF" by simp
    then show ?thesis by (simp only: bit_push_bit_iff all) auto
  qed
  have "?m \<noteq> prefix_mask4 d"
  proof
    assume eq: "?m = prefix_mask4 d"
    have "bit ?m 31 \<longleftrightarrow> bit ?m 7" by (subst eq) (simp add: prefix_mask4_def bit_bswap32)
    then have "25 \<le> d" using assms(4,5) by (simp add: m) presburger
    moreover have "bit ?m 24 \<longleftrightarrow> bit ?m 0" by (subst eq) (simp add: prefix_mask4_def bit_bswap32)
    ultimately show False using assms(5) by (simp add: m)
  qed
  moreover have "w AND ?m = ip AND ?m" if "d \<le> 24" "w AND 0xFFFFFF00 = ip AND 0xFFFFFF00" for w
  proof (rule bit_word_eqI)
    fix n
    have "bit (w AND 0xFFFFFF00) n = bit (ip AND 0xFFFFFF00) n" using that(2) by simp
    then have "8 \<le> n \<and> n < 32 \<longrightarrow> bit w n = bit ip n" by (simp only: bit_and_iff low) blast
    moreover have "32 - d \<le> n \<Longrightarrow> 8 \<le> n" using that(1) by linarith
    ultimately show "bit (w AND ?m) n = bit (ip AND ?m) n"
      by (simp only: bit_and_iff m) blast
  qed
  moreover have "ipv4_addr_cpy lib (slashed a d) = Inr (ip, ?m)"
    using assms by (intro ipv4_addr_cpy_slashed) simp_all
  ultimately show ?thesis by blast
qed

lemma flow_ipv4_mask_wrong_witness:
  "\<exists>msk. ipv4_addr_cpy \<lparr>inet_pton4 = (\<lambda>_. Some 0x0100A8C0), inet_pton6 = (\<lambda>_. None)\<rparr> (slashed ''192.168.0.1'' 24) =
       Inr (0x0100A8C0, msk) \<and> msk \<noteq> prefix_mask4 24"
  using flow_ipv4_mask_wrong [where a = "''192.168.0.1''" and ip = "0x0100A8C0" and d = 24
      and lib = "\<lparr>inet_pton4 = (\<lambda>_. Some 0x0100A8C0), inet_pton6 = (\<lambda>_. None)\<rparr>"]
  by auto

text \<open>The loop of \<open>ipv6_addr_cpy\<close> clears the first \<open>k\<close> bits of the mask and keeps the others.\<close>

lemma clear_bits:
  assumes "k \<le> 128"
  shows "length (fold clear_bit [0..<k] (replicate 16 0xFF)) = 16 \<and>
     (\<forall>i < 16. \<forall>j < 8. bit (fold clear_bit [0..<k] (replicate 16 0xFF) ! i) (7 - j) \<longleftrightarrow> k \<le> 8 * i + j)"
  using assms
proof (induction k)
  case 0
  have "bit (0xFF :: u8) n" if "n < 8" for n
  proof -
    have "(0xFF :: u8) = - 1" by simp
    then show ?thesis using that by (simp only: bit_minus_1_iff possible_bit_word) simp
  qed
  then show ?case by (simp del: bit_numeral_word_iff)
next
  case (Suc k)
  let ?xs = "fold clear_bit [0..<k] (replicate 16 0xFF)"
  have l: "length ?xs = 16" using Suc by simp
  have b: "bit (?xs ! i) (7 - j) \<longleftrightarrow> k \<le> 8 * i + j" if "i < 16" "j < 8" for i j
    using Suc that by simp
  have idx: "k div 8 < 16" using Suc.prems by simp
  have "bit (clear_bit k ?xs ! i) (7 - j) \<longleftrightarrow> Suc k \<le> 8 * i + j" if ij: "i < 16" "j < 8" for i j
  proof (cases "i = k div 8")
    case True
    have "bit (push_bit (7 - k mod 8) 1 :: u8) (7 - j) \<longleftrightarrow> j = k mod 8"
    proof -
      have "k mod 8 < 8" by simp
      then show ?thesis using ij by (simp only: bit_push_bit_iff bit_1_iff possible_bit_word) auto
    qed
    moreover have "8 * i + j = k \<longleftrightarrow> j = k mod 8"
      using True div_mult_mod_eq [of k 8] by linarith
    ultimately show ?thesis
      using True idx l b [OF ij] ij
      by (auto simp: clear_bit_def bit_and_iff bit_not_iff)
  next
    case False
    then have "8 * i + j \<noteq> k" using ij by auto
    then show ?thesis using False b [OF ij] by (auto simp: clear_bit_def)
  qed
  moreover have "length (clear_bit k ?xs) = 16" using l by (simp add: clear_bit_def)
  ultimately show ?case by simp
qed

text \<open>
  The IPv6 mask of a flow rule is the complement of the prefix mask: for a prefix length of at most 128
  the device ignores exactly the prefix and compares exactly the host bits.
\<close>

theorem flow_ipv6_mask_inverted:
  assumes "ipv6_addr_cpy lib tok = Inr (ip, msk)"
  shows "\<exists>depth. parse_ipv6_addr lib tok = Some (ip, depth) \<and> depth \<le> 128 \<and> length msk = 16 \<and>
     (\<forall>i < 16. \<forall>j < 8. bit (msk ! i) (7 - j) \<longleftrightarrow> unat depth \<le> 8 * i + j)"
proof -
  obtain depth where p: "parse_ipv6_addr lib tok = Some (ip, depth)" and d: "\<not> 128 < depth"
    and m: "msk = fold clear_bit [0..<unat depth] (replicate 16 0xFF)"
    using assms by (auto simp: ipv6_addr_cpy_def split: option.splits if_splits)
  then have "unat depth \<le> 128" by (simp add: word_le_nat_alt not_less)
  from clear_bits [OF this] p d show ?thesis by (auto simp: m not_less)
qed

lemma flow_ipv6_mask_inverted_witness:
  "\<exists>msk. ipv6_addr_cpy \<lparr>inet_pton4 = (\<lambda>_. None), inet_pton6 = (\<lambda>_. Some (replicate 16 7))\<rparr> ''fd00::1/64'' =
       Inr (replicate 16 7, msk) \<and> \<not> bit (msk ! 0) 7 \<and> bit (msk ! 8) 7"
proof -
  let ?lib = "\<lparr>inet_pton4 = (\<lambda>_. None), inet_pton6 = (\<lambda>_. Some (replicate 16 7))\<rparr>"
  have p: "parse_ipv6_addr ?lib ''fd00::1/64'' = Some (replicate 16 7, 64)" by code_simp
  then obtain msk where m: "ipv6_addr_cpy ?lib ''fd00::1/64'' = Inr (replicate 16 7, msk)"
    by (simp add: ipv6_addr_cpy_def)
  from flow_ipv6_mask_inverted [OF m] have
    "\<forall>i < 16. \<forall>j < 8. bit (msk ! i) (7 - j) \<longleftrightarrow> 64 \<le> 8 * i + j"
    using p by auto
  from this [rule_format, of 0 0] this [rule_format, of 8 0] m show ?thesis by simp
qed

end
