(* ===== verification/Queues.thy ===== *)
theory Queues
  imports ESP SAD Sessions
begin

text \<open>
  The queue engine of \<open>ipsec.c\<close>: crypto operations gathered per queue pair of a crypto device and
  handed over in bursts, packets parked for inline processing, and the round-robin collection of
  finished operations. The crypto device is a parameter (\<open>crypto_dev\<close>); \<open>crypto_dev_ok\<close> is what the
  code relies on. Freed packets are collected in \<open>freed\<close>, so that what becomes of every packet can
  be stated.
\<close>

definition MAX_PKT_BURST :: nat where "MAX_PKT_BURST = 32"

section \<open>Packets and queue pairs\<close>

text \<open>
  A packet with its private area: the SA saved in it (an index into the SA context), the crypto
  operation and the session attached to it, the segmentation offload asked for on transmission,
  the lengths of the link and transport headers and the offload flags of transmission. \<open>pid\<close>
  stands for the address of the buffer.
\<close>

record tso_req =
  ts_segsz :: u16
  ts_tunnel :: bool
  ts_outer_cksum :: bool
  ts_outer_ipv4 :: bool

record pkt =
  pid :: nat
  pbuf :: mbuf
  p_sa :: "nat option"
  p_cop :: crypto_op
  p_ses :: "nat option"
  p_tso :: "tso_req option"
  p_l2_len :: nat
  p_l4_len :: nat
  p_txol :: u64

record cdev_qp =
  cq_id :: u16
  cq_qp :: u16
  in_flight :: u16
  cq_buf :: "pkt list"

text \<open>The length \<open>len\<close> of \<open>buf\<close> is the length of the list; \<open>nb_qps\<close> is the length of \<open>tbl\<close>.\<close>

record 'd ipsec_ctx =
  tbl :: "cdev_qp list"
  last_qp :: nat
  ol_pkts :: "pkt list"
  ctx_sas :: "ipsec_sa list"
  dev :: 'd
  freed :: "pkt list"

definition tag :: "pkt \<Rightarrow> nat \<times> nat option" where
  "tag p = (pid p, p_sa p)"

definition qkey :: "cdev_qp \<Rightarrow> u16 \<times> u16" where
  "qkey q = (cq_id q, cq_qp q)"

record 'd crypto_dev =
  cd_enq :: "'d \<Rightarrow> u16 \<times> u16 \<Rightarrow> pkt list \<Rightarrow> nat \<times> 'd"
  cd_deq :: "'d \<Rightarrow> u16 \<times> u16 \<Rightarrow> nat \<Rightarrow> pkt list \<times> 'd"
  cd_held :: "'d \<Rightarrow> u16 \<times> u16 \<Rightarrow> (nat \<times> nat option) multiset"

text \<open>
  A queue pair takes a prefix of a burst, gives back at most as many packets as asked for, each of
  which it holds, with the private SA it was given with; it holds fewer than \<open>2 ^ 16\<close> packets, and
  other queue pairs are not affected.
\<close>

definition crypto_dev_ok :: "'d crypto_dev \<Rightarrow> bool" where
  "crypto_dev_ok D \<longleftrightarrow>
     (\<forall>d k ps n d'. cd_enq D d k ps = (n, d') \<longrightarrow>
        n \<le> length ps \<and> cd_held D d' k = cd_held D d k + mset (map tag (take n ps)) \<and>
        size (cd_held D d' k) < 65536 \<and> (\<forall>k'. k' \<noteq> k \<longrightarrow> cd_held D d' k' = cd_held D d k')) \<and>
     (\<forall>d k n ps d'. cd_deq D d k n = (ps, d') \<longrightarrow>
        length ps \<le> n \<and> cd_held D d k = cd_held D d' k + mset (map tag ps) \<and>
        (\<forall>k'. k' \<noteq> k \<longrightarrow> cd_held D d' k' = cd_held D d k'))"

text \<open>What the engine is run with: the devices, and the metadata an inline device wants in a packet.\<close>

record 'd crypto_env =
  ce_env :: device_env
  ce_dev :: "'d crypto_dev"
  ce_mdata :: "ipsec_sa \<Rightarrow> mbuf \<Rightarrow> mbuf"

section \<open>Handing operations to the device\<close>

definition drop_pkts :: "pkt list \<Rightarrow> 'd ipsec_ctx \<Rightarrow> 'd ipsec_ctx" where
  "drop_pkts ps ctx = ctx\<lparr>freed := freed ctx @ ps\<rparr>"

definition enqueue_cop_burst :: "'d crypto_dev \<Rightarrow> nat \<Rightarrow> 'd ipsec_ctx \<Rightarrow> 'd ipsec_ctx" where
  "enqueue_cop_burst D i ctx =
     (let q = tbl ctx ! i in
      case cd_enq D (dev ctx) (qkey q) (cq_buf q) of
        (n, d') \<Rightarrow>
          drop_pkts (drop n (cq_buf q))
            (ctx\<lparr>tbl := (tbl ctx)[i := q\<lparr>in_flight := in_flight q + of_nat n, cq_buf := []\<rparr>], dev := d'\<rparr>))"

definition enqueue_cop :: "'d crypto_dev \<Rightarrow> nat \<Rightarrow> pkt \<Rightarrow> 'd ipsec_ctx \<Rightarrow> 'd ipsec_ctx" where
  "enqueue_cop D i p ctx =
     (let q = tbl ctx ! i; b = cq_buf q @ [p];
          ctx1 = ctx\<lparr>tbl := (tbl ctx)[i := q\<lparr>cq_buf := b\<rparr>]\<rparr>
      in if length b = MAX_PKT_BURST then enqueue_cop_burst D i ctx1 else ctx1)"

section \<open>Taking packets in\<close>

text \<open>A transformation of \<open>esp.c\<close>: outbound it also advances the SA's sequence number.\<close>

type_synonym xform = "mbuf \<Rightarrow> ipsec_sa \<Rightarrow> crypto_op \<Rightarrow> (errno + mbuf \<times> crypto_op) \<times> ipsec_sa"

definition set_sa :: "nat \<Rightarrow> ipsec_sa \<Rightarrow> 'd ipsec_ctx \<Rightarrow> 'd ipsec_ctx" where
  "set_sa i sa ctx = ctx\<lparr>ctx_sas := (ctx_sas ctx)[i := sa]\<rparr>"

text \<open>The packet's operation as \<open>ipsec_enqueue\<close> initialises it, and the transformation run on it.\<close>

definition fresh_cop :: "pkt \<Rightarrow> pkt" where
  "fresh_cop p = p\<lparr>p_cop := (p_cop p)\<lparr>op_status := OP_NOT_PROCESSED\<rparr>\<rparr>"

definition run_xform :: "xform \<Rightarrow> nat \<Rightarrow> pkt \<Rightarrow> 'd ipsec_ctx \<Rightarrow> errno + pkt option \<times> 'd ipsec_ctx" where
  "run_xform xf i p ctx =
     (case xf (pbuf p) (ctx_sas ctx ! i) (p_cop p) of
        (r, sa') \<Rightarrow>
          (case r of
             Inl e \<Rightarrow> (if e = UB then Inl UB else Inr (None, set_sa i sa' ctx))
           | Inr (m, cop) \<Rightarrow> Inr (Some (p\<lparr>pbuf := m, p_cop := cop\<rparr>), set_sa i sa' ctx)))"

text \<open>\<open>ol_pkts\<close> has \<open>MAX_PKT_BURST\<close> entries; the code does not check the index.\<close>

definition push_ol :: "'d crypto_env \<Rightarrow> nat \<Rightarrow> pkt \<Rightarrow> 'd ipsec_ctx \<Rightarrow> errno + 'd ipsec_ctx" where
  "push_ol E i p ctx =
     (if MAX_PKT_BURST \<le> length (ol_pkts ctx) then Inl UB
      else let sa = ctx_sas ctx ! i;
               p' = (if need_mdata (primary sa) then p\<lparr>pbuf := ce_mdata E sa (pbuf p)\<rparr> else p)
        in Inr (ctx\<lparr>ol_pkts := ol_pkts ctx @ [p']\<rparr>))"

definition to_qp :: "'d crypto_env \<Rightarrow> nat \<Rightarrow> pkt \<Rightarrow> 'd ipsec_ctx \<Rightarrow> errno + 'd ipsec_ctx" where
  "to_qp E i p ctx =
     (let q = unat (cdev_id_qp (ctx_sas ctx ! i)) in
      if q < length (tbl ctx) then Inr (enqueue_cop (ce_dev E) q p ctx) else Inl UB)"

text \<open>The session of a lookaside SA, created on first use; \<open>None\<close> when that failed.\<close>

definition with_session :: "'d crypto_env \<Rightarrow> nat \<Rightarrow> 'd ipsec_ctx \<Rightarrow> 'd ipsec_ctx option" where
  "with_session E i ctx =
     (if ses (primary (ctx_sas ctx ! i)) \<noteq> None then Some ctx
      else case create_lookaside_session (ce_env E) False (ctx_sas ctx ! i) of
        Inl e \<Rightarrow> None
      | Inr sa' \<Rightarrow> Some (set_sa i sa' ctx))"

definition enqueue_lookaside_protocol :: "'d crypto_env \<Rightarrow> nat \<Rightarrow> pkt \<Rightarrow> 'd ipsec_ctx \<Rightarrow> errno + 'd ipsec_ctx" where
  "enqueue_lookaside_protocol E i p ctx =
     (case with_session E i ctx of
        None \<Rightarrow> Inr (drop_pkts [fresh_cop p] ctx)
      | Some ctx1 \<Rightarrow>
          (if esp_in_udp (pbuf p) \<and> udp_encap (ctx_sas ctx1 ! i) \<noteq> 1 then Inr (drop_pkts [fresh_cop p] ctx1)
           else to_qp E i ((fresh_cop p)\<lparr>p_ses := ses (primary (ctx_sas ctx1 ! i))\<rparr>) ctx1))"

definition enqueue_none :: "'d crypto_env \<Rightarrow> xform \<Rightarrow> nat \<Rightarrow> pkt \<Rightarrow> 'd ipsec_ctx \<Rightarrow> errno + 'd ipsec_ctx" where
  "enqueue_none E xf i p ctx =
     (case with_session E i ctx of
        None \<Rightarrow> Inr (drop_pkts [fresh_cop p] ctx)
      | Some ctx1 \<Rightarrow>
          (let p1 = (fresh_cop p)\<lparr>p_ses := ses (primary (ctx_sas ctx1 ! i))\<rparr> in
           case run_xform xf i p1 ctx1 of
             Inl e \<Rightarrow> Inl e
           | Inr (None, ctx2) \<Rightarrow> Inr (drop_pkts [p1] ctx2)
           | Inr (Some p2, ctx2) \<Rightarrow> to_qp E i p2 ctx2))"

definition enqueue_inline_crypto :: "'d crypto_env \<Rightarrow> xform \<Rightarrow> nat \<Rightarrow> pkt \<Rightarrow> 'd ipsec_ctx \<Rightarrow> errno + 'd ipsec_ctx" where
  "enqueue_inline_crypto E xf i p ctx =
     (let p1 = (fresh_cop p)\<lparr>p_ses := ses (primary (ctx_sas ctx ! i))\<rparr> in
      case run_xform xf i p1 ctx of
        Inl e \<Rightarrow> Inl e
      | Inr (None, ctx2) \<Rightarrow> Inr (drop_pkts [p1] ctx2)
      | Inr (Some p2, ctx2) \<Rightarrow> push_ol E i p2 ctx2)"

text \<open>One round of the loop of \<open>ipsec_enqueue\<close>; the mark on the SA pointer is masked away.\<close>

definition ipsec_enqueue1 ::
  "'d crypto_env \<Rightarrow> xform \<Rightarrow> pkt \<Rightarrow> (nat \<times> bool) option \<Rightarrow> 'd ipsec_ctx \<Rightarrow> errno + 'd ipsec_ctx" where
  "ipsec_enqueue1 E xf p s ctx =
     (case s of
        None \<Rightarrow> Inr (drop_pkts [p] ctx)
      | Some (i, _) \<Rightarrow>
          (if length (ctx_sas ctx) \<le> i then Inl UB
           else let p1 = p\<lparr>p_sa := Some i\<rparr> in
             (case ses_type (primary (ctx_sas ctx ! i)) of
                TYPE_LOOKASIDE_PROTOCOL \<Rightarrow> enqueue_lookaside_protocol E i p1 ctx
              | TYPE_CPU_CRYPTO \<Rightarrow> Inr (drop_pkts [p1] ctx)
              | TYPE_NONE \<Rightarrow> enqueue_none E xf i p1 ctx
              | TYPE_INLINE_PROTOCOL \<Rightarrow> push_ol E i p1 ctx
              | TYPE_INLINE_CRYPTO \<Rightarrow> enqueue_inline_crypto E xf i p1 ctx)))"

fun ipsec_enqueue ::
  "'d crypto_env \<Rightarrow> xform \<Rightarrow> (pkt \<times> (nat \<times> bool) option) list \<Rightarrow> 'd ipsec_ctx \<Rightarrow> errno + 'd ipsec_ctx" where
  "ipsec_enqueue E xf [] ctx = Inr ctx"
| "ipsec_enqueue E xf ((p, s) # ps) ctx =
     (case ipsec_enqueue1 E xf p s ctx of Inl e \<Rightarrow> Inl e | Inr ctx' \<Rightarrow> ipsec_enqueue E xf ps ctx')"

section \<open>Giving packets back\<close>

type_synonym post = "mbuf \<Rightarrow> ipsec_sa \<Rightarrow> crypto_op \<Rightarrow> errno + mbuf"

text \<open>The post-processing of one packet: \<open>Inr None\<close> when it failed and the packet is freed.\<close>

definition run_post :: "post \<Rightarrow> ipsec_sa list \<Rightarrow> pkt \<Rightarrow> errno + pkt option" where
  "run_post post sas p =
     (case p_sa p of
        None \<Rightarrow> Inl UB
      | Some i \<Rightarrow>
          (if length sas \<le> i then Inl UB
           else case post (pbuf p) (sas ! i) (p_cop p) of
             Inl e \<Rightarrow> (if e = UB then Inl UB else Inr None)
           | Inr m \<Rightarrow> Inr (Some (p\<lparr>pbuf := m\<rparr>))))"

text \<open>
  The loop of \<open>ipsec_inline_dequeue\<close>: packets leave from the end of \<open>ol_pkts\<close>, here the front of the
  reversed list, until it is empty or \<open>room\<close> packets were returned.
\<close>

fun inline_drain :: "post \<Rightarrow> ipsec_sa list \<Rightarrow> nat \<Rightarrow> pkt list \<Rightarrow> errno + pkt list \<times> pkt list \<times> pkt list" where
  "inline_drain post sas room [] = Inr ([], [], [])"
| "inline_drain post sas room (p # ps) =
     (if room = 0 then Inr ([], [], p # ps)
      else case run_post post sas p of
        Inl e \<Rightarrow> Inl e
      | Inr None \<Rightarrow>
          (case inline_drain post sas room ps of
             Inl e \<Rightarrow> Inl e | Inr (out, bad, rest) \<Rightarrow> Inr (out, p # bad, rest))
      | Inr (Some p') \<Rightarrow>
          (case inline_drain post sas (room - 1) ps of
             Inl e \<Rightarrow> Inl e | Inr (out, bad, rest) \<Rightarrow> Inr (p' # out, bad, rest)))"

definition ipsec_inline_dequeue :: "post \<Rightarrow> nat \<Rightarrow> 'd ipsec_ctx \<Rightarrow> errno + pkt list \<times> 'd ipsec_ctx" where
  "ipsec_inline_dequeue post max_pkts ctx =
     (case inline_drain post (ctx_sas ctx) max_pkts (rev (ol_pkts ctx)) of
        Inl e \<Rightarrow> Inl e
      | Inr (out, bad, rest) \<Rightarrow> Inr (out, drop_pkts bad (ctx\<lparr>ol_pkts := rev rest\<rparr>)))"

text \<open>What becomes of a finished operation depends on the session type of its SA.\<close>

definition finish_cop :: "post \<Rightarrow> ipsec_sa list \<Rightarrow> pkt \<Rightarrow> errno + pkt option" where
  "finish_cop post sas p =
     (case p_sa p of
        None \<Rightarrow> Inl UB
      | Some i \<Rightarrow>
          (if length sas \<le> i then Inl UB
           else if ses_type (primary (sas ! i)) = TYPE_NONE then run_post post sas p
           else if ses_type (primary (sas ! i)) = TYPE_LOOKASIDE_PROTOCOL \<and> op_status (p_cop p) \<noteq> OP_SUCCESS
             then Inr None
           else Inr (Some p)))"

fun finish_cops :: "post \<Rightarrow> ipsec_sa list \<Rightarrow> pkt list \<Rightarrow> errno + pkt list \<times> pkt list" where
  "finish_cops post sas [] = Inr ([], [])"
| "finish_cops post sas (p # ps) =
     (case finish_cop post sas p of
        Inl e \<Rightarrow> Inl e
      | Inr r \<Rightarrow>
          (case finish_cops post sas ps of
             Inl e \<Rightarrow> Inl e
           | Inr (out, bad) \<Rightarrow> (case r of None \<Rightarrow> Inr (out, p # bad) | Some p' \<Rightarrow> Inr (p' # out, bad))))"

text \<open>One visit of \<open>ipsec_dequeue\<close> to the next queue pair, with room for \<open>n\<close> packets.\<close>

definition next_qp :: "'d ipsec_ctx \<Rightarrow> 'd ipsec_ctx" where
  "next_qp ctx = ctx\<lparr>last_qp := (if last_qp ctx + 1 = length (tbl ctx) then 0 else last_qp ctx + 1)\<rparr>"

definition visit_qp :: "'d crypto_dev \<Rightarrow> post \<Rightarrow> nat \<Rightarrow> 'd ipsec_ctx \<Rightarrow> errno + pkt list \<times> 'd ipsec_ctx" where
  "visit_qp D post n ctx =
     (let i = last_qp ctx; q = tbl ctx ! i; ctx0 = next_qp ctx in
      if in_flight q = 0 then Inr ([], ctx0)
      else case cd_deq D (dev ctx) (qkey q) n of
        (cops, d') \<Rightarrow>
          (let ctx1 = ctx0\<lparr>tbl := (tbl ctx)[i := q\<lparr>in_flight := in_flight q - of_nat (length cops)\<rparr>], dev := d'\<rparr> in
           case finish_cops post (ctx_sas ctx) cops of
             Inl e \<Rightarrow> Inl e
           | Inr (out, bad) \<Rightarrow> Inr (out, drop_pkts bad ctx1)))"

fun dequeue_loop :: "'d crypto_dev \<Rightarrow> post \<Rightarrow> nat \<Rightarrow> nat \<Rightarrow> 'd ipsec_ctx \<Rightarrow> errno + pkt list \<times> 'd ipsec_ctx" where
  "dequeue_loop D post 0 room ctx = Inr ([], ctx)"
| "dequeue_loop D post (Suc k) room ctx =
     (if room = 0 then Inr ([], ctx)
      else case visit_qp D post room ctx of
        Inl e \<Rightarrow> Inl e
      | Inr (out, ctx1) \<Rightarrow>
          (case dequeue_loop D post k (room - length out) ctx1 of
             Inl e \<Rightarrow> Inl e
           | Inr (out', ctx2) \<Rightarrow> Inr (out @ out', ctx2)))"

definition ipsec_dequeue :: "'d crypto_dev \<Rightarrow> post \<Rightarrow> nat \<Rightarrow> 'd ipsec_ctx \<Rightarrow> errno + pkt list \<times> 'd ipsec_ctx" where
  "ipsec_dequeue D post max_pkts ctx = dequeue_loop D post (length (tbl ctx)) max_pkts ctx"

section \<open>The entry points\<close>

definition xform_in :: xform where
  "xform_in m sa cop = (esp_inbound m sa cop, sa)"

definition ipsec_inbound ::
  "'d crypto_env \<Rightarrow> mbuf_api \<Rightarrow> 's sad_api \<Rightarrow> 's ipsec_sad \<Rightarrow> sad_cache \<Rightarrow> pkt list \<Rightarrow> nat \<Rightarrow> 'd ipsec_ctx \<Rightarrow>
     errno + pkt list \<times> sad_cache \<times> 'd ipsec_ctx" where
  "ipsec_inbound E api sapi sad cache pkts len ctx =
     (case inbound_sa_lookup sapi (ctx_sas ctx) sad cache (map pbuf pkts) of
        Inl e \<Rightarrow> Inl e
      | Inr (sas, cache') \<Rightarrow>
          (case ipsec_enqueue E xform_in (zip pkts sas) ctx of
             Inl e \<Rightarrow> Inl e
           | Inr ctx1 \<Rightarrow>
               (case ipsec_inline_dequeue (esp_inbound_post api) len ctx1 of
                  Inl e \<Rightarrow> Inl e
                | Inr (out, ctx2) \<Rightarrow> Inr (out, cache', ctx2))))"

definition ipsec_outbound ::
  "'d crypto_env \<Rightarrow> mbuf_api \<Rightarrow> pkt list \<Rightarrow> nat list \<Rightarrow> nat \<Rightarrow> 'd ipsec_ctx \<Rightarrow> errno + pkt list \<times> 'd ipsec_ctx" where
  "ipsec_outbound E api pkts sa_idx len ctx =
     (case outbound_sa_lookup (ctx_sas ctx) sa_idx of
        Inl e \<Rightarrow> Inl e
      | Inr is \<Rightarrow>
          (case ipsec_enqueue E (esp_outbound api) (zip pkts (map (\<lambda>i. Some (i, False)) is)) ctx of
             Inl e \<Rightarrow> Inl e
           | Inr ctx1 \<Rightarrow> ipsec_inline_dequeue esp_outbound_post len ctx1))"

definition ipsec_inbound_cqp_dequeue ::
  "'d crypto_dev \<Rightarrow> mbuf_api \<Rightarrow> nat \<Rightarrow> 'd ipsec_ctx \<Rightarrow> errno + pkt list \<times> 'd ipsec_ctx" where
  "ipsec_inbound_cqp_dequeue D api len ctx = ipsec_dequeue D (esp_inbound_post api) len ctx"

definition ipsec_outbound_cqp_dequeue ::
  "'d crypto_dev \<Rightarrow> nat \<Rightarrow> 'd ipsec_ctx \<Rightarrow> errno + pkt list \<times> 'd ipsec_ctx" where
  "ipsec_outbound_cqp_dequeue D len ctx = ipsec_dequeue D esp_outbound_post len ctx"

end
