(* ===== verification/Accounting.thy ===== *)
theory Accounting
  imports Prelude
begin

text \<open>
  Packet accounting: the loops of the data path take packets one by one (or group by group) and an
  error stops them. The locale states the contract of a loop body that neither loses nor invents a
  packet: the state keeps its invariant, and its balance grows by exactly the packets of the step.
  The balance of a state is the multiset of all packets it accounts for, wherever they are, or, where
  packets are also created, a signed count.
\<close>

section \<open>Loops that stop at an error\<close>

fun run_all :: "('a \<Rightarrow> 's \<Rightarrow> errno + 's) \<Rightarrow> 'a list \<Rightarrow> 's \<Rightarrow> errno + 's" where
  "run_all step [] s = Inr s"
| "run_all step (a # as) s = (case step a s of Inl e \<Rightarrow> Inl e | Inr s' \<Rightarrow> run_all step as s')"

lemma run_all_append:
  "run_all step (as @ bs) s = (case run_all step as s of Inl e \<Rightarrow> Inl e | Inr s' \<Rightarrow> run_all step bs s')"
  by (induction as arbitrary: s) (auto split: sum.splits)

locale packet_step =
  fixes ok :: "'s \<Rightarrow> bool"
    and bal :: "'s \<Rightarrow> 'b :: comm_monoid_add"
    and ids :: "'a \<Rightarrow> 'b"
    and step :: "'a \<Rightarrow> 's \<Rightarrow> errno + 's"
  assumes step_ok: "ok s \<Longrightarrow> step a s = Inr s' \<Longrightarrow> ok s' \<and> bal s' = bal s + ids a"
begin

lemma run_all_ok:
  "ok s \<Longrightarrow> run_all step as s = Inr s' \<Longrightarrow> ok s' \<and> bal s' = bal s + (\<Sum>a\<leftarrow>as. ids a)"
proof (induction as arbitrary: s)
  case (Cons a as)
  then obtain s1 where s1: "step a s = Inr s1" "run_all step as s1 = Inr s'"
    by (auto split: sum.splits)
  with step_ok [OF Cons.prems(1) s1(1)] Cons.IH [of s1] show ?case by (simp add: ac_simps)
qed simp

end

section \<open>Sums over a table\<close>

text \<open>
  One entry of a table is replaced and what the others count for stays the same: the new sum and the
  old entry balance the old sum and the new entry.
\<close>

lemma sum_list_update_entry:
  fixes f g :: "'a \<Rightarrow> 'b multiset"
  assumes "i < length xs" and "\<And>j. j < length xs \<Longrightarrow> j \<noteq> i \<Longrightarrow> g (xs ! j) = f (xs ! j)"
  shows "(\<Sum>x\<leftarrow>xs[i := y]. g x) + f (xs ! i) = (\<Sum>x\<leftarrow>xs. f x) + g y"
  using assms
proof (induction xs arbitrary: i)
  case (Cons x xs)
  show ?case
  proof (cases i)
    case 0
    have "(\<Sum>x\<leftarrow>xs. g x) = (\<Sum>x\<leftarrow>xs. f x)"
    proof (intro arg_cong [where f = sum_list] map_cong refl)
      fix z assume "z \<in> set xs"
      then obtain j where "j < length xs" "xs ! j = z" by (auto simp: in_set_conv_nth)
      then show "g z = f z" using Cons.prems(2) [of "Suc j"] 0 by simp
    qed
    with 0 show ?thesis by (simp add: ac_simps)
  next
    case (Suc k)
    have "(\<Sum>x\<leftarrow>xs[k := y]. g x) + f (xs ! k) = (\<Sum>x\<leftarrow>xs. f x) + g y"
    proof (rule Cons.IH)
      show "k < length xs" using Cons.prems(1) Suc by simp
      show "g (xs ! j) = f (xs ! j)" if "j < length xs" "j \<noteq> k" for j
        using Cons.prems(2) [of "Suc j"] Suc that by simp
    qed
    moreover have "g x = f x" using Cons.prems(2) [of 0] Suc by simp
    ultimately show ?thesis using Suc by (simp add: ac_simps)
  qed
qed simp

text \<open>Two balances of one entry combined.\<close>

lemma balance_swap:
  fixes S S' P P' B T :: "'b multiset"
  assumes "S' + P = S + P'" and "P' + B = P + T"
  shows "S' + B = S + T"
proof (rule multiset_eqI)
  fix x
  have "count S' x + count P x = count S x + count P' x" "count P' x + count B x = count P x + count T x"
    using arg_cong [OF assms(1), of "\<lambda>M. count M x"] arg_cong [OF assms(2), of "\<lambda>M. count M x"] by simp_all
  then show "count (S' + B) x = count (S + T) x" by simp
qed

lemma balance_add:
  fixes B B1 B2 P Q :: "'b multiset"
  assumes "B2 + Q = B1" and "B1 + P = B"
  shows "B2 + (P + Q) = B"
  unfolding assms(2) [symmetric] assms(1) [symmetric] by (simp add: ac_simps)

text \<open>Signed counts and multisets.\<close>

lemma net_counts:
  assumes "\<And>x. int (count A x) - int (count B x) = int (count C x) - int (count D x)"
  shows "A + D = C + B"
proof (rule multiset_eqI)
  fix x
  have "int (count (A + D) x) = int (count (C + B) x)" using assms [of x] by simp
  then show "count (A + D) x = count (C + B) x" by (simp only: of_nat_eq_iff)
qed

end
