(* ===== verification/Queues_Inv.thy ===== *)
theory Queues_Inv
  imports Queues Accounting
begin

text \<open>
  The invariant of the queue engine and the conservation of packets: every packet given to the
  engine is in the buffer of a queue pair, in its device, parked for inline processing, returned
  or freed, and never in two of these places.
\<close>

section \<open>Where the packets are\<close>

definition places :: "'d crypto_dev \<Rightarrow> 'd \<Rightarrow> cdev_qp \<Rightarrow> (nat \<times> nat option) multiset" where
  "places D d q = mset (map tag (cq_buf q)) + cd_held D d (qkey q)"

definition resident :: "'d crypto_dev \<Rightarrow> 'd ipsec_ctx \<Rightarrow> (nat \<times> nat option) multiset" where
  "resident D ctx = (\<Sum>q\<leftarrow>tbl ctx. places D (dev ctx) q) + mset (map tag (ol_pkts ctx))"

definition pids :: "pkt list \<Rightarrow> nat multiset" where
  "pids ps = mset (map pid ps)"

definition balance :: "'d crypto_dev \<Rightarrow> 'd ipsec_ctx \<Rightarrow> nat multiset" where
  "balance D ctx = image_mset fst (resident D ctx) + pids (freed ctx)"

text \<open>
  The invariant: queue pairs are different devices' queues, their buffers are never full, the
  in-flight counters are what the devices hold, every queued packet names an SA of the context.
\<close>

definition qp_ok :: "'d crypto_dev \<Rightarrow> 'd \<Rightarrow> cdev_qp \<Rightarrow> bool" where
  "qp_ok D d q \<longleftrightarrow> length (cq_buf q) < MAX_PKT_BURST \<and> unat (in_flight q) = size (cd_held D d (qkey q))"

definition tags_ok :: "nat \<Rightarrow> (nat \<times> nat option) multiset \<Rightarrow> bool" where
  "tags_ok n T \<longleftrightarrow> (\<forall>t \<in># T. \<exists>k < n. snd t = Some k)"

definition qinv :: "'d crypto_dev \<Rightarrow> 'd ipsec_ctx \<Rightarrow> bool" where
  "qinv D ctx \<longleftrightarrow>
     distinct (map qkey (tbl ctx)) \<and> (\<forall>q \<in> set (tbl ctx). qp_ok D (dev ctx) q) \<and>
     tags_ok (length (ctx_sas ctx)) (resident D ctx) \<and> length (ol_pkts ctx) \<le> MAX_PKT_BURST \<and>
     (tbl ctx = [] \<and> last_qp ctx = 0 \<or> last_qp ctx < length (tbl ctx))"

lemma pids_simps [simp]:
  "pids [] = {#}" "pids (p # ps) = add_mset (pid p) (pids ps)" "pids (ps @ qs) = pids ps + pids qs"
  by (simp_all add: pids_def)

lemma fst_tags [simp]:
  "image_mset fst (mset (map tag ps)) = pids ps" "image_mset fst (image_mset tag (mset ps)) = pids ps"
  by (simp_all add: pids_def tag_def image_mset.compositionality comp_def)

lemma pids_take_drop: "pids (take n ps) + pids (drop n ps) = pids ps"
  by (metis append_take_drop_id pids_simps(3))

lemma pids_rev [simp]: "pids (rev ps) = pids ps"
  by (simp add: pids_def rev_map [symmetric])

lemma tags_ok_add [simp]: "tags_ok n (T + U) \<longleftrightarrow> tags_ok n T \<and> tags_ok n U"
  by (auto simp: tags_ok_def)

lemma tags_ok_empty [simp]: "tags_ok n {#}"
  by (simp add: tags_ok_def)

lemma tags_ok_mono: "T \<subseteq># U \<Longrightarrow> tags_ok n U \<Longrightarrow> tags_ok n T"
  by (auto simp: tags_ok_def dest: mset_subset_eqD)

lemma crypto_dev_okD:
  assumes "crypto_dev_ok D"
  shows "cd_enq D d k ps = (n, d') \<Longrightarrow> n \<le> length ps \<and> cd_held D d' k = cd_held D d k + mset (map tag (take n ps)) \<and>
        size (cd_held D d' k) < 65536 \<and> (\<forall>k'. k' \<noteq> k \<longrightarrow> cd_held D d' k' = cd_held D d k')"
    and "cd_deq D d k m = (qs, d') \<Longrightarrow> length qs \<le> m \<and> cd_held D d k = cd_held D d' k + mset (map tag qs) \<and>
        (\<forall>k'. k' \<noteq> k \<longrightarrow> cd_held D d' k' = cd_held D d k')"
  using assms unfolding crypto_dev_ok_def by blast+

lemma unat_in_flight_add:
  assumes "unat (w :: u16) + n < 65536"
  shows "unat (w + of_nat n) = unat w + n"
proof -
  have "w + of_nat n = of_nat (unat w + n)" by simp
  then show ?thesis using assms by (simp only: unat_of_nat_u16)
qed

lemma unat_in_flight_sub:
  assumes "unat (w :: u16) = m + n"
  shows "unat (w - of_nat n) = m"
proof -
  have "w = of_nat (unat w)" by simp
  then have "w = of_nat (m + n)" by (simp only: assms)
  then have "w - of_nat n = of_nat m" by simp
  moreover have "m < 65536" using assms unat_u16_less [of w] by simp
  ultimately show ?thesis by (simp only: unat_of_nat_u16)
qed

section \<open>One queue pair changes\<close>

text \<open>
  The entry \<open>i\<close> of the table is replaced by \<open>q'\<close>, the device changes at most in that queue pair: the
  invariant of the table survives and the places balance.
\<close>

lemma qkey_other:
  assumes "distinct (map qkey t)" and "i < length t" and "j < length t" and "j \<noteq> i"
  shows "qkey (t ! j) \<noteq> qkey (t ! i)"
  using assms by (metis distinct_conv_nth length_map nth_map)

lemma qp_replace:
  assumes "distinct (map qkey t)" and "i < length t" and "qkey q' = qkey (t ! i)"
    and "\<forall>k. k \<noteq> qkey (t ! i) \<longrightarrow> cd_held D d' k = cd_held D d k"
  shows "distinct (map qkey (t[i := q']))"
    and "(\<Sum>q\<leftarrow>t[i := q']. places D d' q) + places D d (t ! i) = (\<Sum>q\<leftarrow>t. places D d q) + places D d' q'"
    and "\<forall>q \<in> set t. qp_ok D d q \<Longrightarrow> qp_ok D d' q' \<Longrightarrow> \<forall>q \<in> set (t[i := q']). qp_ok D d' q"
proof -
  have other: "cd_held D d' (qkey (t ! j)) = cd_held D d (qkey (t ! j))" if "j < length t" "j \<noteq> i" for j
    using assms(4) qkey_other [OF assms(1,2) that] by blast
  have "map qkey (t[i := q']) = map qkey t"
    using assms(2,3) by (metis list_update_id map_update nth_map)
  then show "distinct (map qkey (t[i := q']))" using assms(1) by simp
  show "(\<Sum>q\<leftarrow>t[i := q']. places D d' q) + places D d (t ! i) = (\<Sum>q\<leftarrow>t. places D d q) + places D d' q'"
    using assms(2) by (rule sum_list_update_entry) (simp add: places_def other)
  show "\<forall>q \<in> set (t[i := q']). qp_ok D d' q" if "\<forall>q \<in> set t. qp_ok D d q" and "qp_ok D d' q'"
  proof
    fix q assume "q \<in> set (t[i := q'])"
    then obtain j where j: "j < length t" "q = t[i := q'] ! j" by (auto simp: in_set_conv_nth)
    show "qp_ok D d' q"
      using j that other [of j] by (cases "j = i") (auto simp: qp_ok_def)
  qed
qed

lemma places_resident:
  assumes "q \<in> set (tbl ctx)"
  shows "places D (dev ctx) q \<subseteq># resident D ctx"
proof -
  have "q \<in> set xs \<Longrightarrow> f q \<subseteq># (\<Sum>q\<leftarrow>xs. f q)" for xs and f :: "cdev_qp \<Rightarrow> (nat \<times> nat option) multiset"
    by (induction xs) (auto intro: subset_mset.add_increasing)
  from this [OF assms] show ?thesis
    unfolding resident_def by (meson mset_subset_eq_add_left subset_mset.order_trans)
qed

lemma buf_resident:
  assumes "q \<in> set (tbl ctx)"
  shows "mset (map tag (cq_buf q)) \<subseteq># resident D ctx"
  using places_resident [OF assms] unfolding places_def
  by (meson mset_subset_eq_add_left subset_mset.order_trans)

lemma held_resident:
  assumes "q \<in> set (tbl ctx)"
  shows "cd_held D (dev ctx) (qkey q) \<subseteq># resident D ctx"
  using places_resident [OF assms] unfolding places_def
  by (meson mset_subset_eq_add_right subset_mset.order_trans)

text \<open>Packets handed to the device: \<open>b\<close> is what was in the buffer, with what came on top of it.\<close>

definition tagged :: "'d ipsec_ctx \<Rightarrow> pkt list \<Rightarrow> bool" where
  "tagged ctx ps \<longleftrightarrow> tags_ok (length (ctx_sas ctx)) (mset (map tag ps))"

lemma tagged_Nil [simp]: "tagged ctx []"
  by (simp add: tagged_def)

lemma tagged_append [simp]: "tagged ctx (ps @ qs) \<longleftrightarrow> tagged ctx ps \<and> tagged ctx qs"
  by (simp add: tagged_def)

lemma tagged_take: "tagged ctx ps \<Longrightarrow> tagged ctx (take n ps)"
  using tagged_append [of ctx "take n ps" "drop n ps"] by simp

lemma tagged_drop: "tagged ctx ps \<Longrightarrow> tagged ctx (drop n ps)"
  using tagged_append [of ctx "take n ps" "drop n ps"] by simp

lemma tagged_buf: "qinv D ctx \<Longrightarrow> q \<in> set (tbl ctx) \<Longrightarrow> tagged ctx (cq_buf q)"
  unfolding tagged_def qinv_def by (meson buf_resident tags_ok_mono)

lemma hand_over_ok:
  assumes D: "crypto_dev_ok D" and inv: "qinv D ctx" and i: "i < length (tbl ctx)" and b: "tagged ctx b"
    and enq: "cd_enq D (dev ctx) (qkey (tbl ctx ! i)) b = (n, d')"
    and e: "ctx' = drop_pkts (drop n b)
        (ctx\<lparr>tbl := (tbl ctx)[i := (tbl ctx ! i)\<lparr>in_flight := in_flight (tbl ctx ! i) + of_nat n, cq_buf := []\<rparr>], dev := d'\<rparr>)"
  shows "qinv D ctx' \<and> balance D ctx' + pids (cq_buf (tbl ctx ! i)) = balance D ctx + pids b"
proof -
  let ?q = "tbl ctx ! i" let ?q' = "?q\<lparr>in_flight := in_flight ?q + of_nat n, cq_buf := []\<rparr>"
  have dist: "distinct (map qkey (tbl ctx))" and qok: "\<forall>q \<in> set (tbl ctx). qp_ok D (dev ctx) q"
    using inv by (simp_all add: qinv_def)
  note h = crypto_dev_okD(1) [OF D enq]
  have "length (take n b) = n" using h by (simp only: length_take min_absorb2)
  then have "unat (in_flight ?q) + n = size (cd_held D d' (qkey ?q))"
    using qok i h by (simp add: qp_ok_def)
  then have q': "qkey ?q' = qkey ?q" "qp_ok D d' ?q'"
    using h unat_in_flight_add [of "in_flight ?q" n] by (auto simp: qkey_def qp_ok_def MAX_PKT_BURST_def)
  note r = qp_replace [OF dist i q'(1), of D d' "dev ctx"]
  have "places D d' ?q' + mset (map tag (cq_buf ?q)) = places D (dev ctx) ?q + mset (map tag (take n b))"
    using h by (simp only: places_def q'(1)) simp
  from balance_swap [OF r(2) this] h
  have res: "resident D ctx' + mset (map tag (cq_buf ?q)) = resident D ctx + mset (map tag (take n b))"
    unfolding e by (simp add: drop_pkts_def resident_def ac_simps)
  have f: "freed ctx' = freed ctx @ drop n b" unfolding e by (simp add: drop_pkts_def)
  have "balance D ctx' + pids (cq_buf ?q) =
      image_mset fst (resident D ctx' + mset (map tag (cq_buf ?q))) + pids (freed ctx) + pids (drop n b)"
    by (simp only: balance_def f pids_simps image_mset_union fst_tags ac_simps)
  also have "\<dots> = image_mset fst (resident D ctx) + pids (freed ctx) + (pids (take n b) + pids (drop n b))"
    by (simp only: res image_mset_union fst_tags ac_simps)
  also have "\<dots> = balance D ctx + pids b"
    by (simp only: pids_take_drop balance_def)
  finally have "balance D ctx' + pids (cq_buf ?q) = balance D ctx + pids b" .
  moreover have "tags_ok (length (ctx_sas ctx)) (resident D ctx')"
    using inv tagged_take [OF b, of n] res by (metis qinv_def tagged_def tags_ok_add)
  ultimately show ?thesis
    using r inv qok q'(2) h by (simp add: e qinv_def drop_pkts_def)
qed

lemma buffer_ok:
  assumes inv: "qinv D ctx" and i: "i < length (tbl ctx)" and b: "tagged ctx ps"
    and len: "length (cq_buf (tbl ctx ! i) @ ps) < MAX_PKT_BURST"
    and e: "ctx' = ctx\<lparr>tbl := (tbl ctx)[i := (tbl ctx ! i)\<lparr>cq_buf := cq_buf (tbl ctx ! i) @ ps\<rparr>]\<rparr>"
  shows "qinv D ctx' \<and> balance D ctx' = balance D ctx + pids ps"
proof -
  let ?q = "tbl ctx ! i" let ?q' = "?q\<lparr>cq_buf := cq_buf ?q @ ps\<rparr>"
  have dist: "distinct (map qkey (tbl ctx))" and qok: "\<forall>q \<in> set (tbl ctx). qp_ok D (dev ctx) q"
    using inv by (simp_all add: qinv_def)
  have q': "qkey ?q' = qkey ?q" "qp_ok D (dev ctx) ?q'"
    using qok i len by (auto simp: qkey_def qp_ok_def)
  note r = qp_replace [OF dist i q'(1), of D "dev ctx" "dev ctx", simplified]
  have "places D (dev ctx) ?q' = places D (dev ctx) ?q + mset (map tag ps)"
    by (simp add: places_def q'(1) ac_simps)
  with r(2) have res: "resident D ctx' = resident D ctx + mset (map tag ps)"
    by (simp add: e resident_def ac_simps)
  moreover have "tags_ok (length (ctx_sas ctx)) (resident D ctx')"
    using inv b by (simp add: res qinv_def tagged_def del: mset_map)
  ultimately show ?thesis
    using r inv qok q'(2) by (simp add: e qinv_def balance_def ac_simps)
qed

lemma enqueue_cop_ok:
  assumes D: "crypto_dev_ok D" and inv: "qinv D ctx" and i: "i < length (tbl ctx)"
    and p: "\<exists>k < length (ctx_sas ctx). p_sa p = Some k"
  shows "qinv D (enqueue_cop D i p ctx) \<and> balance D (enqueue_cop D i p ctx) = balance D ctx + {#pid p#}"
proof -
  let ?b = "cq_buf (tbl ctx ! i) @ [p]"
  have p: "tagged ctx [p]" using p by (simp add: tagged_def tags_ok_def tag_def)
  have "qp_ok D (dev ctx) (tbl ctx ! i)" using inv i by (simp add: qinv_def)
  then have len: "length ?b \<le> MAX_PKT_BURST" by (simp add: qp_ok_def)
  show ?thesis
  proof (cases "length ?b = MAX_PKT_BURST")
    case False
    then have e: "enqueue_cop D i p ctx = ctx\<lparr>tbl := (tbl ctx)[i := (tbl ctx ! i)\<lparr>cq_buf := ?b\<rparr>]\<rparr>"
      by (simp add: enqueue_cop_def Let_def)
    show ?thesis using buffer_ok [OF inv i p _ e] False len by simp
  next
    case True
    obtain n d' where enq: "cd_enq D (dev ctx) (qkey (tbl ctx ! i)) ?b = (n, d')" by fastforce
    have "qkey ((tbl ctx ! i)\<lparr>cq_buf := ?b\<rparr>) = qkey (tbl ctx ! i)" by (simp add: qkey_def)
    then have e: "enqueue_cop D i p ctx = drop_pkts (drop n ?b)
        (ctx\<lparr>tbl := (tbl ctx)[i := (tbl ctx ! i)\<lparr>in_flight := in_flight (tbl ctx ! i) + of_nat n, cq_buf := []\<rparr>], dev := d'\<rparr>)"
      using True i enq by (simp add: enqueue_cop_def enqueue_cop_burst_def Let_def)
    have "tagged ctx ?b" using p tagged_buf [OF inv] i by simp
    from hand_over_ok [OF D inv i this enq e] show ?thesis by simp
  qed
qed

section \<open>Taking packets in loses none\<close>

lemma set_sa_simps [simp]:
  "tbl (set_sa i sa ctx) = tbl ctx" "dev (set_sa i sa ctx) = dev ctx" "ol_pkts (set_sa i sa ctx) = ol_pkts ctx"
  "freed (set_sa i sa ctx) = freed ctx" "last_qp (set_sa i sa ctx) = last_qp ctx"
  "length (ctx_sas (set_sa i sa ctx)) = length (ctx_sas ctx)"
  by (simp_all add: set_sa_def)

lemma set_sa_inv [simp]:
  "qinv D (set_sa i sa ctx) = qinv D ctx" "balance D (set_sa i sa ctx) = balance D ctx"
  "resident D (set_sa i sa ctx) = resident D ctx"
  by (simp_all add: qinv_def balance_def resident_def)

lemma drop_pkts_inv [simp]:
  "qinv D (drop_pkts ps ctx) = qinv D ctx" "balance D (drop_pkts ps ctx) = balance D ctx + pids ps"
  by (simp_all add: qinv_def balance_def resident_def drop_pkts_def ac_simps)

lemma fresh_cop_simps [simp]: "pid (fresh_cop p) = pid p" "p_sa (fresh_cop p) = p_sa p" "pbuf (fresh_cop p) = pbuf p"
  by (simp_all add: fresh_cop_def)

definition has_sa :: "'d ipsec_ctx \<Rightarrow> pkt \<Rightarrow> bool" where
  "has_sa ctx p \<longleftrightarrow> (\<exists>k < length (ctx_sas ctx). p_sa p = Some k)"

lemma has_sa_set_sa [simp]: "has_sa (set_sa i sa ctx) p = has_sa ctx p"
  by (simp add: has_sa_def)

lemma has_sa_upd [simp]:
  "has_sa ctx (p\<lparr>p_ses := h\<rparr>) = has_sa ctx p" "has_sa ctx (p\<lparr>pbuf := m\<rparr>) = has_sa ctx p"
  "has_sa ctx (fresh_cop p) = has_sa ctx p"
  by (simp_all add: has_sa_def)

text \<open>The shape of the lemmas below: the invariant is kept and the balance grows by \<open>M\<close>.\<close>

definition grows :: "'d crypto_dev \<Rightarrow> 'd ipsec_ctx \<Rightarrow> nat multiset \<Rightarrow> 'd ipsec_ctx \<Rightarrow> bool" where
  "grows D ctx M ctx' \<longleftrightarrow>
     qinv D ctx' \<and> balance D ctx' = balance D ctx + M \<and> length (ctx_sas ctx') = length (ctx_sas ctx) \<and>
     length (tbl ctx') = length (tbl ctx)"

lemma enqueue_cop_simps [simp]:
  "length (tbl (enqueue_cop D i p ctx)) = length (tbl ctx)" "ctx_sas (enqueue_cop D i p ctx) = ctx_sas ctx"
  "ol_pkts (enqueue_cop D i p ctx) = ol_pkts ctx"
  by (simp_all add: enqueue_cop_def enqueue_cop_burst_def drop_pkts_def Let_def split: prod.splits)

lemma to_qp_grows:
  assumes "crypto_dev_ok (ce_dev E)" and "qinv (ce_dev E) ctx" and "has_sa ctx p" and "to_qp E i p ctx = Inr ctx'"
  shows "grows (ce_dev E) ctx {#pid p#} ctx'"
  using assms enqueue_cop_ok [OF assms(1,2)]
  by (auto simp: to_qp_def Let_def grows_def has_sa_def split: if_splits)

lemma push_ol_grows:
  assumes "qinv D ctx" and "has_sa ctx p" and "push_ol E i p ctx = Inr ctx'"
  shows "grows D ctx {#pid p#} ctx'"
proof -
  define p' where "p' = (let sa = ctx_sas ctx ! i in if need_mdata (primary sa) then p\<lparr>pbuf := ce_mdata E sa (pbuf p)\<rparr> else p)"
  have len: "length (ol_pkts ctx) < MAX_PKT_BURST" and c: "ctx' = ctx\<lparr>ol_pkts := ol_pkts ctx @ [p']\<rparr>"
    using assms(3) by (auto simp: push_ol_def p'_def Let_def split: if_split_asm)
  have t: "tag p' = tag p" by (simp add: p'_def tag_def Let_def)
  have res: "resident D ctx' = resident D ctx + {#tag p#}" by (simp add: c resident_def t)
  moreover have "tags_ok (length (ctx_sas ctx)) {#tag p#}"
    using assms(2) by (simp add: tags_ok_def tag_def has_sa_def)
  ultimately have "tags_ok (length (ctx_sas ctx)) (resident D ctx')"
    using assms(1) by (simp add: qinv_def del: union_mset_add_mset_right)
  moreover have "balance D ctx' = balance D ctx + {#pid p#}"
    by (simp add: balance_def res tag_def) (simp add: c)
  ultimately show ?thesis using assms(1) len by (simp add: grows_def qinv_def c)
qed

lemma drop_grows: "qinv D ctx \<Longrightarrow> grows D ctx (pids ps) (drop_pkts ps ctx)"
  by (simp add: grows_def) (simp add: drop_pkts_def)

lemma grows_set_sa: "grows D (set_sa i sa ctx) M ctx' = grows D ctx M ctx'"
  by (simp add: grows_def)

lemma with_session_set_sa: "with_session E i ctx = Some ctx' \<Longrightarrow> \<exists>sa. ctx' = set_sa i sa ctx"
  by (auto simp: with_session_def set_sa_def split: if_splits sum.splits intro: exI [of _ "ctx_sas ctx ! i"])

lemma run_xform_set_sa:
  "run_xform xf i p ctx = Inr (r, ctx') \<Longrightarrow>
     \<exists>sa. ctx' = set_sa i sa ctx \<and> (\<forall>p'. r = Some p' \<longrightarrow> pid p' = pid p \<and> p_sa p' = p_sa p)"
  by (auto simp: run_xform_def split: prod.splits sum.splits if_splits)

lemma enqueue_lookaside_protocol_grows:
  assumes "crypto_dev_ok (ce_dev E)" and "qinv (ce_dev E) ctx" and "has_sa ctx p"
    and "enqueue_lookaside_protocol E i p ctx = Inr ctx'"
  shows "grows (ce_dev E) ctx {#pid p#} ctx'"
proof (cases "with_session E i ctx")
  case None
  then show ?thesis
    using assms(2,4) drop_grows [of "ce_dev E" ctx "[fresh_cop p]"] by (simp add: enqueue_lookaside_protocol_def)
next
  case (Some ctx1)
  then obtain sa where c1: "ctx1 = set_sa i sa ctx" using with_session_set_sa by blast
  then have q1: "qinv (ce_dev E) ctx1" "has_sa ctx1 p" using assms(2,3) by simp_all
  have "grows (ce_dev E) ctx1 {#pid p#} ctx'"
    using assms(4) Some drop_grows [OF q1(1), of "[fresh_cop p]"] q1(2)
    by (auto simp: enqueue_lookaside_protocol_def split: if_splits dest!: to_qp_grows [OF assms(1) q1(1), rotated])
  then show ?thesis by (simp add: c1 grows_set_sa)
qed

lemma enqueue_none_grows:
  assumes "crypto_dev_ok (ce_dev E)" and "qinv (ce_dev E) ctx" and "has_sa ctx p"
    and "enqueue_none E xf i p ctx = Inr ctx'"
  shows "grows (ce_dev E) ctx {#pid p#} ctx'"
proof (cases "with_session E i ctx")
  case None
  then show ?thesis
    using assms(2,4) drop_grows [of "ce_dev E" ctx "[fresh_cop p]"] by (simp add: enqueue_none_def)
next
  case (Some ctx1)
  let ?p1 = "(fresh_cop p)\<lparr>p_ses := ses (primary (ctx_sas ctx1 ! i))\<rparr>"
  obtain sa where c1: "ctx1 = set_sa i sa ctx" using with_session_set_sa [OF Some] by blast
  obtain r ctx2 where x: "run_xform xf i ?p1 ctx1 = Inr (r, ctx2)"
    using assms(4) Some by (auto simp: enqueue_none_def Let_def split: sum.splits)
  obtain sa2 where c2: "ctx2 = set_sa i sa2 ctx1"
    and r: "\<forall>p'. r = Some p' \<longrightarrow> pid p' = pid ?p1 \<and> p_sa p' = p_sa ?p1"
    using run_xform_set_sa [OF x] by blast
  have q2: "qinv (ce_dev E) ctx2" using assms(2) by (simp add: c1 c2)
  have "grows (ce_dev E) ctx2 {#pid p#} ctx'"
  proof (cases r)
    case None
    with x Some assms(4) have "ctx' = drop_pkts [?p1] ctx2" by (simp add: enqueue_none_def Let_def)
    then show ?thesis using drop_grows [OF q2, of "[?p1]"] by simp
  next
    case (Some p2)
    with x \<open>with_session E i ctx = Some ctx1\<close> assms(4) have "to_qp E i p2 ctx2 = Inr ctx'"
      by (simp add: enqueue_none_def Let_def)
    moreover have "has_sa ctx2 p2" "pid p2 = pid p" using Some r assms(3) by (simp_all add: c1 c2 has_sa_def)
    ultimately show ?thesis using to_qp_grows [OF assms(1) q2] by metis
  qed
  then show ?thesis by (simp add: c1 c2 grows_set_sa)
qed

lemma enqueue_inline_crypto_grows:
  assumes "qinv D ctx" and "has_sa ctx p" and "enqueue_inline_crypto E xf i p ctx = Inr ctx'"
  shows "grows D ctx {#pid p#} ctx'"
proof -
  let ?p1 = "(fresh_cop p)\<lparr>p_ses := ses (primary (ctx_sas ctx ! i))\<rparr>"
  obtain r ctx2 where x: "run_xform xf i ?p1 ctx = Inr (r, ctx2)"
    using assms(3) by (auto simp: enqueue_inline_crypto_def Let_def split: sum.splits)
  obtain sa2 where c2: "ctx2 = set_sa i sa2 ctx"
    and r: "\<forall>p'. r = Some p' \<longrightarrow> pid p' = pid ?p1 \<and> p_sa p' = p_sa ?p1"
    using run_xform_set_sa [OF x] by blast
  have q2: "qinv D ctx2" using assms(1) by (simp add: c2)
  have "grows D ctx2 {#pid p#} ctx'"
  proof (cases r)
    case None
    with x assms(3) have "ctx' = drop_pkts [?p1] ctx2" by (simp add: enqueue_inline_crypto_def Let_def)
    then show ?thesis using drop_grows [OF q2, of "[?p1]"] by simp
  next
    case (Some p2)
    with x assms(3) have "push_ol E i p2 ctx2 = Inr ctx'" by (simp add: enqueue_inline_crypto_def Let_def)
    moreover have "has_sa ctx2 p2" "pid p2 = pid p" using Some r assms(2) by (simp_all add: c2 has_sa_def)
    ultimately show ?thesis using push_ol_grows [OF q2] by metis
  qed
  then show ?thesis by (simp add: c2 grows_set_sa)
qed

lemma ipsec_enqueue1_grows:
  assumes "crypto_dev_ok (ce_dev E)" and "qinv (ce_dev E) ctx" and "ipsec_enqueue1 E xf p s ctx = Inr ctx'"
  shows "grows (ce_dev E) ctx {#pid p#} ctx'"
proof (cases s)
  case None
  then show ?thesis using assms(2,3) drop_grows [of "ce_dev E" ctx "[p]"] by (simp add: ipsec_enqueue1_def)
next
  case (Some x)
  obtain i fb where s: "s = Some (i, fb)" using Some by (cases x) simp
  let ?p = "p\<lparr>p_sa := Some i\<rparr>"
  have i: "i < length (ctx_sas ctx)" using assms(3) s by (auto simp: ipsec_enqueue1_def split: if_splits)
  then have h: "has_sa ctx ?p" by (simp add: has_sa_def)
  show ?thesis
    using assms(3) s i drop_grows [OF assms(2), of "[?p]"] push_ol_grows [OF assms(2) h]
      enqueue_lookaside_protocol_grows [OF assms(1,2) h] enqueue_none_grows [OF assms(1,2) h]
      enqueue_inline_crypto_grows [OF assms(2) h]
    by (cases "ses_type (primary (ctx_sas ctx ! i))") (auto simp: ipsec_enqueue1_def)
qed

text \<open>The loop of \<open>ipsec_enqueue\<close> is a loop of conserving steps.\<close>

lemma ipsec_enqueue_run_all:
  "ipsec_enqueue E xf ps ctx = run_all (\<lambda>(p, s). ipsec_enqueue1 E xf p s) ps ctx"
  by (induction ps arbitrary: ctx) (auto split: sum.splits)

interpretation enq_step: packet_step
  "\<lambda>ctx. crypto_dev_ok (ce_dev E) \<and> qinv (ce_dev E) ctx" "balance (ce_dev E)" "\<lambda>(p, s). {#pid p#}"
  "\<lambda>(p, s). ipsec_enqueue1 E xf p s" for E xf
  by unfold_locales (auto dest: ipsec_enqueue1_grows simp: grows_def split: prod.splits)

lemma sum_list_singletons: "(\<Sum>x\<leftarrow>xs. {#f x#}) = mset (map f xs)"
  by (induction xs) auto

lemma ipsec_enqueue_grows:
  assumes "crypto_dev_ok (ce_dev E)" and "qinv (ce_dev E) ctx" and "ipsec_enqueue E xf ps ctx = Inr ctx'"
  shows "qinv (ce_dev E) ctx' \<and> balance (ce_dev E) ctx' = balance (ce_dev E) ctx + pids (map fst ps)"
proof -
  have "(\<Sum>a\<leftarrow>ps. case a of (p, s) \<Rightarrow> {#pid p#}) = pids (map fst ps)"
    by (simp add: case_prod_unfold sum_list_singletons pids_def comp_def)
  then show ?thesis
    using enq_step.run_all_ok [of E ctx xf ps ctx'] assms by (simp add: ipsec_enqueue_run_all)
qed

section \<open>Giving packets back loses none\<close>

lemma run_post_pid: "run_post post sas p = Inr (Some p') \<Longrightarrow> pid p' = pid p"
  by (auto simp: run_post_def split: option.splits sum.splits if_splits)

lemma inline_drain_ok:
  "inline_drain post sas room ps = Inr (out, bad, rest) \<Longrightarrow>
     \<exists>n. rest = drop n ps \<and> pids out + pids bad = pids (take n ps) \<and> length out \<le> room \<and>
       (rest \<noteq> [] \<longrightarrow> length out = room)"
proof (induction post sas room ps arbitrary: out bad rest rule: inline_drain.induct)
  case (1 post sas room)
  then show ?case by simp
next
  case (2 post sas room p ps)
  show ?case
  proof (cases "room = 0")
    case True
    with "2.prems" show ?thesis by (auto intro!: exI [of _ 0])
  next
    case False
    with "2.prems" obtain r where r: "run_post post sas p = Inr r" by (auto split: sum.splits)
    show ?thesis
    proof (cases r)
      case None
      with False r "2.prems" obtain bad' where "bad = p # bad'" "inline_drain post sas room ps = Inr (out, bad', rest)"
        by (auto split: sum.splits)
      with "2.IH"(1) [OF False r None] obtain n where
        "rest = drop n ps" "pids out + pids bad' = pids (take n ps)" "length out \<le> room" "rest \<noteq> [] \<longrightarrow> length out = room"
        by blast
      with \<open>bad = p # bad'\<close> show ?thesis by (intro exI [of _ "Suc n"]) simp
    next
      case (Some p')
      with False r "2.prems" obtain out' where o: "out = p' # out'" "inline_drain post sas (room - 1) ps = Inr (out', bad, rest)"
        by (auto split: sum.splits)
      with "2.IH"(2) [OF False r Some] obtain n where
        "rest = drop n ps" "pids out' + pids bad = pids (take n ps)" "length out' \<le> room - 1" "rest \<noteq> [] \<longrightarrow> length out' = room - 1"
        by blast
      with o False run_post_pid [of post sas p p'] r Some show ?thesis by (intro exI [of _ "Suc n"]) auto
    qed
  qed
qed

text \<open>The shape of what a dequeue does: some of the balance is returned.\<close>

definition yields :: "'d crypto_dev \<Rightarrow> 'd ipsec_ctx \<Rightarrow> pkt list \<Rightarrow> 'd ipsec_ctx \<Rightarrow> bool" where
  "yields D ctx out ctx' \<longleftrightarrow>
     qinv D ctx' \<and> balance D ctx' + pids out = balance D ctx \<and> ctx_sas ctx' = ctx_sas ctx \<and>
     length (tbl ctx') = length (tbl ctx)"

lemma size_pids [simp]: "size (pids ps) = length ps"
  by (simp add: pids_def)

lemma ipsec_inline_dequeue_yields:
  assumes "qinv D ctx" and "ipsec_inline_dequeue post max_pkts ctx = Inr (out, ctx')"
  shows "yields D ctx out ctx' \<and> length out \<le> max_pkts \<and>
    (ol_pkts ctx' \<noteq> [] \<longrightarrow> length out = max_pkts \<and> max_pkts < length (ol_pkts ctx))"
proof -
  obtain bad rest where d: "inline_drain post (ctx_sas ctx) max_pkts (rev (ol_pkts ctx)) = Inr (out, bad, rest)"
    and c: "ctx' = drop_pkts bad (ctx\<lparr>ol_pkts := rev rest\<rparr>)"
    using assms(2) by (auto simp: ipsec_inline_dequeue_def split: sum.splits)
  obtain n where rest: "rest = drop n (rev (ol_pkts ctx))"
    and m: "pids out + pids bad = pids (take n (rev (ol_pkts ctx)))" and len: "length out \<le> max_pkts"
    and full: "rest \<noteq> [] \<longrightarrow> length out = max_pkts"
    using inline_drain_ok [OF d] by blast
  let ?r = "rev (ol_pkts ctx)"
  have split: "mset (map tag (take n ?r)) + mset (map tag rest) = mset (map tag (ol_pkts ctx))"
    unfolding rest by (metis append_take_drop_id map_append mset_append mset_rev rev_map)
  have "resident D ctx = resident D ctx' + mset (map tag (take n ?r))"
    unfolding c using split by (simp add: resident_def drop_pkts_def rev_map [symmetric] ac_simps)
  then have sub: "resident D ctx' \<subseteq># resident D ctx"
    and bal: "image_mset fst (resident D ctx) = image_mset fst (resident D ctx') + (pids out + pids bad)"
    by (simp_all add: m)
  have "tags_ok (length (ctx_sas ctx)) (resident D ctx')"
    using assms(1) sub by (auto simp: qinv_def intro: tags_ok_mono)
  moreover have "length rest \<le> MAX_PKT_BURST" using assms(1) by (auto simp: rest qinv_def)
  ultimately have "qinv D ctx'" using assms(1) by (simp add: qinv_def c drop_pkts_def resident_def)
  moreover have "balance D ctx' + pids out = balance D ctx"
    using bal by (simp add: balance_def) (simp add: c drop_pkts_def ac_simps)
  moreover have "length out \<le> n" if "rest \<noteq> []"
  proof -
    have "length out + length bad = length (take n ?r)" using arg_cong [OF m, of size] by simp
    then show ?thesis by simp
  qed
  moreover have "n < length (ol_pkts ctx)" if "rest \<noteq> []" using that by (simp add: rest)
  ultimately show ?thesis using len full by (fastforce simp: yields_def c drop_pkts_def)
qed

lemma finish_cops_ok:
  "finish_cops post sas ps = Inr (out, bad) \<Longrightarrow> pids out + pids bad = pids ps \<and> length out \<le> length ps"
proof (induction ps arbitrary: out bad)
  case (Cons p ps)
  then obtain r o' b' where r: "finish_cop post sas p = Inr r" and t: "finish_cops post sas ps = Inr (o', b')"
    by (auto split: sum.splits prod.splits)
  have "r = Some p' \<Longrightarrow> pid p' = pid p" for p'
    using r by (auto simp: finish_cop_def split: option.splits if_splits dest: run_post_pid)
  with Cons.IH [OF t] Cons.prems r t show ?case by (auto split: option.splits)
qed simp

lemma next_qp_simps [simp]:
  "tbl (next_qp ctx) = tbl ctx" "dev (next_qp ctx) = dev ctx" "ol_pkts (next_qp ctx) = ol_pkts ctx"
  "freed (next_qp ctx) = freed ctx" "ctx_sas (next_qp ctx) = ctx_sas ctx"
  by (simp_all add: next_qp_def)

text \<open>Finished operations taken back from the device of one queue pair.\<close>

lemma take_back_ok:
  assumes D: "crypto_dev_ok D" and inv: "qinv D ctx" and i: "i < length (tbl ctx)"
    and dq: "cd_deq D (dev ctx) (qkey (tbl ctx ! i)) n = (cops, d')"
    and c: "ctx' = ctx\<lparr>tbl := (tbl ctx)[i := (tbl ctx ! i)\<lparr>in_flight := in_flight (tbl ctx ! i) - of_nat (length cops)\<rparr>], dev := d'\<rparr>"
  shows "qinv D ctx' \<and> balance D ctx' + pids cops = balance D ctx"
proof -
  let ?q = "tbl ctx ! i" let ?q' = "?q\<lparr>in_flight := in_flight ?q - of_nat (length cops)\<rparr>"
  note h = crypto_dev_okD(2) [OF D dq]
  have dist: "distinct (map qkey (tbl ctx))" and qok: "\<forall>q \<in> set (tbl ctx). qp_ok D (dev ctx) q"
    using inv by (simp_all add: qinv_def)
  have qi: "qp_ok D (dev ctx) ?q" using qok i by simp
  have "unat (in_flight ?q) = size (cd_held D d' (qkey ?q)) + length cops"
    using qi h by (simp add: qp_ok_def)
  then have q': "qkey ?q' = qkey ?q" "qp_ok D d' ?q'"
    using qi unat_in_flight_sub by (auto simp: qkey_def qp_ok_def)
  have other: "\<forall>k. k \<noteq> qkey ?q \<longrightarrow> cd_held D d' k = cd_held D (dev ctx) k" using h by blast
  note r = qp_replace [OF dist i q'(1) other]
  have "places D d' ?q' + mset (map tag cops) = places D (dev ctx) ?q + {#}"
    using h by (simp add: places_def q'(1) ac_simps)
  from balance_swap [OF r(2) this]
  have res: "resident D ctx' + mset (map tag cops) = resident D ctx"
    unfolding c by (simp add: resident_def ac_simps)
  have "tags_ok (length (ctx_sas ctx)) (resident D ctx')"
    using inv by (metis qinv_def res tags_ok_add)
  then have "qinv D ctx'" using inv r(1) r(3) [OF qok q'(2)] by (simp add: qinv_def c)
  moreover have "balance D ctx' + pids cops = balance D ctx"
    unfolding balance_def res [symmetric] by (simp add: c ac_simps)
  ultimately show ?thesis ..
qed

lemma visit_qp_yields:
  assumes D: "crypto_dev_ok D" and inv: "qinv D ctx" and ne: "tbl ctx \<noteq> []"
    and v: "visit_qp D post n ctx = Inr (out, ctx')"
  shows "yields D ctx out ctx' \<and> length out \<le> n \<and> last_qp ctx' = (last_qp ctx + 1) mod length (tbl ctx)"
proof -
  let ?i = "last_qp ctx" let ?q = "tbl ctx ! ?i"
  have i: "?i < length (tbl ctx)" using inv ne by (simp add: qinv_def)
  have lst: "last_qp (next_qp ctx) = (?i + 1) mod length (tbl ctx)"
    using i by (auto simp: next_qp_def)
  then have lt: "last_qp (next_qp ctx) < length (tbl ctx)" using i by (metis mod_less_divisor gr_implies_not0 not_gr_zero)
  have nq: "qinv D (next_qp ctx)" "balance D (next_qp ctx) = balance D ctx"
    using inv lt by (simp_all add: qinv_def resident_def balance_def)
  show ?thesis
  proof (cases "in_flight ?q = 0")
    case True
    with v have "out = []" and "ctx' = next_qp ctx" by (simp_all add: visit_qp_def Let_def)
    then show ?thesis using lst nq by (simp add: yields_def)
  next
    case False
    obtain cops d' where dq: "cd_deq D (dev ctx) (qkey ?q) n = (cops, d')" by fastforce
    define c1 where "c1 = (next_qp ctx)\<lparr>tbl := (tbl ctx)[?i := ?q\<lparr>in_flight := in_flight ?q - of_nat (length cops)\<rparr>], dev := d'\<rparr>"
    obtain bad where f: "finish_cops post (ctx_sas ctx) cops = Inr (out, bad)" and c: "ctx' = drop_pkts bad c1"
      using v False dq by (auto simp: visit_qp_def Let_def c1_def split: sum.splits)
    have "qinv D c1 \<and> balance D c1 + pids cops = balance D (next_qp ctx)"
      by (rule take_back_ok [OF D nq(1), of ?i n cops d']) (use i dq in \<open>simp_all add: c1_def\<close>)
    then have q1: "qinv D c1" and b1: "balance D c1 + pids cops = balance D ctx" by (simp_all add: nq)
    note fo = finish_cops_ok [OF f]
    have "balance D ctx' + pids out = balance D c1 + (pids out + pids bad)" by (simp add: c ac_simps)
    also have "\<dots> = balance D ctx" using fo b1 by simp
    finally have "balance D ctx' + pids out = balance D ctx" .
    moreover have "qinv D ctx'" using q1 by (simp add: c)
    moreover have "length cops \<le> n" using crypto_dev_okD(2) [OF D dq] by blast
    ultimately show ?thesis using lst fo by (simp add: yields_def) (simp add: c c1_def drop_pkts_def)
  qed
qed

lemma yields_trans:
  "yields D c1 o1 c2 \<Longrightarrow> yields D c2 o2 c3 \<Longrightarrow> yields D c1 (o1 @ o2) c3"
  by (simp add: yields_def) (metis union_assoc union_commute)

lemma dequeue_loop_yields:
  assumes D: "crypto_dev_ok D"
  shows "qinv D ctx \<Longrightarrow> tbl ctx \<noteq> [] \<Longrightarrow> dequeue_loop D post k room ctx = Inr (out, ctx') \<Longrightarrow>
    yields D ctx out ctx' \<and> length out \<le> room \<and>
    (\<exists>j \<le> k. last_qp ctx' = (last_qp ctx + j) mod length (tbl ctx) \<and> (j < k \<longrightarrow> length out = room))"
proof (induction k arbitrary: room ctx out)
  case 0
  then have "last_qp ctx < length (tbl ctx)" by (simp add: qinv_def)
  with 0 show ?case by (auto simp: yields_def)
next
  case (Suc k)
  have lt: "last_qp ctx < length (tbl ctx)" using Suc.prems by (simp add: qinv_def)
  show ?case
  proof (cases "room = 0")
    case True
    then show ?thesis using Suc.prems lt by (auto simp: yields_def intro!: exI [of _ 0])
  next
    case False
    then obtain o1 c1 o2 where v: "visit_qp D post room ctx = Inr (o1, c1)"
      and l: "dequeue_loop D post k (room - length o1) c1 = Inr (o2, ctx')" and o: "out = o1 @ o2"
      using Suc.prems(3) by (auto split: sum.splits)
    have y1: "yields D ctx o1 c1" "length o1 \<le> room" "last_qp c1 = (last_qp ctx + 1) mod length (tbl ctx)"
      using visit_qp_yields [OF D Suc.prems(1,2) v] by blast+
    then have "qinv D c1" and len: "length (tbl c1) = length (tbl ctx)" and "tbl c1 \<noteq> []"
      using Suc.prems(2) by (auto simp: yields_def)
    with Suc.IH [OF _ _ l] obtain j where y2: "yields D c1 o2 ctx'" "length o2 \<le> room - length o1"
      and j: "j \<le> k" "last_qp ctx' = (last_qp c1 + j) mod length (tbl c1)" "j < k \<longrightarrow> length o2 = room - length o1"
      by blast
    have "last_qp ctx' = (last_qp ctx + Suc j) mod length (tbl ctx)"
      using j(2) by (simp add: len y1(3) mod_simps)
    then show ?thesis
      using y1 y2 j yields_trans [OF y1(1) y2(1)] by (auto simp: o intro!: exI [of _ "Suc j"])
  qed
qed

section \<open>The engine as a whole\<close>

lemma inbound_sa_lookup_length:
  assumes "inbound_sa_lookup api sas sad cache ms = Inr (rs, cache')"
  shows "length rs = length ms"
proof -
  have scan: "sad_scan c s u ms = Inr ps \<Longrightarrow> length ps = length ms" for c s u ps
    by (induction ms arbitrary: u ps) (auto simp: Let_def split: sum.splits if_splits)
  have res: "sad_results a s d ps ms = Inr qs \<Longrightarrow> length ps = length ms \<Longrightarrow> length qs = length ms" for a s and d :: "'a ipsec_sad" and ps qs
    by (induction ps ms arbitrary: qs rule: list_induct2') (auto split: sum.splits)
  obtain qs c where "sad_lookup api sas sad cache ms = Inr (qs, c)" and rs: "length rs = min (length qs) (length ms)"
    using assms by (auto simp: inbound_sa_lookup_def split: sum.splits)
  then have "length qs = length ms"
    by (auto simp: sad_lookup_def split: sum.splits dest!: scan intro: res)
  then show ?thesis using rs by simp
qed

lemma ipsec_inbound_ok:
  assumes "crypto_dev_ok (ce_dev E)" and "qinv (ce_dev E) ctx"
    and "ipsec_inbound E api sapi sad cache pkts len ctx = Inr (out, cache', ctx')"
  shows "qinv (ce_dev E) ctx' \<and> length out \<le> len \<and>
     balance (ce_dev E) ctx' + pids out = balance (ce_dev E) ctx + pids pkts"
proof -
  obtain sas ctx1 where l: "inbound_sa_lookup sapi (ctx_sas ctx) sad cache (map pbuf pkts) = Inr (sas, cache')"
    and e: "ipsec_enqueue E xform_in (zip pkts sas) ctx = Inr ctx1"
    and d: "ipsec_inline_dequeue (esp_inbound_post api) len ctx1 = Inr (out, ctx')"
    using assms(3) by (auto simp: ipsec_inbound_def split: sum.splits)
  have "map fst (zip pkts sas) = pkts" using inbound_sa_lookup_length [OF l] by simp
  then have "qinv (ce_dev E) ctx1 \<and> balance (ce_dev E) ctx1 = balance (ce_dev E) ctx + pids pkts"
    using ipsec_enqueue_grows [OF assms(1,2) e] by simp
  with ipsec_inline_dequeue_yields [OF _ d] show ?thesis by (auto simp: yields_def)
qed

lemma ipsec_outbound_ok:
  assumes "crypto_dev_ok (ce_dev E)" and "qinv (ce_dev E) ctx"
    and "ipsec_outbound E api pkts sa_idx len ctx = Inr (out, ctx')" and "length sa_idx = length pkts"
  shows "qinv (ce_dev E) ctx' \<and> length out \<le> len \<and>
     balance (ce_dev E) ctx' + pids out = balance (ce_dev E) ctx + pids pkts"
proof -
  obtain ctx1 where e: "ipsec_enqueue E (esp_outbound api) (zip pkts (map (\<lambda>i. Some (i, False)) sa_idx)) ctx = Inr ctx1"
    and d: "ipsec_inline_dequeue esp_outbound_post len ctx1 = Inr (out, ctx')"
    using assms(3) by (auto simp: ipsec_outbound_def outbound_sa_lookup_def split: sum.splits if_splits)
  have "map fst (zip pkts (map (\<lambda>i. Some (i, False)) sa_idx)) = pkts" using assms(4) by simp
  then have "qinv (ce_dev E) ctx1 \<and> balance (ce_dev E) ctx1 = balance (ce_dev E) ctx + pids pkts"
    using ipsec_enqueue_grows [OF assms(1,2) e] by simp
  with ipsec_inline_dequeue_yields [OF _ d] show ?thesis by (auto simp: yields_def)
qed

text \<open>
  C17. No packet is lost or duplicated by the inbound path of the queue engine: after \<open>ipsec_inbound\<close> the
  packets of the burst and those that were in the engine are exactly those now buffered for a
  queue pair, held by its device, parked for inline processing, freed, or returned; at most \<open>len\<close>
  are returned, and the engine's invariant holds again (buffers below a full burst, in-flight
  counters equal to what the devices hold, every queued packet with an SA of the context).
\<close>

theorem ipsec_inbound_conserves:
  assumes "crypto_dev_ok (ce_dev E)" and "qinv (ce_dev E) ctx"
    and "ipsec_inbound E api sapi sad cache pkts len ctx = Inr (out, cache', ctx')"
  shows "qinv (ce_dev E) ctx' \<and> length out \<le> len \<and>
     balance (ce_dev E) ctx' + pids out = balance (ce_dev E) ctx + pids pkts"
  by (rule ipsec_inbound_ok [OF assms])

lemma ipsec_dequeue_ok:
  assumes "crypto_dev_ok D" and "qinv D ctx" and "ipsec_dequeue D post max_pkts ctx = Inr (out, ctx')"
  shows "qinv D ctx' \<and> balance D ctx' + pids out = balance D ctx \<and> length out \<le> max_pkts"
proof (cases "tbl ctx = []")
  case True
  then show ?thesis using assms(2,3) by (simp add: ipsec_dequeue_def)
next
  case False
  then show ?thesis using dequeue_loop_yields [OF assms(1,2)] assms(3) by (simp add: ipsec_dequeue_def yields_def)
qed

text \<open>
  Collecting finished operations: \<open>ipsec_dequeue\<close> returns at most \<open>max_pkts\<close> packets, keeps the
  invariant and conserves packets, whatever the device and the post-processing do. It visits the
  queue pairs round robin from where the last call stopped, each at most once, and stops early
  only when the result is full.
\<close>

theorem ipsec_dequeue_round_robin:
  assumes "crypto_dev_ok D" and "qinv D ctx" and "tbl ctx \<noteq> []"
    and "ipsec_dequeue D post max_pkts ctx = Inr (out, ctx')"
  shows "qinv D ctx' \<and> balance D ctx' + pids out = balance D ctx \<and> length out \<le> max_pkts \<and>
     (\<exists>j \<le> length (tbl ctx). last_qp ctx' = (last_qp ctx + j) mod length (tbl ctx) \<and>
        (j < length (tbl ctx) \<longrightarrow> length out = max_pkts))"
  using dequeue_loop_yields [OF assms(1-3)] assms(4) by (simp add: ipsec_dequeue_def yields_def)

section \<open>When the unchecked indices are safe\<close>

text \<open>
  The code indexes \<open>ol_pkts\<close> and the queue pair table without checks. What keeps the indices in
  range: the crypto device map names queue pairs of the core, an SA with a session carries the
  index it was created with, and a burst fits in what is left of \<open>ol_pkts\<close>.
\<close>

definition map_ok :: "device_env \<Rightarrow> nat \<Rightarrow> bool" where
  "map_ok env n \<longleftrightarrow> n \<le> 65536 \<and> (\<forall>k q. cdev_map env k = Some q \<longrightarrow> q < n)"

definition sas_ok :: "nat \<Rightarrow> ipsec_sa list \<Rightarrow> bool" where
  "sas_ok n sas \<longleftrightarrow> (\<forall>sa \<in> set sas. ses (primary sa) \<noteq> None \<longrightarrow> unat (cdev_id_qp sa) < n)"

text \<open>A transformation keeps the session and queue pair of the SA and reads only what is there.\<close>

definition xform_ok :: "xform \<Rightarrow> pkt \<Rightarrow> bool" where
  "xform_ok xf p \<longleftrightarrow>
     (\<forall>sa cop. fst (xf (pbuf p) sa cop) \<noteq> Inl UB \<and> primary (snd (xf (pbuf p) sa cop)) = primary sa \<and>
        cdev_id_qp (snd (xf (pbuf p) sa cop)) = cdev_id_qp sa)"

lemma lookaside_session_index:
  assumes "create_lookaside_session env fb sa = Inr sa'" and "map_ok env n"
  shows "unat (cdev_id_qp sa') < n"
proof -
  obtain q where q: "cdev_map env (cipher_algo sa, auth_algo sa, aead_algo sa) = Some q"
    and e: "cdev_id_qp sa' = of_nat q"
    using assms(1) by (auto simp: create_lookaside_session_def Let_def split: option.splits if_splits)
  then have "q < n" "n \<le> 65536" using assms(2) by (auto simp: map_ok_def)
  then show ?thesis using e unat_of_nat_u32 [of q] by simp
qed

lemma sas_ok_update: "sas_ok n sas \<Longrightarrow> (ses (primary sa) \<noteq> None \<Longrightarrow> unat (cdev_id_qp sa) < n) \<Longrightarrow> sas_ok n (sas[i := sa])"
  by (auto simp: sas_ok_def dest!: set_update_subset_insert [THEN subsetD])

lemma sas_okD: "sas_ok n sas \<Longrightarrow> i < length sas \<Longrightarrow> ses (primary (sas ! i)) \<noteq> None \<Longrightarrow> unat (cdev_id_qp (sas ! i)) < n"
  by (simp add: sas_ok_def)

lemma with_session_index:
  assumes "with_session E i ctx = Some ctx'" and "map_ok (ce_env E) n" and "sas_ok n (ctx_sas ctx)"
    and "i < length (ctx_sas ctx)"
  shows "unat (cdev_id_qp (ctx_sas ctx' ! i)) < n \<and> sas_ok n (ctx_sas ctx')"
  using assms lookaside_session_index [OF _ assms(2)]
  by (auto simp: with_session_def set_sa_def split: if_splits sum.splits intro!: sas_ok_update dest: sas_okD)

lemma run_xform_total:
  assumes "xform_ok xf p" and "i < length (ctx_sas ctx)" and "sas_ok n (ctx_sas ctx)"
  shows "\<exists>r ctx'. run_xform xf i p ctx = Inr (r, ctx') \<and> sas_ok n (ctx_sas ctx') \<and>
     cdev_id_qp (ctx_sas ctx' ! i) = cdev_id_qp (ctx_sas ctx ! i)"
proof -
  obtain r sa' where x: "xf (pbuf p) (ctx_sas ctx ! i) (p_cop p) = (r, sa')" by fastforce
  with assms(1) have k: "r \<noteq> Inl UB" "primary sa' = primary (ctx_sas ctx ! i)" "cdev_id_qp sa' = cdev_id_qp (ctx_sas ctx ! i)"
    unfolding xform_ok_def by (metis fst_conv snd_conv)+
  then have "sas_ok n ((ctx_sas ctx)[i := sa'])"
    using assms(2,3) by (intro sas_ok_update) (auto dest: sas_okD)
  with x k assms(2) show ?thesis
    by (cases r) (auto simp: run_xform_def set_sa_def split: prod.splits)
qed

text \<open>One round goes through, and at most one packet is parked.\<close>

definition fits_on :: "nat \<Rightarrow> nat \<Rightarrow> 'd ipsec_ctx \<Rightarrow> 'd ipsec_ctx \<Rightarrow> bool" where
  "fits_on n k ctx ctx' \<longleftrightarrow>
     sas_ok n (ctx_sas ctx') \<and> length (ctx_sas ctx') = length (ctx_sas ctx) \<and>
     length (tbl ctx') = n \<and> length (ol_pkts ctx') \<le> length (ol_pkts ctx) + k"

lemma ipsec_enqueue1_total:
  assumes m: "map_ok (ce_env E) n" and s: "sas_ok n (ctx_sas ctx)" and t: "length (tbl ctx) = n"
    and x: "xform_ok xf p" and i: "\<And>i fb. si = Some (i, fb) \<Longrightarrow> i < length (ctx_sas ctx)"
    and ol: "length (ol_pkts ctx) < MAX_PKT_BURST"
  shows "\<exists>ctx'. ipsec_enqueue1 E xf p si ctx = Inr ctx' \<and> fits_on n 1 ctx ctx'"
proof (cases si)
  case None
  then show ?thesis using s t by (simp add: ipsec_enqueue1_def fits_on_def drop_pkts_def)
next
  case (Some y)
  obtain i fb where si: "si = Some (i, fb)" using Some by (cases y) simp
  with i have i: "i < length (ctx_sas ctx)" by blast
  let ?p = "p\<lparr>p_sa := Some i\<rparr>"
  have xf: "xform_ok xf p'" if "pbuf p' = pbuf p" for p' using x that by (simp add: xform_ok_def)
  have dropped: "fits_on n 1 ctx (drop_pkts ps ctx')" if "sas_ok n (ctx_sas ctx')" "ctx' = set_sa i sa ctx" for ps sa ctx'
    using that t by (simp add: fits_on_def drop_pkts_def)
  have pushed: "\<exists>c. push_ol E i q ctx' = Inr c \<and> fits_on n 1 ctx c"
    if "sas_ok n (ctx_sas ctx')" "ctx' = set_sa i sa ctx" for q sa ctx'
    using that t ol by (simp add: push_ol_def Let_def fits_on_def)
  have queued: "\<exists>c. to_qp E i q ctx' = Inr c \<and> fits_on n 1 ctx c"
    if "sas_ok n (ctx_sas ctx')" "ctx' = set_sa i sa ctx" "unat (cdev_id_qp (ctx_sas ctx' ! i)) < n" for q sa ctx'
    using that t by (simp add: to_qp_def Let_def fits_on_def)
  have same: "ctx = set_sa i (ctx_sas ctx ! i) ctx" by (simp add: set_sa_def)
  show ?thesis
  proof (cases "ses_type (primary (ctx_sas ctx ! i))")
    case TYPE_LOOKASIDE_PROTOCOL
    then have e: "ipsec_enqueue1 E xf p si ctx = enqueue_lookaside_protocol E i ?p ctx" using i si by (simp add: ipsec_enqueue1_def)
    show ?thesis
    proof (cases "with_session E i ctx")
      case None
      then show ?thesis using e dropped [OF s same] by (simp add: enqueue_lookaside_protocol_def)
    next
      case (Some c1)
      obtain sa where c1: "c1 = set_sa i sa ctx" using with_session_set_sa [OF Some] by blast
      note w = with_session_index [OF Some m s i]
      show ?thesis
        using e Some dropped [OF conjunct2 [OF w] c1] queued [OF conjunct2 [OF w] c1 conjunct1 [OF w]]
        by (auto simp: enqueue_lookaside_protocol_def)
    qed
  next
    case TYPE_CPU_CRYPTO
    then show ?thesis using i si dropped [OF s same] by (simp add: ipsec_enqueue1_def)
  next
    case TYPE_NONE
    then have e: "ipsec_enqueue1 E xf p si ctx = enqueue_none E xf i ?p ctx" using i si by (simp add: ipsec_enqueue1_def)
    show ?thesis
    proof (cases "with_session E i ctx")
      case None
      then show ?thesis using e dropped [OF s same] by (simp add: enqueue_none_def)
    next
      case (Some c1)
      obtain sa where c1: "c1 = set_sa i sa ctx" using with_session_set_sa [OF Some] by blast
      note w = with_session_index [OF Some m s i]
      let ?p1 = "(fresh_cop ?p)\<lparr>p_ses := ses (primary (ctx_sas c1 ! i))\<rparr>"
      have "xform_ok xf ?p1" by (rule xf) simp
      then obtain r c2 where r: "run_xform xf i ?p1 c1 = Inr (r, c2)" and c2: "sas_ok n (ctx_sas c2)"
        and id: "cdev_id_qp (ctx_sas c2 ! i) = cdev_id_qp (ctx_sas c1 ! i)"
        using run_xform_total [of xf ?p1 i c1 n] w i c1 by auto
      obtain sa2 where "c2 = set_sa i sa2 c1" using run_xform_set_sa [OF r] by blast
      then have c2': "c2 = set_sa i sa2 ctx" by (simp add: c1 set_sa_def)
      have q: "unat (cdev_id_qp (ctx_sas c2 ! i)) < n" using w id by simp
      show ?thesis
        using e Some r dropped [OF c2 c2'] queued [OF c2 c2' q] by (cases r) (auto simp: enqueue_none_def Let_def)
    qed
  next
    case TYPE_INLINE_PROTOCOL
    then show ?thesis using i si pushed [OF s same] by (simp add: ipsec_enqueue1_def)
  next
    case TYPE_INLINE_CRYPTO
    then have e: "ipsec_enqueue1 E xf p si ctx = enqueue_inline_crypto E xf i ?p ctx" using i si by (simp add: ipsec_enqueue1_def)
    let ?p1 = "(fresh_cop ?p)\<lparr>p_ses := ses (primary (ctx_sas ctx ! i))\<rparr>"
    have "xform_ok xf ?p1" by (rule xf) simp
    then obtain r c2 where r: "run_xform xf i ?p1 ctx = Inr (r, c2)" and c2: "sas_ok n (ctx_sas c2)"
      using run_xform_total [of xf ?p1 i ctx n] s i by auto
    obtain sa2 where c2': "c2 = set_sa i sa2 ctx" using run_xform_set_sa [OF r] by blast
    show ?thesis
      using e r dropped [OF c2 c2'] pushed [OF c2 c2'] by (cases r) (auto simp: enqueue_inline_crypto_def Let_def)
  qed
qed

lemma ipsec_enqueue_total:
  assumes "map_ok (ce_env E) n" and "sas_ok n (ctx_sas ctx)" and "length (tbl ctx) = n"
    and "\<forall>(p, s) \<in> set ps. xform_ok xf p \<and> (\<forall>i fb. s = Some (i, fb) \<longrightarrow> i < length (ctx_sas ctx))"
    and "length (ol_pkts ctx) + length ps \<le> MAX_PKT_BURST"
  shows "\<exists>ctx'. ipsec_enqueue E xf ps ctx = Inr ctx' \<and> fits_on n (length ps) ctx ctx'"
  using assms(2-5)
proof (induction ps arbitrary: ctx)
  case Nil
  then show ?case by (simp add: fits_on_def)
next
  case (Cons a ps)
  obtain p si where a: "a = (p, si)" by (cases a)
  have "xform_ok xf p" and "\<And>i fb. si = Some (i, fb) \<Longrightarrow> i < length (ctx_sas ctx)"
    and "length (ol_pkts ctx) < MAX_PKT_BURST" using Cons.prems a by auto
  then obtain c1 where e: "ipsec_enqueue1 E xf p si ctx = Inr c1" and f: "fits_on n 1 ctx c1"
    using ipsec_enqueue1_total [OF assms(1) Cons.prems(1,2)] by blast
  have "\<forall>(p, s) \<in> set ps. xform_ok xf p \<and> (\<forall>i fb. s = Some (i, fb) \<longrightarrow> i < length (ctx_sas c1))"
    using Cons.prems(3) f by (simp add: fits_on_def)
  moreover have "length (ol_pkts c1) + length ps \<le> MAX_PKT_BURST" using Cons.prems(4) f by (simp add: fits_on_def)
  ultimately obtain c2 where "ipsec_enqueue E xf ps c1 = Inr c2" "fits_on n (length ps) c1 c2"
    using Cons.IH [of c1] f by (auto simp: fits_on_def)
  then show ?case using e f by (auto simp: a fits_on_def)
qed

text \<open>
  The unchecked array accesses of \<open>ipsec_enqueue\<close> stay in range: when the device map and the SAs' queue pair
  indices are below the number of queue pairs, the SA indices are those of the context and the
  burst fits in the room left in \<open>ol_pkts\<close>, the whole burst goes through, whatever the devices do; the
  indices stay valid and at most one entry of \<open>ol_pkts\<close> is taken per packet of the burst.
\<close>

theorem ipsec_enqueue_in_bounds:
  assumes "map_ok (ce_env E) (length (tbl ctx))" and "sas_ok (length (tbl ctx)) (ctx_sas ctx)"
    and "\<forall>(p, s) \<in> set ps. xform_ok xf p \<and> (\<forall>i fb. s = Some (i, fb) \<longrightarrow> i < length (ctx_sas ctx))"
    and "length (ol_pkts ctx) + length ps \<le> MAX_PKT_BURST"
  shows "\<exists>ctx'. ipsec_enqueue E xf ps ctx = Inr ctx' \<and> fits_on (length (tbl ctx)) (length ps) ctx ctx'"
  by (rule ipsec_enqueue_total [OF assms(1,2) refl assms(3,4)])

section \<open>A device for the witnesses\<close>

text \<open>Each queue pair keeps up to 2048 packets in a list and gives them back in order, as successes.\<close>

definition list_dev :: "(u16 \<times> u16 \<Rightarrow> pkt list) crypto_dev" where
  "list_dev = \<lparr>cd_enq = (\<lambda>d k ps. let n = min (length ps) (2048 - length (d k)) in (n, d(k := d k @ take n ps))),
     cd_deq = (\<lambda>d k n. (map (\<lambda>p. p\<lparr>p_cop := (p_cop p)\<lparr>op_status := OP_SUCCESS\<rparr>\<rparr>) (take n (take 2048 (d k))), d(k := drop n (take 2048 (d k)) ))),
     cd_held = (\<lambda>d k. mset (map tag (take 2048 (d k))))\<rparr>"

lemma list_dev_ok: "crypto_dev_ok list_dev"
proof -
  have enq: "n \<le> length ps \<and> cd_held list_dev d' k = cd_held list_dev d k + mset (map tag (take n ps)) \<and>
      size (cd_held list_dev d' k) < 65536 \<and> (\<forall>k'. k' \<noteq> k \<longrightarrow> cd_held list_dev d' k' = cd_held list_dev d k')"
    if "cd_enq list_dev d k ps = (n, d')" for d k ps n d'
  proof -
    have n: "n = min (length ps) (2048 - length (d k))" and d': "d' = d(k := d k @ take n ps)"
      using that by (auto simp: list_dev_def Let_def)
    have "take 2048 (d k @ take n ps) = take 2048 (d k) @ take n ps" by (simp add: n)
    moreover have "n \<le> 2048" by (simp add: n)
    ultimately show ?thesis using n by (auto simp: list_dev_def d' min_def)
  qed
  have deq: "length ps \<le> n \<and> cd_held list_dev d k = cd_held list_dev d' k + mset (map tag ps) \<and>
      (\<forall>k'. k' \<noteq> k \<longrightarrow> cd_held list_dev d' k' = cd_held list_dev d k')"
    if "cd_deq list_dev d k n = (ps, d')" for d k n ps d'
  proof -
    define xs where "xs = take 2048 (d k)"
    have ps: "ps = map (\<lambda>p. p\<lparr>p_cop := (p_cop p)\<lparr>op_status := OP_SUCCESS\<rparr>\<rparr>) (take n xs)"
      and d': "d' = d(k := drop n xs)" using that by (auto simp: list_dev_def xs_def)
    have "tag (p\<lparr>p_cop := c\<rparr>) = tag p" for p c by (simp add: tag_def)
    then have "map tag ps = map tag (take n xs)" by (simp add: ps)
    moreover have "mset (map tag xs) = mset (map tag (drop n xs)) + mset (map tag (take n xs))"
      by (metis append_take_drop_id map_append mset_append union_commute)
    moreover have "cd_held list_dev d k = mset (map tag xs)" by (simp add: list_dev_def xs_def)
    moreover have "take 2048 (drop n xs) = drop n xs" by (simp add: xs_def)
    then have "cd_held list_dev d' k = mset (map tag (drop n xs))" by (simp add: list_dev_def d')
    moreover have "length ps \<le> n" by (simp add: ps)
    moreover have "k' \<noteq> k \<Longrightarrow> cd_held list_dev d' k' = cd_held list_dev d k'" for k' by (simp add: list_dev_def d')
    ultimately show ?thesis by metis
  qed
  show ?thesis unfolding crypto_dev_ok_def using enq deq by blast
qed

definition sample_pkt :: "nat \<Rightarrow> pkt" where
  "sample_pkt i = \<lparr>pid = i, pbuf = sample_esp4, p_sa = None, p_cop = sample_cop, p_ses = None, p_tso = None,
     p_l2_len = 0, p_l4_len = 0, p_txol = 0\<rparr>"

definition idle_ctx :: "(u16 \<times> u16 \<Rightarrow> pkt list) ipsec_ctx" where
  "idle_ctx = \<lparr>tbl = [\<lparr>cq_id = 0, cq_qp = 0, in_flight = 0, cq_buf = []\<rparr>, \<lparr>cq_id = 0, cq_qp = 1, in_flight = 0, cq_buf = []\<rparr>],
     last_qp = 0, ol_pkts = [], ctx_sas = [sad_sample_sa], dev = (\<lambda>_. []), freed = []\<rparr>"

definition busy_ctx :: "(u16 \<times> u16 \<Rightarrow> pkt list) ipsec_ctx" where
  "busy_ctx = idle_ctx\<lparr>tbl := [\<lparr>cq_id = 0, cq_qp = 0, in_flight = 0, cq_buf = []\<rparr>, \<lparr>cq_id = 0, cq_qp = 1, in_flight = 1, cq_buf = []\<rparr>],
     dev := (\<lambda>k. if k = (0, 1) then [(sample_pkt 7)\<lparr>p_sa := Some 0\<rparr>] else [])\<rparr>"

definition sample_cenv :: "(u16 \<times> u16 \<Rightarrow> pkt list) crypto_env" where
  "sample_cenv = \<lparr>ce_env = sample_env, ce_dev = list_dev, ce_mdata = (\<lambda>_ m. m)\<rparr>"

lemma idle_ctx_inv: "qinv list_dev idle_ctx"
  by (simp add: qinv_def idle_ctx_def qp_ok_def list_dev_def qkey_def resident_def places_def MAX_PKT_BURST_def)

lemma busy_ctx_inv: "qinv list_dev busy_ctx"
  by (simp add: qinv_def busy_ctx_def idle_ctx_def qp_ok_def list_dev_def qkey_def resident_def places_def
      MAX_PKT_BURST_def tags_ok_def tag_def sample_pkt_def)

lemma ipsec_inbound_conserves_witness:
  "\<exists>out c ctx'. ipsec_inbound sample_cenv sample_api map_sad sample_sad cold_cache [sample_pkt 1, sample_pkt 2] 32 idle_ctx = Inr (out, c, ctx') \<and>
     balance list_dev ctx' + pids out = {#1, 2#}"
proof -
  let ?r = "ipsec_inbound sample_cenv sample_api map_sad sample_sad cold_cache [sample_pkt 1, sample_pkt 2] 32 idle_ctx"
  have "case ?r of Inl e \<Rightarrow> False | Inr x \<Rightarrow> True" by code_simp
  then obtain out c ctx' where r: "?r = Inr (out, c, ctx')" by (auto split: sum.splits)
  have "balance list_dev idle_ctx = {#}"
    by (simp add: balance_def resident_def idle_ctx_def places_def list_dev_def)
  moreover have "ce_dev sample_cenv = list_dev" by (simp add: sample_cenv_def)
  moreover have "pids [sample_pkt 1, sample_pkt 2] = {#1, 2#}" by (simp add: sample_pkt_def)
  ultimately show ?thesis
    using ipsec_inbound_conserves [of sample_cenv idle_ctx, OF _ _ r] list_dev_ok idle_ctx_inv r by simp
qed

lemma ipsec_dequeue_round_robin_witness:
  "\<exists>out ctx'. ipsec_dequeue list_dev esp_outbound_post 32 busy_ctx = Inr (out, ctx') \<and>
     length out \<le> 32 \<and> balance list_dev ctx' + pids out = {#7#}"
proof -
  let ?r = "ipsec_dequeue list_dev esp_outbound_post 32 busy_ctx"
  have "case ?r of Inl e \<Rightarrow> False | Inr x \<Rightarrow> True" by code_simp
  then obtain out ctx' where r: "?r = Inr (out, ctx')" by (auto split: sum.splits)
  have "tbl busy_ctx \<noteq> []" by (simp add: busy_ctx_def)
  moreover have "balance list_dev busy_ctx = {#7#}"
    by (simp add: balance_def resident_def busy_ctx_def idle_ctx_def places_def list_dev_def qkey_def sample_pkt_def tag_def)
  ultimately show ?thesis
    using ipsec_dequeue_round_robin [OF list_dev_ok busy_ctx_inv _ r] r by simp
qed

lemma ipsec_enqueue_in_bounds_witness:
  "\<exists>ctx'. ipsec_enqueue sample_cenv (\<lambda>m sa cop. (Inr (m, cop), sa)) [(sample_pkt 1, Some (0, False)), (sample_pkt 2, None)] idle_ctx =
     Inr ctx' \<and> length (tbl ctx') = 2"
proof -
  have t: "length (tbl idle_ctx) = 2" by (simp add: idle_ctx_def)
  have m: "map_ok (ce_env sample_cenv) (length (tbl idle_ctx))"
    by (simp add: map_ok_def t) (simp add: sample_cenv_def sample_env_def)
  have s: "sas_ok (length (tbl idle_ctx)) (ctx_sas idle_ctx)"
    by (simp add: sas_ok_def idle_ctx_def sad_sample_sa_def zero_sa_def)
  have x: "\<forall>(p, s) \<in> set [(sample_pkt 1, Some (0, False)), (sample_pkt 2, None)].
      xform_ok (\<lambda>m sa cop. (Inr (m, cop), sa)) p \<and> (\<forall>i fb. s = Some (i, fb) \<longrightarrow> i < length (ctx_sas idle_ctx))"
    by (simp add: xform_ok_def idle_ctx_def)
  have "length (ol_pkts idle_ctx) + length [(sample_pkt 1, Some (0, False)), (sample_pkt 2, None)] \<le> MAX_PKT_BURST"
    by (simp add: idle_ctx_def MAX_PKT_BURST_def)
  from ipsec_enqueue_in_bounds [OF m s x this] show ?thesis by (auto simp: fits_on_def t)
qed

end
