(* ===== verification/Process.thy ===== *)
theory Process
  imports Queues_Inv
begin

text \<open>
  Packet processing with \<open>librte_ipsec\<close>, \<open>ipsec_process.c\<close>: packets grouped by SA, sessions filled on
  first use, crypto operations enqueued in bulk, finished operations collected and split into IPv4
  and IPv6 traffic. The library is a parameter (\<open>ipsec_lib\<close>): each of its bulk functions returns
  the packets it handled and those it rejected.
\<close>

section \<open>The library\<close>

text \<open>The type of an SA as the library reports it.\<close>

record satp =
  st_inbound :: bool
  st_ipv4 :: bool
  st_transport :: bool
  st_tunlv4 :: bool

record ipsec_lib =
  lib_session_prepare :: "nat \<Rightarrow> bool \<Rightarrow> ipsec_sa \<Rightarrow> bool"
  lib_crypto_prepare :: "rte_ipsec_session \<Rightarrow> pkt list \<Rightarrow> pkt list \<times> pkt list"
  lib_cpu_prepare :: "rte_ipsec_session \<Rightarrow> pkt list \<Rightarrow> pkt list \<times> pkt list"
  lib_process :: "rte_ipsec_session \<Rightarrow> pkt list \<Rightarrow> pkt list \<times> pkt list"
  lib_group :: "pkt list \<Rightarrow> ((nat \<times> bool) \<times> pkt list) list"
  lib_satp :: "nat \<Rightarrow> satp"

text \<open>
  What the code relies on: a bulk function only reorders and splits the packets it is given, in
  place; grouping places each operation in at most one group.
\<close>

definition splits_ok :: "(pkt list \<Rightarrow> pkt list \<times> pkt list) \<Rightarrow> bool" where
  "splits_ok f \<longleftrightarrow> (\<forall>ps good bad. f ps = (good, bad) \<longrightarrow> mset (map tag good) + mset (map tag bad) = mset (map tag ps))"

definition ipsec_lib_ok :: "ipsec_lib \<Rightarrow> bool" where
  "ipsec_lib_ok L \<longleftrightarrow>
     (\<forall>s. splits_ok (lib_crypto_prepare L s)) \<and> (\<forall>s. splits_ok (lib_cpu_prepare L s)) \<and>
     (\<forall>s. splits_ok (lib_process L s)) \<and>
     (\<forall>ps. mset (map tag (concat (map snd (lib_group L ps)))) \<subseteq># mset (map tag ps))"

section \<open>Traffic\<close>

record traffic =
  tr_ip4 :: "pkt list"
  tr_ip6 :: "pkt list"

definition TRAFFIC_SIZE :: nat where "TRAFFIC_SIZE = 64"

text \<open>\<open>SATP_OUT_IPV4\<close> and the choice of \<open>copy_to_trf\<close>; the arrays have 64 entries, unchecked.\<close>

definition satp_out_ipv4 :: "satp \<Rightarrow> bool" where
  "satp_out_ipv4 t \<longleftrightarrow> st_transport t \<and> st_ipv4 t \<or> st_tunlv4 t"

definition copy_to_trf :: "satp \<Rightarrow> pkt list \<Rightarrow> traffic \<Rightarrow> errno + traffic" where
  "copy_to_trf t ps trf =
     (if (if st_inbound t then st_ipv4 t else satp_out_ipv4 t) then
        (if TRAFFIC_SIZE < length (tr_ip4 trf) + length ps then Inl UB else Inr (trf\<lparr>tr_ip4 := tr_ip4 trf @ ps\<rparr>))
      else
        (if TRAFFIC_SIZE < length (tr_ip6 trf) + length ps then Inl UB else Inr (trf\<lparr>tr_ip6 := tr_ip6 trf @ ps\<rparr>)))"

section \<open>Grouping by SA\<close>

text \<open>The loop of \<open>sa_group\<close>: the current SA pointer, the packets of its group, the rest of the burst.\<close>

fun sa_group_loop :: "'s \<Rightarrow> 'p list \<Rightarrow> ('s \<times> 'p) list \<Rightarrow> ('s \<times> 'p list) list" where
  "sa_group_loop sa g [] = [(sa, g)]"
| "sa_group_loop sa g ((s, p) # xs) =
     (if s = sa then sa_group_loop sa (g @ [p]) xs else (sa, g) # sa_group_loop s [p] xs)"

fun sa_group :: "('s \<times> 'p) list \<Rightarrow> ('s \<times> 'p list) list" where
  "sa_group [] = []"
| "sa_group ((s, p) # xs) = sa_group_loop s [p] xs"

section \<open>Enqueueing in bulk\<close>

definition bulk_direct :: "'d crypto_dev \<Rightarrow> nat \<Rightarrow> pkt list \<Rightarrow> 'd ipsec_ctx \<Rightarrow> 'd ipsec_ctx" where
  "bulk_direct D i ps ctx =
     (let q = tbl ctx ! i in
      case cd_enq D (dev ctx) (qkey q) ps of
        (n, d') \<Rightarrow>
          drop_pkts (drop n ps) (ctx\<lparr>tbl := (tbl ctx)[i := q\<lparr>in_flight := in_flight q + of_nat n\<rparr>], dev := d'\<rparr>))"

text \<open>
  One round of the \<open>do\<close> loop: fill the buffer as far as it goes, hand it over when it is full. The
  buffer has 32 entries, so \<open>len\<close> is never above 32. The test of the index in \<open>bulk_loop\<close> stands
  for the array bound, which the caller below has checked.
\<close>

definition bulk_fill :: "'d crypto_dev \<Rightarrow> nat \<Rightarrow> pkt list \<Rightarrow> 'd ipsec_ctx \<Rightarrow> pkt list \<times> 'd ipsec_ctx" where
  "bulk_fill D i ps ctx =
     (let q = tbl ctx ! i; n = min (length ps) (MAX_PKT_BURST - length (cq_buf q)); b = cq_buf q @ take n ps;
          ctx1 = ctx\<lparr>tbl := (tbl ctx)[i := q\<lparr>cq_buf := b\<rparr>]\<rparr>
      in (drop n ps, if MAX_PKT_BURST \<le> length b then enqueue_cop_burst D i ctx1 else ctx1))"

lemma enqueue_cop_burst_buf:
  "i < length (tbl ctx) \<Longrightarrow> cq_buf (tbl (enqueue_cop_burst D i ctx) ! i) = []"
  by (simp add: enqueue_cop_burst_def drop_pkts_def Let_def split: prod.splits)

lemma enqueue_cop_burst_len [simp]: "length (tbl (enqueue_cop_burst D i ctx)) = length (tbl ctx)"
  by (simp add: enqueue_cop_burst_def drop_pkts_def Let_def split: prod.splits)

lemma bulk_fill_rest:
  assumes "bulk_fill D i ps ctx = (rest, ctx')" and "i < length (tbl ctx)" and "rest \<noteq> []"
  shows "length (tbl ctx') = length (tbl ctx) \<and>
    (length rest < length ps \<or> length rest = length ps \<and> length (cq_buf (tbl ctx' ! i)) < length (cq_buf (tbl ctx ! i)))"
proof -
  define n where "n = min (length ps) (MAX_PKT_BURST - length (cq_buf (tbl ctx ! i)))"
  define b where "b = cq_buf (tbl ctx ! i) @ take n ps"
  define ctx1 where "ctx1 = ctx\<lparr>tbl := (tbl ctx)[i := (tbl ctx ! i)\<lparr>cq_buf := b\<rparr>]\<rparr>"
  have "bulk_fill D i ps ctx = (drop n ps, if MAX_PKT_BURST \<le> length b then enqueue_cop_burst D i ctx1 else ctx1)"
    by (simp only: bulk_fill_def Let_def n_def b_def ctx1_def)
  then have rest: "rest = drop n ps" and c: "ctx' = (if MAX_PKT_BURST \<le> length b then enqueue_cop_burst D i ctx1 else ctx1)"
    using assms(1) by simp_all
  have "n < length ps" using assms(3) by (simp add: rest)
  then have n: "n = MAX_PKT_BURST - length (cq_buf (tbl ctx ! i))" by (simp add: n_def)
  then have full: "MAX_PKT_BURST \<le> length b" using \<open>n < length ps\<close> by (simp add: b_def)
  have l: "length (tbl ctx1) = length (tbl ctx)" by (simp add: ctx1_def)
  have "cq_buf (tbl ctx' ! i) = []"
    using full assms(2) l by (simp add: c enqueue_cop_burst_buf)
  moreover have "n = 0 \<Longrightarrow> 0 < length (cq_buf (tbl ctx ! i))"
    using n by (cases "cq_buf (tbl ctx ! i)") (auto simp: MAX_PKT_BURST_def)
  ultimately show ?thesis
    using full l \<open>n < length ps\<close> by (cases "n = 0") (auto simp: c rest)
qed

function bulk_loop :: "'d crypto_dev \<Rightarrow> nat \<Rightarrow> pkt list \<Rightarrow> 'd ipsec_ctx \<Rightarrow> 'd ipsec_ctx" where
  "bulk_loop D i ps ctx =
     (if length (tbl ctx) \<le> i then ctx
      else case bulk_fill D i ps ctx of
        (rest, ctx') \<Rightarrow> if rest = [] then ctx' else bulk_loop D i rest ctx')"
  by pat_completeness auto
termination
proof (relation "measures [\<lambda>(D, i, ps, ctx). length ps, \<lambda>(D, i, ps, ctx). length (cq_buf (tbl ctx ! i))]", goal_cases)
  case 1
  show ?case by simp
next
  case (2 D i ps ctx rest ctx')
  then have "bulk_fill D i ps ctx = (rest, ctx')" by simp
  from bulk_fill_rest [OF this] 2(1,3) show ?case by (auto simp: not_le)
qed

declare bulk_loop.simps [simp del]

definition enqueue_cop_bulk :: "'d crypto_dev \<Rightarrow> nat \<Rightarrow> pkt list \<Rightarrow> 'd ipsec_ctx \<Rightarrow> 'd ipsec_ctx" where
  "enqueue_cop_bulk D i ps ctx =
     (if MAX_PKT_BURST * 3 div 4 \<le> length ps \<and> cq_buf (tbl ctx ! i) = [] then bulk_direct D i ps ctx
      else bulk_loop D i ps ctx)"

section \<open>Sessions\<close>

text \<open>
  \<open>fill_ipsec_session\<close>; when the library rejects the session it is cleared, its type included.
  The assertions on the type and the missing session are not relied on.
\<close>

definition fill_ipsec_session :: "device_env \<Rightarrow> ipsec_lib \<Rightarrow> nat \<Rightarrow> bool \<Rightarrow> ipsec_sa \<Rightarrow> bool \<times> ipsec_sa" where
  "fill_ipsec_session env L i fb sa =
     (case (if ses_type (session_of fb sa) \<in> {TYPE_NONE, TYPE_CPU_CRYPTO, TYPE_LOOKASIDE_PROTOCOL}
            then create_lookaside_session env fb sa else Inr sa) of
        Inl e \<Rightarrow> (False, sa)
      | Inr sa1 \<Rightarrow>
          (if lib_session_prepare L i fb sa1 then (True, sa1) else (False, set_session fb zero_session sa1)))"

section \<open>Processing a group\<close>

definition tso_of :: "ipsec_sa \<Rightarrow> pkt \<Rightarrow> pkt" where
  "tso_of sa p =
     (if mss sa \<noteq> 0 \<and> l4_type (pbuf p) = L4_TCP then
        p\<lparr>p_tso := Some \<lparr>ts_segsz = mss sa, ts_tunnel = is_tunnel (flags sa),
            ts_outer_cksum = (is_tunnel (flags sa) \<and> l3_ipv4 (pbuf p)), ts_outer_ipv4 = l3_ipv4 (pbuf p)\<rparr>,
          p_l4_len := 20\<rparr>
      else p)"

definition prep_process_group :: "nat \<Rightarrow> ipsec_sa \<Rightarrow> pkt list \<Rightarrow> pkt list" where
  "prep_process_group i sa ps = map (\<lambda>p. tso_of sa (p\<lparr>p_sa := Some i\<rparr>)) ps"

type_synonym 'd pstate = "'d ipsec_ctx \<times> traffic"

definition ipsec_prepare_crypto_group ::
  "'d crypto_env \<Rightarrow> ipsec_lib \<Rightarrow> nat \<Rightarrow> bool \<Rightarrow> pkt list \<Rightarrow> 'd ipsec_ctx \<Rightarrow> errno + 'd ipsec_ctx" where
  "ipsec_prepare_crypto_group E L i fb ps ctx =
     (let sa = ctx_sas ctx ! i; q = unat (cdev_id_qp sa) in
      if length (tbl ctx) \<le> q then Inl UB
      else case lib_crypto_prepare L (session_of fb sa) (map (\<lambda>p. p\<lparr>p_sa := Some i\<rparr>) ps) of
        (good, bad) \<Rightarrow>
          Inr (drop_pkts bad (if good = [] then ctx else enqueue_cop_bulk (ce_dev E) q good ctx)))"

definition ipsec_process_inline_group ::
  "ipsec_lib \<Rightarrow> nat \<Rightarrow> bool \<Rightarrow> pkt list \<Rightarrow> 'd pstate \<Rightarrow> errno + 'd pstate" where
  "ipsec_process_inline_group L i fb ps = (\<lambda>(ctx, trf).
     let sa = ctx_sas ctx ! i in
     case lib_process L (session_of fb sa) (prep_process_group i sa ps) of
       (good, bad) \<Rightarrow>
         (case copy_to_trf (lib_satp L i) good trf of
            Inl e \<Rightarrow> Inl e | Inr trf' \<Rightarrow> Inr (drop_pkts bad ctx, trf')))"

definition ipsec_process_cpu_group ::
  "ipsec_lib \<Rightarrow> nat \<Rightarrow> bool \<Rightarrow> pkt list \<Rightarrow> 'd pstate \<Rightarrow> errno + 'd pstate" where
  "ipsec_process_cpu_group L i fb ps = (\<lambda>(ctx, trf).
     let sa = ctx_sas ctx ! i in
     case lib_cpu_prepare L (session_of fb sa) (prep_process_group i sa ps) of
       (ready, bad1) \<Rightarrow>
         (case lib_process L (session_of fb sa) ready of
            (good, bad2) \<Rightarrow>
              (case copy_to_trf (lib_satp L i) good trf of
                 Inl e \<Rightarrow> Inl e | Inr trf' \<Rightarrow> Inr (drop_pkts (bad2 @ bad1) ctx, trf'))))"

text \<open>The body of the loop of \<open>ipsec_process\<close>; the mark on the SA pointer selects the session.\<close>

definition process_group ::
  "'d crypto_env \<Rightarrow> ipsec_lib \<Rightarrow> (nat \<times> bool) option \<times> pkt list \<Rightarrow> 'd pstate \<Rightarrow> errno + 'd pstate" where
  "process_group E L = (\<lambda>(s, ps) (ctx, trf).
     case s of
       None \<Rightarrow> Inr (drop_pkts ps ctx, trf)
     | Some (i, fb) \<Rightarrow>
         (if length (ctx_sas ctx) \<le> i then Inl UB
          else
            (let sa = ctx_sas ctx ! i;
                 (ok, sa1) = (if ses (session_of fb sa) = None then fill_ipsec_session (ce_env E) L i fb sa else (True, sa));
                 ctx1 = set_sa i sa1 ctx
             in if \<not> ok then Inr (drop_pkts ps ctx1, trf)
                else case ses_type (session_of fb sa1) of
                    TYPE_NONE \<Rightarrow> map_sum id (\<lambda>c. (c, trf)) (ipsec_prepare_crypto_group E L i fb ps ctx1)
                  | TYPE_LOOKASIDE_PROTOCOL \<Rightarrow> map_sum id (\<lambda>c. (c, trf)) (ipsec_prepare_crypto_group E L i fb ps ctx1)
                  | TYPE_INLINE_CRYPTO \<Rightarrow> ipsec_process_inline_group L i fb ps (ctx1, trf)
                  | TYPE_INLINE_PROTOCOL \<Rightarrow> ipsec_process_inline_group L i fb ps (ctx1, trf)
                  | TYPE_CPU_CRYPTO \<Rightarrow> ipsec_process_cpu_group L i fb ps (ctx1, trf))))"

definition ipsec_process ::
  "'d crypto_env \<Rightarrow> ipsec_lib \<Rightarrow> ((nat \<times> bool) option \<times> pkt) list \<Rightarrow> 'd pstate \<Rightarrow> errno + 'd pstate" where
  "ipsec_process E L pkts st = run_all (process_group E L) (sa_group pkts) st"

section \<open>Collecting finished operations\<close>

definition cqp_dequeue :: "'d crypto_dev \<Rightarrow> nat \<Rightarrow> nat \<Rightarrow> 'd ipsec_ctx \<Rightarrow> pkt list \<times> 'd ipsec_ctx" where
  "cqp_dequeue D i num ctx =
     (let q = tbl ctx ! i in
      if in_flight q = 0 then ([], ctx)
      else case cd_deq D (dev ctx) (qkey q) num of
        (ps, d') \<Rightarrow> (ps, ctx\<lparr>tbl := (tbl ctx)[i := q\<lparr>in_flight := in_flight q - of_nat (length ps)\<rparr>], dev := d'\<rparr>))"

text \<open>A loop of \<open>ctx_dequeue\<close> over the queue pairs \<open>is\<close>, and how many of them it visited.\<close>

fun deq_loop :: "'d crypto_dev \<Rightarrow> nat list \<Rightarrow> nat \<Rightarrow> 'd ipsec_ctx \<Rightarrow> pkt list \<times> 'd ipsec_ctx \<times> nat" where
  "deq_loop D [] room ctx = ([], ctx, 0)"
| "deq_loop D (i # is) room ctx =
     (if room = 0 then ([], ctx, 0)
      else case cqp_dequeue D i room ctx of
        (ps, c1) \<Rightarrow> (case deq_loop D is (room - length ps) c1 of (qs, c2, j) \<Rightarrow> (ps @ qs, c2, Suc j)))"

definition ctx_dequeue :: "'d crypto_dev \<Rightarrow> nat \<Rightarrow> 'd ipsec_ctx \<Rightarrow> pkt list \<times> 'd ipsec_ctx" where
  "ctx_dequeue D num ctx =
     (let l = last_qp ctx in
      case deq_loop D [l..<length (tbl ctx)] num ctx of
        (ps, c1, _) \<Rightarrow>
          (case deq_loop D [0..<l] (num - length ps) c1 of
             (qs, c2, j) \<Rightarrow> (ps @ qs, c2\<lparr>last_qp := j\<rparr>)))"

definition finish_group :: "ipsec_lib \<Rightarrow> (nat \<times> bool) \<times> pkt list \<Rightarrow> 'd pstate \<Rightarrow> errno + 'd pstate" where
  "finish_group L = (\<lambda>((i, fb), ps) (ctx, trf).
     if length (ctx_sas ctx) \<le> i then Inl UB
     else case lib_process L (session_of fb (ctx_sas ctx ! i)) ps of
       (good, bad) \<Rightarrow>
         (case copy_to_trf (lib_satp L i) good trf of
            Inl e \<Rightarrow> Inl e | Inr trf' \<Rightarrow> Inr (drop_pkts bad ctx, trf')))"

text \<open>\<open>RTE_VERIFY\<close> stops the program when the groups do not cover all operations: \<open>EFAIL\<close>.\<close>

definition ipsec_cqp_process :: "'d crypto_dev \<Rightarrow> ipsec_lib \<Rightarrow> 'd ipsec_ctx \<Rightarrow> errno + 'd pstate" where
  "ipsec_cqp_process D L ctx =
     (case ctx_dequeue D TRAFFIC_SIZE ctx of
        (ps, c1) \<Rightarrow>
          (let trf = \<lparr>tr_ip4 = [], tr_ip6 = []\<rparr> in
           if ps = [] then Inr (c1, trf)
           else let gs = lib_group L ps in
             case run_all (finish_group L) gs (c1, trf) of
               Inl e \<Rightarrow> Inl e
             | Inr st \<Rightarrow> (if length (concat (map snd gs)) = length ps then Inr st else Inl EFAIL)))"

section \<open>Groups\<close>

lemma sa_group_loop_ok:
  "g \<noteq> [] \<Longrightarrow>
     concat (map (\<lambda>(s, ps). map (Pair s) ps) (sa_group_loop sa g xs)) = map (Pair sa) g @ xs \<and>
     (\<forall>(s, ps) \<in> set (sa_group_loop sa g xs). ps \<noteq> []) \<and>
     successively (\<noteq>) (map fst (sa_group_loop sa g xs)) \<and>
     sa_group_loop sa g xs \<noteq> [] \<and> fst (hd (sa_group_loop sa g xs)) = sa \<and>
     length (sa_group_loop sa g xs) \<le> Suc (length xs)"
proof (induction sa g xs rule: sa_group_loop.induct)
  case (2 sa g s p xs)
  show ?case
  proof (cases "s = sa")
    case True
    then show ?thesis using "2.IH"(1) by auto
  next
    case False
    note ih = "2.IH"(2) [OF False, simplified]
    then obtain a b where "sa_group_loop s [p] xs = a # b" "fst a = s" by (cases "sa_group_loop s [p] xs") auto
    then show ?thesis using ih False "2.prems" by (auto simp: successively_Cons)
  qed
qed auto

lemma sa_group_ok:
  "concat (map (\<lambda>(s, ps). map (Pair s) ps) (sa_group xs)) = xs \<and> (\<forall>(s, ps) \<in> set (sa_group xs). ps \<noteq> []) \<and>
   successively (\<noteq>) (map fst (sa_group xs)) \<and> length (sa_group xs) \<le> length xs"
proof (cases xs)
  case (Cons x ys)
  obtain s p where x: "x = (s, p)" by (cases x)
  show ?thesis using sa_group_loop_ok [of "[p]" s ys] by (simp add: Cons x)
qed simp

text \<open>
  Grouping by SA is a partition that keeps the order: the groups, each tagged with its SA pointer and put
  one after the other, are the burst; no group is empty, neighbouring groups have different SAs, and
  there are at most as many groups as packets, so the group array cannot overflow.
\<close>

theorem sa_group_partition:
  "concat (map (\<lambda>(s, ps). map (Pair s) ps) (sa_group xs)) = xs \<and> (\<forall>(s, ps) \<in> set (sa_group xs). ps \<noteq> []) \<and>
   successively (\<noteq>) (map fst (sa_group xs)) \<and> length (sa_group xs) \<le> length xs"
  by (rule sa_group_ok)

lemma sa_group_partition_witness:
  "successively (\<noteq>) (map fst (sa_group [(Some (0 :: nat), 1 :: nat), (Some 0, 2), (None, 3), (Some 0, 4)])) \<and>
   sa_group [(Some (0 :: nat), 1 :: nat), (Some 0, 2), (None, 3), (Some 0, 4)] = [(Some 0, [1, 2]), (None, [3]), (Some 0, [4])]"
proof
  show "successively (\<noteq>) (map fst (sa_group [(Some (0 :: nat), 1 :: nat), (Some 0, 2), (None, 3), (Some 0, 4)]))"
    by (rule sa_group_partition [THEN conjunct2, THEN conjunct2, THEN conjunct1])
qed simp

lemma sa_group_pids:
  fixes xs :: "('a \<times> 'b) list"
  shows "concat (map snd (sa_group xs)) = map snd xs"
proof -
  have "map snd (concat (map (\<lambda>(s, ps). map (Pair s) ps) gs)) = concat (map snd gs)" for gs :: "('a \<times> 'b list) list"
    by (induction gs) (simp_all add: case_prod_beta comp_def)
  then have "concat (map snd (sa_group xs)) = map snd (concat (map (\<lambda>(s, ps). map (Pair s) ps) (sa_group xs)))"
    by (rule sym)
  also have "\<dots> = map snd xs" by (subst sa_group_ok [THEN conjunct1]) (rule refl)
  finally show ?thesis .
qed

section \<open>Bulk enqueueing loses none\<close>

lemma bulk_fill_ok:
  assumes D: "crypto_dev_ok D" and inv: "qinv D ctx" and i: "i < length (tbl ctx)" and t: "tagged ctx ps"
    and f: "bulk_fill D i ps ctx = (rest, ctx')"
  shows "qinv D ctx' \<and> balance D ctx' + pids rest = balance D ctx + pids ps \<and> ctx_sas ctx' = ctx_sas ctx \<and>
    length (tbl ctx') = length (tbl ctx) \<and> tagged ctx rest"
proof -
  define n where "n = min (length ps) (MAX_PKT_BURST - length (cq_buf (tbl ctx ! i)))"
  let ?b = "cq_buf (tbl ctx ! i) @ take n ps"
  have rest: "rest = drop n ps" using f by (simp add: bulk_fill_def Let_def n_def)
  have tr: "tagged ctx (take n ps)" "tagged ctx rest" using t by (simp_all add: rest tagged_take tagged_drop)
  have pid: "pids ps = pids (take n ps) + pids rest" by (simp add: rest pids_take_drop)
  show ?thesis
  proof (cases "MAX_PKT_BURST \<le> length ?b")
    case False
    then have e: "ctx' = ctx\<lparr>tbl := (tbl ctx)[i := (tbl ctx ! i)\<lparr>cq_buf := ?b\<rparr>]\<rparr>"
      using f unfolding bulk_fill_def Let_def n_def [symmetric] by simp
    show ?thesis using buffer_ok [OF inv i tr(1) _ e] False tr by (simp add: pid e ac_simps)
  next
    case True
    obtain m d' where enq: "cd_enq D (dev ctx) (qkey (tbl ctx ! i)) ?b = (m, d')" by fastforce
    have "qkey ((tbl ctx ! i)\<lparr>cq_buf := ?b\<rparr>) = qkey (tbl ctx ! i)" by (simp add: qkey_def)
    then have e: "ctx' = drop_pkts (drop m ?b)
        (ctx\<lparr>tbl := (tbl ctx)[i := (tbl ctx ! i)\<lparr>in_flight := in_flight (tbl ctx ! i) + of_nat m, cq_buf := []\<rparr>], dev := d'\<rparr>)"
      using f True i enq unfolding bulk_fill_def Let_def n_def [symmetric] by (auto simp: enqueue_cop_burst_def Let_def)
    have "tagged ctx ?b" using tr tagged_buf [OF inv] i by simp
    from hand_over_ok [OF D inv i this enq e] show ?thesis using tr by (simp add: pid e drop_pkts_def ac_simps)
  qed
qed

lemma tagged_sas: "ctx_sas c = ctx_sas c' \<Longrightarrow> tagged c ps = tagged c' ps"
  by (simp add: tagged_def)

lemma bulk_loop_ok:
  "crypto_dev_ok D \<Longrightarrow> qinv D ctx \<Longrightarrow> i < length (tbl ctx) \<Longrightarrow> tagged ctx ps \<Longrightarrow>
    qinv D (bulk_loop D i ps ctx) \<and> balance D (bulk_loop D i ps ctx) = balance D ctx + pids ps \<and>
    ctx_sas (bulk_loop D i ps ctx) = ctx_sas ctx \<and> length (tbl (bulk_loop D i ps ctx)) = length (tbl ctx)"
proof (induction D i ps ctx rule: bulk_loop.induct)
  case (1 D i ps ctx)
  obtain rest c1 where f: "bulk_fill D i ps ctx = (rest, c1)" by fastforce
  note ok = bulk_fill_ok [OF "1.prems" f]
  show ?case
  proof (cases "rest = []")
    case True
    then have "bulk_loop D i ps ctx = c1" using "1.prems"(3) by (subst bulk_loop.simps) (simp add: f)
    then show ?thesis using ok True by simp
  next
    case False
    then have l: "bulk_loop D i ps ctx = bulk_loop D i rest c1"
      using "1.prems"(3) by (subst bulk_loop.simps) (simp add: f)
    have "tagged c1 rest" using ok tagged_sas [of c1 ctx rest] by blast
    with "1.IH" [OF _ f [symmetric] False] "1.prems" ok show ?thesis by (simp add: l)
  qed
qed

lemma enqueue_cop_bulk_ok:
  assumes "crypto_dev_ok D" and "qinv D ctx" and "i < length (tbl ctx)" and "tagged ctx ps"
  shows "qinv D (enqueue_cop_bulk D i ps ctx) \<and>
     balance D (enqueue_cop_bulk D i ps ctx) = balance D ctx + pids ps \<and>
     ctx_sas (enqueue_cop_bulk D i ps ctx) = ctx_sas ctx \<and>
     (\<forall>q \<in> set (tbl (enqueue_cop_bulk D i ps ctx)). length (cq_buf q) < MAX_PKT_BURST)"
proof -
  have "qinv D (enqueue_cop_bulk D i ps ctx) \<and>
     balance D (enqueue_cop_bulk D i ps ctx) = balance D ctx + pids ps \<and>
     ctx_sas (enqueue_cop_bulk D i ps ctx) = ctx_sas ctx"
  proof (cases "MAX_PKT_BURST * 3 div 4 \<le> length ps \<and> cq_buf (tbl ctx ! i) = []")
    case False
    then have "enqueue_cop_bulk D i ps ctx = bulk_loop D i ps ctx" unfolding enqueue_cop_bulk_def by (rule if_not_P)
    then show ?thesis using bulk_loop_ok [OF assms] by simp
  next
    case True
    obtain m d' where enq: "cd_enq D (dev ctx) (qkey (tbl ctx ! i)) ps = (m, d')" by fastforce
    have u: "(tbl ctx ! i)\<lparr>in_flight := w\<rparr> = (tbl ctx ! i)\<lparr>in_flight := w, cq_buf := []\<rparr>" for w
      using True by (cases "tbl ctx ! i") simp
    then have e: "enqueue_cop_bulk D i ps ctx = drop_pkts (drop m ps)
        (ctx\<lparr>tbl := (tbl ctx)[i := (tbl ctx ! i)\<lparr>in_flight := in_flight (tbl ctx ! i) + of_nat m, cq_buf := []\<rparr>], dev := d'\<rparr>)"
      using True enq by (simp add: enqueue_cop_bulk_def bulk_direct_def Let_def flip: u)
    from hand_over_ok [OF assms enq e] True show ?thesis by (simp add: e drop_pkts_def)
  qed
  then show ?thesis by (auto simp: qinv_def qp_ok_def)
qed

text \<open>
  C24. Bulk enqueueing is a proper queue operation: for any burst of packets with SAs of the context it terminates (the \<open>do\<close>
  loop fills and empties the buffer until the burst is used up), keeps the invariant, so that no
  buffer is left full, and every packet of the burst ends up buffered, in the device or freed.
\<close>

theorem enqueue_cop_bulk_conserves:
  assumes "crypto_dev_ok D" and "qinv D ctx" and "i < length (tbl ctx)" and "tagged ctx ps"
  shows "qinv D (enqueue_cop_bulk D i ps ctx) \<and>
     balance D (enqueue_cop_bulk D i ps ctx) = balance D ctx + pids ps \<and>
     ctx_sas (enqueue_cop_bulk D i ps ctx) = ctx_sas ctx \<and>
     (\<forall>q \<in> set (tbl (enqueue_cop_bulk D i ps ctx)). length (cq_buf q) < MAX_PKT_BURST)"
  by (rule enqueue_cop_bulk_ok [OF assms])

lemma enqueue_cop_bulk_conserves_witness:
  "balance list_dev (enqueue_cop_bulk list_dev 1 [(sample_pkt 3)\<lparr>p_sa := Some 0\<rparr>] idle_ctx) = {#3#}"
proof -
  have "tagged idle_ctx [(sample_pkt 3)\<lparr>p_sa := Some 0\<rparr>]"
    by (simp add: tagged_def tags_ok_def tag_def idle_ctx_def)
  moreover have "1 < length (tbl idle_ctx)" by (simp add: idle_ctx_def)
  moreover have "balance list_dev idle_ctx = {#}"
    by (simp add: balance_def resident_def idle_ctx_def places_def list_dev_def)
  ultimately show ?thesis
    using enqueue_cop_bulk_conserves [OF list_dev_ok idle_ctx_inv] by (simp add: sample_pkt_def)
qed

section \<open>Processing conserves packets\<close>

lemma splits_okD:
  assumes "splits_ok f" and "f ps = (good, bad)"
  shows "pids good + pids bad = pids ps" and "tagged ctx ps \<Longrightarrow> tagged ctx good"
proof -
  have m: "mset (map tag good) + mset (map tag bad) = mset (map tag ps)"
    using assms by (auto simp: splits_ok_def)
  show "pids good + pids bad = pids ps"
    using arg_cong [OF m, of "image_mset fst"] by simp
  show "tagged ctx ps \<Longrightarrow> tagged ctx good"
    by (simp only: tagged_def m [symmetric] tags_ok_add)
qed

definition trf_pids :: "traffic \<Rightarrow> nat multiset" where
  "trf_pids trf = pids (tr_ip4 trf) + pids (tr_ip6 trf)"

definition trf_ok :: "traffic \<Rightarrow> bool" where
  "trf_ok trf \<longleftrightarrow> length (tr_ip4 trf) \<le> TRAFFIC_SIZE \<and> length (tr_ip6 trf) \<le> TRAFFIC_SIZE"

definition st_ok :: "'d crypto_dev \<Rightarrow> 'd pstate \<Rightarrow> bool" where
  "st_ok D st \<longleftrightarrow> qinv D (fst st) \<and> trf_ok (snd st)"

definition st_bal :: "'d crypto_dev \<Rightarrow> 'd pstate \<Rightarrow> nat multiset" where
  "st_bal D st = balance D (fst st) + trf_pids (snd st)"

lemma copy_to_trf_pids: "copy_to_trf t ps trf = Inr trf' \<Longrightarrow> trf_pids trf' = trf_pids trf + pids ps"
  by (auto simp: copy_to_trf_def trf_pids_def ac_simps split: if_splits)

lemma copy_to_trf_bound: "copy_to_trf t ps trf = Inr trf' \<Longrightarrow> trf_ok trf \<Longrightarrow> trf_ok trf'"
  by (auto simp: copy_to_trf_def trf_ok_def split: if_splits)

lemma tso_of_simps [simp]: "pid (tso_of sa p) = pid p" "p_sa (tso_of sa p) = p_sa p"
  by (simp_all add: tso_of_def)

lemma pids_prep [simp]: "pids (prep_process_group i sa ps) = pids ps" "pids (map (\<lambda>p. p\<lparr>p_sa := s\<rparr>) ps) = pids ps"
  by (simp_all add: pids_def prep_process_group_def comp_def image_mset.compositionality)

lemma prepare_crypto_group_ok:
  assumes D: "crypto_dev_ok (ce_dev E)" and L: "ipsec_lib_ok L" and inv: "qinv (ce_dev E) ctx"
    and i: "i < length (ctx_sas ctx)" and r: "ipsec_prepare_crypto_group E L i fb ps ctx = Inr ctx'"
  shows "qinv (ce_dev E) ctx' \<and> balance (ce_dev E) ctx' = balance (ce_dev E) ctx + pids ps"
proof -
  obtain good bad where g: "lib_crypto_prepare L (session_of fb (ctx_sas ctx ! i)) (map (\<lambda>p. p\<lparr>p_sa := Some i\<rparr>) ps) = (good, bad)"
    by fastforce
  have s: "splits_ok (lib_crypto_prepare L (session_of fb (ctx_sas ctx ! i)))" using L by (simp add: ipsec_lib_ok_def)
  have "tagged ctx (map (\<lambda>p. p\<lparr>p_sa := Some i\<rparr>) ps)" using i by (auto simp: tagged_def tags_ok_def tag_def)
  then have t: "tagged ctx good" and p: "pids good + pids bad = pids ps"
    using splits_okD [OF s g] by simp_all
  have q: "unat (cdev_id_qp (ctx_sas ctx ! i)) < length (tbl ctx)"
    and c: "ctx' = drop_pkts bad (if good = [] then ctx else enqueue_cop_bulk (ce_dev E) (unat (cdev_id_qp (ctx_sas ctx ! i))) good ctx)"
    using r g by (auto simp: ipsec_prepare_crypto_group_def Let_def split: if_splits)
  show ?thesis
    using inv p enqueue_cop_bulk_ok [OF D inv q t] by (auto simp: c ac_simps)
qed

lemma process_inline_group_ok:
  assumes L: "ipsec_lib_ok L" and inv: "st_ok D (ctx, trf)"
    and r: "ipsec_process_inline_group L i fb ps (ctx, trf) = Inr st"
  shows "st_ok D st \<and> st_bal D st = st_bal D (ctx, trf) + pids ps"
proof -
  obtain good bad where g: "lib_process L (session_of fb (ctx_sas ctx ! i)) (prep_process_group i (ctx_sas ctx ! i) ps) = (good, bad)"
    by fastforce
  have s: "splits_ok (lib_process L (session_of fb (ctx_sas ctx ! i)))" using L by (simp add: ipsec_lib_ok_def)
  obtain trf' where t: "copy_to_trf (lib_satp L i) good trf = Inr trf'" and st: "st = (drop_pkts bad ctx, trf')"
    using r g by (auto simp: ipsec_process_inline_group_def Let_def split: sum.splits)
  show ?thesis
    using inv splits_okD(1) [OF s g] copy_to_trf_pids [OF t] copy_to_trf_bound [OF t]
    by (simp add: st st_ok_def st_bal_def ac_simps)
qed

lemma process_cpu_group_ok:
  assumes L: "ipsec_lib_ok L" and inv: "st_ok D (ctx, trf)"
    and r: "ipsec_process_cpu_group L i fb ps (ctx, trf) = Inr st"
  shows "st_ok D st \<and> st_bal D st = st_bal D (ctx, trf) + pids ps"
proof -
  obtain ready bad1 where g1: "lib_cpu_prepare L (session_of fb (ctx_sas ctx ! i)) (prep_process_group i (ctx_sas ctx ! i) ps) = (ready, bad1)"
    by fastforce
  obtain good bad2 where g2: "lib_process L (session_of fb (ctx_sas ctx ! i)) ready = (good, bad2)" by fastforce
  have s: "splits_ok (lib_cpu_prepare L (session_of fb (ctx_sas ctx ! i)))" "splits_ok (lib_process L (session_of fb (ctx_sas ctx ! i)))"
    using L by (simp_all add: ipsec_lib_ok_def)
  obtain trf' where t: "copy_to_trf (lib_satp L i) good trf = Inr trf'" and st: "st = (drop_pkts (bad2 @ bad1) ctx, trf')"
    using r g1 g2 by (auto simp: ipsec_process_cpu_group_def Let_def split: sum.splits)
  have "pids good + pids bad2 + pids bad1 = pids ps"
    using splits_okD(1) [OF s(1) g1] splits_okD(1) [OF s(2) g2] by simp
  then show ?thesis
    using inv copy_to_trf_pids [OF t] copy_to_trf_bound [OF t] by (simp add: st st_ok_def st_bal_def ac_simps)
qed

lemma process_group_ok:
  assumes D: "crypto_dev_ok (ce_dev E)" and L: "ipsec_lib_ok L" and inv: "st_ok (ce_dev E) st"
    and r: "process_group E L g st = Inr st'"
  shows "st_ok (ce_dev E) st' \<and> st_bal (ce_dev E) st' = st_bal (ce_dev E) st + pids (snd g)"
proof -
  obtain s ps where g: "g = (s, ps)" by (cases g)
  obtain ctx trf where st: "st = (ctx, trf)" by (cases st)
  have q: "qinv (ce_dev E) ctx" and b: "trf_ok trf" using inv by (simp_all add: st st_ok_def)
  show ?thesis
  proof (cases s)
    case None
    then show ?thesis using r q b by (auto simp: process_group_def g st st_ok_def st_bal_def ac_simps)
  next
    case (Some x)
    obtain i fb where s: "s = Some (i, fb)" using Some by (cases x) simp
    have i: "i < length (ctx_sas ctx)" using r by (auto simp: process_group_def g st s split: if_splits)
    define w where "w = (let sa = ctx_sas ctx ! i in
        if ses (session_of fb sa) = None then fill_ipsec_session (ce_env E) L i fb sa else (True, sa))"
    obtain ok sa1 where w: "w = (ok, sa1)" by fastforce
    let ?c1 = "set_sa i sa1 ctx"
    have c1: "qinv (ce_dev E) ?c1" "i < length (ctx_sas ?c1)" and s1: "st_ok (ce_dev E) (?c1, trf)"
      using q b i by (simp_all add: st_ok_def)
    have bal: "st_bal (ce_dev E) (?c1, trf) = st_bal (ce_dev E) st" by (simp add: st st_bal_def)
    have r': "(if \<not> ok then Inr (drop_pkts ps ?c1, trf)
        else case ses_type (session_of fb sa1) of
            TYPE_NONE \<Rightarrow> map_sum id (\<lambda>c. (c, trf)) (ipsec_prepare_crypto_group E L i fb ps ?c1)
          | TYPE_LOOKASIDE_PROTOCOL \<Rightarrow> map_sum id (\<lambda>c. (c, trf)) (ipsec_prepare_crypto_group E L i fb ps ?c1)
          | TYPE_INLINE_CRYPTO \<Rightarrow> ipsec_process_inline_group L i fb ps (?c1, trf)
          | TYPE_INLINE_PROTOCOL \<Rightarrow> ipsec_process_inline_group L i fb ps (?c1, trf)
          | TYPE_CPU_CRYPTO \<Rightarrow> ipsec_process_cpu_group L i fb ps (?c1, trf)) = Inr st'"
      using r i w unfolding w_def by (simp add: process_group_def g st s Let_def)
    have crypto: "st_ok (ce_dev E) st' \<and> st_bal (ce_dev E) st' = st_bal (ce_dev E) st + pids ps"
      if a: "map_sum id (\<lambda>c. (c, trf)) (ipsec_prepare_crypto_group E L i fb ps ?c1) = Inr st'"
    proof -
      obtain c' where c': "ipsec_prepare_crypto_group E L i fb ps ?c1 = Inr c'" and st': "st' = (c', trf)"
        using a by (cases "ipsec_prepare_crypto_group E L i fb ps ?c1") auto
      from prepare_crypto_group_ok [OF D L c1 c'] b show ?thesis
        by (simp add: st' st st_ok_def st_bal_def ac_simps)
    qed
    show ?thesis
    proof (cases ok)
      case False
      then have "st' = (drop_pkts ps ?c1, trf)" using r' by simp
      then show ?thesis using q b by (simp add: st g st_ok_def st_bal_def ac_simps)
    next
      case True
      then show ?thesis
        using r' crypto process_inline_group_ok [OF L s1, of i fb ps st']
          process_cpu_group_ok [OF L s1, of i fb ps st'] bal
        by (cases "ses_type (session_of fb sa1)") (simp_all add: g)
    qed
  qed
qed

interpretation process_step: packet_step
  "\<lambda>st. crypto_dev_ok (ce_dev E) \<and> ipsec_lib_ok L \<and> st_ok (ce_dev E) st" "st_bal (ce_dev E)" "\<lambda>g. pids (snd g)"
  "process_group E L" for E L
  by unfold_locales (auto dest: process_group_ok)

lemma pids_concat: "(\<Sum>g\<leftarrow>gs. pids (snd g)) = pids (concat (map snd gs))"
  by (induction gs) simp_all

lemma ipsec_process_ok:
  assumes "crypto_dev_ok (ce_dev E)" and "ipsec_lib_ok L" and "qinv (ce_dev E) ctx" and "trf_ok trf"
    and "ipsec_process E L pkts (ctx, trf) = Inr (ctx', trf')"
  shows "qinv (ce_dev E) ctx' \<and> trf_ok trf' \<and>
     balance (ce_dev E) ctx' + trf_pids trf' = balance (ce_dev E) ctx + trf_pids trf + pids (map snd pkts)"
  using process_step.run_all_ok [of E L "(ctx, trf)" "sa_group pkts" "(ctx', trf')"] assms
  by (simp add: ipsec_process_def st_ok_def st_bal_def pids_concat sa_group_pids)

text \<open>
  C18. \<open>ipsec_process\<close> accounts for every packet of a burst: it ends in a crypto queue or its device, in the IPv4
  or IPv6 traffic, or is freed, exactly once, together with what was there before; the queue engine's
  invariant holds afterwards and neither family exceeds its 64 entries. This holds for every library
  and device within their contracts and for every mix of session types, created, failing or missing
  sessions.
\<close>

theorem ipsec_process_conserves:
  assumes "crypto_dev_ok (ce_dev E)" and "ipsec_lib_ok L" and "qinv (ce_dev E) ctx" and "trf_ok trf"
    and "ipsec_process E L pkts (ctx, trf) = Inr (ctx', trf')"
  shows "qinv (ce_dev E) ctx' \<and> trf_ok trf' \<and>
     balance (ce_dev E) ctx' + trf_pids trf' = balance (ce_dev E) ctx + trf_pids trf + pids (map snd pkts)"
  by (rule ipsec_process_ok [OF assms])

section \<open>Collecting conserves packets\<close>

lemma cqp_dequeue_ok:
  assumes D: "crypto_dev_ok D" and inv: "qinv D ctx" and i: "i < length (tbl ctx)"
    and r: "cqp_dequeue D i num ctx = (ps, ctx')"
  shows "qinv D ctx' \<and> balance D ctx' + pids ps = balance D ctx \<and> length ps \<le> num \<and>
    length (tbl ctx') = length (tbl ctx) \<and> last_qp ctx' = last_qp ctx"
proof (cases "in_flight (tbl ctx ! i) = 0")
  case True
  then show ?thesis using r inv by (simp add: cqp_dequeue_def Let_def)
next
  case False
  let ?q = "tbl ctx ! i"
  obtain d' where dq: "cd_deq D (dev ctx) (qkey ?q) num = (ps, d')"
    and c: "ctx' = ctx\<lparr>tbl := (tbl ctx)[i := ?q\<lparr>in_flight := in_flight ?q - of_nat (length ps)\<rparr>], dev := d'\<rparr>"
    using r False by (auto simp: cqp_dequeue_def Let_def split: prod.splits)
  from take_back_ok [OF D inv i dq c] crypto_dev_okD(2) [OF D dq] show ?thesis by (simp add: c)
qed

lemma deq_loop_ok:
  assumes D: "crypto_dev_ok D"
  shows "qinv D ctx \<Longrightarrow> list_all (\<lambda>i. i < length (tbl ctx)) is \<Longrightarrow> deq_loop D is room ctx = (ps, ctx', j) \<Longrightarrow>
    qinv D ctx' \<and> balance D ctx' + pids ps = balance D ctx \<and> length ps \<le> room \<and> j \<le> length is \<and>
    length (tbl ctx') = length (tbl ctx) \<and> (j < length is \<longrightarrow> length ps = room)"
proof (induction "is" arbitrary: room ctx ps j)
  case (Cons i "is")
  show ?case
  proof (cases "room = 0")
    case True
    with Cons.prems show ?thesis by auto
  next
    case False
    obtain ps1 c1 where c: "cqp_dequeue D i room ctx = (ps1, c1)" by fastforce
    obtain ps2 j' where l: "deq_loop D is (room - length ps1) c1 = (ps2, ctx', j')" and r: "ps = ps1 @ ps2" "j = Suc j'"
      using Cons.prems(3) False c by (auto split: prod.splits)
    note ok = cqp_dequeue_ok [OF D Cons.prems(1) _ c]
    have "list_all (\<lambda>i. i < length (tbl c1)) is" and i: "i < length (tbl ctx)" using Cons.prems(2) ok by simp_all
    with Cons.IH [OF _ _ l] ok have "qinv D ctx' \<and> balance D ctx' + pids ps2 = balance D c1 \<and> length ps2 \<le> room - length ps1 \<and>
        j' \<le> length is \<and> length (tbl ctx') = length (tbl ctx) \<and> (j' < length is \<longrightarrow> length ps2 = room - length ps1)" by auto
    then show ?thesis using ok [OF i] balance_add [of "balance D ctx'" "pids ps2" "balance D c1" "pids ps1" "balance D ctx"]
      by (auto simp: r)
  qed
qed simp

lemma qinv_last_qp: "qinv D ctx \<Longrightarrow> j < length (tbl ctx) \<Longrightarrow> qinv D (ctx\<lparr>last_qp := j\<rparr>)"
  by (auto simp: qinv_def resident_def)

lemma ctx_dequeue_ok:
  assumes D: "crypto_dev_ok D" and inv: "qinv D ctx" and ne: "tbl ctx \<noteq> []" and r: "ctx_dequeue D num ctx = (ps, ctx')"
  shows "qinv D ctx' \<and> balance D ctx' + pids ps = balance D ctx \<and> length ps \<le> num \<and>
    last_qp ctx' \<le> last_qp ctx \<and> length (tbl ctx') = length (tbl ctx)"
proof -
  have lt: "last_qp ctx < length (tbl ctx)" using inv ne by (simp add: qinv_def)
  obtain ps1 c1 j1 ps2 c2 j2 where l1: "deq_loop D [last_qp ctx..<length (tbl ctx)] num ctx = (ps1, c1, j1)"
    and l2: "deq_loop D [0..<last_qp ctx] (num - length ps1) c1 = (ps2, c2, j2)"
    and ps: "ps = ps1 @ ps2" and c: "ctx' = c2\<lparr>last_qp := j2\<rparr>"
    using r by (auto simp: ctx_dequeue_def Let_def split: prod.splits)
  have ok1: "qinv D c1 \<and> balance D c1 + pids ps1 = balance D ctx \<and> length ps1 \<le> num \<and> length (tbl c1) = length (tbl ctx)"
    using deq_loop_ok [OF D inv _ l1] by (simp add: list_all_iff)
  have ok2: "qinv D c2 \<and> balance D c2 + pids ps2 = balance D c1 \<and> length ps2 \<le> num - length ps1 \<and> j2 \<le> last_qp ctx \<and>
      length (tbl c2) = length (tbl c1)"
    using deq_loop_ok [OF D _ _ l2] ok1 lt by (simp add: list_all_iff)
  have "j2 < length (tbl c2)" using ok1 ok2 lt by simp
  then have "qinv D ctx'" unfolding c using ok2 by (intro qinv_last_qp) simp_all
  moreover have "balance D ctx' = balance D c2" by (simp add: c balance_def resident_def)
  ultimately show ?thesis
    using ok1 ok2 balance_add [of "balance D c2" "pids ps2" "balance D c1" "pids ps1" "balance D ctx"] by (auto simp: ps) (simp_all add: c)
qed

text \<open>
  The rotation of \<open>ctx_dequeue\<close> does not rotate: the next call never starts at a later queue pair than this
  one. From the initial state, where \<open>last_qp\<close> is 0, every call starts at queue pair 0, so a device that
  always fills the request starves all others. Packets are conserved and the invariant is kept.
\<close>

theorem ctx_dequeue_never_advances:
  assumes "crypto_dev_ok D" and "qinv D ctx" and "tbl ctx \<noteq> []" and "ctx_dequeue D num ctx = (ps, ctx')"
  shows "last_qp ctx' \<le> last_qp ctx \<and> (last_qp ctx = 0 \<longrightarrow> last_qp ctx' = 0) \<and> length ps \<le> num \<and>
    qinv D ctx' \<and> balance D ctx' + pids ps = balance D ctx"
  using ctx_dequeue_ok [OF assms] by auto

lemma ctx_dequeue_never_advances_witness:
  "\<exists>ps ctx'. ctx_dequeue list_dev 64 busy_ctx = (ps, ctx') \<and> last_qp ctx' = 0 \<and> balance list_dev ctx' + pids ps = {#7#}"
proof -
  obtain ps ctx' where r: "ctx_dequeue list_dev 64 busy_ctx = (ps, ctx')" by fastforce
  have "tbl busy_ctx \<noteq> []" "last_qp busy_ctx = 0" by (simp_all add: busy_ctx_def idle_ctx_def)
  moreover have "balance list_dev busy_ctx = {#7#}"
    by (simp add: balance_def resident_def busy_ctx_def idle_ctx_def places_def list_dev_def qkey_def sample_pkt_def tag_def)
  ultimately show ?thesis
    using ctx_dequeue_never_advances [OF list_dev_ok busy_ctx_inv _ r] r by simp
qed

lemma finish_group_ok:
  assumes L: "ipsec_lib_ok L" and inv: "st_ok D st" and r: "finish_group L g st = Inr st'"
  shows "st_ok D st' \<and> st_bal D st' = st_bal D st + pids (snd g)"
proof -
  obtain i fb ps where g: "g = ((i, fb), ps)" by (metis prod.collapse)
  obtain ctx trf where st: "st = (ctx, trf)" by (cases st)
  obtain good bad where f: "lib_process L (session_of fb (ctx_sas ctx ! i)) ps = (good, bad)" by fastforce
  have s: "splits_ok (lib_process L (session_of fb (ctx_sas ctx ! i)))" using L by (simp add: ipsec_lib_ok_def)
  obtain trf' where t: "copy_to_trf (lib_satp L i) good trf = Inr trf'" and st': "st' = (drop_pkts bad ctx, trf')"
    using r f by (auto simp: finish_group_def g st split: if_splits sum.splits)
  show ?thesis
    using inv splits_okD(1) [OF s f] copy_to_trf_pids [OF t] copy_to_trf_bound [OF t] by (simp add: st st' g st_ok_def st_bal_def ac_simps)
qed

interpretation finish_step: packet_step
  "\<lambda>st. ipsec_lib_ok L \<and> st_ok D st" "st_bal D" "\<lambda>g. pids (snd g)" "finish_group L" for L D
  by unfold_locales (auto dest: finish_group_ok)

lemma ipsec_cqp_process_ok:
  assumes "crypto_dev_ok D" and "ipsec_lib_ok L" and "qinv D ctx" and "tbl ctx \<noteq> []"
    and "ipsec_cqp_process D L ctx = Inr (ctx', trf)"
  shows "qinv D ctx' \<and> balance D ctx' + trf_pids trf = balance D ctx \<and> trf_ok trf"
proof -
  let ?trf = "\<lparr>tr_ip4 = [], tr_ip6 = []\<rparr>"
  have e: "trf_ok ?trf" "trf_pids ?trf = {#}" by (simp_all add: trf_ok_def trf_pids_def)
  obtain ps c1 where d: "ctx_dequeue D TRAFFIC_SIZE ctx = (ps, c1)" by fastforce
  note ok = ctx_dequeue_ok [OF assms(1,3,4) d]
  show ?thesis
  proof (cases "ps = []")
    case True
    then show ?thesis using assms(5) d ok e by (auto simp: ipsec_cqp_process_def)
  next
    case False
    let ?gs = "lib_group L ps"
    have run: "run_all (finish_group L) ?gs (c1, ?trf) = Inr (ctx', trf)" and len: "length (concat (map snd ?gs)) = length ps"
      using assms(5) d False by (auto simp: ipsec_cqp_process_def Let_def split: sum.splits if_splits)
    have "mset (map tag (concat (map snd ?gs))) \<subseteq># mset (map tag ps)" using assms(2) by (simp add: ipsec_lib_ok_def)
    moreover have "size (mset (map tag (concat (map snd ?gs)))) = size (mset (map tag ps))"
      using len by (simp only: size_mset length_map)
    ultimately have "mset (map tag (concat (map snd ?gs))) = mset (map tag ps)"
      by (metis mset_subset_size subset_mset.order_iff_strict less_irrefl)
    then have same: "pids (concat (map snd ?gs)) = pids ps" by (metis fst_tags(1))
    have "st_ok D (c1, ?trf)" using ok e by (simp add: st_ok_def)
    with finish_step.run_all_ok [of L D "(c1, ?trf)" ?gs "(ctx', trf)"] run assms(2)
    have "st_ok D (ctx', trf) \<and> st_bal D (ctx', trf) = st_bal D (c1, ?trf) + pids ps"
      by (simp add: pids_concat same)
    then show ?thesis using ok e by (simp add: st_ok_def st_bal_def)
  qed
qed

lemma ipsec_cqp_process_any:
  assumes "crypto_dev_ok D" and "ipsec_lib_ok L" and "qinv D ctx" and "ipsec_cqp_process D L ctx = Inr (ctx', trf)"
  shows "qinv D ctx' \<and> balance D ctx' + trf_pids trf = balance D ctx"
proof (cases "tbl ctx = []")
  case True
  then have "last_qp ctx = 0" using assms(3) by (simp add: qinv_def)
  then have "(ctx', trf) = (ctx\<lparr>last_qp := 0\<rparr>, \<lparr>tr_ip4 = [], tr_ip6 = []\<rparr>)"
    using assms(4) True by (auto simp: ipsec_cqp_process_def ctx_dequeue_def Let_def)
  then show ?thesis using assms(3) True by (simp add: qinv_def balance_def resident_def trf_pids_def)
qed (use ipsec_cqp_process_ok [OF assms(1-3) _ assms(4)] in simp)

text \<open>
  Finished crypto operations are delivered exactly once: when \<open>ipsec_cqp_process\<close> returns, every packet taken from
  a device is in the IPv4 or IPv6 traffic or freed, neither family exceeds its 64 entries, and the
  invariant of the queue engine holds.
\<close>

theorem ipsec_cqp_process_conserves:
  assumes "crypto_dev_ok D" and "ipsec_lib_ok L" and "qinv D ctx" and "tbl ctx \<noteq> []"
    and "ipsec_cqp_process D L ctx = Inr (ctx', trf)"
  shows "qinv D ctx' \<and> balance D ctx' + trf_pids trf = balance D ctx \<and> trf_ok trf"
  by (rule ipsec_cqp_process_ok [OF assms])

section \<open>A library for the witnesses\<close>

definition accept_lib :: ipsec_lib where
  "accept_lib = \<lparr>lib_session_prepare = (\<lambda>_ _ _. True), lib_crypto_prepare = (\<lambda>_ ps. (ps, [])),
     lib_cpu_prepare = (\<lambda>_ ps. (ps, [])), lib_process = (\<lambda>_ ps. (filter (\<lambda>p. op_status (p_cop p) = OP_SUCCESS) ps,
        filter (\<lambda>p. op_status (p_cop p) \<noteq> OP_SUCCESS) ps)),
     lib_group = (\<lambda>ps. if ps = [] then [] else [((0, False), ps)]),
     lib_satp = (\<lambda>_. \<lparr>st_inbound = True, st_ipv4 = True, st_transport = False, st_tunlv4 = True\<rparr>)\<rparr>"

lemma accept_lib_ok: "ipsec_lib_ok accept_lib"
proof -
  have "mset (map tag (filter P ps)) + mset (map tag (filter (\<lambda>p. \<not> P p) ps)) = mset (map tag ps)" for P and ps :: "pkt list"
    by (simp flip: image_mset_union mset_append add: mset_partition)
  then show ?thesis by (simp add: ipsec_lib_ok_def splits_ok_def accept_lib_def)
qed

lemma ipsec_process_conserves_witness:
  "\<exists>ctx' trf'. ipsec_process sample_cenv accept_lib [(Some (0, False), sample_pkt 1), (None, sample_pkt 2)]
       (idle_ctx, \<lparr>tr_ip4 = [], tr_ip6 = []\<rparr>) = Inr (ctx', trf') \<and>
     balance list_dev ctx' + trf_pids trf' = {#1, 2#}"
proof -
  let ?t = "\<lparr>tr_ip4 = [], tr_ip6 = []\<rparr>"
  let ?r = "ipsec_process sample_cenv accept_lib [(Some (0, False), sample_pkt 1), (None, sample_pkt 2)] (idle_ctx, ?t)"
  have "case ?r of Inl e \<Rightarrow> False | Inr x \<Rightarrow> True" by code_simp
  then obtain ctx' trf' where r: "?r = Inr (ctx', trf')" by (auto split: sum.splits)
  have "balance list_dev idle_ctx = {#}"
    by (simp add: balance_def resident_def idle_ctx_def places_def list_dev_def)
  moreover have "ce_dev sample_cenv = list_dev" by (simp add: sample_cenv_def)
  moreover have "trf_ok ?t" "trf_pids ?t = {#}" by (simp_all add: trf_ok_def trf_pids_def)
  moreover have "pids (map snd [(Some (0, False), sample_pkt 1), (None, sample_pkt 2)]) = {#1, 2#}" by (simp add: sample_pkt_def)
  ultimately show ?thesis
    using ipsec_process_conserves [OF _ accept_lib_ok _ _ r] list_dev_ok idle_ctx_inv r by simp
qed

lemma ipsec_cqp_process_conserves_witness:
  "\<exists>ctx' trf. ipsec_cqp_process list_dev accept_lib busy_ctx = Inr (ctx', trf) \<and> balance list_dev ctx' + trf_pids trf = {#7#}"
proof -
  let ?r = "ipsec_cqp_process list_dev accept_lib busy_ctx"
  have "case ?r of Inl e \<Rightarrow> False | Inr x \<Rightarrow> True" by code_simp
  then obtain ctx' trf where r: "?r = Inr (ctx', trf)" by (auto split: sum.splits)
  have "tbl busy_ctx \<noteq> []" by (simp add: busy_ctx_def)
  moreover have "balance list_dev busy_ctx = {#7#}"
    by (simp add: balance_def resident_def busy_ctx_def idle_ctx_def places_def list_dev_def qkey_def sample_pkt_def tag_def)
  ultimately show ?thesis
    using ipsec_cqp_process_conserves [OF list_dev_ok accept_lib_ok busy_ctx_inv _ r] r by simp
qed

end
