(* ===== verification/Traffic.thy ===== *)
theory Traffic
  imports Process SP_Rules
begin

text \<open>
  What \<open>ipsec-secgw.c\<close> does with a burst before and after the IPsec engine: the classification of
  received frames (\<open>prepare_one_packet\<close>), the policy checks of inbound and outbound traffic
  (\<open>inbound_sp_sa\<close>, \<open>outbound_spd_lookup\<close>) and the split into IPv4 and IPv6. The lists of the
  model are the arrays of \<open>struct ipsec_traffic\<close>; the pointers \<open>data\<close> into the headers, which the
  classifier reads, are recomputed from the packets. The access control context of \<open>librte_acl\<close> is
  a parameter, a function from the bytes at \<open>data\<close> to the result, or \<open>None\<close> for the NULL context.
\<close>

section \<open>Packet types\<close>

definition RTE_PTYPE_L3_IPV4 :: u32 where "RTE_PTYPE_L3_IPV4 = 0x10"
definition RTE_PTYPE_L3_IPV6 :: u32 where "RTE_PTYPE_L3_IPV6 = 0x40"
definition RTE_PTYPE_L4_TCP :: u32 where "RTE_PTYPE_L4_TCP = 0x100"
definition RTE_PTYPE_L4_UDP :: u32 where "RTE_PTYPE_L4_UDP = 0x200"
definition RTE_PTYPE_L4_MASK :: u32 where "RTE_PTYPE_L4_MASK = 0xF00"
definition RTE_PTYPE_TUNNEL_ESP :: u32 where "RTE_PTYPE_TUNNEL_ESP = 0x9000"
definition RTE_PTYPE_TUNNEL_MASK :: u32 where "RTE_PTYPE_TUNNEL_MASK = 0xF000"
definition MBUF_PTYPE_TUNNEL_ESP_IN_UDP :: u32 where
  "MBUF_PTYPE_TUNNEL_ESP_IN_UDP = RTE_PTYPE_TUNNEL_ESP OR RTE_PTYPE_L4_UDP"

text \<open>The fields of a packet that stand for the bits of \<open>packet_type\<close> the code reads later.\<close>

definition with_ptype :: "u32 \<Rightarrow> mbuf \<Rightarrow> mbuf" where
  "with_ptype t m =
     m\<lparr>l3_ipv4 := (t AND RTE_PTYPE_L3_IPV4 \<noteq> 0),
       l4_type := (let l4 = t AND RTE_PTYPE_L4_MASK in
          if l4 = 0 then L4_NONE else if l4 = RTE_PTYPE_L4_TCP then L4_TCP
          else if l4 = RTE_PTYPE_L4_UDP then L4_UDP else L4_OTHER),
       tunnel_esp := (t AND RTE_PTYPE_TUNNEL_MASK = RTE_PTYPE_TUNNEL_ESP),
       esp_in_udp := (t AND (RTE_PTYPE_TUNNEL_MASK OR RTE_PTYPE_L4_MASK) = MBUF_PTYPE_TUNNEL_ESP_IN_UDP)\<rparr>"

section \<open>Received frames\<close>

definition RTE_ETHER_HDR_LEN :: nat where "RTE_ETHER_HDR_LEN = 14"
definition RTE_ETHER_TYPE_IPV4 :: u16 where "RTE_ETHER_TYPE_IPV4 = 0x0800"
definition RTE_ETHER_TYPE_IPV6 :: u16 where "RTE_ETHER_TYPE_IPV6 = 0x86DD"
definition IPSEC_NAT_T_PORT :: u16 where "IPSEC_NAT_T_PORT = 4500"

text \<open>
  What the code takes from elsewhere: the mbuf functions, \<open>rte_ipv6_get_next_ext\<close> (the next header
  and the length of an extension header, \<open>None\<close> when the header is no extension), whether the
  security metadata field is registered and the user data of an inline session, an SA.
\<close>

record rx_env =
  rx_api :: mbuf_api
  rx_udp_encap :: bool
  rx_next_ext :: "u8 list \<Rightarrow> nat \<Rightarrow> (nat \<times> nat) option"
  rx_dynfield :: bool
  rx_userdata :: "pkt \<Rightarrow> nat option"

text \<open>A received packet carries the packet type the NIC found.\<close>

type_synonym rx_pkt = "u32 \<times> pkt"

datatype verdict = To_Ipsec | To_Ip4 | To_Ip6 | To_Drop

definition trim_to :: "mbuf_api \<Rightarrow> nat \<Rightarrow> mbuf \<Rightarrow> mbuf" where
  "trim_to api plen m =
     (if plen < pkt_len m then (case pkt_trim api (pkt_len m - plen) m of None \<Rightarrow> m | Some m' \<Rightarrow> m') else m)"

definition adjust_ipv4_pktlen :: "mbuf_api \<Rightarrow> nat \<Rightarrow> mbuf \<Rightarrow> mbuf" where
  "adjust_ipv4_pktlen api l2 m = trim_to api (unat (be16_at (m_bytes m) 2) + l2) m"

definition adjust_ipv6_pktlen :: "mbuf_api \<Rightarrow> nat \<Rightarrow> mbuf \<Rightarrow> mbuf" where
  "adjust_ipv6_pktlen api l2 m = trim_to api (unat (be16_at (m_bytes m) 4) + 40 + l2) m"

text \<open>The NAT traversal test on the UDP ports at offset \<open>o\<close>; \<open>b\<close> are the bytes before the trim.\<close>

definition nat_t :: "nat \<Rightarrow> u8 list \<Rightarrow> errno + bool" where
  "nat_t off b =
     (if length b < off + 4 then Inl UB
      else Inr (be16_at b off = IPSEC_NAT_T_PORT \<or> be16_at b (off + 2) = IPSEC_NAT_T_PORT))"

text \<open>The walk over IPv6 extension headers up to ESP; the fuel is one more than the data length.\<close>

fun ext_loop :: "(u8 list \<Rightarrow> nat \<Rightarrow> (nat \<times> nat) option) \<Rightarrow> nat \<Rightarrow> u8 list \<Rightarrow> nat \<Rightarrow> nat \<Rightarrow> nat \<Rightarrow> errno + nat option \<times> nat" where
  "ext_loop nx 0 b n proto l3 = Inl EFAIL"
| "ext_loop nx (Suc f) b n proto l3 =
     (if proto \<noteq> unat IPPROTO_ESP \<and> l3 < n then
        (case nx (drop l3 b) proto of
           None \<Rightarrow> Inr (None, l3)
         | Some (proto', e) \<Rightarrow> ext_loop nx f b n proto' (l3 + e))
      else Inr (Some proto, l3))"

text \<open>\<open>l2_len\<close>, \<open>l3_len\<close> and \<open>l4_len\<close> are bit fields of 7, 9 and 8 bits.\<close>

definition rx_done :: "u32 \<Rightarrow> nat \<Rightarrow> nat \<Rightarrow> mbuf \<Rightarrow> pkt \<Rightarrow> pkt" where
  "rx_done t l3 l4 m p =
     p\<lparr>pbuf := (with_ptype t m)\<lparr>l3_len := l3 mod 512\<rparr>, p_l2_len := 0, p_l4_len := l4\<rparr>"

definition prepare_ip4 :: "rx_env \<Rightarrow> u32 \<Rightarrow> mbuf \<Rightarrow> pkt \<Rightarrow> errno + verdict \<times> pkt" where
  "prepare_ip4 env t m p =
     (let b = m_bytes m; m1 = adjust_ipv4_pktlen (rx_api env) 0 m; proto = b ! 9;
          fin = (\<lambda>t v. let t' = t OR RTE_PTYPE_L3_IPV4 in
             Inr (v, rx_done t' 20
               (if t' AND RTE_PTYPE_L4_TCP \<noteq> 0 then 20 else if t' AND RTE_PTYPE_L4_UDP \<noteq> 0 then 8 else p_l4_len p) m1 p))
      in if length b < 20 then Inl UB
         else if proto = IPPROTO_ESP then fin t To_Ipsec
         else if proto = IPPROTO_UDP \<and> rx_udp_encap env then
           (case nat_t (ip_hl b * 4) b of
              Inl e \<Rightarrow> Inl e
            | Inr True \<Rightarrow> fin (t OR MBUF_PTYPE_TUNNEL_ESP_IN_UDP) To_Ipsec
            | Inr False \<Rightarrow> fin t To_Ip4)
         else fin t To_Ip4)"

definition prepare_ip6 :: "rx_env \<Rightarrow> u32 \<Rightarrow> mbuf \<Rightarrow> pkt \<Rightarrow> errno + verdict \<times> pkt" where
  "prepare_ip6 env t m p =
     (let b = m_bytes m; m1 = adjust_ipv6_pktlen (rx_api env) 0 m; n = pkt_len m1 in
      if length b < 40 then Inl UB
      else case ext_loop (rx_next_ext env) (Suc n) b n (unat (b ! 6)) 40 of
        Inl e \<Rightarrow> Inl e
      | Inr (proto, l3) \<Rightarrow>
          (let fin = (\<lambda>t v. Inr (v, rx_done (t OR RTE_PTYPE_L3_IPV6) l3 (p_l4_len p) m1 p)) in
           if n < l3 then Inr (To_Drop, p)
           else if proto = Some (unat IPPROTO_ESP) then fin t To_Ipsec
           else if proto = Some (unat IPPROTO_UDP) \<and> rx_udp_encap env then
             (case nat_t l3 b of
                Inl e \<Rightarrow> Inl e
              | Inr True \<Rightarrow> fin (t OR MBUF_PTYPE_TUNNEL_ESP_IN_UDP) To_Ipsec
              | Inr False \<Rightarrow> fin t To_Ip6)
           else fin t To_Ip6))"

text \<open>Packets processed inline get the SA of their session; without one the saved SA stays as it is.\<close>

definition inline_sa :: "rx_env \<Rightarrow> pkt \<Rightarrow> pkt" where
  "inline_sa env p =
     (if rx_sec_offload (pbuf p) \<and> rx_dynfield env then
        (case rx_userdata env p of None \<Rightarrow> p | Some sa \<Rightarrow> p\<lparr>p_sa := Some sa\<rparr>)
      else p)"

definition prepare_one_packet :: "rx_env \<Rightarrow> rx_pkt \<Rightarrow> errno + verdict \<times> pkt" where
  "prepare_one_packet env = (\<lambda>(t, p).
     let b = m_bytes (pbuf p); ty = be16_at b 12 in
     if length b < RTE_ETHER_HDR_LEN then Inl UB
     else if ty = RTE_ETHER_TYPE_IPV4 \<or> ty = RTE_ETHER_TYPE_IPV6 then
       (case pkt_adj (rx_api env) RTE_ETHER_HDR_LEN (pbuf p) of
          None \<Rightarrow> Inl UB
        | Some m \<Rightarrow>
            (case (if ty = RTE_ETHER_TYPE_IPV4 then prepare_ip4 env t m p else prepare_ip6 env t m p) of
               Inl e \<Rightarrow> Inl e
             | Inr (v, p') \<Rightarrow> Inr (v, if v = To_Drop then p' else inline_sa env p')))
     else Inr (To_Drop, p))"

record burst =
  bu_ipsec :: "pkt list"
  bu_ip4 :: "pkt list"
  bu_ip6 :: "pkt list"
  bu_drop :: "pkt list"

definition put_pkt :: "verdict \<Rightarrow> pkt \<Rightarrow> burst \<Rightarrow> burst" where
  "put_pkt v p bu =
     (case v of
        To_Ipsec \<Rightarrow> bu\<lparr>bu_ipsec := bu_ipsec bu @ [p]\<rparr>
      | To_Ip4 \<Rightarrow> bu\<lparr>bu_ip4 := bu_ip4 bu @ [p]\<rparr>
      | To_Ip6 \<Rightarrow> bu\<lparr>bu_ip6 := bu_ip6 bu @ [p]\<rparr>
      | To_Drop \<Rightarrow> bu\<lparr>bu_drop := bu_drop bu @ [p]\<rparr>)"

definition prepare_step :: "rx_env \<Rightarrow> rx_pkt \<Rightarrow> burst \<Rightarrow> errno + burst" where
  "prepare_step env r bu = (case prepare_one_packet env r of Inl e \<Rightarrow> Inl e | Inr (v, p) \<Rightarrow> Inr (put_pkt v p bu))"

definition no_burst :: burst where
  "no_burst = \<lparr>bu_ipsec = [], bu_ip4 = [], bu_ip6 = [], bu_drop = []\<rparr>"

definition prepare_traffic :: "rx_env \<Rightarrow> rx_pkt list \<Rightarrow> errno + burst" where
  "prepare_traffic env rs = run_all (prepare_step env) rs no_burst"

section \<open>Policies\<close>

text \<open>The counters of \<open>struct ipsec_spd_stats\<close>.\<close>

record spd_stats =
  n_protect :: u64
  n_bypass :: u64
  n_discard :: u64

definition count_protect :: "spd_stats \<Rightarrow> spd_stats" where "count_protect s = s\<lparr>n_protect := n_protect s + 1\<rparr>"
definition count_bypass :: "spd_stats \<Rightarrow> spd_stats" where "count_bypass s = s\<lparr>n_bypass := n_bypass s + 1\<rparr>"
definition count_discard :: "spd_stats \<Rightarrow> spd_stats" where "count_discard s = s\<lparr>n_discard := n_discard s + 1\<rparr>"

type_synonym acl = "(u8 list \<Rightarrow> u32) option"

text \<open>Where the classifier starts to read: the protocol field of the IPv4 or IPv6 header.\<close>

definition acl_ofs :: "bool \<Rightarrow> nat" where
  "acl_ofs v6 = (if v6 then 6 else 9)"

definition classify :: "(u8 list \<Rightarrow> u32) \<Rightarrow> bool \<Rightarrow> pkt \<Rightarrow> u32" where
  "classify f v6 p = f (drop (acl_ofs v6) (m_bytes (pbuf p)))"

text \<open>
  The loop of \<open>inbound_sp_sa\<close> from index \<open>i\<close>: the packets kept, those freed, and the counters. The SA
  a packet saved is an index into the SA context.
\<close>

fun sp_sa_loop ::
  "(pkt \<Rightarrow> u32) \<Rightarrow> ipsec_sa list \<Rightarrow> nat \<Rightarrow> nat \<Rightarrow> pkt list \<Rightarrow> spd_stats \<Rightarrow> errno + pkt list \<times> pkt list \<times> spd_stats" where
  "sp_sa_loop cl sas lim i [] st = Inr ([], [], st)"
| "sp_sa_loop cl sas lim i (p # ps) st =
     (let res = cl p;
          keep = (\<lambda>st. map_sum id (\<lambda>(k, d, st). (p # k, d, st)) (sp_sa_loop cl sas lim (Suc i) ps st));
          free = (\<lambda>st. map_sum id (\<lambda>(k, d, st). (k, p # d, st)) (sp_sa_loop cl sas lim (Suc i) ps st))
      in if res = BYPASS then keep (count_bypass st)
         else if res = DISCARD then free (count_discard st)
         else if i < lim \<and> \<not> rx_sec_offload (pbuf p) then free (count_discard st)
         else case inbound_sa_check sas (map_option (nth sas) (p_sa p)) (unat (res - 1)) of
             Inl e \<Rightarrow> Inl e
           | Inr False \<Rightarrow> free (count_discard st)
           | Inr True \<Rightarrow> keep (count_protect st))"

definition inbound_sp_sa ::
  "acl \<Rightarrow> bool \<Rightarrow> ipsec_sa list \<Rightarrow> nat \<Rightarrow> pkt list \<Rightarrow> spd_stats \<Rightarrow> errno + pkt list \<times> pkt list \<times> spd_stats" where
  "inbound_sp_sa sp v6 sas lim ps st =
     (case sp of None \<Rightarrow> Inr (ps, [], st) | Some f \<Rightarrow> sp_sa_loop (classify f v6) sas lim 0 ps st)"

text \<open>\<open>outbound_spd_lookup\<close>: packets to send in clear, packets to protect with their SA index, packets freed.\<close>

fun spd_loop ::
  "(pkt \<Rightarrow> u32) \<Rightarrow> pkt list \<Rightarrow> spd_stats \<Rightarrow> pkt list \<times> (pkt \<times> u32) list \<times> pkt list \<times> spd_stats" where
  "spd_loop cl [] st = ([], [], [], st)"
| "spd_loop cl (p # ps) st =
     (let res = cl p in
      if res = DISCARD then (case spd_loop cl ps (count_discard st) of (c, x, d, st) \<Rightarrow> (c, x, p # d, st))
      else if res = BYPASS then (case spd_loop cl ps (count_bypass st) of (c, x, d, st) \<Rightarrow> (p # c, x, d, st))
      else (case spd_loop cl ps (count_protect st) of (c, x, d, st) \<Rightarrow> (c, (p, res - 1) # x, d, st)))"

definition outbound_spd_lookup ::
  "acl \<Rightarrow> bool \<Rightarrow> pkt list \<Rightarrow> spd_stats \<Rightarrow> pkt list \<times> (pkt \<times> u32) list \<times> pkt list \<times> spd_stats" where
  "outbound_spd_lookup sp v6 ps st =
     (case sp of None \<Rightarrow> (ps, [], [], st) | Some f \<Rightarrow> spd_loop (classify f v6) ps st)"

section \<open>Splitting by IP version\<close>

text \<open>\<open>split46_traffic\<close> frees what is neither IPv4 nor IPv6; the other split takes all else for IPv6.\<close>

definition split46_step :: "pkt \<Rightarrow> traffic \<times> pkt list \<Rightarrow> errno + traffic \<times> pkt list" where
  "split46_step p = (\<lambda>(trf, d).
     let b = m_bytes (pbuf p) in
     if b = [] then Inl UB
     else if ip_v b = 4 then Inr (trf\<lparr>tr_ip4 := tr_ip4 trf @ [p]\<rparr>, d)
     else if ip_v b = 6 then Inr (trf\<lparr>tr_ip6 := tr_ip6 trf @ [p]\<rparr>, d)
     else Inr (trf, d @ [p]))"

definition split46_traffic :: "traffic \<Rightarrow> pkt list \<Rightarrow> errno + traffic \<times> pkt list" where
  "split46_traffic trf ps = run_all split46_step ps (trf, [])"

definition split4_step :: "pkt \<Rightarrow> traffic \<Rightarrow> errno + traffic" where
  "split4_step p trf =
     (let b = m_bytes (pbuf p) in
      if b = [] then Inl UB
      else if ip_v b = 4 then Inr (trf\<lparr>tr_ip4 := tr_ip4 trf @ [p]\<rparr>)
      else Inr (trf\<lparr>tr_ip6 := tr_ip6 trf @ [p]\<rparr>))"

definition split4_traffic :: "traffic \<Rightarrow> pkt list \<Rightarrow> errno + traffic" where
  "split4_traffic trf ps = run_all split4_step ps trf"

end
