(* ===== verification/Route.thy ===== *)
theory Route
  imports Tokens
begin

text \<open>
  The routing table, \<open>rt.c\<close>: route lines of the configuration and the tables built from them. The
  longest-prefix-match tables of DPDK are a parameter (\<open>lpm_api\<close>); \<open>lpm_ok\<close> is their documented
  behaviour. The static arrays are lists of 1024 slots, zero at the start; a line is parsed into the
  next free slot in place, and only the counter makes the slot count.
\<close>

definition RT_MAX_RULES :: nat where "RT_MAX_RULES = 1024"

section \<open>Route lines\<close>

record 'a route =
  rt_dst :: 'a
  rt_depth :: u8
  rt_if_out :: u8

record rt_db =
  rt_ip4 :: "u32 route list"
  nb_rt_ip4 :: nat
  rt_ip6 :: "u8 list route list"
  nb_rt_ip6 :: nat

definition empty_rt :: rt_db where
  "empty_rt =
     \<lparr>rt_ip4 = replicate RT_MAX_RULES \<lparr>rt_dst = 0, rt_depth = 0, rt_if_out = 0\<rparr>, nb_rt_ip4 = 0,
      rt_ip6 = replicate RT_MAX_RULES \<lparr>rt_dst = replicate 16 0, rt_depth = 0, rt_if_out = 0\<rparr>, nb_rt_ip6 = 0\<rparr>"

text \<open>
  The two tests of the loop body follow one another; the argument of \<open>dst\<close> is the current token of
  the second test. The prefix length and the port are cut to 8 bits.
\<close>

definition rt_step ::
  "(string \<Rightarrow> ('a \<times> u32) option) \<Rightarrow> 'a route \<Rightarrow> string \<Rightarrow> string list \<Rightarrow> 'a route \<times> (parse_error + string list)" where
  "rt_step addr r t rest =
     (let port = (\<lambda>r t rest.
        if t = ''port'' then
          next_token rest r (\<lambda>a rest'. app_check (is_str_num a) (Not_number a) r (r\<lparr>rt_if_out := ucast (atoi a)\<rparr>, Inr rest'))
        else (r, Inr rest))
      in if t = ''dst'' then
           next_token rest r (\<lambda>a rest'.
             case addr a of
               None \<Rightarrow> (r, Inl (Bad_addr a))
             | Some (ip, d) \<Rightarrow> port (r\<lparr>rt_dst := ip, rt_depth := ucast d\<rparr>) a rest')
         else port r t rest)"

lemma rt_step_consumes: "rt_step addr r t rest = (r', Inr rest') \<Longrightarrow> length rest' \<le> length rest"
  by (auto simp: rt_step_def Let_def next_token_def app_check_def split: if_splits list.splits option.splits)

function rt_loop :: "(string \<Rightarrow> ('a \<times> u32) option) \<Rightarrow> string list \<Rightarrow> 'a route \<Rightarrow> 'a route \<times> parse_error option" where
  "rt_loop addr [] r = (r, None)"
| "rt_loop addr (t # rest) r =
     (case rt_step addr r t rest of
        (r', Inl e) \<Rightarrow> (r', Some e)
      | (r', Inr rest') \<Rightarrow> rt_loop addr rest' r')"
  by pat_completeness auto
termination
  by (relation "measure (\<lambda>(addr, toks, r). length toks)") (auto simp: less_Suc_eq_le intro: rt_step_consumes [OF sym])

definition rt_addr4 :: "inet \<Rightarrow> string \<Rightarrow> (u32 \<times> u32) option" where
  "rt_addr4 lib a = map_option (\<lambda>(ip, d). (bswap32 ip, d)) (parse_ipv4_addr lib a)"

definition parse_rt_tokens :: "inet \<Rightarrow> string list \<Rightarrow> rt_db \<Rightarrow> rt_db \<times> parse_error option" where
  "parse_rt_tokens lib toks db =
     (case toks of
        [] \<Rightarrow> (db, Some Fault)
      | fam # rest \<Rightarrow>
          (if fam = ''ipv4'' then
             (if nb_rt_ip4 db \<le> RT_MAX_RULES - 1 then
                (case rt_loop (rt_addr4 lib) rest (rt_ip4 db ! nb_rt_ip4 db) of
                   (r, e) \<Rightarrow>
                     (let db' = db\<lparr>rt_ip4 := (rt_ip4 db)[nb_rt_ip4 db := r]\<rparr> in
                      case e of None \<Rightarrow> (db'\<lparr>nb_rt_ip4 := nb_rt_ip4 db + 1\<rparr>, None) | Some e \<Rightarrow> (db', Some e)))
              else (db, Some Too_many_rules))
           else if fam = ''ipv6'' then
             (if nb_rt_ip6 db \<le> RT_MAX_RULES - 1 then
                (case rt_loop (parse_ipv6_addr lib) rest (rt_ip6 db ! nb_rt_ip6 db) of
                   (r, e) \<Rightarrow>
                     (let db' = db\<lparr>rt_ip6 := (rt_ip6 db)[nb_rt_ip6 db := r]\<rparr> in
                      case e of None \<Rightarrow> (db'\<lparr>nb_rt_ip6 := nb_rt_ip6 db + 1\<rparr>, None) | Some e \<Rightarrow> (db', Some e)))
              else (db, Some Too_many_rules))
           else (db, Some (Unrecognized fam))))"

text \<open>The routes that count.\<close>

definition routes4 :: "rt_db \<Rightarrow> u32 route list" where "routes4 db = take (nb_rt_ip4 db) (rt_ip4 db)"
definition routes6 :: "rt_db \<Rightarrow> u8 list route list" where "routes6 db = take (nb_rt_ip6 db) (rt_ip6 db)"

definition rt_ok :: "rt_db \<Rightarrow> bool" where
  "rt_ok db \<longleftrightarrow> length (rt_ip4 db) = RT_MAX_RULES \<and> nb_rt_ip4 db \<le> RT_MAX_RULES \<and>
     length (rt_ip6 db) = RT_MAX_RULES \<and> nb_rt_ip6 db \<le> RT_MAX_RULES"

section \<open>The tables\<close>

text \<open>
  A longest-prefix-match table: \<open>lpm_rules\<close> is its abstract content, a map from prefixes with their
  lengths to next hops; adding fails or updates one entry, looking up finds the longest match.
\<close>

record ('l, 'a) lpm_api =
  lpm_create :: "'l option"
  lpm_add :: "'l \<Rightarrow> 'a \<Rightarrow> nat \<Rightarrow> u8 \<Rightarrow> 'l option"
  lpm_lookup :: "'l \<Rightarrow> 'a \<Rightarrow> u8 option"
  lpm_rules :: "'l \<Rightarrow> 'a \<times> nat \<Rightarrow> u8 option"

fun longest :: "(nat \<Rightarrow> 'a \<Rightarrow> 'a) \<Rightarrow> ('a \<times> nat \<Rightarrow> u8 option) \<Rightarrow> 'a \<Rightarrow> nat \<Rightarrow> u8 option" where
  "longest pre rules ip 0 = None"
| "longest pre rules ip (Suc d) =
     (case rules (pre (Suc d) ip, Suc d) of Some h \<Rightarrow> Some h | None \<Rightarrow> longest pre rules ip d)"

definition lpm_ok :: "(nat \<Rightarrow> 'a \<Rightarrow> 'a) \<Rightarrow> nat \<Rightarrow> ('l, 'a) lpm_api \<Rightarrow> bool" where
  "lpm_ok pre w L \<longleftrightarrow>
     (\<forall>l. lpm_create L = Some l \<longrightarrow> (\<forall>k. lpm_rules L l k = None)) \<and>
     (\<forall>l ip d h l'. lpm_add L l ip d h = Some l' \<longrightarrow>
        1 \<le> d \<and> d \<le> w \<and> lpm_rules L l' = (lpm_rules L l)((pre d ip, d) := Some h)) \<and>
     (\<forall>l ip. lpm_lookup L l ip = longest pre (lpm_rules L l) ip w)"

fun lpm_fill :: "('l, 'a) lpm_api \<Rightarrow> 'a route list \<Rightarrow> 'l \<Rightarrow> 'l option" where
  "lpm_fill L [] l = Some l"
| "lpm_fill L (r # rs) l =
     (case lpm_add L l (rt_dst r) (unat (rt_depth r)) (rt_if_out r) of None \<Rightarrow> None | Some l' \<Rightarrow> lpm_fill L rs l')"

text \<open>\<open>None\<close> is \<open>rte_exit\<close>; the first two arguments after the database are the tables already there.\<close>

definition rt_init ::
  "('l, u32) lpm_api \<Rightarrow> ('m, u8 list) lpm_api \<Rightarrow> rt_db \<Rightarrow> 'l option \<Rightarrow> 'm option \<Rightarrow> ('l \<times> 'm) option" where
  "rt_init L4 L6 db old4 old6 =
     (if old4 \<noteq> None \<or> old6 \<noteq> None then None
      else case lpm_create L4 of
        None \<Rightarrow> None
      | Some l0 \<Rightarrow>
          (case lpm_fill L4 (routes4 db) l0 of
             None \<Rightarrow> None
           | Some l \<Rightarrow>
               (case lpm_create L6 of
                  None \<Rightarrow> None
                | Some m0 \<Rightarrow> map_option (Pair l) (lpm_fill L6 (routes6 db) m0))))"

section \<open>Prefixes\<close>

definition pre4 :: "nat \<Rightarrow> u32 \<Rightarrow> u32" where
  "pre4 d ip = ip AND push_bit (32 - d) 0xFFFFFFFF"

definition pre6 :: "nat \<Rightarrow> u8 list \<Rightarrow> u8 list" where
  "pre6 d ip = map (\<lambda>i. ip ! i AND push_bit (8 - min 8 (d - 8 * i)) 0xFF) [0..<length ip]"

text \<open>
  The reference: of the routes whose prefix contains the address, the one with the longest prefix;
  the later line wins among equals.
\<close>

definition route_matches :: "(nat \<Rightarrow> 'a \<Rightarrow> 'a) \<Rightarrow> 'a \<Rightarrow> 'a route \<Rightarrow> bool" where
  "route_matches pre ip r \<longleftrightarrow> pre (unat (rt_depth r)) (rt_dst r) = pre (unat (rt_depth r)) ip"

fun best_route :: "(nat \<Rightarrow> 'a \<Rightarrow> 'a) \<Rightarrow> 'a \<Rightarrow> 'a route list \<Rightarrow> 'a route option" where
  "best_route pre ip [] = None"
| "best_route pre ip (r # rs) =
     (case best_route pre ip rs of
        Some b \<Rightarrow> if route_matches pre ip r \<and> rt_depth b < rt_depth r then Some r else Some b
      | None \<Rightarrow> if route_matches pre ip r then Some r else None)"

lemma best_route_matches: "best_route pre ip rs = Some r \<Longrightarrow> r \<in> set rs \<and> route_matches pre ip r"
  by (induction rs) (auto split: option.splits if_splits)

lemma best_route_longest:
  "best_route pre ip rs = Some r \<Longrightarrow> r' \<in> set rs \<Longrightarrow> route_matches pre ip r' \<Longrightarrow> rt_depth r' \<le> rt_depth r"
proof (induction rs arbitrary: r)
  case (Cons a rs)
  show ?case
  proof (cases "best_route pre ip rs")
    case None
    then have "\<forall>x \<in> set rs. \<not> route_matches pre ip x" by (induction rs) (auto split: option.splits if_splits)
    then show ?thesis using Cons.prems None by (auto split: if_splits)
  next
    case (Some b)
    then show ?thesis using Cons.prems Cons.IH [OF Some] by (auto split: if_splits)
  qed
qed simp

section \<open>The table implements the reference\<close>

lemma lpm_okD:
  assumes "lpm_ok pre w L"
  shows "lpm_create L = Some l \<Longrightarrow> lpm_rules L l k = None"
    and "lpm_add L l ip d h = Some l' \<Longrightarrow> 1 \<le> d \<and> d \<le> w \<and> lpm_rules L l' = (lpm_rules L l)((pre d ip, d) := Some h)"
    and "lpm_lookup L l ip = longest pre (lpm_rules L l) ip w"
  using assms unfolding lpm_ok_def by blast+

text \<open>What the rules of a filled table are: the last route of each prefix.\<close>

fun rules_of :: "(nat \<Rightarrow> 'a \<Rightarrow> 'a) \<Rightarrow> 'a route list \<Rightarrow> ('a \<times> nat \<Rightarrow> u8 option) \<Rightarrow> 'a \<times> nat \<Rightarrow> u8 option" where
  "rules_of pre [] m = m"
| "rules_of pre (r # rs) m =
     rules_of pre rs (m((pre (unat (rt_depth r)) (rt_dst r), unat (rt_depth r)) := Some (rt_if_out r)))"

lemma lpm_fill_rules:
  assumes "lpm_ok pre w L"
  shows "lpm_fill L rs l = Some l' \<Longrightarrow>
    lpm_rules L l' = rules_of pre rs (lpm_rules L l) \<and> (\<forall>r \<in> set rs. 1 \<le> unat (rt_depth r) \<and> unat (rt_depth r) \<le> w)"
  by (induction rs arbitrary: l) (auto split: option.splits dest!: lpm_okD(2) [OF assms])

text \<open>The last route of length \<open>d\<close> that matches, by recursion from the front.\<close>

fun last_of :: "(nat \<Rightarrow> 'a \<Rightarrow> 'a) \<Rightarrow> 'a \<Rightarrow> nat \<Rightarrow> 'a route list \<Rightarrow> u8 option" where
  "last_of pre ip d [] = None"
| "last_of pre ip d (r # rs) =
     (case last_of pre ip d rs of
        Some h \<Rightarrow> Some h
      | None \<Rightarrow> if unat (rt_depth r) = d \<and> route_matches pre ip r then Some (rt_if_out r) else None)"

lemma rules_of_last:
  "rules_of pre rs m (pre d ip, d) = (case last_of pre ip d rs of Some h \<Rightarrow> Some h | None \<Rightarrow> m (pre d ip, d))"
  by (induction rs arbitrary: m) (auto simp: route_matches_def split: option.splits)

lemma last_of_best:
  fixes rs :: "'a route list"
  assumes "best_route pre ip rs = Some r"
  shows "unat (rt_depth r) < d \<Longrightarrow> last_of pre ip d rs = None" and "last_of pre ip (unat (rt_depth r)) rs = Some (rt_if_out r)"
proof -
  have above: "last_of pre ip d rs = None"
    if "\<And>r'. r' \<in> set rs \<Longrightarrow> route_matches pre ip r' \<Longrightarrow> unat (rt_depth r') < d" for d and rs :: "'a route list"
    using that by (induction rs) fastforce+
  show "unat (rt_depth r) < d \<Longrightarrow> last_of pre ip d rs = None"
    using best_route_longest [OF assms] by (intro above) (meson le_less_trans word_le_nat_alt)
  show "last_of pre ip (unat (rt_depth r)) rs = Some (rt_if_out r)"
    using assms
  proof (induction rs arbitrary: r)
    case (Cons a rs)
    show ?case
    proof (cases "best_route pre ip rs")
      case None
      then have "\<forall>x \<in> set rs. \<not> route_matches pre ip x" by (induction rs) (auto split: option.splits if_splits)
      then have "last_of pre ip d rs = None" for d by (induction rs) auto
      then show ?thesis using Cons.prems None by (auto split: if_splits)
    next
      case (Some b)
      have "last_of pre ip (unat (rt_depth a)) rs = None" if "rt_depth b < rt_depth a"
        using best_route_longest [OF Some] that
        by (intro above) (meson le_less_trans word_le_nat_alt word_less_nat_alt)
      then show ?thesis using Cons.prems Cons.IH [OF Some] Some by (auto split: if_splits)
    qed
  qed simp
qed

lemma longest_is_best:
  assumes "\<And>k. m k = None" and "\<forall>r \<in> set rs. 1 \<le> unat (rt_depth r)"
  shows "(\<forall>r. best_route pre ip rs = Some r \<longrightarrow> unat (rt_depth r) \<le> w) \<Longrightarrow>
    longest pre (rules_of pre rs m) ip w = map_option rt_if_out (best_route pre ip rs)"
proof (induction w)
  case 0
  show ?case
  proof (cases "best_route pre ip rs")
    case (Some r)
    then have "1 \<le> unat (rt_depth r)" using best_route_matches [OF Some] assms(2) by blast
    then show ?thesis using 0 Some by simp
  qed simp
next
  case (Suc w)
  show ?case
  proof (cases "best_route pre ip rs")
    case None
    then have "\<forall>x \<in> set rs. \<not> route_matches pre ip x" by (induction rs) (auto split: option.splits if_splits)
    then have "last_of pre ip d rs = None" for d by (induction rs) auto
    then show ?thesis using Suc.IH None by (simp add: rules_of_last assms(1))
  next
    case (Some r)
    note b = last_of_best [OF Some]
    show ?thesis
    proof (cases "unat (rt_depth r) = Suc w")
      case True
      then show ?thesis using b(2) Some by (simp add: rules_of_last assms(1))
    next
      case False
      then have "unat (rt_depth r) \<le> w" using Suc.prems Some by auto
      then show ?thesis using b(1) [of "Suc w"] Suc.IH Some
        by (simp add: rules_of_last assms(1))
    qed
  qed
qed

lemma lpm_fill_best:
  assumes "lpm_ok pre w L" and "lpm_create L = Some l0" and "lpm_fill L rs l0 = Some l"
  shows "lpm_lookup L l ip = map_option rt_if_out (best_route pre ip rs)"
    and "\<forall>r \<in> set rs. 1 \<le> unat (rt_depth r) \<and> unat (rt_depth r) \<le> w"
proof -
  note f = lpm_fill_rules [OF assms(1,3)]
  show "\<forall>r \<in> set rs. 1 \<le> unat (rt_depth r) \<and> unat (rt_depth r) \<le> w" using f by simp
  have n: "lpm_rules L l0 k = None" for k by (rule lpm_okD(1) [OF assms(1,2)])
  have "\<forall>r \<in> set rs. 1 \<le> unat (rt_depth r)" and "best_route pre ip rs = Some r \<Longrightarrow> unat (rt_depth r) \<le> w" for r
    using f best_route_matches [of pre ip rs r] by auto
  with longest_is_best [OF n this(1), of pre ip w] f lpm_okD(3) [OF assms(1), of l ip]
  show "lpm_lookup L l ip = map_option rt_if_out (best_route pre ip rs)" by simp
qed

text \<open>
  C16. The tables \<open>rt_init\<close> builds route as the configuration says: a lookup in the IPv4 table gives the port of
  the configured route with the longest prefix containing the address (the later line among equal
  prefixes), and nothing when no route contains it; the same for IPv6. When a route has a prefix
  length of zero or above the address width there is no table: the program stops.
\<close>

theorem rt_init_longest_prefix:
  assumes "lpm_ok pre4 32 L4" and "lpm_ok pre6 128 L6" and "rt_init L4 L6 db None None = Some (l, m)"
  shows "lpm_lookup L4 l ip = map_option rt_if_out (best_route pre4 ip (routes4 db)) \<and>
     lpm_lookup L6 m ip6 = map_option rt_if_out (best_route pre6 ip6 (routes6 db)) \<and>
     (\<forall>r \<in> set (routes4 db). 1 \<le> unat (rt_depth r) \<and> unat (rt_depth r) \<le> 32) \<and>
     (\<forall>r \<in> set (routes6 db). 1 \<le> unat (rt_depth r) \<and> unat (rt_depth r) \<le> 128)"
proof -
  obtain l0 m0 where "lpm_create L4 = Some l0" "lpm_fill L4 (routes4 db) l0 = Some l"
    "lpm_create L6 = Some m0" "lpm_fill L6 (routes6 db) m0 = Some m"
    using assms(3) by (auto simp: rt_init_def split: option.splits)
  then show ?thesis using lpm_fill_best [OF assms(1)] lpm_fill_best [OF assms(2)] by simp
qed

text \<open>A table for the example: the rules themselves.\<close>

definition map_lpm :: "(nat \<Rightarrow> 'a \<Rightarrow> 'a) \<Rightarrow> nat \<Rightarrow> ('a \<times> nat \<Rightarrow> u8 option, 'a) lpm_api" where
  "map_lpm pre w = \<lparr>lpm_create = Some (\<lambda>_. None),
     lpm_add = (\<lambda>l ip d h. if 1 \<le> d \<and> d \<le> w then Some (l((pre d ip, d) := Some h)) else None),
     lpm_lookup = (\<lambda>l ip. longest pre l ip w), lpm_rules = (\<lambda>l. l)\<rparr>"

lemma map_lpm_ok: "lpm_ok pre w (map_lpm pre w)"
  by (auto simp: lpm_ok_def map_lpm_def split: if_splits)

definition sample_rt :: rt_db where
  "sample_rt = empty_rt\<lparr>rt_ip4 := [\<lparr>rt_dst = 0x0A000000, rt_depth = 8, rt_if_out = 1\<rparr>, \<lparr>rt_dst = 0x0A010000, rt_depth = 16, rt_if_out = 2\<rparr>],
     nb_rt_ip4 := 2\<rparr>"

lemma rt_init_longest_prefix_witness:
  "\<exists>l m. rt_init (map_lpm pre4 32) (map_lpm pre6 128) sample_rt None None = Some (l, m) \<and>
     lpm_lookup (map_lpm pre4 32) l 0x0A010203 = Some 2 \<and> lpm_lookup (map_lpm pre4 32) l 0x0A020203 = Some 1 \<and>
     lpm_lookup (map_lpm pre4 32) l 0x0B000000 = None"
proof -
  obtain l m where r: "rt_init (map_lpm pre4 32) (map_lpm pre6 128) sample_rt None None = Some (l, m)"
    by (simp add: rt_init_def map_lpm_def sample_rt_def routes4_def routes6_def empty_rt_def)
  note x = rt_init_longest_prefix [OF map_lpm_ok map_lpm_ok r, THEN conjunct1]
  show ?thesis
    using r x [of "0x0A010203"] x [of "0x0A020203"] x [of "0x0B000000"]
    by (simp add: routes4_def sample_rt_def empty_rt_def route_matches_def pre4_def)
qed

section \<open>Reading a line\<close>

text \<open>A line is rejected or adds one route; the routes before it stay, whatever is in the free slots.\<close>

lemma parse_rt_tokens_ok:
  assumes "rt_ok db" and "parse_rt_tokens lib toks db = (db', e)"
  shows "rt_ok db' \<and>
    (case e of
       None \<Rightarrow> (\<exists>r. routes4 db' = routes4 db @ [r] \<and> routes6 db' = routes6 db) \<or>
               (\<exists>r. routes6 db' = routes6 db @ [r] \<and> routes4 db' = routes4 db)
     | Some _ \<Rightarrow> routes4 db' = routes4 db \<and> routes6 db' = routes6 db)"
  using assms
  by (auto simp: parse_rt_tokens_def rt_ok_def routes4_def routes6_def RT_MAX_RULES_def Let_def take_Suc_conv_app_nth
      split: list.splits if_splits prod.splits option.splits)

text \<open>
  A route line in the order of the user guide adds the route it describes. A prefix length or port
  above 255 is cut to its low 8 bits: \<open>10.0.0.0/264\<close> becomes \<open>10.0.0.0/8\<close>.
\<close>

lemma parse_rt_line:
  assumes "rt_ok db" and "nb_rt_ip4 db < RT_MAX_RULES"
    and "list_all (\<lambda>c. c \<noteq> CHR ''/'') a" and "length a \<le> 15" and "inet_pton4 lib a = Some ip"
    and "d < 2 ^ 32" and "port < 2 ^ 32"
  shows "\<exists>db'. parse_rt_tokens lib [''ipv4'', ''dst'', a @ CHR ''/'' # show_dec d, ''port'', show_dec port] db = (db', None) \<and>
     routes4 db' = routes4 db @ [\<lparr>rt_dst = bswap32 ip, rt_depth = of_nat d, rt_if_out = of_nat port\<rparr>]"
proof -
  have p: "parse_ipv4_addr lib (a @ CHR ''/'' # show_dec d) = Some (ip, of_nat d)"
    using assms by (simp add: parse_ipv4_addr_mask)
  have "CHR ''/'' \<in> set (a @ CHR ''/'' # show_dec d)" "CHR ''/'' \<notin> set ''port''" by simp_all
  then have k: "a @ CHR ''/'' # show_dec d \<noteq> ''port''" by metis
  have u: "(ucast (of_nat n :: u32) :: u8) = of_nat n" for n
    by (rule bit_word_eqI) (simp add: bit_simps)
  have t: "atoi (show_dec port) = of_nat port" using assms(7) by (simp add: atoi_show_dec)
  show ?thesis
    using assms(1,2) k t
    by (auto simp: parse_rt_tokens_def rt_step_def Let_def next_token_def app_check_def rt_addr4_def p u rt_ok_def
        routes4_def RT_MAX_RULES_def take_Suc_conv_app_nth)
qed

end
