(* ===== verification/Transmit.thy ===== *)
theory Transmit
  imports Traffic Route
begin

text \<open>
  Transmission in \<open>ipsec-secgw.c\<close>: the route of a packet, the buffer of each port, fragmentation and
  the Ethernet header. The NIC is a parameter (how many packets of a burst it takes may depend on
  all it was given before), as are the fragmentation library, the checksum function of DPDK and the
  longest-prefix-match tables. \<open>tx_freed\<close> collects freed packets and \<open>tx_frags\<close> the fragments made,
  so that what becomes of every packet can be stated.
\<close>

definition RTE_MAX_ETHPORTS :: nat where "RTE_MAX_ETHPORTS = 32"
definition RTE_LPM_LOOKUP_SUCCESS :: u32 where "RTE_LPM_LOOKUP_SUCCESS = 0x01000000"
definition RTE_MBUF_F_TX_IP_CKSUM :: u64 where "RTE_MBUF_F_TX_IP_CKSUM = push_bit 54 1"

section \<open>Ethernet addresses\<close>

text \<open>An address is kept as a 64-bit word whose bytes in memory, lowest first, are the address.\<close>

definition le_bytes6 :: "u64 \<Rightarrow> u8 list" where
  "le_bytes6 w = map (\<lambda>i. ucast (drop_bit (8 * i) w)) [0..<6]"

definition ethaddr_to_uint64 :: "u8 list \<Rightarrow> u64" where
  "ethaddr_to_uint64 a =
     push_bit 40 (ucast (a ! 5)) OR push_bit 32 (ucast (a ! 4)) OR push_bit 24 (ucast (a ! 3)) OR
     push_bit 16 (ucast (a ! 2)) OR push_bit 8 (ucast (a ! 1)) OR ucast (a ! 0)"

record ethaddr_info =
  eth_src :: u64
  eth_dst :: u64

definition add_dst_ethaddr :: "nat \<Rightarrow> u8 list \<Rightarrow> ethaddr_info list \<Rightarrow> errno + ethaddr_info list" where
  "add_dst_ethaddr port addr es =
     (if length es \<le> port then Inl EINVAL
      else Inr (es[port := (es ! port)\<lparr>eth_dst := ethaddr_to_uint64 addr\<rparr>]))"

section \<open>State and surroundings\<close>

record tx_env =
  te_api :: mbuf_api
  te_mtu :: nat
  te_frag_tbl_sz :: u32
  te_max_frag :: nat
  te_ip4_offloads :: u64
  te_ip6_offloads :: u64
  te_ethaddr :: "ethaddr_info list"
  te_cksum :: "u8 list \<Rightarrow> u16"
  te_frag :: "bool \<Rightarrow> pkt \<Rightarrow> nat \<Rightarrow> pkt list option"
  te_nic :: "(nat \<times> pkt) list \<Rightarrow> nat \<Rightarrow> pkt list \<Rightarrow> nat"
  te_lpm4 :: "u32 \<Rightarrow> u8 option"
  te_lpm6 :: "u8 list \<Rightarrow> u8 option"

record tx_state =
  tx_bufs :: "pkt list list"
  tx_sent :: "(nat \<times> pkt) list"
  tx_freed :: "pkt list"
  tx_frags :: "pkt list"
  lpm4_miss :: u64
  lpm6_miss :: u64

definition tx_free :: "pkt list \<Rightarrow> tx_state \<Rightarrow> tx_state" where
  "tx_free ps s = s\<lparr>tx_freed := tx_freed s @ ps\<rparr>"

section \<open>The frame of a packet\<close>

text \<open>
  \<open>prepare_tx_pkt\<close>: the version is read from the packet; 14 bytes of header come in front. For IPv4
  the checksum field is cleared and filled in unless the NIC does it.
\<close>

definition eth_header :: "ethaddr_info \<Rightarrow> u16 \<Rightarrow> u8 list" where
  "eth_header e ty = le_bytes6 (eth_dst e) @ le_bytes6 (eth_src e) @ bytes_of_u16 ty"

definition ip_cksum :: "(u8 list \<Rightarrow> u16) \<Rightarrow> bool \<Rightarrow> u8 list \<Rightarrow> u8 list" where
  "ip_cksum f hw b = (let b0 = put_le16 10 0 b in if hw then b0 else put_le16 10 (f b0) b0)"

definition prepare_tx_pkt :: "tx_env \<Rightarrow> nat \<Rightarrow> pkt \<Rightarrow> errno + pkt" where
  "prepare_tx_pkt env port p =
     (let b = m_bytes (pbuf p); v4 = (ip_v b = 4);
          ol = p_txol p OR (if v4 then te_ip4_offloads env else te_ip6_offloads env) in
      if b = [] \<or> (v4 \<and> length b < 20) \<or> length (te_ethaddr env) \<le> port then Inl UB
      else case pkt_prepend (te_api env) RTE_ETHER_HDR_LEN (pbuf p) of
        None \<Rightarrow> Inl UB
      | Some m \<Rightarrow>
          (let ip = (if v4 then ip_cksum (te_cksum env) (ol AND RTE_MBUF_F_TX_IP_CKSUM \<noteq> 0) b else b);
               h = eth_header (te_ethaddr env ! port) (if v4 then RTE_ETHER_TYPE_IPV4 else RTE_ETHER_TYPE_IPV6)
           in Inr (p\<lparr>pbuf := m\<lparr>m_bytes := h @ ip, l3_len := (if v4 then 20 else 40)\<rparr>, p_txol := ol, p_l2_len := 14\<rparr>)))"

fun prepare_tx_burst :: "tx_env \<Rightarrow> nat \<Rightarrow> pkt list \<Rightarrow> errno + pkt list" where
  "prepare_tx_burst env port [] = Inr []"
| "prepare_tx_burst env port (p # ps) =
     (case prepare_tx_pkt env port p of
        Inl e \<Rightarrow> Inl e
      | Inr p' \<Rightarrow> map_sum id ((#) p') (prepare_tx_burst env port ps))"

section \<open>Sending\<close>

text \<open>
  \<open>send_burst\<close> gives the packets of the port's buffer to the NIC and frees what it does not take; the
  callers then reset the length, which the model does here.
\<close>

definition send_burst :: "tx_env \<Rightarrow> nat \<Rightarrow> tx_state \<Rightarrow> errno + tx_state" where
  "send_burst env port s =
     (case prepare_tx_burst env port (tx_bufs s ! port) of
        Inl e \<Rightarrow> Inl e
      | Inr ps \<Rightarrow>
          (let n = te_nic env (tx_sent s) port ps in
           Inr (tx_free (drop n ps)
             (s\<lparr>tx_sent := tx_sent s @ map (Pair port) (take n ps), tx_bufs := (tx_bufs s)[port := []]\<rparr>))))"

text \<open>A buffer that has reached 32 packets is sent at once; \<open>ps\<close> are the packets put at its end.\<close>

definition tx_push :: "tx_env \<Rightarrow> nat \<Rightarrow> pkt list \<Rightarrow> tx_state \<Rightarrow> errno + tx_state" where
  "tx_push env port ps s =
     (let b = tx_bufs s ! port @ ps; s1 = s\<lparr>tx_bufs := (tx_bufs s)[port := b]\<rparr> in
      if MAX_PKT_BURST < length b then Inl UB
      else if length b = MAX_PKT_BURST then send_burst env port s1
      else Inr s1)"

definition make_room :: "tx_env \<Rightarrow> nat \<Rightarrow> tx_state \<Rightarrow> errno + tx_state" where
  "make_room env port s =
     (if MAX_PKT_BURST \<le> length (tx_bufs s ! port) + te_max_frag env then send_burst env port s else Inr s)"

definition send_fragment_packet :: "tx_env \<Rightarrow> bool \<Rightarrow> nat \<Rightarrow> pkt \<Rightarrow> tx_state \<Rightarrow> errno + tx_state" where
  "send_fragment_packet env v6 port p s =
     (case make_room env port s of
        Inl e \<Rightarrow> Inl e
      | Inr s1 \<Rightarrow>
          (case te_frag env v6 p (MAX_PKT_BURST - length (tx_bufs s1 ! port)) of
             None \<Rightarrow> tx_push env port [] (tx_free [p] s1)
           | Some fs \<Rightarrow> tx_push env port fs (tx_free [p] (s1\<lparr>tx_frags := tx_frags s1 @ fs\<rparr>))))"

definition send_single_packet :: "tx_env \<Rightarrow> bool \<Rightarrow> nat \<Rightarrow> pkt \<Rightarrow> tx_state \<Rightarrow> errno + tx_state" where
  "send_single_packet env v6 port p s =
     (if length (tx_bufs s) \<le> port then Inl UB
      else if pkt_len (pbuf p) \<le> te_mtu env then tx_push env port [p] s
      else if 0 < te_frag_tbl_sz env then send_fragment_packet env v6 port p s
      else tx_push env port [] (tx_free [p] s))"

text \<open>\<open>drain_tx_buffers\<close> over the ports.\<close>

definition drain_port :: "tx_env \<Rightarrow> nat \<Rightarrow> tx_state \<Rightarrow> errno + tx_state" where
  "drain_port env port s =
     (if length (tx_bufs s) \<le> port then Inl UB
      else if tx_bufs s ! port = [] then Inr s else send_burst env port s)"

definition drain_tx_buffers :: "tx_env \<Rightarrow> tx_state \<Rightarrow> errno + tx_state" where
  "drain_tx_buffers env s = run_all (drain_port env) [0..<length (tx_bufs s)] s"

section \<open>Routing\<close>

text \<open>A packet the NIC encrypts goes to the port of its SA, others where the table says.\<close>

definition get_hop_for_offload_pkt4 :: "ipsec_sa list \<Rightarrow> pkt \<Rightarrow> errno + u32" where
  "get_hop_for_offload_pkt4 sas p =
     (case p_sa p of
        None \<Rightarrow> Inr 0
      | Some i \<Rightarrow> if length sas \<le> i then Inl UB else Inr (ucast (portid (sas ! i)) OR RTE_LPM_LOOKUP_SUCCESS))"

definition hop4 :: "tx_env \<Rightarrow> ipsec_sa list \<Rightarrow> pkt \<Rightarrow> errno + u32" where
  "hop4 env sas p =
     (if tx_sec_offload (pbuf p) then get_hop_for_offload_pkt4 sas p
      else
        (let b = m_bytes (pbuf p) in
         if length b < 20 then Inl UB
         else Inr (case te_lpm4 env (u32_of_bytes (b ! 16) (b ! 17) (b ! 18) (b ! 19)) of
             None \<Rightarrow> 0
           | Some h \<Rightarrow> ucast h OR RTE_LPM_LOOKUP_SUCCESS)))"

text \<open>The hop of IPv6 is signed; \<open>None\<close> is \<open>-1\<close>.\<close>

definition get_hop_for_offload_pkt6 :: "ipsec_sa list \<Rightarrow> pkt \<Rightarrow> errno + u32 option" where
  "get_hop_for_offload_pkt6 sas p =
     (case p_sa p of
        None \<Rightarrow> Inr None
      | Some i \<Rightarrow> if length sas \<le> i then Inl UB else Inr (Some (ucast (portid (sas ! i)))))"

definition hop6 :: "tx_env \<Rightarrow> ipsec_sa list \<Rightarrow> pkt \<Rightarrow> errno + u32 option" where
  "hop6 env sas p =
     (if tx_sec_offload (pbuf p) then get_hop_for_offload_pkt6 sas p
      else
        (let b = m_bytes (pbuf p) in
         if length b < 40 then Inl UB
         else Inr (map_option ucast (te_lpm6 env (take 16 (drop 24 b))))))"

definition route4_pkt :: "tx_env \<Rightarrow> ipsec_sa list \<Rightarrow> pkt \<Rightarrow> tx_state \<Rightarrow> errno + tx_state" where
  "route4_pkt env sas p s =
     (case hop4 env sas p of
        Inl e \<Rightarrow> Inl e
      | Inr h \<Rightarrow>
          (if h AND RTE_LPM_LOOKUP_SUCCESS = 0 then Inr (tx_free [p] (s\<lparr>lpm4_miss := lpm4_miss s + 1\<rparr>))
           else send_single_packet env False (unat (h AND 0xFF)) p s))"

definition route6_pkt :: "tx_env \<Rightarrow> ipsec_sa list \<Rightarrow> pkt \<Rightarrow> tx_state \<Rightarrow> errno + tx_state" where
  "route6_pkt env sas p s =
     (case hop6 env sas p of
        Inl e \<Rightarrow> Inl e
      | Inr None \<Rightarrow> Inr (tx_free [p] (s\<lparr>lpm6_miss := lpm6_miss s + 1\<rparr>))
      | Inr (Some h) \<Rightarrow> send_single_packet env True (unat (h AND 0xFF)) p s)"

definition route4_pkts :: "tx_env \<Rightarrow> ipsec_sa list \<Rightarrow> pkt list \<Rightarrow> tx_state \<Rightarrow> errno + tx_state" where
  "route4_pkts env sas ps s = run_all (route4_pkt env sas) ps s"

definition route6_pkts :: "tx_env \<Rightarrow> ipsec_sa list \<Rightarrow> pkt list \<Rightarrow> tx_state \<Rightarrow> errno + tx_state" where
  "route6_pkts env sas ps s = run_all (route6_pkt env sas) ps s"

end
