(* ===== verification/Transmit_Props.thy ===== *)
theory Transmit_Props
  imports Transmit
begin

text \<open>
  What transmission promises: a buffer never overflows, every packet routed is buffered, handed to the
  NIC or freed exactly once (with the fragments made of it on the other side of the balance),
  draining empties all buffers, and frames carry the configured addresses.
\<close>

section \<open>Ethernet addresses\<close>

lemma bit_le_byte: "i < 6 \<Longrightarrow> n < 8 \<Longrightarrow> bit (le_bytes6 w ! i) n \<longleftrightarrow> bit w (8 * i + n)"
  by (simp add: le_bytes6_def bit_simps)

lemma bit_ethaddr:
  "n < 8 \<Longrightarrow> i < 6 \<Longrightarrow> bit (ethaddr_to_uint64 a) (8 * i + n) \<longleftrightarrow> bit (a ! i) n"
proof -
  assume n: "n < 8" and i: "i < 6"
  have out: "\<not> bit (w :: u8) k" if "8 \<le> k" for w k using that bit_imp_le_length [of w k] by auto
  consider "i = 0" | "i = 1" | "i = 2" | "i = 3" | "i = 4" | "i = 5" using i by linarith
  then show ?thesis
    by cases (use n in \<open>auto simp: ethaddr_to_uint64_def bit_simps out\<close>)
qed

lemma le_bytes6_ethaddr:
  assumes "length a = 6"
  shows "le_bytes6 (ethaddr_to_uint64 a) = a"
proof (rule nth_equalityI)
  show "length (le_bytes6 (ethaddr_to_uint64 a)) = length a" using assms by (simp add: le_bytes6_def)
next
  fix i assume "i < length (le_bytes6 (ethaddr_to_uint64 a))"
  then have i: "i < 6" by (simp add: le_bytes6_def)
  show "le_bytes6 (ethaddr_to_uint64 a) ! i = a ! i"
    by (rule bit_word_eqI) (simp add: bit_le_byte [OF i] bit_ethaddr [OF _ i])
qed

lemma prepare_tx_pkt_pid: "prepare_tx_pkt env port p = Inr p' \<Longrightarrow> pid p' = pid p"
  by (auto simp: prepare_tx_pkt_def Let_def split: if_splits option.splits)

text \<open>
  A frame leaves with the addresses of its port: after \<open>add_dst_ethaddr\<close> has set the neighbour of a port, every
  packet prepared for that port starts with the neighbour's six bytes, the port's own address and
  the Ethernet type of its IP version, followed by the packet, of which only the IPv4 checksum field
  may differ.
\<close>

theorem prepare_tx_pkt_frame:
  assumes "add_dst_ethaddr port addr es = Inr (te_ethaddr env)" and "length addr = 6"
    and "prepare_tx_pkt env port p = Inr p'"
  shows "\<exists>ip. m_bytes (pbuf p') = addr @ le_bytes6 (eth_src (es ! port)) @
       bytes_of_u16 (if ip_v (m_bytes (pbuf p)) = 4 then RTE_ETHER_TYPE_IPV4 else RTE_ETHER_TYPE_IPV6) @ ip \<and>
     length ip = pkt_len (pbuf p) \<and> (\<forall>i < length ip. i \<noteq> 10 \<and> i \<noteq> 11 \<longrightarrow> ip ! i = m_bytes (pbuf p) ! i)"
proof -
  let ?b = "m_bytes (pbuf p)"
  have e: "eth_dst (te_ethaddr env ! port) = ethaddr_to_uint64 addr" "eth_src (te_ethaddr env ! port) = eth_src (es ! port)"
  proof -
    have "port < length es" "te_ethaddr env = es[port := (es ! port)\<lparr>eth_dst := ethaddr_to_uint64 addr\<rparr>]"
      using assms(1) by (auto simp: add_dst_ethaddr_def split: if_splits)
    then show "eth_dst (te_ethaddr env ! port) = ethaddr_to_uint64 addr" "eth_src (te_ethaddr env ! port) = eth_src (es ! port)"
      by simp_all
  qed
  define ip where "ip = (if ip_v ?b = 4 then ip_cksum (te_cksum env)
      ((p_txol p OR te_ip4_offloads env) AND RTE_MBUF_F_TX_IP_CKSUM \<noteq> 0) ?b else ?b)"
  have l: "ip_v ?b = 4 \<longrightarrow> 20 \<le> length ?b"
    using assms(3) by (auto simp: prepare_tx_pkt_def Let_def split: if_splits)
  have put: "length (put_le16 10 w xs) = length xs" "i < length xs \<Longrightarrow> i \<noteq> 10 \<Longrightarrow> i \<noteq> 11 \<Longrightarrow> put_le16 10 w xs ! i = xs ! i"
    if "20 \<le> length xs" for w xs i
    using that by (auto simp: put_le16_def nth_put_bytes)
  have "length ip = length ?b \<and> (\<forall>i < length ip. i \<noteq> 10 \<and> i \<noteq> 11 \<longrightarrow> ip ! i = ?b ! i)"
    using l by (auto simp: ip_def ip_cksum_def Let_def put)
  moreover have "m_bytes (pbuf p') = addr @ le_bytes6 (eth_src (es ! port)) @
      bytes_of_u16 (if ip_v ?b = 4 then RTE_ETHER_TYPE_IPV4 else RTE_ETHER_TYPE_IPV6) @ ip"
    using assms(3) l by (auto simp: prepare_tx_pkt_def Let_def eth_header_def e le_bytes6_ethaddr [OF assms(2)] ip_def
        split: if_splits option.splits)
  ultimately show ?thesis by (auto simp: pkt_len_def)
qed

section \<open>Every packet is accounted for\<close>

definition tx_all :: "tx_state \<Rightarrow> nat multiset" where
  "tx_all s = (\<Sum>b\<leftarrow>tx_bufs s. pids b) + pids (map snd (tx_sent s)) + pids (tx_freed s)"

text \<open>The net count of a packet: fragments made during transmission do not count.\<close>

definition tx_net :: "nat \<Rightarrow> tx_state \<Rightarrow> int" where
  "tx_net x s = int (count (tx_all s) x) - int (count (pids (tx_frags s)) x)"

definition tx_inv :: "tx_state \<Rightarrow> bool" where
  "tx_inv s \<longleftrightarrow> length (tx_bufs s) = RTE_MAX_ETHPORTS \<and> (\<forall>b \<in> set (tx_bufs s). length b < MAX_PKT_BURST)"

definition frag_ok :: "tx_env \<Rightarrow> bool" where
  "frag_ok env \<longleftrightarrow> (\<forall>v6 p n fs. te_frag env v6 p n = Some fs \<longrightarrow> length fs \<le> n)"

lemma pids_tx_free [simp]: "tx_net x (tx_free ps s) = tx_net x s + int (count (pids ps) x)"
  by (simp add: tx_net_def tx_all_def tx_free_def)

lemma tx_free_simps [simp]:
  "tx_bufs (tx_free ps s) = tx_bufs s" "tx_frags (tx_free ps s) = tx_frags s" "tx_inv (tx_free ps s) = tx_inv s"
  by (simp_all add: tx_free_def tx_inv_def)

lemma prepare_tx_burst_pids: "prepare_tx_burst env port ps = Inr qs \<Longrightarrow> pids qs = pids ps"
proof (induction ps arbitrary: qs)
  case (Cons p ps)
  then obtain p' qs' where "prepare_tx_pkt env port p = Inr p'" "prepare_tx_burst env port ps = Inr qs'" "qs = p' # qs'"
    by (cases "prepare_tx_burst env port ps") (auto split: sum.splits)
  then show ?case using Cons.IH prepare_tx_pkt_pid by simp
qed simp

text \<open>A port's buffer is replaced: what the other buffers hold stays.\<close>

lemma count_bufs:
  assumes "port < length bs"
  shows "int (count (\<Sum>b\<leftarrow>bs[port := b']. pids b) x) =
    int (count (\<Sum>b\<leftarrow>bs. pids b) x) - int (count (pids (bs ! port)) x) + int (count (pids b') x)"
proof -
  have "(\<Sum>b\<leftarrow>bs[port := b']. pids b) + pids (bs ! port) = (\<Sum>b\<leftarrow>bs. pids b) + pids b'"
    by (rule sum_list_update_entry [OF assms]) simp
  from arg_cong [OF this, of "\<lambda>M. count M x"] show ?thesis by simp
qed

lemma send_burst_ok:
  assumes "port < length (tx_bufs s)" and "send_burst env port s = Inr s'"
  shows "tx_net x s' = tx_net x s \<and> tx_bufs s' = (tx_bufs s)[port := []] \<and> tx_frags s' = tx_frags s"
proof -
  obtain ps where ps: "prepare_tx_burst env port (tx_bufs s ! port) = Inr ps"
    and s': "s' = (let n = te_nic env (tx_sent s) port ps in tx_free (drop n ps)
        (s\<lparr>tx_sent := tx_sent s @ map (Pair port) (take n ps), tx_bufs := (tx_bufs s)[port := []]\<rparr>))"
    using assms(2) by (auto simp: send_burst_def Let_def split: sum.splits)
  define n where "n = te_nic env (tx_sent s) port ps"
  have "pids (take n ps) + pids (drop n ps) = pids (tx_bufs s ! port)"
    using prepare_tx_burst_pids [OF ps] by (simp add: pids_take_drop)
  then have "int (count (pids (take n ps)) x) + int (count (pids (drop n ps)) x) = int (count (pids (tx_bufs s ! port)) x)"
    by (metis count_union of_nat_add)
  then show ?thesis
    by (simp add: s' flip: n_def) (simp add: tx_net_def tx_all_def count_bufs [OF assms(1)] comp_def)
qed

lemma tx_inv_update: "tx_inv s \<Longrightarrow> length b < MAX_PKT_BURST \<Longrightarrow> tx_inv (s\<lparr>tx_bufs := (tx_bufs s)[port := b]\<rparr>)"
  by (auto simp: tx_inv_def dest!: set_update_subset_insert [THEN subsetD])

lemma tx_push_ok:
  assumes "tx_inv s" and "port < length (tx_bufs s)" and "tx_push env port ps s = Inr s'"
  shows "tx_inv s' \<and> tx_net x s' = tx_net x s + int (count (pids ps) x) \<and> tx_frags s' = tx_frags s"
proof -
  define s1 where "s1 = s\<lparr>tx_bufs := (tx_bufs s)[port := tx_bufs s ! port @ ps]\<rparr>"
  have n1: "tx_net x s1 = tx_net x s + int (count (pids ps) x)"
    by (simp add: s1_def tx_net_def tx_all_def count_bufs [OF assms(2)])
  have r: "(if length (tx_bufs s ! port @ ps) = MAX_PKT_BURST then send_burst env port s1 else Inr s1) = Inr s'"
    and le: "length (tx_bufs s ! port @ ps) \<le> MAX_PKT_BURST"
    using assms(3) by (auto simp: tx_push_def Let_def s1_def split: if_splits)
  show ?thesis
  proof (cases "length (tx_bufs s ! port @ ps) = MAX_PKT_BURST")
    case True
    have p1: "port < length (tx_bufs s1)" using assms(2) by (simp add: s1_def)
    note sb = send_burst_ok [OF p1, of env s' x]
    have "tx_bufs s' = (tx_bufs s)[port := []]" using sb r True by (simp add: s1_def)
    then have "tx_inv s'" using tx_inv_update [OF assms(1), of "[]" port] by (simp add: tx_inv_def MAX_PKT_BURST_def)
    then show ?thesis using sb r True n1 by (simp add: s1_def)
  next
    case False
    have "tx_inv s1" unfolding s1_def by (rule tx_inv_update [OF assms(1)]) (use False le in linarith)
    then show ?thesis using r False n1 by (auto simp: s1_def)
  qed
qed

lemma make_room_ok:
  assumes "tx_inv s" and "port < length (tx_bufs s)" and "make_room env port s = Inr s'"
  shows "tx_inv s' \<and> tx_net x s' = tx_net x s \<and> tx_frags s' = tx_frags s \<and> length (tx_bufs s') = length (tx_bufs s)"
proof (cases "MAX_PKT_BURST \<le> length (tx_bufs s ! port) + te_max_frag env")
  case True
  then have "send_burst env port s = Inr s'" using assms(3) by (simp add: make_room_def)
  from send_burst_ok [OF assms(2) this, of x] show ?thesis
    using tx_inv_update [OF assms(1), of "[]" port] by (simp add: tx_inv_def MAX_PKT_BURST_def)
qed (use assms in \<open>simp add: make_room_def\<close>)

lemma send_single_packet_ok:
  assumes "tx_inv s" and "send_single_packet env v6 port p s = Inr s'"
  shows "tx_inv s' \<and> tx_net x s' = tx_net x s + int (count {#pid p#} x)"
proof -
  have port: "port < length (tx_bufs s)" using assms(2) by (auto simp: send_single_packet_def split: if_splits)
  consider "pkt_len (pbuf p) \<le> te_mtu env" | "te_mtu env < pkt_len (pbuf p)" "0 < te_frag_tbl_sz env"
    | "te_mtu env < pkt_len (pbuf p)" "te_frag_tbl_sz env = 0" by (metis leI word_gt_0)
  then show ?thesis
  proof cases
    case 1
    then show ?thesis using assms(2) port tx_push_ok [OF assms(1) port, of env "[p]" s' x] by (simp add: send_single_packet_def)
  next
    case 2
    then have "send_fragment_packet env v6 port p s = Inr s'" using assms(2) port by (simp add: send_single_packet_def)
    then obtain s1 where m: "make_room env port s = Inr s1"
      and r: "(case te_frag env v6 p (MAX_PKT_BURST - length (tx_bufs s1 ! port)) of
             None \<Rightarrow> tx_push env port [] (tx_free [p] s1)
           | Some fs \<Rightarrow> tx_push env port fs (tx_free [p] (s1\<lparr>tx_frags := tx_frags s1 @ fs\<rparr>))) = Inr s'"
      by (auto simp: send_fragment_packet_def split: sum.splits)
    note mk = make_room_ok [OF assms(1) port m, of x]
    show ?thesis
    proof (cases "te_frag env v6 p (MAX_PKT_BURST - length (tx_bufs s1 ! port))")
      case None
      then show ?thesis using r mk port tx_push_ok [of "tx_free [p] s1" port env "[]" s' x] by simp
    next
      case (Some fs)
      let ?s = "tx_free [p] (s1\<lparr>tx_frags := tx_frags s1 @ fs\<rparr>)"
      have "tx_inv ?s" using mk by (simp add: tx_inv_def)
      moreover have "tx_net x ?s = tx_net x s1 + int (count {#pid p#} x) - int (count (pids fs) x)"
        by simp (simp add: tx_net_def tx_all_def)
      ultimately show ?thesis using r Some mk port tx_push_ok [of ?s port env fs s' x] by simp
    qed
  next
    case 3
    then show ?thesis using assms port tx_push_ok [of "tx_free [p] s" port env "[]" s' x] by (simp add: send_single_packet_def)
  qed
qed

section \<open>Bursts\<close>

lemma miss_simps [simp]:
  "tx_inv (s\<lparr>lpm4_miss := n\<rparr>) = tx_inv s" "tx_inv (s\<lparr>lpm6_miss := n\<rparr>) = tx_inv s"
  "tx_net x (s\<lparr>lpm4_miss := n\<rparr>) = tx_net x s" "tx_net x (s\<lparr>lpm6_miss := n\<rparr>) = tx_net x s"
  by (simp_all add: tx_inv_def tx_net_def tx_all_def)

lemma route4_pkt_ok:
  assumes "tx_inv s" and "route4_pkt env sas p s = Inr s'"
  shows "tx_inv s' \<and> tx_net x s' = tx_net x s + int (count {#pid p#} x)"
  using assms send_single_packet_ok [OF assms(1), of env False _ p s' x]
  by (auto simp: route4_pkt_def split: sum.splits if_splits)

lemma route6_pkt_ok:
  assumes "tx_inv s" and "route6_pkt env sas p s = Inr s'"
  shows "tx_inv s' \<and> tx_net x s' = tx_net x s + int (count {#pid p#} x)"
  using assms send_single_packet_ok [OF assms(1), of env True _ p s' x]
  by (auto simp: route6_pkt_def split: sum.splits option.splits)

interpretation route4: packet_step tx_inv "tx_net x" "\<lambda>p. int (count {#pid p#} x)" "route4_pkt env sas" for x env sas
  by unfold_locales (rule route4_pkt_ok)

interpretation route6: packet_step tx_inv "tx_net x" "\<lambda>p. int (count {#pid p#} x)" "route6_pkt env sas" for x env sas
  by unfold_locales (rule route6_pkt_ok)

interpretation drain: packet_step tx_inv "tx_net x" "\<lambda>_. 0" "drain_port env" for x env
proof
  fix s port s'
  assume "tx_inv s" and "drain_port env port s = Inr s'"
  then show "tx_inv s' \<and> tx_net x s' = tx_net x s + 0"
    using send_burst_ok [of port s env s' x] tx_inv_update [of s "[]" port]
    by (auto simp: drain_port_def tx_inv_def MAX_PKT_BURST_def split: if_splits)
qed

lemma sum_count_pids: "(\<Sum>p\<leftarrow>ps. int (count {#pid p#} x)) = int (count (pids ps) x)"
  by (induction ps) simp_all

lemma route4_pkts_ok:
  "tx_inv s \<Longrightarrow> route4_pkts env sas ps s = Inr s' \<Longrightarrow> tx_inv s' \<and> tx_net x s' = tx_net x s + int (count (pids ps) x)"
  using route4.run_all_ok [of s env sas ps s' x] by (simp only: route4_pkts_def sum_count_pids)

lemma route6_pkts_ok:
  "tx_inv s \<Longrightarrow> route6_pkts env sas ps s = Inr s' \<Longrightarrow> tx_inv s' \<and> tx_net x s' = tx_net x s + int (count (pids ps) x)"
  using route6.run_all_ok [of s env sas ps s' x] by (simp only: route6_pkts_def sum_count_pids)

section \<open>Draining\<close>

lemma drain_port_bufs:
  assumes "drain_port env port s = Inr s'" and "port < length (tx_bufs s)"
  shows "tx_bufs s' = (tx_bufs s)[port := []]"
proof (cases "tx_bufs s ! port = []")
  case True
  then have "(tx_bufs s)[port := []] = tx_bufs s" by (metis list_update_id)
  then show ?thesis using assms True by (simp add: drain_port_def)
qed (use assms send_burst_ok [of port s env s'] in \<open>simp add: drain_port_def\<close>)

lemma drain_bufs:
  "run_all (drain_port env) ports s = Inr s' \<Longrightarrow> \<forall>port \<in> set ports. port < length (tx_bufs s) \<Longrightarrow>
     length (tx_bufs s') = length (tx_bufs s) \<and>
     (\<forall>i < length (tx_bufs s). tx_bufs s' ! i = (if i \<in> set ports then [] else tx_bufs s ! i))"
proof (induction ports arbitrary: s)
  case (Cons port ports)
  then obtain s1 where d: "drain_port env port s = Inr s1" and r: "run_all (drain_port env) ports s1 = Inr s'"
    by (auto split: sum.splits)
  have b: "tx_bufs s1 = (tx_bufs s)[port := []]" using drain_port_bufs [OF d] Cons.prems(2) by simp
  from Cons.IH [OF r] Cons.prems(2) show ?case by (auto simp: b nth_list_update)
qed simp

text \<open>
  No packet waits for ever in a transmit buffer: when \<open>drain_tx_buffers\<close> returns, which the poll loop calls every
  100 microseconds, all buffers are empty and every packet that was in one has been given to the NIC
  or freed; nothing is lost, duplicated or invented.
\<close>

theorem drain_tx_buffers_empties:
  assumes "tx_inv s" and "drain_tx_buffers env s = Inr s'"
  shows "(\<forall>b \<in> set (tx_bufs s'). b = []) \<and> tx_inv s' \<and>
     pids (map snd (tx_sent s')) + pids (tx_freed s') + pids (tx_frags s) = tx_all s + pids (tx_frags s')"
proof -
  have r: "run_all (drain_port env) [0..<length (tx_bufs s)] s = Inr s'"
    using assms(2) by (simp add: drain_tx_buffers_def)
  have e: "\<forall>b \<in> set (tx_bufs s'). b = []"
    using drain_bufs [OF r] by (auto simp: in_set_conv_nth)
  then have "map pids (tx_bufs s') = map (\<lambda>_. {#}) (tx_bufs s')" by (auto intro: map_cong)
  then have "(\<Sum>b\<leftarrow>tx_bufs s'. pids b) = {#}" by (simp only:) simp
  then have all: "tx_all s' = pids (map snd (tx_sent s')) + pids (tx_freed s')" by (simp add: tx_all_def)
  have "int (count (tx_all s') x) - int (count (pids (tx_frags s')) x) = int (count (tx_all s) x) - int (count (pids (tx_frags s)) x)" for x
    using drain.run_all_ok [OF assms(1) r, of x] by (simp add: tx_net_def)
  then have "tx_all s' + pids (tx_frags s) = tx_all s + pids (tx_frags s')" by (rule net_counts)
  then show ?thesis using e drain.run_all_ok [OF assms(1) r] by (simp add: all)
qed

section \<open>Examples\<close>

definition sample_txenv :: tx_env where
  "sample_txenv = \<lparr>te_api = sample_api, te_mtu = 1500, te_frag_tbl_sz = 0, te_max_frag = 8,
     te_ip4_offloads = 0, te_ip6_offloads = 0, te_ethaddr = replicate 32 \<lparr>eth_src = 0, eth_dst = 0\<rparr>,
     te_cksum = (\<lambda>_. 0xBEEF), te_frag = (\<lambda>_ _ _. None), te_nic = (\<lambda>_ _ ps. length ps),
     te_lpm4 = (\<lambda>_. Some 1), te_lpm6 = (\<lambda>_. None)\<rparr>"

definition idle_tx :: tx_state where
  "idle_tx = \<lparr>tx_bufs = replicate 32 [], tx_sent = [], tx_freed = [], tx_frags = [], lpm4_miss = 0, lpm6_miss = 0\<rparr>"

definition busy_tx :: tx_state where
  "busy_tx = idle_tx\<lparr>tx_bufs := (tx_bufs idle_tx)[1 := [sample_pkt 4, sample_pkt 5]]\<rparr>"

lemma drain_tx_buffers_empties_witness:
  "\<exists>s'. drain_tx_buffers sample_txenv busy_tx = Inr s' \<and>
     pids (map snd (tx_sent s')) + pids (tx_freed s') = {#4, 5#} + pids (tx_frags s')"
proof -
  let ?r = "drain_tx_buffers sample_txenv busy_tx"
  have "case ?r of Inl e \<Rightarrow> False | Inr x \<Rightarrow> True" by code_simp
  then obtain s' where r: "?r = Inr s'" by (auto split: sum.splits)
  have "tx_inv busy_tx"
    by (simp add: tx_inv_def busy_tx_def idle_tx_def RTE_MAX_ETHPORTS_def MAX_PKT_BURST_def numeral_eq_Suc)
  moreover have "tx_all busy_tx = {#4, 5#}" "pids (tx_frags busy_tx) = {#}"
    by (simp_all add: tx_all_def busy_tx_def idle_tx_def sample_pkt_def numeral_eq_Suc)
  ultimately show ?thesis using drain_tx_buffers_empties [OF _ r] r by simp
qed

lemma prepare_tx_pkt_frame_witness:
  "\<exists>p'. prepare_tx_pkt (sample_txenv\<lparr>te_ethaddr := (te_ethaddr sample_txenv)[1 := \<lparr>eth_src = 0, eth_dst = ethaddr_to_uint64 [2, 0, 0, 0, 0, 9]\<rparr>]\<rparr>)
       1 (sample_pkt 4) = Inr p' \<and> take 6 (m_bytes (pbuf p')) = [2, 0, 0, 0, 0, 9]"
proof -
  let ?env = "sample_txenv\<lparr>te_ethaddr := (te_ethaddr sample_txenv)[1 := \<lparr>eth_src = 0, eth_dst = ethaddr_to_uint64 [2, 0, 0, 0, 0, 9]\<rparr>]\<rparr>"
  let ?r = "prepare_tx_pkt ?env 1 (sample_pkt 4)"
  have "case ?r of Inl e \<Rightarrow> False | Inr x \<Rightarrow> True" by code_simp
  then obtain p' where r: "?r = Inr p'" by (auto split: sum.splits)
  have "add_dst_ethaddr 1 [2, 0, 0, 0, 0, 9] (te_ethaddr sample_txenv) = Inr (te_ethaddr ?env)"
    by (simp add: add_dst_ethaddr_def sample_txenv_def)
  from prepare_tx_pkt_frame [OF this _ r] r show ?thesis by auto
qed

end
