(* ===== verification/Traffic_Props.thy ===== *)
theory Traffic_Props
  imports Traffic
begin

text \<open>
  What the classification and the policy checks of \<open>ipsec-secgw.c\<close> promise: every frame ends in
  exactly one list, the walk over IPv6 extension headers ends, the policy loops implement a policy
  given as a function from packets to actions, and no packet passes a rule it does not match.
\<close>

section \<open>Extension headers\<close>

text \<open>What the walk relies on: an extension header is not empty.\<close>

definition next_ext_ok :: "(u8 list \<Rightarrow> nat \<Rightarrow> (nat \<times> nat) option) \<Rightarrow> bool" where
  "next_ext_ok nx \<longleftrightarrow> (\<forall>b proto proto' e. nx b proto = Some (proto', e) \<longrightarrow> 0 < e)"

lemma ext_loop_ends:
  assumes "next_ext_ok nx"
  shows "n - l3 < f \<Longrightarrow> \<exists>r l3'. ext_loop nx f b n proto l3 = Inr (r, l3') \<and> l3 \<le> l3' \<and>
    (r = Some (unat IPPROTO_ESP) \<or> r = None \<or> n \<le> l3' )"
proof (induction f arbitrary: proto l3)
  case (Suc f)
  show ?case
  proof (cases "proto \<noteq> unat IPPROTO_ESP \<and> l3 < n")
    case False
    then show ?thesis by auto
  next
    case True
    show ?thesis
    proof (cases "nx (drop l3 b) proto")
      case None
      then show ?thesis using True by auto
    next
      case (Some a)
      obtain proto' e where a: "a = (proto', e)" by (cases a)
      have "0 < e" using assms Some a by (auto simp: next_ext_ok_def)
      then have "n - (l3 + e) < f" using Suc.prems True by linarith
      from Suc.IH [OF this, of proto'] True Some a show ?thesis by auto
    qed
  qed
qed simp

text \<open>
  C25. The walk over the extension headers of an IPv6 packet ends: with the non-empty extension headers that
  \<open>rte_ipv6_get_next_ext\<close> reports, the fuel of one step per byte of the packet is never used up, so
  no packet can hold the loop, and it stops at ESP, at a header that is no extension, or at the
  end of the data.
\<close>

theorem ext_walk_ends:
  assumes "next_ext_ok nx"
  shows "\<exists>r l3. ext_loop nx (Suc n) b n proto 40 = Inr (r, l3) \<and> 40 \<le> l3 \<and>
    (r = Some (unat IPPROTO_ESP) \<or> r = None \<or> n \<le> l3)"
  by (rule ext_loop_ends [OF assms]) simp

text \<open>Destination options (60), hop-by-hop options (0) and routing headers (43) of RFC 8200.\<close>

definition sample_next_ext :: "u8 list \<Rightarrow> nat \<Rightarrow> (nat \<times> nat) option" where
  "sample_next_ext b proto =
     (if proto \<in> {0, 43, 60} \<and> 2 \<le> length b then Some (unat (b ! 0), (1 + unat (b ! 1)) * 8) else None)"

lemma sample_next_ext_ok: "next_ext_ok sample_next_ext"
  by (auto simp: next_ext_ok_def sample_next_ext_def split: if_splits)

lemma ext_walk_ends_witness:
  "\<exists>r l3. ext_loop sample_next_ext (Suc 64) (replicate 40 0 @ [60, 0] @ replicate 6 0 @ [50, 1] @ replicate 14 0) 64 0 40 = Inr (r, l3) \<and> 40 \<le> l3"
  using ext_walk_ends [OF sample_next_ext_ok, of 64 "replicate 40 0 @ [60, 0] @ replicate 6 0 @ [50, 1] @ replicate 14 0" 0] by blast

section \<open>Every frame ends in one list\<close>

definition burst_pids :: "burst \<Rightarrow> nat multiset" where
  "burst_pids bu = pids (bu_ipsec bu) + pids (bu_ip4 bu) + pids (bu_ip6 bu) + pids (bu_drop bu)"

lemma rx_done_pid [simp]: "pid (rx_done t l3 l4 m p) = pid p"
  by (simp add: rx_done_def)

lemma inline_sa_pid [simp]: "pid (inline_sa env p) = pid p"
  by (simp add: inline_sa_def split: option.splits)

lemma prepare_ip4_pid: "prepare_ip4 env t m p = Inr (v, p') \<Longrightarrow> pid p' = pid p \<and> v \<noteq> To_Drop"
  by (auto simp: prepare_ip4_def Let_def split: if_splits sum.splits bool.splits)

lemma prepare_ip6_pid: "prepare_ip6 env t m p = Inr (v, p') \<Longrightarrow> pid p' = pid p"
  by (auto simp: prepare_ip6_def Let_def split: if_splits sum.splits bool.splits prod.splits)

lemma prepare_one_packet_pid: "prepare_one_packet env (t, p) = Inr (v, p') \<Longrightarrow> pid p' = pid p"
  by (auto simp: prepare_one_packet_def Let_def split: if_splits sum.splits option.splits prod.splits
      dest: prepare_ip4_pid prepare_ip6_pid)

lemma put_pkt_pids: "burst_pids (put_pkt v p bu) = burst_pids bu + {#pid p#}"
  by (cases v) (simp_all add: put_pkt_def burst_pids_def)

interpretation prepare: packet_step "\<lambda>_. True" burst_pids "\<lambda>r. {#pid (snd r)#}" "prepare_step env" for env
  by unfold_locales (auto simp: prepare_step_def put_pkt_pids split: sum.splits dest: prepare_one_packet_pid)

lemma prepare_traffic_pids:
  assumes "prepare_traffic env rs = Inr bu"
  shows "burst_pids bu = pids (map snd rs)"
proof -
  have "burst_pids no_burst = {#}" by (simp add: burst_pids_def no_burst_def)
  then show ?thesis using prepare.run_all_ok [OF TrueI, of env rs no_burst bu] assms
    by (simp add: prepare_traffic_def pids_def multiset.map_comp comp_def)
qed

lemma prepare_traffic_bound:
  assumes "prepare_traffic env rs = Inr bu"
  shows "length (bu_ipsec bu) + length (bu_ip4 bu) + length (bu_ip6 bu) + length (bu_drop bu) = length rs"
  using arg_cong [OF prepare_traffic_pids [OF assms], of size] by (simp add: burst_pids_def pids_def)

section \<open>Policies as functions\<close>

text \<open>
  The abstract policy: what the result of the classifier means. A rule's user data is the action or
  one more than the index of the SA.
\<close>

definition res_action :: "u32 \<Rightarrow> sp_action" where
  "res_action w = (if w = DISCARD then Discard else if w = BYPASS then Bypass else Protect (w - 1))"

definition is_protect :: "sp_action \<Rightarrow> bool" where
  "is_protect a = (case a of Protect _ \<Rightarrow> True | _ \<Rightarrow> False)"

definition sa_of_action :: "sp_action \<Rightarrow> u32" where
  "sa_of_action a = (case a of Protect i \<Rightarrow> i | _ \<Rightarrow> 0)"

text \<open>The counters after the actions \<open>as\<close> have been taken.\<close>

definition tally :: "spd_stats \<Rightarrow> sp_action list \<Rightarrow> spd_stats" where
  "tally st as =
     st\<lparr>n_protect := n_protect st + of_nat (length (filter is_protect as)),
        n_bypass := n_bypass st + of_nat (length (filter (\<lambda>a. a = Bypass) as)),
        n_discard := n_discard st + of_nat (length (filter (\<lambda>a. a = Discard) as))\<rparr>"

lemma tally_Nil [simp]: "tally st [] = st"
  by (simp add: tally_def)

lemma tally_Cons [simp]:
  "tally st (Protect i # as) = tally (count_protect st) as"
  "tally st (Bypass # as) = tally (count_bypass st) as"
  "tally st (Discard # as) = tally (count_discard st) as"
  by (simp_all add: tally_def count_protect_def count_bypass_def count_discard_def is_protect_def)

definition spd_spec :: "(pkt \<Rightarrow> sp_action) \<Rightarrow> pkt list \<Rightarrow> pkt list \<times> (pkt \<times> u32) list \<times> pkt list" where
  "spd_spec pol ps =
     (filter (\<lambda>p. pol p = Bypass) ps,
      map (\<lambda>p. (p, sa_of_action (pol p))) (filter (\<lambda>p. is_protect (pol p)) ps),
      filter (\<lambda>p. pol p = Discard) ps)"

lemma spd_loop_refines:
  "spd_loop cl ps st =
     (case spd_spec (\<lambda>p. res_action (cl p)) ps of
        (c, x, d) \<Rightarrow> (c, x, d, tally st (map (\<lambda>p. res_action (cl p)) ps)))"
  by (induction ps arbitrary: st)
    (auto simp: spd_spec_def res_action_def is_protect_def sa_of_action_def Let_def)

text \<open>
  C3. The outbound policy check implements the abstract policy: with a policy database, exactly the packets
  the classifier lets through go out in clear, exactly the protected ones go to the SA of their
  rule, exactly the discarded ones are freed, each group in the order of arrival, and the counters
  advance by the number of packets of each action. In particular no packet of a protect or discard
  rule is sent in clear, and without a database everything is.
\<close>

theorem outbound_spd_refines:
  "outbound_spd_lookup sp v6 ps st =
     (case sp of
        None \<Rightarrow> (ps, [], [], st)
      | Some f \<Rightarrow>
          (case spd_spec (\<lambda>p. res_action (classify f v6 p)) ps of
             (clear, protect, discard) \<Rightarrow>
               (clear, protect, discard, tally st (map (\<lambda>p. res_action (classify f v6 p)) ps))))"
  by (simp add: outbound_spd_lookup_def spd_loop_refines split: option.splits)

text \<open>
  When the inbound check admits a packet of action \<open>a\<close>: a bypass rule, or a protect rule for a
  packet that went through IPsec under an SA with the SPI of the rule's SA.
\<close>

definition admits :: "ipsec_sa list \<Rightarrow> nat \<Rightarrow> nat \<Rightarrow> pkt \<Rightarrow> sp_action \<Rightarrow> bool" where
  "admits sas lim i p a =
     (case a of
        Bypass \<Rightarrow> True
      | Discard \<Rightarrow> False
      | Protect k \<Rightarrow>
          (lim \<le> i \<or> rx_sec_offload (pbuf p)) \<and>
          (case p_sa p of None \<Rightarrow> False | Some j \<Rightarrow> spi (sas ! unat k) = spi (sas ! j)))"

lemma map_sum_Inr_iff: "map_sum id g x = Inr y \<longleftrightarrow> (\<exists>z. x = Inr z \<and> y = g z)"
  by (cases x) auto

lemma sp_sa_loop_Cons:
  assumes "sp_sa_loop cl sas lim i (p # ps) st = Inr (k, d, st')"
  shows "\<exists>st1 k1 d1. sp_sa_loop cl sas lim (Suc i) ps st1 = Inr (k1, d1, st') \<and>
    (if admits sas lim i p (res_action (cl p)) then k = p # k1 \<and> d = d1 else k = k1 \<and> d = p # d1)"
proof -
  consider "cl p = BYPASS" | "cl p = DISCARD" | "cl p \<noteq> BYPASS" "cl p \<noteq> DISCARD" "i < lim" "\<not> rx_sec_offload (pbuf p)"
    | "cl p \<noteq> BYPASS" "cl p \<noteq> DISCARD" "lim \<le> i \<or> rx_sec_offload (pbuf p)" by linarith
  then show ?thesis
  proof cases
    case 4
    then have n: "\<not> (i < lim \<and> \<not> rx_sec_offload (pbuf p))" by auto
    show ?thesis
      using assms 4 n by (cases "p_sa p")
        (auto simp: Let_def inbound_sa_check_def admits_def res_action_def map_sum_Inr_iff split: if_splits bool.splits sum.splits)
  qed (use assms in \<open>auto simp: Let_def admits_def res_action_def map_sum_Inr_iff\<close>)
qed

lemma sp_sa_loop_refines:
  "sp_sa_loop cl sas lim i ps st = Inr (keep, free, st') \<Longrightarrow>
     keep = map snd (filter (\<lambda>(i, p). admits sas lim i p (res_action (cl p))) (enumerate i ps)) \<and>
     free = map snd (filter (\<lambda>(i, p). \<not> admits sas lim i p (res_action (cl p))) (enumerate i ps))"
proof (induction ps arbitrary: i keep free st)
  case (Cons p ps)
  from sp_sa_loop_Cons [OF Cons.prems] obtain st1 k1 d1
    where r: "sp_sa_loop cl sas lim (Suc i) ps st1 = Inr (k1, d1, st')"
      and e: "if admits sas lim i p (res_action (cl p)) then keep = p # k1 \<and> free = d1 else keep = k1 \<and> free = p # d1"
    by blast
  from Cons.IH [OF r] e show ?case by (simp split: if_splits)
qed simp

lemma sp_sa_loop_total:
  assumes "\<forall>p \<in> set ps. cl p \<notin> {BYPASS, DISCARD} \<longrightarrow> unat (cl p - 1) < length sas"
  shows "\<exists>r. sp_sa_loop cl sas lim i ps st = Inr r"
  using assms
proof (induction ps arbitrary: i st)
  case (Cons p ps)
  then have ih: "\<exists>r. sp_sa_loop cl sas lim (Suc i) ps st1 = Inr r" for st1 by simp
  have "map_sum id g (sp_sa_loop cl sas lim (Suc i) ps st1) \<noteq> Inl e" for g :: "_ \<Rightarrow> pkt list \<times> pkt list \<times> spd_stats" and st1 e
    using ih [of st1] by auto
  then have "sp_sa_loop cl sas lim i (p # ps) st \<noteq> Inl e" for e
    using Cons.prems by (auto simp: Let_def inbound_sa_check_def split: sum.splits bool.splits option.splits)
  then show ?case by (metis sum.exhaust)
qed simp

text \<open>
  C4. Nothing enters from the unprotected side against the policy: \<open>inbound_sp_sa\<close> with a database whose
  protect rules name SAs of the context succeeds, and a packet is kept exactly when its rule is
  bypass, or it is protect, the packet came out of IPsec (the first \<open>lim\<close> packets of the list arrived
  in clear; among them only what the NIC decrypted counts) and the SA it came through has the SPI of
  the rule's SA. The others are freed; both groups keep their order.
\<close>

theorem inbound_sp_sa_admits:
  assumes "\<forall>p \<in> set ps. classify f v6 p \<notin> {BYPASS, DISCARD} \<longrightarrow> unat (classify f v6 p - 1) < length sas"
  shows "\<exists>st'. inbound_sp_sa (Some f) v6 sas lim ps st =
     Inr (map snd (filter (\<lambda>(i, p). admits sas lim i p (res_action (classify f v6 p))) (enumerate 0 ps)),
          map snd (filter (\<lambda>(i, p). \<not> admits sas lim i p (res_action (classify f v6 p))) (enumerate 0 ps)), st')"
proof -
  obtain k d st' where "sp_sa_loop (classify f v6) sas lim 0 ps st = Inr (k, d, st')"
    using sp_sa_loop_total [OF assms, of lim 0 st] by auto
  with sp_sa_loop_refines [OF this] show ?thesis by (auto simp: inbound_sp_sa_def)
qed

section \<open>Examples\<close>

text \<open>A policy on the protocol: ICMP passes, TCP is protected by the SA 0, all else is discarded.\<close>

definition sample_acl :: "u8 list \<Rightarrow> u32" where
  "sample_acl b = (case b of [] \<Rightarrow> DISCARD | p # _ \<Rightarrow> if p = 1 then BYPASS else if p = 6 then 1 else DISCARD)"

definition proto_pkt :: "nat \<Rightarrow> u8 \<Rightarrow> pkt" where
  "proto_pkt i proto = (sample_pkt i)\<lparr>pbuf := (pbuf (sample_pkt i))\<lparr>m_bytes := sample_ip4[9 := proto]\<rparr>\<rparr>"

lemma outbound_spd_refines_witness:
  "outbound_spd_lookup (Some sample_acl) False [proto_pkt 1 6, proto_pkt 2 1, proto_pkt 3 17] \<lparr>n_protect = 0, n_bypass = 0, n_discard = 0\<rparr> =
     ([proto_pkt 2 1], [(proto_pkt 1 6, 0)], [proto_pkt 3 17], \<lparr>n_protect = 1, n_bypass = 1, n_discard = 1\<rparr>)"
  unfolding outbound_spd_refines
  by (simp add: spd_spec_def res_action_def is_protect_def sa_of_action_def classify_def acl_ofs_def sample_acl_def
      proto_pkt_def sample_ip4_def tally_def)

lemma inbound_sp_sa_admits_witness:
  "\<exists>st'. inbound_sp_sa (Some sample_acl) False [sad_sample_sa] 2
       [proto_pkt 1 6, proto_pkt 2 1, (proto_pkt 3 6)\<lparr>p_sa := Some 0\<rparr>, proto_pkt 4 6] \<lparr>n_protect = 0, n_bypass = 0, n_discard = 0\<rparr> =
     Inr ([proto_pkt 2 1, (proto_pkt 3 6)\<lparr>p_sa := Some 0\<rparr>], [proto_pkt 1 6, proto_pkt 4 6], st')"
proof -
  let ?ps = "[proto_pkt 1 6, proto_pkt 2 1, (proto_pkt 3 6)\<lparr>p_sa := Some 0\<rparr>, proto_pkt 4 6]"
  have c: "\<forall>p \<in> set ?ps. classify sample_acl False p \<notin> {BYPASS, DISCARD} \<longrightarrow> unat (classify sample_acl False p - 1) < length [sad_sample_sa]"
    by (simp add: classify_def acl_ofs_def sample_acl_def proto_pkt_def sample_ip4_def)
  from inbound_sp_sa_admits [OF c, of 2] show ?thesis
    by (simp add: admits_def res_action_def classify_def acl_ofs_def sample_acl_def proto_pkt_def sample_ip4_def
        sample_pkt_def sample_esp4_def)
qed

end
