(* ===== verification/Inspect.thy ===== *)
theory Inspect
  imports Queues
begin

text \<open>
  The traffic inspection of the gateway: \<open>dpi\<close> with its counters (\<open>ngtl/stats\<close>), the table of
  connections (\<open>netstatData\<close> with the hash \<open>NETSTAT\<close>), its expiry (\<open>flushHashTable\<close>), the queue of
  new connections for the log (\<open>ngtl/logs\<close>), the ARP responder and the clock \<open>printTime\<close>.
  The hash of DPDK is a parameter: its content is a partial map from keys to positions, and the
  choice of a free position is \<open>hash_pick\<close>. The threads of the gateway run these functions on shared
  state without locks; the model is one of their interleavings at the granularity of calls.
\<close>

section \<open>Counters\<close>

datatype tcp_service =
    FTP | SSH | TELNET | SMTP | HTTP | HTTPS | IMAPS | MSSQL | ORACLESQL | PPTP | MYSQL | RDP | VNC
  | NETBIOS | BGP | SIP | LDAP | SOCKS | SQUID | POSTGRESQL | REDIS | ELASTICSEARCH | MONGODB | TCP_UNKNOWN

datatype udp_service =
    IKEv2 | DNS | DHCP | NTP | SNMP | SYSLOG | RIP | RADIUS | X11 | OPENVPN | UDP_UNKNOWN

text \<open>The fields of \<open>struct appStatsStruct\<close>.\<close>

datatype counter =
    C_eth | C_ARP | C_VLAN | C_IPV4 | C_IPV6 | C_LLDP | C_ethUNKNOWN
  | C_TCP | C_UDP | C_ICMP | C_ESP | C_IGMP | C_OSPF | C_GRE | C_ipUNKNOWN
  | C_tcp tcp_service | C_udp udp_service

definition tcpServices :: "u16 \<Rightarrow> tcp_service" where
  "tcpServices port =
     (if port \<in> {20, 21} then FTP else if port = 22 then SSH else if port = 23 then TELNET
      else if port = 25 then SMTP else if port = 80 then HTTP else if port = 443 then HTTPS
      else if port = 143 then IMAPS else if port = 1433 then MSSQL else if port = 1521 then ORACLESQL
      else if port = 1723 then PPTP else if port = 3306 then MYSQL else if port = 3389 then RDP
      else if port = 5900 then VNC else if port \<in> {137, 138, 139} then NETBIOS
      else if port \<in> {161, 179} then BGP else if port \<in> {5060, 5061} then SIP
      else if port = 636 then LDAP else if port = 1080 then SOCKS else if port = 3128 then SQUID
      else if port = 5432 then POSTGRESQL else if port = 6379 then REDIS
      else if port = 9200 then ELASTICSEARCH else if port \<in> {27017, 27018, 27019} then MONGODB
      else TCP_UNKNOWN)"

definition udpServices :: "u16 \<Rightarrow> udp_service" where
  "udpServices port =
     (if port \<in> {500, 4500} then IKEv2 else if port = 53 then DNS else if port \<in> {67, 68} then DHCP
      else if port = 123 then NTP else if port \<in> {161, 162} then SNMP else if port = 514 then SYSLOG
      else if port = 520 then RIP else if port \<in> {1645, 1646} then RADIUS
      else if port \<in> {6000, 6063} then X11 else if port = 1194 then OPENVPN else UDP_UNKNOWN)"

section \<open>State\<close>

record netstat_key =
  k_srcIP :: u32
  k_dstIP :: u32
  k_proto :: u8
  k_srcPort :: u16
  k_dstPort :: u16

record netstat =
  ns_key :: netstat_key
  ns_status :: u8
  ns_srcIP :: u32
  ns_dstIP :: u32
  ns_proto :: u8
  ns_srcPort :: u16
  ns_dstPort :: u16
  ns_inPort :: u8
  ns_outPort :: u8
  ns_last :: u64

definition zero_key :: netstat_key where
  "zero_key = \<lparr>k_srcIP = 0, k_dstIP = 0, k_proto = 0, k_srcPort = 0, k_dstPort = 0\<rparr>"

definition zero_netstat :: netstat where
  "zero_netstat = \<lparr>ns_key = zero_key, ns_status = 0, ns_srcIP = 0, ns_dstIP = 0, ns_proto = 0, ns_srcPort = 0,
     ns_dstPort = 0, ns_inPort = 0, ns_outPort = 0, ns_last = 0\<rparr>"

definition NETSTAT_ENTRIES :: nat where "NETSTAT_ENTRIES = 65535"

record inspect_state =
  app_stats :: "nat \<Rightarrow> counter \<Rightarrow> u64"
  ns_hash :: "netstat_key \<rightharpoonup> nat"
  ns_data :: "nat \<Rightarrow> netstat"
  ns_counts :: u64
  ns_hits :: u64
  ns_log :: "nat list"
  arp_out :: "u8 list list"

text \<open>
  The surroundings: where the hash puts a new key (\<open>None\<close> when it is full) and whether a buffer can be
  cloned for an ARP reply.
\<close>

record inspect_env =
  hash_pick :: "(netstat_key \<rightharpoonup> nat) \<Rightarrow> netstat_key \<Rightarrow> nat option"
  arp_clone :: "pkt \<Rightarrow> bool"

definition bump :: "nat \<Rightarrow> counter \<Rightarrow> inspect_state \<Rightarrow> inspect_state" where
  "bump port c s = s\<lparr>app_stats := (app_stats s)(port := (app_stats s port)(c := app_stats s port c + 1))\<rparr>"

section \<open>The log of new connections\<close>

text \<open>\<open>push\<close> appends and \<open>pop\<close> takes the first; \<open>None\<close> is the return value -1.\<close>

definition log_push :: "nat \<Rightarrow> nat list \<Rightarrow> nat list" where
  "log_push x l = l @ [x]"

definition log_pop :: "nat list \<Rightarrow> (nat \<times> nat list) option" where
  "log_pop l = (case l of [] \<Rightarrow> None | x # l' \<Rightarrow> Some (x, l'))"

section \<open>ARP\<close>

definition MY_MAC :: "u8 list" where "MY_MAC = [0x00, 0x90, 0x0B, 0xD7, 0xFC, 0x27]"

definition MY_IPS_DECIMAL :: "u32 list" where
  "MY_IPS_DECIMAL = [3232236801, 3232237057, 3232237313, 3232262401, 3232262657, 3232262913]"

text \<open>The frame \<open>handle_packet_arp\<close> makes of a request, in place: the assignments in the order of the code.\<close>

definition arp_reply :: "u8 list \<Rightarrow> u8 list" where
  "arp_reply b0 =
     (let b1 = put_bytes 0 (take 6 (drop 6 b0)) b0;
          b2 = put_bytes 6 MY_MAC b1;
          b3 = put_bytes 20 [0, 2] b2;
          b4 = put_bytes 22 MY_MAC b3;
          target_ip = take 4 (drop 28 b4);
          b5 = put_bytes 28 (take 4 (drop 38 b4)) b4;
          b6 = put_bytes 32 (take 6 b5) b5
      in put_bytes 38 target_ip b6)"

definition arp_asks_us :: "u8 list \<Rightarrow> bool" where
  "arp_asks_us b \<longleftrightarrow>
     b ! 20 = 0 \<and> b ! 21 = 1 \<and> u32_of_bytes (b ! 38) (b ! 39) (b ! 40) (b ! 41) \<in> set MY_IPS_DECIMAL"

definition handle_packet_arp :: "inspect_env \<Rightarrow> pkt \<Rightarrow> inspect_state \<Rightarrow> errno + pkt \<times> inspect_state" where
  "handle_packet_arp env p s =
     (let b = m_bytes (pbuf p) in
      if length b < 42 then Inl UB
      else if \<not> arp_asks_us b then Inr (p, s)
      else if \<not> arp_clone env p then Inl UB
      else Inr (p\<lparr>pbuf := (pbuf p)\<lparr>m_bytes := arp_reply b\<rparr>\<rparr>, s\<lparr>arp_out := arp_out s @ [arp_reply b]\<rparr>))"

section \<open>Connections\<close>

definition IPPROTO_ICMP :: u8 where "IPPROTO_ICMP = 1"
definition IPPROTO_IGMP :: u8 where "IPPROTO_IGMP = 2"
definition IPPROTO_GRE :: u8 where "IPPROTO_GRE = 47"
definition IPPROTO_OSPF :: u8 where "IPPROTO_OSPF = 0x89"

text \<open>A packet of a connection: a new one gets an entry and is queued for the log, a known one is refreshed.\<close>

definition new_entry :: "netstat_key \<Rightarrow> nat \<Rightarrow> u64 \<Rightarrow> netstat \<Rightarrow> netstat" where
  "new_entry k port now e =
     e\<lparr>ns_key := k, ns_status := 1, ns_srcIP := k_srcIP k, ns_dstIP := k_dstIP k, ns_proto := k_proto k,
       ns_srcPort := k_srcPort k, ns_dstPort := k_dstPort k, ns_inPort := of_nat port,
       ns_outPort := (if port = 0 then 1 else 0), ns_last := now\<rparr>"

definition netstat_see :: "inspect_env \<Rightarrow> netstat_key \<Rightarrow> nat \<Rightarrow> u64 \<Rightarrow> inspect_state \<Rightarrow> inspect_state" where
  "netstat_see env k port now s =
     (case ns_hash s k of
        Some i \<Rightarrow> s\<lparr>ns_hits := ns_hits s + 1, ns_data := (ns_data s)(i := (ns_data s i)\<lparr>ns_last := now\<rparr>)\<rparr>
      | None \<Rightarrow>
          (case hash_pick env (ns_hash s) k of
             None \<Rightarrow> s
           | Some i \<Rightarrow>
               s\<lparr>ns_hash := (ns_hash s)(k \<mapsto> i), ns_counts := ns_counts s + 1,
                 ns_data := (ns_data s)(i := new_entry k port now (ns_data s i)),
                 ns_log := log_push i (ns_log s)\<rparr>))"

text \<open>
  The IPv4 branch of \<open>dpi\<close>. Addresses and ports go into the key as they are in memory. The protocol of
  the key stays zero for a protocol the code does not know.
\<close>

definition dpi_ip4 :: "inspect_env \<Rightarrow> nat \<Rightarrow> u64 \<Rightarrow> pkt \<Rightarrow> inspect_state \<Rightarrow> errno + pkt \<times> inspect_state" where
  "dpi_ip4 env port now p s =
     (let b = m_bytes (pbuf p); l2 = ip_hl (drop 14 b) * 4 + 14; proto = b ! 23;
          k = zero_key\<lparr>k_srcIP := u32_of_bytes (b ! 29) (b ! 28) (b ! 27) (b ! 26),
                       k_dstIP := u32_of_bytes (b ! 33) (b ! 32) (b ! 31) (b ! 30)\<rparr>;
          fin = (\<lambda>k s. Inr (p\<lparr>p_l2_len := l2\<rparr>, netstat_see env k port now s));
          ported = k\<lparr>k_proto := proto, k_srcPort := le16_at b l2, k_dstPort := le16_at b (l2 + 2)\<rparr>
      in if length b < 34 then Inl UB
         else if proto = IPPROTO_TCP then
           (if length b < l2 + 4 then Inl UB
            else fin ported (bump port (C_tcp (tcpServices (be16_at b (l2 + 2))))
              (bump port (C_tcp (tcpServices (be16_at b l2))) (bump port C_TCP s))))
         else if proto = IPPROTO_UDP then
           (if length b < l2 + 4 then Inl UB
            else fin ported (bump port (C_udp (udpServices (be16_at b (l2 + 2))))
              (bump port (C_udp (udpServices (be16_at b l2))) (bump port C_UDP s))))
         else if proto = IPPROTO_ICMP then fin (k\<lparr>k_proto := proto\<rparr>) (bump port C_ICMP s)
         else if proto = IPPROTO_ESP then fin (k\<lparr>k_proto := proto\<rparr>) (bump port C_ESP s)
         else if proto = IPPROTO_IGMP then fin (k\<lparr>k_proto := proto\<rparr>) (bump port C_IGMP s)
         else if proto = IPPROTO_GRE then fin (k\<lparr>k_proto := proto\<rparr>) (bump port C_GRE s)
         else if proto = IPPROTO_OSPF then fin (k\<lparr>k_proto := proto\<rparr>) (bump port C_OSPF s)
         else fin k (bump port C_ipUNKNOWN s))"

text \<open>\<open>appStatsData\<close> has four entries, the ports are not checked against it.\<close>

definition dpi :: "inspect_env \<Rightarrow> nat \<Rightarrow> u64 \<Rightarrow> pkt \<Rightarrow> inspect_state \<Rightarrow> errno + pkt \<times> inspect_state" where
  "dpi env port now p s0 =
     (let b = m_bytes (pbuf p); ty = be16_at b 12; s = bump port C_eth s0 in
      if 4 \<le> port \<or> length b < 14 then Inl UB
      else if ty = 0x0806 then handle_packet_arp env p (bump port C_ARP s)
      else if ty = 0x8100 then Inr (p, bump port C_VLAN s)
      else if ty = 0x86DD then Inr (p, bump port C_IPV6 s)
      else if ty = 0x88CC then Inr (p, bump port C_LLDP s)
      else if ty = 0x0800 then dpi_ip4 env port now p (bump port C_IPV4 s)
      else Inr (p, bump port C_ethUNKNOWN s))"

fun handle_packets :: "inspect_env \<Rightarrow> nat \<Rightarrow> u64 \<Rightarrow> pkt list \<Rightarrow> inspect_state \<Rightarrow> errno + pkt list \<times> inspect_state" where
  "handle_packets env port now [] s = Inr ([], s)"
| "handle_packets env port now (p # ps) s =
     (case dpi env port now p s of
        Inl e \<Rightarrow> Inl e
      | Inr (p', s1) \<Rightarrow>
          (case handle_packets env port now ps s1 of Inl e \<Rightarrow> Inl e | Inr (ps', s2) \<Rightarrow> Inr (p' # ps', s2)))"

section \<open>Expiry\<close>

definition flush_entry :: "u64 \<Rightarrow> nat \<Rightarrow> inspect_state \<Rightarrow> inspect_state" where
  "flush_entry now n s =
     (if ns_status (ns_data s n) = 1 \<and> 15 < now - ns_last (ns_data s n) then
        (case ns_hash s (ns_key (ns_data s n)) of
           None \<Rightarrow> s\<lparr>ns_data := (ns_data s)(n := zero_netstat)\<rparr>
         | Some i \<Rightarrow>
             (case ns_hash s (ns_key (ns_data s i)) of
                None \<Rightarrow> s
              | Some j \<Rightarrow>
                  s\<lparr>ns_hash := (ns_hash s)(ns_key (ns_data s i) := None), ns_data := (ns_data s)(j := zero_netstat),
                    ns_counts := (if 0 < ns_counts s then ns_counts s - 1 else 0)\<rparr>))
      else s)"

definition flushHashTable :: "u64 \<Rightarrow> inspect_state \<Rightarrow> inspect_state" where
  "flushHashTable now s = fold (flush_entry now) [0..<NETSTAT_ENTRIES] s"

section \<open>The clock\<close>

record app_time =
  t_total :: u64
  t_sec :: u8
  t_min :: u8
  t_hrs :: u8
  t_day :: u8
  t_mon :: u8
  t_year :: u8

definition printTime :: "app_time \<Rightarrow> app_time" where
  "printTime t0 =
     (let t = t0\<lparr>t_total := t_total t0 + 1, t_sec := t_sec t0 + 1\<rparr>;
          t = (if t_sec t = 60 then t\<lparr>t_sec := 0, t_min := t_min t + 1\<rparr> else t);
          t = (if t_min t = 60 then t\<lparr>t_sec := 0, t_min := 0, t_hrs := t_hrs t + 1\<rparr> else t);
          t = (if t_hrs t = 24 then t\<lparr>t_sec := 0, t_min := 0, t_hrs := 0, t_day := t_day t + 1\<rparr> else t);
          t = (if t_day t = 30 then t\<lparr>t_sec := 0, t_min := 0, t_hrs := 0, t_day := 0, t_mon := t_mon t + 1\<rparr> else t)
      in if t_mon t = 12 then t\<lparr>t_sec := 0, t_min := 0, t_hrs := 0, t_day := 0, t_mon := 0, t_year := t_year t + 1\<rparr> else t)"

section \<open>The table of connections is sound\<close>

text \<open>What the code relies on: a new key gets a position of the table that no other key has.\<close>

definition hash_ok :: "inspect_env \<Rightarrow> bool" where
  "hash_ok env \<longleftrightarrow>
     (\<forall>h k i. hash_pick env h k = Some i \<longrightarrow> i < NETSTAT_ENTRIES \<and> i \<notin> ran h)"

text \<open>
  The invariant: the hash and the table describe the same connections, and the counter is their
  number.
\<close>

definition netstat_inv :: "inspect_state \<Rightarrow> bool" where
  "netstat_inv s \<longleftrightarrow>
     finite (dom (ns_hash s)) \<and>
     (\<forall>k i. ns_hash s k = Some i \<longrightarrow> i < NETSTAT_ENTRIES \<and> ns_key (ns_data s i) = k \<and> ns_status (ns_data s i) = 1) \<and>
     (\<forall>i. ns_status (ns_data s i) = 1 \<longrightarrow> ns_hash s (ns_key (ns_data s i)) = Some i) \<and>
     ns_counts s = of_nat (card (dom (ns_hash s)))"

lemma netstat_invD:
  assumes "netstat_inv s"
  shows "finite (dom (ns_hash s))"
    and "ns_hash s k = Some i \<Longrightarrow> i < NETSTAT_ENTRIES \<and> ns_key (ns_data s i) = k \<and> ns_status (ns_data s i) = 1"
    and "ns_status (ns_data s i) = 1 \<Longrightarrow> ns_hash s (ns_key (ns_data s i)) = Some i"
    and "ns_counts s = of_nat (card (dom (ns_hash s)))"
  using assms unfolding netstat_inv_def by blast+

lemma bump_simps [simp]:
  "ns_hash (bump port c s) = ns_hash s" "ns_data (bump port c s) = ns_data s" "ns_counts (bump port c s) = ns_counts s"
  "netstat_inv (bump port c s) = netstat_inv s"
  by (simp_all add: bump_def netstat_inv_def)

lemma netstat_see_inv:
  assumes "hash_ok env" and "netstat_inv s"
  shows "netstat_inv (netstat_see env k port now s)"
proof (cases "ns_hash s k")
  case (Some i)
  then show ?thesis using assms(2) by (auto simp: netstat_see_def netstat_inv_def)
next
  case None
  show ?thesis
  proof (cases "hash_pick env (ns_hash s) k")
    case None
    then show ?thesis using assms(2) \<open>ns_hash s k = None\<close> by (simp add: netstat_see_def)
  next
    case (Some i)
    have i: "i < NETSTAT_ENTRIES" "\<And>k'. ns_hash s k' \<noteq> Some i"
      using assms(1) Some by (auto simp: hash_ok_def ran_def)
    have "k \<notin> dom (ns_hash s)" using None by auto
    then have "card (dom ((ns_hash s)(k \<mapsto> i))) = Suc (card (dom (ns_hash s)))"
      using assms(2) by (simp add: netstat_inv_def)
    then show ?thesis
      using assms(2) None Some i by (auto simp: netstat_see_def netstat_inv_def new_entry_def)
  qed
qed

lemma handle_packet_arp_inv:
  "handle_packet_arp env p s = Inr (p', s') \<Longrightarrow> netstat_inv s \<Longrightarrow> netstat_inv s' \<and> pid p' = pid p"
  by (auto simp: handle_packet_arp_def netstat_inv_def Let_def split: if_splits)

lemma dpi_inv:
  assumes "hash_ok env" and "netstat_inv s" and "dpi env port now p s = Inr (p', s')"
  shows "netstat_inv s' \<and> pid p' = pid p"
  using assms(3)
  by (auto simp: dpi_def dpi_ip4_def Let_def assms(2) netstat_see_inv [OF assms(1)] split: if_splits
      dest!: handle_packet_arp_inv)

lemma handle_packets_inv:
  assumes "hash_ok env"
  shows "netstat_inv s \<Longrightarrow> handle_packets env port now ps s = Inr (ps', s') \<Longrightarrow> netstat_inv s' \<and> map pid ps' = map pid ps"
  by (induction ps arbitrary: s ps') (auto split: sum.splits prod.splits dest: dpi_inv [OF assms])

lemma netstat_card:
  assumes "netstat_inv s"
  shows "card (dom (ns_hash s)) \<le> NETSTAT_ENTRIES"
proof -
  have "inj_on (\<lambda>k. the (ns_hash s k)) (dom (ns_hash s))"
    using assms by (intro inj_onI) (auto simp: netstat_inv_def, metis)
  moreover have "(\<lambda>k. the (ns_hash s k)) ` dom (ns_hash s) \<subseteq> {..<NETSTAT_ENTRIES}"
    using assms by (auto simp: netstat_inv_def)
  ultimately show ?thesis by (metis card_inj_on_le card_lessThan finite_lessThan)
qed

lemma flush_entry_inv:
  assumes "netstat_inv s"
  shows "netstat_inv (flush_entry now n s) \<and>
    ns_hash (flush_entry now n s) =
      (\<lambda>k. if ns_hash s k = Some n \<and> 15 < now - ns_last (ns_data s n) then None else ns_hash s k) \<and>
    (\<forall>m. m \<noteq> n \<longrightarrow> ns_data (flush_entry now n s) m = ns_data s m)"
proof (cases "ns_status (ns_data s n) = 1 \<and> 15 < now - ns_last (ns_data s n)")
  case False
  then have e: "flush_entry now n s = s" by (auto simp: flush_entry_def)
  have "\<not> (ns_hash s k = Some n \<and> 15 < now - ns_last (ns_data s n))" for k
    using netstat_invD(2) [OF assms, of k n] False by blast
  then show ?thesis using assms by (simp only: e if_False) simp
next
  case True
  let ?k = "ns_key (ns_data s n)"
  have h: "ns_hash s ?k = Some n" using netstat_invD(3) [OF assms] True by blast
  have only: "k = ?k" if "ns_hash s k = Some n" for k using netstat_invD(2) [OF assms that] by simp
  have card: "card (dom (ns_hash s)) \<noteq> 0" using netstat_invD(1) [OF assms] h by auto
  note c = netstat_invD(4) [OF assms]
  have "card (dom (ns_hash s)) < 2 ^ 64" using netstat_card [OF assms] by (simp add: NETSTAT_ENTRIES_def)
  then have "unat (ns_counts s) = card (dom (ns_hash s))" by (simp add: c unat_of_nat)
  then have "0 < ns_counts s" using card by (metis unat_eq_zero word_gt_0)
  then have e: "flush_entry now n s =
      s\<lparr>ns_hash := (ns_hash s)(?k := None), ns_data := (ns_data s)(n := zero_netstat), ns_counts := ns_counts s - 1\<rparr>"
    using True h by (simp add: flush_entry_def)
  have "?k \<in> dom (ns_hash s)" using h by auto
  then have "card (dom ((ns_hash s)(?k := None))) = card (dom (ns_hash s)) - 1"
    using netstat_invD(1) [OF assms] by simp
  then have "ns_counts s - 1 = of_nat (card (dom ((ns_hash s)(?k := None))))"
    using card by (simp add: c of_nat_diff)
  then have cnt: "ns_counts (flush_entry now n s) = of_nat (card (dom (ns_hash (flush_entry now n s))))" by (simp add: e)
  have "finite (dom (ns_hash (flush_entry now n s)))" using netstat_invD(1) [OF assms] by (simp add: e)
  moreover have "i < NETSTAT_ENTRIES \<and> ns_key (ns_data (flush_entry now n s) i) = k \<and> ns_status (ns_data (flush_entry now n s) i) = 1"
    if "ns_hash (flush_entry now n s) k = Some i" for k i
  proof -
    have k: "k \<noteq> ?k" "ns_hash s k = Some i" using that by (auto simp: e split: if_splits)
    then have "i \<noteq> n" using only by blast
    then show ?thesis using netstat_invD(2) [OF assms k(2)] by (simp add: e)
  qed
  moreover have "ns_hash (flush_entry now n s) (ns_key (ns_data (flush_entry now n s) i)) = Some i"
    if "ns_status (ns_data (flush_entry now n s) i) = 1" for i
  proof -
    have i: "i \<noteq> n" using that by (auto simp: e zero_netstat_def)
    then have "ns_hash s (ns_key (ns_data s i)) = Some i" using that netstat_invD(3) [OF assms, of i] by (simp add: e)
    moreover from this have "ns_key (ns_data s i) \<noteq> ?k" using h i by auto
    ultimately show ?thesis using i by (simp add: e)
  qed
  ultimately have "netstat_inv (flush_entry now n s)" using cnt unfolding netstat_inv_def by blast
  moreover have "(ns_hash s)(?k := None) = (\<lambda>k. if ns_hash s k = Some n \<and> 15 < now - ns_last (ns_data s n) then None else ns_hash s k)"
  proof (rule ext)
    fix k
    show "((ns_hash s)(?k := None)) k = (if ns_hash s k = Some n \<and> 15 < now - ns_last (ns_data s n) then None else ns_hash s k)"
    proof (cases "k = ?k")
      case False
      then have "ns_hash s k \<noteq> Some n" using only by blast
      then show ?thesis using False by simp
    qed (use True h in simp)
  qed
  ultimately show ?thesis by (simp add: e)
qed

lemma flush_all:
  assumes "netstat_inv s"
  shows "netstat_inv (fold (flush_entry now) [0..<n] s) \<and>
    ns_hash (fold (flush_entry now) [0..<n] s) =
      (\<lambda>k. case ns_hash s k of
         None \<Rightarrow> None
       | Some i \<Rightarrow> if i < n \<and> 15 < now - ns_last (ns_data s i) then None else Some i) \<and>
    (\<forall>m. n \<le> m \<longrightarrow> ns_data (fold (flush_entry now) [0..<n] s) m = ns_data s m)"
proof (induction n)
  case 0
  then show ?case using assms by (auto split: option.splits)
next
  case (Suc n)
  let ?s = "fold (flush_entry now) [0..<n] s"
  note fe = flush_entry_inv [of ?s now n]
  have "ns_data ?s n = ns_data s n" using Suc by simp
  with fe Suc show ?case by (auto split: option.splits simp: less_Suc_eq)
qed

text \<open>
  C19. The table of connections stays sound: whatever packets are inspected and whenever the table is
  flushed, the hash and the array describe the same connections, the counter is their number, and
  a flush removes exactly the connections idle for more than 15 seconds, so that no entry is ever
  left that the hash does not reach.
\<close>

theorem netstat_sound:
  assumes "hash_ok env" and "netstat_inv s" and "handle_packets env port now ps s = Inr (ps', s')"
  shows "netstat_inv s' \<and> map pid ps' = map pid ps \<and> netstat_inv (flushHashTable now' s') \<and>
     (\<forall>k i. ns_hash (flushHashTable now' s') k = Some i \<longleftrightarrow>
        ns_hash s' k = Some i \<and> now' - ns_last (ns_data s' i) \<le> 15)"
proof -
  have h: "netstat_inv s'" "map pid ps' = map pid ps" using handle_packets_inv [OF assms] by simp_all
  have lt: "ns_hash s' k = Some i \<Longrightarrow> i < NETSTAT_ENTRIES" for k i using h(1) by (simp add: netstat_inv_def)
  note f = flush_all [OF h(1), of now' NETSTAT_ENTRIES]
  have "ns_hash (flushHashTable now' s') k = Some i \<longleftrightarrow> ns_hash s' k = Some i \<and> now' - ns_last (ns_data s' i) \<le> 15" for k i
    using f lt by (auto simp: flushHashTable_def not_less split: option.splits if_splits)
  then show ?thesis using h f by (simp add: flushHashTable_def)
qed

section \<open>The ARP reply\<close>

text \<open>
  The reply answers the request. A request is the frame \<open>dmac smac rest op sha spa tha tpa\<close> with the fields
  of RFC 826 from offset 20: the reply goes to \<open>smac\<close>, comes from the gateway's hardware address, has
  operation 2, the address asked for as sender and the asking station as target; the rest stays.
\<close>

lemma arp_reply_answers:
  assumes "length dmac = 6" and "length smac = 6" and "length rest = 8" and "length op = 2" and "length sha = 6"
    and "length spa = 4" and "length tha = 6" and "length tpa = 4"
  shows "arp_reply (dmac @ smac @ rest @ op @ sha @ spa @ tha @ tpa @ pad) =
    smac @ MY_MAC @ rest @ [0, 2] @ MY_MAC @ tpa @ smac @ spa @ pad"
proof -
  have m: "length MY_MAC = 6" by (simp add: MY_MAC_def)
  let ?f1 = "smac @ smac @ rest @ op @ sha @ spa @ tha @ tpa @ pad"
  let ?f2 = "smac @ MY_MAC @ rest @ op @ sha @ spa @ tha @ tpa @ pad"
  let ?f3 = "smac @ MY_MAC @ rest @ [0, 2] @ sha @ spa @ tha @ tpa @ pad"
  let ?f4 = "smac @ MY_MAC @ rest @ [0, 2] @ MY_MAC @ spa @ tha @ tpa @ pad"
  let ?f5 = "smac @ MY_MAC @ rest @ [0, 2] @ MY_MAC @ tpa @ tha @ tpa @ pad"
  let ?f6 = "smac @ MY_MAC @ rest @ [0, 2] @ MY_MAC @ tpa @ smac @ tpa @ pad"
  have "put_bytes 0 (take 6 (drop 6 (dmac @ smac @ rest @ op @ sha @ spa @ tha @ tpa @ pad)))
      (dmac @ smac @ rest @ op @ sha @ spa @ tha @ tpa @ pad) = ?f1"
    using assms by (simp add: put_bytes_def)
  moreover have "put_bytes 6 MY_MAC ?f1 = ?f2" using assms m by (simp add: put_bytes_def)
  moreover have "put_bytes 20 [0, 2] ?f2 = ?f3" using assms m by (simp add: put_bytes_def)
  moreover have "put_bytes 22 MY_MAC ?f3 = ?f4" using assms m by (simp add: put_bytes_def)
  moreover have "take 4 (drop 28 ?f4) = spa" "take 4 (drop 38 ?f4) = tpa" using assms m by simp_all
  moreover have "put_bytes 28 tpa ?f4 = ?f5" using assms m by (simp add: put_bytes_def)
  moreover have "put_bytes 32 (take 6 ?f5) ?f5 = ?f6" using assms m by (simp add: put_bytes_def)
  moreover have "put_bytes 38 spa ?f6 = smac @ MY_MAC @ rest @ [0, 2] @ MY_MAC @ tpa @ smac @ spa @ pad"
    using assms m by (simp add: put_bytes_def)
  ultimately show ?thesis by (simp only: arp_reply_def Let_def)
qed

section \<open>The clock counts seconds\<close>

definition elapsed :: "app_time \<Rightarrow> nat" where
  "elapsed t =
     ((((unat (t_year t) * 12 + unat (t_mon t)) * 30 + unat (t_day t)) * 24 + unat (t_hrs t)) * 60 + unat (t_min t)) * 60 +
     unat (t_sec t)"

definition clock_ok :: "app_time \<Rightarrow> bool" where
  "clock_ok t \<longleftrightarrow> t_sec t < 60 \<and> t_min t < 60 \<and> t_hrs t < 24 \<and> t_day t < 30 \<and> t_mon t < 12"

text \<open>
  \<open>printTime\<close> counts seconds in a mixed radix with months of 30 days; the eight bits of the year make it
  start over after 256 years.
\<close>

lemma printTime_counts:
  assumes "clock_ok t"
  shows "clock_ok (printTime t) \<and> elapsed (printTime t) = (elapsed t + 1) mod (256 * 12 * 30 * 86400) \<and>
    t_total (printTime t) = t_total t + 1"
proof -
  have b: "unat (t_sec t) < 60" "unat (t_min t) < 60" "unat (t_hrs t) < 24" "unat (t_day t) < 30" "unat (t_mon t) < 12"
    using assms by (simp_all add: clock_ok_def word_less_nat_alt)
  have y: "unat (t_year t) < 256" by (rule unat_u8_less)
  have inc: "unat (t_sec t + 1) = unat (t_sec t) + 1" "unat (t_min t + 1) = unat (t_min t) + 1"
    "unat (t_hrs t + 1) = unat (t_hrs t) + 1" "unat (t_day t + 1) = unat (t_day t) + 1"
    "unat (t_mon t + 1) = unat (t_mon t) + 1"
    "unat (t_year t + 1) = (if unat (t_year t) = 255 then 0 else unat (t_year t) + 1)"
    using b y by (auto simp: unat_word_ariths)
  have eq: "t_sec t = 59 \<longleftrightarrow> unat (t_sec t) = 59" "t_min t = 59 \<longleftrightarrow> unat (t_min t) = 59"
    "t_hrs t = 23 \<longleftrightarrow> unat (t_hrs t) = 23" "t_day t = 29 \<longleftrightarrow> unat (t_day t) = 29"
    "t_mon t = 11 \<longleftrightarrow> unat (t_mon t) = 11"
    by (simp_all add: word_unat_eq_iff)
  have ne: "t_min t \<noteq> 60" "t_hrs t \<noteq> 24" "t_day t \<noteq> 30" "t_mon t \<noteq> 12"
    using b by (auto simp: word_unat_eq_iff)
  consider "unat (t_sec t) \<noteq> 59" | "unat (t_sec t) = 59" "unat (t_min t) \<noteq> 59"
    | "unat (t_sec t) = 59" "unat (t_min t) = 59" "unat (t_hrs t) \<noteq> 23"
    | "unat (t_sec t) = 59" "unat (t_min t) = 59" "unat (t_hrs t) = 23" "unat (t_day t) \<noteq> 29"
    | "unat (t_sec t) = 59" "unat (t_min t) = 59" "unat (t_hrs t) = 23" "unat (t_day t) = 29" "unat (t_mon t) \<noteq> 11"
    | "unat (t_sec t) = 59" "unat (t_min t) = 59" "unat (t_hrs t) = 23" "unat (t_day t) = 29" "unat (t_mon t) = 11"
    by blast
  then have "clock_ok (printTime t) \<and>
      elapsed (printTime t) = (if elapsed t + 1 = 256 * 12 * 30 * 86400 then 0 else elapsed t + 1) \<and>
      t_total (printTime t) = t_total t + 1"
    by cases (use b y in \<open>simp_all add: printTime_def Let_def eq ne clock_ok_def elapsed_def word_less_nat_alt inc\<close>)
  moreover have "elapsed t < 256 * 12 * 30 * 86400" using b y by (simp add: elapsed_def)
  ultimately show ?thesis by auto
qed

section \<open>Examples\<close>

text \<open>A hash that uses the positions in order, and a frame of an ICMP packet.\<close>

definition sample_inspect :: inspect_env where
  "sample_inspect = \<lparr>hash_pick = (\<lambda>h k. let n = card (ran h) in if n < NETSTAT_ENTRIES \<and> n \<notin> ran h then Some n else None),
     arp_clone = (\<lambda>_. True)\<rparr>"

definition empty_inspect :: inspect_state where
  "empty_inspect = \<lparr>app_stats = (\<lambda>_ _. 0), ns_hash = (\<lambda>_. None), ns_data = (\<lambda>_. zero_netstat), ns_counts = 0, ns_hits = 0,
     ns_log = [], arp_out = []\<rparr>"

lemma sample_inspect_ok: "hash_ok sample_inspect"
  by (auto simp: hash_ok_def sample_inspect_def Let_def split: if_splits)

lemma empty_inspect_inv: "netstat_inv empty_inspect"
  by (simp add: netstat_inv_def empty_inspect_def zero_netstat_def)

definition icmp_frame :: pkt where
  "icmp_frame = \<lparr>pid = 1, pbuf = sample_esp4\<lparr>m_bytes := replicate 12 2 @ [8, 0] @ sample_ip4[9 := 1]\<rparr>,
     p_sa = None, p_cop = sample_cop, p_ses = None, p_tso = None, p_l2_len = 0, p_l4_len = 0, p_txol = 0\<rparr>"

lemma netstat_sound_witness:
  "\<exists>ps' s' k. handle_packets sample_inspect 0 100 [icmp_frame] empty_inspect = Inr (ps', s') \<and>
     ns_hash s' k = Some 0 \<and> ns_hash (flushHashTable 110 s') k = Some 0 \<and> ns_hash (flushHashTable 120 s') k = None"
proof -
  let ?b = "m_bytes (pbuf icmp_frame)"
  let ?k = "zero_key\<lparr>k_srcIP := u32_of_bytes (?b ! 29) (?b ! 28) (?b ! 27) (?b ! 26),
      k_dstIP := u32_of_bytes (?b ! 33) (?b ! 32) (?b ! 31) (?b ! 30), k_proto := 1\<rparr>"
  let ?s = "netstat_see sample_inspect ?k 0 100 (bump 0 C_ICMP (bump 0 C_IPV4 (bump 0 C_eth empty_inspect)))"
  have l: "length ?b = 38" "be16_at ?b 12 = 0x0800" "?b ! 23 = 1" "ip_hl (drop 14 ?b) = 5"
    by code_simp+
  have r: "handle_packets sample_inspect 0 100 [icmp_frame] empty_inspect = Inr ([icmp_frame\<lparr>p_l2_len := 34\<rparr>], ?s)"
    by (simp add: dpi_def dpi_ip4_def Let_def l IPPROTO_TCP_def IPPROTO_UDP_def IPPROTO_ICMP_def)
  have h: "ns_hash ?s ?k = Some 0" and t: "ns_last (ns_data ?s 0) = 100"
    by (simp_all add: netstat_see_def empty_inspect_def sample_inspect_def bump_def NETSTAT_ENTRIES_def new_entry_def)
  note n = netstat_sound [OF sample_inspect_ok empty_inspect_inv r, THEN conjunct2, THEN conjunct2, THEN conjunct2]
  have "ns_hash (flushHashTable 110 ?s) ?k = Some 0" using n [of 110, rule_format, of ?k 0] h t by simp
  moreover have "ns_hash (flushHashTable 120 ?s) ?k \<noteq> Some i" for i using n [of 120, rule_format, of ?k i] h t by auto
  ultimately show ?thesis using r h by fastforce
qed

end
