(* ===== verification/Poll.thy ===== *)
theory Poll
  imports Transmit_Props Traffic_Props Inspect
begin

text \<open>
  The poll-mode worker of \<open>ipsec-secgw.c\<close>: what one core does with a burst from a port
  (\<open>process_pkts\<close>), how it collects finished crypto operations, and the body of its main loop. The
  state is the core's \<open>lcore_conf\<close> with the inspection state and what was given to the kernel
  interface. Packets the core frees itself are collected in \<open>tx_freed\<close>.
\<close>

section \<open>State and surroundings\<close>

text \<open>The settings, tables and libraries of a worker; \<open>pv_kni\<close> says whether the kernel interface takes a packet.\<close>

record ('d, 's) poll_env =
  pv_enable :: bool
  pv_single_sa :: "u32 option"
  pv_unprotected :: u32
  pv_client_port :: nat
  pv_rx :: rx_env
  pv_tx :: tx_env
  pv_in :: "'d crypto_env"
  pv_out :: "'d crypto_env"
  pv_lib_in :: ipsec_lib
  pv_lib_out :: ipsec_lib
  pv_sapi :: "'s sad_api"
  pv_sad :: "'s ipsec_sad"
  pv_sp4_in :: acl
  pv_sp6_in :: acl
  pv_sp4_out :: acl
  pv_sp6_out :: acl
  pv_inspect :: inspect_env
  pv_kni :: "pkt list \<Rightarrow> pkt \<Rightarrow> bool"

record 'd lcore =
  lc_in :: "'d ipsec_ctx"
  lc_out :: "'d ipsec_ctx"
  lc_cache :: sad_cache
  lc_tx :: tx_state
  lc_spd4_in :: spd_stats
  lc_spd6_in :: spd_stats
  lc_spd4_out :: spd_stats
  lc_spd6_out :: spd_stats
  lc_inspect :: inspect_state
  lc_kni :: "pkt list"
  kni_rx_packets :: u64
  kni_rx_dropped :: u64

definition lc_free :: "pkt list \<Rightarrow> 'd lcore \<Rightarrow> 'd lcore" where
  "lc_free ps lc = lc\<lparr>lc_tx := tx_free ps (lc_tx lc)\<rparr>"

text \<open>The result of the mask is returned as an 8-bit value.\<close>

definition is_unprotected_port :: "u32 \<Rightarrow> nat \<Rightarrow> errno + bool" where
  "is_unprotected_port pm port =
     (if 32 \<le> port then Inl UB else Inr ((ucast (pm AND push_bit port 1) :: u8) \<noteq> 0))"

section \<open>Inbound\<close>

text \<open>The policy checks of both families after the engine: \<open>n4\<close> and \<open>n6\<close> packets arrived in clear.\<close>

definition check_inbound ::
  "('d, 's) poll_env \<Rightarrow> nat \<Rightarrow> nat \<Rightarrow> traffic \<times> 'd lcore \<Rightarrow> errno + traffic \<times> 'd lcore" where
  "check_inbound env n4 n6 = (\<lambda>(trf, lc).
     let sas = ctx_sas (lc_in lc) in
     case inbound_sp_sa (pv_sp4_in env) False sas n4 (tr_ip4 trf) (lc_spd4_in lc) of
       Inl e \<Rightarrow> Inl e
     | Inr (k4, d4, st4) \<Rightarrow>
         (case inbound_sp_sa (pv_sp6_in env) True sas n6 (tr_ip6 trf) (lc_spd6_in lc) of
            Inl e \<Rightarrow> Inl e
          | Inr (k6, d6, st6) \<Rightarrow>
              Inr (\<lparr>tr_ip4 = k4, tr_ip6 = k6\<rparr>,
                   lc_free (d4 @ d6) (lc\<lparr>lc_spd4_in := st4, lc_spd6_in := st6\<rparr>))))"

text \<open>The engine in its two modes: \<open>ipsec.c\<close> with the split given, or \<open>librte_ipsec\<close>.\<close>

definition engine_in ::
  "('d, 's) poll_env \<Rightarrow> (traffic \<Rightarrow> pkt list \<Rightarrow> errno + traffic \<times> pkt list) \<Rightarrow> pkt list \<Rightarrow> traffic \<times> 'd lcore \<Rightarrow>
     errno + traffic \<times> 'd lcore" where
  "engine_in env split ps = (\<lambda>(trf, lc).
     if \<not> pv_enable env then
       (case ipsec_inbound (pv_in env) (rx_api (pv_rx env)) (pv_sapi env) (pv_sad env) (lc_cache lc) ps MAX_PKT_BURST (lc_in lc) of
          Inl e \<Rightarrow> Inl e
        | Inr (out, cache, ctx) \<Rightarrow>
            (case split trf out of
               Inl e \<Rightarrow> Inl e
             | Inr (trf', d) \<Rightarrow> Inr (trf', lc_free d (lc\<lparr>lc_in := ctx, lc_cache := cache\<rparr>))))
     else
       (case inbound_sa_lookup (pv_sapi env) (ctx_sas (lc_in lc)) (pv_sad env) (lc_cache lc) (map pbuf ps) of
          Inl e \<Rightarrow> Inl e
        | Inr (sas, cache) \<Rightarrow>
            (case ipsec_process (pv_in env) (pv_lib_in env) (zip sas ps) (lc_in lc, trf) of
               Inl e \<Rightarrow> Inl e
             | Inr (ctx, trf') \<Rightarrow> Inr (trf', lc\<lparr>lc_in := ctx, lc_cache := cache\<rparr>))))"

definition split4_keep :: "traffic \<Rightarrow> pkt list \<Rightarrow> errno + traffic \<times> pkt list" where
  "split4_keep trf ps = map_sum id (\<lambda>t. (t, [])) (split4_traffic trf ps)"

definition process_pkts_inbound :: "('d, 's) poll_env \<Rightarrow> burst \<Rightarrow> 'd lcore \<Rightarrow> errno + traffic \<times> 'd lcore" where
  "process_pkts_inbound env bu lc =
     (case engine_in env split46_traffic (bu_ipsec bu) (\<lparr>tr_ip4 = bu_ip4 bu, tr_ip6 = bu_ip6 bu\<rparr>, lc) of
        Inl e \<Rightarrow> Inl e
      | Inr st \<Rightarrow> check_inbound env (length (bu_ip4 bu)) (length (bu_ip6 bu)) st)"

definition process_pkts_inbound_nosp :: "('d, 's) poll_env \<Rightarrow> burst \<Rightarrow> 'd lcore \<Rightarrow> errno + traffic \<times> 'd lcore" where
  "process_pkts_inbound_nosp env bu lc =
     engine_in env split4_keep (bu_ipsec bu) (\<lparr>tr_ip4 = bu_ip4 bu, tr_ip6 = bu_ip6 bu\<rparr>, lc)"

section \<open>Outbound\<close>

definition engine_out ::
  "('d, 's) poll_env \<Rightarrow> (traffic \<Rightarrow> pkt list \<Rightarrow> errno + traffic) \<Rightarrow> (pkt \<times> u32) list \<Rightarrow> traffic \<times> 'd lcore \<Rightarrow>
     errno + traffic \<times> 'd lcore" where
  "engine_out env split xs = (\<lambda>(trf, lc).
     let ps = map fst xs; idx = map (\<lambda>x. unat (snd x)) xs in
     if \<not> pv_enable env then
       (case ipsec_outbound (pv_out env) (rx_api (pv_rx env)) ps idx MAX_PKT_BURST (lc_out lc) of
          Inl e \<Rightarrow> Inl e
        | Inr (out, ctx) \<Rightarrow> map_sum id (\<lambda>t. (t, lc\<lparr>lc_out := ctx\<rparr>)) (split trf out))
     else
       (case outbound_sa_lookup (ctx_sas (lc_out lc)) idx of
          Inl e \<Rightarrow> Inl e
        | Inr sas \<Rightarrow>
            (case ipsec_process (pv_out env) (pv_lib_out env) (zip (map (\<lambda>i. Some (i, False)) sas) ps) (lc_out lc, trf) of
               Inl e \<Rightarrow> Inl e
             | Inr (ctx, trf') \<Rightarrow> Inr (trf', lc\<lparr>lc_out := ctx\<rparr>))))"

definition process_pkts_outbound :: "('d, 's) poll_env \<Rightarrow> burst \<Rightarrow> 'd lcore \<Rightarrow> errno + traffic \<times> 'd lcore" where
  "process_pkts_outbound env bu lc =
     (case outbound_spd_lookup (pv_sp4_out env) False (bu_ip4 bu) (lc_spd4_out lc) of
        (c4, x4, d4, st4) \<Rightarrow>
          (case outbound_spd_lookup (pv_sp6_out env) True (bu_ip6 bu) (lc_spd6_out lc) of
             (c6, x6, d6, st6) \<Rightarrow>
               engine_out env split4_traffic (x4 @ x6)
                 (\<lparr>tr_ip4 = c4, tr_ip6 = c6\<rparr>,
                  lc_free (bu_ipsec bu @ d4 @ d6) (lc\<lparr>lc_spd4_out := st4, lc_spd6_out := st6\<rparr>))))"

text \<open>
  All packets of a single-SA burst are taken to have the version of the first; without any packet the
  code reads the slot 0 of the IPsec array, which holds a freed packet or nothing at all.
\<close>

definition split_first :: "bool \<Rightarrow> traffic \<Rightarrow> pkt list \<Rightarrow> errno + traffic" where
  "split_first stale trf ps =
     (case ps of
        [] \<Rightarrow> (if stale then Inr trf else Inl UB)
      | p # _ \<Rightarrow>
          (let b = m_bytes (pbuf p) in
           if b = [] then Inl UB
           else if ip_v b = 4 then Inr (trf\<lparr>tr_ip4 := ps\<rparr>) else Inr (trf\<lparr>tr_ip6 := ps\<rparr>)))"

definition process_pkts_outbound_nosp :: "('d, 's) poll_env \<Rightarrow> u32 \<Rightarrow> burst \<Rightarrow> 'd lcore \<Rightarrow> errno + traffic \<times> 'd lcore" where
  "process_pkts_outbound_nosp env sa bu lc =
     (let ps = bu_ip4 bu @ bu_ip6 bu in
      engine_out env (split_first (bu_ipsec bu \<noteq> [] \<or> ps \<noteq> [])) (map (\<lambda>p. (p, sa)) ps)
        (\<lparr>tr_ip4 = [], tr_ip6 = []\<rparr>, lc_free (bu_ipsec bu) lc))"

section \<open>A burst\<close>

text \<open>Routing: packets the NIC encrypts carry an SA of the context they went through.\<close>

definition route_pkts :: "('d, 's) poll_env \<Rightarrow> ipsec_sa list \<Rightarrow> traffic \<Rightarrow> tx_state \<Rightarrow> errno + tx_state" where
  "route_pkts env sas trf s =
     (case route4_pkts (pv_tx env) sas (tr_ip4 trf) s of
        Inl e \<Rightarrow> Inl e
      | Inr s1 \<Rightarrow> route6_pkts (pv_tx env) sas (tr_ip6 trf) s1)"

definition route_out :: "('d, 's) poll_env \<Rightarrow> bool \<Rightarrow> traffic \<times> 'd lcore \<Rightarrow> errno + 'd lcore" where
  "route_out env inbound = (\<lambda>(trf, lc).
     map_sum id (\<lambda>s. lc\<lparr>lc_tx := s\<rparr>)
       (route_pkts env (ctx_sas (if inbound then lc_in lc else lc_out lc)) trf (lc_tx lc)))"

definition process_pkts :: "('d, 's) poll_env \<Rightarrow> nat \<Rightarrow> rx_pkt list \<Rightarrow> 'd lcore \<Rightarrow> errno + 'd lcore" where
  "process_pkts env port rs lc0 =
     (case prepare_traffic (pv_rx env) rs of
        Inl e \<Rightarrow> Inl e
      | Inr bu \<Rightarrow>
          (case is_unprotected_port (pv_unprotected env) port of
             Inl e \<Rightarrow> Inl e
           | Inr unprot \<Rightarrow>
               (let lc = lc_free (bu_drop bu) lc0 in
                case (case pv_single_sa env of
                        Some sa \<Rightarrow> if unprot then process_pkts_inbound_nosp env bu lc else process_pkts_outbound_nosp env sa bu lc
                      | None \<Rightarrow> if unprot then process_pkts_inbound env bu lc else process_pkts_outbound env bu lc) of
                  Inl e \<Rightarrow> Inl e
                | Inr st \<Rightarrow> route_out env unprot st)))"

section \<open>Finished crypto operations\<close>

definition drain_qp :: "'d crypto_dev \<Rightarrow> nat \<Rightarrow> 'd ipsec_ctx \<Rightarrow> 'd ipsec_ctx" where
  "drain_qp D i ctx = (if cq_buf (tbl ctx ! i) = [] then ctx else enqueue_cop_burst D i ctx)"

definition drain_ctx :: "'d crypto_dev \<Rightarrow> 'd ipsec_ctx \<Rightarrow> 'd ipsec_ctx" where
  "drain_ctx D ctx = fold (drain_qp D) [0..<length (tbl ctx)] ctx"

definition drain_crypto_buffers :: "('d, 's) poll_env \<Rightarrow> 'd lcore \<Rightarrow> 'd lcore" where
  "drain_crypto_buffers env lc =
     lc\<lparr>lc_in := drain_ctx (ce_dev (pv_in env)) (lc_in lc), lc_out := drain_ctx (ce_dev (pv_out env)) (lc_out lc)\<rparr>"

definition no_traffic :: traffic where "no_traffic = \<lparr>tr_ip4 = [], tr_ip6 = []\<rparr>"

definition collect_in :: "('d, 's) poll_env \<Rightarrow> 'd lcore \<Rightarrow> errno + traffic \<times> 'd lcore" where
  "collect_in env lc =
     (if \<not> pv_enable env then
        (case ipsec_inbound_cqp_dequeue (ce_dev (pv_in env)) (rx_api (pv_rx env)) TRAFFIC_SIZE (lc_in lc) of
           Inl e \<Rightarrow> Inl e
         | Inr (ps, ctx) \<Rightarrow>
             (case split46_traffic no_traffic ps of
                Inl e \<Rightarrow> Inl e
              | Inr (trf, d) \<Rightarrow> Inr (trf, lc_free d (lc\<lparr>lc_in := ctx\<rparr>))))
      else
        (case ipsec_cqp_process (ce_dev (pv_in env)) (pv_lib_in env) (lc_in lc) of
           Inl e \<Rightarrow> Inl e
         | Inr (ctx, trf) \<Rightarrow> Inr (trf, lc\<lparr>lc_in := ctx\<rparr>)))"

definition collect_out :: "('d, 's) poll_env \<Rightarrow> 'd lcore \<Rightarrow> errno + traffic \<times> 'd lcore" where
  "collect_out env lc =
     (if \<not> pv_enable env then
        (case ipsec_outbound_cqp_dequeue (ce_dev (pv_out env)) TRAFFIC_SIZE (lc_out lc) of
           Inl e \<Rightarrow> Inl e
         | Inr (ps, ctx) \<Rightarrow>
             (case split46_traffic no_traffic ps of
                Inl e \<Rightarrow> Inl e
              | Inr (trf, d) \<Rightarrow> Inr (trf, lc_free d (lc\<lparr>lc_out := ctx\<rparr>))))
      else
        (case ipsec_cqp_process (ce_dev (pv_out env)) (pv_lib_out env) (lc_out lc) of
           Inl e \<Rightarrow> Inl e
         | Inr (ctx, trf) \<Rightarrow> Inr (trf, lc\<lparr>lc_out := ctx\<rparr>)))"

definition drain_inbound_crypto_queues :: "('d, 's) poll_env \<Rightarrow> 'd lcore \<Rightarrow> errno + 'd lcore" where
  "drain_inbound_crypto_queues env lc =
     (case collect_in env lc of
        Inl e \<Rightarrow> Inl e
      | Inr st \<Rightarrow> (case check_inbound env 0 0 st of Inl e \<Rightarrow> Inl e | Inr st' \<Rightarrow> route_out env True st'))"

definition drain_outbound_crypto_queues :: "('d, 's) poll_env \<Rightarrow> 'd lcore \<Rightarrow> errno + 'd lcore" where
  "drain_outbound_crypto_queues env lc =
     (case collect_out env lc of Inl e \<Rightarrow> Inl e | Inr st \<Rightarrow> route_out env False st)"

section \<open>Key exchange packets\<close>

text \<open>UDP packets of ports 500 and 4500 go to the kernel interface.\<close>

definition is_ike :: "u8 list \<Rightarrow> errno + bool" where
  "is_ike b =
     (if length b < 14 then Inl UB
      else if be16_at b 12 \<noteq> RTE_ETHER_TYPE_IPV4 then Inr False
      else if length b < 24 then Inl UB
      else if ip_v (drop 14 b) \<noteq> 4 \<or> b ! 23 \<noteq> IPPROTO_UDP then Inr False
      else
        (let u = 14 + ip_hl (drop 14 b) * 4 in
         if length b < u + 4 then Inl UB
         else Inr (be16_at b u \<in> {500, 4500} \<or> be16_at b (u + 2) \<in> {500, 4500})))"

definition give_kni :: "('d, 's) poll_env \<Rightarrow> pkt \<Rightarrow> 'd lcore \<Rightarrow> 'd lcore" where
  "give_kni env p lc =
     (if pv_kni env (lc_kni lc) p then lc\<lparr>lc_kni := lc_kni lc @ [p], kni_rx_packets := kni_rx_packets lc + 1\<rparr>
      else lc_free [p] (lc\<lparr>kni_rx_dropped := kni_rx_dropped lc + 1\<rparr>))"

fun filter_ike_packets :: "('d, 's) poll_env \<Rightarrow> rx_pkt list \<Rightarrow> 'd lcore \<Rightarrow> errno + rx_pkt list \<times> 'd lcore" where
  "filter_ike_packets env [] lc = Inr ([], lc)"
| "filter_ike_packets env (r # rs) lc =
     (case is_ike (m_bytes (pbuf (snd r))) of
        Inl e \<Rightarrow> Inl e
      | Inr True \<Rightarrow> filter_ike_packets env rs (give_kni env (snd r) lc)
      | Inr False \<Rightarrow> map_sum id (\<lambda>(ks, lc). (r # ks, lc)) (filter_ike_packets env rs lc))"

section \<open>The main loop\<close>

text \<open>What the NIC delivers on the queue of a port, and the time.\<close>

definition poll_queue :: "('d, 's) poll_env \<Rightarrow> nat \<Rightarrow> u64 \<Rightarrow> rx_pkt list \<Rightarrow> 'd lcore \<Rightarrow> errno + 'd lcore" where
  "poll_queue env port now rs lc0 =
     (case handle_packets (pv_inspect env) port now (map snd rs) (lc_inspect lc0) of
        Inl e \<Rightarrow> Inl e
      | Inr (ps, ins) \<Rightarrow>
          (let rs1 = zip (map fst rs) ps; lc1 = lc0\<lparr>lc_inspect := ins\<rparr> in
           case (if rs1 = [] then Inr lc1
                 else case (if port = pv_client_port env then Inr (rs1, lc1) else filter_ike_packets env rs1 lc1) of
                     Inl e \<Rightarrow> Inl e
                   | Inr (rs2, lc2) \<Rightarrow> process_pkts env port rs2 lc2) of
             Inl e \<Rightarrow> Inl e
           | Inr lc3 \<Rightarrow>
               (case is_unprotected_port (pv_unprotected env) port of
                  Inl e \<Rightarrow> Inl e
                | Inr True \<Rightarrow> drain_inbound_crypto_queues env lc3
                | Inr False \<Rightarrow> drain_outbound_crypto_queues env lc3)))"

definition drain_all :: "('d, 's) poll_env \<Rightarrow> 'd lcore \<Rightarrow> errno + 'd lcore" where
  "drain_all env lc =
     map_sum id (\<lambda>s. drain_crypto_buffers env (lc\<lparr>lc_tx := s\<rparr>)) (drain_tx_buffers (pv_tx env) (lc_tx lc))"

text \<open>
  The loop interleaves two kinds of steps for as long as it runs: the buffers are drained when 100
  microseconds have passed, and each receive queue of the core is served. \<open>reaches\<close> relates the
  packets received so far to the states they can lead to.
\<close>

inductive poll_step :: "('d, 's) poll_env \<Rightarrow> rx_pkt list \<Rightarrow> 'd lcore \<Rightarrow> 'd lcore \<Rightarrow> bool" for env where
  queue: "length rs \<le> MAX_PKT_BURST \<Longrightarrow> poll_queue env port now rs lc = Inr lc' \<Longrightarrow> poll_step env rs lc lc'"
| drain: "drain_all env lc = Inr lc' \<Longrightarrow> poll_step env [] lc lc'"

inductive reaches :: "('d, 's) poll_env \<Rightarrow> 'd lcore \<Rightarrow> rx_pkt list \<Rightarrow> 'd lcore \<Rightarrow> bool" for env lc0 where
  start: "reaches env lc0 [] lc0"
| step: "reaches env lc0 rs lc \<Longrightarrow> poll_step env rs' lc lc' \<Longrightarrow> reaches env lc0 (rs @ rs') lc'"

inductive_cases poll_stepE: "poll_step env rs lc lc'"

end
