(* ===== verification/Poll_Props.thy ===== *)
theory Poll_Props
  imports Poll
begin

text \<open>
  What a poll-mode core promises: in every state its loop can reach, the queue engines, the transmit
  buffers and the table of connections satisfy their invariants, and every packet received is
  buffered, in a crypto device, given to the kernel interface, sent or freed, exactly once.
\<close>

section \<open>Where the packets of a core are\<close>

definition lc_ok :: "('d, 's) poll_env \<Rightarrow> 'd lcore \<Rightarrow> bool" where
  "lc_ok env lc \<longleftrightarrow>
     qinv (ce_dev (pv_in env)) (lc_in lc) \<and> qinv (ce_dev (pv_out env)) (lc_out lc) \<and>
     tx_inv (lc_tx lc) \<and> netstat_inv (lc_inspect lc)"

definition poll_env_ok :: "('d, 's) poll_env \<Rightarrow> bool" where
  "poll_env_ok env \<longleftrightarrow>
     crypto_dev_ok (ce_dev (pv_in env)) \<and> crypto_dev_ok (ce_dev (pv_out env)) \<and>
     ipsec_lib_ok (pv_lib_in env) \<and> ipsec_lib_ok (pv_lib_out env) \<and> hash_ok (pv_inspect env)"

definition lc_all :: "('d, 's) poll_env \<Rightarrow> 'd lcore \<Rightarrow> nat multiset" where
  "lc_all env lc =
     balance (ce_dev (pv_in env)) (lc_in lc) + balance (ce_dev (pv_out env)) (lc_out lc) +
     tx_all (lc_tx lc) + pids (lc_kni lc)"

definition lc_net :: "('d, 's) poll_env \<Rightarrow> nat \<Rightarrow> 'd lcore \<Rightarrow> int" where
  "lc_net env x lc = int (count (lc_all env lc) x) - int (count (pids (tx_frags (lc_tx lc))) x)"

text \<open>With packets in transit between two stages.\<close>

definition st_net :: "('d, 's) poll_env \<Rightarrow> nat \<Rightarrow> traffic \<times> 'd lcore \<Rightarrow> int" where
  "st_net env x st = lc_net env x (snd st) + int (count (trf_pids (fst st)) x)"

lemma lc_net_parts:
  "lc_net env x lc =
     int (count (balance (ce_dev (pv_in env)) (lc_in lc)) x) + int (count (balance (ce_dev (pv_out env)) (lc_out lc)) x) +
     tx_net x (lc_tx lc) + int (count (pids (lc_kni lc)) x)"
  by (simp add: lc_net_def lc_all_def tx_net_def)

lemma lc_free_ok [simp]:
  "lc_ok env (lc_free ps lc) = lc_ok env lc" "lc_net env x (lc_free ps lc) = lc_net env x lc + int (count (pids ps) x)"
  by (simp_all add: lc_ok_def lc_free_def lc_net_parts)

lemma lc_spd_simps [simp]:
  "lc_ok env (lc\<lparr>lc_spd4_in := a, lc_spd6_in := b\<rparr>) = lc_ok env lc"
  "lc_ok env (lc\<lparr>lc_spd4_out := a, lc_spd6_out := b\<rparr>) = lc_ok env lc"
  "lc_net env x (lc\<lparr>lc_spd4_in := a, lc_spd6_in := b\<rparr>) = lc_net env x lc"
  "lc_net env x (lc\<lparr>lc_spd4_out := a, lc_spd6_out := b\<rparr>) = lc_net env x lc"
  by (simp_all add: lc_ok_def lc_net_parts)

text \<open>A balance of multisets read at one packet.\<close>

lemma count_balance: "A + B = C + D \<Longrightarrow> int (count A x) + int (count B x) = int (count C x) + int (count D x)"
  by (metis count_union of_nat_add)

lemma count_balance0: "A + B = C \<Longrightarrow> int (count A x) + int (count B x) = int (count C x)"
  by (metis count_union of_nat_add)

lemma trf_pids_simps: "trf_pids \<lparr>tr_ip4 = a, tr_ip6 = b\<rparr> = pids a + pids b"
  by (simp add: trf_pids_def)

section \<open>The stages\<close>

lemma sp_sa_loop_pids:
  "sp_sa_loop cl sas lim i ps st = Inr (keep, free, st') \<Longrightarrow> pids keep + pids free = pids ps"
proof (induction ps arbitrary: i keep free st)
  case (Cons p ps)
  from sp_sa_loop_Cons [OF Cons.prems] obtain st1 k1 d1
    where "sp_sa_loop cl sas lim (Suc i) ps st1 = Inr (k1, d1, st')"
      and "if admits sas lim i p (res_action (cl p)) then keep = p # k1 \<and> free = d1 else keep = k1 \<and> free = p # d1"
    by blast
  with Cons.IH show ?case by (auto split: if_splits)
qed simp

lemma inbound_sp_sa_pids: "inbound_sp_sa sp v6 sas lim ps st = Inr (keep, free, st') \<Longrightarrow> pids keep + pids free = pids ps"
  by (auto simp: inbound_sp_sa_def split: option.splits dest: sp_sa_loop_pids)

lemma check_inbound_ok:
  assumes "lc_ok env lc" and "check_inbound env n4 n6 (trf, lc) = Inr st'"
  shows "lc_ok env (snd st') \<and> st_net env x st' = st_net env x (trf, lc)"
proof -
  obtain k4 d4 st4 k6 d6 st6
    where c4: "inbound_sp_sa (pv_sp4_in env) False (ctx_sas (lc_in lc)) n4 (tr_ip4 trf) (lc_spd4_in lc) = Inr (k4, d4, st4)"
      and c6: "inbound_sp_sa (pv_sp6_in env) True (ctx_sas (lc_in lc)) n6 (tr_ip6 trf) (lc_spd6_in lc) = Inr (k6, d6, st6)"
      and st': "st' = (\<lparr>tr_ip4 = k4, tr_ip6 = k6\<rparr>, lc_free (d4 @ d6) (lc\<lparr>lc_spd4_in := st4, lc_spd6_in := st6\<rparr>))"
    using assms(2) by (auto simp: check_inbound_def Let_def split: sum.splits prod.splits)
  from count_balance0 [OF inbound_sp_sa_pids [OF c4], of x] count_balance0 [OF inbound_sp_sa_pids [OF c6], of x]
  show ?thesis using assms(1) by (simp add: st' st_net_def trf_pids_def)
qed

interpretation split46: packet_step "\<lambda>_. True" "\<lambda>st. trf_pids (fst st) + pids (snd st)" "\<lambda>p. {#pid p#}" split46_step
  by unfold_locales (auto simp: split46_step_def Let_def trf_pids_def split: if_splits)

interpretation split4: packet_step "\<lambda>_. True" trf_pids "\<lambda>p. {#pid p#}" split4_step
  by unfold_locales (auto simp: split4_step_def Let_def trf_pids_def split: if_splits)

lemma split46_traffic_pids: "split46_traffic trf ps = Inr (trf', d) \<Longrightarrow> trf_pids trf' + pids d = trf_pids trf + pids ps"
  using split46.run_all_ok [OF TrueI, of ps "(trf, [])" "(trf', d)"] by (simp add: split46_traffic_def pids_def)

lemma split4_traffic_pids: "split4_traffic trf ps = Inr trf' \<Longrightarrow> trf_pids trf' = trf_pids trf + pids ps"
  using split4.run_all_ok [OF TrueI, of ps trf trf'] by (simp add: split4_traffic_def pids_def)

definition split_conserves :: "(traffic \<Rightarrow> pkt list \<Rightarrow> errno + traffic \<times> pkt list) \<Rightarrow> bool" where
  "split_conserves split \<longleftrightarrow>
     (\<forall>trf ps trf' d. split trf ps = Inr (trf', d) \<longrightarrow> trf_pids trf' + pids d = trf_pids trf + pids ps)"

lemma split_conserves_46: "split_conserves split46_traffic" "split_conserves split4_keep"
  by (auto simp: split_conserves_def split4_keep_def map_sum_Inr_iff split46_traffic_pids split4_traffic_pids)

lemma zip_snd: "length xs = length ys \<Longrightarrow> map snd (zip xs ys) = ys"
  by simp

text \<open>The engine of a core replaced by a balanced one.\<close>

lemma lc_in_ok:
  assumes "lc_ok env lc" and "qinv (ce_dev (pv_in env)) ctx"
  shows "lc_ok env (lc\<lparr>lc_in := ctx, lc_cache := c\<rparr>)" and "lc_ok env (lc\<lparr>lc_in := ctx\<rparr>)"
    and "lc_net env x (lc\<lparr>lc_in := ctx, lc_cache := c\<rparr>) = lc_net env x lc -
        int (count (balance (ce_dev (pv_in env)) (lc_in lc)) x) + int (count (balance (ce_dev (pv_in env)) ctx) x)"
    and "lc_net env x (lc\<lparr>lc_in := ctx\<rparr>) = lc_net env x lc -
        int (count (balance (ce_dev (pv_in env)) (lc_in lc)) x) + int (count (balance (ce_dev (pv_in env)) ctx) x)"
  using assms by (simp_all add: lc_ok_def lc_net_parts)

lemma lc_out_ok:
  assumes "lc_ok env lc" and "qinv (ce_dev (pv_out env)) ctx"
  shows "lc_ok env (lc\<lparr>lc_out := ctx\<rparr>)"
    and "lc_net env x (lc\<lparr>lc_out := ctx\<rparr>) = lc_net env x lc -
        int (count (balance (ce_dev (pv_out env)) (lc_out lc)) x) + int (count (balance (ce_dev (pv_out env)) ctx) x)"
  using assms by (simp_all add: lc_ok_def lc_net_parts)

lemma lc_okD:
  assumes "lc_ok env lc"
  shows "qinv (ce_dev (pv_in env)) (lc_in lc)" and "qinv (ce_dev (pv_out env)) (lc_out lc)" and "tx_inv (lc_tx lc)"
    and "netstat_inv (lc_inspect lc)"
  using assms by (simp_all add: lc_ok_def)

lemma poll_env_okD:
  assumes "poll_env_ok env"
  shows "crypto_dev_ok (ce_dev (pv_in env))" and "crypto_dev_ok (ce_dev (pv_out env))"
    and "ipsec_lib_ok (pv_lib_in env)" and "ipsec_lib_ok (pv_lib_out env)" and "hash_ok (pv_inspect env)"
  using assms by (simp_all add: poll_env_ok_def)

lemma engine_in_ok:
  assumes E: "poll_env_ok env" and ok: "lc_ok env lc" and trf: "trf_ok trf" and split: "split_conserves split"
    and r: "engine_in env split ps (trf, lc) = Inr st'"
  shows "lc_ok env (snd st') \<and> st_net env x st' = st_net env x (trf, lc) + int (count (pids ps) x)"
proof (cases "pv_enable env")
  case False
  then obtain out cache ctx trf' d
    where i: "ipsec_inbound (pv_in env) (rx_api (pv_rx env)) (pv_sapi env) (pv_sad env) (lc_cache lc) ps MAX_PKT_BURST (lc_in lc) =
        Inr (out, cache, ctx)"
      and s: "split trf out = Inr (trf', d)"
      and st': "st' = (trf', lc_free d (lc\<lparr>lc_in := ctx, lc_cache := cache\<rparr>))"
    using r by (auto simp: engine_in_def split: sum.splits)
  note c = ipsec_inbound_ok [OF poll_env_okD(1) [OF E] lc_okD(1) [OF ok] i]
  have "trf_pids trf' + pids d = trf_pids trf + pids out" using split s by (simp add: split_conserves_def)
  from count_balance [OF this, of x] c count_balance [of "balance (ce_dev (pv_in env)) ctx" "pids out" _ "pids ps" x]
  show ?thesis by (simp add: st' st_net_def lc_in_ok [OF ok])
next
  case True
  then obtain sas cache ctx trf'
    where l: "inbound_sa_lookup (pv_sapi env) (ctx_sas (lc_in lc)) (pv_sad env) (lc_cache lc) (map pbuf ps) = Inr (sas, cache)"
      and p: "ipsec_process (pv_in env) (pv_lib_in env) (zip sas ps) (lc_in lc, trf) = Inr (ctx, trf')"
      and st': "st' = (trf', lc\<lparr>lc_in := ctx, lc_cache := cache\<rparr>)"
    using r by (auto simp: engine_in_def split: sum.splits)
  have "map snd (zip sas ps) = ps" using inbound_sa_lookup_length [OF l] by simp
  with ipsec_process_ok [OF poll_env_okD(1,3) [OF E] lc_okD(1) [OF ok] trf p]
  have c: "qinv (ce_dev (pv_in env)) ctx"
    "balance (ce_dev (pv_in env)) ctx + trf_pids trf' = balance (ce_dev (pv_in env)) (lc_in lc) + trf_pids trf + pids ps"
    by simp_all
  from count_balance [OF c(2), of x] show ?thesis by (simp add: st' st_net_def lc_in_ok [OF ok c(1)])
qed

lemma engine_out_ok:
  assumes E: "poll_env_ok env" and ok: "lc_ok env lc" and trf: "trf_ok trf"
    and split: "\<And>out trf'. split trf out = Inr trf' \<Longrightarrow> trf_pids trf' = trf_pids trf + pids out"
    and r: "engine_out env split xs (trf, lc) = Inr st'"
  shows "lc_ok env (snd st') \<and> st_net env x st' = st_net env x (trf, lc) + int (count (pids (map fst xs)) x)"
proof (cases "pv_enable env")
  case False
  then obtain out ctx trf'
    where i: "ipsec_outbound (pv_out env) (rx_api (pv_rx env)) (map fst xs) (map (\<lambda>x. unat (snd x)) xs) MAX_PKT_BURST (lc_out lc) =
        Inr (out, ctx)"
      and s: "split trf out = Inr trf'" and st': "st' = (trf', lc\<lparr>lc_out := ctx\<rparr>)"
    using r by (auto simp: engine_out_def Let_def map_sum_Inr_iff split: sum.splits)
  from ipsec_outbound_ok [OF poll_env_okD(2) [OF E] lc_okD(2) [OF ok] i]
  have c: "qinv (ce_dev (pv_out env)) ctx"
    "balance (ce_dev (pv_out env)) ctx + pids out = balance (ce_dev (pv_out env)) (lc_out lc) + pids (map fst xs)"
    by simp_all
  from count_balance [OF c(2), of x] split [OF s] show ?thesis by (simp add: st' st_net_def lc_out_ok [OF ok c(1)])
next
  case True
  then obtain sas ctx trf'
    where l: "outbound_sa_lookup (ctx_sas (lc_out lc)) (map (\<lambda>x. unat (snd x)) xs) = Inr sas"
      and p: "ipsec_process (pv_out env) (pv_lib_out env) (zip (map (\<lambda>i. Some (i, False)) sas) (map fst xs)) (lc_out lc, trf) = Inr (ctx, trf')"
      and st': "st' = (trf', lc\<lparr>lc_out := ctx\<rparr>)"
    using r by (auto simp: engine_out_def Let_def split: sum.splits)
  have "map snd (zip (map (\<lambda>i. Some (i, False)) sas) (map fst xs)) = map fst xs"
    using l by (auto simp: outbound_sa_lookup_def split: if_splits)
  with ipsec_process_ok [OF poll_env_okD(2,4) [OF E] lc_okD(2) [OF ok] trf p]
  have c: "qinv (ce_dev (pv_out env)) ctx"
    "balance (ce_dev (pv_out env)) ctx + trf_pids trf' = balance (ce_dev (pv_out env)) (lc_out lc) + trf_pids trf + pids (map fst xs)"
    by simp_all
  from count_balance [OF c(2), of x] show ?thesis by (simp add: st' st_net_def lc_out_ok [OF ok c(1)])
qed

lemma spd_loop_pids: "spd_loop cl ps st = (c, xs, d, st') \<Longrightarrow> pids c + pids (map fst xs) + pids d = pids ps \<and> length c \<le> length ps"
  by (induction ps arbitrary: c xs d st) (fastforce simp: Let_def split: if_splits prod.splits)+

lemma outbound_spd_pids:
  "outbound_spd_lookup sp v6 ps st = (c, xs, d, st') \<Longrightarrow> pids c + pids (map fst xs) + pids d = pids ps \<and> length c \<le> length ps"
  by (auto simp: outbound_spd_lookup_def split: option.splits dest: spd_loop_pids)

section \<open>A burst\<close>

text \<open>What a stage does with the burst: all its packets are in the traffic, an engine or freed.\<close>

definition takes_burst :: "('d, 's) poll_env \<Rightarrow> burst \<Rightarrow> 'd lcore \<Rightarrow> traffic \<times> 'd lcore \<Rightarrow> bool" where
  "takes_burst env bu lc st \<longleftrightarrow>
     lc_ok env (snd st) \<and>
     (\<forall>x. st_net env x st = lc_net env x lc + int (count (pids (bu_ipsec bu) + pids (bu_ip4 bu) + pids (bu_ip6 bu)) x))"

lemma trf_ok_le: "length a \<le> 64 \<Longrightarrow> length b \<le> 64 \<Longrightarrow> trf_ok \<lparr>tr_ip4 = a, tr_ip6 = b\<rparr>"
  by (simp add: trf_ok_def TRAFFIC_SIZE_def)

lemma engine_in_takes:
  assumes "poll_env_ok env" and "lc_ok env lc" and "length (bu_ip4 bu) \<le> 64" and "length (bu_ip6 bu) \<le> 64"
    and "split_conserves split" and "engine_in env split (bu_ipsec bu) (\<lparr>tr_ip4 = bu_ip4 bu, tr_ip6 = bu_ip6 bu\<rparr>, lc) = Inr st"
  shows "takes_burst env bu lc st"
  using engine_in_ok [OF assms(1,2) trf_ok_le [OF assms(3,4)] assms(5,6)]
  by (auto simp: takes_burst_def st_net_def trf_pids_def)

lemma process_pkts_inbound_takes:
  assumes "poll_env_ok env" and "lc_ok env lc" and "length (bu_ip4 bu) \<le> 64" and "length (bu_ip6 bu) \<le> 64"
    and "process_pkts_inbound env bu lc = Inr st"
  shows "takes_burst env bu lc st"
proof -
  obtain trf lc1 where e: "engine_in env split46_traffic (bu_ipsec bu) (\<lparr>tr_ip4 = bu_ip4 bu, tr_ip6 = bu_ip6 bu\<rparr>, lc) = Inr (trf, lc1)"
    and c: "check_inbound env (length (bu_ip4 bu)) (length (bu_ip6 bu)) (trf, lc1) = Inr st"
    using assms(5) by (auto simp: process_pkts_inbound_def split: sum.splits)
  from engine_in_takes [OF assms(1-4) split_conserves_46(1) e] check_inbound_ok [OF _ c]
  show ?thesis by (simp add: takes_burst_def)
qed

lemma process_pkts_outbound_takes:
  assumes "poll_env_ok env" and "lc_ok env lc" and "length (bu_ip4 bu) \<le> 64" and "length (bu_ip6 bu) \<le> 64"
    and "process_pkts_outbound env bu lc = Inr st"
  shows "takes_burst env bu lc st"
proof -
  obtain c4 x4 d4 st4 c6 x6 d6 st6
    where l4: "outbound_spd_lookup (pv_sp4_out env) False (bu_ip4 bu) (lc_spd4_out lc) = (c4, x4, d4, st4)"
      and l6: "outbound_spd_lookup (pv_sp6_out env) True (bu_ip6 bu) (lc_spd6_out lc) = (c6, x6, d6, st6)"
    by (metis prod_cases4)
  let ?lc = "lc_free (bu_ipsec bu @ d4 @ d6) (lc\<lparr>lc_spd4_out := st4, lc_spd6_out := st6\<rparr>)"
  have e: "engine_out env split4_traffic (x4 @ x6) (\<lparr>tr_ip4 = c4, tr_ip6 = c6\<rparr>, ?lc) = Inr st"
    using assms(5) by (simp add: process_pkts_outbound_def l4 l6)
  note b4 = outbound_spd_pids [OF l4] and b6 = outbound_spd_pids [OF l6]
  have "trf_ok \<lparr>tr_ip4 = c4, tr_ip6 = c6\<rparr>" using b4 b6 assms(3,4) by (intro trf_ok_le) simp_all
  note eo = engine_out_ok [OF assms(1) _ this split4_traffic_pids e]
  have n: "int (count (pids (bu_ip4 bu)) x) = int (count (pids c4) x) + int (count (pids (map fst x4)) x) + int (count (pids d4) x)"
    "int (count (pids (bu_ip6 bu)) x) = int (count (pids c6) x) + int (count (pids (map fst x6)) x) + int (count (pids d6) x)" for x
    using b4 b6 by (metis count_union of_nat_add)+
  show ?thesis
    using eo assms(2) by (simp add: takes_burst_def st_net_def trf_pids_simps n)
qed

lemma split_first_pids: "split_first stale no_traffic ps = Inr trf' \<Longrightarrow> trf_pids trf' = trf_pids no_traffic + pids ps"
  by (auto simp: split_first_def no_traffic_def trf_pids_def Let_def split: list.splits if_splits)

lemma process_pkts_outbound_nosp_takes:
  assumes "poll_env_ok env" and "lc_ok env lc" and "process_pkts_outbound_nosp env sa bu lc = Inr st"
  shows "takes_burst env bu lc st"
proof -
  let ?ps = "bu_ip4 bu @ bu_ip6 bu"
  have e: "engine_out env (split_first (bu_ipsec bu \<noteq> [] \<or> ?ps \<noteq> [])) (map (\<lambda>p. (p, sa)) ?ps) (no_traffic, lc_free (bu_ipsec bu) lc) = Inr st"
    using assms(3) by (simp only: process_pkts_outbound_nosp_def Let_def no_traffic_def)
  have t: "trf_ok no_traffic" "trf_pids no_traffic = {#}" by (simp_all add: trf_ok_def trf_pids_def no_traffic_def)
  have m: "map fst (map (\<lambda>p. (p, sa)) ?ps) = ?ps" by (simp add: comp_def)
  from engine_out_ok [OF assms(1) _ t(1) split_first_pids e] assms(2) show ?thesis
    unfolding m by (simp add: takes_burst_def st_net_def t)
qed

section \<open>Routing and collecting\<close>

lemma lc_tx_ok:
  assumes "lc_ok env lc" and "tx_inv s"
  shows "lc_ok env (lc\<lparr>lc_tx := s\<rparr>)" and "lc_net env x (lc\<lparr>lc_tx := s\<rparr>) = lc_net env x lc - tx_net x (lc_tx lc) + tx_net x s"
  using assms by (simp_all add: lc_ok_def lc_net_parts)

lemma route_out_ok:
  assumes "lc_ok env (snd st)" and "route_out env inbound st = Inr lc'"
  shows "lc_ok env lc' \<and> lc_net env x lc' = st_net env x st"
proof -
  obtain trf lc where st: "st = (trf, lc)" by (cases st)
  define sas where "sas = ctx_sas (if inbound then lc_in lc else lc_out lc)"
  obtain s1 s2 where r4: "route4_pkts (pv_tx env) sas (tr_ip4 trf) (lc_tx lc) = Inr s1"
    and r6: "route6_pkts (pv_tx env) sas (tr_ip6 trf) s1 = Inr s2" and lc': "lc' = lc\<lparr>lc_tx := s2\<rparr>"
    using assms(2) by (auto simp: st route_out_def route_pkts_def map_sum_Inr_iff simp flip: sas_def split: sum.splits)
  have ok: "lc_ok env lc" using assms(1) by (simp add: st)
  note a = route4_pkts_ok [OF lc_okD(3) [OF ok] r4, of x]
  with route6_pkts_ok [OF _ r6, of x] show ?thesis
    by (simp add: lc' lc_tx_ok [OF ok] st st_net_def trf_pids_def)
qed

lemma no_traffic_pids [simp]: "trf_pids no_traffic = {#}"
  by (simp add: trf_pids_def no_traffic_def)

lemma collect_in_ok:
  assumes E: "poll_env_ok env" and ok: "lc_ok env lc" and r: "collect_in env lc = Inr st"
  shows "lc_ok env (snd st) \<and> st_net env x st = lc_net env x lc"
proof (cases "pv_enable env")
  case False
  then obtain ps ctx trf d
    where q: "ipsec_inbound_cqp_dequeue (ce_dev (pv_in env)) (rx_api (pv_rx env)) TRAFFIC_SIZE (lc_in lc) = Inr (ps, ctx)"
      and s: "split46_traffic no_traffic ps = Inr (trf, d)" and st: "st = (trf, lc_free d (lc\<lparr>lc_in := ctx\<rparr>))"
    using r by (auto simp: collect_in_def split: sum.splits)
  note c = ipsec_dequeue_ok [OF poll_env_okD(1) [OF E] lc_okD(1) [OF ok] q [unfolded ipsec_inbound_cqp_dequeue_def]]
  from count_balance [OF split46_traffic_pids [OF s], of x]
    count_balance0 [OF c [THEN conjunct2, THEN conjunct1], of x] c
  show ?thesis by (simp add: st st_net_def lc_in_ok [OF ok])
next
  case True
  then obtain ctx trf where q: "ipsec_cqp_process (ce_dev (pv_in env)) (pv_lib_in env) (lc_in lc) = Inr (ctx, trf)"
    and st: "st = (trf, lc\<lparr>lc_in := ctx\<rparr>)"
    using r by (auto simp: collect_in_def split: sum.splits)
  note c = ipsec_cqp_process_any [OF poll_env_okD(1,3) [OF E] lc_okD(1) [OF ok] q]
  from count_balance0 [OF c [THEN conjunct2], of x] c show ?thesis by (simp add: st st_net_def lc_in_ok [OF ok])
qed

lemma collect_out_ok:
  assumes E: "poll_env_ok env" and ok: "lc_ok env lc" and r: "collect_out env lc = Inr st"
  shows "lc_ok env (snd st) \<and> st_net env x st = lc_net env x lc"
proof (cases "pv_enable env")
  case False
  then obtain ps ctx trf d
    where q: "ipsec_outbound_cqp_dequeue (ce_dev (pv_out env)) TRAFFIC_SIZE (lc_out lc) = Inr (ps, ctx)"
      and s: "split46_traffic no_traffic ps = Inr (trf, d)" and st: "st = (trf, lc_free d (lc\<lparr>lc_out := ctx\<rparr>))"
    using r by (auto simp: collect_out_def split: sum.splits)
  note c = ipsec_dequeue_ok [OF poll_env_okD(2) [OF E] lc_okD(2) [OF ok] q [unfolded ipsec_outbound_cqp_dequeue_def]]
  from count_balance [OF split46_traffic_pids [OF s], of x]
    count_balance0 [OF c [THEN conjunct2, THEN conjunct1], of x] c
  show ?thesis by (simp add: st st_net_def lc_out_ok [OF ok])
next
  case True
  then obtain ctx trf where q: "ipsec_cqp_process (ce_dev (pv_out env)) (pv_lib_out env) (lc_out lc) = Inr (ctx, trf)"
    and st: "st = (trf, lc\<lparr>lc_out := ctx\<rparr>)"
    using r by (auto simp: collect_out_def split: sum.splits)
  note c = ipsec_cqp_process_any [OF poll_env_okD(2,4) [OF E] lc_okD(2) [OF ok] q]
  from count_balance0 [OF c [THEN conjunct2], of x] c show ?thesis by (simp add: st st_net_def lc_out_ok [OF ok])
qed

lemma drain_queues_ok:
  assumes "poll_env_ok env" and "lc_ok env lc"
  shows "drain_inbound_crypto_queues env lc = Inr lc' \<Longrightarrow> lc_ok env lc' \<and> lc_net env x lc' = lc_net env x lc"
    and "drain_outbound_crypto_queues env lc = Inr lc' \<Longrightarrow> lc_ok env lc' \<and> lc_net env x lc' = lc_net env x lc"
proof -
  assume "drain_inbound_crypto_queues env lc = Inr lc'"
  then obtain trf lc1 st' where c: "collect_in env lc = Inr (trf, lc1)" and k: "check_inbound env 0 0 (trf, lc1) = Inr st'"
    and r: "route_out env True st' = Inr lc'"
    by (auto simp: drain_inbound_crypto_queues_def split: sum.splits)
  from collect_in_ok [OF assms c, of x] check_inbound_ok [OF _ k, of x] route_out_ok [OF _ r, of x]
  show "lc_ok env lc' \<and> lc_net env x lc' = lc_net env x lc" by simp
next
  assume "drain_outbound_crypto_queues env lc = Inr lc'"
  then obtain st where c: "collect_out env lc = Inr st" and r: "route_out env False st = Inr lc'"
    by (auto simp: drain_outbound_crypto_queues_def split: sum.splits)
  from collect_out_ok [OF assms c, of x] route_out_ok [OF _ r, of x]
  show "lc_ok env lc' \<and> lc_net env x lc' = lc_net env x lc" by simp
qed

lemma process_pkts_ok:
  assumes E: "poll_env_ok env" and ok: "lc_ok env lc0" and len: "length rs \<le> 64" and r: "process_pkts env port rs lc0 = Inr lc'"
  shows "lc_ok env lc' \<and> lc_net env x lc' = lc_net env x lc0 + int (count (pids (map snd rs)) x)"
proof -
  obtain bu unprot st
    where p: "prepare_traffic (pv_rx env) rs = Inr bu" and u: "is_unprotected_port (pv_unprotected env) port = Inr unprot"
      and s: "(case pv_single_sa env of
                Some sa \<Rightarrow> if unprot then process_pkts_inbound_nosp env bu (lc_free (bu_drop bu) lc0)
                           else process_pkts_outbound_nosp env sa bu (lc_free (bu_drop bu) lc0)
              | None \<Rightarrow> if unprot then process_pkts_inbound env bu (lc_free (bu_drop bu) lc0)
                        else process_pkts_outbound env bu (lc_free (bu_drop bu) lc0)) = Inr st"
      and o: "route_out env unprot st = Inr lc'"
    using r by (auto simp: process_pkts_def Let_def split: sum.splits)
  have l: "length (bu_ip4 bu) \<le> 64" "length (bu_ip6 bu) \<le> 64"
    using prepare_traffic_bound [OF p] len by simp_all
  have ok1: "lc_ok env (lc_free (bu_drop bu) lc0)" using ok by simp
  have "takes_burst env bu (lc_free (bu_drop bu) lc0) st"
    using s engine_in_takes [OF E ok1 l split_conserves_46(2)] process_pkts_inbound_takes [OF E ok1 l]
      process_pkts_outbound_takes [OF E ok1 l] process_pkts_outbound_nosp_takes [OF E ok1]
    by (auto simp: process_pkts_inbound_nosp_def split: option.splits if_splits)
  then show ?thesis
    using route_out_ok [OF _ o, of x]
    by (simp add: takes_burst_def burst_pids_def flip: prepare_traffic_pids [OF p])
qed

section \<open>Steps of the loop\<close>

lemma give_kni_ok:
  assumes "lc_ok env lc"
  shows "lc_ok env (give_kni env p lc) \<and> lc_net env x (give_kni env p lc) = lc_net env x lc + int (count {#pid p#} x)"
  using assms by (simp add: give_kni_def lc_ok_def lc_net_parts lc_free_def)

lemma filter_ike_ok:
  "filter_ike_packets env rs lc = Inr (ks, lc') \<Longrightarrow> lc_ok env lc \<Longrightarrow>
     lc_ok env lc' \<and> length ks \<le> length rs \<and>
     lc_net env x lc' + int (count (pids (map snd ks)) x) = lc_net env x lc + int (count (pids (map snd rs)) x)"
proof (induction rs arbitrary: ks lc)
  case (Cons r rs)
  then show ?case
    using give_kni_ok [OF Cons.prems(2), of "snd r" x] Cons.IH [of "give_kni env (snd r) lc"]
    by (auto simp: map_sum_Inr_iff split: sum.splits bool.splits if_splits) (force+)
qed simp

lemma enqueue_cop_burst_ok:
  assumes D: "crypto_dev_ok D" and inv: "qinv D ctx" and i: "i < length (tbl ctx)"
  shows "qinv D (enqueue_cop_burst D i ctx) \<and> balance D (enqueue_cop_burst D i ctx) = balance D ctx \<and>
    tbl (enqueue_cop_burst D i ctx) = (tbl ctx)[i := tbl (enqueue_cop_burst D i ctx) ! i] \<and>
    cq_buf (tbl (enqueue_cop_burst D i ctx) ! i) = []"
proof -
  obtain n d' where enq: "cd_enq D (dev ctx) (qkey (tbl ctx ! i)) (cq_buf (tbl ctx ! i)) = (n, d')" by fastforce
  then have e: "enqueue_cop_burst D i ctx = drop_pkts (drop n (cq_buf (tbl ctx ! i)))
      (ctx\<lparr>tbl := (tbl ctx)[i := (tbl ctx ! i)\<lparr>in_flight := in_flight (tbl ctx ! i) + of_nat n, cq_buf := []\<rparr>], dev := d'\<rparr>)"
    by (simp add: enqueue_cop_burst_def Let_def)
  have "tagged ctx (cq_buf (tbl ctx ! i))" using tagged_buf [OF inv] i by simp
  from hand_over_ok [OF D inv i this enq e] show ?thesis using i by (auto simp: e drop_pkts_def)
qed

lemma drain_ctx_prefix:
  assumes D: "crypto_dev_ok D" and inv: "qinv D ctx"
  shows "n \<le> length (tbl ctx) \<Longrightarrow>
    (let c = fold (drain_qp D) [0..<n] ctx in
     qinv D c \<and> balance D c = balance D ctx \<and> length (tbl c) = length (tbl ctx) \<and> (\<forall>i < n. cq_buf (tbl c ! i) = []))"
proof (induction n)
  case 0
  then show ?case using inv by simp
next
  case (Suc n)
  define c where "c = fold (drain_qp D) [0..<n] ctx"
  have c: "qinv D c" "balance D c = balance D ctx" "length (tbl c) = length (tbl ctx)" "\<forall>i < n. cq_buf (tbl c ! i) = []"
    using Suc by (simp_all add: c_def Let_def)
  have n: "n < length (tbl c)" using Suc.prems c(3) by simp
  note eb = enqueue_cop_burst_ok [OF D c(1) n]
  have o: "tbl (enqueue_cop_burst D n c) ! i = tbl c ! i" if "i < n" for i
    using eb that by (metis nth_list_update_neq nat_neq_iff)
  define c' where "c' = drain_qp D n c"
  have f: "fold (drain_qp D) [0..<Suc n] ctx = c'" by (simp add: c_def c'_def)
  have "qinv D c' \<and> balance D c' = balance D ctx \<and> length (tbl c') = length (tbl ctx) \<and> (\<forall>i < Suc n. cq_buf (tbl c' ! i) = [])"
  proof (cases "cq_buf (tbl c ! n) = []")
    case True
    then show ?thesis using c by (auto simp: c'_def drain_qp_def less_Suc_eq)
  next
    case False
    then have e: "c' = enqueue_cop_burst D n c" by (simp add: c'_def drain_qp_def)
    show ?thesis using c eb o by (auto simp: e less_Suc_eq)
  qed
  then show ?case unfolding f Let_def .
qed

lemma drain_ctx_ok:
  assumes "crypto_dev_ok D" and "qinv D ctx"
  shows "qinv D (drain_ctx D ctx) \<and> balance D (drain_ctx D ctx) = balance D ctx \<and>
    (\<forall>q \<in> set (tbl (drain_ctx D ctx)). cq_buf q = [])"
  using drain_ctx_prefix [OF assms, of "length (tbl ctx)"] by (auto simp: drain_ctx_def Let_def in_set_conv_nth)

lemma drain_all_ok:
  assumes E: "poll_env_ok env" and ok: "lc_ok env lc" and r: "drain_all env lc = Inr lc'"
  shows "lc_ok env lc' \<and> lc_net env x lc' = lc_net env x lc \<and>
    (\<forall>b \<in> set (tx_bufs (lc_tx lc')). b = []) \<and>
    (\<forall>q \<in> set (tbl (lc_in lc')) \<union> set (tbl (lc_out lc')). cq_buf q = [])"
proof -
  obtain s where d: "run_all (drain_port (pv_tx env)) [0..<length (tx_bufs (lc_tx lc))] (lc_tx lc) = Inr s"
    and lc': "lc' = drain_crypto_buffers env (lc\<lparr>lc_tx := s\<rparr>)"
    using r by (auto simp: drain_all_def map_sum_Inr_iff drain_tx_buffers_def)
  have s: "tx_inv s" "tx_net x s = tx_net x (lc_tx lc)" using drain.run_all_ok [OF lc_okD(3) [OF ok] d, of x] by simp_all
  have e: "\<forall>b \<in> set (tx_bufs s). b = []" using drain_bufs [OF d] by (auto simp: in_set_conv_nth)
  show ?thesis
    using drain_ctx_ok [OF poll_env_okD(1) [OF E] lc_okD(1) [OF ok]] drain_ctx_ok [OF poll_env_okD(2) [OF E] lc_okD(2) [OF ok]]
      lc_okD(4) [OF ok] s e
    by (auto simp: lc' drain_crypto_buffers_def lc_ok_def lc_net_parts)
qed

lemma poll_queue_ok:
  assumes E: "poll_env_ok env" and ok: "lc_ok env lc0" and len: "length rs \<le> MAX_PKT_BURST"
    and r: "poll_queue env port now rs lc0 = Inr lc'"
  shows "lc_ok env lc' \<and> lc_net env x lc' = lc_net env x lc0 + int (count (pids (map snd rs)) x)"
proof -
  obtain ps ins where h: "handle_packets (pv_inspect env) port now (map snd rs) (lc_inspect lc0) = Inr (ps, ins)"
    using r by (auto simp: poll_queue_def split: sum.splits)
  define rs1 where "rs1 = zip (map fst rs) ps"
  define lc1 where "lc1 = lc0\<lparr>lc_inspect := ins\<rparr>"
  note hp = handle_packets_inv [OF poll_env_okD(5) [OF E] lc_okD(4) [OF ok] h]
  then have l: "length ps = length rs" by (metis length_map)
  have m: "map snd rs1 = ps" "length rs1 = length rs" by (simp_all add: rs1_def l)
  have p1: "pids (map snd rs1) = pids (map snd rs)" unfolding m(1) pids_def using hp by simp
  have ok1: "lc_ok env lc1" "lc_net env x lc1 = lc_net env x lc0"
    using ok hp by (simp_all add: lc1_def lc_ok_def lc_net_parts)
  obtain lc3 unprot
    where s: "(if rs1 = [] then Inr lc1
                 else case (if port = pv_client_port env then Inr (rs1, lc1) else filter_ike_packets env rs1 lc1) of
                     Inl e \<Rightarrow> Inl e
                   | Inr (rs2, lc2) \<Rightarrow> process_pkts env port rs2 lc2) = Inr lc3"
      and u: "is_unprotected_port (pv_unprotected env) port = Inr unprot"
      and d: "(if unprot then drain_inbound_crypto_queues env lc3 else drain_outbound_crypto_queues env lc3) = Inr lc'"
  proof -
    let ?c = "if rs1 = [] then Inr lc1
                 else case (if port = pv_client_port env then Inr (rs1, lc1) else filter_ike_packets env rs1 lc1) of
                     Inl e \<Rightarrow> Inl e
                   | Inr (rs2, lc2) \<Rightarrow> process_pkts env port rs2 lc2"
    have e: "(case ?c of Inl e \<Rightarrow> Inl e
        | Inr lc3 \<Rightarrow> (case is_unprotected_port (pv_unprotected env) port of
              Inl e \<Rightarrow> Inl e
            | Inr True \<Rightarrow> drain_inbound_crypto_queues env lc3
            | Inr False \<Rightarrow> drain_outbound_crypto_queues env lc3)) = Inr lc'"
      using r by (simp only: poll_queue_def h sum.case prod.case Let_def rs1_def lc1_def)
    then obtain lc3 where c: "?c = Inr lc3" by (cases ?c) (simp_all only: sum.case sum.simps)
    with e obtain u where "is_unprotected_port (pv_unprotected env) port = Inr u"
      "(if u then drain_inbound_crypto_queues env lc3 else drain_outbound_crypto_queues env lc3) = Inr lc'"
      by (cases "is_unprotected_port (pv_unprotected env) port") (auto split: bool.splits)
    with c show ?thesis using that by blast
  qed
  have "lc_ok env lc3 \<and> lc_net env x lc3 = lc_net env x lc0 + int (count (pids (map snd rs)) x)"
  proof (cases "rs1 = []")
    case True
    then show ?thesis using s ok1 p1 by simp
  next
    case False
    then obtain rs2 lc2 where f: "(if port = pv_client_port env then Inr (rs1, lc1) else filter_ike_packets env rs1 lc1) = Inr (rs2, lc2)"
      and p: "process_pkts env port rs2 lc2 = Inr lc3"
      using s by (auto split: sum.splits)
    have "lc_ok env lc2 \<and> length rs2 \<le> length rs1 \<and>
        lc_net env x lc2 + int (count (pids (map snd rs2)) x) = lc_net env x lc1 + int (count (pids (map snd rs1)) x)"
      using f ok1(1) filter_ike_ok [of env rs1 lc1 rs2 lc2 x] by (auto split: if_splits)
    moreover from this have "length rs2 \<le> 64" using len m(2) by (simp add: MAX_PKT_BURST_def)
    ultimately show ?thesis using process_pkts_ok [OF E _ _ p, of x] ok1(2) p1 by simp
  qed
  then show ?thesis using drain_queues_ok [OF E, of lc3 lc' x] d by (auto split: if_splits)
qed

lemma poll_step_ok:
  assumes "poll_env_ok env" and "lc_ok env lc" and "poll_step env rs lc lc'"
  shows "lc_ok env lc' \<and> lc_net env x lc' = lc_net env x lc + int (count (pids (map snd rs)) x)"
  using assms(3) by (elim poll_stepE) (use poll_queue_ok [OF assms(1,2)] drain_all_ok [OF assms(1,2)] in auto)

lemma reaches_ok:
  assumes "poll_env_ok env" and "lc_ok env lc0" and "reaches env lc0 rs lc"
  shows "lc_ok env lc \<and> lc_net env x lc = lc_net env x lc0 + int (count (pids (map snd rs)) x)"
  using assms(3)
proof (induction rule: reaches.induct)
  case (step rs lc rs' lc')
  then show ?case using poll_step_ok [OF assms(1) _ step.hyps(2), of x] by simp
qed (use assms(2) in simp)

text \<open>
  C1. A core never loses a packet. In every state the main loop can reach, whatever the devices, the NIC and
  the kernel interface do, the invariants of both queue engines, the transmit buffers and the
  connection table hold, and the packets received plus those the core started with are exactly those
  now queued, in a crypto device, parked, waiting in a transmit buffer, handed to the NIC or the
  kernel interface, or freed; fragments the core made are accounted for separately.
\<close>

theorem poll_loop_conserves:
  assumes "poll_env_ok env" and "lc_ok env lc0" and "reaches env lc0 rs lc"
  shows "lc_ok env lc \<and>
     lc_all env lc + pids (tx_frags (lc_tx lc0)) = lc_all env lc0 + pids (map snd rs) + pids (tx_frags (lc_tx lc))"
proof -
  have "int (count (lc_all env lc) x) - int (count (pids (tx_frags (lc_tx lc))) x) =
      int (count (lc_all env lc0 + pids (map snd rs)) x) - int (count (pids (tx_frags (lc_tx lc0))) x)" for x
    using reaches_ok [OF assms, of x] by (simp add: lc_net_def)
  then have "lc_all env lc + pids (tx_frags (lc_tx lc0)) = lc_all env lc0 + pids (map snd rs) + pids (tx_frags (lc_tx lc))"
    by (rule net_counts)
  then show ?thesis using reaches_ok [OF assms] by simp
qed

text \<open>
  C40. Nothing waits for ever: after a drain step, which the loop takes every 100 microseconds, no packet is left in
  a transmit buffer or in the buffer of a crypto queue pair; each is with its device, sent or freed.
\<close>

theorem drain_step_empties:
  assumes "poll_env_ok env" and "lc_ok env lc" and "drain_all env lc = Inr lc'"
  shows "(\<forall>b \<in> set (tx_bufs (lc_tx lc')). b = []) \<and>
     (\<forall>q \<in> set (tbl (lc_in lc')) \<union> set (tbl (lc_out lc')). cq_buf q = []) \<and> lc_ok env lc'"
  using drain_all_ok [OF assms] by blast

text \<open>
  The port test is cut to eight bits: a port is taken for unprotected exactly when it is below 8 and in
  the mask, so traffic of an unprotected port above 7 is treated as outbound traffic.
\<close>

theorem unprotected_port_truncated:
  assumes "port < 32"
  shows "is_unprotected_port pm port = Inr (port < 8 \<and> bit pm port)"
proof -
  have "bit (ucast (pm AND push_bit port 1) :: u8) n \<longleftrightarrow> n < 8 \<and> n = port \<and> bit pm n" for n
    using assms by (auto simp: bit_simps)
  then have "(ucast (pm AND push_bit port 1) :: u8) = 0 \<longleftrightarrow> \<not> (port < 8 \<and> bit pm port)"
    by (metis (mono_tags, lifting) bit_0_eq bit_eq_iff bot_apply bot_bool_def)
  then show ?thesis using assms by (simp add: is_unprotected_port_def)
qed

section \<open>Examples\<close>

definition sample_penv :: "(u16 \<times> u16 \<Rightarrow> pkt list, (u32 \<times> nat) list) poll_env" where
  "sample_penv = \<lparr>pv_enable = False, pv_single_sa = None, pv_unprotected = 1, pv_client_port = 1,
     pv_rx = \<lparr>rx_api = sample_api, rx_udp_encap = False, rx_next_ext = sample_next_ext, rx_dynfield = False, rx_userdata = (\<lambda>_. None)\<rparr>,
     pv_tx = sample_txenv, pv_in = sample_cenv, pv_out = sample_cenv, pv_lib_in = accept_lib, pv_lib_out = accept_lib,
     pv_sapi = map_sad, pv_sad = sample_sad, pv_sp4_in = None, pv_sp6_in = None, pv_sp4_out = None, pv_sp6_out = None,
     pv_inspect = \<lparr>hash_pick = (\<lambda>_ _. None), arp_clone = (\<lambda>_. True)\<rparr>, pv_kni = (\<lambda>_ _. True)\<rparr>"

definition idle_lcore :: "(u16 \<times> u16 \<Rightarrow> pkt list) lcore" where
  "idle_lcore = \<lparr>lc_in = idle_ctx, lc_out = idle_ctx, lc_cache = cold_cache, lc_tx = idle_tx,
     lc_spd4_in = \<lparr>n_protect = 0, n_bypass = 0, n_discard = 0\<rparr>, lc_spd6_in = \<lparr>n_protect = 0, n_bypass = 0, n_discard = 0\<rparr>,
     lc_spd4_out = \<lparr>n_protect = 0, n_bypass = 0, n_discard = 0\<rparr>, lc_spd6_out = \<lparr>n_protect = 0, n_bypass = 0, n_discard = 0\<rparr>,
     lc_inspect = empty_inspect, lc_kni = [], kni_rx_packets = 0, kni_rx_dropped = 0\<rparr>"

lemma sample_penv_ok: "poll_env_ok sample_penv"
  using list_dev_ok accept_lib_ok by (simp add: poll_env_ok_def sample_penv_def sample_cenv_def hash_ok_def)

lemma idle_lcore_ok: "lc_ok sample_penv idle_lcore"
  using idle_ctx_inv empty_inspect_inv
  by (simp add: lc_ok_def sample_penv_def idle_lcore_def sample_cenv_def tx_inv_def idle_tx_def RTE_MAX_ETHPORTS_def MAX_PKT_BURST_def)

lemma idle_lcore_all: "lc_all sample_penv idle_lcore = {#}"
  by (simp add: lc_all_def sample_penv_def idle_lcore_def sample_cenv_def tx_all_def idle_tx_def numeral_eq_Suc
      balance_def resident_def idle_ctx_def places_def list_dev_def)

lemma poll_loop_conserves_witness:
  "\<exists>lc. reaches sample_penv idle_lcore [(0, icmp_frame)] lc \<and> lc_all sample_penv lc = {#1#} + pids (tx_frags (lc_tx lc))"
proof -
  let ?r = "poll_queue sample_penv 0 100 [(0, icmp_frame)] idle_lcore"
  have "case ?r of Inl e \<Rightarrow> False | Inr x \<Rightarrow> True" by code_simp
  then obtain lc where r: "?r = Inr lc" by (auto split: sum.splits)
  have "poll_step sample_penv [(0, icmp_frame)] idle_lcore lc"
    by (rule poll_step.queue [OF _ r]) (simp add: MAX_PKT_BURST_def)
  from reaches.step [OF reaches.start this] have h: "reaches sample_penv idle_lcore [(0, icmp_frame)] lc" by simp
  have "pids (tx_frags (lc_tx idle_lcore)) = {#}" by (simp add: idle_lcore_def idle_tx_def)
  then show ?thesis
    using poll_loop_conserves [OF sample_penv_ok idle_lcore_ok h] h idle_lcore_all by (auto simp: icmp_frame_def)
qed

lemma drain_step_empties_witness:
  "\<exists>lc'. drain_all sample_penv (idle_lcore\<lparr>lc_tx := busy_tx\<rparr>) = Inr lc' \<and> (\<forall>b \<in> set (tx_bufs (lc_tx lc')). b = [])"
proof -
  let ?lc = "idle_lcore\<lparr>lc_tx := busy_tx\<rparr>"
  let ?r = "drain_all sample_penv ?lc"
  have "case ?r of Inl e \<Rightarrow> False | Inr x \<Rightarrow> True" by code_simp
  then obtain lc' where r: "?r = Inr lc'" by (auto split: sum.splits)
  have "lc_ok sample_penv ?lc"
    using idle_lcore_ok by (simp add: lc_ok_def tx_inv_def busy_tx_def idle_tx_def RTE_MAX_ETHPORTS_def MAX_PKT_BURST_def numeral_eq_Suc)
  from drain_step_empties [OF sample_penv_ok this r] r show ?thesis by blast
qed

lemma unprotected_port_truncated_witness:
  "is_unprotected_port 0x101 0 = Inr True \<and> is_unprotected_port 0x101 8 = Inr False"
  using unprotected_port_truncated [of 0 "0x101"] unprotected_port_truncated [of 8 "0x101"] by simp

end
