(* ===== verification/Args.thy ===== *)
theory Args
  imports Tokens
begin

text \<open>
  The command line of the gateway: \<open>parse_args\<close> of \<open>ipsec-secgw.c\<close> with its number parsers and the
  \<open>--config\<close> list of ports, queues and cores. \<open>getopt_long\<close> belongs to the system library: the model
  starts from the options it delivers, in order. \<open>rte_strsplit\<close> of DPDK is a parameter.
\<close>

section \<open>Numbers\<close>

text \<open>\<open>strtoul (s, &end, base)\<close>: the value, what \<open>end\<close> points to, and whether \<open>errno\<close> is \<open>ERANGE\<close>.\<close>

definition digit_of :: "char \<Rightarrow> nat option" where
  "digit_of c =
     (let n = of_char c :: nat in
      if 48 \<le> n \<and> n \<le> 57 then Some (n - 48)
      else if 97 \<le> n \<and> n \<le> 122 then Some (n - 87)
      else if 65 \<le> n \<and> n \<le> 90 then Some (n - 55)
      else None)"

definition is_digit :: "nat \<Rightarrow> char \<Rightarrow> bool" where
  "is_digit base c = (case digit_of c of Some d \<Rightarrow> d < base | None \<Rightarrow> False)"

fun digits_val :: "nat \<Rightarrow> int \<Rightarrow> string \<Rightarrow> int" where
  "digits_val base acc [] = acc"
| "digits_val base acc (c # cs) = digits_val base (acc * int base + int (the (digit_of c))) cs"

text \<open>The base in force and the digits that remain, after the sign.\<close>

definition strip_base :: "nat \<Rightarrow> string \<Rightarrow> nat \<times> string" where
  "strip_base base s =
     (let hex = (case s of a # x # c # _ \<Rightarrow> a = CHR ''0'' \<and> (x = CHR ''x'' \<or> x = CHR ''X'') \<and> is_digit 16 c | _ \<Rightarrow> False) in
      if base \<in> {0, 16} \<and> hex then (16, drop 2 s)
      else if base = 0 then ((case s of a # _ \<Rightarrow> if a = CHR ''0'' then 8 else 10 | [] \<Rightarrow> 10), s)
      else (base, s))"

definition strtoul :: "nat \<Rightarrow> string \<Rightarrow> int \<times> string \<times> bool" where
  "strtoul base s =
     (let s1 = dropWhile isspace s;
          neg = (case s1 of c # _ \<Rightarrow> c = CHR ''-'' | [] \<Rightarrow> False);
          s2 = (case s1 of c # cs \<Rightarrow> if c = CHR ''-'' \<or> c = CHR ''+'' then cs else s1 | [] \<Rightarrow> []);
          (b, s3) = strip_base base s2; ds = takeWhile (is_digit b) s3; v = digits_val b 0 ds
      in if ds = [] then (0, s, False)
         else if 2 ^ 64 \<le> v then (2 ^ 64 - 1, dropWhile (is_digit b) s3, True)
         else ((if neg then (2 ^ 64 - v) mod 2 ^ 64 else v), dropWhile (is_digit b) s3, False))"

text \<open>A number without sign and prefix.\<close>

lemma is_digit_ten [simp]: "isdigit c \<Longrightarrow> is_digit 10 c"
  by (auto simp: isdigit_def is_digit_def digit_of_def Let_def less_diff_conv2)

lemma digits_val_dec: "list_all isdigit s \<Longrightarrow> digits_val 10 (int acc) s = int (dec_val acc s)"
proof (induction s arbitrary: acc)
  case (Cons c s)
  then have "int acc * 10 + int (the (digit_of c)) = int (10 * acc + digit_val c)"
    by (simp add: isdigit_def digit_of_def digit_val_def Let_def)
  moreover have "digits_val 10 (int (10 * acc + digit_val c)) s = int (dec_val (10 * acc + digit_val c) s)"
    by (rule Cons.IH) (use Cons.prems in simp)
  ultimately show ?case by (simp del: of_nat_add of_nat_mult)
qed simp

lemma digits_val_nonneg: "0 \<le> acc \<Longrightarrow> 0 \<le> digits_val base acc s"
  by (induction base acc s rule: digits_val.induct) simp_all

lemma strtoul_range: "strtoul base s = (v, rest, err) \<Longrightarrow> 0 \<le> v \<and> v < 2 ^ 64"
  using digits_val_nonneg [of 0] by (auto simp: strtoul_def Let_def split: prod.splits if_splits)

lemma strtoul_digits:
  assumes "list_all isdigit s" and "s \<noteq> []" and "dec_val 0 s < 2 ^ 64"
  shows "strtoul 10 s = (int (dec_val 0 s), [], False)"
proof -
  obtain c cs where s: "s = c # cs" using assms(2) by (cases s) auto
  then have c: "isdigit c" using assms(1) by simp
  have sp: "dropWhile isspace s = s" using s isdigit_not_space [OF c] by simp
  have tw: "takeWhile (is_digit 10) s = s" "dropWhile (is_digit 10) s = []"
    using assms(1) by (simp_all add: takeWhile_eq_all_conv dropWhile_eq_Nil_conv list_all_iff)
  have b: "strip_base 10 s = (10, s)" by (simp add: strip_base_def Let_def)
  have sg: "(case s of c # _ \<Rightarrow> c = CHR ''-'' | [] \<Rightarrow> False) = False"
      "(case s of c # cs \<Rightarrow> if c = CHR ''-'' \<or> c = CHR ''+'' then cs else s | [] \<Rightarrow> []) = s"
    using isdigit_not_sign [OF c] s by simp_all
  show ?thesis
    using assms digits_val_dec [OF assms(1), of 0] by (simp add: strtoul_def Let_def sp sg b tw)
qed

text \<open>The results are C integers: \<open>None\<close> of \<open>parse_mask\<close> is \<open>-EINVAL\<close>, the other two return -1 themselves.\<close>

definition parse_mask :: "string \<Rightarrow> u64 option" where
  "parse_mask s = (case strtoul 0 s of (v, rest, err) \<Rightarrow> if err \<or> rest \<noteq> [] then None else Some (of_int v))"

definition parse_portmask :: "string \<Rightarrow> u32" where
  "parse_portmask s =
     (case strtoul 16 s of (v, rest, err) \<Rightarrow> if s = [] \<or> rest \<noteq> [] then - 1 else if v = 0 \<and> err then - 1 else of_int v)"

definition parse_decimal :: "string \<Rightarrow> int" where
  "parse_decimal s =
     (case strtoul 10 s of (v, rest, err) \<Rightarrow> if s = [] \<or> rest \<noteq> [] \<or> 2 ^ 63 - 1 < v then - 1 else v)"

lemma parse_decimal_show [simp]:
  assumes "n < 2 ^ 63"
  shows "parse_decimal (show_dec n) = int n"
  using assms by (simp add: parse_decimal_def strtoul_digits show_dec_digits)

lemma parse_decimal_range: "parse_decimal s = - 1 \<or> 0 \<le> parse_decimal s \<and> parse_decimal s < 2 ^ 63"
  using strtoul_range [of 10 s] by (cases "strtoul 10 s") (auto simp: parse_decimal_def)

section \<open>Ports, queues and cores\<close>

record lcore_params =
  lp_port :: u16
  lp_queue :: u8
  lp_lcore :: u8

definition MAX_LCORE_PARAMS :: nat where "MAX_LCORE_PARAMS = 1024"

text \<open>One field, and the text between parentheses; \<open>None\<close> is the return value -1.\<close>

definition config_field :: "string \<Rightarrow> int option" where
  "config_field s = (case strtoul 0 s of (v, rest, err) \<Rightarrow> if err \<or> rest = s \<or> 255 < v then None else Some v)"

definition config_entry :: "(string \<Rightarrow> string list) \<Rightarrow> string \<Rightarrow> lcore_params option" where
  "config_entry split s =
     (case split s of
        [p, q, l] \<Rightarrow>
          (case (config_field p, config_field q, config_field l) of
             (Some p, Some q, Some l) \<Rightarrow> Some \<lparr>lp_port = of_int p, lp_queue = of_int q, lp_lcore = of_int l\<rparr>
           | _ \<Rightarrow> None)
      | _ \<Rightarrow> None)"

text \<open>
  The loop of \<open>parse_config\<close>: what follows the next opening parenthesis up to the closing one. The
  search for the next entry starts at the closing parenthesis.
\<close>

function config_loop :: "(string \<Rightarrow> string list) \<Rightarrow> string \<Rightarrow> lcore_params list \<Rightarrow> lcore_params list option" where
  "config_loop split s acc =
     (case dropWhile (\<lambda>c. c \<noteq> CHR ''('') s of
        [] \<Rightarrow> Some acc
      | _ # p \<Rightarrow>
          (case dropWhile (\<lambda>c. c \<noteq> CHR '')'') p of
             [] \<Rightarrow> None
           | c # p0 \<Rightarrow>
               (let e = takeWhile (\<lambda>c. c \<noteq> CHR '')'') p in
                if 256 \<le> length e then None
                else case config_entry split e of
                  None \<Rightarrow> None
                | Some lp \<Rightarrow> if MAX_LCORE_PARAMS \<le> length acc then None else config_loop split (c # p0) (acc @ [lp]))))"
  by pat_completeness auto
termination
proof (relation "measure (\<lambda>(split, s, acc). length s)", goal_cases)
  case (2 split s acc a p c p0 e lp)
  have "length (dropWhile (\<lambda>c. c \<noteq> CHR ''('') s) \<le> length s" "length (dropWhile (\<lambda>c. c \<noteq> CHR '')'') p) \<le> length p"
    by (rule length_dropWhile_le)+
  then show ?case using 2 by simp
qed simp

declare config_loop.simps [simp del]

definition parse_config :: "(string \<Rightarrow> string list) \<Rightarrow> string \<Rightarrow> lcore_params list option" where
  "parse_config split s = config_loop split s []"

section \<open>Settings\<close>

datatype transfer_mode = Poll_mode | Event_mode
text \<open>\<open>Not_set\<close> is \<open>SCHED_TYPE_NOT_SET\<close>.\<close>

datatype sched_type = Ordered | Atomic | Parallel | Not_set

record settings =
  enabled_port_mask :: u32
  promiscuous_on :: bool
  unprotected_mask :: u32
  cfgfile :: "string option"
  nb_bufs_in_pool :: u32
  frame_buf_size :: u32
  sa_enable :: bool
  sa_window_size :: u32
  sa_esn :: bool
  sa_sqn_atom :: bool
  sa_cache_sz :: u32
  stats_interval :: u32
  lcore_cfg :: "lcore_params list option"
  single_sa :: "u32 option"
  cryptodev_mask :: u64
  eh_mode :: transfer_mode
  eh_driver :: bool
  eh_sched :: sched_type
  rx_offload :: u64
  tx_offload :: u64
  frag_tbl_sz :: u32
  mtu_size :: u32
  frag_ttl_ns :: u64
  event_vector :: bool
  vector_size :: u32
  vector_tmo_ns :: u64
  device_type :: "(nat \<times> nat \<times> nat \<times> nat \<times> u8) option"

definition default_settings :: settings where
  "default_settings =
     \<lparr>enabled_port_mask = 0, promiscuous_on = False, unprotected_mask = 0, cfgfile = None, nb_bufs_in_pool = 0,
      frame_buf_size = 2176, sa_enable = False, sa_window_size = 0, sa_esn = False, sa_sqn_atom = False, sa_cache_sz = 128,
      stats_interval = 0, lcore_cfg = None, single_sa = None, cryptodev_mask = - 1, eh_mode = Poll_mode, eh_driver = False,
      eh_sched = Not_set, rx_offload = - 1, tx_offload = - 1, frag_tbl_sz = 0, mtu_size = 1500, frag_ttl_ns = 10000000000,
      event_vector = False, vector_size = 16, vector_tmo_ns = 102400, device_type = None\<rparr>"

text \<open>The options as \<open>getopt_long\<close> delivers them.\<close>

datatype opt =
    Opt_p string | Opt_P | Opt_u string | Opt_d string | Opt_f string | Opt_s string | Opt_j string | Opt_l
  | Opt_w string | Opt_e | Opt_a | Opt_c string | Opt_t string
  | Opt_config string | Opt_single_sa string | Opt_cryptodev_mask string | Opt_transfer_mode string
  | Opt_schedule_type string | Opt_rxoffload string | Opt_txoffload string | Opt_reassemble string
  | Opt_mtu string | Opt_frag_ttl string | Opt_event_vector | Opt_vector_size string | Opt_vector_tmo string
  | Opt_unknown

definition parse_transfer_mode :: "string \<Rightarrow> transfer_mode option" where
  "parse_transfer_mode s = (if s = ''poll'' then Some Poll_mode else if s = ''event'' then Some Event_mode else None)"

definition parse_schedule_type :: "string \<Rightarrow> sched_type option" where
  "parse_schedule_type s =
     (if s = ''ordered'' then Some Ordered else if s = ''atomic'' then Some Atomic
      else if s = ''parallel'' then Some Parallel else None)"

text \<open>Number of ports, client port, cores of the kernel interface, last byte of its address.\<close>

definition config_hclos_lclos :: "string \<Rightarrow> (nat \<times> nat \<times> nat \<times> nat \<times> u8) option" where
  "config_hclos_lclos s =
     (if s = ''HCLOS'' then Some (4, 0, 4, 5, 1) else if s = ''LCLOS'' then Some (2, 0, 2, 3, 2) else None)"

text \<open>A decimal argument that must lie in a range, stored in a narrower variable.\<close>

definition dec_in :: "int \<Rightarrow> int \<Rightarrow> string \<Rightarrow> (int \<Rightarrow> settings) \<Rightarrow> settings option" where
  "dec_in lo hi s upd = (let v = parse_decimal s in if v < lo \<or> hi < v then None else Some (upd v))"

definition parse_opt :: "(string \<Rightarrow> string list) \<Rightarrow> opt \<Rightarrow> settings \<Rightarrow> settings option" where
  "parse_opt split oo st =
     (case oo of
        Opt_p a \<Rightarrow> (let m = parse_portmask a in if m = 0 then None else Some (st\<lparr>enabled_port_mask := m\<rparr>))
      | Opt_P \<Rightarrow> Some (st\<lparr>promiscuous_on := True\<rparr>)
      | Opt_u a \<Rightarrow> (let m = parse_portmask a in if m = 0 then None else Some (st\<lparr>unprotected_mask := m\<rparr>))
      | Opt_d a \<Rightarrow>
          (if device_type st \<noteq> None then None
           else case config_hclos_lclos a of None \<Rightarrow> None | Some d \<Rightarrow> Some (st\<lparr>device_type := Some d\<rparr>))
      | Opt_f a \<Rightarrow> (if cfgfile st \<noteq> None then None else Some (st\<lparr>cfgfile := Some a\<rparr>))
      | Opt_s a \<Rightarrow> dec_in 0 (2 ^ 63) a (\<lambda>v. st\<lparr>nb_bufs_in_pool := of_int v\<rparr>)
      | Opt_j a \<Rightarrow> dec_in 2176 65535 a (\<lambda>v. st\<lparr>frame_buf_size := of_int v\<rparr>)
      | Opt_l \<Rightarrow> Some (st\<lparr>sa_enable := True\<rparr>)
      | Opt_w a \<Rightarrow> Some (st\<lparr>sa_window_size := of_int (parse_decimal a)\<rparr>)
      | Opt_e \<Rightarrow> Some (st\<lparr>sa_esn := True\<rparr>)
      | Opt_a \<Rightarrow> Some (st\<lparr>sa_enable := True, sa_sqn_atom := True\<rparr>)
      | Opt_c a \<Rightarrow> dec_in 0 (2 ^ 63) a (\<lambda>v. st\<lparr>sa_cache_sz := of_int v\<rparr>)
      | Opt_t a \<Rightarrow> dec_in 0 (2 ^ 63) a (\<lambda>v. st\<lparr>stats_interval := of_int v\<rparr>)
      | Opt_config a \<Rightarrow> (case parse_config split a of None \<Rightarrow> None | Some l \<Rightarrow> Some (st\<lparr>lcore_cfg := Some l\<rparr>))
      | Opt_single_sa a \<Rightarrow> dec_in 0 (2 ^ 32 - 1) a (\<lambda>v. st\<lparr>single_sa := Some (of_int v), eh_driver := True\<rparr>)
      | Opt_cryptodev_mask a \<Rightarrow>
          (let m = parse_portmask a in if m = - 1 then None else Some (st\<lparr>cryptodev_mask := scast m\<rparr>))
      | Opt_transfer_mode a \<Rightarrow> (case parse_transfer_mode a of None \<Rightarrow> None | Some m \<Rightarrow> Some (st\<lparr>eh_mode := m\<rparr>))
      | Opt_schedule_type a \<Rightarrow> (case parse_schedule_type a of None \<Rightarrow> None | Some m \<Rightarrow> Some (st\<lparr>eh_sched := m\<rparr>))
      | Opt_rxoffload a \<Rightarrow> (case parse_mask a of None \<Rightarrow> None | Some m \<Rightarrow> Some (st\<lparr>rx_offload := m\<rparr>))
      | Opt_txoffload a \<Rightarrow> (case parse_mask a of None \<Rightarrow> None | Some m \<Rightarrow> Some (st\<lparr>tx_offload := m\<rparr>))
      | Opt_reassemble a \<Rightarrow> dec_in 0 (2 ^ 32 - 1) a (\<lambda>v. st\<lparr>frag_tbl_sz := of_int v\<rparr>)
      | Opt_mtu a \<Rightarrow> dec_in 0 65535 a (\<lambda>v. st\<lparr>mtu_size := of_int v\<rparr>)
      | Opt_frag_ttl a \<Rightarrow> dec_in 0 10000000000 a (\<lambda>v. st\<lparr>frag_ttl_ns := of_int v\<rparr>)
      | Opt_event_vector \<Rightarrow> Some (st\<lparr>event_vector := True\<rparr>)
      | Opt_vector_size a \<Rightarrow> dec_in (- 1) 32 a (\<lambda>v. st\<lparr>vector_size := of_int v\<rparr>)
      | Opt_vector_tmo a \<Rightarrow> Some (st\<lparr>vector_tmo_ns := of_int (parse_decimal a)\<rparr>)
      | Opt_unknown \<Rightarrow> None)"

fun parse_opts :: "(string \<Rightarrow> string list) \<Rightarrow> opt list \<Rightarrow> settings \<Rightarrow> settings option" where
  "parse_opts split [] st = Some st"
| "parse_opts split (oo # os) st = (case parse_opt split oo st of None \<Rightarrow> None | Some st' \<Rightarrow> parse_opts split os st')"

definition multi_seg_required :: "settings \<Rightarrow> bool" where
  "multi_seg_required st \<longleftrightarrow> frame_buf_size st < mtu_size st + 14 + 4 + 128 \<or> frag_tbl_sz st \<noteq> 0"

definition parse_args :: "(string \<Rightarrow> string list) \<Rightarrow> opt list \<Rightarrow> settings option" where
  "parse_args split os =
     (case parse_opts split os default_settings of
        None \<Rightarrow> None
      | Some st \<Rightarrow>
          (if cfgfile st = None then None
           else Some (if multi_seg_required st then st\<lparr>sa_enable := True\<rparr> else st)))"


section \<open>The configuration list is read back\<close>

lemma hd_show_dec: "n \<noteq> 0 \<Longrightarrow> hd (show_dec n) \<noteq> CHR ''0''"
proof (induction n rule: show_dec.induct)
  case (1 n)
  have z: "char_of (48 + n) \<noteq> CHR ''0''" if "n < 10"
  proof
    assume "char_of (48 + n) = CHR ''0''"
    then have "of_char (char_of (48 + n)) = (of_char CHR ''0'' :: nat)" by (rule arg_cong)
    then show False using that 1 by simp
  qed
  show ?case
  proof (cases "n < 10")
    case True
    then show ?thesis using z by (subst show_dec.simps) simp
  next
    case False
    then have "hd (show_dec (n div 10)) \<noteq> CHR ''0''" using 1 by simp
    then show ?thesis using False by (subst show_dec.simps) simp
  qed
qed

lemma strip_base_nz: "c \<noteq> CHR ''0'' \<Longrightarrow> strip_base 0 (c # cs) = (10, c # cs)"
  by (cases cs; cases "tl cs") (simp_all add: strip_base_def Let_def)

lemma strip_base_show:
  "strip_base 0 (show_dec n) = (if n = 0 then 8 else 10, show_dec n)"
proof (cases "n = 0")
  case True
  have "show_dec 0 = ''0''" by code_simp
  then show ?thesis using True by (simp add: strip_base_def Let_def)
next
  case False
  then obtain c cs where "show_dec n = c # cs" "c \<noteq> CHR ''0''"
    using hd_show_dec [of n] by (cases "show_dec n") auto
  then show ?thesis using False strip_base_nz by simp
qed

lemma strtoul_show:
  assumes "n < 2 ^ 64"
  shows "strtoul 0 (show_dec n) = (int n, [], False)"
proof (cases "n = 0")
  case True
  have "show_dec 0 = ''0''" by code_simp
  moreover have "strtoul 0 ''0'' = (0, [], False)"
    by (simp add: strtoul_def strip_base_def is_digit_def digit_of_def isspace_def Let_def)
  ultimately show ?thesis using True by simp
next
  case False
  have "strtoul 10 (show_dec n) = (int n, [], False)"
    using assms by (simp add: strtoul_digits show_dec_digits)
  moreover have "strtoul 0 (show_dec n) = strtoul 10 (show_dec n)"
  proof -
    obtain c cs where s: "show_dec n = c # cs" by (cases "show_dec n") auto
    then have "isdigit c" using show_dec_digits [of n] by simp
    then have sg: "\<not> isspace c" "c \<noteq> CHR ''-''" "c \<noteq> CHR ''+''" using isdigit_not_space isdigit_not_sign by auto
    have "strip_base 0 (c # cs) = strip_base 10 (c # cs)"
      using strip_base_show [of n] False s by (simp add: strip_base_def [of 10] Let_def)
    then show ?thesis using s sg by (simp add: strtoul_def Let_def)
  qed
  ultimately show ?thesis by simp
qed

lemma config_field_show [simp]: "n < 256 \<Longrightarrow> config_field (show_dec n) = Some (int n)"
  by (simp add: config_field_def strtoul_show not_sym [OF show_dec_nonempty])

text \<open>The text of one entry and of a list of entries.\<close>

definition fields_text :: "lcore_params \<Rightarrow> string" where
  "fields_text lp =
     show_dec (unat (lp_port lp)) @ CHR '','' # show_dec (unat (lp_queue lp)) @ CHR '','' # show_dec (unat (lp_lcore lp))"

fun config_text :: "lcore_params list \<Rightarrow> string" where
  "config_text [] = []"
| "config_text (lp # lps) = CHR ''('' # fields_text lp @ CHR '')'' # (if lps = [] then [] else CHR '','' # config_text lps)"

text \<open>\<open>rte_strsplit\<close> with three fields and a comma.\<close>

definition splits3 :: "(string \<Rightarrow> string list) \<Rightarrow> bool" where
  "splits3 split \<longleftrightarrow>
     (\<forall>p q r. CHR '','' \<notin> set p \<and> CHR '','' \<notin> set q \<and> CHR '','' \<notin> set r \<longrightarrow>
        split (p @ CHR '','' # q @ CHR '','' # r) = [p, q, r])"

lemma show_dec_no_sep:
  "CHR '','' \<notin> set (show_dec n)" "CHR '')'' \<notin> set (show_dec n)" "CHR ''('' \<notin> set (show_dec n)"
  using show_dec_digits [of n] by (auto simp: list_all_iff isdigit_def)

lemma length_show_dec: "n < 10 ^ Suc k \<Longrightarrow> length (show_dec n) \<le> Suc k"
proof (induction k arbitrary: n)
  case 0
  then show ?case by (subst show_dec.simps) simp
next
  case (Suc k)
  then have "length (show_dec (n div 10)) \<le> Suc k" by (intro Suc.IH) (simp add: div_less_iff_less_mult)
  then show ?case by (subst show_dec.simps) simp
qed

lemma config_entry_text:
  assumes "splits3 split" and "unat (lp_port lp) < 256"
  shows "config_entry split (fields_text lp) = Some lp"
proof -
  have "split (fields_text lp) = [show_dec (unat (lp_port lp)), show_dec (unat (lp_queue lp)), show_dec (unat (lp_lcore lp))]"
    using assms(1) show_dec_no_sep unfolding splits3_def fields_text_def by blast
  moreover have "unat (lp_queue lp) < 256" "unat (lp_lcore lp) < 256"
    by (rule unat_u8_less)+
  ultimately show ?thesis using assms(2) by (simp add: config_entry_def)
qed

lemma fields_text_ok:
  assumes "unat (lp_port lp) < 256"
  shows "CHR '')'' \<notin> set (fields_text lp)" "length (fields_text lp) < 256"
proof -
  show "CHR '')'' \<notin> set (fields_text lp)" using show_dec_no_sep by (simp add: fields_text_def)
  have "unat (lp_queue lp) < 256" "unat (lp_lcore lp) < 256"
    by (rule unat_u8_less)+
  then have "length (show_dec (unat (lp_port lp))) \<le> 3" "length (show_dec (unat (lp_queue lp))) \<le> 3"
      "length (show_dec (unat (lp_lcore lp))) \<le> 3"
    using assms length_show_dec [of _ 2] by (simp_all add: numeral_eq_Suc)
  then show "length (fields_text lp) < 256" by (simp add: fields_text_def)
qed

lemma dropWhile_sep: "c \<notin> set xs \<Longrightarrow> dropWhile (\<lambda>x. x \<noteq> c) (xs @ c # ys) = c # ys"
  by (induction xs) auto

lemma takeWhile_sep: "c \<notin> set xs \<Longrightarrow> takeWhile (\<lambda>x. x \<noteq> c) (xs @ c # ys) = xs"
  by (induction xs) auto

lemma config_loop_entry:
  assumes "CHR ''('' \<notin> set pre" and "CHR '')'' \<notin> set e" and "length e < 256" and "config_entry split e = Some lp"
    and "length acc < 1024"
  shows "config_loop split (pre @ CHR ''('' # e @ CHR '')'' # rest) acc = config_loop split (CHR '')'' # rest) (acc @ [lp])"
  using assms
  by (subst config_loop.simps) (simp add: dropWhile_sep takeWhile_sep MAX_LCORE_PARAMS_def Let_def)

lemma config_loop_text:
  assumes "splits3 split"
  shows "\<lbrakk>\<forall>lp\<in>set lps. unat (lp_port lp) < 256; CHR ''('' \<notin> set pre; length acc + length lps \<le> 1024\<rbrakk> \<Longrightarrow>
    config_loop split (pre @ config_text lps) acc = Some (acc @ lps)"
proof (induction lps arbitrary: pre acc)
  case Nil
  then have "dropWhile (\<lambda>c. c \<noteq> CHR ''('') pre = []" by (auto simp: dropWhile_eq_Nil_conv)
  then show ?case by (subst config_loop.simps) (simp del: dropWhile_eq_Nil_conv)
next
  case (Cons lp lps)
  let ?rest = "if lps = [] then [] else CHR '','' # config_text lps"
  have rest: "CHR '')'' # ?rest = (if lps = [] then '')'' else ''),'') @ config_text lps" by simp
  have "config_loop split (pre @ config_text (lp # lps)) acc = config_loop split (CHR '')'' # ?rest) (acc @ [lp])"
    using Cons.prems fields_text_ok [of lp] config_entry_text [OF assms, of lp]
    by (simp add: config_loop_entry)
  also have "\<dots> = Some ((acc @ [lp]) @ lps)"
    unfolding rest by (rule Cons.IH) (use Cons.prems in auto)
  finally show ?case by simp
qed

definition sample_split :: "string \<Rightarrow> string list" where
  "sample_split s =
     (let r = tl (dropWhile (\<lambda>c. c \<noteq> CHR '','') s) in
      [takeWhile (\<lambda>c. c \<noteq> CHR '','') s, takeWhile (\<lambda>c. c \<noteq> CHR '','') r, tl (dropWhile (\<lambda>c. c \<noteq> CHR '','') r)])"

lemma sample_split_ok: "splits3 sample_split"
  by (simp add: splits3_def sample_split_def takeWhile_sep dropWhile_sep Let_def)

text \<open>
  A list of ports, queues and cores written as \<open>(port,queue,lcore),...\<close> is read back by \<open>parse_config\<close>, up
  to 1024 entries: every field keeps its value and the entries keep their order.
\<close>

theorem parse_config_roundtrip:
  assumes "splits3 split" and "\<forall>lp\<in>set lps. unat (lp_port lp) < 256" and "length lps \<le> 1024"
  shows "parse_config split (config_text lps) = Some lps"
  using config_loop_text [OF assms(1), of lps "[]" "[]"] assms(2,3) by (simp add: parse_config_def)

lemma parse_config_roundtrip_witness:
  "parse_config sample_split (config_text
     [\<lparr>lp_port = 0, lp_queue = 0, lp_lcore = 1\<rparr>, \<lparr>lp_port = 1, lp_queue = 2, lp_lcore = 255\<rparr>]) =
   Some [\<lparr>lp_port = 0, lp_queue = 0, lp_lcore = 1\<rparr>, \<lparr>lp_port = 1, lp_queue = 2, lp_lcore = 255\<rparr>]"
  by (rule parse_config_roundtrip) (simp_all add: sample_split_ok)


section \<open>What an accepted command line guarantees\<close>

definition lcore_ok :: "lcore_params \<Rightarrow> bool" where
  "lcore_ok lp \<longleftrightarrow> unat (lp_port lp) < 256"

definition settings_ok :: "settings \<Rightarrow> bool" where
  "settings_ok st \<longleftrightarrow>
     unat (mtu_size st) \<le> 65535 \<and> 2176 \<le> unat (frame_buf_size st) \<and> unat (frame_buf_size st) \<le> 65535 \<and>
     unat (frag_ttl_ns st) \<le> 10000000000 \<and> (vector_size st = - 1 \<or> unat (vector_size st) \<le> 32) \<and>
     (case lcore_cfg st of None \<Rightarrow> True | Some l \<Rightarrow> length l \<le> 1024 \<and> list_all lcore_ok l) \<and>
     (single_sa st \<noteq> None \<longleftrightarrow> eh_driver st) \<and> (sa_sqn_atom st \<longrightarrow> sa_enable st)"

lemma dec_in_cases:
  assumes "dec_in lo hi s upd = Some st'"
  obtains v where "lo \<le> v" and "v \<le> hi" and "st' = upd v"
proof (rule that [of "parse_decimal s"])
qed (use assms in \<open>auto simp: dec_in_def Let_def split: if_splits\<close>)

lemma unat_of_int_small:
  assumes "0 \<le> v" and "v < 2 ^ LENGTH('a)"
  shows "unat (of_int v :: 'a::len word) = nat v"
proof -
  have "uint (of_int v :: 'a word) = v" using assms by (simp add: unsigned_of_int take_bit_int_eq_self)
  then show ?thesis by (metis nat_uint_eq)
qed

lemma unat_of_int_le:
  assumes "0 \<le> v" and "v \<le> int n" and "n < 2 ^ LENGTH('a)"
  shows "unat (of_int v :: 'a::len word) \<le> n"
proof -
  have "int n < 2 ^ LENGTH('a)" using assms(3) by (metis of_nat_less_iff of_nat_numeral of_nat_power)
  then have "v < 2 ^ LENGTH('a)" using assms(2) by (rule le_less_trans [rotated])
  then have "unat (of_int v :: 'a word) = nat v" using assms(1) by (intro unat_of_int_small)
  then show ?thesis using assms(1,2) by linarith
qed

lemma config_field_range: "config_field s = Some v \<Longrightarrow> 0 \<le> v \<and> v \<le> 255"
  using strtoul_range [of 0 s] by (cases "strtoul 0 s") (auto simp: config_field_def split: if_splits)

lemma config_entry_ok: "config_entry split s = Some lp \<Longrightarrow> lcore_ok lp"
  using unat_of_int_le [where 'a = 16 and n = 255]
  by (auto simp: config_entry_def lcore_ok_def less_Suc_eq_le [of _ 255, simplified]
      dest!: config_field_range split: list.splits option.splits)

lemma config_loop_ok:
  "\<lbrakk>config_loop split s acc = Some l; list_all lcore_ok acc; length acc \<le> 1024\<rbrakk> \<Longrightarrow> length l \<le> 1024 \<and> list_all lcore_ok l"
proof (induction split s acc rule: config_loop.induct)
  case (1 split s acc)
  from 1(2) show ?case
    by (subst (asm) config_loop.simps)
      (use 1(1,3,4) in \<open>auto simp: Let_def MAX_LCORE_PARAMS_def dest: config_entry_ok split: list.splits if_splits option.splits\<close>)
qed

lemma default_settings_ok: "settings_ok default_settings"
  by (simp add: settings_ok_def default_settings_def)

text \<open>Fields without a bound.\<close>

lemma settings_ok_free [simp]:
  "settings_ok (st\<lparr>enabled_port_mask := m\<rparr>) = settings_ok st" "settings_ok (st\<lparr>promiscuous_on := b\<rparr>) = settings_ok st"
  "settings_ok (st\<lparr>unprotected_mask := m\<rparr>) = settings_ok st" "settings_ok (st\<lparr>cfgfile := f\<rparr>) = settings_ok st"
  "settings_ok (st\<lparr>nb_bufs_in_pool := m\<rparr>) = settings_ok st" "settings_ok (st\<lparr>sa_window_size := m\<rparr>) = settings_ok st"
  "settings_ok (st\<lparr>sa_esn := b\<rparr>) = settings_ok st" "settings_ok (st\<lparr>sa_cache_sz := m\<rparr>) = settings_ok st"
  "settings_ok (st\<lparr>stats_interval := m\<rparr>) = settings_ok st" "settings_ok (st\<lparr>cryptodev_mask := c\<rparr>) = settings_ok st"
  "settings_ok (st\<lparr>eh_mode := t\<rparr>) = settings_ok st" "settings_ok (st\<lparr>eh_sched := sc\<rparr>) = settings_ok st"
  "settings_ok (st\<lparr>rx_offload := c\<rparr>) = settings_ok st" "settings_ok (st\<lparr>tx_offload := c\<rparr>) = settings_ok st"
  "settings_ok (st\<lparr>frag_tbl_sz := m\<rparr>) = settings_ok st" "settings_ok (st\<lparr>event_vector := b\<rparr>) = settings_ok st"
  "settings_ok (st\<lparr>vector_tmo_ns := c\<rparr>) = settings_ok st" "settings_ok (st\<lparr>device_type := d\<rparr>) = settings_ok st"
  by (simp_all add: settings_ok_def)

lemma settings_ok_flags [simp]:
  "settings_ok (st\<lparr>single_sa := Some i, eh_driver := True\<rparr>) = settings_ok (st\<lparr>single_sa := None, eh_driver := False\<rparr>)"
  "settings_ok st \<Longrightarrow> settings_ok (st\<lparr>single_sa := None, eh_driver := False\<rparr>)"
  "settings_ok st \<Longrightarrow> settings_ok (st\<lparr>sa_enable := True\<rparr>)" "settings_ok st \<Longrightarrow> settings_ok (st\<lparr>sa_enable := True, sa_sqn_atom := True\<rparr>)"
  by (simp_all add: settings_ok_def)

lemma parse_opt_ok:
  assumes "settings_ok st" and "parse_opt split oo st = Some st'"
  shows "settings_ok st'"
proof (cases oo)
  case (Opt_config a)
  then obtain l where l: "parse_config split a = Some l" "st' = st\<lparr>lcore_cfg := Some l\<rparr>"
    using assms(2) by (auto simp: parse_opt_def split: option.splits)
  then have "length l \<le> 1024 \<and> list_all lcore_ok l" using config_loop_ok [of split a "[]" l] by (simp add: parse_config_def)
  then show ?thesis using assms(1) l by (simp add: settings_ok_def)
next
  case (Opt_j a)
  then obtain v where v: "2176 \<le> v" "v \<le> 65535" "st' = st\<lparr>frame_buf_size := of_int v\<rparr>"
    using assms(2) by (auto simp: parse_opt_def elim: dec_in_cases)
  then have "unat (of_int v :: u32) = nat v"
    by (intro unat_of_int_small) simp_all
  moreover have "2176 \<le> nat v" "nat v \<le> 65535" using v by linarith+
  ultimately show ?thesis using assms(1) v by (simp add: settings_ok_def)
next
  case (Opt_mtu a)
  then show ?thesis using assms unat_of_int_le [where 'a = 32 and n = 65535]
    by (auto simp: parse_opt_def settings_ok_def elim!: dec_in_cases)
next
  case (Opt_frag_ttl a)
  then show ?thesis using assms unat_of_int_le [where 'a = 64 and n = 10000000000]
    by (auto simp: parse_opt_def settings_ok_def elim!: dec_in_cases)
next
  case (Opt_vector_size a)
  then obtain v where v: "- 1 \<le> v" "v \<le> 32" "st' = st\<lparr>vector_size := of_int v\<rparr>"
    using assms(2) by (auto simp: parse_opt_def elim: dec_in_cases)
  then have "v = - 1 \<or> unat (of_int v :: u32) \<le> 32" using unat_of_int_le [of v 32, where 'a = 32] by fastforce
  then show ?thesis using assms(1) v by (auto simp: settings_ok_def)
qed (use assms in \<open>auto simp: parse_opt_def Let_def elim!: dec_in_cases split: option.splits if_splits\<close>)

lemma parse_opts_ok: "\<lbrakk>settings_ok st; parse_opts split os st = Some st'\<rbrakk> \<Longrightarrow> settings_ok st'"
  by (induction split os st rule: parse_opts.induct) (auto split: option.splits dest: parse_opt_ok)

text \<open>
  C21. An accepted command line leaves settings inside their bounds, whatever the options and their
  order: a configuration file is named, the MTU and the frame buffer fit 16 bits and the buffer has at least
  the default size, the fragment lifetime is at most ten seconds, the list of cores has at most 1024 entries
  with ports below 256, the vector size is at most 32 or \<open>-1\<close> stored in an unsigned field, driver mode
  and a single SA go together, and the library mode is on whenever sequence numbers are atomic or
  a packet may need more than one segment.
\<close>

theorem parse_args_ok:
  assumes "parse_args split os = Some st"
  shows "settings_ok st \<and> cfgfile st \<noteq> None \<and> (multi_seg_required st \<longrightarrow> sa_enable st)"
proof -
  obtain st0 where st0: "parse_opts split os default_settings = Some st0" "cfgfile st0 \<noteq> None"
      "st = (if multi_seg_required st0 then st0\<lparr>sa_enable := True\<rparr> else st0)"
    using assms by (auto simp: parse_args_def split: option.splits if_splits)
  then have ok: "settings_ok st0" using parse_opts_ok [OF default_settings_ok] by blast
  have "settings_ok st" "cfgfile st \<noteq> None" using ok st0(2,3) by simp_all
  moreover have "multi_seg_required st \<longrightarrow> sa_enable st" using st0(3) by (auto simp: multi_seg_required_def)
  ultimately show ?thesis by blast
qed

lemma parse_args_ok_witness:
  "case parse_args sample_split [Opt_p ''3'', Opt_u ''1'', Opt_config ''(0,0,1),(1,0,2)'', Opt_mtu ''9000'', Opt_f ''ep0.cfg''] of
     None \<Rightarrow> False
   | Some st \<Rightarrow> settings_ok st \<and> sa_enable st \<and> cfgfile st = Some ''ep0.cfg'' \<and> unprotected_mask st = 1"
proof -
  define cmd where "cmd = [Opt_p ''3'', Opt_u ''1'', Opt_config ''(0,0,1),(1,0,2)'', Opt_mtu ''9000'', Opt_f ''ep0.cfg'']"
  have "case parse_args sample_split cmd of None \<Rightarrow> False
     | Some st \<Rightarrow> sa_enable st \<and> cfgfile st = Some ''ep0.cfg'' \<and> unprotected_mask st = 1"
    unfolding cmd_def by code_simp
  then show ?thesis
    unfolding cmd_def [symmetric] using parse_args_ok [of sample_split cmd] by (simp split: option.splits)
qed

text \<open>
  A port mask that is no number is not an error: \<open>parse_portmask\<close> returns -1, the option only tests for 0, and
  the mask enables every port.
\<close>

lemma malformed_portmask:
  assumes "s = [] \<or> fst (snd (strtoul 16 s)) \<noteq> []"
  shows "parse_opt split (Opt_p s) st = Some (st\<lparr>enabled_port_mask := - 1\<rparr>)"
    and "parse_opt split (Opt_u s) st = Some (st\<lparr>unprotected_mask := - 1\<rparr>)"
    and "parse_opt split (Opt_cryptodev_mask s) st = None"
proof -
  have "parse_portmask s = - 1" using assms by (auto simp: parse_portmask_def split: prod.splits)
  then show "parse_opt split (Opt_p s) st = Some (st\<lparr>enabled_port_mask := - 1\<rparr>)"
      "parse_opt split (Opt_u s) st = Some (st\<lparr>unprotected_mask := - 1\<rparr>)" "parse_opt split (Opt_cryptodev_mask s) st = None"
    by (simp_all add: parse_opt_def Let_def)
qed

text \<open>A malformed window size is stored as \<open>2 ^ 32 - 1\<close>.\<close>

lemma malformed_window:
  "parse_opt split (Opt_w ''x'') st = Some (st\<lparr>sa_window_size := - 1\<rparr>)"
proof -
  have "parse_decimal ''x'' = - 1"
    by (simp add: parse_decimal_def strtoul_def strip_base_def is_digit_def digit_of_def isspace_def Let_def)
  then show ?thesis by (simp add: parse_opt_def)
qed

end
