(* ===== verification/Worker.thy ===== *)
theory Worker
  imports Poll_Props Args
begin

text \<open>
  The event-mode workers, \<open>ipsec_worker.c\<close>: the NIC does the IPsec processing (inline protocol) and
  the worker checks policies, routes and forwards, one packet or one vector of packets at a time, in
  application mode or in driver mode. Frames keep their Ethernet header here. The packet type found
  by the NIC comes with the packet; the SA the NIC attaches to a decrypted packet is a parameter, as
  are the classifier, the routing tables, the metadata of the security session, and whether the Tx
  adapter takes an event: its answer is ignored by the code, what it refuses is lost (\<open>ev_lost\<close>).
  The queue number the code stores for the Tx adapter is always 0 and is not kept.
\<close>

section \<open>Packet types\<close>

datatype pkt_type = PLAIN_IPV4 | IPSEC_IPV4 | PLAIN_IPV6 | IPSEC_IPV6 | PKT_INVALID

definition process_ipsec_get_pkt_type :: "u32 \<Rightarrow> pkt_type" where
  "process_ipsec_get_pkt_type t =
     (let esp = (t AND RTE_PTYPE_TUNNEL_MASK = RTE_PTYPE_TUNNEL_ESP) in
      if t AND RTE_PTYPE_L3_IPV4 \<noteq> 0 then (if esp then IPSEC_IPV4 else PLAIN_IPV4)
      else if t AND RTE_PTYPE_L3_IPV6 \<noteq> 0 then (if esp then IPSEC_IPV6 else PLAIN_IPV6)
      else PKT_INVALID)"

section \<open>Surroundings\<close>

text \<open>\<open>ee_junk\<close> is what the stack holds where the driver-mode table is put.\<close>

record ev_env =
  ee_ethaddr :: "ethaddr_info list"
  ee_lpm4 :: "u32 \<Rightarrow> u8 option"
  ee_lpm6 :: "u8 list \<Rightarrow> u8 option"
  ee_sp4_in :: acl
  ee_sp6_in :: acl
  ee_sp4_out :: acl
  ee_sp6_out :: acl
  ee_sas_in :: "ipsec_sa list"
  ee_sas_out :: "ipsec_sa list"
  ee_dyn :: "pkt \<Rightarrow> nat option"
  ee_mdata :: "nat option \<Rightarrow> mbuf \<Rightarrow> mbuf"
  ee_unprotected :: u32
  ee_junk :: "nat \<Rightarrow> nat option"
  ee_enq :: "pkt list list \<Rightarrow> pkt list \<Rightarrow> bool"

section \<open>Addresses and routes\<close>

text \<open>The addresses of the port are written over those of the frame.\<close>

definition update_mac_addrs :: "ev_env \<Rightarrow> pkt \<Rightarrow> nat \<Rightarrow> errno + pkt" where
  "update_mac_addrs env p port =
     (let b = m_bytes (pbuf p); e = ee_ethaddr env ! port in
      if length (ee_ethaddr env) \<le> port \<or> length b < 12 then Inl UB
      else Inr (p\<lparr>pbuf := (pbuf p)\<lparr>m_bytes := le_bytes6 (eth_dst e) @ le_bytes6 (eth_src e) @ drop 12 b\<rparr>\<rparr>))"

definition ipsec_event_pre_forward :: "pkt \<Rightarrow> nat \<Rightarrow> pkt" where
  "ipsec_event_pre_forward p port = p\<lparr>pbuf := (pbuf p)\<lparr>m_port := of_nat port\<rparr>\<rparr>"

definition ev_route4_pkt :: "ev_env \<Rightarrow> pkt \<Rightarrow> errno + nat" where
  "ev_route4_pkt env p =
     (let b = m_bytes (pbuf p) in
      if length b < 34 then Inl UB
      else Inr (case ee_lpm4 env (u32_of_bytes (b ! 30) (b ! 31) (b ! 32) (b ! 33)) of
          Some hop \<Rightarrow> unat hop
        | None \<Rightarrow> RTE_MAX_ETHPORTS))"

definition ev_route6_pkt :: "ev_env \<Rightarrow> pkt \<Rightarrow> errno + nat" where
  "ev_route6_pkt env p =
     (let b = m_bytes (pbuf p) in
      if length b < 54 then Inl UB
      else Inr (case ee_lpm6 env (take 16 (drop 38 b)) of Some hop \<Rightarrow> unat hop | None \<Rightarrow> RTE_MAX_ETHPORTS))"

definition get_route :: "ev_env \<Rightarrow> pkt \<Rightarrow> pkt_type \<Rightarrow> errno + nat" where
  "get_route env p ty =
     (if ty = PLAIN_IPV4 \<or> ty = IPSEC_IPV4 then ev_route4_pkt env p
      else if ty = PLAIN_IPV6 \<or> ty = IPSEC_IPV6 then ev_route6_pkt env p
      else Inr RTE_MAX_ETHPORTS)"

text \<open>The new addresses and the port of a packet that is to be sent.\<close>

definition to_port :: "ev_env \<Rightarrow> pkt \<Rightarrow> nat \<Rightarrow> errno + pkt" where
  "to_port env p port = map_sum id (\<lambda>p. ipsec_event_pre_forward p port) (update_mac_addrs env p port)"

section \<open>Policies\<close>

text \<open>The classifier reads after the Ethernet header.\<close>

definition ev_classify :: "(u8 list \<Rightarrow> u32) \<Rightarrow> bool \<Rightarrow> pkt \<Rightarrow> u32" where
  "ev_classify f v6 p = f (drop (14 + acl_ofs v6) (m_bytes (pbuf p)))"

text \<open>\<open>None\<close> is the return value 0: there is no database, or the rule is discard.\<close>

definition check_sp :: "acl \<Rightarrow> bool \<Rightarrow> pkt \<Rightarrow> u32 option" where
  "check_sp sp v6 p =
     (case sp of
        None \<Rightarrow> None
      | Some f \<Rightarrow>
          (let res = ev_classify f v6 p in
           if res = DISCARD then None else if res = BYPASS then Some (- 1) else Some (res - 1)))"

text \<open>The bulk checks: packets kept, packets to protect, packets freed.\<close>

fun sp_bulk_loop :: "(pkt \<Rightarrow> u32) \<Rightarrow> pkt list \<Rightarrow> pkt list \<times> (pkt \<times> u32) list \<times> pkt list" where
  "sp_bulk_loop cl [] = ([], [], [])"
| "sp_bulk_loop cl (p # ps) =
     (case sp_bulk_loop cl ps of
        (k, x, d) \<Rightarrow>
          (if cl p = DISCARD then (k, x, p # d)
           else if cl p = BYPASS then (p # k, x, d)
           else (k, (p, cl p - 1) # x, d)))"

definition check_sp_bulk :: "acl \<Rightarrow> bool \<Rightarrow> pkt list \<Rightarrow> pkt list \<times> (pkt \<times> u32) list \<times> pkt list" where
  "check_sp_bulk sp v6 ps = (case sp of None \<Rightarrow> (ps, [], []) | Some f \<Rightarrow> sp_bulk_loop (ev_classify f v6) ps)"

text \<open>Whether a packet of a protect rule is admitted; indices outside the SA context are not checked for.\<close>

definition sp_sa_admit :: "ev_env \<Rightarrow> u32 \<Rightarrow> pkt \<Rightarrow> errno + bool" where
  "sp_sa_admit env res p =
     (let sas = ee_sas_in env in
      if res = DISCARD then Inr False
      else if res = BYPASS then Inr True
      else case ee_dyn env p of
          None \<Rightarrow> Inr False
        | Some i \<Rightarrow>
            (if length sas \<le> i \<or> length sas \<le> unat (res - 1) then Inl UB
             else Inr (spi (sas ! i) = spi (sas ! unat (res - 1)))))"

fun sp_sa_bulk_loop :: "ev_env \<Rightarrow> (pkt \<Rightarrow> u32) \<Rightarrow> pkt list \<Rightarrow> errno + pkt list \<times> pkt list" where
  "sp_sa_bulk_loop env cl [] = Inr ([], [])"
| "sp_sa_bulk_loop env cl (p # ps) =
     (case sp_sa_admit env (cl p) p of
        Inl e \<Rightarrow> Inl e
      | Inr ok \<Rightarrow> map_sum id (\<lambda>(k, d). if ok then (p # k, d) else (k, p # d)) (sp_sa_bulk_loop env cl ps))"

definition check_sp_sa_bulk :: "ev_env \<Rightarrow> acl \<Rightarrow> bool \<Rightarrow> pkt list \<Rightarrow> errno + pkt list \<times> pkt list" where
  "check_sp_sa_bulk env sp v6 ps =
     (case sp of None \<Rightarrow> Inr (ps, []) | Some f \<Rightarrow> sp_sa_bulk_loop env (ev_classify f v6) ps)"

section \<open>One packet\<close>

text \<open>\<open>(True, p)\<close> is \<open>PKT_FORWARDED\<close>, \<open>(False, p)\<close> is \<open>PKT_DROPPED\<close>.\<close>

definition ev_send :: "ev_env \<Rightarrow> pkt \<Rightarrow> nat \<Rightarrow> errno + bool \<times> pkt" where
  "ev_send env p port = map_sum id (Pair True) (to_port env p port)"

definition route_and_send :: "ev_env \<Rightarrow> pkt_type \<Rightarrow> pkt \<Rightarrow> errno + bool \<times> pkt" where
  "route_and_send env ty p =
     (case get_route env p ty of
        Inl e \<Rightarrow> Inl e
      | Inr port \<Rightarrow> if port = RTE_MAX_ETHPORTS then Inr (False, p) else ev_send env p port)"

definition process_ipsec_ev_inbound :: "ev_env \<Rightarrow> rx_pkt \<Rightarrow> errno + bool \<times> pkt" where
  "process_ipsec_ev_inbound env = (\<lambda>(t, p).
     let ty = process_ipsec_get_pkt_type t; sas = ee_sas_in env;
         sp = (if ty = PLAIN_IPV4 then ee_sp4_in env else ee_sp6_in env);
         sa = (if rx_sec_offload (pbuf p) then ee_dyn env p else None)
     in if ty \<notin> {PLAIN_IPV4, PLAIN_IPV6} then Inr (False, p)
        else if rx_sec_offload (pbuf p) \<and> rx_sec_failed (pbuf p) then Inr (False, p)
        else case check_sp sp (ty = PLAIN_IPV6) p of
            None \<Rightarrow> Inr (False, p)
          | Some idx \<Rightarrow>
              (if idx = BYPASS then route_and_send env ty p
               else if length sas \<le> unat idx then Inr (False, p)
               else case sa of
                   None \<Rightarrow> Inr (False, p)
                 | Some i \<Rightarrow>
                     (if length sas \<le> i then Inl UB
                      else if spi (sas ! i) \<noteq> spi (sas ! unat idx) then Inr (False, p)
                      else route_and_send env ty p)))"

text \<open>The packet prepared for the NIC to encrypt: metadata of the session and the offload flag.\<close>

definition mark_out :: "ev_env \<Rightarrow> nat option \<Rightarrow> pkt \<Rightarrow> pkt" where
  "mark_out env s p = p\<lparr>pbuf := (ee_mdata env s (pbuf p))\<lparr>tx_sec_offload := True\<rparr>\<rparr>"

definition process_ipsec_ev_outbound :: "ev_env \<Rightarrow> rx_pkt \<Rightarrow> errno + bool \<times> pkt" where
  "process_ipsec_ev_outbound env = (\<lambda>(t, p).
     let ty = process_ipsec_get_pkt_type t; sas = ee_sas_out env;
         sp = (if ty = PLAIN_IPV4 then ee_sp4_out env else ee_sp6_out env)
     in if ty \<notin> {PLAIN_IPV4, PLAIN_IPV6} then Inr (False, p)
        else case check_sp sp (ty = PLAIN_IPV6) p of
            None \<Rightarrow> Inr (False, p)
          | Some idx \<Rightarrow>
              (if idx = BYPASS then
                 (case get_route env p ty of
                    Inl e \<Rightarrow> Inl e
                  | Inr port \<Rightarrow>
                      if port = RTE_MAX_ETHPORTS then Inr (False, p) else ev_send env (p\<lparr>p_l2_len := 14\<rparr>) port)
               else if length sas \<le> unat idx then Inr (False, p)
               else
                 (let sa = sas ! unat idx in
                  if ses_type (primary sa) \<noteq> TYPE_INLINE_PROTOCOL then Inr (False, p)
                  else ev_send env ((mark_out env (ses (primary sa)) p)\<lparr>p_l2_len := 14\<rparr>) (unat (portid sa)))))"

section \<open>Vectors\<close>

record ev_vec =
  attr_valid :: bool
  v_port :: u16
  v_queue :: u16
  v_pkts :: "pkt list"

definition ev_vector_attr_init :: "ev_vec \<Rightarrow> ev_vec" where
  "ev_vector_attr_init v = v\<lparr>attr_valid := True, v_port := 0xFFFF, v_queue := 0\<rparr>"

definition ev_vector_attr_update :: "ev_vec \<Rightarrow> pkt \<Rightarrow> ev_vec" where
  "ev_vector_attr_update v p =
     (if v_port v = 0xFFFF then v\<lparr>v_port := m_port (pbuf p)\<rparr>
      else if attr_valid v \<and> v_port v \<noteq> m_port (pbuf p) then v\<lparr>attr_valid := False\<rparr>
      else v)"

text \<open>A packet put into the vector; the state of the loops is the vector and the packets freed.\<close>

definition vec_put :: "ev_vec \<Rightarrow> pkt \<Rightarrow> ev_vec" where
  "vec_put v p = (ev_vector_attr_update v p)\<lparr>v_pkts := v_pkts v @ [p]\<rparr>"

definition route_step :: "ev_env \<Rightarrow> bool \<Rightarrow> pkt \<Rightarrow> ev_vec \<times> pkt list \<Rightarrow> errno + ev_vec \<times> pkt list" where
  "route_step env v6 p = (\<lambda>(v, d).
     case (if v6 then ev_route6_pkt env p else ev_route4_pkt env p) of
       Inl e \<Rightarrow> Inl e
     | Inr port \<Rightarrow>
         (if port = RTE_MAX_ETHPORTS then Inr (v, d @ [p])
          else map_sum id (\<lambda>p'. (vec_put v p', d)) (to_port env p port)))"

definition esp_step :: "ev_env \<Rightarrow> ipsec_sa list \<Rightarrow> pkt \<times> u32 \<Rightarrow> ev_vec \<times> pkt list \<Rightarrow> errno + ev_vec \<times> pkt list" where
  "esp_step env sas = (\<lambda>(p, idx) (v, d).
     if length sas \<le> unat idx then Inr (v, d @ [p])
     else
       (let sa = sas ! unat idx in
        if ses_type (primary sa) \<noteq> TYPE_INLINE_PROTOCOL then Inr (v, d @ [p])
        else map_sum id (\<lambda>p'. (vec_put v p', d)) (to_port env (mark_out env (ses (primary sa)) p) (unat (portid sa)))))"

definition ipsec_ev_route_pkts ::
  "ev_env \<Rightarrow> ipsec_sa list \<Rightarrow> pkt list \<Rightarrow> pkt list \<Rightarrow> (pkt \<times> u32) list \<Rightarrow> ev_vec \<times> pkt list \<Rightarrow> errno + ev_vec \<times> pkt list" where
  "ipsec_ev_route_pkts env sas p4 p6 xs st =
     (case run_all (route_step env False) p4 st of
        Inl e \<Rightarrow> Inl e
      | Inr st \<Rightarrow>
          (case run_all (route_step env True) p6 st of
             Inl e \<Rightarrow> Inl e
           | Inr st \<Rightarrow> run_all (esp_step env sas) xs st))"

text \<open>
  Classification: IPv4 packets, IPv6 packets and those freed. The outbound loop writes \<open>l2_len\<close> into
  every packet after it, also into one that has just been freed.
\<close>

definition classify_pkt :: "rx_pkt \<Rightarrow> pkt list \<times> pkt list \<times> pkt list \<Rightarrow> pkt list \<times> pkt list \<times> pkt list" where
  "classify_pkt = (\<lambda>(t, p) (p4, p6, d).
     case process_ipsec_get_pkt_type t of
       PLAIN_IPV4 \<Rightarrow> (p4 @ [p], p6, d)
     | PLAIN_IPV6 \<Rightarrow> (p4, p6 @ [p], d)
     | _ \<Rightarrow> (p4, p6, d @ [p]))"

definition in_vec_step :: "rx_pkt \<Rightarrow> pkt list \<times> pkt list \<times> pkt list \<Rightarrow> errno + pkt list \<times> pkt list \<times> pkt list" where
  "in_vec_step = (\<lambda>(t, p) (p4, p6, d).
     if rx_sec_offload (pbuf p) \<and> rx_sec_failed (pbuf p) then Inr (p4, p6, d @ [p])
     else Inr (classify_pkt (t, p) (p4, p6, d)))"

definition out_vec_step :: "rx_pkt \<Rightarrow> pkt list \<times> pkt list \<times> pkt list \<Rightarrow> errno + pkt list \<times> pkt list \<times> pkt list" where
  "out_vec_step = (\<lambda>(t, p) st.
     if process_ipsec_get_pkt_type t \<notin> {PLAIN_IPV4, PLAIN_IPV6} then Inl UB
     else Inr (classify_pkt (t, p\<lparr>p_l2_len := 14\<rparr>) st))"

text \<open>The vector left in the event, and the packets freed.\<close>

definition process_ipsec_ev_inbound_vector :: "ev_env \<Rightarrow> rx_pkt list \<Rightarrow> ev_vec \<Rightarrow> errno + ev_vec \<times> pkt list" where
  "process_ipsec_ev_inbound_vector env rs v =
     (case run_all in_vec_step rs ([], [], []) of
        Inl e \<Rightarrow> Inl e
      | Inr (p4, p6, d) \<Rightarrow>
          (case check_sp_sa_bulk env (ee_sp4_in env) False p4 of
             Inl e \<Rightarrow> Inl e
           | Inr (k4, d4) \<Rightarrow>
               (case check_sp_sa_bulk env (ee_sp6_in env) True p6 of
                  Inl e \<Rightarrow> Inl e
                | Inr (k6, d6) \<Rightarrow>
                    ipsec_ev_route_pkts env (ee_sas_in env) k4 k6 [] (v\<lparr>v_pkts := []\<rparr>, d @ d4 @ d6))))"

definition process_ipsec_ev_outbound_vector :: "ev_env \<Rightarrow> rx_pkt list \<Rightarrow> ev_vec \<Rightarrow> errno + ev_vec \<times> pkt list" where
  "process_ipsec_ev_outbound_vector env rs v =
     (case run_all out_vec_step rs ([], [], []) of
        Inl e \<Rightarrow> Inl e
      | Inr (p4, p6, d) \<Rightarrow>
          (case check_sp_bulk (ee_sp4_out env) False p4 of
             (k4, x4, d4) \<Rightarrow>
               (case check_sp_bulk (ee_sp6_out env) True p6 of
                  (k6, x6, d6) \<Rightarrow>
                    ipsec_ev_route_pkts env (ee_sas_out env) k4 k6 (x4 @ x6) (v\<lparr>v_pkts := []\<rparr>, d @ d4 @ d6))))"

section \<open>Driver mode\<close>

text \<open>
  The table of sessions by port: entries of a NULL session count as free. Only the first entry is
  cleared before the table is filled.
\<close>

definition drv_step :: "ipsec_sa \<Rightarrow> nat option list \<Rightarrow> nat option list" where
  "drv_step sa tab =
     (let port = unat (portid sa) in
      if ses_type (primary sa) \<noteq> TYPE_INLINE_PROTOCOL then tab
      else if length tab \<le> port then tab
      else if tab ! port \<noteq> None then tab
      else tab[port := ses (primary sa)])"

definition prepare_out_sessions_tbl :: "ipsec_sa list option \<Rightarrow> nat option list \<Rightarrow> nat option list" where
  "prepare_out_sessions_tbl sas tab = (case sas of None \<Rightarrow> tab | Some sas \<Rightarrow> fold drv_step sas tab)"

definition drv_table :: "ev_env \<Rightarrow> ipsec_sa list option \<Rightarrow> nat option list" where
  "drv_table env sas = prepare_out_sessions_tbl sas (None # map (ee_junk env) [1..<RTE_MAX_ETHPORTS])"

text \<open>A packet of a port without a session is freed; the answer is the packet to send.\<close>

definition drv_mark :: "ev_env \<Rightarrow> nat option list \<Rightarrow> pkt \<Rightarrow> errno + pkt option" where
  "drv_mark env tab p =
     (let port = unat (m_port (pbuf p)) in
      if length tab \<le> port then Inl UB
      else case tab ! port of
          None \<Rightarrow> Inr None
        | Some s \<Rightarrow> Inr (Some ((mark_out env (Some s) (ipsec_event_pre_forward p port))\<lparr>p_l2_len := 14\<rparr>)))"

fun process_ipsec_ev_drv_mode_outbound_vector :: "ev_env \<Rightarrow> nat option list \<Rightarrow> pkt list \<Rightarrow> errno + pkt list \<times> pkt list" where
  "process_ipsec_ev_drv_mode_outbound_vector env tab [] = Inr ([], [])"
| "process_ipsec_ev_drv_mode_outbound_vector env tab (p # ps) =
     (case drv_mark env tab p of
        Inl e \<Rightarrow> Inl e
      | Inr r \<Rightarrow>
          map_sum id (\<lambda>(k, d). case r of None \<Rightarrow> (k, p # d) | Some p' \<Rightarrow> (p' # k, d))
            (process_ipsec_ev_drv_mode_outbound_vector env tab ps))"

section \<open>Events\<close>

text \<open>
  What the workers do with an event. \<open>ev_sent\<close> are the bursts the Tx adapter took, \<open>ev_freed\<close> the
  packets freed, \<open>ev_lost\<close> those nobody owns any more.
\<close>

datatype event = Ev_pkt rx_pkt | Ev_vec "rx_pkt list" | Ev_other "rx_pkt list"

record ev_state =
  ev_sent :: "pkt list list"
  ev_freed :: "pkt list"
  ev_lost :: "pkt list"

definition tx_enqueue :: "ev_env \<Rightarrow> pkt list \<Rightarrow> ev_state \<Rightarrow> ev_state" where
  "tx_enqueue env ps s =
     (if ee_enq env (ev_sent s) ps then s\<lparr>ev_sent := ev_sent s @ [ps]\<rparr> else s\<lparr>ev_lost := ev_lost s @ ps\<rparr>)"

definition ev_free :: "pkt list \<Rightarrow> ev_state \<Rightarrow> ev_state" where
  "ev_free ps s = s\<lparr>ev_freed := ev_freed s @ ps\<rparr>"

text \<open>A vector without packets goes back to its pool.\<close>

definition ipsec_ev_vector_process :: "ev_env \<Rightarrow> rx_pkt list \<Rightarrow> ev_state \<Rightarrow> errno + ev_state" where
  "ipsec_ev_vector_process env rs s =
     (case rs of
        [] \<Rightarrow> Inl UB
      | r # _ \<Rightarrow>
          (let v = ev_vector_attr_init \<lparr>attr_valid = False, v_port = 0, v_queue = 0, v_pkts = map snd rs\<rparr> in
           case is_unprotected_port (ee_unprotected env) (unat (m_port (pbuf (snd r)))) of
             Inl e \<Rightarrow> Inl e
           | Inr unprot \<Rightarrow>
               (case (if unprot then process_ipsec_ev_inbound_vector env rs v else process_ipsec_ev_outbound_vector env rs v) of
                  Inl e \<Rightarrow> Inl e
                | Inr (v', d) \<Rightarrow>
                    Inr (if v_pkts v' \<noteq> [] then tx_enqueue env (v_pkts v') (ev_free d s) else ev_free d s))))"

definition ipsec_ev_vector_drv_mode_process :: "ev_env \<Rightarrow> nat option list \<Rightarrow> rx_pkt list \<Rightarrow> ev_state \<Rightarrow> errno + ev_state" where
  "ipsec_ev_vector_drv_mode_process env tab rs s =
     (case rs of
        [] \<Rightarrow> Inl UB
      | r # _ \<Rightarrow>
          (case is_unprotected_port (ee_unprotected env) (unat (m_port (pbuf (snd r)))) of
             Inl e \<Rightarrow> Inl e
           | Inr unprot \<Rightarrow>
               (case (if unprot then Inr (map snd rs, []) else process_ipsec_ev_drv_mode_outbound_vector env tab (map snd rs)) of
                  Inl e \<Rightarrow> Inl e
                | Inr (k, d) \<Rightarrow> Inr (if k \<noteq> [] then tx_enqueue env k (ev_free d s) else ev_free d s))))"

text \<open>One round of the loop of each worker.\<close>

definition app_mode_step :: "ev_env \<Rightarrow> event \<Rightarrow> ev_state \<Rightarrow> errno + ev_state" where
  "app_mode_step env ev s =
     (case ev of
        Ev_vec rs \<Rightarrow> ipsec_ev_vector_process env rs s
      | Ev_other rs \<Rightarrow> Inr (s\<lparr>ev_lost := ev_lost s @ map snd rs\<rparr>)
      | Ev_pkt r \<Rightarrow>
          (case is_unprotected_port (ee_unprotected env) (unat (m_port (pbuf (snd r)))) of
             Inl e \<Rightarrow> Inl e
           | Inr unprot \<Rightarrow>
               (case (if unprot then process_ipsec_ev_inbound env r else process_ipsec_ev_outbound env r) of
                  Inl e \<Rightarrow> Inl e
                | Inr (True, p) \<Rightarrow> Inr (tx_enqueue env [p] s)
                | Inr (False, p) \<Rightarrow> Inr (ev_free [p] s))))"

definition drv_mode_step :: "ev_env \<Rightarrow> nat option list \<Rightarrow> event \<Rightarrow> ev_state \<Rightarrow> errno + ev_state" where
  "drv_mode_step env tab ev s =
     (case ev of
        Ev_vec rs \<Rightarrow> ipsec_ev_vector_drv_mode_process env tab rs s
      | Ev_other rs \<Rightarrow> Inr (s\<lparr>ev_lost := ev_lost s @ map snd rs\<rparr>)
      | Ev_pkt r \<Rightarrow>
          (let port = unat (m_port (pbuf (snd r))); p = ipsec_event_pre_forward (snd r) port in
           case is_unprotected_port (ee_unprotected env) port of
             Inl e \<Rightarrow> Inl e
           | Inr True \<Rightarrow> Inr (tx_enqueue env [p] s)
           | Inr False \<Rightarrow>
               (case drv_mark env tab p of
                  Inl e \<Rightarrow> Inl e
                | Inr None \<Rightarrow> Inr (ev_free [p] s)
                | Inr (Some p') \<Rightarrow> Inr (tx_enqueue env [p'] s))))"

text \<open>The workers over the events they are given until they are told to stop.\<close>

definition app_mode_worker :: "ev_env \<Rightarrow> event list \<Rightarrow> ev_state \<Rightarrow> errno + ev_state" where
  "app_mode_worker env evs s = run_all (app_mode_step env) evs s"

definition drv_mode_worker :: "ev_env \<Rightarrow> ipsec_sa list option \<Rightarrow> event list \<Rightarrow> ev_state \<Rightarrow> errno + ev_state" where
  "drv_mode_worker env sas evs s = run_all (drv_mode_step env (drv_table env sas)) evs s"

section \<open>The role of a core\<close>

datatype role = Kni_rx | Kni_tx | Poll_worker | Event_worker

text \<open>The core of the kernel interface also starts the threads that flush the table, write the log and subscribe.\<close>

definition ipsec_launch_one_lcore :: "nat \<Rightarrow> nat \<Rightarrow> transfer_mode \<Rightarrow> nat \<Rightarrow> role" where
  "ipsec_launch_one_lcore kni_rx kni_tx mode lcore =
     (if lcore = kni_rx then Kni_rx else if lcore = kni_tx then Kni_tx
      else case mode of Poll_mode \<Rightarrow> Poll_worker | Event_mode \<Rightarrow> Event_worker)"

end
