(* ===== verification/Worker_Props.thy ===== *)
theory Worker_Props
  imports Worker
begin

text \<open>
  What the event-mode workers guarantee: the vector path and the single path agree, packets are
  admitted and protected as the policies say, every packet is accounted for, and what the session
  table of driver mode holds.
\<close>

section \<open>One packet\<close>

lemma to_port_pid: "to_port env p port = Inr p' \<Longrightarrow> pid p' = pid p"
  by (auto simp: to_port_def update_mac_addrs_def ipsec_event_pre_forward_def Let_def split: if_splits)

lemma mark_out_pid [simp]: "pid (mark_out env s p) = pid p"
  by (simp add: mark_out_def)

lemma to_port_frame:
  assumes "to_port env p port = Inr p'"
  shows "port < length (ee_ethaddr env)"
    and "m_bytes (pbuf p') = le_bytes6 (eth_dst (ee_ethaddr env ! port)) @ le_bytes6 (eth_src (ee_ethaddr env ! port)) @ drop 12 (m_bytes (pbuf p))"
    and "m_port (pbuf p') = of_nat port" and "tx_sec_offload (pbuf p') = tx_sec_offload (pbuf p)"
  using assms by (auto simp: to_port_def update_mac_addrs_def ipsec_event_pre_forward_def Let_def split: if_splits)

lemma to_port_marks:
  "to_port env p port = Inr p' \<Longrightarrow> m_port (pbuf p') = of_nat port \<and> tx_sec_offload (pbuf p') = tx_sec_offload (pbuf p)"
  using to_port_frame(3,4) by blast

lemma ev_send_iff: "ev_send env p port = Inr (b, p') \<longleftrightarrow> b \<and> to_port env p port = Inr p'"
  by (cases "to_port env p port") (auto simp: ev_send_def)

lemma route_and_send_forwarded:
  "route_and_send env ty p = Inr (True, p') \<longleftrightarrow>
     (\<exists>port. get_route env p ty = Inr port \<and> port \<noteq> RTE_MAX_ETHPORTS \<and> to_port env p port = Inr p')"
  by (auto simp: route_and_send_def ev_send_iff split: sum.splits)

lemma route_and_send_pid: "route_and_send env ty p = Inr (b, p') \<Longrightarrow> pid p' = pid p"
  by (auto simp: route_and_send_def ev_send_iff split: sum.splits if_splits dest: to_port_pid)

lemma process_ipsec_ev_inbound_pid: "process_ipsec_ev_inbound env (t, p) = Inr (b, p') \<Longrightarrow> pid p' = pid p"
  by (auto simp: process_ipsec_ev_inbound_def Let_def split: if_splits option.splits dest: route_and_send_pid)

lemma process_ipsec_ev_outbound_pid: "process_ipsec_ev_outbound env (t, p) = Inr (b, p') \<Longrightarrow> pid p' = pid p"
  by (auto simp: process_ipsec_ev_outbound_def ev_send_iff Let_def
      split: if_splits option.splits sum.splits dest!: to_port_pid)

text \<open>The decision of the policy database of a packet's family.\<close>

definition ev_policy :: "acl \<Rightarrow> bool \<Rightarrow> pkt \<Rightarrow> sp_action option" where
  "ev_policy sp v6 p = map_option (\<lambda>f. res_action (ev_classify f v6 p)) sp"

lemma check_sp_policy:
  "check_sp sp v6 p =
     (case ev_policy sp v6 p of
        None \<Rightarrow> None | Some Discard \<Rightarrow> None | Some Bypass \<Rightarrow> Some BYPASS | Some (Protect i) \<Rightarrow> Some i)"
  by (auto simp: check_sp_def ev_policy_def res_action_def Let_def split: option.splits)

lemma res_action_protect: "res_action w = Protect i \<Longrightarrow> i \<noteq> BYPASS"
  by (auto simp: res_action_def split: if_splits)

lemma ev_policy_protect: "ev_policy sp v6 p = Some (Protect i) \<Longrightarrow> i \<noteq> BYPASS"
  by (auto simp: ev_policy_def dest: res_action_protect)

text \<open>When the policies let a frame in, and when they let one out as it has become.\<close>

definition admitted_in :: "ev_env \<Rightarrow> rx_pkt \<Rightarrow> bool" where
  "admitted_in env = (\<lambda>(t, p).
     let ty = process_ipsec_get_pkt_type t; sas = ee_sas_in env; v6 = (ty = PLAIN_IPV6) in
     ty \<in> {PLAIN_IPV4, PLAIN_IPV6} \<and> \<not> (rx_sec_offload (pbuf p) \<and> rx_sec_failed (pbuf p)) \<and>
     (case ev_policy (if v6 then ee_sp6_in env else ee_sp4_in env) v6 p of
        Some Bypass \<Rightarrow> True
      | Some (Protect k) \<Rightarrow> rx_sec_offload (pbuf p) \<and> unat k < length sas \<and>
          (case ee_dyn env p of None \<Rightarrow> False | Some i \<Rightarrow> spi (sas ! i) = spi (sas ! unat k))
      | _ \<Rightarrow> False))"

definition admitted_out :: "ev_env \<Rightarrow> rx_pkt \<Rightarrow> pkt \<Rightarrow> bool" where
  "admitted_out env = (\<lambda>(t, p) p'.
     let ty = process_ipsec_get_pkt_type t; sas = ee_sas_out env; v6 = (ty = PLAIN_IPV6) in
     ty \<in> {PLAIN_IPV4, PLAIN_IPV6} \<and>
     (case ev_policy (if v6 then ee_sp6_out env else ee_sp4_out env) v6 p of
        Some Bypass \<Rightarrow> tx_sec_offload (pbuf p') = tx_sec_offload (pbuf p)
      | Some (Protect k) \<Rightarrow> unat k < length sas \<and>
          (let sa = sas ! unat k in
           ses_type (primary sa) = TYPE_INLINE_PROTOCOL \<and> tx_sec_offload (pbuf p') \<and> m_port (pbuf p') = portid sa)
      | _ \<Rightarrow> False))"

lemma inbound_admitted:
  assumes "\<forall>i. ee_dyn env p = Some i \<longrightarrow> i < length (ee_sas_in env)"
  shows "process_ipsec_ev_inbound env (t, p) =
    (if admitted_in env (t, p) then route_and_send env (process_ipsec_get_pkt_type t) p else Inr (False, p))"
proof (cases "ev_policy (if process_ipsec_get_pkt_type t = PLAIN_IPV6 then ee_sp6_in env else ee_sp4_in env)
    (process_ipsec_get_pkt_type t = PLAIN_IPV6) p")
  case None
  then show ?thesis
    by (auto simp: process_ipsec_ev_inbound_def admitted_in_def check_sp_policy Let_def split: if_splits)
next
  case (Some a)
  show ?thesis
  proof (cases a)
    case (Protect k)
    then have "k \<noteq> BYPASS" using Some by (auto dest: ev_policy_protect)
    then show ?thesis using Some Protect assms
      by (cases "ee_dyn env p")
        (auto simp: process_ipsec_ev_inbound_def admitted_in_def check_sp_policy Let_def split: if_splits)
  qed (use Some in \<open>auto simp: process_ipsec_ev_inbound_def admitted_in_def check_sp_policy Let_def split: if_splits\<close>)
qed

lemma outbound_admitted:
  assumes "process_ipsec_ev_outbound env (t, p) = Inr (True, p')"
  shows "admitted_out env (t, p) p'"
proof -
  let ?ty = "process_ipsec_get_pkt_type t"
  obtain a where a: "ev_policy (if ?ty = PLAIN_IPV6 then ee_sp6_out env else ee_sp4_out env) (?ty = PLAIN_IPV6) p = Some a"
    using assms by (auto simp: process_ipsec_ev_outbound_def check_sp_policy Let_def split: if_splits option.splits)
  show ?thesis
  proof (cases a)
    case (Protect k)
    then have "k \<noteq> BYPASS" using a by (auto dest: ev_policy_protect)
    then show ?thesis using a Protect assms
      by (auto simp: process_ipsec_ev_outbound_def admitted_out_def check_sp_policy ev_send_iff Let_def mark_out_def
          split: if_splits dest!: to_port_marks)
  qed (use a assms in \<open>auto simp: process_ipsec_ev_outbound_def admitted_out_def check_sp_policy ev_send_iff Let_def
         split: if_splits sum.splits dest!: to_port_marks\<close>)
qed

text \<open>
  C9. Application mode keeps to the policies, one packet at a time. With SAs of the context attached by the NIC, a
  packet from an unprotected port is routed exactly when it is plain IPv4 or IPv6, the NIC reports no
  failed decryption, a policy database exists, and its rule is bypass, or protect with the NIC having
  decrypted the packet under an SA that has the SPI of the rule's SA; else it is freed unchanged. A
  packet to an unprotected port leaves in clear only under a bypass rule; under a protect rule it
  leaves marked for encryption, on the port of the rule's SA, which is an inline-protocol SA.
\<close>

theorem app_mode_policy:
  assumes "\<forall>i. ee_dyn env p = Some i \<longrightarrow> i < length (ee_sas_in env)"
  shows "process_ipsec_ev_inbound env (t, p) =
      (if admitted_in env (t, p) then route_and_send env (process_ipsec_get_pkt_type t) p else Inr (False, p)) \<and>
    (process_ipsec_ev_outbound env (t, q) = Inr (True, q') \<longrightarrow> admitted_out env (t, q) q')"
  using inbound_admitted [OF assms] outbound_admitted by blast

section \<open>Vectors\<close>

text \<open>The packets of a list of frames of one type the single path forwards.\<close>

definition forwarded :: "ev_env \<Rightarrow> rx_pkt \<Rightarrow> pkt list" where
  "forwarded env r = (case process_ipsec_ev_inbound env r of Inr (True, p) \<Rightarrow> [p] | _ \<Rightarrow> [])"

definition of_type :: "pkt_type \<Rightarrow> rx_pkt list \<Rightarrow> rx_pkt list" where
  "of_type ty rs = filter (\<lambda>r. process_ipsec_get_pkt_type (fst r) = ty) rs"

definition decrypt_failed :: "pkt \<Rightarrow> bool" where
  "decrypt_failed p \<longleftrightarrow> rx_sec_offload (pbuf p) \<and> rx_sec_failed (pbuf p)"

lemma in_vec_run:
  assumes "run_all in_vec_step rs (a4, a6, a) = Inr (p4, p6, d)"
  shows "p4 = a4 @ map snd (filter (\<lambda>r. \<not> decrypt_failed (snd r)) (of_type PLAIN_IPV4 rs)) \<and>
    p6 = a6 @ map snd (filter (\<lambda>r. \<not> decrypt_failed (snd r)) (of_type PLAIN_IPV6 rs))"
  using assms
proof (induction rs arbitrary: a4 a6 a)
  case (Cons r rs)
  obtain t p where r: "r = (t, p)" by (cases r)
  obtain b4 b6 b where s: "in_vec_step r (a4, a6, a) = Inr (b4, b6, b)" "run_all in_vec_step rs (b4, b6, b) = Inr (p4, p6, d)"
    using Cons.prems by (cases "in_vec_step r (a4, a6, a)") auto
  from s(1) have "b4 = a4 @ map snd (filter (\<lambda>r. \<not> decrypt_failed (snd r)) (of_type PLAIN_IPV4 [r]))"
      "b6 = a6 @ map snd (filter (\<lambda>r. \<not> decrypt_failed (snd r)) (of_type PLAIN_IPV6 [r]))"
    by (cases "process_ipsec_get_pkt_type t";
        auto simp: r in_vec_step_def classify_pkt_def decrypt_failed_def of_type_def split: if_splits)+
  with Cons.IH [OF s(2)] show ?case by (simp add: of_type_def)
qed (simp add: of_type_def)

lemma sp_sa_bulk_loop_filter:
  "sp_sa_bulk_loop env cl ps = Inr (k, d) \<Longrightarrow>
     k = filter (\<lambda>p. sp_sa_admit env (cl p) p = Inr True) ps \<and> (\<forall>p\<in>set ps. \<exists>b. sp_sa_admit env (cl p) p = Inr b)"
  by (induction ps arbitrary: k d) (auto simp: map_sum_Inr_iff split: sum.splits if_splits prod.splits)

lemma vec_put_pkts [simp]: "v_pkts (vec_put v p) = v_pkts v @ [p]"
  by (simp add: vec_put_def)

definition sent_one :: "ev_env \<Rightarrow> bool \<Rightarrow> pkt \<Rightarrow> pkt list" where
  "sent_one env v6 p =
     (case route_and_send env (if v6 then PLAIN_IPV6 else PLAIN_IPV4) p of Inr (True, p') \<Rightarrow> [p'] | _ \<Rightarrow> [])"

lemma route_step_sent:
  assumes "route_step env v6 p (v, d) = Inr (v', d')"
  shows "v_pkts v' = v_pkts v @ sent_one env v6 p"
  using assms
  by (auto simp: route_step_def sent_one_def route_and_send_def get_route_def ev_send_def map_sum_Inr_iff
      split: sum.splits if_splits)

lemma route_run_sent:
  "run_all (route_step env v6) ps (v, d) = Inr (v', d') \<Longrightarrow> v_pkts v' = v_pkts v @ concat (map (sent_one env v6) ps)"
proof (induction ps arbitrary: v d)
  case (Cons p ps)
  then obtain v1 d1 where s: "route_step env v6 p (v, d) = Inr (v1, d1)" "run_all (route_step env v6) ps (v1, d1) = Inr (v', d')"
    by (auto split: sum.splits)
  then show ?case using Cons.IH [OF s(2)] route_step_sent [OF s(1)] by simp
qed simp

text \<open>What the single path does with a frame, in terms of the checks of the vector path.\<close>

lemma forwarded_single:
  assumes "process_ipsec_get_pkt_type t = (if v6 then PLAIN_IPV6 else PLAIN_IPV4)"
    and "(if v6 then ee_sp6_in env else ee_sp4_in env) = Some f"
    and "\<not> rx_sec_offload (pbuf p) \<Longrightarrow> ee_dyn env p = None"
    and "\<not> decrypt_failed p \<Longrightarrow> sp_sa_admit env (ev_classify f v6 p) p = Inr b"
  shows "forwarded env (t, p) = (if \<not> decrypt_failed p \<and> b then sent_one env v6 p else [])"
proof (cases "decrypt_failed p")
  case True
  then show ?thesis using assms(1) by (auto simp: forwarded_def process_ipsec_ev_inbound_def decrypt_failed_def)
next
  case False
  then have nf: "\<not> (rx_sec_offload (pbuf p) \<and> rx_sec_failed (pbuf p))" by (simp add: decrypt_failed_def)
  let ?w = "ev_classify f v6 p"
  have ty: "process_ipsec_get_pkt_type t = PLAIN_IPV6 \<longleftrightarrow> v6" "process_ipsec_get_pkt_type t = PLAIN_IPV4 \<longleftrightarrow> \<not> v6"
    using assms(1) by auto
  have sp: "(if process_ipsec_get_pkt_type t = PLAIN_IPV4 then ee_sp4_in env else ee_sp6_in env) = Some f"
    using assms(2) ty by auto
  have dyn: "(if rx_sec_offload (pbuf p) then ee_dyn env p else None) = ee_dyn env p" using assms(3) by auto
  have w: "?w - 1 = BYPASS \<longleftrightarrow> ?w = DISCARD" by (auto simp: diff_eq_eq)
  have e: "process_ipsec_ev_inbound env (t, p) =
      (case check_sp (Some f) v6 p of
         None \<Rightarrow> Inr (False, p)
       | Some idx \<Rightarrow>
           (if idx = BYPASS then route_and_send env (process_ipsec_get_pkt_type t) p
            else if length (ee_sas_in env) \<le> unat idx then Inr (False, p)
            else case ee_dyn env p of
                None \<Rightarrow> Inr (False, p)
              | Some i \<Rightarrow>
                  (if length (ee_sas_in env) \<le> i then Inl UB
                   else if spi (ee_sas_in env ! i) \<noteq> spi (ee_sas_in env ! unat idx) then Inr (False, p)
                   else route_and_send env (process_ipsec_get_pkt_type t) p)))"
    using assms(1,2) by (simp only: process_ipsec_ev_inbound_def prod.case Let_def nf sp dyn ty) (simp split: if_splits)
  note ok = assms(4) [OF False]
  consider "?w = DISCARD" | "?w = BYPASS" | "?w \<noteq> DISCARD" "?w \<noteq> BYPASS" by blast
  then show ?thesis
  proof cases
    case 3
    then show ?thesis using ok w False assms(1)
      by (cases "ee_dyn env p") (auto simp: e forwarded_def check_sp_def sp_sa_admit_def sent_one_def Let_def split: if_splits)
  qed (use ok False assms(1) in \<open>simp_all add: e forwarded_def check_sp_def sp_sa_admit_def sent_one_def Let_def\<close>)
qed

lemma forwarded_list:
  assumes "(if v6 then ee_sp6_in env else ee_sp4_in env) = Some f"
    and "\<forall>p. \<not> rx_sec_offload (pbuf p) \<longrightarrow> ee_dyn env p = None"
    and "\<forall>p\<in>set (map snd (filter (\<lambda>r. \<not> decrypt_failed (snd r)) (of_type ty rs))). \<exists>b. sp_sa_admit env (ev_classify f v6 p) p = Inr b"
    and "ty = (if v6 then PLAIN_IPV6 else PLAIN_IPV4)"
  shows "concat (map (sent_one env v6) (filter (\<lambda>p. sp_sa_admit env (ev_classify f v6 p) p = Inr True)
      (map snd (filter (\<lambda>r. \<not> decrypt_failed (snd r)) (of_type ty rs))))) =
    concat (map (forwarded env) (of_type ty rs))"
  using assms(3)
proof (induction rs)
  case (Cons r rs)
  obtain t p where r: "r = (t, p)" by (cases r)
  have ih: "concat (map (sent_one env v6) (filter (\<lambda>p. sp_sa_admit env (ev_classify f v6 p) p = Inr True)
      (map snd (filter (\<lambda>r. \<not> decrypt_failed (snd r)) (of_type ty rs))))) =
    concat (map (forwarded env) (of_type ty rs))"
  proof (rule Cons.IH)
    have "set (of_type ty rs) \<subseteq> set (of_type ty (r # rs))" by (auto simp: of_type_def)
    then show "\<forall>p\<in>set (map snd (filter (\<lambda>r. \<not> decrypt_failed (snd r)) (of_type ty rs))).
        \<exists>b. sp_sa_admit env (ev_classify f v6 p) p = Inr b"
      using Cons.prems by (simp add: subset_iff) blast
  qed
  show ?case
  proof (cases "process_ipsec_get_pkt_type t = ty")
    case True
    then obtain b where b: "\<not> decrypt_failed p \<Longrightarrow> sp_sa_admit env (ev_classify f v6 p) p = Inr b"
      using Cons.prems by (fastforce simp: r of_type_def)
    have "forwarded env (t, p) = (if \<not> decrypt_failed p \<and> b then sent_one env v6 p else [])"
      by (rule forwarded_single [OF _ assms(1) _ b]) (use True assms(2,4) in auto)
    then show ?thesis using ih b True by (simp add: of_type_def r)
  next
    case False
    then show ?thesis using ih by (simp add: of_type_def r)
  qed
qed (simp add: of_type_def)


section \<open>Every packet is accounted for\<close>

definition ev_all :: "ev_state \<Rightarrow> nat multiset" where
  "ev_all s = pids (concat (ev_sent s)) + pids (ev_freed s) + pids (ev_lost s)"

definition ev_pids :: "event \<Rightarrow> nat multiset" where
  "ev_pids ev = (case ev of Ev_pkt r \<Rightarrow> {#pid (snd r)#} | Ev_vec rs \<Rightarrow> pids (map snd rs) | Ev_other rs \<Rightarrow> pids (map snd rs))"

definition vec_all :: "ev_vec \<times> pkt list \<Rightarrow> nat multiset" where
  "vec_all st = pids (v_pkts (fst st)) + pids (snd st)"

definition tri_all :: "pkt list \<times> pkt list \<times> pkt list \<Rightarrow> nat multiset" where
  "tri_all = (\<lambda>(a, b, c). pids a + pids b + pids c)"

interpretation ev_route: packet_step "\<lambda>_. True" vec_all "\<lambda>p. {#pid p#}" "route_step env v6" for env v6
  by unfold_locales (auto simp: route_step_def vec_all_def map_sum_Inr_iff split: sum.splits if_splits dest!: to_port_pid)

interpretation ev_esp: packet_step "\<lambda>_. True" vec_all "\<lambda>x. {#pid (fst x)#}" "esp_step env sas" for env sas
  by unfold_locales
    (auto simp: esp_step_def vec_all_def map_sum_Inr_iff Let_def split: if_splits prod.splits dest!: to_port_pid)

interpretation ev_in: packet_step "\<lambda>_. True" tri_all "\<lambda>r. {#pid (snd r)#}" in_vec_step
  by unfold_locales
    (auto simp: in_vec_step_def classify_pkt_def tri_all_def split: if_splits prod.splits pkt_type.splits)

interpretation ev_out: packet_step "\<lambda>_. True" tri_all "\<lambda>r. {#pid (snd r)#}" out_vec_step
  by unfold_locales
    (auto simp: out_vec_step_def classify_pkt_def tri_all_def split: if_splits prod.splits pkt_type.splits)

lemma ipsec_ev_route_pkts_all:
  assumes "ipsec_ev_route_pkts env sas p4 p6 xs st = Inr st'"
  shows "vec_all st' = vec_all st + pids p4 + pids p6 + pids (map fst xs)"
proof -
  obtain st1 st2 where r: "run_all (route_step env False) p4 st = Inr st1" "run_all (route_step env True) p6 st1 = Inr st2"
      "run_all (esp_step env sas) xs st2 = Inr st'"
    using assms by (auto simp: ipsec_ev_route_pkts_def split: sum.splits)
  show ?thesis
    using ev_route.run_all_ok [OF TrueI r(1)] ev_route.run_all_ok [OF TrueI r(2)] ev_esp.run_all_ok [OF TrueI r(3)]
    by (simp add: pids_def multiset.map_comp comp_def)
qed

lemma sp_sa_bulk_loop_pids: "sp_sa_bulk_loop env cl ps = Inr (k, d) \<Longrightarrow> pids k + pids d = pids ps"
  by (induction ps arbitrary: k d) (auto simp: map_sum_Inr_iff split: sum.splits if_splits prod.splits)

lemma check_sp_sa_bulk_pids: "check_sp_sa_bulk env sp v6 ps = Inr (k, d) \<Longrightarrow> pids k + pids d = pids ps"
  by (auto simp: check_sp_sa_bulk_def split: option.splits dest: sp_sa_bulk_loop_pids)

lemma sp_bulk_loop_pids: "sp_bulk_loop cl ps = (k, x, d) \<Longrightarrow> pids k + pids (map fst x) + pids d = pids ps"
  by (induction ps arbitrary: k x d) (auto split: if_splits prod.splits)

lemma check_sp_bulk_pids: "check_sp_bulk sp v6 ps = (k, x, d) \<Longrightarrow> pids k + pids (map fst x) + pids d = pids ps"
  by (auto simp: check_sp_bulk_def split: option.splits dest: sp_bulk_loop_pids)

lemma inbound_vector_pids:
  assumes "process_ipsec_ev_inbound_vector env rs v = Inr (v', d)"
  shows "pids (v_pkts v') + pids d = pids (map snd rs)"
proof -
  obtain p4 p6 e k4 d4 k6 d6
    where c: "run_all in_vec_step rs ([], [], []) = Inr (p4, p6, e)"
      and s: "check_sp_sa_bulk env (ee_sp4_in env) False p4 = Inr (k4, d4)" "check_sp_sa_bulk env (ee_sp6_in env) True p6 = Inr (k6, d6)"
      and route: "ipsec_ev_route_pkts env (ee_sas_in env) k4 k6 [] (v\<lparr>v_pkts := []\<rparr>, e @ d4 @ d6) = Inr (v', d)"
    using assms by (auto simp: process_ipsec_ev_inbound_vector_def split: sum.splits prod.splits)
  have "pids p4 + pids p6 + pids e = pids (map snd rs)"
    using ev_in.run_all_ok [OF TrueI c] by (simp add: tri_all_def pids_def multiset.map_comp comp_def)
  then show ?thesis
    using ipsec_ev_route_pkts_all [OF route] check_sp_sa_bulk_pids [OF s(1), symmetric] check_sp_sa_bulk_pids [OF s(2), symmetric]
    by (simp add: vec_all_def ac_simps)
qed

lemma outbound_vector_pids:
  assumes "process_ipsec_ev_outbound_vector env rs v = Inr (v', d)"
  shows "pids (v_pkts v') + pids d = pids (map snd rs)"
proof -
  obtain p4 p6 e k4 x4 d4 k6 x6 d6
    where c: "run_all out_vec_step rs ([], [], []) = Inr (p4, p6, e)"
      and s: "check_sp_bulk (ee_sp4_out env) False p4 = (k4, x4, d4)" "check_sp_bulk (ee_sp6_out env) True p6 = (k6, x6, d6)"
      and route: "ipsec_ev_route_pkts env (ee_sas_out env) k4 k6 (x4 @ x6) (v\<lparr>v_pkts := []\<rparr>, e @ d4 @ d6) = Inr (v', d)"
    using assms by (auto simp: process_ipsec_ev_outbound_vector_def split: sum.splits prod.splits)
  have "pids p4 + pids p6 + pids e = pids (map snd rs)"
    using ev_out.run_all_ok [OF TrueI c] by (simp add: tri_all_def pids_def multiset.map_comp comp_def)
  then show ?thesis
    using ipsec_ev_route_pkts_all [OF route] check_sp_bulk_pids [OF s(1), symmetric] check_sp_bulk_pids [OF s(2), symmetric]
    by (simp add: vec_all_def ac_simps)
qed

lemma drv_mark_pid: "drv_mark env tab p = Inr (Some p') \<Longrightarrow> pid p' = pid p"
  by (auto simp: drv_mark_def ipsec_event_pre_forward_def Let_def split: if_splits option.splits)

lemma drv_vector_pids:
  "process_ipsec_ev_drv_mode_outbound_vector env tab ps = Inr (k, d) \<Longrightarrow> pids k + pids d = pids ps"
  by (induction ps arbitrary: k d)
    (auto simp: map_sum_Inr_iff split: sum.splits option.splits prod.splits dest: drv_mark_pid)

lemma tx_enqueue_all [simp]: "ev_all (tx_enqueue env ps s) = ev_all s + pids ps"
  by (simp add: tx_enqueue_def ev_all_def ac_simps)

lemma ev_free_all [simp]: "ev_all (ev_free ps s) = ev_all s + pids ps"
  by (simp add: ev_free_def ev_all_def ac_simps)

lemma ev_lost_all [simp]: "ev_all (s\<lparr>ev_lost := ev_lost s @ ps\<rparr>) = ev_all s + pids ps"
  by (simp add: ev_all_def ac_simps)

lemma vector_process_all: "ipsec_ev_vector_process env rs s = Inr s' \<Longrightarrow> ev_all s' = ev_all s + pids (map snd rs)"
  by (auto simp: ipsec_ev_vector_process_def Let_def ac_simps split: list.splits sum.splits if_splits
      dest!: inbound_vector_pids outbound_vector_pids)

lemma drv_vector_process_all:
  "ipsec_ev_vector_drv_mode_process env tab rs s = Inr s' \<Longrightarrow> ev_all s' = ev_all s + pids (map snd rs)"
  by (cases rs; cases "process_ipsec_ev_drv_mode_outbound_vector env tab (map snd rs)")
    (auto simp: ipsec_ev_vector_drv_mode_process_def ac_simps simp del: process_ipsec_ev_drv_mode_outbound_vector.simps
      split: sum.splits if_splits dest!: drv_vector_pids)

interpretation app_mode: packet_step "\<lambda>_. True" ev_all ev_pids "app_mode_step env" for env
  by unfold_locales
    (auto simp: app_mode_step_def ev_pids_def split: event.splits sum.splits if_splits bool.splits
      dest!: process_ipsec_ev_inbound_pid process_ipsec_ev_outbound_pid vector_process_all)

interpretation drv_mode: packet_step "\<lambda>_. True" ev_all ev_pids "drv_mode_step env tab" for env tab
  by unfold_locales
    (auto simp: drv_mode_step_def ev_pids_def ipsec_event_pre_forward_def Let_def
      split: event.splits sum.splits if_splits bool.splits option.splits dest!: drv_mark_pid drv_vector_process_all)

lemma run_all_frame:
  assumes "\<And>a s s'. a \<in> set as \<Longrightarrow> step a s = Inr s' \<Longrightarrow> g s' = g s" and "run_all step as s = Inr s'"
  shows "g s' = g s"
  using assms
proof (induction as arbitrary: s)
  case (Cons a as)
  then obtain s1 where s1: "step a s = Inr s1" "run_all step as s1 = Inr s'" by (auto split: sum.splits)
  have "g s' = g s1" by (rule Cons.IH [OF _ s1(2)]) (rule Cons.prems(1), simp_all)
  also have "g s1 = g s" by (rule Cons.prems(1) [OF _ s1(1)]) simp
  finally show ?case .
qed simp

lemma tx_enqueue_lost: "(\<forall>sent ps. ee_enq env sent ps) \<Longrightarrow> ev_lost (tx_enqueue env ps s) = ev_lost s"
  by (simp add: tx_enqueue_def)

lemma ev_free_lost [simp]: "ev_lost (ev_free ps s) = ev_lost s"
  by (simp add: ev_free_def)

lemma app_mode_lost:
  assumes "\<forall>sent ps. ee_enq env sent ps" and "\<forall>rs. ev \<noteq> Ev_other rs" and "app_mode_step env ev s = Inr s'"
  shows "ev_lost s' = ev_lost s"
  using assms(2,3)
  by (auto simp: app_mode_step_def ipsec_ev_vector_process_def Let_def tx_enqueue_lost [OF assms(1)]
      split: event.splits list.splits sum.splits if_splits bool.splits)

lemma drv_mode_lost:
  assumes "\<forall>sent ps. ee_enq env sent ps" and "\<forall>rs. ev \<noteq> Ev_other rs" and "drv_mode_step env tab ev s = Inr s'"
  shows "ev_lost s' = ev_lost s"
  using assms(2,3)
  by (auto simp: drv_mode_step_def ipsec_ev_vector_drv_mode_process_def Let_def tx_enqueue_lost [OF assms(1)]
      simp del: process_ipsec_ev_drv_mode_outbound_vector.simps
      split: event.splits list.splits sum.splits if_splits bool.splits option.splits)

text \<open>
  C10. The event-mode workers lose no packet by themselves: after any sequence of events that either worker handles,
  every packet of the events has been handed to the Tx adapter, freed, or lost, exactly once, and
  what is lost is what the adapter refused or what came in an event of an unknown type. When the
  adapter takes everything and all events are packets or vectors, nothing is lost.
\<close>

theorem event_workers_conserve:
  assumes "app_mode_worker env evs s = Inr s' \<or> drv_mode_worker env sas evs s = Inr s'"
  shows "ev_all s' = ev_all s + (\<Sum>ev\<leftarrow>evs. ev_pids ev) \<and>
    ((\<forall>sent ps. ee_enq env sent ps) \<and> (\<forall>rs. Ev_other rs \<notin> set evs) \<longrightarrow> ev_lost s' = ev_lost s)"
proof -
  have "ev_all s' = ev_all s + (\<Sum>ev\<leftarrow>evs. ev_pids ev)"
    using assms app_mode.run_all_ok [OF TrueI] drv_mode.run_all_ok [OF TrueI]
    unfolding app_mode_worker_def drv_mode_worker_def by blast
  moreover have "ev_lost s' = ev_lost s" if e: "\<forall>sent ps. ee_enq env sent ps" and o: "\<forall>rs. Ev_other rs \<notin> set evs"
    using assms unfolding app_mode_worker_def drv_mode_worker_def
  proof
    assume r: "run_all (app_mode_step env) evs s = Inr s'"
    show ?thesis by (rule run_all_frame [OF app_mode_lost [OF e] r]) (use o in auto)
  next
    assume r: "run_all (drv_mode_step env (drv_table env sas)) evs s = Inr s'"
    show ?thesis by (rule run_all_frame [OF drv_mode_lost [OF e] r]) (use o in auto)
  qed
  ultimately show ?thesis by blast
qed

section \<open>The session table of driver mode\<close>

text \<open>The reference: the session of the first inline-protocol SA of the port that has one.\<close>

definition first_session :: "nat \<Rightarrow> ipsec_sa list \<Rightarrow> nat option" where
  "first_session port sas =
     (case filter (\<lambda>sa. ses_type (primary sa) = TYPE_INLINE_PROTOCOL \<and> unat (portid sa) = port \<and> ses (primary sa) \<noteq> None) sas of
        [] \<Rightarrow> None | sa # _ \<Rightarrow> ses (primary sa))"

lemma length_drv_step [simp]: "length (drv_step sa tab) = length tab"
  by (simp add: drv_step_def Let_def)

lemma length_drv_fold [simp]: "length (fold drv_step sas tab) = length tab"
  by (induction sas arbitrary: tab) simp_all

lemma drv_step_nth:
  assumes "port < length tab"
  shows "drv_step sa tab ! port =
    (if tab ! port \<noteq> None then tab ! port else first_session port [sa])"
  using assms by (auto simp: drv_step_def first_session_def Let_def nth_list_update)

lemma first_session_Cons:
  "first_session port (sa # sas) = (if first_session port [sa] \<noteq> None then first_session port [sa] else first_session port sas)"
  by (auto simp: first_session_def)

lemma drv_fold_nth:
  "port < length tab \<Longrightarrow> fold drv_step sas tab ! port = (if tab ! port \<noteq> None then tab ! port else first_session port sas)"
proof (induction sas arbitrary: tab)
  case Nil
  then show ?case by (simp add: first_session_def)
next
  case (Cons sa sas)
  then show ?case by (simp add: drv_step_nth first_session_Cons [of port sa sas])
qed

text \<open>
  The session table of driver mode: entry 0 is the session of the first inline-protocol SA of port 0. Every
  other entry is what the stack happened to hold, when that is not NULL, and only else the session of
  the first inline-protocol SA of its port: the table is cleared only up to its first entry.
\<close>

theorem drv_table_entries:
  "drv_table env (Some sas) ! 0 = first_session 0 sas \<and>
   (\<forall>port \<in> {1..<RTE_MAX_ETHPORTS}.
      drv_table env (Some sas) ! port = (if ee_junk env port \<noteq> None then ee_junk env port else first_session port sas))"
proof -
  let ?t = "None # map (ee_junk env) [1..<RTE_MAX_ETHPORTS]"
  have len: "length ?t = RTE_MAX_ETHPORTS" by (simp add: RTE_MAX_ETHPORTS_def)
  have e: "?t ! port = (if port = 0 then None else ee_junk env port)" if "port < RTE_MAX_ETHPORTS" for port
    using that by (cases port) (simp_all add: RTE_MAX_ETHPORTS_def nth_append del: upt_Suc)
  have "drv_table env (Some sas) ! port = (if ?t ! port \<noteq> None then ?t ! port else first_session port sas)"
    if "port < RTE_MAX_ETHPORTS" for port
    unfolding drv_table_def prepare_out_sessions_tbl_def option.case
    by (rule drv_fold_nth) (use that len in simp)
  then show ?thesis using e by (auto simp: RTE_MAX_ETHPORTS_def)
qed

section \<open>Examples\<close>

text \<open>
  Port 0 is unprotected. ICMP passes, TCP is protected by the SA 0, all else is discarded. The frame
  is an Ethernet header and an IPv4 header with the protocol \<open>proto\<close>.
\<close>

definition sample_ev :: ev_env where
  "sample_ev =
     \<lparr>ee_ethaddr = replicate 32 \<lparr>eth_src = 0x0A, eth_dst = 0x0B\<rparr>, ee_lpm4 = (\<lambda>_. Some 1), ee_lpm6 = (\<lambda>_. None),
      ee_sp4_in = Some sample_acl, ee_sp6_in = Some sample_acl, ee_sp4_out = Some sample_acl, ee_sp6_out = None,
      ee_sas_in = [sad_sample_sa], ee_sas_out = [sad_sample_sa\<lparr>primary := zero_session\<lparr>ses_type := TYPE_INLINE_PROTOCOL, ses := Some 9\<rparr>\<rparr>],
      ee_dyn = (\<lambda>p. if rx_sec_offload (pbuf p) then Some 0 else None), ee_mdata = (\<lambda>_ m. m),
      ee_unprotected = 1, ee_junk = (\<lambda>i. if i = 2 then Some 77 else None), ee_enq = (\<lambda>_ _. True)\<rparr>"

definition frame4 :: "nat \<Rightarrow> u8 \<Rightarrow> nat \<Rightarrow> bool \<Rightarrow> rx_pkt" where
  "frame4 i proto port dec =
     (RTE_PTYPE_L3_IPV4, (sample_pkt i)\<lparr>pbuf := (pbuf (sample_pkt i))\<lparr>m_bytes := replicate 12 0 @ [8, 0] @ sample_ip4[9 := proto],
        m_port := of_nat port, rx_sec_offload := dec, rx_sec_failed := False\<rparr>\<rparr>)"

definition idle_ev :: ev_state where
  "idle_ev = \<lparr>ev_sent = [], ev_freed = [], ev_lost = []\<rparr>"

lemma app_mode_policy_witness:
  "admitted_in sample_ev (frame4 1 6 0 True) \<and>
   process_ipsec_ev_inbound sample_ev (frame4 1 6 0 True) = route_and_send sample_ev PLAIN_IPV4 (snd (frame4 1 6 0 True)) \<and>
   process_ipsec_ev_inbound sample_ev (frame4 2 6 0 False) = Inr (False, snd (frame4 2 6 0 False)) \<and>
   \<not> admitted_in sample_ev (frame4 2 6 0 False)"
proof -
  have a: "\<forall>i. ee_dyn sample_ev p = Some i \<longrightarrow> i < length (ee_sas_in sample_ev)" for p by (simp add: sample_ev_def)
  have "admitted_in sample_ev (frame4 1 6 0 True)" "\<not> admitted_in sample_ev (frame4 2 6 0 False)" by code_simp+
  moreover have "process_ipsec_get_pkt_type RTE_PTYPE_L3_IPV4 = PLAIN_IPV4" by code_simp
  moreover have "process_ipsec_ev_inbound sample_ev (t, p) =
      (if admitted_in sample_ev (t, p) then route_and_send sample_ev (process_ipsec_get_pkt_type t) p else Inr (False, p))" for t p
    using app_mode_policy [OF a [of p], of t] by blast
  moreover have "frame4 i proto port dec = (RTE_PTYPE_L3_IPV4, snd (frame4 i proto port dec))" for i proto port dec
    by (simp add: frame4_def)
  ultimately show ?thesis by metis
qed


lemma event_workers_conserve_witness:
  "case app_mode_worker sample_ev [Ev_pkt (frame4 1 6 1 False), Ev_vec [frame4 2 1 0 False, frame4 3 17 0 False]] idle_ev of
     Inl _ \<Rightarrow> False
   | Inr s' \<Rightarrow> ev_all s' = {#1, 2, 3#} \<and> ev_lost s' = [] \<and> map (map pid) (ev_sent s') = [[1], [2]]"
proof -
  let ?evs = "[Ev_pkt (frame4 1 6 1 False), Ev_vec [frame4 2 1 0 False, frame4 3 17 0 False]]"
  have "case app_mode_worker sample_ev ?evs idle_ev of Inl _ \<Rightarrow> False | Inr s' \<Rightarrow> map (map pid) (ev_sent s') = [[1], [2]]"
    by code_simp
  then obtain s' where r: "app_mode_worker sample_ev ?evs idle_ev = Inr s'" "map (map pid) (ev_sent s') = [[1], [2]]"
    by (auto split: sum.splits)
  have "ev_all s' = ev_all idle_ev + (\<Sum>ev\<leftarrow>?evs. ev_pids ev) \<and>
    ((\<forall>sent ps. ee_enq sample_ev sent ps) \<and> (\<forall>rs. Ev_other rs \<notin> set ?evs) \<longrightarrow> ev_lost s' = ev_lost idle_ev)"
    by (rule event_workers_conserve) (use r in simp)
  moreover have "(\<Sum>ev\<leftarrow>?evs. ev_pids ev) = {#1, 2, 3#}"
    by (simp add: ev_pids_def frame4_def sample_pkt_def add_mset_commute)
  moreover have "ev_all idle_ev = {#}" "ev_lost idle_ev = []" by (simp_all add: idle_ev_def ev_all_def)
  moreover have "\<forall>sent ps. ee_enq sample_ev sent ps" by (simp add: sample_ev_def)
  moreover have "\<forall>rs. Ev_other rs \<notin> set ?evs" by simp
  ultimately show ?thesis using r by simp
qed

lemma drv_table_entries_witness:
  "drv_table sample_ev (Some [zero_sa\<lparr>portid := 2, primary := zero_session\<lparr>ses_type := TYPE_INLINE_PROTOCOL, ses := Some 9\<rparr>\<rparr>]) ! 2 = Some 77"
  using drv_table_entries [of sample_ev "[zero_sa\<lparr>portid := 2, primary := zero_session\<lparr>ses_type := TYPE_INLINE_PROTOCOL, ses := Some 9\<rparr>\<rparr>]"]
  by (simp add: sample_ev_def RTE_MAX_ETHPORTS_def)

end
