(* ===== verification/SA_Init.thy ===== *)
theory SA_Init
  imports SAD SA_Config Sessions
begin

text \<open>
  Installation of the security associations, \<open>sa.c\<close> from \<open>sa_create\<close> to \<open>sa_init\<close>, and
  \<open>sa_check_offloads\<close>. The configured tables become the arrays of an SA context: for every SA its
  crypto transforms, its database entry, its inline session and flow rule, and, in library mode, the
  parameters of its \<open>rte_ipsec_sa\<close>. A pointer into the arrays of the context is an index. The
  network devices, the memory allocator and \<open>librte_ipsec\<close> are parameters (\<open>init_env\<close>). The IV
  offset, one constant for all transforms, and the socket number are left out.
\<close>

section \<open>Transforms\<close>

text \<open>
  The fields of a transform: algorithm, SA whose key buffer it points to, key length, then for AEAD
  the direction (true for decryption), IV, AAD and digest lengths; for a cipher the direction and the
  IV length; for authentication the digest length, whether it verifies, and the IV length.
\<close>

datatype xf_body = XF_UNSET
  | XF_AEAD aead_alg nat u16 bool u16 u16 u16
  | XF_CIPHER cipher_alg nat u16 bool u16
  | XF_AUTH auth_alg nat u16 u16 bool u16

text \<open>A pointer to the first or second transform of an entry of the context's array.\<close>

datatype xf_ref = XA nat | XB nat

record sym_xform =
  xf_body :: xf_body
  xf_next :: "xf_ref option"

record ipsec_xf =
  xf_a :: sym_xform
  xf_b :: sym_xform

definition zero_xform :: sym_xform where
  "zero_xform = \<lparr>xf_body = XF_UNSET, xf_next = None\<rparr>"

section \<open>The parameters handed to the IPsec library\<close>

datatype outer_hdr = Hdr4 u8 u8 u8 u32 u32 | Hdr6 u32 u8 "u8 list" "u8 list"

datatype sa_prm_mode = Prm_unset | Prm_tunnel outer_hdr nat nat | Prm_transport nat

record ipsec_sa_prm =
  pr_flags :: u64
  pr_esn :: u32
  pr_esn_value :: u64
  pr_window :: u32
  pr_userdata :: "nat option"
  pr_spi :: u32
  pr_salt :: u32
  pr_direction :: sa_dir
  pr_mode :: sa_mode
  pr_udp_encap :: u8
  pr_sport :: u16
  pr_dport :: u16
  pr_ecn :: bool
  pr_copy_dscp :: bool
  pr_body :: sa_prm_mode
  pr_xform :: "xf_ref option"

section \<open>The SA context\<close>

record 'd sa_ctx =
  cs_sa :: "ipsec_sa list"
  cs_flow :: "sa_flow list"
  cs_xf :: "ipsec_xf list"
  cs_xforms :: "xf_ref option list"
  cs_sad :: "'d ipsec_sad"
  cs_satbl :: "ipsec_sa_prm option list"
  cs_prim_sa :: "nat option list"
  cs_fb_sa :: "nat option list"

record dev_caps =
  cap_rx_sec :: bool
  cap_tx_sec :: bool
  cap_tx_tso :: bool
  cap_tx_cksum :: bool

record 'd init_env =
  in_dev :: device_env
  in_caps :: "u16 \<Rightarrow> errno + dev_caps"
  in_sad :: "'d sad_api"
  in_sad_namesize :: nat
  in_sp4 :: sp4_db
  in_sp6 :: sp6_db
  in_mz :: "string \<Rightarrow> bool"
  in_zmalloc :: "string \<Rightarrow> bool"
  in_satbl :: "u32 \<Rightarrow> bool"
  in_sa_size :: "ipsec_sa_prm \<Rightarrow> errno + nat"
  in_sa_init :: "ipsec_sa_prm \<Rightarrow> nat \<Rightarrow> errno option"
  in_prepare :: "nat \<Rightarrow> errno option"
  in_stack :: ipsec_sa_prm

text \<open>\<open>sa_create\<close>: the reserved zone is not cleared; its transforms are written before they are used.\<close>

definition sa_create :: "'d init_env \<Rightarrow> string \<Rightarrow> nat \<Rightarrow> 'd sa_ctx option" where
  "sa_create env name nb_sa =
     (if \<not> in_mz env name then None
      else if \<not> in_zmalloc env name then None
      else Some \<lparr>cs_sa = replicate nb_sa zero_sa, cs_flow = replicate nb_sa zero_flow,
             cs_xf = replicate nb_sa \<lparr>xf_a = zero_xform, xf_b = zero_xform\<rparr>,
             cs_xforms = replicate nb_sa None, cs_sad = \<lparr>sad_v4 = None, sad_v6 = None\<rparr>, cs_satbl = [],
             cs_prim_sa = replicate nb_sa None, cs_fb_sa = replicate nb_sa None\<rparr>)"

definition check_eth_dev_caps :: "'d init_env \<Rightarrow> u16 \<Rightarrow> bool \<Rightarrow> u16 \<Rightarrow> errno option" where
  "check_eth_dev_caps env portid' inbound tso =
     (case in_caps env portid' of
        Inl e \<Rightarrow> Some e
      | Inr c \<Rightarrow>
          (if inbound then (if \<not> cap_rx_sec c then Some EINVAL else None)
           else if \<not> cap_tx_sec c then Some EINVAL
           else if tso \<noteq> 0 \<and> \<not> cap_tx_tso c then Some EINVAL
           else None))"

section \<open>Addresses from the policies\<close>

text \<open>The protocol of the policies of an SPI, with the addresses and masks of the rule found.\<close>

datatype spi_proto = Proto_ipip "u32 \<times> u32" "u32 \<times> u32" | Proto_ipv6 "u8 list \<times> u32" "u8 list \<times> u32"

definition proto_num :: "spi_proto \<Rightarrow> nat" where
  "proto_num p = (case p of Proto_ipip _ _ \<Rightarrow> 4 | Proto_ipv6 _ _ \<Rightarrow> 41)"

definition get_spi_proto :: "'d init_env \<Rightarrow> u32 \<Rightarrow> sa_dir \<Rightarrow> errno + spi_proto" where
  "get_spi_proto env w dir =
     (case (sp4_spi_present (in_sp4 env) w (dir = INGRESS), sp6_spi_present (in_sp6 env) w (dir = INGRESS)) of
        (Some r4, Some r6) \<Rightarrow> Inl EINVAL
      | (Some (i, s, d), None) \<Rightarrow> Inr (Proto_ipip s d)
      | (None, None) \<Rightarrow> Inl EINVAL
      | (None, Some (i, s, d)) \<Rightarrow> Inr (Proto_ipv6 s d))"

definition IP4_FULL_MASK :: u32 where "IP4_FULL_MASK = 32"
definition IP6_FULL_MASK :: u32 where "IP6_FULL_MASK = 128"

definition sa_add_address_inline_crypto :: "'d init_env \<Rightarrow> ipsec_sa \<Rightarrow> ipsec_sa \<times> errno option" where
  "sa_add_address_inline_crypto env sa =
     (case get_spi_proto env (spi sa) (direction sa) of
        Inl e \<Rightarrow> (sa, Some e)
      | Inr (Proto_ipip (a, ma) (b, mb)) \<Rightarrow>
          (let sa1 = sa\<lparr>flags := flags sa OR IP4_TRANSPORT\<rparr> in
           if ma = IP4_FULL_MASK \<and> mb = IP4_FULL_MASK \<and> a \<noteq> 0 \<and> b \<noteq> 0
           then (sa1\<lparr>src := (src sa1)\<lparr>ip4 := a\<rparr>, dst := (dst sa1)\<lparr>ip4 := b\<rparr>\<rparr>, None)
           else (sa1, Some EINVAL))
      | Inr (Proto_ipv6 (a, ma) (b, mb)) \<Rightarrow>
          (let sa1 = sa\<lparr>flags := flags sa OR IP6_TRANSPORT\<rparr> in
           if ma = IP6_FULL_MASK \<and> mb = IP6_FULL_MASK \<and> (\<exists>x\<in>set a. x \<noteq> 0) \<and> (\<exists>x\<in>set b. x \<noteq> 0)
           then (sa1\<lparr>src := (src sa1)\<lparr>ip6 := a\<rparr>, dst := (dst sa1)\<lparr>ip6 := b\<rparr>\<rparr>, None)
           else (sa1, Some EINVAL)))"

definition is_inline :: "ipsec_sa \<Rightarrow> bool" where
  "is_inline sa \<longleftrightarrow> ses_type (primary sa) = TYPE_INLINE_PROTOCOL \<or> ses_type (primary sa) = TYPE_INLINE_CRYPTO"

text \<open>The switch on the mode: IPv4 tunnel addresses go to network order.\<close>

definition sa_addresses :: "'d init_env \<Rightarrow> ipsec_sa \<Rightarrow> ipsec_sa \<times> errno option" where
  "sa_addresses env sa =
     (if without_transport_version (flags sa) = IP4_TUNNEL then
        (sa\<lparr>src := (src sa)\<lparr>ip4 := bswap32 (ip4 (src sa))\<rparr>, dst := (dst sa)\<lparr>ip4 := bswap32 (ip4 (dst sa))\<rparr>\<rparr>, None)
      else if without_transport_version (flags sa) = TRANSPORT \<and> ses_type (primary sa) = TYPE_INLINE_CRYPTO then
        sa_add_address_inline_crypto env sa
      else (sa, None))"

section \<open>Filling the transforms\<close>

text \<open>
  The transforms of the SA with index \<open>idx\<close>. \<open>giv\<close> is the local variable \<open>auth_iv_length\<close>, which
  is returned as the loop leaves it for the next SA.
\<close>

definition is_aead :: "ipsec_sa \<Rightarrow> bool" where
  "is_aead sa \<longleftrightarrow> aead_algo sa = AEAD_AES_GCM \<or> aead_algo sa = AEAD_AES_CCM \<or> aead_algo sa = AEAD_CHACHA20_POLY1305"

definition aead_body :: "bool \<Rightarrow> u16 \<Rightarrow> nat \<Rightarrow> ipsec_sa \<Rightarrow> xf_body" where
  "aead_body inbound aad_length idx sa =
     XF_AEAD (aead_algo sa) idx (cipher_key_len sa) inbound (if aead_algo sa = AEAD_AES_CCM then 11 else 12)
       (aad_len sa + aad_length) (digest_len sa)"

definition cipher_body :: "bool \<Rightarrow> nat \<Rightarrow> ipsec_sa \<Rightarrow> xf_body" where
  "cipher_body inbound idx sa = XF_CIPHER (cipher_algo sa) idx (cipher_key_len sa) inbound (iv_len sa)"

definition auth_body :: "bool \<Rightarrow> u16 \<Rightarrow> nat \<Rightarrow> ipsec_sa \<Rightarrow> xf_body" where
  "auth_body inbound giv idx sa = XF_AUTH (auth_algo sa) idx (auth_key_len sa) (digest_len sa) inbound giv"

definition set_xforms ::
  "bool \<Rightarrow> u16 \<Rightarrow> u16 \<Rightarrow> nat \<Rightarrow> ipsec_sa \<Rightarrow> ipsec_xf \<Rightarrow> errno + u16 \<times> ipsec_xf \<times> xf_ref" where
  "set_xforms inbound aad_length giv idx sa xf =
     (if is_aead sa then
        Inr (giv, xf\<lparr>xf_a := \<lparr>xf_body = aead_body inbound aad_length idx sa, xf_next = None\<rparr>\<rparr>, XA idx)
      else if cipher_algo sa \<notin> {CIPHER_NULL, CIPHER_3DES_CBC, CIPHER_AES_CBC, CIPHER_AES_CTR} then Inl EINVAL
      else
        (let giv' = (if auth_algo sa = AUTH_AES_GMAC then 12 else giv);
             cb = cipher_body inbound idx sa;
             ab = auth_body inbound giv' idx sa;
             xf1 = (if inbound
                    then xf\<lparr>xf_b := \<lparr>xf_body = cb, xf_next = None\<rparr>, xf_a := (xf_a xf)\<lparr>xf_body := ab\<rparr>\<rparr>
                    else xf\<lparr>xf_a := \<lparr>xf_body = cb, xf_next = None\<rparr>, xf_b := (xf_b xf)\<lparr>xf_body := ab\<rparr>\<rparr>)
         in if auth_algo sa = AUTH_AES_GMAC then
              (if inbound then Inr (giv', xf1\<lparr>xf_a := (xf_a xf1)\<lparr>xf_next := None\<rparr>\<rparr>, XA idx)
               else Inr (giv', xf1\<lparr>xf_b := (xf_b xf1)\<lparr>xf_next := None\<rparr>\<rparr>, XB idx))
            else Inr (giv', xf1\<lparr>xf_a := (xf_a xf1)\<lparr>xf_next := Some (XB idx)\<rparr>,
                               xf_b := (xf_b xf1)\<lparr>xf_next := None\<rparr>\<rparr>, XA idx)))"

section \<open>Adding the rules\<close>

definition put_sa :: "nat \<Rightarrow> ipsec_sa \<Rightarrow> 'd sa_ctx \<Rightarrow> 'd sa_ctx" where
  "put_sa i sa ctx = ctx\<lparr>cs_sa := (cs_sa ctx)[i := sa]\<rparr>"

text \<open>\<open>*sa = entries[i]\<close>: the configured entry has no transforms, library objects or flow rule yet.\<close>

definition copy_entry :: "nat \<Rightarrow> ipsec_sa \<Rightarrow> 'd sa_ctx \<Rightarrow> 'd sa_ctx" where
  "copy_entry i e ctx =
     (put_sa i e ctx)\<lparr>cs_flow := (cs_flow ctx)[i := zero_flow], cs_xforms := (cs_xforms ctx)[i := None],
        cs_prim_sa := (cs_prim_sa ctx)[i := None], cs_fb_sa := (cs_fb_sa ctx)[i := None]\<rparr>"

definition aad_extra :: "'d init_env \<Rightarrow> u16" where
  "aad_extra env = (if prm_enable_esn (env_prm (in_dev env)) \<noteq> 0 then 4 else 0)"

definition add_to_sad :: "'d init_env \<Rightarrow> bool \<Rightarrow> nat \<Rightarrow> ipsec_sa \<Rightarrow> 'd ipsec_sad \<Rightarrow> 'd ipsec_sad \<times> errno option" where
  "add_to_sad env inbound i e sad =
     (if inbound then
        ipsec_sad_add (in_sad env) (sp4_spi_present (in_sp4 env) (spi e) True \<noteq> None)
          (sp6_spi_present (in_sp6 env) (spi e) True \<noteq> None) e i sad
      else (sad, None))"

text \<open>The end of the loop body: inline session, then the flow director rule, whose failure is only logged.\<close>

definition sa_sessions :: "'d init_env \<Rightarrow> bool \<Rightarrow> ipsec_sa \<Rightarrow> sa_flow \<Rightarrow> errno option \<times> ipsec_sa \<times> sa_flow" where
  "sa_sessions env inbound sa fl =
     (case (if is_inline sa then create_inline_session (in_dev env) sa fl else (None, sa, fl)) of
        (Some _, sa', fl') \<Rightarrow> (Some EINVAL, sa', fl')
      | (None, sa', fl') \<Rightarrow>
          (None, sa', if fdir_flag sa' \<noteq> 0 \<and> inbound then snd (create_ipsec_esp_flow (in_dev env) sa' fl') else fl'))"

definition sa_add_one ::
  "'d init_env \<Rightarrow> bool \<Rightarrow> nat \<Rightarrow> ipsec_sa \<Rightarrow> 'd sa_ctx \<times> u16 \<Rightarrow> ('d sa_ctx \<times> u16) \<times> errno option" where
  "sa_add_one env inbound i e st =
     (case st of (ctx, giv) \<Rightarrow>
      if length (cs_sa ctx) \<le> i then (st, Some UB)
      else if spi (cs_sa ctx ! i) \<noteq> 0 then (st, Some EINVAL)
      else
        (let ctx1 = copy_entry i e ctx in
         case add_to_sad env inbound i e (cs_sad ctx1) of
           (sad', Some er) \<Rightarrow> ((ctx1\<lparr>cs_sad := sad'\<rparr>, giv), Some er)
         | (sad', None) \<Rightarrow>
             (let sa1 = e\<lparr>seq := 0\<rparr>; ctx2 = put_sa i sa1 (ctx1\<lparr>cs_sad := sad'\<rparr>) in
              if is_inline sa1 \<and> check_eth_dev_caps env (portid sa1) inbound (mss sa1) \<noteq> None
              then ((ctx2, giv), Some EINVAL)
              else case sa_addresses env sa1 of
                (sa2, Some er) \<Rightarrow> ((put_sa i sa2 ctx2, giv), Some er)
              | (sa2, None) \<Rightarrow>
                  (case set_xforms inbound (aad_extra env) giv i sa2 (cs_xf ctx2 ! i) of
                     Inl er \<Rightarrow> ((put_sa i sa2 ctx2, giv), Some er)
                   | Inr (giv', xf', rf) \<Rightarrow>
                       (let ctx3 = ctx2\<lparr>cs_xf := (cs_xf ctx2)[i := xf'], cs_xforms := (cs_xforms ctx2)[i := Some rf]\<rparr> in
                        case sa_sessions env inbound sa2 (cs_flow ctx3 ! i) of (r, sa3, fl3) \<Rightarrow>
                          (((put_sa i sa3 ctx3)\<lparr>cs_flow := (cs_flow ctx3)[i := fl3]\<rparr>, giv'), r))))))"

fun sa_add_loop ::
  "'d init_env \<Rightarrow> bool \<Rightarrow> nat \<Rightarrow> ipsec_sa list \<Rightarrow> 'd sa_ctx \<times> u16 \<Rightarrow> ('d sa_ctx \<times> u16) \<times> errno option" where
  "sa_add_loop env inbound i [] st = (st, None)"
| "sa_add_loop env inbound i (e # es) st =
     (case sa_add_one env inbound i e st of
        (st', Some er) \<Rightarrow> (st', Some er)
      | (st', None) \<Rightarrow> sa_add_loop env inbound (i + 1) es st')"

definition sa_add_rules :: "'d init_env \<Rightarrow> ipsec_sa list \<Rightarrow> bool \<Rightarrow> 'd sa_ctx \<Rightarrow> 'd sa_ctx \<times> errno option" where
  "sa_add_rules env entries inbound ctx =
     (case sa_add_loop env inbound 0 entries (ctx, 0) of ((ctx', giv), r) \<Rightarrow> (ctx', r))"

definition sa_out_add_rules :: "'d init_env \<Rightarrow> ipsec_sa list \<Rightarrow> 'd sa_ctx \<Rightarrow> 'd sa_ctx \<times> errno option" where
  "sa_out_add_rules env entries ctx = sa_add_rules env entries False ctx"

definition sa_in_add_rules :: "'d init_env \<Rightarrow> ipsec_sa list \<Rightarrow> 'd sa_ctx \<Rightarrow> 'd sa_ctx \<times> errno option" where
  "sa_in_add_rules env entries ctx = sa_add_rules env entries True ctx"

section \<open>The objects of the IPsec library\<close>

definition fill_ipsec_app_sa_prm :: "app_sa_prm \<Rightarrow> ipsec_sa_prm" where
  "fill_ipsec_app_sa_prm ap =
     \<lparr>pr_flags = prm_flags ap, pr_esn = prm_enable_esn ap AND 1, pr_esn_value = 0,
      pr_window = prm_window_size ap, pr_userdata = None, pr_spi = 0, pr_salt = 0, pr_direction = DIR_UNSET,
      pr_mode = MODE_UNSET, pr_udp_encap = 0, pr_sport = 0, pr_dport = 0, pr_ecn = False,
      pr_copy_dscp = False, pr_body = Prm_unset, pr_xform = None\<rparr>"

text \<open>An error leaves the parameter block \<open>prm0\<close> as it was.\<close>

definition fill_ipsec_sa_prm ::
  "'d init_env \<Rightarrow> nat \<Rightarrow> ipsec_sa \<Rightarrow> xf_ref option \<Rightarrow> outer_hdr \<Rightarrow> outer_hdr \<Rightarrow> ipsec_sa_prm \<Rightarrow> ipsec_sa_prm \<times> errno option" where
  "fill_ipsec_sa_prm env i ss xforms v4 v6 prm0 =
     (case get_spi_proto env (spi ss) (direction ss) of
        Inl e \<Rightarrow> (prm0, Some e)
      | Inr p \<Rightarrow>
          (let p1 = (fill_ipsec_app_sa_prm (env_prm (in_dev env)))
                 \<lparr>pr_userdata := Some i, pr_spi := spi ss, pr_salt := salt ss, pr_direction := direction ss,
                  pr_mode := (if is_transport (flags ss) then MODE_TRANSPORT else MODE_TUNNEL),
                  pr_udp_encap := udp_encap ss AND 1, pr_dport := udp_dport ss, pr_sport := udp_sport ss,
                  pr_ecn := True, pr_copy_dscp := True\<rparr>;
               p2 = (if 0 < esn ss then p1\<lparr>pr_esn := 1, pr_esn_value := esn ss\<rparr> else p1);
               p3 = p2\<lparr>pr_body := (if is_ip4_tunnel (flags ss) then Prm_tunnel v4 20 (proto_num p)
                                   else if is_ip6_tunnel (flags ss) then Prm_tunnel v6 40 (proto_num p)
                                   else Prm_transport (proto_num p))\<rparr>
           in (p3\<lparr>pr_xform := xforms\<rparr>, None)))"

text \<open>\<open>h\<close> is the session handle, \<open>i\<close> the library object; a failed preparation clears the session.\<close>

definition fill_ipsec_session_sa ::
  "'d init_env \<Rightarrow> nat \<Rightarrow> rte_ipsec_session \<Rightarrow> (rte_ipsec_session \<times> nat option) \<times> errno option" where
  "fill_ipsec_session_sa env i ss =
     (if ses_type ss = TYPE_INLINE_CRYPTO \<or> ses_type ss = TYPE_INLINE_PROTOCOL then
        (case ses ss of
           None \<Rightarrow> ((ss, Some i), None)
         | Some h \<Rightarrow>
             (case in_prepare env h of
                None \<Rightarrow> ((ss, Some i), None)
              | Some e \<Rightarrow> ((zero_session, None), Some e)))
      else ((ss, Some i), None))"

definition outer_v4 :: "ipsec_sa \<Rightarrow> outer_hdr" where
  "outer_v4 sa = Hdr4 0x45 IPDEFTTL (if udp_encap sa \<noteq> 0 then 17 else 50) (ip4 (src sa)) (ip4 (dst sa))"

definition outer_v6 :: "ipsec_sa \<Rightarrow> outer_hdr" where
  "outer_v6 sa = Hdr6 (bswap32 (push_bit 28 6)) (if udp_encap sa \<noteq> 0 then 17 else 50)
     (if is_ip6_tunnel (flags sa) then ip6 (src sa) else replicate 16 0)
     (if is_ip6_tunnel (flags sa) then ip6 (dst sa) else replicate 16 0)"

text \<open>The registration with the telemetry of the library has no result and is left out.\<close>

definition ipsec_sa_init :: "'d init_env \<Rightarrow> nat \<Rightarrow> nat \<Rightarrow> 'd sa_ctx \<Rightarrow> 'd sa_ctx \<times> errno option" where
  "ipsec_sa_init env sa_size i ctx =
     (let lsa = cs_sa ctx ! i in
      case fill_ipsec_sa_prm env i lsa (cs_xforms ctx ! i) (outer_v4 lsa) (outer_v6 lsa) (in_stack env) of
        (prm, Some e) \<Rightarrow> (ctx, Some e)
      | (prm, None) \<Rightarrow>
          (case in_sa_init env prm sa_size of
             Some e \<Rightarrow> (ctx, Some e)
           | None \<Rightarrow>
               (let ctx1 = ctx\<lparr>cs_satbl := (cs_satbl ctx)[i := Some prm]\<rparr> in
                case fill_ipsec_session_sa env i (primary lsa) of ((s1, o1), r1) \<Rightarrow>
                  (let lsa1 = lsa\<lparr>primary := s1\<rparr>;
                       ctx2 = (put_sa i lsa1 ctx1)\<lparr>cs_prim_sa := (cs_prim_sa ctx)[i := o1]\<rparr>
                   in if r1 \<noteq> None then (ctx2, r1)
                      else if fallback_sessions lsa1 = 1 then
                        (case fill_ipsec_session_sa env i (fallback lsa1) of ((s2, o2), r2) \<Rightarrow>
                           ((put_sa i (lsa1\<lparr>fallback := s2\<rparr>) ctx2)\<lparr>cs_fb_sa := (cs_fb_sa ctx)[i := o2]\<rparr>, r2))
                      else (ctx2, None)))))"

fun satbl_loop :: "'d init_env \<Rightarrow> nat \<Rightarrow> nat list \<Rightarrow> 'd sa_ctx \<Rightarrow> 'd sa_ctx \<times> errno option" where
  "satbl_loop env sz [] ctx = (ctx, None)"
| "satbl_loop env sz (i # is) ctx =
     (case ipsec_sa_init env sz i ctx of
        (ctx', Some e) \<Rightarrow> (ctx', Some e)
      | (ctx', None) \<Rightarrow> satbl_loop env sz is ctx')"

text \<open>
  \<open>ipsec_satbl_init\<close>: the size is determined from the parameters of the first SA; when they cannot be
  filled the error is not looked at and the uninitialised block is used. The product is 32 bits wide.
\<close>

definition ipsec_satbl_init :: "'d init_env \<Rightarrow> nat \<Rightarrow> 'd sa_ctx \<Rightarrow> 'd sa_ctx \<times> errno option" where
  "ipsec_satbl_init env nb_ent ctx =
     (case fst (fill_ipsec_sa_prm env 0 (cs_sa ctx ! 0) (cs_xforms ctx ! 0) (Hdr4 0 0 0 0 0) (Hdr4 0 0 0 0 0) (in_stack env)) of prm \<Rightarrow>
      case in_sa_size env prm of
        Inl e \<Rightarrow> (ctx, Some e)
      | Inr sz \<Rightarrow>
          (if \<not> in_satbl env (of_nat sz * of_nat nb_ent) then (ctx, Some ENOMEM)
           else satbl_loop env sz [0..<nb_ent] (ctx\<lparr>cs_satbl := replicate nb_ent None\<rparr>)))"

section \<open>Initialisation of a socket\<close>

record 'd socket_sa =
  so_in :: "'d sa_ctx option"
  so_out :: "'d sa_ctx option"

datatype sa_exit = Sa_in_initialized | Sa_out_initialized | Sa_in_create | Sa_in_sad | Sa_in_satbl
  | Sa_out_create | Sa_out_satbl

definition library_mode :: "'d init_env \<Rightarrow> bool" where
  "library_mode env \<longleftrightarrow> prm_enable (env_prm (in_dev env)) \<noteq> 0"

text \<open>The results of \<open>sa_in_add_rules\<close> and \<open>sa_out_add_rules\<close> are not looked at.\<close>

definition sa_init_in :: "'d init_env \<Rightarrow> sa_db \<Rightarrow> 'd socket_sa \<Rightarrow> sa_exit + 'd socket_sa" where
  "sa_init_in env db ctx =
     (let n = length (vec_elems (sas_in db)) in
      if n = 0 then Inr ctx
      else case sa_create env ''sa_in'' n of
        None \<Rightarrow> Inl Sa_in_create
      | Some c \<Rightarrow>
          (case ipsec_sad_create (in_sad env) (in_sad_namesize env) ''sa_in'' (sa_in_cnt db) (cs_sad c) of
             Inl e \<Rightarrow> Inl Sa_in_sad
           | Inr sad \<Rightarrow>
               (let c1 = fst (sa_in_add_rules env (vec_elems (sas_in db)) (c\<lparr>cs_sad := sad\<rparr>)) in
                if library_mode env then
                  (case ipsec_satbl_init env n c1 of
                     (c2, None) \<Rightarrow> Inr (ctx\<lparr>so_in := Some c2\<rparr>)
                   | (c2, Some e) \<Rightarrow> Inl Sa_in_satbl)
                else Inr (ctx\<lparr>so_in := Some c1\<rparr>))))"

definition sa_init_out :: "'d init_env \<Rightarrow> sa_db \<Rightarrow> 'd socket_sa \<Rightarrow> sa_exit + 'd socket_sa" where
  "sa_init_out env db ctx =
     (let n = length (vec_elems (sas_out db)) in
      if n = 0 then Inr ctx
      else case sa_create env ''sa_out'' n of
        None \<Rightarrow> Inl Sa_out_create
      | Some c \<Rightarrow>
          (let c1 = fst (sa_out_add_rules env (vec_elems (sas_out db)) c) in
           if library_mode env then
             (case ipsec_satbl_init env n c1 of
                (c2, None) \<Rightarrow> Inr (ctx\<lparr>so_out := Some c2\<rparr>)
              | (c2, Some e) \<Rightarrow> Inl Sa_out_satbl)
           else Inr (ctx\<lparr>so_out := Some c1\<rparr>)))"

definition sa_init :: "'d init_env \<Rightarrow> sa_db \<Rightarrow> 'd socket_sa \<Rightarrow> sa_exit + 'd socket_sa" where
  "sa_init env db ctx =
     (if so_in ctx \<noteq> None then Inl Sa_in_initialized
      else if so_out ctx \<noteq> None then Inl Sa_out_initialized
      else case sa_init_in env db ctx of Inl e \<Rightarrow> Inl e | Inr ctx1 \<Rightarrow> sa_init_out env db ctx1)"

section \<open>Offloads of a port\<close>

datatype tx_offload = TX_SECURITY | TX_TCP_TSO | TX_IPV4_CKSUM

definition offload_in :: "u16 \<Rightarrow> ipsec_sa \<Rightarrow> bool \<Rightarrow> bool" where
  "offload_in port r rx = (if is_inline r \<and> portid r = port then True else rx)"

definition offload_out :: "dev_caps \<Rightarrow> u16 \<Rightarrow> ipsec_sa \<Rightarrow> tx_offload set \<Rightarrow> tx_offload set" where
  "offload_out c port r tx =
     (let ck = (if cap_tx_cksum c then insert TX_IPV4_CKSUM else id) in
      if portid r = port then
        (if ses_type (primary r) = TYPE_INLINE_PROTOCOL then
           (if mss r \<noteq> 0 then insert TX_TCP_TSO (insert TX_IPV4_CKSUM (insert TX_SECURITY tx)) else insert TX_SECURITY tx)
         else if ses_type (primary r) = TYPE_INLINE_CRYPTO then
           ck (if mss r \<noteq> 0 then insert TX_TCP_TSO (insert TX_SECURITY tx) else insert TX_SECURITY tx)
         else ck tx)
      else ck tx)"

text \<open>\<open>sa_check_offloads\<close>; the error is the exit of the program.\<close>

definition sa_check_offloads :: "'d init_env \<Rightarrow> sa_db \<Rightarrow> u16 \<Rightarrow> errno + bool \<times> tx_offload set" where
  "sa_check_offloads env db port =
     (case in_caps env port of
        Inl e \<Rightarrow> Inl e
      | Inr c \<Rightarrow> Inr (fold (offload_in port) (vec_elems (sas_in db)) False,
                     fold (offload_out c port) (vec_elems (sas_out db)) {}))"

end
