(* ===== verification/SA_Init_Props.thy ===== *)
theory SA_Init_Props
  imports SA_Init
begin

text \<open>
  What the installation of the security associations guarantees: the transforms of every installed
  SA, its database entry and session, and what is left behind when a rule is refused.
\<close>

section \<open>What an SA asks for\<close>

text \<open>
  The transforms of an SA in the order the device applies them: inbound, authentication comes before
  decryption, outbound after encryption; AEAD and GMAC need one transform only.
\<close>

definition sa_transforms :: "bool \<Rightarrow> u16 \<Rightarrow> u16 \<Rightarrow> nat \<Rightarrow> ipsec_sa \<Rightarrow> xf_body list" where
  "sa_transforms inbound aad_length giv i e =
     (if is_aead e then [aead_body inbound aad_length i e]
      else if auth_algo e = AUTH_AES_GMAC then [auth_body inbound giv i e]
      else if inbound then [auth_body True giv i e, cipher_body True i e]
      else [cipher_body False i e, auth_body False giv i e])"

text \<open>The chain of transforms a pointer heads; three steps are enough, the context's chains have at most two.\<close>

definition xf_deref :: "ipsec_xf list \<Rightarrow> xf_ref \<Rightarrow> sym_xform" where
  "xf_deref xs r = (case r of XA i \<Rightarrow> xf_a (xs ! i) | XB i \<Rightarrow> xf_b (xs ! i))"

fun xf_chain :: "nat \<Rightarrow> ipsec_xf list \<Rightarrow> xf_ref option \<Rightarrow> xf_body list" where
  "xf_chain 0 xs r = []"
| "xf_chain (Suc n) xs None = []"
| "xf_chain (Suc n) xs (Some r) = xf_body (xf_deref xs r) # xf_chain n xs (xf_next (xf_deref xs r))"

definition gmac_iv :: "ipsec_sa list \<Rightarrow> nat \<Rightarrow> u16" where
  "gmac_iv entries k =
     (if \<exists>e \<in> set (take k entries). \<not> is_aead e \<and> auth_algo e = AUTH_AES_GMAC then 12 else 0)"

text \<open>The databases an inbound SA enters.\<close>

definition ent4 :: "'d init_env \<Rightarrow> ipsec_sa \<Rightarrow> bool" where
  "ent4 env e \<longleftrightarrow> enters4 e (sp4_spi_present (in_sp4 env) (spi e) True \<noteq> None)"

definition ent6 :: "'d init_env \<Rightarrow> ipsec_sa \<Rightarrow> bool" where
  "ent6 env e \<longleftrightarrow> enters6 e (sp6_spi_present (in_sp6 env) (spi e) True \<noteq> None)"

definition found_at :: "'d init_env \<Rightarrow> ipsec_sa \<Rightarrow> nat \<Rightarrow> 'd ipsec_sad \<Rightarrow> bool" where
  "found_at env e i sad \<longleftrightarrow>
     (\<forall>x. fst x = bswap32 (spi e) \<longrightarrow>
       (ent4 env e \<longrightarrow> db_find (in_sad env) (sad_v4 sad) x = Some i) \<and>
       (ent6 env e \<longrightarrow> db_find (in_sad env) (sad_v6 sad) x = Some i))"

text \<open>The SA with index \<open>i\<close> is in place.\<close>

definition installed :: "'d init_env \<Rightarrow> bool \<Rightarrow> ipsec_sa list \<Rightarrow> 'd sa_ctx \<Rightarrow> nat \<Rightarrow> bool" where
  "installed env inbound entries ctx i \<longleftrightarrow>
     (let e = entries ! i; s = cs_sa ctx ! i in
      spi s = spi e \<and> seq s = 0 \<and> direction s = direction e \<and>
      cipher_key s = cipher_key e \<and> auth_key s = auth_key e \<and>
      xf_chain 3 (cs_xf ctx) (cs_xforms ctx ! i) =
        sa_transforms inbound (aad_extra env) (gmac_iv entries (Suc i)) i e \<and>
      (without_transport_version (flags e) = IP4_TUNNEL \<longrightarrow>
         ip4 (src s) = bswap32 (ip4 (src e)) \<and> ip4 (dst s) = bswap32 (ip4 (dst e))) \<and>
      (is_inline e \<longrightarrow> ses (primary s) \<noteq> None) \<and>
      (inbound \<longrightarrow> found_at env e i (cs_sad ctx)))"

section \<open>The transforms\<close>

lemma set_xforms_fields:
  assumes "set_xforms inbound aadl giv i s xf0 = Inr (giv', x, r)"
  shows "(if is_aead s then r = XA i \<and> xf_a x = \<lparr>xf_body = aead_body inbound aadl i s, xf_next = None\<rparr>
     else if auth_algo s = AUTH_AES_GMAC then
       (if inbound then r = XA i \<and> xf_a x = \<lparr>xf_body = auth_body inbound giv' i s, xf_next = None\<rparr>
        else r = XB i \<and> xf_b x = \<lparr>xf_body = auth_body inbound giv' i s, xf_next = None\<rparr>)
     else r = XA i \<and>
       xf_a x = \<lparr>xf_body = (if inbound then auth_body True giv' i s else cipher_body False i s), xf_next = Some (XB i)\<rparr> \<and>
       xf_b x = \<lparr>xf_body = (if inbound then cipher_body True i s else auth_body False giv' i s), xf_next = None\<rparr>)"
  using assms by (auto simp: set_xforms_def Let_def split: if_splits)

lemma set_xforms_chain:
  assumes "set_xforms inbound aadl giv i s xf0 = Inr (giv', x, r)" and "xs ! i = x"
  shows "xf_chain 3 xs (Some r) = sa_transforms inbound aadl giv' i s"
  using set_xforms_fields [OF assms(1)] assms(2)
  by (simp add: sa_transforms_def numeral_3_eq_3 xf_deref_def split: if_split_asm)

lemma set_xforms_giv:
  assumes "set_xforms inbound aadl giv i s xf0 = Inr (giv', x, r)"
  shows "giv' = (if \<not> is_aead s \<and> auth_algo s = AUTH_AES_GMAC then 12 else giv)"
  using assms by (auto simp: set_xforms_def Let_def split: if_splits)

lemma gmac_iv_Suc:
  "i < length entries \<Longrightarrow>
     gmac_iv entries (Suc i) =
       (if \<not> is_aead (entries ! i) \<and> auth_algo (entries ! i) = AUTH_AES_GMAC then 12 else gmac_iv entries i)"
  by (auto simp: gmac_iv_def take_Suc_conv_app_nth)

section \<open>One rule\<close>

text \<open>The fields of the SA that installation never touches, and what it may do to the others.\<close>

definition same_config :: "ipsec_sa \<Rightarrow> ipsec_sa \<Rightarrow> bool" where
  "same_config e s \<longleftrightarrow>
     spi s = spi e \<and> direction s = direction e \<and> cipher_key s = cipher_key e \<and> auth_key s = auth_key e \<and>
     cipher_algo s = cipher_algo e \<and> auth_algo s = auth_algo e \<and> aead_algo s = aead_algo e \<and>
     cipher_key_len s = cipher_key_len e \<and> auth_key_len s = auth_key_len e \<and> iv_len s = iv_len e \<and>
     digest_len s = digest_len e \<and> aad_len s = aad_len e \<and> seq s = 0"

lemma same_config_transforms:
  assumes "same_config e s"
  shows "sa_transforms inbound aadl giv i s = sa_transforms inbound aadl giv i e"
    and "is_aead s = is_aead e"
  using assms
  by (auto simp: same_config_def sa_transforms_def is_aead_def aead_body_def auth_body_def cipher_body_def)

lemma sa_add_address_config:
  "sa_add_address_inline_crypto env sa = (sa', r) \<Longrightarrow> seq sa = 0 \<Longrightarrow> same_config sa sa' \<and> primary sa' = primary sa"
  by (auto simp: sa_add_address_inline_crypto_def same_config_def Let_def
      split: sum.splits spi_proto.splits prod.splits if_splits)

lemma sa_addresses_config:
  assumes "sa_addresses env (e\<lparr>seq := 0\<rparr>) = (s, r)"
  shows "same_config e s \<and> primary s = primary e"
    and "without_transport_version (flags e) = IP4_TUNNEL \<Longrightarrow>
      ip4 (src s) = bswap32 (ip4 (src e)) \<and> ip4 (dst s) = bswap32 (ip4 (dst e))"
proof -
  have c: "same_config (e\<lparr>seq := 0\<rparr>) s = same_config e s" by (simp add: same_config_def)
  show "same_config e s \<and> primary s = primary e"
    using assms sa_add_address_config [of env "e\<lparr>seq := 0\<rparr>" s r] unfolding c
    by (auto simp: sa_addresses_def same_config_def split: if_splits)
  show "ip4 (src s) = bswap32 (ip4 (src e)) \<and> ip4 (dst s) = bswap32 (ip4 (dst e))"
    if "without_transport_version (flags e) = IP4_TUNNEL"
    using assms that by (auto simp: sa_addresses_def)
qed

lemma inline_session_handle:
  assumes "create_inline_session env sa fl = (None, sa', fl')" and "is_inline sa"
  shows "\<exists>p. sa' = sa\<lparr>primary := p\<rparr> \<and> ses p \<noteq> None"
  using assms
  by (auto simp: create_inline_session_def is_inline_def inline_crypto_session_def inline_protocol_session_def
      with_cap_def Let_def split: sum.splits if_splits option.splits prod.splits)

lemma sa_sessions_ok:
  assumes "sa_sessions env inbound sa fl = (None, sa', fl')"
  shows "\<exists>p. sa' = sa\<lparr>primary := p\<rparr> \<and> (is_inline sa \<longrightarrow> ses p \<noteq> None)"
proof (cases "is_inline sa")
  case True
  with assms obtain fl1 where "create_inline_session (in_dev env) sa fl = (None, sa', fl1)"
    by (auto simp: sa_sessions_def split: prod.splits option.splits)
  from inline_session_handle [OF this True] show ?thesis by auto
next
  case False
  with assms have "sa' = sa" by (auto simp: sa_sessions_def split: prod.splits option.splits)
  then show ?thesis using False by (intro exI [of _ "primary sa"]) simp
qed

text \<open>Off the index of the rule the arrays of the context do not change.\<close>

definition agree_off :: "nat \<Rightarrow> 'd sa_ctx \<Rightarrow> 'd sa_ctx \<Rightarrow> bool" where
  "agree_off i c c' \<longleftrightarrow>
     length (cs_sa c') = length (cs_sa c) \<and> length (cs_xf c') = length (cs_xf c) \<and>
     length (cs_xforms c') = length (cs_xforms c) \<and> length (cs_flow c') = length (cs_flow c) \<and>
     (\<forall>j. j \<noteq> i \<longrightarrow> cs_sa c' ! j = cs_sa c ! j \<and> cs_xf c' ! j = cs_xf c ! j \<and> cs_xforms c' ! j = cs_xforms c ! j)"

lemma sa_add_one_frame:
  assumes "sa_add_one env inbound i e (ctx, giv) = ((ctx', giv'), r)"
  shows "agree_off i ctx ctx' \<and>
    (cs_sad ctx' = cs_sad ctx \<or> (\<exists>r'. add_to_sad env inbound i e (cs_sad ctx) = (cs_sad ctx', r') \<and> (r = None \<longrightarrow> r' = None)))"
  using assms
  by (auto simp: sa_add_one_def agree_off_def copy_entry_def put_sa_def Let_def
      split: if_splits prod.splits option.splits sum.splits)

section \<open>The databases\<close>

definition dbs_ok :: "'d init_env \<Rightarrow> ipsec_sa list \<Rightarrow> 'd ipsec_sad \<Rightarrow> bool" where
  "dbs_ok env entries sad \<longleftrightarrow> db_ok (in_sad env) entries (sad_v4 sad) \<and> db_ok (in_sad env) entries (sad_v6 sad)"

definition sad_grows :: "'d init_env \<Rightarrow> 'd ipsec_sad \<Rightarrow> 'd ipsec_sad \<Rightarrow> bool" where
  "sad_grows env sad sad' \<longleftrightarrow>
     (sad_v4 sad' = None \<longleftrightarrow> sad_v4 sad = None) \<and> (sad_v6 sad' = None \<longleftrightarrow> sad_v6 sad = None) \<and>
     (\<forall>x q. (db_find (in_sad env) (sad_v4 sad) x = Some q \<longrightarrow> db_find (in_sad env) (sad_v4 sad') x = Some q) \<and>
            (db_find (in_sad env) (sad_v6 sad) x = Some q \<longrightarrow> db_find (in_sad env) (sad_v6 sad') x = Some q))"

lemma sad_grows_refl [simp]: "sad_grows env sad sad"
  by (simp add: sad_grows_def)

lemma sad_grows_trans: "sad_grows env a b \<Longrightarrow> sad_grows env b c \<Longrightarrow> sad_grows env a c"
  by (auto simp: sad_grows_def)

lemma sad_insert_if_none: "sad_insert_if b api n d w p = Inr d' \<Longrightarrow> d' = None \<longleftrightarrow> d = None"
  by (auto simp: sad_insert_if_def sad_insert_def split: if_splits option.splits sum.splits)

text \<open>The entries of the databases are the first \<open>k\<close> SAs, those that enter the family.\<close>

definition db_from :: "'d init_env \<Rightarrow> ipsec_sa list \<Rightarrow> nat \<Rightarrow> 'd ipsec_sad \<Rightarrow> bool" where
  "db_from env entries k sad \<longleftrightarrow>
     (\<forall>x p. (db_find (in_sad env) (sad_v4 sad) x = Some p \<longrightarrow> p < k \<and> ent4 env (entries ! p)) \<and>
            (db_find (in_sad env) (sad_v6 sad) x = Some p \<longrightarrow> p < k \<and> ent6 env (entries ! p)))"

lemma found_at_grows: "found_at env e i sad \<Longrightarrow> sad_grows env sad sad' \<Longrightarrow> found_at env e i sad'"
  by (simp add: found_at_def sad_grows_def)

lemma add_to_sad_ok:
  assumes "add_to_sad env inbound i (entries ! i) sad = (sad', r)" and "sad_api_ok (in_sad env)"
    and "dbs_ok env entries sad" and "i < length entries"
  shows "dbs_ok env entries sad' \<and> sad_grows env sad sad' \<and>
    (inbound \<and> r = None \<longrightarrow> found_at env (entries ! i) i sad') \<and>
    (db_from env entries i sad \<and> r = None \<longrightarrow> db_from env entries (Suc i) sad')"
proof (cases inbound)
  case False
  then show ?thesis using assms(1,3) by (auto simp: add_to_sad_def db_from_def less_Suc_eq)
next
  case True
  let ?e = "entries ! i"
  let ?p4 = "ent4 env ?e"
  let ?p6 = "ent6 env ?e"
  have ok: "db_ok (in_sad env) entries (sad_v4 sad)" "db_ok (in_sad env) entries (sad_v6 sad)"
    using assms(3) by (simp_all add: dbs_ok_def)
  show ?thesis
  proof (cases "sad_insert_if ?p4 (in_sad env) 4 (sad_v4 sad) (spi ?e) i")
    case (Inl e)
    then have "sad' = sad" "r = Some e"
      using assms(1) True by (simp_all add: add_to_sad_def ipsec_sad_add_cases ent4_def ent6_def)
    then show ?thesis using assms(3) by simp
  next
    case d4: (Inr d4)
    note i4 = sad_insert_if_ok [OF d4 assms(2) ok(1) assms(4) refl]
    show ?thesis
    proof (cases "sad_insert_if ?p6 (in_sad env) 16 (sad_v6 sad) (spi ?e) i")
      case (Inl e)
      with d4 assms(1) True have "sad' = sad\<lparr>sad_v4 := d4\<rparr>" "r = Some e"
        by (simp_all add: add_to_sad_def ipsec_sad_add_cases ent4_def ent6_def)
      then show ?thesis using i4 ok(2) sad_insert_if_none [OF d4] by (auto simp: dbs_ok_def sad_grows_def)
    next
      case d6: (Inr d6)
      note i6 = sad_insert_if_ok [OF d6 assms(2) ok(2) assms(4) refl]
      from d4 d6 assms(1) True have s: "sad' = sad\<lparr>sad_v4 := d4, sad_v6 := d6\<rparr>" "r = None"
        by (simp_all add: add_to_sad_def ipsec_sad_add_cases ent4_def ent6_def)
      have "dbs_ok env entries sad'" using i4 i6 by (simp add: s dbs_ok_def)
      moreover have "sad_grows env sad sad'" using i4 i6 sad_insert_if_none [OF d4] sad_insert_if_none [OF d6] by (auto simp: s sad_grows_def)
      moreover have "found_at env ?e i sad'" using i4 i6 by (simp add: s found_at_def)
      moreover have "db_from env entries (Suc i) sad'" if "db_from env entries i sad"
        using that i4 i6 by (auto simp: s db_from_def less_Suc_eq split: if_splits)
      ultimately show ?thesis by blast
    qed
  qed
qed

section \<open>The loop\<close>

text \<open>The SA with index \<open>i\<close> as the loop body left it.\<close>

definition placed :: "'d init_env \<Rightarrow> bool \<Rightarrow> ipsec_sa list \<Rightarrow> 'd sa_ctx \<Rightarrow> nat \<Rightarrow> bool" where
  "placed env inbound entries ctx i \<longleftrightarrow>
     (\<exists>s giv xf0 r p.
        sa_addresses env ((entries ! i)\<lparr>seq := 0\<rparr>) = (s, None) \<and>
        set_xforms inbound (aad_extra env) giv i s xf0 = Inr (gmac_iv entries (Suc i), cs_xf ctx ! i, r) \<and>
        cs_xforms ctx ! i = Some r \<and> cs_sa ctx ! i = s\<lparr>primary := p\<rparr> \<and> (is_inline s \<longrightarrow> ses p \<noteq> None))"

lemma placed_installed:
  assumes "placed env inbound entries ctx i" and "inbound \<longrightarrow> found_at env (entries ! i) i (cs_sad ctx)"
  shows "installed env inbound entries ctx i"
proof -
  from assms(1) obtain s giv xf0 r p where
    ad: "sa_addresses env ((entries ! i)\<lparr>seq := 0\<rparr>) = (s, None)"
    and x: "set_xforms inbound (aad_extra env) giv i s xf0 = Inr (gmac_iv entries (Suc i), cs_xf ctx ! i, r)"
    and r: "cs_xforms ctx ! i = Some r" "cs_sa ctx ! i = s\<lparr>primary := p\<rparr>" "is_inline s \<longrightarrow> ses p \<noteq> None"
    unfolding placed_def by blast
  note c = sa_addresses_config [OF ad]
  have "is_inline s = is_inline (entries ! i)" using c(1) by (simp add: is_inline_def)
  then show ?thesis
    using c(2) conjunct1 [OF c(1), unfolded same_config_def] set_xforms_chain [OF x refl] r assms(2)
      same_config_transforms(1) [OF conjunct1 [OF c(1)]]
    by (simp add: installed_def Let_def)
qed

lemma placed_off:
  "agree_off i c c' \<Longrightarrow> j \<noteq> i \<Longrightarrow> placed env inbound entries c' j = placed env inbound entries c j"
  by (simp add: agree_off_def placed_def)

lemma sa_add_one_placed:
  assumes "sa_add_one env inbound i (entries ! i) (ctx, gmac_iv entries i) = ((ctx', giv'), None)"
    and "i < length entries" and "length (cs_xf ctx) = length (cs_sa ctx)" and "length (cs_xforms ctx) = length (cs_sa ctx)"
  shows "placed env inbound entries ctx' i \<and> giv' = gmac_iv entries (Suc i) \<and>
    (\<exists>sad. add_to_sad env inbound i (entries ! i) (cs_sad ctx) = (sad, None) \<and> cs_sad ctx' = sad)"
proof -
  let ?e = "entries ! i"
  from assms(1) obtain sad s x r f0 sa3 fl3 where i: "i < length (cs_sa ctx)"
    and sad: "add_to_sad env inbound i ?e (cs_sad ctx) = (sad, None)"
    and ad: "sa_addresses env (?e\<lparr>seq := 0\<rparr>) = (s, None)"
    and x: "set_xforms inbound (aad_extra env) (gmac_iv entries i) i s (cs_xf ctx ! i) = Inr (giv', x, r)"
    and ss: "sa_sessions env inbound s f0 = (None, sa3, fl3)"
    and c': "cs_xf ctx' = (cs_xf ctx)[i := x]" "cs_xforms ctx' ! i = ((cs_xforms ctx)[i := Some r]) ! i"
      "cs_sa ctx' ! i = ((cs_sa ctx)[i := sa3]) ! i" "cs_sad ctx' = sad"
    by (auto simp: sa_add_one_def copy_entry_def put_sa_def Let_def
        split: if_splits prod.splits option.splits sum.splits)
  have g: "giv' = gmac_iv entries (Suc i)"
    using set_xforms_giv [OF x] sa_addresses_config(1) [OF ad] gmac_iv_Suc [OF assms(2)]
      same_config_transforms(2) [of ?e s]
    by (auto simp: same_config_def)
  from sa_sessions_ok [OF ss] obtain p where "sa3 = s\<lparr>primary := p\<rparr>" "is_inline s \<longrightarrow> ses p \<noteq> None" by blast
  then have "placed env inbound entries ctx' i"
    using ad x c' i assms(3,4) unfolding placed_def g by auto
  then show ?thesis using g sad c'(4) by blast
qed

text \<open>
  Why \<open>sa_add_rules\<close> refuses an SA. A database refuses it when it was not created, when an earlier SA
  has entered it with the same SPI, or when the library does not take the entry.
\<close>

definition db_refuses :: "'d sad_api \<Rightarrow> 'd option \<Rightarrow> u32 \<Rightarrow> nat \<Rightarrow> bool \<Rightarrow> bool" where
  "db_refuses api d w k taken \<longleftrightarrow>
     d = None \<or> taken \<or> (\<exists>db er. d = Some db \<and> sad_add api db (bswap32 w) k = Inl er)"

definition spi_taken :: "(ipsec_sa \<Rightarrow> bool) \<Rightarrow> ipsec_sa list \<Rightarrow> nat \<Rightarrow> bool" where
  "spi_taken P entries k \<longleftrightarrow> (\<exists>j<k. P (entries ! j) \<and> spi (entries ! j) = spi (entries ! k))"

text \<open>
  An inline SA is refused when its port lacks the offload, when its policies do not give two host
  addresses in transport mode, or when the session cannot be created; any SA without a known cipher.
\<close>

definition inline_refused :: "'d init_env \<Rightarrow> bool \<Rightarrow> ipsec_sa \<Rightarrow> bool" where
  "inline_refused env inbound e \<longleftrightarrow> is_inline e \<and>
     (check_eth_dev_caps env (portid e) inbound (mss e) \<noteq> None \<or> snd (sa_addresses env (e\<lparr>seq := 0\<rparr>)) \<noteq> None \<or>
      fst (create_inline_session (in_dev env) (fst (sa_addresses env (e\<lparr>seq := 0\<rparr>))) zero_flow) \<noteq> None)"

definition refused :: "'d init_env \<Rightarrow> bool \<Rightarrow> ipsec_sa list \<Rightarrow> 'd ipsec_sad \<Rightarrow> nat \<Rightarrow> bool" where
  "refused env inbound entries sad k \<longleftrightarrow>
     (let e = entries ! k in
      inbound \<and> ent4 env e \<and> db_refuses (in_sad env) (sad_v4 sad) (spi e) k (spi_taken (ent4 env) entries k) \<or>
      inbound \<and> ent6 env e \<and> db_refuses (in_sad env) (sad_v6 sad) (spi e) k (spi_taken (ent6 env) entries k) \<or>
      inline_refused env inbound e \<or>
      \<not> is_aead e \<and> cipher_algo e = CIPHER_UNSET)"

lemma sad_insert_refused:
  assumes "sad_insert api n d w p = Inl er"
  shows "d = None \<or> (\<exists>x q. fst x = bswap32 w \<and> db_find api d x = Some q) \<or>
    (\<exists>db er. d = Some db \<and> sad_add api db (bswap32 w) p = Inl er)"
  using assms by (force simp: sad_insert_def db_find_def split: option.splits if_splits sum.splits)

lemma bswap32_inj: "bswap32 a = bswap32 b \<Longrightarrow> a = b"
  using bswap32_bswap32 by metis

lemma insert_refuses:
  assumes "sad_insert_if b api n d (spi (entries ! k)) k = Inl er" and "db_ok api entries d"
    and "\<And>x q. db_find api d x = Some q \<Longrightarrow> q < k \<and> P (entries ! q)"
  shows "b \<and> db_refuses api d (spi (entries ! k)) k (spi_taken P entries k)"
proof -
  from assms(1) have b: "b" and i: "sad_insert api n d (spi (entries ! k)) k = Inl er"
    by (auto simp: sad_insert_if_def split: if_splits)
  have "spi_taken P entries k" if "fst x = bswap32 (spi (entries ! k))" "db_find api d x = Some q" for x q
  proof -
    have "fst x = bswap32 (spi (entries ! q))"
      using that(2) assms(2) db_okD(2) [of api entries _ x q] by (cases d) (simp_all add: db_find_def)
    then have "spi (entries ! q) = spi (entries ! k)" using that(1) bswap32_inj by simp
    then show ?thesis using assms(3) [OF that(2)] by (auto simp: spi_taken_def)
  qed
  then show ?thesis using b sad_insert_refused [OF i] by (auto simp: db_refuses_def)
qed

lemma add_to_sad_refused:
  assumes "add_to_sad env inbound k (entries ! k) sad = (sad', Some er)" and "dbs_ok env entries sad"
    and "db_from env entries k sad"
  shows "refused env inbound entries sad' k"
proof -
  let ?e = "entries ! k"
  have i: inbound using assms(1) by (auto simp: add_to_sad_def split: if_splits)
  have ok: "db_ok (in_sad env) entries (sad_v4 sad)" "db_ok (in_sad env) entries (sad_v6 sad)"
    using assms(2) by (simp_all add: dbs_ok_def)
  show ?thesis
  proof (cases "sad_insert_if (ent4 env ?e) (in_sad env) 4 (sad_v4 sad) (spi ?e) k")
    case (Inl x)
    then have "sad' = sad" using assms(1) i by (simp add: add_to_sad_def ipsec_sad_add_cases ent4_def)
    moreover have "ent4 env ?e \<and> db_refuses (in_sad env) (sad_v4 sad) (spi ?e) k (spi_taken (ent4 env) entries k)"
      by (rule insert_refuses [OF Inl ok(1)]) (use assms(3) in \<open>simp add: db_from_def del: split_paired_All\<close>)
    ultimately show ?thesis using i by (simp add: refused_def Let_def)
  next
    case d4: (Inr d4)
    then obtain x where x: "sad_insert_if (ent6 env ?e) (in_sad env) 16 (sad_v6 sad) (spi ?e) k = Inl x"
      and v6: "sad_v6 sad' = sad_v6 sad"
      using assms(1) i by (auto simp: add_to_sad_def ipsec_sad_add_cases ent4_def ent6_def split: sum.splits)
    have "ent6 env ?e \<and> db_refuses (in_sad env) (sad_v6 sad) (spi ?e) k (spi_taken (ent6 env) entries k)"
      by (rule insert_refuses [OF x ok(2)]) (use assms(3) in \<open>simp add: db_from_def del: split_paired_All\<close>)
    then show ?thesis using i v6 by (simp add: refused_def Let_def)
  qed
qed

lemma set_xforms_refused:
  "set_xforms inbound aadl giv i s xf = Inl er \<Longrightarrow> \<not> is_aead s \<and> cipher_algo s = CIPHER_UNSET"
  by (cases "cipher_algo s") (auto simp: set_xforms_def Let_def split: if_splits)

lemma sa_sessions_refused:
  "fst (sa_sessions env inbound sa fl) \<noteq> None \<Longrightarrow> is_inline sa \<and> fst (create_inline_session (in_dev env) sa fl) \<noteq> None"
  by (auto simp: sa_sessions_def split: prod.splits option.splits if_splits)

lemma sa_add_one_refused:
  assumes "sa_add_one env inbound k (entries ! k) (ctx, giv) = ((ctx', giv'), Some er)" and "k < length (cs_sa ctx)"
    and "k < length (cs_flow ctx)" and "spi (cs_sa ctx ! k) = 0" and "dbs_ok env entries (cs_sad ctx)"
    and "db_from env entries k (cs_sad ctx)"
  shows "refused env inbound entries (cs_sad ctx') k"
proof -
  let ?e = "entries ! k"
  obtain sad r where a: "add_to_sad env inbound k ?e (cs_sad ctx) = (sad, r)" by fastforce
  obtain s q where ad: "sa_addresses env (?e\<lparr>seq := 0\<rparr>) = (s, q)" by fastforce
  have inl: "is_inline ?e" if "q \<noteq> None"
    using ad that by (auto simp: sa_addresses_def is_inline_def split: if_splits)
  note c = sa_addresses_config(1) [OF ad]
  have same: "is_inline s = is_inline ?e" "is_aead s = is_aead ?e" "cipher_algo s = cipher_algo ?e"
    using c by (auto simp: is_inline_def is_aead_def same_config_def)
  note one = assms(1) [unfolded sa_add_one_def copy_entry_def put_sa_def Let_def] 
  show ?thesis
  proof (cases r)
    case (Some x)
    then have "cs_sad ctx' = sad" using one a assms(2,4) by auto
    then show ?thesis using add_to_sad_refused [OF _ assms(5,6)] a Some by blast
  next
    case None
    consider "inline_refused env inbound ?e"
      | "\<not> (is_inline ?e \<and> check_eth_dev_caps env (portid ?e) inbound (mss ?e) \<noteq> None)" "q = None"
        "fst (create_inline_session (in_dev env) s zero_flow) = None \<or> \<not> is_inline ?e"
      using inl unfolding inline_refused_def ad fst_conv snd_conv by metis
    then show ?thesis
    proof cases
      case 2
      then have ses: "fst (sa_sessions env inbound s zero_flow) = None" using sa_sessions_refused same(1) by blast
      have "\<exists>xf er'. set_xforms inbound (aad_extra env) giv k s xf = Inl er'"
        using one a None ad 2(1,2) ses assms(2-4)
        by (auto simp: is_inline_def split: sum.splits prod.splits if_splits)
      then show ?thesis using set_xforms_refused same(2,3) by (auto simp: refused_def Let_def)
    qed (simp add: refused_def)
  qed
qed

definition loop_inv :: "'d init_env \<Rightarrow> bool \<Rightarrow> ipsec_sa list \<Rightarrow> 'd sa_ctx \<Rightarrow> nat \<Rightarrow> 'd sa_ctx \<Rightarrow> bool" where
  "loop_inv env inbound entries ctx0 k ctx \<longleftrightarrow>
     k \<le> length entries \<and>
     length (cs_sa ctx) = length (cs_sa ctx0) \<and> length (cs_xf ctx) = length (cs_xf ctx0) \<and>
     length (cs_xforms ctx) = length (cs_xforms ctx0) \<and> length (cs_flow ctx) = length (cs_flow ctx0) \<and>
     sad_grows env (cs_sad ctx0) (cs_sad ctx) \<and>
     (\<forall>i<k. placed env inbound entries ctx i \<and> (inbound \<longrightarrow> found_at env (entries ! i) i (cs_sad ctx))) \<and>
     dbs_ok env entries (cs_sad ctx) \<and>
     (\<forall>j>k. cs_sa ctx ! j = cs_sa ctx0 ! j \<and> cs_xforms ctx ! j = cs_xforms ctx0 ! j)"

lemma sa_add_one_step:
  assumes "sa_add_one env inbound k (entries ! k) (ctx, giv) = ((ctx', giv'), r)"
    and "loop_inv env inbound entries ctx0 k ctx" and "sad_api_ok (in_sad env)" and "k < length entries"
  shows "loop_inv env inbound entries ctx0 k ctx'"
proof -
  note f = sa_add_one_frame [OF assms(1)]
  have g: "dbs_ok env entries (cs_sad ctx') \<and> sad_grows env (cs_sad ctx) (cs_sad ctx')"
    using f assms(2) add_to_sad_ok [OF _ assms(3) _ assms(4)] by (auto simp: loop_inv_def)
  have "placed env inbound entries ctx' i \<and> (inbound \<longrightarrow> found_at env (entries ! i) i (cs_sad ctx'))" if "i < k" for i
    using that assms(2) conjunct2 [OF g] placed_off [OF conjunct1 [OF f], of i]
    by (auto simp: loop_inv_def intro: found_at_grows)
  then show ?thesis
    using assms(2) f g sad_grows_trans [of env "cs_sad ctx0" "cs_sad ctx"] by (simp add: loop_inv_def agree_off_def)
qed

lemma sa_add_loop_inv:
  assumes "sa_add_loop env inbound k (drop k entries) (ctx, gmac_iv entries k) = ((ctx', giv'), r)"
    and "loop_inv env inbound entries ctx0 k ctx" and "sad_api_ok (in_sad env)"
    and "length (cs_xf ctx0) = length (cs_sa ctx0)" and "length (cs_xforms ctx0) = length (cs_sa ctx0)"
    and "\<forall>j \<ge> k. cs_sa ctx ! j = cs_sa ctx0 ! j" and "length (cs_sa ctx0) = length entries"
    and "\<forall>j < length entries. spi (cs_sa ctx0 ! j) = 0" and "length (cs_flow ctx0) = length entries"
    and "db_from env entries k (cs_sad ctx)"
  shows "\<exists>k'. loop_inv env inbound entries ctx0 k' ctx' \<and>
    (if r = None then k' = length entries else k' < length entries \<and> refused env inbound entries (cs_sad ctx') k')"
  using assms(1,2,6,10)
proof (induction "length entries - k" arbitrary: k ctx)
  case 0
  then have "k = length entries" by (simp add: loop_inv_def)
  then show ?case using 0 by auto
next
  case (Suc n)
  then have k: "k < length entries" by simp
  then have d: "drop k entries = entries ! k # drop (Suc k) entries" by (simp add: Cons_nth_drop_Suc)
  obtain c1 g1 r1 where o: "sa_add_one env inbound k (entries ! k) (ctx, gmac_iv entries k) = ((c1, g1), r1)"
    by (metis prod.exhaust)
  have s: "loop_inv env inbound entries ctx0 k c1"
    by (rule sa_add_one_step [OF o Suc.prems(2) assms(3) k])
  show ?case
  proof (cases r1)
    case (Some er)
    have "refused env inbound entries (cs_sad c1) k"
      using sa_add_one_refused [OF o [unfolded Some]] Suc.prems(2-4) assms(7-9) k by (simp add: loop_inv_def)
    then show ?thesis using Suc.prems(1) s k Some by (auto simp: d o intro!: exI [of _ k])
  next
    case None
    have len: "length (cs_xf ctx) = length (cs_sa ctx)" "length (cs_xforms ctx) = length (cs_sa ctx)"
      using Suc.prems(2) assms(4,5) by (simp_all add: loop_inv_def)
    from sa_add_one_placed [OF o [unfolded None] k len] obtain sad where
      p: "placed env inbound entries c1 k" "g1 = gmac_iv entries (Suc k)"
      "add_to_sad env inbound k (entries ! k) (cs_sad ctx) = (sad, None)" "cs_sad c1 = sad" by blast
    have "inbound \<longrightarrow> found_at env (entries ! k) k (cs_sad c1)"
      using add_to_sad_ok [OF p(3) assms(3) _ k] Suc.prems(2) p(4) by (auto simp: loop_inv_def)
    then have "loop_inv env inbound entries ctx0 (Suc k) c1"
      using s p(1) k by (auto simp: loop_inv_def less_Suc_eq)
    moreover have "\<forall>j \<ge> Suc k. cs_sa c1 ! j = cs_sa ctx0 ! j"
      using Suc.prems(3) sa_add_one_frame [OF o] by (auto simp: agree_off_def)
    moreover have "db_from env entries (Suc k) (cs_sad c1)"
      using add_to_sad_ok [OF p(3) assms(3) _ k] Suc.prems(2,4) p(4) by (auto simp: loop_inv_def)
    ultimately show ?thesis
      using Suc.hyps(1) [of "Suc k" c1] Suc.hyps(2) Suc.prems(1) p(2) by (simp add: d o None)
  qed
qed

section \<open>The objects of the IPsec library\<close>

lemma fill_ipsec_session_sa_id: "fill_ipsec_session_sa env i ss = ((ss', j), None) \<Longrightarrow> ss' = ss"
  by (auto simp: fill_ipsec_session_sa_def split: if_splits option.splits)

text \<open>The parameters of SA \<open>i\<close> as the library gets them.\<close>

definition lib_prm :: "'d init_env \<Rightarrow> 'd sa_ctx \<Rightarrow> nat \<Rightarrow> ipsec_sa_prm \<times> errno option" where
  "lib_prm env c i =
     fill_ipsec_sa_prm env i (cs_sa c ! i) (cs_xforms c ! i) (outer_v4 (cs_sa c ! i)) (outer_v6 (cs_sa c ! i)) (in_stack env)"

definition same_arrays :: "'d sa_ctx \<Rightarrow> 'd sa_ctx \<Rightarrow> bool" where
  "same_arrays c c' \<longleftrightarrow> cs_sa c' = cs_sa c \<and> cs_xf c' = cs_xf c \<and> cs_xforms c' = cs_xforms c \<and> cs_sad c' = cs_sad c"

lemma list_update_id': "xs ! i = x \<Longrightarrow> xs[i := x] = xs"
  by auto

lemma ipsec_sa_init_ok:
  assumes "ipsec_sa_init env sz i c = (c', None)"
  shows "same_arrays c c' \<and> (\<exists>prm. lib_prm env c i = (prm, None) \<and> cs_satbl c' = (cs_satbl c)[i := Some prm])"
  using assms
  by (auto simp: ipsec_sa_init_def lib_prm_def same_arrays_def Let_def put_sa_def list_update_id'
      split: prod.splits option.splits if_splits dest!: fill_ipsec_session_sa_id)

lemma satbl_loop_ok:
  assumes "satbl_loop env sz is c = (c', None)" and "\<forall>i \<in> set is. i < length (cs_satbl c)" and "distinct is"
  shows "same_arrays c c' \<and> length (cs_satbl c') = length (cs_satbl c) \<and>
    (\<forall>j. j \<notin> set is \<longrightarrow> cs_satbl c' ! j = cs_satbl c ! j) \<and>
    (\<forall>i \<in> set is. \<exists>prm. lib_prm env c' i = (prm, None) \<and> cs_satbl c' ! i = Some prm)"
  using assms
proof (induction "is" arbitrary: c)
  case Nil
  then show ?case by (simp add: same_arrays_def)
next
  case (Cons i "is")
  from Cons.prems(1) obtain c1 where o: "ipsec_sa_init env sz i c = (c1, None)"
    and l: "satbl_loop env sz is c1 = (c', None)" by (auto split: prod.splits option.splits)
  from ipsec_sa_init_ok [OF o] obtain prm where a: "same_arrays c c1"
    and p: "lib_prm env c i = (prm, None)" "cs_satbl c1 = (cs_satbl c)[i := Some prm]" by blast
  have ih: "same_arrays c1 c' \<and> length (cs_satbl c') = length (cs_satbl c1) \<and>
    (\<forall>j. j \<notin> set is \<longrightarrow> cs_satbl c' ! j = cs_satbl c1 ! j) \<and>
    (\<forall>i \<in> set is. \<exists>prm. lib_prm env c' i = (prm, None) \<and> cs_satbl c' ! i = Some prm)"
    using Cons.prems(2,3) p(2) by (intro Cons.IH [OF l]) auto
  have "lib_prm env c' i = (prm, None)"
    using a ih p(1) by (simp add: same_arrays_def lib_prm_def)
  then show ?case using ih a p(2) Cons.prems(2,3) by (auto simp: same_arrays_def)
qed

lemma ipsec_satbl_init_ok:
  assumes "ipsec_satbl_init env n c = (c', None)"
  shows "same_arrays c c' \<and> (\<forall>i<n. \<exists>prm. lib_prm env c' i = (prm, None) \<and> cs_satbl c' ! i = Some prm)"
proof -
  from assms obtain sz where "satbl_loop env sz [0..<n] (c\<lparr>cs_satbl := replicate n None\<rparr>) = (c', None)"
    by (auto simp: ipsec_satbl_init_def split: sum.splits if_splits)
  from satbl_loop_ok [OF this] show ?thesis by (simp add: same_arrays_def)
qed

section \<open>A socket after start-up\<close>

text \<open>
  The table of one direction: the first \<open>k\<close> SAs are installed, and if that is not all of them, the
  one behind is \<open>refused\<close>, and those after it are the zeroed slots of the fresh context; in library
  mode each slot has an \<open>rte_ipsec_sa\<close> initialised from the parameters of its SA.
\<close>

definition table_up :: "'d init_env \<Rightarrow> bool \<Rightarrow> ipsec_sa list \<Rightarrow> 'd sa_ctx \<Rightarrow> bool" where
  "table_up env inbound entries c \<longleftrightarrow>
     (\<exists>k \<le> length entries. (\<forall>i<k. installed env inbound entries c i) \<and>
        (k < length entries \<longrightarrow> refused env inbound entries (cs_sad c) k) \<and>
        (\<forall>j. k < j \<longrightarrow> j < length entries \<longrightarrow> cs_sa c ! j = zero_sa \<and> cs_xforms c ! j = None)) \<and>
     (library_mode env \<longrightarrow>
        (\<forall>i < length entries. \<exists>prm. lib_prm env c i = (prm, None) \<and> cs_satbl c ! i = Some prm))"

text \<open>A family has a database exactly when the file configures tunnels or policies of it, as counted.\<close>

definition dbs_made :: "u32 \<times> u32 \<Rightarrow> 'd ipsec_sad \<Rightarrow> bool" where
  "dbs_made cnt sad \<longleftrightarrow> (sad_v4 sad = None \<longleftrightarrow> fst cnt = 0) \<and> (sad_v6 sad = None \<longleftrightarrow> snd cnt = 0)"

lemma installed_same: "same_arrays c c' \<Longrightarrow> installed env inbound entries c' i = installed env inbound entries c i"
  by (simp add: same_arrays_def installed_def)

lemma sa_add_rules_prefix:
  assumes "sa_create env name (length entries) = Some c0" and "sad_api_ok (in_sad env)"
    and "dbs_ok env entries sad" and "sa_add_rules env entries inbound (c0\<lparr>cs_sad := sad\<rparr>) = (c, r)"
    and "db_from env entries 0 sad"
  shows "(\<exists>k \<le> length entries. (k < length entries \<longrightarrow> refused env inbound entries (cs_sad c) k) \<and> (\<forall>i<k. installed env inbound entries c i) \<and>
      (\<forall>j. k < j \<longrightarrow> j < length entries \<longrightarrow> cs_sa c ! j = zero_sa \<and> cs_xforms c ! j = None)) \<and>
    (\<forall>cnt. dbs_made cnt sad \<longrightarrow> dbs_made cnt (cs_sad c))"
proof -
  let ?c = "c0\<lparr>cs_sad := sad\<rparr>"
  obtain giv where l: "sa_add_loop env inbound 0 (drop 0 entries) (?c, gmac_iv entries 0) = ((c, giv), r)"
    using assms(4) by (auto simp: sa_add_rules_def gmac_iv_def split: prod.splits)
  have c0: "cs_sa ?c = replicate (length entries) zero_sa" "cs_xforms ?c = replicate (length entries) None"
    "length (cs_xf ?c) = length entries" "length (cs_flow ?c) = length entries"
    using assms(1) by (auto simp: sa_create_def split: if_splits)
  have "loop_inv env inbound entries ?c 0 ?c" using assms(3) by (simp add: loop_inv_def)
  then obtain k where i: "loop_inv env inbound entries ?c k c"
    and k: "if r = None then k = length entries else k < length entries \<and> refused env inbound entries (cs_sad c) k"
    using sa_add_loop_inv [OF l _ assms(2), of ?c] c0 assms(5) by (fastforce simp: zero_sa_def)
  have "installed env inbound entries c i" if "i < k" for i
    using i that by (intro placed_installed) (simp_all add: loop_inv_def)
  moreover have "cs_sa c ! j = zero_sa \<and> cs_xforms c ! j = None" if "k < j" "j < length entries" for j
  proof -
    have "cs_sa c ! j = cs_sa ?c ! j \<and> cs_xforms c ! j = cs_xforms ?c ! j"
      using i that(1) unfolding loop_inv_def by blast
    then show ?thesis using c0 that(2) by simp
  qed
  moreover have "dbs_made cnt (cs_sad c)" if "dbs_made cnt sad" for cnt
    using i that by (simp add: loop_inv_def sad_grows_def dbs_made_def)
  ultimately show ?thesis using k by (auto split: if_split_asm intro!: exI [of _ k])
qed

lemma table_upI:
  assumes "\<exists>k \<le> length entries. (k < length entries \<longrightarrow> refused env inbound entries (cs_sad c) k) \<and> (\<forall>i<k. installed env inbound entries c i) \<and>
      (\<forall>j. k < j \<longrightarrow> j < length entries \<longrightarrow> cs_sa c ! j = zero_sa \<and> cs_xforms c ! j = None)"
    and "if library_mode env then ipsec_satbl_init env (length entries) c = (c', None) else c' = c"
  shows "table_up env inbound entries c' \<and> cs_sad c' = cs_sad c"
proof (cases "library_mode env")
  case True
  then have s: "ipsec_satbl_init env (length entries) c = (c', None)" using assms(2) by simp
  note o = ipsec_satbl_init_ok [OF s]
  then have "cs_sa c' = cs_sa c" "cs_xforms c' = cs_xforms c" "cs_sad c' = cs_sad c" by (simp_all add: same_arrays_def)
  then show ?thesis using assms(1) o by (auto simp: table_up_def installed_same [OF conjunct1 [OF o]])
next
  case False
  then show ?thesis using assms by (auto simp: table_up_def)
qed

lemma dbs_ok_new:
  assumes "sad_api_ok (in_sad env)" and "ipsec_sad_create (in_sad env) n name cnt \<lparr>sad_v4 = None, sad_v6 = None\<rparr> = Inr sad"
  shows "dbs_ok env entries sad \<and> db_from env entries 0 sad \<and> dbs_made cnt sad"
  using assms
  by (auto simp: ipsec_sad_create_def dbs_ok_def db_ok_def sad_api_ok_def db_from_def db_find_def dbs_made_def
      split: if_splits option.splits)

lemma sa_init_in_up:
  assumes "sad_api_ok (in_sad env)" and "sa_init_in env db ctx = Inr ctx'" and "so_in ctx = None"
  shows "so_out ctx' = so_out ctx \<and>
    (case so_in ctx' of None \<Rightarrow> vec_elems (sas_in db) = [] 
     | Some c \<Rightarrow> table_up env True (vec_elems (sas_in db)) c \<and> dbs_made (sa_in_cnt db) (cs_sad c))"
proof (cases "vec_elems (sas_in db) = []")
  case True
  then show ?thesis using assms(2,3) by (auto simp: sa_init_in_def)
next
  case False
  let ?es = "vec_elems (sas_in db)"
  from assms(2) False obtain c0 sad c2 where c0: "sa_create env ''sa_in'' (length ?es) = Some c0"
    and sad: "ipsec_sad_create (in_sad env) (in_sad_namesize env) ''sa_in'' (sa_in_cnt db) (cs_sad c0) = Inr sad"
    and c2: "if library_mode env
      then ipsec_satbl_init env (length ?es) (fst (sa_in_add_rules env ?es (c0\<lparr>cs_sad := sad\<rparr>))) = (c2, None)
      else c2 = fst (sa_in_add_rules env ?es (c0\<lparr>cs_sad := sad\<rparr>))"
    and ctx': "ctx' = ctx\<lparr>so_in := Some c2\<rparr>"
    by (auto simp: sa_init_in_def Let_def split: option.splits sum.splits if_splits prod.splits)
  have "cs_sad c0 = \<lparr>sad_v4 = None, sad_v6 = None\<rparr>" using c0 by (auto simp: sa_create_def split: if_splits)
  then have d: "dbs_ok env ?es sad" "db_from env ?es 0 sad" "dbs_made (sa_in_cnt db) sad"
    using dbs_ok_new [OF assms(1)] sad by auto
  obtain c r where a: "sa_add_rules env ?es True (c0\<lparr>cs_sad := sad\<rparr>) = (c, r)" by fastforce
  note up = sa_add_rules_prefix [OF c0 assms(1) d(1) a d(2)]
  have "table_up env True ?es c2 \<and> cs_sad c2 = cs_sad c"
    using c2 a by (intro table_upI [OF conjunct1 [OF up]]) (simp add: sa_in_add_rules_def split: if_split_asm)
  then show ?thesis using conjunct2 [OF up, THEN spec, of "sa_in_cnt db"] d(3) by (simp add: ctx')
qed

lemma sa_init_out_up:
  assumes "sad_api_ok (in_sad env)" and "sa_init_out env db ctx = Inr ctx'" and "so_out ctx = None"
  shows "so_in ctx' = so_in ctx \<and>
    (case so_out ctx' of None \<Rightarrow> vec_elems (sas_out db) = [] | Some c \<Rightarrow> table_up env False (vec_elems (sas_out db)) c)"
proof (cases "vec_elems (sas_out db) = []")
  case True
  then show ?thesis using assms(2,3) by (auto simp: sa_init_out_def)
next
  case False
  let ?es = "vec_elems (sas_out db)"
  from assms(2) False obtain c0 c2 where c0: "sa_create env ''sa_out'' (length ?es) = Some c0"
    and c2: "if library_mode env then ipsec_satbl_init env (length ?es) (fst (sa_out_add_rules env ?es c0)) = (c2, None)
      else c2 = fst (sa_out_add_rules env ?es c0)"
    and ctx': "ctx' = ctx\<lparr>so_out := Some c2\<rparr>"
    by (auto simp: sa_init_out_def Let_def split: option.splits if_splits prod.splits)
  have s: "cs_sad c0 = \<lparr>sad_v4 = None, sad_v6 = None\<rparr>" using c0 by (auto simp: sa_create_def split: if_splits)
  then have d: "dbs_ok env ?es (cs_sad c0)" "db_from env ?es 0 (cs_sad c0)"
    by (simp_all add: dbs_ok_def db_ok_def db_from_def db_find_def)
  obtain c r where a: "sa_add_rules env ?es False (c0\<lparr>cs_sad := cs_sad c0\<rparr>) = (c, r)" by fastforce
  have "table_up env False ?es c2"
    using c2 a table_upI [OF conjunct1 [OF sa_add_rules_prefix [OF c0 assms(1) d(1) a d(2)]]]
    by (simp add: sa_out_add_rules_def split: if_split_asm)
  then show ?thesis by (simp add: ctx')
qed

section \<open>Offloads\<close>

lemma offload_in_fold: "fold (offload_in port) rs rx \<longleftrightarrow> rx \<or> (\<exists>r \<in> set rs. is_inline r \<and> portid r = port)"
  by (induction rs arbitrary: rx) (auto simp: offload_in_def)

lemma offload_out_security:
  "TX_SECURITY \<in> fold (offload_out c port) rs tx \<longleftrightarrow> TX_SECURITY \<in> tx \<or> (\<exists>r \<in> set rs. is_inline r \<and> portid r = port)"
  by (induction rs arbitrary: tx) (auto simp: offload_out_def is_inline_def Let_def)

text \<open>A port asks for the security offload of a direction exactly when an inline SA of that direction uses it.\<close>

lemma sa_check_offloads_security:
  "sa_check_offloads env db port = Inr (rx, tx) \<Longrightarrow>
     rx = (\<exists>r \<in> set (vec_elems (sas_in db)). is_inline r \<and> portid r = port) \<and>
     (TX_SECURITY \<in> tx) = (\<exists>r \<in> set (vec_elems (sas_out db)). is_inline r \<and> portid r = port)"
  by (auto simp: sa_check_offloads_def offload_in_fold offload_out_security split: sum.splits)

section \<open>Properties\<close>

text \<open>Both directions.\<close>

lemma sa_init_up:
  assumes "sad_api_ok (in_sad env)" and "sa_init env db \<lparr>so_in = None, so_out = None\<rparr> = Inr so"
  shows "(case so_in so of None \<Rightarrow> vec_elems (sas_in db) = [] 
     | Some c \<Rightarrow> table_up env True (vec_elems (sas_in db)) c \<and> dbs_made (sa_in_cnt db) (cs_sad c)) \<and>
    (case so_out so of None \<Rightarrow> vec_elems (sas_out db) = [] | Some c \<Rightarrow> table_up env False (vec_elems (sas_out db)) c)"
proof -
  from assms(2) obtain so1 where i: "sa_init_in env db \<lparr>so_in = None, so_out = None\<rparr> = Inr so1"
    and o: "sa_init_out env db so1 = Inr so" by (auto simp: sa_init_def split: sum.splits)
  have "so_out so1 = None \<and>
    (case so_in so1 of None \<Rightarrow> vec_elems (sas_in db) = [] 
     | Some c \<Rightarrow> table_up env True (vec_elems (sas_in db)) c \<and> dbs_made (sa_in_cnt db) (cs_sad c))"
    using sa_init_in_up [OF assms(1) i] by simp
  moreover from this sa_init_out_up [OF assms(1) o] have "so_in so = so_in so1" by simp
  ultimately show ?thesis using sa_init_out_up [OF assms(1) o] by simp
qed

text \<open>
  C11. When start-up succeeds, each direction with configured SAs has a table. Its SAs up to the first one
  that must be refused are installed: SPI, keys and direction as configured, sequence number 0,
  tunnel addresses in network order, a transform chain that authenticates before decrypting and
  encrypts before authenticating (with the IV length 12 for authentication from the first GMAC SA
  on), a session if the SA is inline, and inbound a database entry in each family the SA enters, which
  the later insertions keep. The first SA that is not installed, if there is one, is refused for one of
  the reasons of the code: inbound, a family it enters has no database, or an earlier SA of that
  family with its SPI, or the library does not take the entry; inline, its port lacks the offload, its
  policies do not name two hosts, or its session cannot be created; or its cipher is not known. The
  SAs after it are zeroed slots: the code does not look at the result. Inbound, a family has a database
  exactly when the file counts SAs of it. In library mode every slot has a library object initialised
  from its SA's parameters.
\<close>

theorem sa_init_tables:
  assumes "sad_api_ok (in_sad env)" and "sa_init env db \<lparr>so_in = None, so_out = None\<rparr> = Inr so"
  shows "(case so_in so of None \<Rightarrow> vec_elems (sas_in db) = [] 
     | Some c \<Rightarrow> table_up env True (vec_elems (sas_in db)) c \<and> dbs_made (sa_in_cnt db) (cs_sad c)) \<and>
    (case so_out so of None \<Rightarrow> vec_elems (sas_out db) = [] | Some c \<Rightarrow> table_up env False (vec_elems (sas_out db)) c)"
  using assms by (rule sa_init_up)

text \<open>
  In particular all SAs are installed when their SPIs differ, the library takes every entry, every
  family an SA enters is counted, none is inline and all ciphers are known.
\<close>

lemma distinct_spis_installed:
  assumes "table_up env True entries c" and "distinct (map spi entries)" and "\<And>d w p. \<exists>d'. sad_add (in_sad env) d w p = Inr d'"
    and "\<forall>e \<in> set entries. (ent4 env e \<longrightarrow> sad_v4 (cs_sad c) \<noteq> None) \<and> (ent6 env e \<longrightarrow> sad_v6 (cs_sad c) \<noteq> None) \<and>
      \<not> is_inline e \<and> (is_aead e \<or> cipher_algo e \<noteq> CIPHER_UNSET)"
    and "i < length entries"
  shows "installed env True entries c i"
proof -
  have "\<not> refused env True entries (cs_sad c) k" if "k < length entries" for k
  proof -
    have "\<not> spi_taken P entries k" for P
      using that assms(2) by (auto simp: spi_taken_def distinct_conv_nth)
    moreover have "sad_add (in_sad env) d w p \<noteq> Inl er" for d w p er using assms(3) [of d w p] by auto
    ultimately show ?thesis
      using assms(4) that nth_mem [OF that] by (auto simp: refused_def db_refuses_def inline_refused_def Let_def)
  qed
  then show ?thesis using assms(1,5) by (auto simp: table_up_def le_less)
qed

text \<open>
  Four inbound SAs, the third with the SPI of the first: start-up succeeds all the same, the first two
  SAs are installed and the fourth is an empty slot.
\<close>

definition sample_cbc_sa :: "u32 \<Rightarrow> ipsec_sa" where
  "sample_cbc_sa w = zero_sa\<lparr>spi := w, direction := INGRESS, flags := IP4_TUNNEL,
     src := zero_addr\<lparr>ip4 := 0xC0A80501\<rparr>, dst := zero_addr\<lparr>ip4 := 0xC0A80502\<rparr>,
     cipher_algo := CIPHER_AES_CBC, cipher_key_len := 16, iv_len := 16, block_size := 16,
     auth_algo := AUTH_SHA1_HMAC, auth_key_len := 20, digest_len := 12\<rparr>"

definition sample_sa_db :: sa_db where
  "sample_sa_db = sa_empty\<lparr>sas_in := \<lparr>v_tbl = Some (map sample_cbc_sa [5, 6, 5, 7]), v_cnt = 4, v_sz = 4\<rparr>,
     sa_in_cnt := (4, 0)\<rparr>"

definition sample_init_env :: "(u32 \<times> nat) list init_env" where
  "sample_init_env =
     \<lparr>in_dev = sample_env\<lparr>env_prm := \<lparr>prm_enable = 0, prm_window_size = 0, prm_enable_esn = 0, prm_cache_sz = 128, prm_flags = 0\<rparr>\<rparr>,
      in_caps = (\<lambda>_. Inl EINVAL), in_sad = map_sad, in_sad_namesize = 64, in_sp4 = sp4_empty, in_sp6 = sp6_empty,
      in_mz = (\<lambda>_. True), in_zmalloc = (\<lambda>_. True), in_satbl = (\<lambda>_. True), in_sa_size = (\<lambda>_. Inr 64),
      in_sa_init = (\<lambda>_ _. None), in_prepare = (\<lambda>_. None), in_stack = fill_ipsec_app_sa_prm (env_prm sample_env)\<rparr>"

lemma sa_init_tables_witness:
  "\<exists>so c. sa_init sample_init_env sample_sa_db \<lparr>so_in = None, so_out = None\<rparr> = Inr so \<and> so_in so = Some c \<and>
     table_up sample_init_env True (vec_elems (sas_in sample_sa_db)) c \<and>
     map spi (take 2 (cs_sa c)) = [5, 6] \<and> cs_sa c ! 3 = zero_sa \<and> spi (vec_elems (sas_in sample_sa_db) ! 3) = 7"
proof -
  have "case sa_init sample_init_env sample_sa_db \<lparr>so_in = None, so_out = None\<rparr> of
      Inl _ \<Rightarrow> False
    | Inr so \<Rightarrow> (case so_in so of None \<Rightarrow> False | Some c \<Rightarrow> map spi (take 2 (cs_sa c)) = [5, 6] \<and> cs_sa c ! 3 = zero_sa)"
    by code_simp
  then obtain so c where r: "sa_init sample_init_env sample_sa_db \<lparr>so_in = None, so_out = None\<rparr> = Inr so"
    and c: "so_in so = Some c" "map spi (take 2 (cs_sa c)) = [5, 6]" "cs_sa c ! 3 = zero_sa"
    by (auto split: sum.splits option.splits)
  have a: "sad_api_ok (in_sad sample_init_env)" by (simp add: sample_init_env_def map_sad_ok)
  have "spi (vec_elems (sas_in sample_sa_db) ! 3) = 7" by code_simp
  then show ?thesis using sa_init_tables [OF a r] r c by auto
qed

end
