(* ===== verification/Setup.thy ===== *)
theory Setup
  imports SA_Init Queues Args
begin

text \<open>
  Start-up, \<open>ipsec-secgw.c\<close>: checking the mapping of ports, queues and cores, giving the receive
  queues to the cores, distributing the queue pairs of the crypto devices over the cores, and
  configuring the ports. What the environment layer and the devices answer is a parameter. Lists
  stand for the arrays and their counters; functions from a core's number for \<open>lcore_conf\<close>.
\<close>

section \<open>The mapping of ports, queues and cores\<close>

record sys_env =
  sy_lcore :: "nat \<Rightarrow> bool"
  sy_port :: "u16 \<Rightarrow> bool"
  sy_max_lcore :: nat

text \<open>The test \<open>mask & (1 << port)\<close>, which C leaves undefined from 32 on.\<close>

definition port_in_mask :: "u32 \<Rightarrow> u16 \<Rightarrow> errno + bool" where
  "port_in_mask msk port = (if unat port < 32 then Inr (bit msk (unat port)) else Inl UB)"

text \<open>\<open>check_flow_params\<close>: true stands for 1, false for -1. Without any entry the loop does not run.\<close>

fun check_flow_loop :: "u16 \<Rightarrow> u8 \<Rightarrow> lcore_params list \<Rightarrow> bool" where
  "check_flow_loop port qid [] = True"
| "check_flow_loop port qid (lp # lps) =
     (if lp_port lp = port \<and> lp_queue lp = qid then True
      else if lps = [] then False
      else check_flow_loop port qid lps)"

definition check_flow_params :: "lcore_params list \<Rightarrow> u16 \<Rightarrow> u8 \<Rightarrow> bool" where
  "check_flow_params lps port qid = check_flow_loop port qid lps"

fun check_poll_loop :: "sys_env \<Rightarrow> u32 \<Rightarrow> lcore_params list \<Rightarrow> errno option" where
  "check_poll_loop sys msk [] = None"
| "check_poll_loop sys msk (lp # lps) =
     (if \<not> sy_lcore sys (unat (lp_lcore lp)) then Some EFAIL
      else case port_in_mask msk (lp_port lp) of
        Inl e \<Rightarrow> Some e
      | Inr False \<Rightarrow> Some EFAIL
      | Inr True \<Rightarrow> if \<not> sy_port sys (lp_port lp) then Some EFAIL else check_poll_loop sys msk lps)"

definition check_poll_mode_params :: "sys_env \<Rightarrow> settings \<Rightarrow> errno option" where
  "check_poll_mode_params sys st =
     (if eh_mode st \<noteq> Poll_mode then None
      else case lcore_cfg st of
        None \<Rightarrow> Some EFAIL
      | Some lps \<Rightarrow> check_poll_loop sys (enabled_port_mask st) lps)"

text \<open>\<open>get_port_nb_rx_queues\<close>: one more than the highest queue of the port, as 8 bits.\<close>

definition max_queue_step :: "u16 \<Rightarrow> lcore_params \<Rightarrow> int \<Rightarrow> int" where
  "max_queue_step port lp q = (if lp_port lp = port \<and> q < uint (lp_queue lp) then uint (lp_queue lp) else q)"

definition get_port_nb_rx_queues :: "lcore_params list \<Rightarrow> u16 \<Rightarrow> u8" where
  "get_port_nb_rx_queues lps port = of_int (fold (max_queue_step port) lps (- 1) + 1)"

definition MAX_RX_QUEUE_PER_LCORE :: nat where "MAX_RX_QUEUE_PER_LCORE = 16"

type_synonym rx_queues = "nat \<Rightarrow> (u16 \<times> u8) list"

fun init_lcore_rx_queues :: "lcore_params list \<Rightarrow> rx_queues \<Rightarrow> rx_queues \<times> errno option" where
  "init_lcore_rx_queues [] rxq = (rxq, None)"
| "init_lcore_rx_queues (lp # lps) rxq =
     (let l = unat (lp_lcore lp) in
      if MAX_RX_QUEUE_PER_LCORE \<le> length (rxq l) then (rxq, Some EFAIL)
      else init_lcore_rx_queues lps (rxq(l := rxq l @ [(lp_port lp, lp_queue lp)])))"

section \<open>Event mode\<close>

text \<open>
  \<open>ev_mode_sess_verify\<close>: the error stands for the exit. The mapping made for event mode has one
  queue for each enabled port, on the first core \<open>next_lcore\<close>; the list of ports is the parameter.
\<close>

definition ev_mode_sess_verify :: "ipsec_sa list \<Rightarrow> bool" where
  "ev_mode_sess_verify sas \<longleftrightarrow> list_all (\<lambda>sa. ses_type (primary sa) = TYPE_INLINE_PROTOCOL) sas"

datatype ev_check = Ev_ok "lcore_params list" sched_type | Ev_error | Ev_exit | Ev_fault

fun event_queues :: "u32 \<Rightarrow> u8 \<Rightarrow> sched_type \<Rightarrow> u16 list \<Rightarrow> lcore_params list \<Rightarrow> ev_check" where
  "event_queues msk next_lcore sc [] acc = Ev_ok acc sc"
| "event_queues msk next_lcore sc (p # ps) acc =
     (case port_in_mask msk p of
        Inl e \<Rightarrow> Ev_fault
      | Inr False \<Rightarrow> event_queues msk next_lcore sc ps acc
      | Inr True \<Rightarrow>
          (if MAX_LCORE_PARAMS \<le> length acc then Ev_fault
           else event_queues msk next_lcore sc ps (acc @ [\<lparr>lp_port = p, lp_queue = 0, lp_lcore = next_lcore\<rparr>])))"

text \<open>The result holds the mapping and the scheduling type, which is ordered unless it was given.\<close>

definition check_event_mode_params :: "settings \<Rightarrow> sa_db \<Rightarrow> u8 \<Rightarrow> u16 list \<Rightarrow> ev_check" where
  "check_event_mode_params st db next_lcore ports =
     (let lps = (case lcore_cfg st of None \<Rightarrow> [] | Some l \<Rightarrow> l) in
      if eh_mode st = Poll_mode \<and> eh_sched st \<noteq> Not_set then Ev_error
      else if eh_mode st \<noteq> Event_mode then Ev_ok lps (eh_sched st)
      else if \<not> ev_mode_sess_verify (vec_elems (sas_in db)) then Ev_exit
      else if \<not> ev_mode_sess_verify (vec_elems (sas_out db)) then Ev_exit
      else if lps \<noteq> [] then Ev_error
      else event_queues (enabled_port_mask st) next_lcore
             (if eh_sched st = Not_set then Ordered else eh_sched st) ports [])"

section \<open>Queue pairs of the crypto devices\<close>

text \<open>
  The capabilities of a device in the numbering of the library. The key of the maps: core, cipher,
  authentication and AEAD algorithm, zero where there is none. For each direction (true is
  inbound) there are the tables of the cores and one map.
\<close>

datatype cdev_cap = Cap_aead u8 | Cap_cipher u8 | Cap_auth u8 | Cap_other

type_synonym cdev_key = "u8 \<times> u8 \<times> u8 \<times> u8"

record cdev_info =
  ci_chaining :: bool
  ci_sgl :: bool
  ci_caps :: "cdev_cap list"
  ci_max_qps :: u16
  ci_max_sess :: u32

record qp_state =
  qps :: "bool \<Rightarrow> u8 \<Rightarrow> cdev_qp list"
  cmap :: "bool \<Rightarrow> cdev_key \<Rightarrow> nat option"

definition no_qps :: qp_state where
  "no_qps = \<lparr>qps = (\<lambda>_ _. []), cmap = (\<lambda>_ _. None)\<rparr>"

definition MAX_QP_PER_LCORE :: nat where "MAX_QP_PER_LCORE = 256"

definition new_qp :: "u16 \<Rightarrow> u16 \<Rightarrow> cdev_qp" where
  "new_qp cdev_id qp = \<lparr>cq_id = cdev_id, cq_qp = qp, in_flight = 0, cq_buf = []\<rparr>"

text \<open>
  \<open>add_mapping\<close>; \<open>ins\<close> tells whether the hash table takes a further key. The table entry stays
  when it does not.
\<close>

definition add_mapping ::
  "((cdev_key \<Rightarrow> nat option) \<Rightarrow> cdev_key \<Rightarrow> bool) \<Rightarrow> bool \<Rightarrow> u8 \<Rightarrow> u16 \<Rightarrow> u16 \<Rightarrow> u8 \<times> u8 \<times> u8 \<Rightarrow> qp_state \<Rightarrow> bool \<times> qp_state" where
  "add_mapping ins inb lcore cdev_id qp algs st =
     (let key = (lcore, algs); t = qps st inb lcore in
      if cmap st inb key \<noteq> None then (False, st)
      else
        (let i = length (takeWhile (\<lambda>q. cq_id q \<noteq> cdev_id) t) in
         if i = length t \<and> length t = MAX_QP_PER_LCORE then (False, st)
         else
           (let t' = (if i = length t then t @ [new_qp cdev_id qp] else t);
                st1 = st\<lparr>qps := (qps st)(inb := (qps st inb)(lcore := t'))\<rparr>
            in if ins (cmap st inb) key then (True, st1\<lparr>cmap := (cmap st)(inb := (cmap st inb)(key := Some i))\<rparr>)
               else (False, st1))))"

definition map_algs ::
  "((cdev_key \<Rightarrow> nat option) \<Rightarrow> cdev_key \<Rightarrow> bool) \<Rightarrow> bool \<Rightarrow> u8 \<Rightarrow> u16 \<Rightarrow> u16 \<Rightarrow> (u8 \<times> u8 \<times> u8) list \<Rightarrow> bool \<times> qp_state \<Rightarrow> bool \<times> qp_state" where
  "map_algs ins inb lcore cdev_id qp algs s =
     fold (\<lambda>a (r, st). case add_mapping ins inb lcore cdev_id qp a st of (r', st') \<Rightarrow> (r \<or> r', st')) algs s"

text \<open>The algorithm triples the two loops over the capabilities visit, in their order.\<close>

definition auth_caps :: "cdev_cap list \<Rightarrow> u8 list" where
  "auth_caps cs = concat (map (\<lambda>c. case c of Cap_auth a \<Rightarrow> [a] | _ \<Rightarrow> []) cs)"

definition cap_algs :: "cdev_cap list \<Rightarrow> (u8 \<times> u8 \<times> u8) list" where
  "cap_algs cs =
     concat (map (\<lambda>c. case c of Cap_aead e \<Rightarrow> [(0, 0, e)] | Cap_cipher x \<Rightarrow> map (\<lambda>a. (x, a, 0)) (auth_caps cs) | _ \<Rightarrow> []) cs)"

definition add_cdev_mapping ::
  "((cdev_key \<Rightarrow> nat option) \<Rightarrow> cdev_key \<Rightarrow> bool) \<Rightarrow> u32 \<Rightarrow> cdev_info \<Rightarrow> u16 \<Rightarrow> u16 \<Rightarrow> lcore_params \<Rightarrow> qp_state \<Rightarrow> errno + bool \<times> qp_state" where
  "add_cdev_mapping ins unprot ci cdev_id qp lp st =
     (case port_in_mask unprot (lp_port lp) of
        Inl e \<Rightarrow> Inl e
      | Inr inb \<Rightarrow>
          (if \<not> ci_chaining ci then Inr (False, st)
           else Inr (map_algs ins inb (lp_lcore lp) cdev_id qp (cap_algs (ci_caps ci)) (False, st))))"

text \<open>
  \<open>check_cryptodev_mask\<close>: \<open>1 << cdev_id\<close> is a signed int, sign-extended to 64 bits; undefined from
  32 on.
\<close>

definition check_cryptodev_mask :: "u64 \<Rightarrow> u8 \<Rightarrow> errno + bool" where
  "check_cryptodev_mask msk cdev_id =
     (if 32 \<le> unat cdev_id then Inl UB
      else Inr (msk AND scast (push_bit (unat cdev_id) (1 :: 32 word)) \<noteq> 0))"

datatype cdev_exit = Cx_undefined | Cx_feature | Cx_sessions | Cx_configure | Cx_queue | Cx_start

record cdev_env =
  ce_info :: "u16 \<Rightarrow> cdev_info"
  ce_count :: u8
  ce_ins :: "(cdev_key \<Rightarrow> nat option) \<Rightarrow> cdev_key \<Rightarrow> bool"
  ce_configure :: "u16 \<Rightarrow> u16 \<Rightarrow> bool"
  ce_qp_setup :: "u16 \<Rightarrow> u16 \<Rightarrow> bool"
  ce_start :: "u16 \<Rightarrow> bool"

text \<open>
  The loop over the cores: \<open>n\<close> is what is left of \<open>nb_lcore_params\<close> iterations, \<open>idx\<close> the position
  in the mapping, which the next device goes on from.
\<close>

fun qp_loop ::
  "cdev_env \<Rightarrow> u32 \<Rightarrow> lcore_params list \<Rightarrow> u16 \<Rightarrow> u16 \<Rightarrow> nat \<Rightarrow> u16 \<Rightarrow> nat \<Rightarrow> qp_state \<Rightarrow> errno + u16 \<times> nat \<times> qp_state" where
  "qp_loop ce unprot lps cdev_id max_nb_qps 0 qp idx st = Inr (qp, idx, st)"
| "qp_loop ce unprot lps cdev_id max_nb_qps (Suc n) qp idx st =
     (if qp < max_nb_qps then
        (case add_cdev_mapping (ce_ins ce) unprot (ce_info ce cdev_id) cdev_id qp (lps ! idx) st of
           Inl e \<Rightarrow> Inl e
         | Inr (added, st') \<Rightarrow>
             qp_loop ce unprot lps cdev_id max_nb_qps n (if added then qp + 1 else qp) ((idx + 1) mod length lps) st')
      else Inr (qp, idx, st))"

record cdev_run =
  cr_idx :: nat
  cr_total :: u16
  cr_conf :: "(u16 \<times> u16) list"
  cr_st :: qp_state

text \<open>One device: distribution, configuration with \<open>qp\<close> queue pairs, their set-up, start.\<close>

definition cdev_init1 ::
  "cdev_env \<Rightarrow> settings \<Rightarrow> u32 \<Rightarrow> lcore_params list \<Rightarrow> u16 \<Rightarrow> nat \<Rightarrow> cdev_run \<Rightarrow> cdev_exit + cdev_run" where
  "cdev_init1 ce st nb_sess lps req cdev r =
     (let cdev_id = of_nat cdev :: u16; ci = ce_info ce cdev_id in
      case check_cryptodev_mask (cryptodev_mask st) (of_nat cdev) of
        Inl e \<Rightarrow> Inl Cx_undefined
      | Inr False \<Rightarrow> Inr r
      | Inr True \<Rightarrow>
          (if multi_seg_required st \<and> \<not> ci_sgl ci then Inl Cx_feature
           else
             (let nb = of_nat (length lps) :: u16; max_nb_qps = (if ci_max_qps ci < nb then ci_max_qps ci else nb) in
              case qp_loop ce (unprotected_mask st) lps cdev_id max_nb_qps (length lps) 0 (cr_idx r) (cr_st r) of
                Inl e \<Rightarrow> Inl Cx_undefined
              | Inr (used, idx, st') \<Rightarrow>
                  (let qp = min max_nb_qps (max req used); r1 = r\<lparr>cr_idx := idx, cr_st := st'\<rparr> in
                   if qp = 0 then Inr r1
                   else if ci_max_sess ci \<noteq> 0 \<and> ci_max_sess ci < nb_sess then Inl Cx_sessions
                   else if \<not> ce_configure ce cdev_id qp then Inl Cx_configure
                   else if \<not> list_all (\<lambda>q. ce_qp_setup ce cdev_id (of_nat q)) [0..<unat qp] then Inl Cx_queue
                   else if \<not> ce_start ce cdev_id then Inl Cx_start
                   else Inr (r1\<lparr>cr_total := cr_total r + qp, cr_conf := cr_conf r @ [(cdev_id, qp)]\<rparr>)))))"

fun cdev_loop ::
  "cdev_env \<Rightarrow> settings \<Rightarrow> u32 \<Rightarrow> lcore_params list \<Rightarrow> u16 \<Rightarrow> nat list \<Rightarrow> cdev_run \<Rightarrow> cdev_exit + cdev_run" where
  "cdev_loop ce st nb_sess lps req [] r = Inr r"
| "cdev_loop ce st nb_sess lps req (c # cs) r =
     (case cdev_init1 ce st nb_sess lps req c r of
        Inl e \<Rightarrow> Inl e
      | Inr r' \<Rightarrow> cdev_loop ce st nb_sess lps req cs r')"

definition cryptodevs_init :: "cdev_env \<Rightarrow> settings \<Rightarrow> u32 \<Rightarrow> lcore_params list \<Rightarrow> u16 \<Rightarrow> cdev_exit + cdev_run" where
  "cryptodevs_init ce st nb_sess lps req =
     cdev_loop ce st nb_sess lps req [0..<unat (ce_count ce)] \<lparr>cr_idx = 0, cr_total = 0, cr_conf = [], cr_st = no_qps\<rparr>"

section \<open>Configuring a port\<close>

text \<open>The values of the library's offload flags, and what the devices answer.\<close>

record ol_consts =
  ol_rx_cksum :: u64
  ol_rx_scatter :: u64
  ol_tx_multi_segs :: u64
  ol_tx_fast_free :: u64
  ol_tx_ipv4_cksum :: u64

record port_info =
  pi_rx_capa :: u64
  pi_tx_capa :: u64
  pi_max_rx :: u16
  pi_max_tx :: u16

record port_env =
  pe_ol :: ol_consts
  pe_info :: "u16 \<Rightarrow> errno + port_info"
  pe_mac :: "u16 \<Rightarrow> errno + u64"
  pe_numa :: bool
  pe_socket :: "nat \<Rightarrow> u8"
  pe_configure :: "u16 \<Rightarrow> u16 \<Rightarrow> u16 \<Rightarrow> u64 \<Rightarrow> u64 \<Rightarrow> bool"
  pe_adjust :: "u16 \<Rightarrow> bool"
  pe_txq :: "u16 \<Rightarrow> u16 \<Rightarrow> bool"
  pe_rxq :: "u16 \<Rightarrow> u16 \<Rightarrow> bool"

datatype port_exit = Px_info | Px_mac | Px_rx_queues | Px_tx_queues | Px_rx_offloads | Px_tx_offloads
  | Px_configure | Px_adjust | Px_txq | Px_rxq

text \<open>What the port ends up with: MAC address, queues and offloads, and who uses which queue.\<close>

record port_result =
  pr_mac :: u64
  pr_nb_rx :: u16
  pr_nb_tx :: u16
  pr_rx_ol :: u64
  pr_tx_ol :: u64
  pr_txq :: "(nat \<times> u16) list"
  pr_rxq :: "(nat \<times> u16 \<times> u8) list"

fun setup_rxqs :: "port_env \<Rightarrow> u16 \<Rightarrow> u8 \<Rightarrow> nat \<Rightarrow> (u16 \<times> u8) list \<Rightarrow> port_result \<Rightarrow> port_exit + port_result" where
  "setup_rxqs pe port sock lcore [] r = Inr r"
| "setup_rxqs pe port sock lcore ((p, q) # qs) r =
     (if p \<noteq> port then setup_rxqs pe port sock lcore qs r
      else if \<not> pe_rxq pe port (ucast q) then Inl Px_rxq
      else setup_rxqs pe port sock lcore qs (r\<lparr>pr_rxq := pr_rxq r @ [(lcore, ucast q, sock)]\<rparr>))"

fun lcore_queues :: "port_env \<Rightarrow> sys_env \<Rightarrow> rx_queues \<Rightarrow> u16 \<Rightarrow> nat list \<Rightarrow> u16 \<Rightarrow> port_result \<Rightarrow> port_exit + port_result" where
  "lcore_queues pe sys rxq port [] txid r = Inr r"
| "lcore_queues pe sys rxq port (l # ls) txid r =
     (if \<not> sy_lcore sys l then lcore_queues pe sys rxq port ls txid r
      else
        (let sock = (if pe_numa pe then pe_socket pe l else 0) in
         if \<not> pe_txq pe port txid then Inl Px_txq
         else case setup_rxqs pe port sock l (rxq l) (r\<lparr>pr_txq := pr_txq r @ [(l, txid)]\<rparr>) of
           Inl e \<Rightarrow> Inl e
         | Inr r' \<Rightarrow> lcore_queues pe sys rxq port ls (txid + 1) r'))"

text \<open>The offloads wanted in one direction, and those added because the device has them.\<close>

definition rx_wanted :: "ol_consts \<Rightarrow> settings \<Rightarrow> u64 \<Rightarrow> u64" where
  "rx_wanted ol st req = (ol_rx_cksum ol OR (if multi_seg_required st then ol_rx_scatter ol else 0)) OR req"

definition tx_wanted :: "ol_consts \<Rightarrow> settings \<Rightarrow> u64 \<Rightarrow> u64" where
  "tx_wanted ol st req = (if multi_seg_required st then ol_tx_multi_segs ol else 0) OR req"

definition tx_extra :: "ol_consts \<Rightarrow> u64 \<Rightarrow> u64 \<Rightarrow> u64" where
  "tx_extra ol capa w =
     (let w1 = (if capa AND ol_tx_fast_free ol \<noteq> 0 then w OR ol_tx_fast_free ol else w)
      in if capa AND ol_tx_ipv4_cksum ol \<noteq> 0 then w1 OR ol_tx_ipv4_cksum ol else w1)"

definition port_init ::
  "port_env \<Rightarrow> sys_env \<Rightarrow> settings \<Rightarrow> lcore_params list \<Rightarrow> u16 \<Rightarrow> rx_queues \<Rightarrow> u16 \<Rightarrow> u64 \<Rightarrow> u64 \<Rightarrow> port_exit + port_result" where
  "port_init pe sys st lps nb_lcores rxq port req_rx req_tx =
     (case pe_info pe port of
        Inl e \<Rightarrow> Inl Px_info
      | Inr pinf \<Rightarrow>
          (let rx_capa = pi_rx_capa pinf AND rx_offload st; tx_capa = pi_tx_capa pinf AND tx_offload st in
           case pe_mac pe port of
             Inl e \<Rightarrow> Inl Px_mac
           | Inr mac \<Rightarrow>
               (let nb_rx = ucast (get_port_nb_rx_queues lps port) :: u16; nb_tx = nb_lcores;
                    rx = rx_wanted (pe_ol pe) st req_rx; tx = tx_wanted (pe_ol pe) st req_tx
                in if pi_max_rx pinf < nb_rx then Inl Px_rx_queues
                   else if pi_max_tx pinf < nb_tx then Inl Px_tx_queues
                   else if rx AND rx_capa \<noteq> rx then Inl Px_rx_offloads
                   else if tx AND tx_capa \<noteq> tx then Inl Px_tx_offloads
                   else
                     (let tx' = tx_extra (pe_ol pe) tx_capa tx in
                      if \<not> pe_configure pe port nb_rx nb_tx rx tx' then Inl Px_configure
                      else if \<not> pe_adjust pe port then Inl Px_adjust
                      else lcore_queues pe sys rxq port [0..<sy_max_lcore sys] 0
                             \<lparr>pr_mac = mac, pr_nb_rx = nb_rx, pr_nb_tx = nb_tx, pr_rx_ol = rx, pr_tx_ol = tx', pr_txq = [], pr_rxq = []\<rparr>))))"

section \<open>Pools\<close>

definition CDEV_QUEUE_DESC :: u32 where "CDEV_QUEUE_DESC = 2048"
definition MEMPOOL_CACHE_SIZE :: u32 where "MEMPOOL_CACHE_SIZE = 256"
definition CDEV_MP_CACHE_SZ :: u32 where "CDEV_MP_CACHE_SZ = 64"
definition FRAG_TBL_BUCKET_ENTRIES :: u32 where "FRAG_TBL_BUCKET_ENTRIES = 4"

text \<open>The sessions of a pool: the larger of the two is compared as a floating point number, 64 times 1.5.\<close>

definition nb_pool_sessions :: "u32 \<Rightarrow> u32 \<Rightarrow> u32" where
  "nb_pool_sessions nsess lcores =
     (let n = nsess + CDEV_MP_CACHE_SZ * lcores in if n < 96 then 96 else n)"

text \<open>
  The largest session the crypto devices and the ports in the mask ask for; \<open>cds\<close> gives each
  crypto device's session size and its security session size if it has a security context.
\<close>

definition max_session_size :: "(nat \<times> nat option) list \<Rightarrow> u32 \<Rightarrow> (u16 \<times> nat option) list \<Rightarrow> errno + nat" where
  "max_session_size cds msk ports =
     (let bump = (\<lambda>sz m. if m < sz then sz else m);
          sec = (\<lambda>o' m. case o' of None \<Rightarrow> m | Some sz \<Rightarrow> bump sz m);
          m1 = fold (\<lambda>(sz, s) m. sec s (bump sz m)) cds 0
      in fold (\<lambda>(p, s) r. case r of Inl e \<Rightarrow> Inl e
              | Inr m \<Rightarrow> (case port_in_mask msk p of Inl e \<Rightarrow> Inl e | Inr b \<Rightarrow> Inr (if b then sec s m else m)))
           ports (Inr m1))"

text \<open>The arithmetic is 32 bits wide.\<close>

definition calculate_nb_mbufs :: "u32 \<Rightarrow> u16 \<Rightarrow> u16 \<Rightarrow> u32 \<Rightarrow> u16 \<Rightarrow> u16 \<Rightarrow> u32 \<Rightarrow> u32 \<Rightarrow> u32" where
  "calculate_nb_mbufs nb_lcores nb_rxd nb_txd frag_sz nb_ports nb_crypto_qp nb_rxq nb_txq =
     (let n = nb_rxq * ucast nb_rxd + ucast nb_ports * nb_lcores * 32 + ucast nb_ports * nb_txq * ucast nb_txd +
              nb_lcores * MEMPOOL_CACHE_SIZE + ucast nb_crypto_qp * CDEV_QUEUE_DESC +
              nb_lcores * frag_sz * FRAG_TBL_BUCKET_ENTRIES
      in if n < 8192 then 8192 else n)"

end
