(* ===== verification/Setup_Props.thy ===== *)
theory Setup_Props
  imports Setup Queues_Inv
begin

text \<open>
  What start-up establishes for the packet code: the receive queues of the cores, and the crypto
  device maps whose indices the queue engine uses without a check.
\<close>

section \<open>Receive queues\<close>

definition core_queues :: "lcore_params list \<Rightarrow> rx_queues" where
  "core_queues lps l = map (\<lambda>lp. (lp_port lp, lp_queue lp)) (filter (\<lambda>lp. unat (lp_lcore lp) = l) lps)"

lemma init_lcore_rx_queues_ok:
  assumes "init_lcore_rx_queues lps rxq = (rxq', None)" and "\<forall>l. length (rxq l) \<le> MAX_RX_QUEUE_PER_LCORE"
  shows "(\<forall>l. rxq' l = rxq l @ core_queues lps l) \<and> (\<forall>l. length (rxq' l) \<le> MAX_RX_QUEUE_PER_LCORE)"
  using assms
proof (induction lps arbitrary: rxq)
  case Nil
  then show ?case by (simp add: core_queues_def)
next
  case (Cons lp lps)
  let ?l = "unat (lp_lcore lp)"
  let ?r = "rxq(?l := rxq ?l @ [(lp_port lp, lp_queue lp)])"
  from Cons.prems have *: "init_lcore_rx_queues lps ?r = (rxq', None)" "length (rxq ?l) < MAX_RX_QUEUE_PER_LCORE"
    by (auto simp: Let_def split: if_splits)
  with Cons.prems(2) have "\<forall>l. length (?r l) \<le> MAX_RX_QUEUE_PER_LCORE" by simp
  note ih = Cons.IH [OF *(1) this]
  have "rxq' l = rxq l @ core_queues (lp # lps) l" for l
    using conjunct1 [OF ih] by (simp add: core_queues_def)
  then show ?case using conjunct2 [OF ih] by blast
qed

lemma check_poll_loop_ok:
  "check_poll_loop sys msk lps = None \<Longrightarrow>
     lp \<in> set lps \<Longrightarrow> sy_lcore sys (unat (lp_lcore lp)) \<and> unat (lp_port lp) < 32 \<and> bit msk (unat (lp_port lp)) \<and> sy_port sys (lp_port lp)"
  by (induction lps) (auto simp: port_in_mask_def split: if_splits bool.splits sum.splits)

section \<open>Queue pairs\<close>

text \<open>No two entries of the tables of all cores and directions name the same queue pair.\<close>

definition separate :: "qp_state \<Rightarrow> bool" where
  "separate st \<longleftrightarrow>
     inj_on (\<lambda>(d, l, i). qkey (qps st d l ! i)) {(d, l, i). i < length (qps st d l)}"

definition qp_inv :: "qp_state \<Rightarrow> bool" where
  "qp_inv st \<longleftrightarrow>
     (\<forall>d l. length (qps st d l) \<le> MAX_QP_PER_LCORE) \<and>
     (\<forall>d k i. cmap st d k = Some i \<longrightarrow> i < length (qps st d (fst k))) \<and> separate st"

text \<open>While device \<open>c\<close> is distributed and queue pair \<open>q\<close> is next, possibly already used by one core.\<close>

definition older :: "nat \<Rightarrow> u16 \<Rightarrow> cdev_qp \<Rightarrow> bool" where
  "older c q x \<longleftrightarrow> unat (cq_id x) < c \<or> unat (cq_id x) = c \<and> cq_qp x < q"

definition below :: "nat \<Rightarrow> u16 \<Rightarrow> qp_state \<Rightarrow> bool" where
  "below c q st \<longleftrightarrow> (\<forall>d l. \<forall>x \<in> set (qps st d l). older c q x)"

definition pending :: "nat \<Rightarrow> u16 \<Rightarrow> bool \<Rightarrow> u8 \<Rightarrow> qp_state \<Rightarrow> bool" where
  "pending c q d l st \<longleftrightarrow>
     (\<forall>d' l'. \<forall>x \<in> set (qps st d' l'). older c q x \<or> unat (cq_id x) = c \<and> cq_qp x = q \<and> d' = d \<and> l' = l)"

lemma not_older_self [simp]: "unat (cq_id x) = c \<Longrightarrow> cq_qp x = q \<Longrightarrow> \<not> older c q x"
  by (simp add: older_def)

lemma separateD:
  assumes "separate st" and "i < length (qps st d l)" and "i' < length (qps st d' l')"
    and "qkey (qps st d l ! i) = qkey (qps st d' l' ! i')"
  shows "d = d' \<and> l = l' \<and> i = i'"
  using inj_onD [OF assms(1) [unfolded separate_def], of "(d, l, i)" "(d', l', i')"] assms(2-4) by simp

lemma separate_append:
  assumes "separate st" and "\<forall>d' l'. \<forall>x \<in> set (qps st d' l'). qkey x \<noteq> qkey y"
    and "qps st' = (qps st)(d := (qps st d)(l := qps st d l @ [y]))"
  shows "separate st'"
  unfolding separate_def
proof (rule inj_onI, clarsimp)
  fix d1 l1 i1 d2 l2 i2
  assume i: "i1 < length (qps st' d1 l1)" "i2 < length (qps st' d2 l2)"
    and eq: "qkey (qps st' d1 l1 ! i1) = qkey (qps st' d2 l2 ! i2)"
  have old: "qps st' d' l' ! i = qps st d' l' ! i \<and> i < length (qps st d' l') \<or>
      d' = d \<and> l' = l \<and> i = length (qps st d l) \<and> qps st' d' l' ! i = y"
    if "i < length (qps st' d' l')" for d' l' i
    using that assms(3) by (auto simp: nth_append less_Suc_eq split: if_splits)
  show "d1 = d2 \<and> l1 = l2 \<and> i1 = i2"
    using old [OF i(1)] old [OF i(2)] eq assms(2) separateD [OF assms(1), of i1 d1 l1 i2 d2 l2]
    by (metis nth_mem)
qed

lemma takeWhile_found:
  "length (takeWhile P xs) \<noteq> length xs \<Longrightarrow> length (takeWhile P xs) < length xs"
  by (simp add: le_neq_implies_less length_takeWhile_le)

lemma takeWhile_full: "length (takeWhile P xs) = length xs \<Longrightarrow> \<forall>x \<in> set xs. P x"
  by (induction xs) (auto split: if_splits)

lemma add_mapping_ok:
  assumes "add_mapping (\<lambda>_ _. True) d l (of_nat c) q a st = (r, st')" and "qp_inv st" and "pending c q d l st"
    and "c < 65536"
  shows "qp_inv st' \<and> pending c q d l st' \<and> (\<not> r \<longrightarrow> st' = st)"
proof -
  let ?t = "qps st d l"
  let ?i = "length (takeWhile (\<lambda>x. cq_id x \<noteq> of_nat c) ?t)"
  have c: "unat (of_nat c :: u16) = c" using assms(4) by (simp add: unat_of_nat_u16)
  consider "r = False" "st' = st"
    | (found) "?i < length ?t" "r = True" "st' = st\<lparr>cmap := (cmap st)(d := (cmap st d)((l, a) := Some ?i))\<rparr>"
    | (new) "?i = length ?t" "length ?t \<noteq> MAX_QP_PER_LCORE" "r = True"
        "st' = st\<lparr>qps := (qps st)(d := (qps st d)(l := ?t @ [new_qp (of_nat c) q])),
                 cmap := (cmap st)(d := (cmap st d)((l, a) := Some ?i))\<rparr>"
  proof (cases "cmap st d (l, a) = None")
    case False
    then show ?thesis using assms(1) that(1) by (simp add: add_mapping_def)
  next
    case key: True
    show ?thesis
    proof (cases "?i = length ?t")
      case True
      show ?thesis
        using assms(1) key that(1,3) True by (simp add: add_mapping_def Let_def split: if_split_asm)
    next
      case False
      then have "?i < length ?t" by (rule takeWhile_found)
      then show ?thesis using assms(1) key that(2) False by (simp add: add_mapping_def Let_def)
    qed
  qed
  then show ?thesis
  proof cases
    case found
    then have q: "qps st' = qps st" by simp
    then have "separate st' = separate st" "pending c q d l st' = pending c q d l st"
      by (simp_all add: separate_def pending_def)
    moreover have "i < length (qps st' d' (fst k))" if "cmap st' d' k = Some i" for d' k i
    proof (cases "d' = d \<and> k = (l, a)")
      case True
      then show ?thesis using that found(1,3) by simp
    next
      case False
      then have "cmap st d' k = Some i" using that found(3) by (auto split: if_splits)
      then show ?thesis using assms(2) unfolding qp_inv_def q by blast
    qed
    ultimately show ?thesis using assms(2,3) found(2) unfolding qp_inv_def q by blast
  next
    case new
    let ?y = "new_qp (of_nat c) q"
    have n: "\<forall>x \<in> set ?t. cq_id x \<noteq> of_nat c" using takeWhile_full [OF new(1)] .
    have "qkey x \<noteq> qkey ?y" if "x \<in> set (qps st d' l')" for d' l' x
    proof
      assume "qkey x = qkey ?y"
      then have k: "cq_id x = of_nat c" "cq_qp x = q" by (simp_all add: qkey_def new_qp_def)
      then have "\<not> older c q x" using c by simp
      then have "d' = d" "l' = l" using assms(3) that unfolding pending_def by blast+
      then show False using n that k by blast
    qed
    then have "separate st'"
      using assms(2) new(4) by (intro separate_append [of st ?y st' d l]) (auto simp: qp_inv_def)
    moreover have "pending c q d l st'"
      unfolding pending_def
    proof (intro allI ballI)
      fix d' l' x
      assume "x \<in> set (qps st' d' l')"
      then have "x \<in> set (qps st d' l') \<or> x = ?y \<and> d' = d \<and> l' = l" using new(4) by (auto split: if_splits)
      then show "older c q x \<or> unat (cq_id x) = c \<and> cq_qp x = q \<and> d' = d \<and> l' = l"
        using assms(3) c unfolding pending_def by (auto simp: new_qp_def)
    qed
    moreover have "\<forall>d' l'. length (qps st' d' l') \<le> MAX_QP_PER_LCORE"
    proof -
      have "length ?t < MAX_QP_PER_LCORE" using assms(2) new(2) unfolding qp_inv_def by (simp add: le_neq_implies_less)
      then show ?thesis using assms(2) new(4) by (simp add: qp_inv_def)
    qed
    moreover have "i < length (qps st' d' (fst k))" if "cmap st' d' k = Some i" for d' k i
    proof (cases "d' = d \<and> k = (l, a)")
      case True
      then show ?thesis using that new(1,4) by simp
    next
      case False
      then have "cmap st d' k = Some i" using that new(4) by (auto split: if_splits)
      then have "i < length (qps st d' (fst k))" using assms(2) unfolding qp_inv_def by blast
      then show ?thesis using new(4) by (cases d; cases d') auto
    qed
    ultimately show ?thesis using new(3) by (auto simp: qp_inv_def)
  qed (use assms(2,3) in simp)
qed

lemma map_algs_ok:
  assumes "map_algs (\<lambda>_ _. True) d l (of_nat c) q algs (r0, st) = (r, st')" and "qp_inv st" and "pending c q d l st"
    and "c < 65536"
  shows "qp_inv st' \<and> pending c q d l st' \<and> (\<not> r \<longrightarrow> \<not> r0 \<and> st' = st)"
  using assms(1-3)
proof (induction algs arbitrary: r0 st)
  case Nil
  then show ?case by (simp add: map_algs_def)
next
  case (Cons a algs)
  obtain r1 st1 where a: "add_mapping (\<lambda>_ _. True) d l (of_nat c) q a st = (r1, st1)" by fastforce
  note o = add_mapping_ok [OF a Cons.prems(2,3) assms(4)]
  have "map_algs (\<lambda>_ _. True) d l (of_nat c) q algs (r0 \<or> r1, st1) = (r, st')"
    using Cons.prems(1) a by (simp add: map_algs_def)
  from Cons.IH [OF this] o show ?case by blast
qed

lemma below_pending: "below c q st \<Longrightarrow> pending c q d l st"
  by (auto simp: below_def pending_def)

lemma unat_succ_u16: "(q :: u16) < m \<Longrightarrow> unat (q + 1) = unat q + 1"
  using unat_u16_less [of m] by (simp add: word_less_nat_alt unat_word_ariths)

lemma pending_below:
  assumes "pending c q d l st" and "q < m"
  shows "below c (q + 1) st"
  using assms(1) unat_succ_u16 [OF assms(2)]
  by (fastforce simp: pending_def below_def older_def word_less_nat_alt)

lemma add_cdev_mapping_ok:
  assumes "add_cdev_mapping (\<lambda>_ _. True) unprot ci (of_nat c) q lp st = Inr (r, st')" and "qp_inv st" and "below c q st"
    and "c < 65536" and "q < m"
  shows "qp_inv st' \<and> below c (if r then q + 1 else q) st'"
proof (cases "\<exists>inb. map_algs (\<lambda>_ _. True) inb (lp_lcore lp) (of_nat c) q (cap_algs (ci_caps ci)) (False, st) = (r, st')")
  case True
  then obtain inb where m: "map_algs (\<lambda>_ _. True) inb (lp_lcore lp) (of_nat c) q (cap_algs (ci_caps ci)) (False, st) = (r, st')"
    by blast
  note o = map_algs_ok [OF m assms(2) below_pending [OF assms(3)] assms(4)]
  then show ?thesis using assms(3) pending_below [OF _ assms(5)] by (cases r) auto
next
  case False
  then have "r = False" "st' = st" using assms(1) by (auto simp: add_cdev_mapping_def split: sum.splits if_splits)
  then show ?thesis using assms(2,3) by simp
qed

lemma qp_loop_ok:
  assumes "qp_loop ce unprot lps (of_nat c) m n q idx st = Inr (q', idx', st')" and "ce_ins ce = (\<lambda>_ _. True)"
    and "qp_inv st" and "below c q st" and "c < 65536" and "q \<le> m"
  shows "qp_inv st' \<and> below c q' st' \<and> q' \<le> m"
  using assms(1,3,4,6)
proof (induction n arbitrary: q idx st)
  case 0
  then show ?case by simp
next
  case (Suc n)
  show ?case
  proof (cases "q < m")
    case False
    then show ?thesis using Suc.prems by simp
  next
    case True
    then obtain r st1 where a: "add_cdev_mapping (\<lambda>_ _. True) unprot (ce_info ce (of_nat c)) (of_nat c) q (lps ! idx) st = Inr (r, st1)"
      and l: "qp_loop ce unprot lps (of_nat c) m n (if r then q + 1 else q) ((idx + 1) mod length lps) st1 = Inr (q', idx', st')"
      using Suc.prems(1) assms(2) by (auto split: sum.splits)
    have "(if r then q + 1 else q) \<le> m" using True inc_le [of q m] by (auto simp: add.commute)
    then show ?thesis
      using Suc.IH [OF l] add_cdev_mapping_ok [OF a Suc.prems(2,3) assms(5) True] by simp
  qed
qed

text \<open>Distributing a device adds only its own queue pairs, and these are unused.\<close>

definition unused :: "cdev_qp \<Rightarrow> bool" where
  "unused x \<longleftrightarrow> in_flight x = 0 \<and> cq_buf x = []"

definition kept :: "u16 \<Rightarrow> qp_state \<Rightarrow> qp_state \<Rightarrow> bool" where
  "kept c st st' \<longleftrightarrow> (\<forall>d l. \<forall>x \<in> set (qps st' d l). cq_id x = c \<and> unused x \<or> x \<in> set (qps st d l))"

lemma kept_refl [simp]: "kept c st st"
  by (simp add: kept_def)

lemma kept_trans: "kept c st st1 \<Longrightarrow> kept c st1 st2 \<Longrightarrow> kept c st st2"
  unfolding kept_def by blast

lemma add_mapping_kept: "kept c st (snd (add_mapping ins d l c q a st))"
  by (auto simp: add_mapping_def kept_def Let_def new_qp_def unused_def)

lemma map_algs_kept: "kept c st (snd (map_algs ins d l c q algs (r, st)))"
proof (induction algs arbitrary: r st)
  case Nil
  then show ?case by (simp add: map_algs_def)
next
  case (Cons a algs)
  obtain r1 st1 where a: "add_mapping ins d l c q a st = (r1, st1)" by fastforce
  have "kept c st st1" using add_mapping_kept [of c st ins d l q a] a by simp
  moreover have "map_algs ins d l c q (a # algs) (r, st) = map_algs ins d l c q algs (r \<or> r1, st1)"
    using a by (simp add: map_algs_def)
  ultimately show ?case using Cons.IH [of st1] kept_trans by auto
qed

lemma add_cdev_mapping_kept: "add_cdev_mapping ins unprot ci c q lp st = Inr (r, st') \<Longrightarrow> kept c st st'"
  using map_algs_kept [of c st ins _ "lp_lcore lp" q "cap_algs (ci_caps ci)" False]
  by (auto simp: add_cdev_mapping_def split: sum.splits if_splits) (metis snd_conv)

lemma qp_loop_kept: "qp_loop ce unprot lps c m n q idx st = Inr (q', idx', st') \<Longrightarrow> kept c st st'"
proof (induction n arbitrary: q idx st)
  case (Suc n)
  then show ?case
    by (auto split: if_splits sum.splits dest!: add_cdev_mapping_kept intro: kept_trans)
qed simp

section \<open>All devices\<close>

definition configured :: "cdev_run \<Rightarrow> bool" where
  "configured r \<longleftrightarrow>
     (\<forall>d l. \<forall>x \<in> set (qps (cr_st r) d l). \<exists>n. (cq_id x, n) \<in> set (cr_conf r) \<and> cq_qp x < n)"

definition all_unused :: "qp_state \<Rightarrow> bool" where
  "all_unused st \<longleftrightarrow> (\<forall>d l. \<forall>x \<in> set (qps st d l). unused x)"

lemma kept_unused: "kept c st st' \<Longrightarrow> all_unused st \<Longrightarrow> all_unused st'"
  unfolding kept_def all_unused_def by blast

definition run_inv :: "nat \<Rightarrow> cdev_run \<Rightarrow> bool" where
  "run_inv c r \<longleftrightarrow> qp_inv (cr_st r) \<and> below c 0 (cr_st r) \<and> configured r \<and> all_unused (cr_st r)"

lemma below_zero: "below c 0 st \<longleftrightarrow> (\<forall>d l. \<forall>x \<in> set (qps st d l). unat (cq_id x) < c)"
  by (simp add: below_def older_def)

lemma below_next: "below c q st \<Longrightarrow> below (Suc c) 0 st"
  by (fastforce simp: below_def older_def)

lemma cdev_init1_ok:
  assumes "cdev_init1 ce st ns lps req c r = Inr r'" and "run_inv c r" and "ce_ins ce = (\<lambda>_ _. True)" and "c < 65536"
  shows "run_inv (Suc c) r'"
proof (cases "r' = r")
  case True
  then show ?thesis using assms(2) by (auto simp: run_inv_def below_next)
next
  case False
  let ?ci = "ce_info ce (of_nat c)"
  let ?nb = "of_nat (length lps) :: u16"
  let ?m = "if ci_max_qps ?ci < ?nb then ci_max_qps ?ci else ?nb"
  from False assms(1) obtain q idx st1 where l: "qp_loop ce (unprotected_mask st) lps (of_nat c) ?m (length lps) 0 (cr_idx r) (cr_st r) = Inr (q, idx, st1)"
    and r': "r' = (let qp = min ?m (max req q); r1 = r\<lparr>cr_idx := idx, cr_st := st1\<rparr> in
      if qp = 0 then r1 else r1\<lparr>cr_total := cr_total r + qp, cr_conf := cr_conf r @ [(of_nat c, qp)]\<rparr>)"
    unfolding cdev_init1_def Let_def by (auto split: sum.splits bool.splits if_split_asm simp del: qp_loop.simps)
  have o: "qp_inv st1 \<and> below c q st1 \<and> q \<le> ?m"
    using qp_loop_ok [OF l assms(3)] assms(2,4) by (simp add: run_inv_def)
  have cfg: "configured r'"
    unfolding configured_def
  proof (intro allI ballI)
    fix d l x
    assume x: "x \<in> set (qps (cr_st r') d l)"
    have st1: "cr_st r' = st1" by (simp add: r' Let_def)
    show "\<exists>n. (cq_id x, n) \<in> set (cr_conf r') \<and> cq_qp x < n"
    proof (cases "cq_id x = of_nat c")
      case False
      then have "x \<in> set (qps (cr_st r) d l)" using qp_loop_kept [OF l] x st1 by (auto simp: kept_def)
      then obtain n where "(cq_id x, n) \<in> set (cr_conf r)" "cq_qp x < n"
        using assms(2) unfolding run_inv_def configured_def by blast
      moreover have "set (cr_conf r) \<subseteq> set (cr_conf r')" by (auto simp: r' Let_def)
      ultimately show ?thesis by blast
    next
      case True
      moreover have "unat (cq_id x) < c \<or> unat (cq_id x) = c \<and> cq_qp x < q"
        using o x unfolding st1 below_def older_def by blast
      ultimately have "cq_qp x < q" using assms(4) by (simp add: unat_of_nat_u16)
      moreover have "q \<le> min ?m (max req q)" using o by simp
      ultimately have "cq_qp x < min ?m (max req q)" by (rule less_le_trans)
      moreover from this have "min ?m (max req q) \<noteq> 0" by (metis word_not_simps(1))
      ultimately show ?thesis using True by (auto simp: r' Let_def)
    qed
  qed
  have "cr_st r' = st1" by (simp add: r' Let_def)
  moreover have "all_unused st1" using kept_unused [OF qp_loop_kept [OF l]] assms(2) by (simp add: run_inv_def)
  ultimately show ?thesis using o cfg below_next [of c q st1] by (simp add: run_inv_def)
qed

lemma cdev_loop_ok:
  assumes "cdev_loop ce st ns lps req [c..<n] r = Inr r'" and "run_inv c r" and "ce_ins ce = (\<lambda>_ _. True)"
    and "n \<le> 65536" and "c \<le> n"
  shows "run_inv n r'"
  using assms(1,2,5)
proof (induction "n - c" arbitrary: c r)
  case 0
  then show ?case by simp
next
  case (Suc k)
  then have c: "c < n" by simp
  then obtain r1 where i: "cdev_init1 ce st ns lps req c r = Inr r1"
    and l: "cdev_loop ce st ns lps req [Suc c..<n] r1 = Inr r'"
    using Suc.prems(1) by (auto simp: upt_conv_Cons split: sum.splits)
  have "run_inv (Suc c) r1" using cdev_init1_ok [OF i Suc.prems(2) assms(3)] c assms(4) by simp
  then show ?case using Suc.hyps(1) [OF _ l] Suc.hyps(2) c by simp
qed

lemma cryptodevs_init_inv:
  assumes "cryptodevs_init ce st ns lps req = Inr r" and "ce_ins ce = (\<lambda>_ _. True)"
  shows "qp_inv (cr_st r) \<and> configured r \<and> all_unused (cr_st r)"
proof -
  let ?r0 = "\<lparr>cr_idx = 0, cr_total = 0, cr_conf = [], cr_st = no_qps\<rparr>"
  have "run_inv 0 ?r0"
    by (auto simp: run_inv_def qp_inv_def separate_def below_def configured_def no_qps_def inj_on_def all_unused_def)
  then have "run_inv (unat (ce_count ce)) r"
    using cdev_loop_ok [of ce st ns lps req 0 "unat (ce_count ce)" ?r0 r] assms unat_u8_less [of "ce_count ce"]
    by (simp add: cryptodevs_init_def)
  then show ?thesis by (simp add: run_inv_def)
qed

section \<open>Queues of a port\<close>

definition port_queues :: "rx_queues \<Rightarrow> u16 \<Rightarrow> nat list \<Rightarrow> (nat \<times> u16) list" where
  "port_queues rxq port ls =
     concat (map (\<lambda>l. map (\<lambda>x. (l, ucast (snd x))) (filter (\<lambda>x. fst x = port) (rxq l))) ls)"

text \<open>Consecutive transmit queues, one for each core.\<close>

definition number_from :: "nat \<Rightarrow> nat list \<Rightarrow> (nat \<times> u16) list" where
  "number_from n ls = zip ls (map of_nat [n..<n + length ls])"

lemma number_from_simps [simp]:
  "number_from n [] = []" "number_from n (l # ls) = (l, of_nat n) # number_from (Suc n) ls"
  by (simp_all add: number_from_def upt_conv_Cons del: upt_Suc)

definition lcore_of_rxq :: "port_result \<Rightarrow> (nat \<times> u16) list" where
  "lcore_of_rxq r = map (\<lambda>(l, q, sock). (l, q)) (pr_rxq r)"

definition same_config_ports :: "port_result \<Rightarrow> port_result \<Rightarrow> bool" where
  "same_config_ports r r' \<longleftrightarrow> pr_mac r' = pr_mac r \<and> pr_nb_rx r' = pr_nb_rx r \<and> pr_nb_tx r' = pr_nb_tx r \<and>
     pr_rx_ol r' = pr_rx_ol r \<and> pr_tx_ol r' = pr_tx_ol r"

lemma setup_rxqs_ok:
  "setup_rxqs pe port sock l qs r = Inr r' \<Longrightarrow>
     same_config_ports r r' \<and> pr_txq r' = pr_txq r \<and>
     lcore_of_rxq r' = lcore_of_rxq r @ map (\<lambda>x. (l, ucast (snd x))) (filter (\<lambda>x. fst x = port) qs) \<and>
     (\<forall>x \<in> set (pr_rxq r'). x \<in> set (pr_rxq r) \<or> pe_rxq pe port (fst (snd x)))"
proof (induction qs arbitrary: r)
  case (Cons x qs)
  obtain p q where x: "x = (p, q)" by fastforce
  show ?case
  proof (cases "p = port")
    case False
    then show ?thesis using Cons by (simp add: x)
  next
    case True
    let ?r = "r\<lparr>pr_rxq := pr_rxq r @ [(l, ucast q, sock)]\<rparr>"
    from Cons.prems True have *: "pe_rxq pe port (ucast q)" "setup_rxqs pe port sock l qs ?r = Inr r'"
      by (auto simp: x split: if_splits)
    from Cons.IH [OF *(2)] *(1) True show ?thesis
      by (auto simp: x same_config_ports_def lcore_of_rxq_def)
  qed
qed (simp add: same_config_ports_def)

lemma lcore_queues_ok:
  assumes "lcore_queues pe sys rxq port ls (of_nat n) r = Inr r'" and "n + length ls < 65536"
  shows "same_config_ports r r' \<and>
    (let en = filter (sy_lcore sys) ls in
     pr_txq r' = pr_txq r @ number_from n en \<and>
     lcore_of_rxq r' = lcore_of_rxq r @ port_queues rxq port en) \<and>
    (\<forall>x \<in> set (pr_rxq r'). x \<in> set (pr_rxq r) \<or> pe_rxq pe port (fst (snd x)))"
  using assms
proof (induction ls arbitrary: n r)
  case Nil
  then show ?case by (simp add: same_config_ports_def port_queues_def)
next
  case (Cons l ls)
  show ?case
  proof (cases "sy_lcore sys l")
    case False
    then show ?thesis using Cons.IH [of n r] Cons.prems by simp
  next
    case True
    let ?sock = "if pe_numa pe then pe_socket pe l else 0"
    from Cons.prems(1) True obtain r1 where
      s: "setup_rxqs pe port ?sock l (rxq l) (r\<lparr>pr_txq := pr_txq r @ [(l, of_nat n)]\<rparr>) = Inr r1"
      and c: "lcore_queues pe sys rxq port ls (of_nat (Suc n)) r1 = Inr r'"
      by (auto simp: Let_def add.commute split: if_split_asm sum.splits)
    note o = setup_rxqs_ok [OF s] and ih = Cons.IH [OF c]
    show ?thesis
      using o ih Cons.prems(2) True
      by (auto simp: same_config_ports_def Let_def port_queues_def lcore_of_rxq_def)
  qed
qed

lemma number_from_distinct:
  assumes "distinct ls" and "n + length ls < 65536"
  shows "distinct (map snd (number_from n ls)) \<and> map fst (number_from n ls) = ls \<and>
    (\<forall>x \<in> set (number_from n ls). unat (snd x) < n + length ls)"
proof -
  have "inj_on (of_nat :: nat \<Rightarrow> u16) (set [n..<n + length ls])"
    using assms(2) by (intro inj_on_inverseI [of _ unat]) (simp add: unat_of_nat_u16)
  moreover have "unat (of_nat i :: u16) = i" if "i < n + length ls" for i
    using that assms(2) by (simp add: unat_of_nat_u16)
  ultimately show ?thesis
    by (auto simp: number_from_def distinct_map dest!: set_zip_rightD)
qed

section \<open>Properties\<close>

text \<open>
  The map as the queue engine of core \<open>l\<close> reads it, with the numbering of the algorithms by the
  library.
\<close>

definition core_env ::
  "device_env \<Rightarrow> (cipher_alg \<Rightarrow> u8) \<Rightarrow> (auth_alg \<Rightarrow> u8) \<Rightarrow> (aead_alg \<Rightarrow> u8) \<Rightarrow> qp_state \<Rightarrow> bool \<Rightarrow> u8 \<Rightarrow> device_env" where
  "core_env env cn an en st d l = env\<lparr>cdev_map := (\<lambda>(c, a, e). cmap st d (l, cn c, an a, en e))\<rparr>"

text \<open>
  C14. When \<open>cryptodevs_init\<close> succeeds and the hash tables took every key, the map of each core and
  direction names only entries of that core's table of queue pairs, which is what the queue engine
  relies on when it indexes the table without a check; every queue pair in a table is one its device
  was configured with; and no queue pair is in two tables or twice in one, so that the cores can use
  them without locks.
\<close>

theorem cryptodevs_init_separates:
  assumes "cryptodevs_init ce st ns lps req = Inr r" and "ce_ins ce = (\<lambda>_ _. True)"
  shows "(\<forall>d l. map_ok (core_env env cn an en (cr_st r) d l) (length (qps (cr_st r) d l))) \<and>
    (\<forall>d l. \<forall>x \<in> set (qps (cr_st r) d l). \<exists>n. (cq_id x, n) \<in> set (cr_conf r) \<and> cq_qp x < n) \<and>
    (\<forall>d l i d' l' i'. i < length (qps (cr_st r) d l) \<and> i' < length (qps (cr_st r) d' l') \<and>
       qkey (qps (cr_st r) d l ! i) = qkey (qps (cr_st r) d' l' ! i') \<longrightarrow> (d, l, i) = (d', l', i'))"
proof -
  from cryptodevs_init_inv [OF assms] have q: "qp_inv (cr_st r)" and c: "configured r" by simp_all
  have "map_ok (core_env env cn an en (cr_st r) d l) (length (qps (cr_st r) d l))" for d l
    using q unfolding map_ok_def core_env_def qp_inv_def MAX_QP_PER_LCORE_def
    by (auto simp: le_trans [of _ 256] split: prod.splits)
  moreover have "(d, l, i) = (d', l', i')"
    if "i < length (qps (cr_st r) d l) \<and> i' < length (qps (cr_st r) d' l') \<and>
      qkey (qps (cr_st r) d l ! i) = qkey (qps (cr_st r) d' l' ! i')" for d l i d' l' i'
    using that q separateD [of "cr_st r" i d l i' d' l'] by (simp add: qp_inv_def)
  ultimately show ?thesis using c by (auto simp: configured_def)
qed

text \<open>
  A poll-mode configuration that passes the checks gives each core exactly the queues of its
  mapping entries, in order and at most 16, each of an enabled and present port, and only to enabled
  cores. When a port is then configured, every enabled core has a transmit queue of its own, below
  the number the port was configured with; the receive queues set up are those the enabled cores
  poll on the port, each accepted by the device; and the offloads asked for are all enabled, and
  none that the device or the command line excludes.
\<close>

theorem poll_setup_sound:
  assumes "check_poll_mode_params sys st = None" and "eh_mode st = Poll_mode" and "lcore_cfg st = Some lps"
    and "init_lcore_rx_queues lps (\<lambda>_. []) = (rxq, None)" and "sy_max_lcore sys < 65536"
    and "nb_lcores = of_nat (length (filter (sy_lcore sys) [0..<sy_max_lcore sys]))"
    and "port_init pe sys st lps nb_lcores rxq port req_rx req_tx = Inr r" and "pe_info pe port = Inr pinf"
  shows "(\<forall>l. rxq l = core_queues lps l \<and> length (rxq l) \<le> 16) \<and>
    (\<forall>l p q. (p, q) \<in> set (rxq l) \<longrightarrow>
       sy_lcore sys l \<and> sy_port sys p \<and> unat p < 32 \<and> bit (enabled_port_mask st) (unat p)) \<and>
    map fst (pr_txq r) = filter (sy_lcore sys) [0..<sy_max_lcore sys] \<and> distinct (map snd (pr_txq r)) \<and>
    (\<forall>x \<in> set (pr_txq r). snd x < pr_nb_tx r) \<and>
    lcore_of_rxq r = port_queues rxq port (filter (sy_lcore sys) [0..<sy_max_lcore sys]) \<and>
    (\<forall>x \<in> set (pr_rxq r). pe_rxq pe port (fst (snd x))) \<and>
    pr_rx_ol r AND (pi_rx_capa pinf AND rx_offload st) = pr_rx_ol r \<and>
    req_rx AND pr_rx_ol r = req_rx \<and> req_tx AND pr_tx_ol r = req_tx"
proof -
  let ?en = "filter (sy_lcore sys) [0..<sy_max_lcore sys]"
  let ?w = "rx_wanted (pe_ol pe) st req_rx"
  let ?t = "tx_wanted (pe_ol pe) st req_tx"
  let ?tx = "tx_extra (pe_ol pe) (pi_tx_capa pinf AND tx_offload st) ?t"
  from assms(7,8) obtain mac nbr where
    c: "lcore_queues pe sys rxq port [0..<sy_max_lcore sys] (of_nat 0)
      \<lparr>pr_mac = mac, pr_nb_rx = nbr, pr_nb_tx = nb_lcores, pr_rx_ol = ?w, pr_tx_ol = ?tx, pr_txq = [], pr_rxq = []\<rparr> = Inr r"
    and w: "?w AND (pi_rx_capa pinf AND rx_offload st) = ?w"
    by (auto simp: port_init_def Let_def split: sum.splits if_split_asm)
  note o = lcore_queues_ok [OF c]
  have "length ?en \<le> sy_max_lcore sys" using length_filter_le [of "sy_lcore sys" "[0..<sy_max_lcore sys]"] by simp
  then have en: "length ?en < 65536" using assms(5) by simp
  note n = number_from_distinct [of ?en 0]
  have tx: "pr_txq r = number_from 0 ?en" "lcore_of_rxq r = port_queues rxq port ?en"
    "pr_nb_tx r = nb_lcores" "pr_rx_ol r = ?w" "pr_tx_ol r = ?tx"
    "\<forall>x \<in> set (pr_rxq r). pe_rxq pe port (fst (snd x))"
    using o assms(5) by (auto simp: Let_def same_config_ports_def lcore_of_rxq_def)
  have "snd x < pr_nb_tx r" if "x \<in> set (pr_txq r)" for x
    using that n en unfolding tx assms(6) by (simp add: word_less_nat_alt unat_of_nat_u16)
  moreover have "rxq l = core_queues lps l \<and> length (core_queues lps l) \<le> 16" for l
    using init_lcore_rx_queues_ok [OF assms(4)] unfolding MAX_RX_QUEUE_PER_LCORE_def by (metis append_Nil le0 list.size(3))
  moreover have "sy_lcore sys l \<and> sy_port sys p \<and> unat p < 32 \<and> bit (enabled_port_mask st) (unat p)"
    if "(p, q) \<in> set (rxq l)" for l p q
  proof -
    have "(p, q) \<in> set (core_queues lps l)" using that calculation(2) by simp
    then obtain lp where "lp \<in> set lps" "p = lp_port lp" "unat (lp_lcore lp) = l" by (auto simp: core_queues_def)
    moreover have "check_poll_loop sys (enabled_port_mask st) lps = None"
      using assms(1-3) by (simp add: check_poll_mode_params_def)
    ultimately show ?thesis using check_poll_loop_ok by blast
  qed
  moreover have "req_rx AND ?w = req_rx"
    by (rule bit_word_eqI) (auto simp: rx_wanted_def bit_simps)
  moreover have "req_tx AND ?tx = req_tx"
    by (rule bit_word_eqI) (auto simp: tx_wanted_def tx_extra_def Let_def bit_simps)
  ultimately show ?thesis using n en tx w by simp
qed

text \<open>Two crypto devices with three queue pairs each, two cores, the second port unprotected.\<close>

definition sample_lps :: "lcore_params list" where
  "sample_lps = [\<lparr>lp_port = 0, lp_queue = 0, lp_lcore = 0\<rparr>, \<lparr>lp_port = 1, lp_queue = 0, lp_lcore = 1\<rparr>,
     \<lparr>lp_port = 1, lp_queue = 1, lp_lcore = 0\<rparr>]"

definition sample_settings :: settings where
  "sample_settings = default_settings\<lparr>enabled_port_mask := 3, unprotected_mask := 2, lcore_cfg := Some sample_lps\<rparr>"

definition sample_cdevs :: cdev_env where
  "sample_cdevs = \<lparr>ce_info = (\<lambda>c. \<lparr>ci_chaining = True, ci_sgl = True,
       ci_caps = (if c = 0 then [Cap_cipher 4, Cap_auth 9] else [Cap_aead 3, Cap_cipher 4, Cap_auth 9]), ci_max_qps = 3, ci_max_sess = 0\<rparr>),
     ce_count = 2, ce_ins = (\<lambda>_ _. True), ce_configure = (\<lambda>_ _. True), ce_qp_setup = (\<lambda>_ _. True), ce_start = (\<lambda>_. True)\<rparr>"

lemma cryptodevs_init_separates_witness:
  "\<exists>r. cryptodevs_init sample_cdevs sample_settings 0 sample_lps 0 = Inr r \<and>
     map qkey (qps (cr_st r) False 0) = [(0, 0), (1, 0)] \<and> map qkey (qps (cr_st r) True 1) = [(0, 1), (1, 1)] \<and>
     cr_conf r = [(0, 3), (1, 3)] \<and>
     map_ok (core_env sample_env (\<lambda>_. 4) (\<lambda>_. 9) (\<lambda>_. 3) (cr_st r) True 1) (length (qps (cr_st r) True 1))"
proof -
  have "case cryptodevs_init sample_cdevs sample_settings 0 sample_lps 0 of
      Inl _ \<Rightarrow> False
    | Inr r \<Rightarrow> map qkey (qps (cr_st r) False 0) = [(0, 0), (1, 0)] \<and> map qkey (qps (cr_st r) True 1) = [(0, 1), (1, 1)] \<and>
        cr_conf r = [(0, 3), (1, 3)]"
    by code_simp
  then obtain r where r: "cryptodevs_init sample_cdevs sample_settings 0 sample_lps 0 = Inr r"
    and t: "map qkey (qps (cr_st r) False 0) = [(0, 0), (1, 0)] \<and> map qkey (qps (cr_st r) True 1) = [(0, 1), (1, 1)] \<and>
        cr_conf r = [(0, 3), (1, 3)]"
    by (auto split: sum.splits)
  have i: "ce_ins sample_cdevs = (\<lambda>_ _. True)" by (simp add: sample_cdevs_def)
  have "map_ok (core_env sample_env (\<lambda>_. 4) (\<lambda>_. 9) (\<lambda>_. 3) (cr_st r) True 1) (length (qps (cr_st r) True 1))"
    by (rule cryptodevs_init_separates [OF r i, THEN conjunct1, THEN spec, THEN spec])
  then show ?thesis using r t by (intro exI [of _ r] conjI) simp_all
qed

definition sample_sys :: sys_env where
  "sample_sys = \<lparr>sy_lcore = (\<lambda>l. l < 2), sy_port = (\<lambda>p. p < 2), sy_max_lcore = 4\<rparr>"

definition sample_ports :: port_env where
  "sample_ports = \<lparr>pe_ol = \<lparr>ol_rx_cksum = 14, ol_rx_scatter = 0x2000, ol_tx_multi_segs = 0x8000, ol_tx_fast_free = 0x10000, ol_tx_ipv4_cksum = 2\<rparr>,
     pe_info = (\<lambda>_. Inr \<lparr>pi_rx_capa = 0x800E, pi_tx_capa = 0x20003, pi_max_rx = 4, pi_max_tx = 4\<rparr>), pe_mac = (\<lambda>_. Inr 0x010203),
     pe_numa = False, pe_socket = (\<lambda>_. 0), pe_configure = (\<lambda>_ _ _ _ _. True), pe_adjust = (\<lambda>_. True),
     pe_txq = (\<lambda>_ _. True), pe_rxq = (\<lambda>_ _. True)\<rparr>"

lemma poll_setup_sound_witness:
  "\<exists>rxq r. init_lcore_rx_queues sample_lps (\<lambda>_. []) = (rxq, None) \<and>
     port_init sample_ports sample_sys sample_settings sample_lps 2 rxq 1 0x8000 0x20000 = Inr r \<and>
     lcore_of_rxq r = [(0, 1), (1, 0)] \<and> distinct (map snd (pr_txq r)) \<and> pr_tx_ol r = 0x20002 \<and> rxq 0 = [(0, 0), (1, 1)]"
proof -
  have s: "fst (init_lcore_rx_queues sample_lps (\<lambda>_. [])) 0 = [(0, 0), (1, 1)]"
    "snd (init_lcore_rx_queues sample_lps (\<lambda>_. [])) = None"
    by code_simp+
  obtain rxq where q: "init_lcore_rx_queues sample_lps (\<lambda>_. []) = (rxq, None)" and q0: "rxq 0 = [(0, 0), (1, 1)]"
    using s by (cases "init_lcore_rx_queues sample_lps (\<lambda>_. [])") auto
  have "case port_init sample_ports sample_sys sample_settings sample_lps 2 (fst (init_lcore_rx_queues sample_lps (\<lambda>_. []))) 1 0x8000 0x20000 of
      Inl _ \<Rightarrow> False | Inr r \<Rightarrow> lcore_of_rxq r = [(0, 1), (1, 0)] \<and> pr_tx_ol r = 0x20002"
    by code_simp
  then obtain r where r: "port_init sample_ports sample_sys sample_settings sample_lps 2 rxq 1 0x8000 0x20000 = Inr r"
    and t: "lcore_of_rxq r = [(0, 1), (1, 0)]" "pr_tx_ol r = 0x20002"
    unfolding q by (auto split: sum.splits)
  have c: "check_poll_mode_params sample_sys sample_settings = None" by code_simp
  have e: "eh_mode sample_settings = Poll_mode" "lcore_cfg sample_settings = Some sample_lps" "sy_max_lcore sample_sys < 65536"
    by (simp_all add: sample_settings_def default_settings_def sample_sys_def)
  have n: "(2 :: u16) = of_nat (length (filter (sy_lcore sample_sys) [0..<sy_max_lcore sample_sys]))" by code_simp
  have i: "pe_info sample_ports 1 = Inr \<lparr>pi_rx_capa = 0x800E, pi_tx_capa = 0x20003, pi_max_rx = 4, pi_max_tx = 4\<rparr>"
    by (simp add: sample_ports_def)
  show ?thesis using poll_setup_sound [OF c e(1,2) q e(3) n r i] q q0 r t by blast
qed

end
