(* ===== verification/Event_Helper.thy ===== *)
theory Event_Helper
  imports Setup
begin

text \<open>
  The event mode helper, \<open>event_helper.c\<close>: the default configuration of event device, links and
  adapters, the calls that set the devices up in order, the choice of the worker, and the
  adapters' service core. The environment layer and the event devices are parameters (\<open>eh_env\<close>): in
  particular \<open>ee_next\<close> is \<open>rte_get_next_lcore\<close>. A device call is a value of \<open>ev_op\<close>; \<open>exec\<close> runs a list
  of calls up to the first that fails. Arrays with a counter are lists.
\<close>

section \<open>Configuration\<close>

record eventdev_params =
  ed_id :: u8
  ed_nb_queue :: u8
  ed_nb_port :: u8
  ed_internal :: bool

record ev_link =
  el_dev :: u8
  el_port :: u8
  el_queue :: u8
  el_lcore :: u8

text \<open>A connection of the receive adapter: port and event queue; all receive queues are added.\<close>

record rx_conn =
  rc_eth :: u8
  rc_queue :: u8

text \<open>The core of an adapter; \<open>None\<close> is \<open>(uint32_t)-1\<close>, no core needed.\<close>

record rx_adapter =
  ra_dev :: u8
  ra_id :: u8
  ra_core :: "nat option"
  ra_conns :: "rx_conn list"

record tx_adapter =
  ta_dev :: u8
  ta_id :: u8
  ta_core :: "nat option"
  ta_conns :: "u8 list"
  ta_queue :: u8

record eventmode_conf =
  em_devs :: "eventdev_params list"
  em_rx :: "rx_adapter list"
  em_tx :: "tx_adapter list"
  em_links :: "ev_link list"
  em_eth_cores :: "nat \<Rightarrow> bool"
  em_portmask :: u32
  em_sched :: sched_type
  em_all_queues :: bool
  em_vector :: bool
  em_vector_size :: u16
  em_vector_tmo :: u64

definition MAX_CONNECTIONS :: nat where "MAX_CONNECTIONS = 16"

record ev_info =
  ei_max_ports :: u8
  ei_max_queues :: u8
  ei_burst :: bool

record vector_limits =
  vl_min :: u16
  vl_max :: u16
  vl_log2 :: bool
  vl_min_tmo :: u64
  vl_max_tmo :: u64

record eh_env =
  ee_sys :: sys_env
  ee_next :: "nat option \<Rightarrow> bool \<Rightarrow> bool \<Rightarrow> nat"
  ee_nb_eventdev :: nat
  ee_nb_eth :: nat
  ee_eths :: "u16 list"
  ee_info :: "u8 \<Rightarrow> errno + ev_info"
  ee_rx_caps :: "u8 \<Rightarrow> nat \<Rightarrow> errno + bool"
  ee_tx_caps :: "u8 \<Rightarrow> nat \<Rightarrow> errno + bool"
  ee_limits :: "u8 \<Rightarrow> u8 \<Rightarrow> errno + vector_limits"
  ee_tx_port :: "u8 \<Rightarrow> errno + u8"
  ee_nb_bufs :: u32

abbreviation max_lcore :: "eh_env \<Rightarrow> nat" where "max_lcore env \<equiv> sy_max_lcore (ee_sys env)"
abbreviation lcore_on :: "eh_env \<Rightarrow> nat \<Rightarrow> bool" where "lcore_on env \<equiv> sy_lcore (ee_sys env)"

text \<open>
  \<open>eh_conf_init\<close>: the first two cores after the main core are reserved for the adapters. The
  allocations are not modelled. The number \<open>RTE_MAX_LCORE\<close>, when there is no such core, is
  marked as well.
\<close>

definition eh_conf_init :: "eh_env \<Rightarrow> eventmode_conf" where
  "eh_conf_init env =
     (let c1 = ee_next env (Some 0) True False; c2 = ee_next env (Some c1) True False
      in \<lparr>em_devs = [], em_rx = [], em_tx = [], em_links = [], em_eth_cores = (\<lambda>l. l = c1 \<or> l = c2),
          em_portmask = 0, em_sched = Not_set, em_all_queues = False, em_vector = False,
          em_vector_size = 16, em_vector_tmo = 102400\<rparr>)"

section \<open>Cores\<close>

definition eh_get_enabled_cores :: "eh_env \<Rightarrow> (nat \<Rightarrow> bool) \<Rightarrow> nat" where
  "eh_get_enabled_cores env msk = length (filter (\<lambda>l. lcore_on env l \<and> msk l) [0..<max_lcore env])"

text \<open>
  \<open>eh_get_next_eth_core\<close> goes round the cores from \<open>prev_core\<close>, a static variable, which is returned
  updated. \<open>None\<close> stands for a loop that has not ended within the fuel.
\<close>

fun next_eth_loop :: "eh_env \<Rightarrow> (nat \<Rightarrow> bool) \<Rightarrow> nat \<Rightarrow> nat option \<Rightarrow> (nat \<times> nat option) option" where
  "next_eth_loop env msk 0 prev = None"
| "next_eth_loop env msk (Suc n) prev =
     (let c = ee_next env prev False True in
      if c = max_lcore env then Some (c, prev)
      else if msk c then Some (c, Some c)
      else next_eth_loop env msk n (Some c))"

definition eh_get_next_eth_core :: "eh_env \<Rightarrow> (nat \<Rightarrow> bool) \<Rightarrow> nat option \<Rightarrow> (nat \<times> nat option) option" where
  "eh_get_next_eth_core env msk prev =
     (if eh_get_enabled_cores env msk = 0 then Some (max_lcore env, prev)
      else next_eth_loop env msk (2 * max_lcore env + 2) prev)"

fun next_active_loop :: "eh_env \<Rightarrow> (nat \<Rightarrow> bool) \<Rightarrow> nat \<Rightarrow> nat option \<Rightarrow> nat option" where
  "next_active_loop env msk 0 prev = None"
| "next_active_loop env msk (Suc n) prev =
     (let c = ee_next env prev False False in
      if c = max_lcore env then Some c
      else if msk c then next_active_loop env msk n (Some c)
      else Some c)"

definition eh_get_next_active_core :: "eh_env \<Rightarrow> (nat \<Rightarrow> bool) \<Rightarrow> nat option \<Rightarrow> nat option" where
  "eh_get_next_active_core env msk prev = next_active_loop env msk (max_lcore env + 1) prev"

section \<open>Capabilities\<close>

definition eh_get_eventdev_params :: "eventmode_conf \<Rightarrow> u8 \<Rightarrow> eventdev_params option" where
  "eh_get_eventdev_params em d = List.find (\<lambda>e. ed_id e = d) (em_devs em)"

fun all_internal :: "(nat \<Rightarrow> errno + bool) \<Rightarrow> nat list \<Rightarrow> bool" where
  "all_internal caps [] = True"
| "all_internal caps (j # js) =
     (case caps j of Inl e \<Rightarrow> False | Inr b \<Rightarrow> (let r = all_internal caps js in b \<and> r))"

definition eh_dev_has_rx_internal_port :: "eh_env \<Rightarrow> u8 \<Rightarrow> bool" where
  "eh_dev_has_rx_internal_port env d = all_internal (ee_rx_caps env d) (map unat (ee_eths env))"

definition eh_dev_has_tx_internal_port :: "eh_env \<Rightarrow> u8 \<Rightarrow> bool" where
  "eh_dev_has_tx_internal_port env d = all_internal (ee_tx_caps env d) (map unat (ee_eths env))"

definition eh_dev_has_burst_mode :: "eh_env \<Rightarrow> u8 \<Rightarrow> bool" where
  "eh_dev_has_burst_mode env d = (case ee_info env d of Inl e \<Rightarrow> False | Inr i \<Rightarrow> ei_burst i)"

section \<open>The default configuration\<close>

definition eh_set_default_conf_eventdev :: "eh_env \<Rightarrow> eventmode_conf \<Rightarrow> errno + eventmode_conf" where
  "eh_set_default_conf_eventdev env em =
     (if ee_nb_eventdev env = 0 then Inl EINVAL
      else if ee_nb_eventdev env \<noteq> 1 then Inl EINVAL
      else if ee_nb_eth env = 0 then Inl EINVAL
      else
        (let nb_lcores = length (filter (lcore_on env) [0..<max_lcore env]) in
         case ee_info env 0 of
           Inl e \<Rightarrow> Inl e
         | Inr di \<Rightarrow>
             (if ei_max_ports di < 2 then Inl EINVAL
              else Inr (em\<lparr>em_devs :=
                [\<lparr>ed_id = 0,
                  ed_nb_queue = (if ee_nb_eth env + 1 < unat (ei_max_queues di) then of_nat (ee_nb_eth env + 1) else ei_max_queues di),
                  ed_nb_port = (if nb_lcores < unat (ei_max_ports di) then of_nat nb_lcores else ei_max_ports di),
                  ed_internal = False\<rparr>]\<rparr>))))"

definition eh_do_capability_check :: "eh_env \<Rightarrow> eventmode_conf \<Rightarrow> eventmode_conf" where
  "eh_do_capability_check env em =
     (let intl = (\<lambda>d. eh_dev_has_rx_internal_port env (ed_id d) \<and> eh_dev_has_tx_internal_port env (ed_id d));
          ds = map (\<lambda>d. if intl d then d\<lparr>ed_internal := True\<rparr> else d) (em_devs em)
      in if list_all intl (em_devs em)
         then em\<lparr>em_eth_cores := (\<lambda>_. False), em_devs := map (\<lambda>d. d\<lparr>ed_nb_queue := ed_nb_queue d - 1\<rparr>) ds\<rparr>
         else em\<lparr>em_devs := ds\<rparr>)"

text \<open>Event ports \<open>i\<close>, \<open>i + 1\<close>, ... for the next active cores; the link's queue stays 0.\<close>

fun link_loop :: "eh_env \<Rightarrow> (nat \<Rightarrow> bool) \<Rightarrow> u8 \<Rightarrow> nat list \<Rightarrow> nat option \<Rightarrow> ev_link list \<Rightarrow> ev_link list option" where
  "link_loop env msk d [] prev acc = Some acc"
| "link_loop env msk d (i # is) prev acc =
     (case eh_get_next_active_core env msk prev of
        None \<Rightarrow> None
      | Some c \<Rightarrow>
          (if c = max_lcore env then Some acc
           else link_loop env msk d is (Some c)
                  (acc @ [\<lparr>el_dev = d, el_port = of_nat i, el_queue = 0, el_lcore = of_nat c\<rparr>])))"

definition eh_set_default_conf_link :: "eh_env \<Rightarrow> eventmode_conf \<Rightarrow> eventmode_conf option" where
  "eh_set_default_conf_link env em =
     (let d = hd (em_devs em) in
      map_option (\<lambda>ls. em\<lparr>em_all_queues := True, em_links := ls\<rparr>)
        (link_loop env (em_eth_cores em) (ed_id d) [0..<unat (ed_nb_port d)] None (em_links em)))"

text \<open>
  The connections of the enabled ports among \<open>is\<close>, and whether all of them have an internal port.
  The seventeenth connection is written past the array.
\<close>

fun rx_conn_loop :: "eh_env \<Rightarrow> u32 \<Rightarrow> u8 \<Rightarrow> bool \<Rightarrow> nat list \<Rightarrow> rx_conn list \<Rightarrow> bool \<Rightarrow> errno + rx_conn list \<times> bool" where
  "rx_conn_loop env msk d single [] acc intl = Inr (acc, intl)"
| "rx_conn_loop env msk d single (i # is) acc intl =
     (case port_in_mask msk (of_nat i) of
        Inl e \<Rightarrow> Inl e
      | Inr False \<Rightarrow> rx_conn_loop env msk d single is acc intl
      | Inr True \<Rightarrow>
          (if MAX_CONNECTIONS \<le> length acc then Inl UB
           else case ee_rx_caps env d i of
             Inl e \<Rightarrow> Inl e
           | Inr b \<Rightarrow> rx_conn_loop env msk d single is
                        (acc @ [\<lparr>rc_eth = of_nat i, rc_queue = (if single then 0 else of_nat i)\<rparr>]) (intl \<and> b)))"

fun tx_conn_loop :: "eh_env \<Rightarrow> u32 \<Rightarrow> u8 \<Rightarrow> nat list \<Rightarrow> u8 list \<Rightarrow> bool \<Rightarrow> errno + u8 list \<times> bool" where
  "tx_conn_loop env msk d [] acc intl = Inr (acc, intl)"
| "tx_conn_loop env msk d (i # is) acc intl =
     (case port_in_mask msk (of_nat i) of
        Inl e \<Rightarrow> Inl e
      | Inr False \<Rightarrow> tx_conn_loop env msk d is acc intl
      | Inr True \<Rightarrow>
          (if MAX_CONNECTIONS \<le> length acc then Inl UB
           else case ee_tx_caps env d i of
             Inl e \<Rightarrow> Inl e
           | Inr b \<Rightarrow> tx_conn_loop env msk d is (acc @ [of_nat i]) (intl \<and> b)))"

text \<open>The core of an adapter that needs one; the error is a loop that does not end.\<close>

definition adapter_core ::
  "eh_env \<Rightarrow> eventmode_conf \<Rightarrow> bool \<Rightarrow> nat option \<Rightarrow> errno + nat option \<times> nat option" where
  "adapter_core env em intl prev =
     (if intl then Inr (None, prev)
      else case eh_get_next_eth_core env (em_eth_cores em) prev of
        None \<Rightarrow> Inl UB
      | Some (c, prev') \<Rightarrow> Inr (Some c, prev'))"

definition eh_set_default_conf_rx_adapter ::
  "eh_env \<Rightarrow> eventmode_conf \<Rightarrow> nat option \<Rightarrow> errno + eventmode_conf \<times> nat option" where
  "eh_set_default_conf_rx_adapter env em prev =
     (case em_devs em of
        [] \<Rightarrow> Inl EINVAL
      | d # _ \<Rightarrow>
          (let nbq = (if ed_internal d then int (unat (ed_nb_queue d)) else int (unat (ed_nb_queue d)) - 1);
               single = (nbq < int (ee_nb_eth env))
           in case rx_conn_loop env (em_portmask em) (ed_id d) single [0..<ee_nb_eth env] [] True of
                Inl e \<Rightarrow> Inl e
              | Inr (conns, internal) \<Rightarrow>
                  (case adapter_core env em internal prev of
                     Inl e \<Rightarrow> Inl e
                   | Inr (core, prev') \<Rightarrow>
                       Inr (em\<lparr>em_rx := [\<lparr>ra_dev = ed_id d, ra_id = 0, ra_core = core, ra_conns = conns\<rparr>]\<rparr>, prev'))))"

definition eh_set_default_conf_tx_adapter ::
  "eh_env \<Rightarrow> eventmode_conf \<Rightarrow> nat option \<Rightarrow> errno + eventmode_conf \<times> nat option" where
  "eh_set_default_conf_tx_adapter env em prev =
     (case em_devs em of
        [] \<Rightarrow> Inl EINVAL
      | d # _ \<Rightarrow>
          (case tx_conn_loop env (em_portmask em) (ed_id d) [0..<ee_nb_eth env] [] True of
             Inl e \<Rightarrow> Inl e
           | Inr (conns, internal) \<Rightarrow>
               (case adapter_core env em internal prev of
                  Inl e \<Rightarrow> Inl e
                | Inr (core, prev') \<Rightarrow>
                    Inr (em\<lparr>em_tx := [\<lparr>ta_dev = ed_id d, ta_id = 0, ta_core = core, ta_conns = conns,
                                       ta_queue = (if internal then 0 else ed_nb_queue d - 1)\<rparr>]\<rparr>, prev'))))"

definition eh_validate_conf :: "eh_env \<Rightarrow> eventmode_conf \<Rightarrow> nat option \<Rightarrow> errno + eventmode_conf \<times> nat option" where
  "eh_validate_conf env em prev =
     (case (if em_devs em = [] then eh_set_default_conf_eventdev env em else Inr em) of
        Inl e \<Rightarrow> Inl e
      | Inr em0 \<Rightarrow>
          (let em1 = eh_do_capability_check env em0 in
           case (if em_links em1 = [] then eh_set_default_conf_link env em1 else Some em1) of
             None \<Rightarrow> Inl UB
           | Some em2 \<Rightarrow>
               (case (if em_rx em2 = [] then eh_set_default_conf_rx_adapter env em2 prev else Inr (em2, prev)) of
                  Inl e \<Rightarrow> Inl e
                | Inr (em3, prev3) \<Rightarrow>
                    (if em_tx em3 = [] then eh_set_default_conf_tx_adapter env em3 prev3 else Inr (em3, prev3)))))"

section \<open>Setting the devices up\<close>

text \<open>
  The calls: configuration of an event device with its queues and ports, set-up of a queue with its
  scheduling type, of a port, links (\<open>None\<close> for all queues) and unlinks, the adapters, start and stop.
\<close>

datatype ev_op =
    Op_configure u8 u8 u8
  | Op_queue u8 u8 sched_type
  | Op_port u8 u8
  | Op_link u8 u8 "u8 option"
  | Op_unlink u8 u8 u8
  | Op_vector_pool u32 u16
  | Op_rx_create u8 u8
  | Op_rx_queue_add u8 u8 u8 sched_type "(u16 \<times> u64) option"
  | Op_rx_service u8
  | Op_rx_start u8
  | Op_tx_create u8 u8
  | Op_tx_queue_add u8 u8
  | Op_tx_service u8
  | Op_tx_start u8
  | Op_dev_start u8
  | Op_eth_stop u16
  | Op_eth_start u16
  | Op_rx_stop u8
  | Op_rx_queue_del u8 u8
  | Op_rx_free u8
  | Op_dev_stop u8
  | Op_dev_close u8
  | Op_tx_stop u8
  | Op_tx_queue_del u8 u8
  | Op_tx_free u8

text \<open>
  What a call returns: a link that links no queue returns 0. The calls that took effect, and the
  error of the first that failed; the result of an unlink is not looked at.
\<close>

datatype ev_ret = Done | Nothing | Failed errno

fun exec :: "(ev_op \<Rightarrow> ev_ret) \<Rightarrow> ev_op list \<Rightarrow> ev_op list \<times> errno option" where
  "exec dv [] = ([], None)"
| "exec dv (Op_unlink d p q # os) =
     (case exec dv os of (log, r) \<Rightarrow> ((if dv (Op_unlink d p q) = Done then [Op_unlink d p q] else []) @ log, r))"
| "exec dv (op # os) =
     (case dv op of
        Failed e \<Rightarrow> ([], Some e)
      | Nothing \<Rightarrow> exec dv os
      | Done \<Rightarrow> (case exec dv os of (log, r) \<Rightarrow> (op # log, r)))"

definition queue_ops :: "eventmode_conf \<Rightarrow> eventdev_params \<Rightarrow> ev_op list" where
  "queue_ops em d =
     map (\<lambda>j. Op_queue (ed_id d) (of_nat j)
            (if \<not> ed_internal d \<and> Suc j = unat (ed_nb_queue d) then Atomic else em_sched em))
       [0..<unat (ed_nb_queue d)]"

definition port_ops :: "eventdev_params \<Rightarrow> ev_op list" where
  "port_ops d = map (\<lambda>j. Op_port (ed_id d) (of_nat j)) [0..<unat (ed_nb_port d)]"

definition link_ops :: "eventmode_conf \<Rightarrow> ev_op list" where
  "link_ops em = map (\<lambda>l. Op_link (el_dev l) (el_port l) (if em_all_queues em then None else Some (el_queue l))) (em_links em)"

text \<open>\<open>eh_initialize_eventdev\<close>: reading the device information comes first for each device.\<close>

fun info_ok :: "eh_env \<Rightarrow> eventmode_conf \<Rightarrow> eventdev_params list \<Rightarrow> ev_op list \<times> errno option" where
  "info_ok env em [] = (link_ops em, None)"
| "info_ok env em (d # ds) =
     (case ee_info env (ed_id d) of
        Inl e \<Rightarrow> ([], Some e)
      | Inr _ \<Rightarrow> (case info_ok env em ds of (os, r) \<Rightarrow>
          ([Op_configure (ed_id d) (ed_nb_queue d) (ed_nb_port d)] @ queue_ops em d @ port_ops d @ os, r)))"

text \<open>A plan: calls to make, and the error met after them, if any.\<close>

definition run_plan :: "(ev_op \<Rightarrow> ev_ret) \<Rightarrow> ev_op list \<times> errno option \<Rightarrow> ev_op list \<times> errno option" where
  "run_plan dv pl =
     (case exec dv (fst pl) of (log, Some e) \<Rightarrow> (log, Some e) | (log, None) \<Rightarrow> (log, snd pl))"

definition eh_initialize_eventdev :: "eh_env \<Rightarrow> (ev_op \<Rightarrow> ev_ret) \<Rightarrow> eventmode_conf \<Rightarrow> ev_op list \<times> errno option" where
  "eh_initialize_eventdev env dv em = run_plan dv (info_ok env em (em_devs em))"

definition eh_start_eventdev :: "(ev_op \<Rightarrow> ev_ret) \<Rightarrow> eventmode_conf \<Rightarrow> ev_op list \<times> errno option" where
  "eh_start_eventdev dv em = exec dv (map (\<lambda>d. Op_dev_start (ed_id d)) (em_devs em))"

definition power_of_2 :: "u16 \<Rightarrow> bool" where
  "power_of_2 w \<longleftrightarrow> w \<noteq> 0 \<and> w AND (w - 1) = 0"

definition eh_event_vector_limits_validate :: "eh_env \<Rightarrow> eventmode_conf \<Rightarrow> u8 \<Rightarrow> u8 \<Rightarrow> errno option" where
  "eh_event_vector_limits_validate env em d p =
     (case ee_limits env d p of
        Inl e \<Rightarrow> Some e
      | Inr l \<Rightarrow>
          (if em_vector_size em < vl_min l \<or> vl_max l < em_vector_size em then Some EINVAL
           else if vl_log2 l \<and> \<not> power_of_2 (em_vector_size em) then Some EINVAL
           else if vl_max_tmo l < em_vector_tmo em \<or> em_vector_tmo em < vl_min_tmo l then Some EINVAL
           else None))"

fun rx_queue_plan :: "eh_env \<Rightarrow> eventmode_conf \<Rightarrow> rx_adapter \<Rightarrow> rx_conn list \<Rightarrow> ev_op list \<times> errno option" where
  "rx_queue_plan env em a [] = ([Op_rx_service (ra_id a), Op_rx_start (ra_id a)], None)"
| "rx_queue_plan env em a (c # cs) =
     (let bad = (if em_vector em then eh_event_vector_limits_validate env em (ra_dev a) (rc_eth c) else None) in
      case bad of
        Some e \<Rightarrow> ([], Some e)
      | None \<Rightarrow>
          (case rx_queue_plan env em a cs of (os, r) \<Rightarrow>
             (Op_rx_queue_add (ra_id a) (rc_eth c) (rc_queue c) (em_sched em)
                (if em_vector em then Some (em_vector_size em, em_vector_tmo em) else None) # os, r)))"

text \<open>\<open>eh_rx_adapter_configure\<close>: the vector pool is sized by a division that traps for size 0.\<close>

definition rx_adapter_plan :: "eh_env \<Rightarrow> eventmode_conf \<Rightarrow> rx_adapter \<Rightarrow> ev_op list \<times> errno option" where
  "rx_adapter_plan env em a =
     (case ee_info env (ra_dev a) of
        Inl e \<Rightarrow> ([], Some e)
      | Inr _ \<Rightarrow>
          (if em_vector em \<and> em_vector_size em = 0 then ([], Some UB)
           else
             (let pool = (if em_vector em
                          then [Op_vector_pool (ee_nb_bufs env div ucast (em_vector_size em) + 1) (em_vector_size em)] else [])
              in case rx_queue_plan env em a (ra_conns a) of (os, r) \<Rightarrow>
                   (pool @ [Op_rx_create (ra_id a) (ra_dev a)] @ os, r))))"

definition eh_rx_adapter_configure :: "eh_env \<Rightarrow> (ev_op \<Rightarrow> ev_ret) \<Rightarrow> eventmode_conf \<Rightarrow> rx_adapter \<Rightarrow> ev_op list \<times> errno option" where
  "eh_rx_adapter_configure env dv em a = run_plan dv (rx_adapter_plan env em a)"

text \<open>Steps one after the other, up to the first error.\<close>

fun run_steps :: "(ev_op list \<times> errno option) list \<Rightarrow> ev_op list \<times> errno option" where
  "run_steps [] = ([], None)"
| "run_steps ((log, Some e) # ss) = (log, Some e)"
| "run_steps ((log, None) # ss) = (case run_steps ss of (log', r) \<Rightarrow> (log @ log', r))"

text \<open>
  \<open>eh_tx_adapter_configure\<close>: with a core, the adapter's event queue is unlinked from all event ports
  and linked to the adapter's own port. When that link returns 0 the function returns 0 as well, which its
  caller takes for success, and the adapter is not started.
\<close>

definition tx_create_ops :: "tx_adapter \<Rightarrow> ev_op list" where
  "tx_create_ops a = Op_tx_create (ta_id a) (ta_dev a) # map (\<lambda>p. Op_tx_queue_add (ta_id a) p) (ta_conns a)"

definition tx_link :: "(ev_op \<Rightarrow> ev_ret) \<Rightarrow> tx_adapter \<Rightarrow> u8 \<Rightarrow> ev_op list \<times> errno option" where
  "tx_link dv a tx_port =
     (let link = Op_link (ta_dev a) tx_port (Some (ta_queue a)) in
      case dv link of
        Failed e \<Rightarrow> ([], Some e)
      | Nothing \<Rightarrow> ([], None)
      | Done \<Rightarrow> run_steps [([link], None), exec dv [Op_tx_service (ta_id a), Op_tx_start (ta_id a)]])"

definition eh_tx_adapter_configure :: "eh_env \<Rightarrow> (ev_op \<Rightarrow> ev_ret) \<Rightarrow> eventmode_conf \<Rightarrow> tx_adapter \<Rightarrow> ev_op list \<times> errno option" where
  "eh_tx_adapter_configure env dv em a =
     (case ee_info env (ta_dev a) of
        Inl e \<Rightarrow> ([], Some e)
      | Inr _ \<Rightarrow>
          (if ta_core a = None then exec dv (tx_create_ops a @ [Op_tx_start (ta_id a)])
           else case ee_tx_port env (ta_id a) of
             Inl e \<Rightarrow> run_plan dv (tx_create_ops a, Some e)
           | Inr tx_port \<Rightarrow>
               (case eh_get_eventdev_params em (ta_dev a) of
                  None \<Rightarrow> run_plan dv (tx_create_ops a, Some UB)
                | Some d \<Rightarrow>
                    run_steps
                      [exec dv (tx_create_ops a @ map (\<lambda>j. Op_unlink (ta_dev a) (of_nat j) (ta_queue a)) [0..<unat (ed_nb_port d)]),
                       tx_link dv a tx_port])))"

definition eh_initialize_rx_adapter :: "eh_env \<Rightarrow> (ev_op \<Rightarrow> ev_ret) \<Rightarrow> eventmode_conf \<Rightarrow> ev_op list \<times> errno option" where
  "eh_initialize_rx_adapter env dv em = run_steps (map (eh_rx_adapter_configure env dv em) (em_rx em))"

definition eh_initialize_tx_adapter :: "eh_env \<Rightarrow> (ev_op \<Rightarrow> ev_ret) \<Rightarrow> eventmode_conf \<Rightarrow> ev_op list \<times> errno option" where
  "eh_initialize_tx_adapter env dv em = run_steps (map (eh_tx_adapter_configure env dv em) (em_tx em))"

definition enabled_ports :: "eh_env \<Rightarrow> u32 \<Rightarrow> errno + u16 list" where
  "enabled_ports env msk =
     (if list_all (\<lambda>p. unat p < 32) (ee_eths env) then Inr (filter (\<lambda>p. bit msk (unat p)) (ee_eths env)) else Inl UB)"

text \<open>\<open>eh_devs_init\<close> in event mode, with \<open>msk\<close> the port mask of the application.\<close>

definition eh_devs_init ::
  "eh_env \<Rightarrow> (ev_op \<Rightarrow> ev_ret) \<Rightarrow> u32 \<Rightarrow> eventmode_conf \<Rightarrow> nat option \<Rightarrow> (ev_op list \<times> errno option) \<times> eventmode_conf" where
  "eh_devs_init env dv msk em prev =
     (case eh_validate_conf env (em\<lparr>em_portmask := msk\<rparr>) prev of
        Inl e \<Rightarrow> (([], Some e), em\<lparr>em_portmask := msk\<rparr>)
      | Inr (em1, _) \<Rightarrow>
          (case enabled_ports env msk of
             Inl e \<Rightarrow> (([], Some e), em1)
           | Inr ps \<Rightarrow>
               (run_steps [exec dv (map Op_eth_stop ps), eh_initialize_eventdev env dv em1,
                  eh_initialize_rx_adapter env dv em1, eh_initialize_tx_adapter env dv em1,
                  eh_start_eventdev dv em1, exec dv (map Op_eth_start ps)], em1)))"

definition eh_devs_uninit :: "(ev_op \<Rightarrow> ev_ret) \<Rightarrow> eventmode_conf \<Rightarrow> ev_op list \<times> errno option" where
  "eh_devs_uninit dv em =
     exec dv
       (concat (map (\<lambda>a. [Op_rx_stop (ra_id a)] @ map (\<lambda>c. Op_rx_queue_del (ra_id a) (rc_eth c)) (ra_conns a) @ [Op_rx_free (ra_id a)]) (em_rx em)) @
        concat (map (\<lambda>d. [Op_dev_stop (ed_id d), Op_dev_close (ed_id d)]) (em_devs em)) @
        concat (map (\<lambda>a. [Op_tx_stop (ta_id a)] @ map (\<lambda>p. Op_tx_queue_del (ta_id a) p) (ta_conns a) @ [Op_tx_free (ta_id a)]) (em_tx em)))"

section \<open>Workers\<close>

record worker_cap =
  wc_burst :: bool
  wc_tx_internal :: bool
  wc_driver :: bool

text \<open>
  \<open>eh_find_worker\<close>: the device is that of the first link of the core, or of the last link when the
  core has none; only a configuration without links has no device. The value is the index of the
  first registered worker with the capabilities.
\<close>

definition eh_find_worker :: "eh_env \<Rightarrow> nat \<Rightarrow> bool \<Rightarrow> eventmode_conf \<Rightarrow> worker_cap list \<Rightarrow> nat option" where
  "eh_find_worker env lcore driver em ws =
     (if em_links em = [] then None
      else
        (let l = (case List.find (\<lambda>l. unat (el_lcore l) = lcore) (em_links em) of Some l \<Rightarrow> l | None \<Rightarrow> last (em_links em));
             cap = \<lparr>wc_burst = eh_dev_has_burst_mode env (el_dev l), wc_tx_internal = eh_dev_has_tx_internal_port env (el_dev l),
                    wc_driver = driver\<rparr>;
             i = length (takeWhile (\<lambda>w. w \<noteq> cap) ws)
         in if i < length ws then Some i else None))"

definition eh_get_event_lcore_links :: "eventmode_conf \<Rightarrow> nat \<Rightarrow> ev_link list" where
  "eh_get_event_lcore_links em lcore = filter (\<lambda>l. unat (el_lcore l) = lcore) (em_links em)"

text \<open>
  What a core does: serve adapters, run a worker with its links, or nothing. The adapters served
  are given by \<open>eh_start_worker_eth_core\<close>; the array of service numbers has \<open>max_adapters\<close> entries,
  and the check lets one more through. Looking a service number up always succeeds.
\<close>

datatype core_role = Serve "(bool \<times> u8) list" | Work nat "ev_link list" | Idle | Overrun

fun collect_services :: "nat \<Rightarrow> (bool \<times> u8) list \<Rightarrow> (bool \<times> u8) list \<Rightarrow> (bool \<times> u8) list option" where
  "collect_services mx [] acc = Some acc"
| "collect_services mx (s # ss) acc =
     (if mx < length acc then Some acc
      else if length acc = mx then None
      else collect_services mx ss (acc @ [s]))"

definition eh_start_worker_eth_core :: "nat \<Rightarrow> eventmode_conf \<Rightarrow> nat \<Rightarrow> core_role" where
  "eh_start_worker_eth_core max_adapters em lcore =
     (let rx = map (\<lambda>a. (True, ra_id a)) (filter (\<lambda>a. ra_core a = Some lcore) (em_rx em));
          tx = map (\<lambda>a. (False, ta_id a)) (filter (\<lambda>a. ta_core a = Some lcore) (em_tx em))
      in case collect_services max_adapters rx [] of
           None \<Rightarrow> Overrun
         | Some s \<Rightarrow> (case collect_services max_adapters tx s of None \<Rightarrow> Overrun | Some s' \<Rightarrow> Serve s'))"

definition eh_launch_worker :: "eh_env \<Rightarrow> nat \<Rightarrow> bool \<Rightarrow> eventmode_conf \<Rightarrow> worker_cap list \<Rightarrow> nat \<Rightarrow> core_role" where
  "eh_launch_worker env max_adapters driver em ws lcore =
     (if em_eth_cores em lcore then eh_start_worker_eth_core max_adapters em lcore
      else if ws = [] then Idle
      else case eh_find_worker env lcore driver em ws of
        None \<Rightarrow> Idle
      | Some i \<Rightarrow> Work i (eh_get_event_lcore_links em lcore))"

text \<open>\<open>eh_get_tx_queue\<close>: the error value -22 is returned as 8 bits.\<close>

definition eh_get_tx_queue :: "eventmode_conf \<Rightarrow> u8 \<Rightarrow> u8" where
  "eh_get_tx_queue em d =
     (case eh_get_eventdev_params em d of None \<Rightarrow> - 22 | Some p \<Rightarrow> ed_nb_queue p - 1)"

end
