(* ===== verification/Event_Helper_Props.thy ===== *)
theory Event_Helper_Props
  imports Event_Helper
begin

text \<open>
  What the default configuration of event mode guarantees: the cores, ports and queues it connects,
  that the search for an adapter core ends, and that the transmit queue reaches the transmit
  adapter alone.
\<close>

section \<open>The cores in order\<close>

text \<open>The documented behaviour of \<open>rte_get_next_lcore\<close> when the main core is not skipped.\<close>

definition first_from :: "(nat \<Rightarrow> bool) \<Rightarrow> nat \<Rightarrow> nat \<Rightarrow> nat" where
  "first_from P k m = (case filter P [k..<m] of [] \<Rightarrow> m | c # _ \<Rightarrow> c)"

definition start_of :: "nat option \<Rightarrow> nat" where
  "start_of prev = (case prev of None \<Rightarrow> 0 | Some p \<Rightarrow> p + 1)"

definition next_ok :: "eh_env \<Rightarrow> bool" where
  "next_ok env \<longleftrightarrow>
     (\<forall>prev. ee_next env prev False False = first_from (lcore_on env) (start_of prev) (max_lcore env) \<and>
        ee_next env prev False True =
          (let c = first_from (lcore_on env) (start_of prev) (max_lcore env)
           in if c = max_lcore env then first_from (lcore_on env) 0 (max_lcore env) else c))"

lemma filter_upt_Nil: "(\<And>l. k \<le> l \<Longrightarrow> l < m \<Longrightarrow> \<not> P l) \<Longrightarrow> filter P [k..<m] = []"
  by simp

lemma first_from_cases:
  obtains "first_from P k m = m" and "\<forall>l. k \<le> l \<longrightarrow> l < m \<longrightarrow> \<not> P l"
  | c where "first_from P k m = c" and "k \<le> c" and "c < m" and "P c" and "\<forall>l. k \<le> l \<longrightarrow> l < c \<longrightarrow> \<not> P l"
proof (cases "filter P [k..<m]")
  case Nil
  then show ?thesis using that(1) by (auto simp: first_from_def filter_empty_conv)
next
  case (Cons c cs)
  then have c: "c \<in> set (filter P [k..<m])" by simp
  then have cc: "k \<le> c" "c < m" "P c" by auto
  have "sorted (filter P [k..<m])" by (simp add: sorted_wrt_filter)
  then have "\<forall>l \<in> set (filter P [k..<m]). c \<le> l" unfolding Cons by auto
  then have "\<forall>l. k \<le> l \<longrightarrow> l < c \<longrightarrow> \<not> P l" using c by force
  then show ?thesis using cc Cons by (intro that(2) [of c]) (auto simp: first_from_def)
qed

lemma filter_upt_skip:
  assumes "k \<le> c" and "c < m" and "\<forall>l. k \<le> l \<longrightarrow> l < c \<longrightarrow> \<not> P l"
  shows "filter P [k..<m] = (if P c then [c] else []) @ filter P [Suc c..<m]"
proof -
  have "[k..<m] = [k..<c] @ c # [Suc c..<m]"
    using assms(1,2) by (metis le_less_trans less_imp_le_nat upt_add_eq_append upt_conv_Cons le_add_diff_inverse)
  moreover have "filter P [k..<c] = []" using assms(3) by (intro filter_upt_Nil) simp
  ultimately show ?thesis by simp
qed

section \<open>Active cores\<close>

definition active :: "eh_env \<Rightarrow> (nat \<Rightarrow> bool) \<Rightarrow> nat \<Rightarrow> bool" where
  "active env msk l \<longleftrightarrow> lcore_on env l \<and> \<not> msk l"

lemma next_active_loop_ok:
  assumes "next_ok env" and "max_lcore env - start_of prev < n"
  shows "next_active_loop env msk n prev = Some (first_from (active env msk) (start_of prev) (max_lcore env))"
  using assms(2)
proof (induction n arbitrary: prev)
  case (Suc n)
  have nx: "ee_next env prev False False = first_from (lcore_on env) (start_of prev) (max_lcore env)"
    using assms(1) unfolding next_ok_def by blast
  show ?case
  proof (rule first_from_cases [of "lcore_on env" "start_of prev" "max_lcore env"])
    assume f: "first_from (lcore_on env) (start_of prev) (max_lcore env) = max_lcore env"
      and off: "\<forall>l. start_of prev \<le> l \<longrightarrow> l < max_lcore env \<longrightarrow> \<not> lcore_on env l"
    have "filter (active env msk) [start_of prev..<max_lcore env] = []"
      using off by (intro filter_upt_Nil) (simp add: active_def)
    then show ?thesis using nx f by (simp add: first_from_def [of "active env msk"])
  next
    fix c
    assume c: "first_from (lcore_on env) (start_of prev) (max_lcore env) = c" "start_of prev \<le> c" "c < max_lcore env"
      "lcore_on env c" "\<forall>l. start_of prev \<le> l \<longrightarrow> l < c \<longrightarrow> \<not> lcore_on env l"
    have f: "filter (active env msk) [start_of prev..<max_lcore env] =
        (if active env msk c then [c] else []) @ filter (active env msk) [Suc c..<max_lcore env]"
      using c by (intro filter_upt_skip) (auto simp: active_def)
    show ?thesis
    proof (cases "msk c")
      case True
      then have "next_active_loop env msk n (Some c) =
          Some (first_from (active env msk) (Suc c) (max_lcore env))"
        using Suc.IH [of "Some c"] Suc.prems c by (simp add: start_of_def)
      moreover have "\<not> active env msk c" using True by (simp add: active_def)
      ultimately show ?thesis using nx c True f by (simp add: first_from_def)
    next
      case False
      then have "active env msk c" using c(4) by (simp add: active_def)
      then show ?thesis using nx c f False by (simp add: first_from_def)
    qed
  qed
qed simp

lemma eh_get_next_active_core_ok:
  "next_ok env \<Longrightarrow>
     eh_get_next_active_core env msk prev = Some (first_from (active env msk) (start_of prev) (max_lcore env))"
  unfolding eh_get_next_active_core_def by (rule next_active_loop_ok) simp_all

definition default_link :: "u8 \<Rightarrow> nat \<Rightarrow> nat \<Rightarrow> ev_link" where
  "default_link d i c = \<lparr>el_dev = d, el_port = of_nat i, el_queue = 0, el_lcore = of_nat c\<rparr>"

lemma link_loop_ok:
  assumes "next_ok env"
  shows "link_loop env msk d is prev acc =
    Some (acc @ map2 (default_link d) is (filter (active env msk) [start_of prev..<max_lcore env]))"
proof (induction "is" arbitrary: prev acc)
  case (Cons i "is")
  note nx = eh_get_next_active_core_ok [OF assms, of msk prev]
  show ?case
  proof (rule first_from_cases [of "active env msk" "start_of prev" "max_lcore env"])
    assume f: "first_from (active env msk) (start_of prev) (max_lcore env) = max_lcore env"
      and off: "\<forall>l. start_of prev \<le> l \<longrightarrow> l < max_lcore env \<longrightarrow> \<not> active env msk l"
    have "filter (active env msk) [start_of prev..<max_lcore env] = []" using off by (intro filter_upt_Nil) simp
    then show ?thesis using nx f by simp
  next
    fix c
    assume c: "first_from (active env msk) (start_of prev) (max_lcore env) = c" "start_of prev \<le> c" "c < max_lcore env"
      "active env msk c" "\<forall>l. start_of prev \<le> l \<longrightarrow> l < c \<longrightarrow> \<not> active env msk l"
    have "filter (active env msk) [start_of prev..<max_lcore env] = c # filter (active env msk) [Suc c..<max_lcore env]"
      using filter_upt_skip [OF c(2,3,5)] c(4) by simp
    then show ?thesis using nx c Cons.IH [of "Some c"] by (simp add: start_of_def default_link_def)
  qed
qed simp

section \<open>The core of an adapter\<close>

text \<open>How many steps it takes round the cores from \<open>prev\<close> to the eth core \<open>t\<close>, at most.\<close>

definition round_dist :: "nat \<Rightarrow> nat \<Rightarrow> nat option \<Rightarrow> nat" where
  "round_dist m t prev = (if start_of prev \<le> t then t - start_of prev else t + 1 + (m - start_of prev))"

lemma next_eth_loop_ends:
  assumes "next_ok env" and "lcore_on env t" and "msk t" and "t < max_lcore env" and "round_dist (max_lcore env) t prev < n"
  shows "\<exists>c. next_eth_loop env msk n prev = Some (c, Some c) \<and> c < max_lcore env \<and> lcore_on env c \<and> msk c"
  using assms(5)
proof (induction n arbitrary: prev)
  case (Suc n)
  let ?m = "max_lcore env"
  let ?c = "ee_next env prev False True"
  let ?f = "first_from (lcore_on env)"
  have nx: "?c = (let c = ?f (start_of prev) ?m in if c = ?m then ?f 0 ?m else c)"
    using assms(1) unfolding next_ok_def by blast
  have zero: "?f 0 ?m \<le> t \<and> lcore_on env (?f 0 ?m)"
    by (rule first_from_cases [of "lcore_on env" 0 ?m]) (use assms(2,4) in \<open>auto simp: not_less [symmetric]\<close>)
  have step: "lcore_on env ?c \<and> ?c < ?m \<and>
      (?c \<noteq> t \<longrightarrow> round_dist ?m t (Some ?c) < round_dist ?m t prev)"
  proof (rule first_from_cases [of "lcore_on env" "start_of prev" ?m])
    assume f: "?f (start_of prev) ?m = ?m" and off: "\<forall>l. start_of prev \<le> l \<longrightarrow> l < ?m \<longrightarrow> \<not> lcore_on env l"
    then have "?c = ?f 0 ?m" using nx by simp
    moreover have "\<not> start_of prev \<le> t" using off assms(2,4) by blast
    ultimately show ?thesis using zero assms(4) by (auto simp: round_dist_def start_of_def)
  next
    fix c
    assume c: "?f (start_of prev) ?m = c" "start_of prev \<le> c" "c < ?m" "lcore_on env c"
      "\<forall>l. start_of prev \<le> l \<longrightarrow> l < c \<longrightarrow> \<not> lcore_on env l"
    then have "?c = c" using nx by simp
    moreover have "start_of prev \<le> t \<Longrightarrow> c \<le> t" using c(5) assms(2) by (metis not_less)
    ultimately show ?thesis using c by (auto simp: round_dist_def start_of_def split: option.splits)
  qed
  show ?case
  proof (cases "msk ?c")
    case True
    then show ?thesis using step by (simp add: Let_def)
  next
    case False
    then have "?c \<noteq> t" using assms(3) by auto
    then show ?thesis using step False Suc.IH [of "Some ?c"] Suc.prems by (simp add: Let_def)
  qed
qed simp

text \<open>
  The search for an eth core ends whatever cores are reserved, because \<open>eh_get_enabled_cores\<close> is asked
  first. Its outcome: \<open>RTE_MAX_LCORE\<close> without a reserved core that is enabled, otherwise such a core, which
  is remembered.
\<close>

definition eth_core_found :: "eh_env \<Rightarrow> (nat \<Rightarrow> bool) \<Rightarrow> nat option \<Rightarrow> nat \<Rightarrow> nat option \<Rightarrow> bool" where
  "eth_core_found env msk prev c prev' \<longleftrightarrow>
     (if \<exists>l < max_lcore env. lcore_on env l \<and> msk l
      then c < max_lcore env \<and> lcore_on env c \<and> msk c \<and> prev' = Some c
      else c = max_lcore env \<and> prev' = prev)"

lemma no_enabled: "eh_get_enabled_cores env msk = 0 \<longleftrightarrow> \<not> (\<exists>l < max_lcore env. lcore_on env l \<and> msk l)"
  by (auto simp: eh_get_enabled_cores_def filter_empty_conv)

lemma eh_get_next_eth_core_ends:
  assumes "next_ok env"
  shows "\<exists>c prev'. eh_get_next_eth_core env msk prev = Some (c, prev') \<and> eth_core_found env msk prev c prev'"
proof (cases "eh_get_enabled_cores env msk = 0")
  case True
  then show ?thesis by (auto simp: eh_get_next_eth_core_def eth_core_found_def no_enabled)
next
  case False
  then obtain t where t: "lcore_on env t" "msk t" "t < max_lcore env" by (auto simp: no_enabled)
  then have "round_dist (max_lcore env) t prev < 2 * max_lcore env + 2" by (auto simp: round_dist_def)
  from next_eth_loop_ends [where msk = msk, OF assms t this] False show ?thesis
    by (auto simp: eh_get_next_eth_core_def eth_core_found_def no_enabled)
qed

section \<open>Connections\<close>

definition on_ports :: "u32 \<Rightarrow> nat list \<Rightarrow> nat list" where
  "on_ports msk is = filter (\<lambda>i. bit msk i) is"

lemma rx_conn_loop_ok:
  assumes "rx_conn_loop env msk d single is acc intl = Inr (cs, r)" and "\<forall>i \<in> set is. i < 65536"
  shows "cs = acc @ map (\<lambda>i. \<lparr>rc_eth = of_nat i, rc_queue = (if single then 0 else of_nat i)\<rparr>) (on_ports msk is) \<and>
    (\<forall>i \<in> set is. i < 32) \<and> (length acc \<le> 16 \<longrightarrow> length cs \<le> 16) \<and>
    r = (intl \<and> (\<forall>i \<in> set (on_ports msk is). ee_rx_caps env d i = Inr True))"
  using assms
proof (induction "is" arbitrary: acc intl)
  case (Cons i "is")
  have i: "unat (of_nat i :: u16) = i" using Cons.prems(2) by (simp add: unat_of_nat_u16)
  then have lt: "i < 32" using Cons.prems(1) by (auto simp: port_in_mask_def split: if_splits)
  show ?case
  proof (cases "bit msk i")
    case False
    then show ?thesis using Cons lt i by (auto simp: port_in_mask_def on_ports_def)
  next
    case True
    from Cons.prems(1) True lt i obtain b where b: "ee_rx_caps env d i = Inr b" "length acc < 16"
      and l: "rx_conn_loop env msk d single is (acc @ [\<lparr>rc_eth = of_nat i, rc_queue = (if single then 0 else of_nat i)\<rparr>]) (intl \<and> b) = Inr (cs, r)"
      by (auto simp: port_in_mask_def MAX_CONNECTIONS_def split: if_splits sum.splits)
    show ?thesis using Cons.IH [OF l] Cons.prems(2) b lt True by (auto simp: on_ports_def)
  qed
qed (auto simp: on_ports_def)

lemma tx_conn_loop_ok:
  assumes "tx_conn_loop env msk d is acc intl = Inr (cs, r)" and "\<forall>i \<in> set is. i < 65536"
  shows "cs = acc @ map of_nat (on_ports msk is) \<and>
    r = (intl \<and> (\<forall>i \<in> set (on_ports msk is). ee_tx_caps env d i = Inr True))"
  using assms
proof (induction "is" arbitrary: acc intl)
  case (Cons i "is")
  have i: "unat (of_nat i :: u16) = i" using Cons.prems(2) by (simp add: unat_of_nat_u16)
  then have lt: "i < 32" using Cons.prems(1) by (auto simp: port_in_mask_def split: if_splits)
  show ?case
  proof (cases "bit msk i")
    case False
    then show ?thesis using Cons lt i by (auto simp: port_in_mask_def on_ports_def)
  next
    case True
    from Cons.prems(1) True lt i obtain b where b: "ee_tx_caps env d i = Inr b"
      and l: "tx_conn_loop env msk d is (acc @ [of_nat i]) (intl \<and> b) = Inr (cs, r)"
      by (auto simp: port_in_mask_def split: if_splits sum.splits)
    show ?thesis using Cons.IH [OF l] Cons.prems(2) b lt True by (auto simp: on_ports_def)
  qed
qed (auto simp: on_ports_def)

lemma rx_conn_loop_total:
  "\<forall>i \<in> set is. i < 32 \<and> (\<exists>b. ee_rx_caps env d i = Inr b) \<Longrightarrow> length acc + length (on_ports msk is) \<le> 16 \<Longrightarrow>
     \<exists>cs r. rx_conn_loop env msk d single is acc intl = Inr (cs, r)"
proof (induction "is" arbitrary: acc intl)
  case (Cons i "is")
  then obtain b where b: "ee_rx_caps env d i = Inr b" "i < 32" by auto
  then have "unat (of_nat i :: u16) = i" by (intro unat_of_nat_u16) simp
  then show ?case
    using Cons b by (cases "bit msk i") (simp_all add: port_in_mask_def on_ports_def MAX_CONNECTIONS_def)
qed simp

lemma tx_conn_loop_total:
  "\<forall>i \<in> set is. i < 32 \<and> (\<exists>b. ee_tx_caps env d i = Inr b) \<Longrightarrow> length acc + length (on_ports msk is) \<le> 16 \<Longrightarrow>
     \<exists>cs r. tx_conn_loop env msk d is acc intl = Inr (cs, r)"
proof (induction "is" arbitrary: acc intl)
  case (Cons i "is")
  then obtain b where b: "ee_tx_caps env d i = Inr b" "i < 32" by auto
  then have "unat (of_nat i :: u16) = i" by (intro unat_of_nat_u16) simp
  then show ?case
    using Cons b by (cases "bit msk i") (simp_all add: port_in_mask_def on_ports_def MAX_CONNECTIONS_def)
qed simp

lemma adapter_core_ok:
  assumes "next_ok env"
  shows "\<exists>core prev'. adapter_core env em intl prev = Inr (core, prev') \<and>
    (if intl then core = None else \<exists>c. core = Some c \<and> eth_core_found env (em_eth_cores em) prev c prev')"
  using eh_get_next_eth_core_ends [OF assms, of "em_eth_cores em" prev] by (auto simp: adapter_core_def)

section \<open>The default configuration\<close>

text \<open>The queue arithmetic: with two queues at least, every port's queue is below the transmit queue.\<close>

definition default_dev :: "eh_env \<Rightarrow> ev_info \<Rightarrow> eventdev_params" where
  "default_dev env di =
     (let n = length (filter (lcore_on env) [0..<max_lcore env]) in
      \<lparr>ed_id = 0,
       ed_nb_queue = (if ee_nb_eth env + 1 < unat (ei_max_queues di) then of_nat (ee_nb_eth env + 1) else ei_max_queues di),
       ed_nb_port = (if n < unat (ei_max_ports di) then of_nat n else ei_max_ports di), ed_internal = False\<rparr>)"

text \<open>The queues left for receiving, and whether the ports share one of them.\<close>

definition usable_queues :: "eventdev_params \<Rightarrow> nat" where
  "usable_queues d = (if ed_internal d then unat (ed_nb_queue d) else unat (ed_nb_queue d) - 1)"

lemma pred_u8: "(w :: u8) \<noteq> 0 \<Longrightarrow> unat (w - 1) = unat w - 1"
  by (simp add: unat_minus_one)

lemma default_queues:
  assumes "2 \<le> ei_max_queues di" and "ee_nb_eth env \<noteq> 0"
  shows "2 \<le> unat (ed_nb_queue (default_dev env di))"
proof -
  have "2 \<le> unat (ei_max_queues di)" using assms(1) by (simp add: word_le_nat_alt)
  moreover have "unat (of_nat (ee_nb_eth env + 1) :: u8) = ee_nb_eth env + 1"
    if "ee_nb_eth env + 1 < unat (ei_max_queues di)"
    using that unat_u8_less [of "ei_max_queues di"] by (intro unat_of_nat_u8) simp
  ultimately show ?thesis using assms(2) by (auto simp: default_dev_def Let_def)
qed

lemma default_ports:
  "unat (ed_nb_port (default_dev env di)) =
     min (length (filter (lcore_on env) [0..<max_lcore env])) (unat (ei_max_ports di))"
  using unat_u8_less [of "ei_max_ports di"] by (auto simp: default_dev_def Let_def min_def intro!: unat_of_nat_u8)

definition link_of :: "eh_env \<Rightarrow> eventdev_params \<Rightarrow> (nat \<Rightarrow> bool) \<Rightarrow> ev_link list" where
  "link_of env d msk =
     map2 (default_link (ed_id d)) [0..<unat (ed_nb_port d)] (filter (active env msk) [0..<max_lcore env])"

lemma link_of_sound:
  assumes "max_lcore env \<le> 256"
  shows "distinct (map el_lcore (link_of env d msk)) \<and> distinct (map el_port (link_of env d msk)) \<and>
    (\<forall>l \<in> set (link_of env d msk). active env msk (unat (el_lcore l)) \<and> el_port l < ed_nb_port d)"
proof -
  let ?cs = "filter (active env msk) [0..<max_lcore env]"
  let ?is = "[0..<unat (ed_nb_port d)]"
  have inj: "inj_on (of_nat :: nat \<Rightarrow> u8) {..<256}"
    by (intro inj_on_inverseI [of _ unat]) (simp add: unat_of_nat_u8)
  have l: "map el_lcore (link_of env d msk) = map of_nat (take (min (length ?is) (length ?cs)) ?cs)"
    and p: "map el_port (link_of env d msk) = map of_nat (take (min (length ?is) (length ?cs)) ?is)"
    by (auto simp: link_of_def default_link_def list_eq_iff_nth_eq)
  have "inj_on (of_nat :: nat \<Rightarrow> u8) (set (take (min (length ?is) (length ?cs)) ?cs))"
    using assms by (intro inj_on_subset [OF inj]) (auto dest!: in_set_takeD)
  then have 1: "distinct (map el_lcore (link_of env d msk))" unfolding l by (simp add: distinct_map)
  have "inj_on (of_nat :: nat \<Rightarrow> u8) (set (take (min (length ?is) (length ?cs)) ?is))"
    using unat_u8_less [of "ed_nb_port d"] by (intro inj_on_subset [OF inj]) (auto dest!: in_set_takeD)
  then have 2: "distinct (map el_port (link_of env d msk))" unfolding p by (simp add: distinct_map)
  have "active env msk (unat (el_lcore l)) \<and> el_port l < ed_nb_port d" if "l \<in> set (link_of env d msk)" for l
  proof -
    obtain i c where ic: "(i, c) \<in> set (zip ?is ?cs)" "l = default_link (ed_id d) i c"
      using \<open>l \<in> set (link_of env d msk)\<close> by (auto simp: link_of_def)
    then have c: "i < unat (ed_nb_port d)" "active env msk c" "c < max_lcore env"
      by (auto dest: set_zip_leftD set_zip_rightD)
    then have "unat (of_nat c :: u8) = c" "unat (of_nat i :: u8) = i"
      using assms unat_u8_less [of "ed_nb_port d"] by (auto intro!: unat_of_nat_u8)
    then show ?thesis using ic(2) c by (simp add: default_link_def word_less_nat_alt)
  qed
  then show ?thesis using 1 2 by blast
qed

lemma link_cores:
  "map el_lcore (link_of env d msk) = map of_nat (take (unat (ed_nb_port d)) (filter (active env msk) [0..<max_lcore env]))"
  by (auto simp: link_of_def default_link_def list_eq_iff_nth_eq)

lemma rx_queue_below:
  assumes "2 \<le> unat q" and "usable_queues d = unat (q :: u8) - 1" and "i < n"
  shows "unat (if int (usable_queues d) < int n then 0 else of_nat i :: u8) < usable_queues d"
proof (cases "usable_queues d < n")
  case False
  then have "i < usable_queues d" using assms(3) by simp
  moreover from this have "unat (of_nat i :: u8) = i" using assms(2) unat_u8_less [of q] by (intro unat_of_nat_u8) simp
  ultimately show ?thesis using False by simp
next
  case True
  then have "int (usable_queues d) < int n" by simp
  then show ?thesis using assms(1,2) by (simp only: if_True) simp
qed

lemma adapter_core_cong:
  "em_eth_cores em = em_eth_cores em' \<Longrightarrow> adapter_core env em intl prev = adapter_core env em' intl prev"
  by (simp add: adapter_core_def)

text \<open>What \<open>eh_validate_conf\<close> adds to a configuration in which nothing is set.\<close>

lemma validate_conf_shape:
  assumes "next_ok env" and "em_devs em = []" and "em_links em = []" and "em_rx em = []" and "em_tx em = []"
    and "ee_info env 0 = Inr di" and "2 \<le> ei_max_queues di" and "eh_validate_conf env em prev = Inr (em', prev')"
  obtains d msk cs r1 core1 prev3 ts r2 core2 where
    "ed_id d = 0" and "ed_nb_port d = ed_nb_port (default_dev env di)" and "usable_queues d = unat (ed_nb_queue (default_dev env di)) - 1" and "ed_nb_queue d \<noteq> 0"
    and "2 \<le> unat (ed_nb_queue (default_dev env di))"
    and "rx_conn_loop env (em_portmask em) (ed_id d) (int (usable_queues d) < int (ee_nb_eth env)) [0..<ee_nb_eth env] [] True = Inr (cs, r1)"
    and "adapter_core env em' r1 prev = Inr (core1, prev3)"
    and "tx_conn_loop env (em_portmask em) (ed_id d) [0..<ee_nb_eth env] [] True = Inr (ts, r2)"
    and "adapter_core env em' r2 prev3 = Inr (core2, prev')"
    and "em' = em\<lparr>em_devs := [d], em_eth_cores := msk, em_all_queues := True, em_links := link_of env d msk,
        em_rx := [\<lparr>ra_dev = ed_id d, ra_id = 0, ra_core = core1, ra_conns = cs\<rparr>],
        em_tx := [\<lparr>ta_dev = ed_id d, ta_id = 0, ta_core = core2, ta_conns = ts,
          ta_queue = (if r2 then 0 else ed_nb_queue d - 1)\<rparr>]\<rparr>"
proof -
  let ?d0 = "default_dev env di"
  from assms(2-6,8) have e0: "eh_set_default_conf_eventdev env em = Inr (em\<lparr>em_devs := [?d0]\<rparr>)" "ee_nb_eth env \<noteq> 0"
    by (auto simp: eh_validate_conf_def eh_set_default_conf_eventdev_def default_dev_def Let_def split: if_splits)
  let ?em0 = "em\<lparr>em_devs := [?d0]\<rparr>"
  let ?em1 = "eh_do_capability_check env ?em0"
  have q0: "2 \<le> unat (ed_nb_queue ?d0)" by (rule default_queues [OF assms(7) e0(2)])
  obtain d msk where d: "?em1 = em\<lparr>em_devs := [d], em_eth_cores := msk\<rparr>" "ed_id d = 0" "ed_nb_port d = ed_nb_port ?d0"
    "usable_queues d = unat (ed_nb_queue ?d0) - 1" "ed_nb_queue d \<noteq> 0"
  proof (cases "eh_dev_has_rx_internal_port env (ed_id ?d0) \<and> eh_dev_has_tx_internal_port env (ed_id ?d0)")
    case True
    have "ed_nb_queue ?d0 \<noteq> 0" "ed_nb_queue ?d0 - 1 \<noteq> 0" using q0 by (auto simp: pred_u8)
    then show ?thesis
      using True by (intro that [where d = "?d0\<lparr>ed_internal := True, ed_nb_queue := ed_nb_queue ?d0 - 1\<rparr>" and msk = "\<lambda>_. False"])
        (simp_all add: eh_do_capability_check_def usable_queues_def pred_u8, simp add: default_dev_def Let_def)
  next
    case False
    have "ed_nb_queue ?d0 \<noteq> 0" using q0 by auto
    then show ?thesis
      using False by (intro that [where d = ?d0 and msk = "em_eth_cores em"])
        (auto simp: eh_do_capability_check_def usable_queues_def default_dev_def Let_def)
  qed
  let ?em2 = "em\<lparr>em_devs := [d], em_eth_cores := msk, em_all_queues := True, em_links := link_of env d msk\<rparr>"
  have link: "eh_set_default_conf_link env ?em1 = Some ?em2"
    using link_loop_ok [OF assms(1), of msk "ed_id d" "[0..<unat (ed_nb_port d)]" None "[]"] d(1) assms(3)
    by (simp add: eh_set_default_conf_link_def link_of_def start_of_def)
  have us: "(if ed_internal d then int (unat (ed_nb_queue d)) else int (unat (ed_nb_queue d)) - 1) = int (usable_queues d)"
    using d(5) by (auto simp: usable_queues_def of_nat_diff Suc_le_eq unat_gt_0)
  from assms(2-6,8) e0 d(1) link obtain em3 prev3 where
    r: "eh_set_default_conf_rx_adapter env ?em2 prev = Inr (em3, prev3)"
    and t: "em_tx em3 = [] \<longrightarrow> eh_set_default_conf_tx_adapter env em3 prev3 = Inr (em', prev')"
    by (auto simp: eh_validate_conf_def Let_def split: sum.splits if_splits)
  from r us obtain cs r1 core1 where
    rx: "rx_conn_loop env (em_portmask em) (ed_id d) (int (usable_queues d) < int (ee_nb_eth env)) [0..<ee_nb_eth env] [] True = Inr (cs, r1)"
    and rcore: "adapter_core env ?em2 r1 prev = Inr (core1, prev3)"
    and em3: "em3 = ?em2\<lparr>em_rx := [\<lparr>ra_dev = ed_id d, ra_id = 0, ra_core = core1, ra_conns = cs\<rparr>]\<rparr>"
    by (auto simp: eh_set_default_conf_rx_adapter_def split: sum.splits)
  from em3 assms(5) have three: "em_devs em3 = [d]" "em_portmask em3 = em_portmask em" "em_tx em3 = []" by simp_all
  from t three obtain ts r2 core2 where
    tx: "tx_conn_loop env (em_portmask em) (ed_id d) [0..<ee_nb_eth env] [] True = Inr (ts, r2)"
    and tcore: "adapter_core env em3 r2 prev3 = Inr (core2, prev')"
    and em': "em' = em3\<lparr>em_tx := [\<lparr>ta_dev = ed_id d, ta_id = 0, ta_core = core2, ta_conns = ts,
        ta_queue = (if r2 then 0 else ed_nb_queue d - 1)\<rparr>]\<rparr>"
    by (auto simp: eh_set_default_conf_tx_adapter_def split: sum.splits)
  have "em_eth_cores ?em2 = em_eth_cores em'" "em_eth_cores em3 = em_eth_cores em'" using em' em3 by simp_all
  note cores = this [THEN adapter_core_cong]
  show ?thesis
  proof (rule that [OF d(2-5) q0 rx _ tx])
    show "adapter_core env em' r1 prev = Inr (core1, prev3)" using rcore cores(1) by simp
    show "adapter_core env em' r2 prev3 = Inr (core2, prev')" using tcore cores(2) by simp
  qed (use em' em3 in simp)
qed

text \<open>The hypotheses under which nothing of the default configuration is refused.\<close>

definition servable :: "eh_env \<Rightarrow> ev_info \<Rightarrow> u32 \<Rightarrow> bool" where
  "servable env di msk \<longleftrightarrow>
     ee_nb_eventdev env = 1 \<and> 0 < ee_nb_eth env \<and> ee_nb_eth env \<le> 32 \<and> 2 \<le> ei_max_ports di \<and>
     length (on_ports msk [0..<ee_nb_eth env]) \<le> MAX_CONNECTIONS \<and>
     (\<forall>i < ee_nb_eth env. (\<exists>b. ee_rx_caps env 0 i = Inr b) \<and> (\<exists>b. ee_tx_caps env 0 i = Inr b))"

lemma rx_adapter_total:
  assumes "next_ok env" and "em_devs em = [d]" and "length (on_ports (em_portmask em) [0..<ee_nb_eth env]) \<le> 16"
    and "\<forall>i \<in> set [0..<ee_nb_eth env]. i < 32 \<and> (\<exists>b. ee_rx_caps env (ed_id d) i = Inr b)"
  obtains rx prev' where "eh_set_default_conf_rx_adapter env em prev = Inr (em\<lparr>em_rx := [rx]\<rparr>, prev')"
proof -
  let ?single = "(if ed_internal d then int (unat (ed_nb_queue d)) else int (unat (ed_nb_queue d)) - 1) < int (ee_nb_eth env)"
  obtain cs r where l: "rx_conn_loop env (em_portmask em) (ed_id d) ?single [0..<ee_nb_eth env] [] True = Inr (cs, r)"
    using rx_conn_loop_total [OF assms(4), of "[]" "em_portmask em" ?single True] assms(3) by auto
  obtain core prev' where c: "adapter_core env em r prev = Inr (core, prev')"
    using adapter_core_ok [OF assms(1)] by blast
  show ?thesis
    by (rule that [where rx = "\<lparr>ra_dev = ed_id d, ra_id = 0, ra_core = core, ra_conns = cs\<rparr>" and prev' = prev'])
      (simp only: eh_set_default_conf_rx_adapter_def assms(2) list.case Let_def l sum.case prod.case c)
qed

lemma tx_adapter_total:
  assumes "next_ok env" and "em_devs em = [d]" and "length (on_ports (em_portmask em) [0..<ee_nb_eth env]) \<le> 16"
    and "\<forall>i \<in> set [0..<ee_nb_eth env]. i < 32 \<and> (\<exists>b. ee_tx_caps env (ed_id d) i = Inr b)"
  shows "\<exists>em' prev'. eh_set_default_conf_tx_adapter env em prev = Inr (em', prev')"
proof -
  obtain cs r where l: "tx_conn_loop env (em_portmask em) (ed_id d) [0..<ee_nb_eth env] [] True = Inr (cs, r)"
    using tx_conn_loop_total [OF assms(4), of "[]" "em_portmask em" True] assms(3) by auto
  obtain core prev' where c: "adapter_core env em r prev = Inr (core, prev')"
    using adapter_core_ok [OF assms(1)] by blast
  show ?thesis using assms(2) l c by (simp add: eh_set_default_conf_tx_adapter_def)
qed

lemma validate_conf_total:
  assumes "next_ok env" and "em_devs em = []" and "em_links em = []" and "em_rx em = []" and "em_tx em = []"
    and "ee_info env 0 = Inr di" and "servable env di (em_portmask em)"
  shows "\<exists>em' prev'. eh_validate_conf env em prev = Inr (em', prev')"
proof -
  let ?em0 = "em\<lparr>em_devs := [default_dev env di]\<rparr>"
  from assms(6,7) have e0: "eh_set_default_conf_eventdev env em = Inr ?em0"
    by (auto simp: eh_set_default_conf_eventdev_def servable_def default_dev_def Let_def not_less [symmetric])
  obtain d msk where d: "eh_do_capability_check env ?em0 = em\<lparr>em_devs := [d], em_eth_cores := msk\<rparr>" "ed_id d = 0"
  proof (cases "eh_dev_has_rx_internal_port env 0 \<and> eh_dev_has_tx_internal_port env 0")
    case True
    then show ?thesis
      by (intro that [where msk = "\<lambda>_. False" and d = "(default_dev env di)\<lparr>ed_internal := True, ed_nb_queue := ed_nb_queue (default_dev env di) - 1\<rparr>"])
        (simp_all add: eh_do_capability_check_def default_dev_def Let_def)
  next
    case False
    then show ?thesis
      by (intro that [where msk = "em_eth_cores em" and d = "default_dev env di"])
        (auto simp: eh_do_capability_check_def default_dev_def Let_def)
  qed
  let ?em2 = "em\<lparr>em_devs := [d], em_eth_cores := msk, em_all_queues := True, em_links := link_of env d msk\<rparr>"
  have link: "eh_set_default_conf_link env (em\<lparr>em_devs := [d], em_eth_cores := msk\<rparr>) = Some ?em2"
    using link_loop_ok [OF assms(1), of msk "ed_id d" "[0..<unat (ed_nb_port d)]" None "[]"] assms(3)
    by (simp add: eh_set_default_conf_link_def link_of_def start_of_def)
  have caps: "\<forall>i \<in> set [0..<ee_nb_eth env]. i < 32 \<and> (\<exists>b. ee_rx_caps env (ed_id d) i = Inr b)"
    "\<forall>i \<in> set [0..<ee_nb_eth env]. i < 32 \<and> (\<exists>b. ee_tx_caps env (ed_id d) i = Inr b)"
    "length (on_ports (em_portmask em) [0..<ee_nb_eth env]) \<le> 16"
    using assms(7) d(2) by (auto simp: servable_def MAX_CONNECTIONS_def)
  have "em_devs ?em2 = [d]" "length (on_ports (em_portmask ?em2) [0..<ee_nb_eth env]) \<le> 16" using caps(3) by simp_all
  from rx_adapter_total [OF assms(1) this caps(1)] obtain rx prev3 where
    rx: "eh_set_default_conf_rx_adapter env ?em2 prev = Inr (?em2\<lparr>em_rx := [rx]\<rparr>, prev3)" by blast
  have "em_devs (?em2\<lparr>em_rx := [rx]\<rparr>) = [d]"
    "length (on_ports (em_portmask (?em2\<lparr>em_rx := [rx]\<rparr>)) [0..<ee_nb_eth env]) \<le> 16" using caps(3) by simp_all
  from tx_adapter_total [OF assms(1) this caps(2)] have
    "\<exists>em' prev'. eh_set_default_conf_tx_adapter env (?em2\<lparr>em_rx := [rx]\<rparr>) prev3 = Inr (em', prev')" .
  then show ?thesis using assms(2-5) e0 d link rx by (simp add: eh_validate_conf_def Let_def)
qed

text \<open>
  What the configuration connects: the links of the active cores, as many as there are event ports;
  the connections of the enabled Ethernet ports; the cores of the adapters.
\<close>

definition adapter_core_right :: "eh_env \<Rightarrow> (nat \<Rightarrow> bool) \<Rightarrow> nat option \<Rightarrow> bool" where
  "adapter_core_right env msk core \<longleftrightarrow> (\<forall>c. core = Some c \<longrightarrow>
     (if \<exists>l < max_lcore env. lcore_on env l \<and> msk l then c < max_lcore env \<and> lcore_on env c \<and> msk c
      else c = max_lcore env))"

definition wired :: "eh_env \<Rightarrow> ev_info \<Rightarrow> eventmode_conf \<Rightarrow> eventmode_conf \<Rightarrow> bool" where
  "wired env di em em' \<longleftrightarrow> (\<exists>d rx tx. em_devs em' = [d] \<and> em_rx em' = [rx] \<and> em_tx em' = [tx] \<and>
    em_links em' = link_of env d (em_eth_cores em') \<and>
    map el_lcore (em_links em') =
      map of_nat (take (min (length (filter (lcore_on env) [0..<max_lcore env])) (unat (ei_max_ports di)))
        (filter (active env (em_eth_cores em')) [0..<max_lcore env])) \<and>
    distinct (map el_lcore (em_links em')) \<and> distinct (map el_port (em_links em')) \<and>
    (\<forall>l \<in> set (em_links em'). active env (em_eth_cores em') (unat (el_lcore l)) \<and> el_port l < ed_nb_port d) \<and>
    map rc_eth (ra_conns rx) = map of_nat (on_ports (em_portmask em) [0..<ee_nb_eth env]) \<and>
    ta_conns tx = map of_nat (on_ports (em_portmask em) [0..<ee_nb_eth env]) \<and>
    (\<forall>c \<in> set (ra_conns rx). unat (rc_queue c) < usable_queues d) \<and>
    (\<not> ed_internal d \<longrightarrow> (\<forall>c \<in> set (ra_conns rx). rc_queue c < eh_get_tx_queue em' 0)) \<and>
    adapter_core_right env (em_eth_cores em') (ra_core rx) \<and> adapter_core_right env (em_eth_cores em') (ta_core tx) \<and>
    (ta_core tx \<noteq> None \<longrightarrow> ta_queue tx = eh_get_tx_queue em' 0))"

lemma validate_conf_wired:
  assumes "next_ok env" and "max_lcore env \<le> 256" and "ee_nb_eth env \<le> 65536"
    and "em_devs em = []" and "em_links em = []" and "em_rx em = []" and "em_tx em = []"
    and "ee_info env 0 = Inr di" and "2 \<le> ei_max_queues di" and "eh_validate_conf env em prev = Inr (em', prev')"
  shows "wired env di em em'"
proof -
  let ?ports = "on_ports (em_portmask em) [0..<ee_nb_eth env]"
  obtain d msk cs r1 core1 prev3 ts r2 core2 where d: "ed_id d = 0" "ed_nb_queue d \<noteq> 0"
      "usable_queues d = unat (ed_nb_queue (default_dev env di)) - 1" "2 \<le> unat (ed_nb_queue (default_dev env di))"
      "ed_nb_port d = ed_nb_port (default_dev env di)"
    and rx: "rx_conn_loop env (em_portmask em) (ed_id d) (int (usable_queues d) < int (ee_nb_eth env)) [0..<ee_nb_eth env] [] True = Inr (cs, r1)"
    and rcore: "adapter_core env em' r1 prev = Inr (core1, prev3)"
    and tx: "tx_conn_loop env (em_portmask em) (ed_id d) [0..<ee_nb_eth env] [] True = Inr (ts, r2)"
    and tcore: "adapter_core env em' r2 prev3 = Inr (core2, prev')"
    and em': "em' = em\<lparr>em_devs := [d], em_eth_cores := msk, em_all_queues := True, em_links := link_of env d msk,
        em_rx := [\<lparr>ra_dev = ed_id d, ra_id = 0, ra_core = core1, ra_conns = cs\<rparr>],
        em_tx := [\<lparr>ta_dev = ed_id d, ta_id = 0, ta_core = core2, ta_conns = ts,
          ta_queue = (if r2 then 0 else ed_nb_queue d - 1)\<rparr>]\<rparr>"
    by (rule validate_conf_shape [OF assms(1,4-10)])
  have cs: "cs = map (\<lambda>i. \<lparr>rc_eth = of_nat i, rc_queue = (if int (usable_queues d) < int (ee_nb_eth env) then 0 else of_nat i)\<rparr>) ?ports"
    using rx_conn_loop_ok [OF rx] assms(3) by simp
  have ts: "ts = map of_nat ?ports" using tx_conn_loop_ok [OF tx] assms(3) by simp
  have tq: "eh_get_tx_queue em' 0 = ed_nb_queue d - 1"
    using em' d(1) by (simp add: eh_get_tx_queue_def eh_get_eventdev_params_def)
  have queues: "unat (rc_queue c) < usable_queues d" if "c \<in> set cs" for c
    using that cs rx_queue_below [OF d(4,3), of _ "ee_nb_eth env"] by (auto simp: on_ports_def)
  have below: "rc_queue c < eh_get_tx_queue em' 0" if "c \<in> set cs" "\<not> ed_internal d" for c
    using queues [OF that(1)] that(2) pred_u8 [OF d(2)] by (simp add: tq usable_queues_def word_less_nat_alt)
  have c1: "adapter_core_right env (em_eth_cores em') core1"
    using adapter_core_ok [OF assms(1), of em' r1 prev] rcore
    by (auto simp: adapter_core_right_def eth_core_found_def split: if_splits)
  have c2: "adapter_core_right env (em_eth_cores em') core2 \<and> (core2 \<noteq> None \<longrightarrow> \<not> r2)"
    using adapter_core_ok [OF assms(1), of em' r2 prev3] tcore
    by (auto simp: adapter_core_right_def eth_core_found_def split: if_splits)
  have links: "em_links em' = link_of env d (em_eth_cores em')" using em' by simp
  show ?thesis unfolding wired_def
  proof (intro exI conjI)
    show "em_devs em' = [d]" using em' by simp
    show "em_rx em' = [\<lparr>ra_dev = ed_id d, ra_id = 0, ra_core = core1, ra_conns = cs\<rparr>]" using em' by simp
    show "em_links em' = link_of env d (em_eth_cores em')" by (rule links)
    show "map el_lcore (em_links em') =
      map of_nat (take (min (length (filter (lcore_on env) [0..<max_lcore env])) (unat (ei_max_ports di)))
        (filter (active env (em_eth_cores em')) [0..<max_lcore env]))"
      unfolding links link_cores d(5) default_ports ..
  qed (use em' cs ts queues below c1 c2 tq link_of_sound [OF assms(2), of d "em_eth_cores em'"] links in
      \<open>auto simp: comp_def\<close>)
qed

text \<open>
  C23. The default configuration of event mode. Whatever cores are reserved, the search for an adapter
  core and the search for the next worker core end, the first with a reserved core that is enabled or,
  when there is none, with \<open>RTE_MAX_LCORE\<close>. With one event device, at most 32 Ethernet ports of which at most
  16 are enabled, and devices that answer, the configuration is made. Whenever it is made, event port
  \<open>i\<close> is polled by the \<open>i\<close>-th core that is enabled and not reserved, for as many cores as the device
  has ports, so that no two links share a port or a core and later cores get none; each enabled
  Ethernet port has exactly one connection to the receive adapter and one to the transmit adapter;
  every receive connection goes to a queue the device has, and without internal ports never to the
  last one, which workers use for transmission; and an adapter runs on an enabled core reserved for
  adapters, or on \<open>RTE_MAX_LCORE\<close> exactly when there is none. The device has at least two event queues.
\<close>

theorem eh_default_conf:
  assumes "next_ok env" and "max_lcore env \<le> 256" and "ee_nb_eth env \<le> 65536"
    and "em_devs em = []" and "em_links em = []" and "em_rx em = []" and "em_tx em = []"
    and "ee_info env 0 = Inr di" and "2 \<le> ei_max_queues di"
  shows "(\<forall>msk p. \<exists>c p'. eh_get_next_eth_core env msk p = Some (c, p') \<and> eth_core_found env msk p c p') \<and>
    (\<forall>msk p. eh_get_next_active_core env msk p = Some (first_from (active env msk) (start_of p) (max_lcore env))) \<and>
    (servable env di (em_portmask em) \<longrightarrow> (\<exists>em' prev'. eh_validate_conf env em prev = Inr (em', prev'))) \<and>
    (\<forall>em' prev'. eh_validate_conf env em prev = Inr (em', prev') \<longrightarrow> wired env di em em')"
  using eh_get_next_eth_core_ends [OF assms(1)] eh_get_next_active_core_ok [OF assms(1)]
    validate_conf_total [OF assms(1,4-8)] validate_conf_wired [OF assms] by blast

text \<open>Two ports, four cores of which two serve the adapters, one event device without internal ports.\<close>

definition wit_sys :: sys_env where
  "wit_sys = \<lparr>sy_lcore = (\<lambda>l. l < 4), sy_port = (\<lambda>p. p < 2), sy_max_lcore = 8\<rparr>"

definition wit_next :: "nat option \<Rightarrow> bool \<Rightarrow> bool \<Rightarrow> nat" where
  "wit_next prev skip rnd =
     (let c = first_from (\<lambda>l. l < 4 \<and> (skip \<longrightarrow> l \<noteq> 0)) (start_of prev) 8
      in if rnd \<and> c = 8 then first_from (\<lambda>l. l < 4) 0 8 else c)"

definition wit_env :: eh_env where
  "wit_env = \<lparr>ee_sys = wit_sys, ee_next = wit_next, ee_nb_eventdev = 1, ee_nb_eth = 2, ee_eths = [0, 1],
     ee_info = (\<lambda>_. Inr \<lparr>ei_max_ports = 16, ei_max_queues = 16, ei_burst = True\<rparr>),
     ee_rx_caps = (\<lambda>_ _. Inr False), ee_tx_caps = (\<lambda>_ _. Inr False),
     ee_limits = (\<lambda>_ _. Inl EINVAL), ee_tx_port = (\<lambda>_. Inr 4), ee_nb_bufs = 8192\<rparr>"

definition wit_conf :: eventmode_conf where
  "wit_conf = (eh_conf_init wit_env)\<lparr>em_portmask := 3\<rparr>"

lemma wit_next_ok: "next_ok wit_env"
proof -
  have "lcore_on wit_env = (\<lambda>l. l < 4)" "max_lcore wit_env = 8" "ee_next wit_env = wit_next"
    by (simp_all add: wit_env_def wit_sys_def)
  then show ?thesis by (simp add: next_ok_def wit_next_def Let_def)
qed

lemma wit_conf_fresh: "em_devs wit_conf = [] \<and> em_links wit_conf = [] \<and> em_rx wit_conf = [] \<and> em_tx wit_conf = []"
  by (simp add: wit_conf_def eh_conf_init_def Let_def)

theorem eh_default_conf_witness:
  "\<exists>em' prev' rx. eh_validate_conf wit_env wit_conf None = Inr (em', prev') \<and>
     em_rx em' = [rx] \<and> map rc_eth (ra_conns rx) = [0, 1]"
proof -
  let ?di = "\<lparr>ei_max_ports = 16, ei_max_queues = 16, ei_burst = True\<rparr>"
  have i: "ee_info wit_env 0 = Inr ?di" "max_lcore wit_env \<le> 256"
    "ee_nb_eth wit_env = 2" "em_portmask wit_conf = 3" by (simp_all add: wit_env_def wit_sys_def wit_conf_def)
  have on: "on_ports 3 [0..<2] = [0, 1]" by code_simp
  then have s: "servable wit_env ?di (em_portmask wit_conf)"
    using i unfolding servable_def MAX_CONNECTIONS_def by (simp add: wit_env_def, blast)
  note conf = eh_default_conf [of wit_env wit_conf ?di None, OF wit_next_ok i(2) _ _ _ _ _ i(1)]
  obtain em' prev' where v: "eh_validate_conf wit_env wit_conf None = Inr (em', prev')" and "wired wit_env ?di wit_conf em'"
    using conf s wit_conf_fresh i(3) by auto
  then show ?thesis using i on by (auto simp: wired_def)
qed

section \<open>The transmit queue\<close>

text \<open>
  What the event device documents of links: which event queue is linked to which port after a list
  of calls, a link without queues being one to all queues.
\<close>

fun link_effect :: "ev_op \<Rightarrow> (u8 \<Rightarrow> u8 \<Rightarrow> u8 \<Rightarrow> bool) \<Rightarrow> u8 \<Rightarrow> u8 \<Rightarrow> u8 \<Rightarrow> bool" where
  "link_effect (Op_link d p qo) L = (\<lambda>d' p' q. d' = d \<and> p' = p \<and> (qo = None \<or> qo = Some q) \<or> L d' p' q)"
| "link_effect (Op_unlink d p q) L = (\<lambda>d' p' q'. \<not> (d' = d \<and> p' = p \<and> q' = q) \<and> L d' p' q')"
| "link_effect op L = L"

definition linked :: "ev_op list \<Rightarrow> u8 \<Rightarrow> u8 \<Rightarrow> u8 \<Rightarrow> bool" where
  "linked log = fold link_effect log (\<lambda>_ _ _. False)"

fun linking :: "ev_op \<Rightarrow> bool" where
  "linking (Op_link d p qo) = True"
| "linking (Op_unlink d p q) = True"
| "linking op = False"

lemma neutral_link_effect: "\<not> linking op \<Longrightarrow> link_effect op L = L"
  by (cases op) auto

lemma neutral_fold: "\<forall>op \<in> set ops. \<not> linking op \<Longrightarrow> fold link_effect ops L = L"
  by (induction ops arbitrary: L) (auto simp: neutral_link_effect)

lemma fold_links:
  "fold link_effect (map (\<lambda>l. Op_link (el_dev l) (el_port l) None) ls) L d p q \<longleftrightarrow>
     (\<exists>l \<in> set ls. el_dev l = d \<and> el_port l = p) \<or> L d p q"
  by (induction ls arbitrary: L) auto

lemma fold_unlinks:
  "fold link_effect (map (\<lambda>j. Op_unlink d (of_nat j) tq) is) L d' p q \<longleftrightarrow>
     \<not> (d' = d \<and> p \<in> set (map of_nat is) \<and> q = tq) \<and> L d' p q"
  by (induction "is" arbitrary: L) auto

text \<open>With a device that links and unlinks what it is told to, a run without error has made all its calls.\<close>

definition links_ok :: "(ev_op \<Rightarrow> ev_ret) \<Rightarrow> bool" where
  "links_ok dv \<longleftrightarrow> (\<forall>d p q. dv (Op_unlink d p q) = Done) \<and> (\<forall>op. dv op \<noteq> Nothing)"

lemma exec_all: "exec dv ops = (log, None) \<Longrightarrow> links_ok dv \<Longrightarrow> log = ops"
  by (induction dv ops arbitrary: log rule: exec.induct) (auto simp: links_ok_def split: ev_ret.splits prod.splits)

lemma run_plan_all: "run_plan dv (ops, r) = (log, None) \<Longrightarrow> links_ok dv \<Longrightarrow> log = ops \<and> r = None"
  by (auto simp: run_plan_def exec_all split: prod.splits option.splits)

lemma run_steps_none: "run_steps ss = (log, None) \<Longrightarrow> (\<forall>s \<in> set ss. snd s = None) \<and> log = concat (map fst ss)"
  by (induction ss arbitrary: log rule: run_steps.induct) (auto split: prod.splits)

lemma run_steps_Cons:
  "run_steps (s # ss) = (log, None) \<longleftrightarrow> (\<exists>l l'. s = (l, None) \<and> run_steps ss = (l', None) \<and> log = l @ l')"
  by (cases s; cases "snd s") (auto split: prod.splits)

text \<open>The part of each stage that concerns links.\<close>

lemma link_of_ports:
  "l \<in> set (link_of env d msk) \<Longrightarrow> el_dev l = ed_id d \<and> el_port l \<in> set (map of_nat [0..<unat (ed_nb_port d)])"
  by (auto simp: link_of_def default_link_def dest!: set_zip_leftD)

lemma info_ok_links:
  "info_ok env em ds = (os, None) \<Longrightarrow> \<exists>pre. os = pre @ link_ops em \<and> (\<forall>op \<in> set pre. \<not> linking op)"
proof (induction ds arbitrary: os)
  case (Cons d ds)
  from Cons.prems obtain os' where os': "info_ok env em ds = (os', None)"
    and os: "os = (Op_configure (ed_id d) (ed_nb_queue d) (ed_nb_port d) # queue_ops em d @ port_ops d) @ os'"
    by (auto split: sum.splits prod.splits)
  obtain pre where "os' = pre @ link_ops em" "\<forall>op \<in> set pre. \<not> linking op" using Cons.IH [OF os'] by blast
  then show ?case
    by (intro exI [of _ "(Op_configure (ed_id d) (ed_nb_queue d) (ed_nb_port d) # queue_ops em d @ port_ops d) @ pre"])
      (auto simp: os queue_ops_def port_ops_def)
qed simp

lemma rx_queue_plan_neutral: "rx_queue_plan env em a cs = (os, r) \<Longrightarrow> \<forall>op \<in> set os. \<not> linking op"
  by (induction cs arbitrary: os r) (auto simp: Let_def split: option.splits prod.splits if_splits)

lemma rx_adapter_plan_neutral: "rx_adapter_plan env em a = (os, r) \<Longrightarrow> \<forall>op \<in> set os. \<not> linking op"
  using rx_queue_plan_neutral [of env em a "ra_conns a"]
  by (auto simp: rx_adapter_plan_def Let_def split: sum.splits prod.splits if_splits)

lemma eh_rx_adapter_configure_neutral:
  "eh_rx_adapter_configure env dv em a = (log, None) \<Longrightarrow> links_ok dv \<Longrightarrow> \<forall>op \<in> set log. \<not> linking op"
  using rx_adapter_plan_neutral [of env em a] unfolding eh_rx_adapter_configure_def
  by (cases "rx_adapter_plan env em a") (auto dest: run_plan_all)

lemma tx_adapter_links:
  assumes "eh_tx_adapter_configure env dv em a = (log, None)" and "links_ok dv" and "ta_core a \<noteq> None"
    and "eh_get_eventdev_params em (ta_dev a) = Some d" and "ee_tx_port env (ta_id a) = Inr tp"
  shows "fold link_effect log L (ta_dev a) p q \<longleftrightarrow>
    (if q = ta_queue a then p = tp \<or> p \<notin> set (map of_nat [0..<unat (ed_nb_port d)]) \<and> L (ta_dev a) p q
     else L (ta_dev a) p q)"
proof -
  let ?un = "map (\<lambda>j. Op_unlink (ta_dev a) (of_nat j) (ta_queue a)) [0..<unat (ed_nb_port d)]"
  let ?link = "Op_link (ta_dev a) tp (Some (ta_queue a))"
  obtain l1 l2 where "exec dv (tx_create_ops a @ ?un) = (l1, None)" and "tx_link dv a tp = (l2, None)" and log: "log = l1 @ l2"
    using assms(1,3-5) by (auto simp: eh_tx_adapter_configure_def run_steps_Cons split: sum.splits)
  moreover from this(2) have "l2 = [?link, Op_tx_service (ta_id a), Op_tx_start (ta_id a)]"
    using assms(2) exec_all [OF _ assms(2)] unfolding tx_link_def Let_def
    by (auto simp del: exec.simps run_steps.simps(2,3) simp: links_ok_def run_steps_Cons split: ev_ret.splits)
  ultimately have "log = tx_create_ops a @ ?un @ [?link, Op_tx_service (ta_id a), Op_tx_start (ta_id a)]"
    using exec_all [OF _ assms(2)] by simp
  moreover have "fold link_effect (tx_create_ops a) L = L" by (rule neutral_fold) (auto simp: tx_create_ops_def)
  ultimately show ?thesis by (auto simp: fold_unlinks simp del: set_map set_upt)
qed

lemma fold_rx_adapters:
  assumes "eh_initialize_rx_adapter env dv em = (log, None)" and "links_ok dv"
  shows "fold link_effect log L = L"
proof (rule neutral_fold)
  from assms(1) have *: "\<forall>a \<in> set (em_rx em). snd (eh_rx_adapter_configure env dv em a) = None"
    "log = concat (map (\<lambda>a. fst (eh_rx_adapter_configure env dv em a)) (em_rx em))"
    by (auto simp: eh_initialize_rx_adapter_def comp_def dest!: run_steps_none)
  have "\<forall>op \<in> set (fst (eh_rx_adapter_configure env dv em a)). \<not> linking op" if "a \<in> set (em_rx em)" for a
    using *(1) that eh_rx_adapter_configure_neutral [OF _ assms(2), of env em a]
    by (cases "eh_rx_adapter_configure env dv em a") auto
  then show "\<forall>op \<in> set log. \<not> linking op" using *(2) by auto
qed

text \<open>C12. After a start-up without errors the transmit queue of the event device reaches exactly one
  event port, that of the transmit adapter, when the adapter runs on a core: no worker port receives
  what workers hand over for transmission. Every other queue is linked to the port of every worker
  link and to no other port. The device is assumed to have at least two event queues and to link and
  unlink what it is told to: the code ignores the result of an unlink, and takes a link of no queue
  for success.
\<close>

theorem tx_queue_exclusive:
  assumes "next_ok env" and "em_devs em = []" and "em_links em = []" and "em_rx em = []" and "em_tx em = []"
    and "ee_info env 0 = Inr di" and "2 \<le> ei_max_queues di" and "links_ok dv"
    and "eh_devs_init env dv pmask em prev = ((log, None), em')"
    and "em_tx em' = [tx]" and "ta_core tx \<noteq> None" and "ee_tx_port env 0 = Inr tp"
  shows "(\<forall>p. linked log 0 p (ta_queue tx) \<longleftrightarrow> p = tp) \<and>
    (\<forall>p q. q \<noteq> ta_queue tx \<longrightarrow> (linked log 0 p q \<longleftrightarrow> (\<exists>l \<in> set (em_links em'). el_port l = p)))"
proof -
  let ?em = "em\<lparr>em_portmask := pmask\<rparr>"
  from assms(9) obtain prev' ps where val: "eh_validate_conf env ?em prev = Inr (em', prev')"
    and run: "run_steps [exec dv (map Op_eth_stop ps), eh_initialize_eventdev env dv em',
        eh_initialize_rx_adapter env dv em', eh_initialize_tx_adapter env dv em',
        eh_start_eventdev dv em', exec dv (map Op_eth_start ps)] = (log, None)"
    by (auto simp: eh_devs_init_def split: sum.splits)
  have fresh: "em_devs ?em = []" "em_links ?em = []" "em_rx ?em = []" "em_tx ?em = []" using assms(2-5) by simp_all
  obtain d msk cs core1 ts r2 core2 where d: "ed_id d = 0"
    and em': "em' = ?em\<lparr>em_devs := [d], em_eth_cores := msk, em_all_queues := True, em_links := link_of env d msk,
        em_rx := [\<lparr>ra_dev = ed_id d, ra_id = 0, ra_core = core1, ra_conns = cs\<rparr>],
        em_tx := [\<lparr>ta_dev = ed_id d, ta_id = 0, ta_core = core2, ta_conns = ts,
          ta_queue = (if r2 then 0 else ed_nb_queue d - 1)\<rparr>]\<rparr>"
    by (rule validate_conf_shape [OF assms(1) fresh assms(6,7) val])
  have tx: "ta_dev tx = 0" "ta_id tx = 0" using em' d assms(10) by auto
  from run obtain l1 l2 l3 l4 l5 l6 where
    l: "exec dv (map Op_eth_stop ps) = (l1, None)" "eh_initialize_eventdev env dv em' = (l2, None)"
      "eh_initialize_rx_adapter env dv em' = (l3, None)" "eh_initialize_tx_adapter env dv em' = (l4, None)"
      "eh_start_eventdev dv em' = (l5, None)" "exec dv (map Op_eth_start ps) = (l6, None)"
    and log: "log = l1 @ l2 @ l3 @ l4 @ l5 @ l6"
    by (auto simp: run_steps_Cons)
  have ends: "\<forall>op \<in> set l1. \<not> linking op" "\<forall>op \<in> set l5. \<not> linking op" "\<forall>op \<in> set l6. \<not> linking op"
    using exec_all [OF l(1) assms(8)] exec_all [OF l(5) [unfolded eh_start_eventdev_def] assms(8)]
      exec_all [OF l(6) assms(8)] by auto
  have "info_ok env em' (em_devs em') = (l2, None)"
    using l(2) run_plan_all [OF _ assms(8), of "fst (info_ok env em' (em_devs em'))" "snd (info_ok env em' (em_devs em'))"]
    by (simp add: eh_initialize_eventdev_def prod_eq_iff)
  from info_ok_links [OF this] obtain pre where "l2 = pre @ link_ops em'" "\<forall>op \<in> set pre. \<not> linking op" by blast
  then have pre: "fold link_effect l2 L = fold link_effect (link_ops em') L" for L by (simp add: neutral_fold)
  have dev: "el_dev l = 0 \<and> el_port l \<in> set (map of_nat [0..<unat (ed_nb_port d)])" if "l \<in> set (em_links em')" for l
    using that link_of_ports [of l env d msk] em' d by simp
  have two: "fold link_effect l2 L 0 p q \<longleftrightarrow> (\<exists>l \<in> set (em_links em'). el_port l = p) \<or> L 0 p q" for L p q
    unfolding pre using dev fold_links [of "em_links em'"] em' by (auto simp: link_ops_def)
  have conf: "eh_tx_adapter_configure env dv em' tx = (l4, None)"
    using l(4) assms(10) by (auto simp: eh_initialize_tx_adapter_def run_steps_Cons)
  have "eh_get_eventdev_params em' (ta_dev tx) = Some d"
    using tx em' d by (simp add: eh_get_eventdev_params_def)
  from tx_adapter_links [OF conf assms(8,11) this] assms(12) tx
  have four: "fold link_effect l4 L 0 p q \<longleftrightarrow>
      (if q = ta_queue tx then p = tp \<or> p \<notin> set (map of_nat [0..<unat (ed_nb_port d)]) \<and> L 0 p q else L 0 p q)" for L p q
    by simp
  have "linked log 0 p q \<longleftrightarrow> (if q = ta_queue tx then p = tp else \<exists>l \<in> set (em_links em'). el_port l = p)" for p q
    unfolding linked_def log using dev
    by (auto simp: neutral_fold ends fold_rx_adapters [OF l(3) assms(8)] two four simp del: set_map set_upt)
  then show ?thesis by simp
qed

lemma wit_devs_init:
  "\<exists>log em' tx. eh_devs_init wit_env (\<lambda>_. Done) 3 wit_conf None = ((log, None), em') \<and> em_tx em' = [tx] \<and> ta_core tx \<noteq> None"
proof -
  have "case eh_devs_init wit_env (\<lambda>_. Done) 3 wit_conf None of
      ((log, None), em') \<Rightarrow> (case em_tx em' of [tx] \<Rightarrow> ta_core tx \<noteq> None | _ \<Rightarrow> False) | _ \<Rightarrow> False" by code_simp
  then show ?thesis by (auto split: prod.splits option.splits list.splits)
qed

theorem tx_queue_exclusive_witness:
  "\<exists>log em' tx. eh_devs_init wit_env (\<lambda>_. Done) 3 wit_conf None = ((log, None), em') \<and>
     em_tx em' = [tx] \<and> linked log 0 4 (ta_queue tx) \<and> \<not> linked log 0 0 (ta_queue tx)"
proof -
  obtain log em' tx where v: "eh_devs_init wit_env (\<lambda>_. Done) 3 wit_conf None = ((log, None), em')" "em_tx em' = [tx]"
    "ta_core tx \<noteq> None" using wit_devs_init by blast
  have i: "ee_info wit_env 0 = Inr \<lparr>ei_max_ports = 16, ei_max_queues = 16, ei_burst = True\<rparr>" "ee_tx_port wit_env 0 = Inr 4"
    by (simp_all add: wit_env_def)
  have "linked log 0 4 (ta_queue tx) \<and> \<not> linked log 0 0 (ta_queue tx)"
    using tx_queue_exclusive [OF wit_next_ok _ _ _ _ i(1) _ _ v i(2)] wit_conf_fresh
    by (simp add: links_ok_def)
  then show ?thesis using v by blast
qed

end
