(* ===== verification/Config_File.thy ===== *)
theory Config_File
  imports SP4 SP6 SA_Config Flow Transmit Args
begin

text \<open>
  The configuration file (\<open>parser.c\<close>): how \<open>parse_cfg_file\<close> cuts the file into lines, removes
  comments and joins continued lines, the handler of each kind of line, and the sorting at the end.
  \<open>cmdline_parse\<close> of the library is a parameter: given a line it says which handler it calls with which
  fields. A call of \<open>rte_panic\<close> is a value of \<open>cfg_error\<close>. The content of the file is a list of
  characters, and a C string in it ends at the first NUL.
\<close>

section \<open>Ethernet addresses\<close>

text \<open>
  \<open>parse_uint8x16\<close>: \<open>ls\<close> is the character that must follow, \<open>None\<close> the end of the string. The value
  comes with the rest after that character.
\<close>

definition parse_uint8x16 :: "string \<Rightarrow> char option \<Rightarrow> (u8 \<times> string) option" where
  "parse_uint8x16 s ls =
     (case strtoul 16 s of (t, rest, err) \<Rightarrow>
      if err \<or> (case rest of [] \<Rightarrow> ls \<noteq> None | c # _ \<Rightarrow> ls \<noteq> Some c) \<or> 255 < t then None
      else Some (of_int t, tl rest))"

text \<open>The bytes parsed before the first malformed one, and whether there was none.\<close>

fun mac_loop :: "char option list \<Rightarrow> string \<Rightarrow> u8 list \<times> bool" where
  "mac_loop [] s = ([], True)"
| "mac_loop (ls # stops) s =
     (case parse_uint8x16 s ls of
        None \<Rightarrow> ([], False)
      | Some (b, rest) \<Rightarrow> (case mac_loop stops rest of (bs, ok) \<Rightarrow> (b # bs, ok)))"

text \<open>\<open>parse_mac (str, addr)\<close>: what it leaves in the six bytes of \<open>addr\<close>, and whether it returns 0.\<close>

definition parse_mac :: "string \<Rightarrow> u8 list \<Rightarrow> u8 list \<times> bool" where
  "parse_mac s addr =
     (case mac_loop (replicate 5 (Some CHR '':'') @ [None]) s of (bs, ok) \<Rightarrow> (bs @ drop (length bs) addr, ok))"

section \<open>Configuration and its errors\<close>

record cfg =
  cf_sp4 :: sp4_db
  cf_sp6 :: sp6_db
  cf_sa :: sa_db
  cf_rt :: rt_db
  cf_flow :: "flow_rule_entry list"
  cf_eth :: "ethaddr_info list"

text \<open>
  The status a handler leaves (\<open>Bad_status\<close>, or \<open>Bad_port\<close> of the neighbour line), a step C leaves
  undefined, and the ways \<open>parse_cfg_file\<close> itself panics.
\<close>

datatype cfg_error =
    Bad_status parse_error
  | Bad_port u16
  | Undefined_step
  | No_file
  | No_cmdline
  | Line_too_long
  | Text_after_backslash
  | Cmdline_failed

text \<open>What \<open>cmdline_parse\<close> does with a line: the handler it calls, none for an empty line, or failure.\<close>

datatype cfg_cmd = Cmd_sp string | Cmd_sa string | Cmd_rt string | Cmd_flow string | Cmd_neigh u16 string
  | Cmd_none | Cmd_fail

text \<open>\<open>ce_stack\<close> is what the uninitialised address of \<open>cfg_parse_neigh\<close> holds, byte by byte.\<close>

record cfg_env =
  ce_sa :: sa_env
  ce_mem :: bool
  ce_stack :: "cfg \<Rightarrow> nat \<Rightarrow> u8"
  ce_cmdline :: "string \<Rightarrow> cfg_cmd"
  ce_cl_ok :: bool

section \<open>The handlers\<close>

definition cfg_sp_add_cfg_item_parsed :: "cfg_env \<Rightarrow> string \<Rightarrow> cfg \<Rightarrow> cfg \<times> cfg_error option" where
  "cfg_sp_add_cfg_item_parsed env s st =
     (case parse_tokenize_string 32 s of (toks, ok) \<Rightarrow>
      if \<not> ok then (st, Some (Bad_status Too_many_arguments))
      else case toks of
        [] \<Rightarrow> (st, Some Undefined_step)
      | t # _ \<Rightarrow>
          (if t = ''ipv4'' then
             (case parse_sp4_tokens (env_inet (ce_sa env)) (ce_mem env) toks (cf_sp4 st) of (db, e) \<Rightarrow>
                (st\<lparr>cf_sp4 := db\<rparr>, map_option Bad_status e))
           else if t = ''ipv6'' then
             (case parse_sp6_tokens (env_inet (ce_sa env)) (ce_mem env) toks (cf_sp6 st) of (db, e) \<Rightarrow>
                (st\<lparr>cf_sp6 := db\<rparr>, map_option Bad_status e))
           else (st, Some (Bad_status (Unrecognized t)))))"

text \<open>
  The handler of an SA line goes on with the first 32 tokens when there are too many. \<open>APP_CHECK\<close> writes
  the status whether it fails or not, so the first check of \<open>parse_sa_tokens\<close> replaces the status of the
  failed one, and the line is accepted or refused for its first 32 tokens. The first status is left only
  when the table cannot grow, where \<open>parse_sa_tokens\<close> returns before any check.
\<close>

definition sa_room :: "bool \<Rightarrow> string list \<Rightarrow> sa_db \<Rightarrow> bool" where
  "sa_room mem_ok toks db =
     (case toks of [] \<Rightarrow> True
      | t # _ \<Rightarrow> snd (extend_sa_arr mem_ok (if t = ''in'' then sas_in db else sas_out db)))"

definition cfg_sa_add_cfg_item_parsed :: "cfg_env \<Rightarrow> string \<Rightarrow> cfg \<Rightarrow> cfg \<times> cfg_error option" where
  "cfg_sa_add_cfg_item_parsed env s st =
     (case parse_tokenize_string 32 s of (toks, ok) \<Rightarrow>
      case parse_sa_tokens (ce_sa env) (ce_mem env) toks (cf_sa st) of (db, e) \<Rightarrow>
        (st\<lparr>cf_sa := db\<rparr>,
         if \<not> ok \<and> \<not> sa_room (ce_mem env) toks (cf_sa st) then Some (Bad_status Too_many_arguments)
         else map_option Bad_status e))"

definition cfg_rt_add_cfg_item_parsed :: "cfg_env \<Rightarrow> string \<Rightarrow> cfg \<Rightarrow> cfg \<times> cfg_error option" where
  "cfg_rt_add_cfg_item_parsed env s st =
     (case parse_tokenize_string 32 s of (toks, ok) \<Rightarrow>
      if \<not> ok then (st, Some (Bad_status Too_many_arguments))
      else case parse_rt_tokens (env_inet (ce_sa env)) toks (cf_rt st) of (db, e) \<Rightarrow>
        (st\<lparr>cf_rt := db\<rparr>, map_option Bad_status e))"

text \<open>A flow line may be dropped without an error.\<close>

definition cfg_flow_add_cfg_item_parsed :: "cfg_env \<Rightarrow> string \<Rightarrow> cfg \<Rightarrow> cfg \<times> cfg_error option" where
  "cfg_flow_add_cfg_item_parsed env s st =
     (case parse_tokenize_string 32 s of (toks, ok) \<Rightarrow>
      if \<not> ok then (st, Some (Bad_status Too_many_arguments))
      else case parse_flow_tokens (env_inet (ce_sa env)) toks (cf_flow st) of (fl, e) \<Rightarrow>
        (st\<lparr>cf_flow := fl\<rparr>,
         case e of None \<Rightarrow> None | Some (Bad pe) \<Rightarrow> Some (Bad_status pe) | Some Silent \<Rightarrow> None
         | Some Undefined \<Rightarrow> Some Undefined_step))"

text \<open>
  The neighbour line. The status of a malformed address is replaced by that of the port: on a valid port
  the line is accepted, and the address stored has the bytes parsed before the malformed one and, from
  there on, what the local variable held.
\<close>

definition cfg_parse_neigh :: "cfg_env \<Rightarrow> u16 \<Rightarrow> string \<Rightarrow> cfg \<Rightarrow> cfg \<times> cfg_error option" where
  "cfg_parse_neigh env port s st =
     (case parse_mac s (map (ce_stack env st) [0..<6]) of (mac, mac_ok) \<Rightarrow>
        (case add_dst_ethaddr (unat port) mac (cf_eth st) of
           Inl e \<Rightarrow> (st, Some (Bad_port port))
         | Inr es \<Rightarrow> (st\<lparr>cf_eth := es\<rparr>, None)))"

definition cfg_line :: "cfg_env \<Rightarrow> string \<Rightarrow> cfg \<Rightarrow> cfg \<times> cfg_error option" where
  "cfg_line env s st =
     (case ce_cmdline env s of
        Cmd_sp a \<Rightarrow> cfg_sp_add_cfg_item_parsed env a st
      | Cmd_sa a \<Rightarrow> cfg_sa_add_cfg_item_parsed env a st
      | Cmd_rt a \<Rightarrow> cfg_rt_add_cfg_item_parsed env a st
      | Cmd_flow a \<Rightarrow> cfg_flow_add_cfg_item_parsed env a st
      | Cmd_neigh p a \<Rightarrow> cfg_parse_neigh env p a st
      | Cmd_none \<Rightarrow> (st, None)
      | Cmd_fail \<Rightarrow> (st, Some Cmdline_failed))"

section \<open>Lines of the file\<close>

abbreviation nl :: char where "nl \<equiv> CHR 0x0A"
abbreviation backslash :: char where "backslash \<equiv> CHR 0x5C"

text \<open>\<open>fgets (oneline, 1024, f)\<close>: up to and including the newline, and at most 1023 characters.\<close>

definition fgets1024 :: "string \<Rightarrow> (string \<times> string) option" where
  "fgets1024 f =
     (if f = [] then None
      else let n = min 1023 (Suc (length (takeWhile (\<lambda>c. c \<noteq> nl) f))) in Some (take n f, drop n f))"

definition c_string :: "string \<Rightarrow> string" where
  "c_string s = takeWhile (\<lambda>c. c \<noteq> CHR 0x00) s"

text \<open>
  One line read, with \<open>str\<close> the text joined so far: skipped, added to \<open>str\<close>, complete, or an error.
  A backslash must be the last but one character, before the newline.
\<close>

datatype line_step = Skipped | Continued string | Complete string | Broken cfg_error

definition line_of :: "string \<Rightarrow> string \<Rightarrow> line_step" where
  "line_of str chunk =
     (let oneline = c_string chunk in
      if 1022 < length oneline then Broken Line_too_long
      else if oneline \<noteq> [] \<and> hd oneline = CHR ''#'' then Skipped
      else
        (let o1 = takeWhile (\<lambda>c. c \<noteq> CHR ''#'') oneline; pos = length (takeWhile (\<lambda>c. c \<noteq> backslash) o1) in
         if pos < length o1 then
           (if int pos \<noteq> int (length o1) - 2 then Broken Text_after_backslash
            else if 1022 < pos + length str then Broken Line_too_long
            else Continued (str @ take pos o1))
         else if 1022 < length o1 + length str then Broken Line_too_long
         else Complete (str @ o1 @ [nl])))"

function cfg_loop :: "cfg_env \<Rightarrow> string \<Rightarrow> string \<Rightarrow> cfg \<Rightarrow> cfg_error + cfg" where
  "cfg_loop env f str st =
     (case fgets1024 f of
        None \<Rightarrow> Inr st
      | Some (chunk, f') \<Rightarrow>
          (case line_of str chunk of
             Broken e \<Rightarrow> Inl e
           | Skipped \<Rightarrow> cfg_loop env f' str st
           | Continued str' \<Rightarrow> cfg_loop env f' str' st
           | Complete s \<Rightarrow>
               (case cfg_line env s st of
                  (st', Some e) \<Rightarrow> Inl e
                | (st', None) \<Rightarrow> cfg_loop env f' [] st')))"
  by pat_completeness auto
termination
  by (relation "measure (\<lambda>(env, f, str, st). length f)")
    (auto simp: fgets1024_def Let_def split: if_splits)

declare cfg_loop.simps [simp del]

definition sort_cfg :: "cfg \<Rightarrow> cfg" where
  "sort_cfg st = st\<lparr>cf_sa := sa_sort_arr (cf_sa st), cf_sp4 := sp4_sort_arr (cf_sp4 st), cf_sp6 := sp6_sort_arr (cf_sp6 st)\<rparr>"

text \<open>The file is \<open>None\<close> when it cannot be opened. Text joined by a backslash on the last line is dropped.\<close>

definition parse_cfg_file :: "cfg_env \<Rightarrow> string option \<Rightarrow> cfg \<Rightarrow> cfg_error + cfg" where
  "parse_cfg_file env file st =
     (case file of
        None \<Rightarrow> Inl No_file
      | Some f \<Rightarrow>
          (if \<not> ce_cl_ok env then Inl No_cmdline
           else case cfg_loop env f [] st of Inl e \<Rightarrow> Inl e | Inr st' \<Rightarrow> Inr (sort_cfg st')))"

end
