(* ===== verification/Config_File_Props.thy ===== *)
theory Config_File_Props
  imports Config_File
begin

text \<open>
  What reading a configuration file guarantees: the lines its handlers see are those the text spells,
  and after an accepted file the tables are well formed and sorted, so that the searches by SPI decide
  membership.
\<close>

section \<open>Reading lines\<close>

definition plain :: "string \<Rightarrow> bool" where
  "plain s \<longleftrightarrow> list_all (\<lambda>c. c \<noteq> nl \<and> c \<noteq> CHR 0x00 \<and> c \<noteq> CHR ''#'' \<and> c \<noteq> backslash) s"

definition comment_ok :: "string \<Rightarrow> bool" where
  "comment_ok s \<longleftrightarrow> list_all (\<lambda>c. c \<noteq> nl \<and> c \<noteq> CHR 0x00) s"

lemma takeWhile_prefix:
  "list_all P xs \<Longrightarrow> \<not> P y \<Longrightarrow> takeWhile P (xs @ y # ys) = xs"
  by (induction xs) auto

lemma fgets_line:
  assumes "list_all (\<lambda>c. c \<noteq> nl) l" and "length l \<le> 1022"
  shows "fgets1024 (l @ nl # f) = Some (l @ [nl], f)"
  using takeWhile_prefix [OF assms(1), of nl f] assms(2) by (simp add: fgets1024_def Let_def)

lemma c_string_id: "list_all (\<lambda>c. c \<noteq> CHR 0x00) s \<Longrightarrow> c_string s = s"
  by (auto simp: c_string_def takeWhile_eq_all_conv list_all_iff)

lemma plain_imp:
  "plain s \<Longrightarrow> list_all (\<lambda>c. c \<noteq> nl) s" "plain s \<Longrightarrow> list_all (\<lambda>c. c \<noteq> CHR 0x00) s"
  "plain s \<Longrightarrow> list_all (\<lambda>c. c \<noteq> CHR ''#'') s" "plain s \<Longrightarrow> list_all (\<lambda>c. c \<noteq> backslash) s"
  by (auto simp: plain_def list_all_iff)

lemma line_of_comment:
  assumes "comment_ok c" and "length c \<le> 1020"
  shows "line_of str (CHR ''#'' # c @ [nl]) = Skipped"
proof -
  have "c_string (CHR ''#'' # c @ [nl]) = CHR ''#'' # c @ [nl]"
    using assms(1) by (intro c_string_id) (auto simp: comment_ok_def list_all_iff)
  then show ?thesis using assms(2) by (simp add: line_of_def)
qed

lemma line_of_part:
  assumes "plain p" and "length p \<le> 1020" and "length p + length str \<le> 1022"
  shows "line_of str (p @ [backslash, nl]) = Continued (str @ p)"
proof -
  have c: "c_string (p @ [backslash, nl]) = p @ [backslash, nl]"
    using plain_imp(2) [OF assms(1)] by (intro c_string_id) simp
  have h: "takeWhile (\<lambda>c. c \<noteq> CHR ''#'') (p @ [backslash, nl]) = p @ [backslash, nl]"
    using plain_imp(3) [OF assms(1)] by (auto simp: takeWhile_eq_all_conv list_all_iff)
  have b: "takeWhile (\<lambda>c. c \<noteq> backslash) (p @ [backslash, nl]) = p"
    by (rule takeWhile_prefix) (use plain_imp(4) [OF assms(1)] in auto)
  have "p @ [backslash, nl] \<noteq> [] \<and> hd (p @ [backslash, nl]) \<noteq> CHR ''#''"
    using plain_imp(3) [OF assms(1)] by (cases p) auto
  then show ?thesis using assms(2,3) by (simp add: line_of_def c h b)
qed

text \<open>The end of a logical line, with a comment behind it or not.\<close>

definition line_end :: "string option \<Rightarrow> string" where
  "line_end t = (case t of None \<Rightarrow> [nl] | Some c \<Rightarrow> CHR ''#'' # c @ [nl])"

lemma line_of_last:
  assumes "plain l" and "length l + length str \<le> 1021" and "length (l @ line_end t) \<le> 1022"
    and "case t of None \<Rightarrow> True | Some c \<Rightarrow> comment_ok c \<and> l \<noteq> []"
  shows "line_of str (l @ line_end t) = Complete (str @ l @ (if t = None then [nl] else []) @ [nl])"
proof -
  have c: "c_string (l @ line_end t) = l @ line_end t"
    using plain_imp(2) [OF assms(1)] assms(4)
    by (intro c_string_id) (auto simp: line_end_def comment_ok_def list_all_iff split: option.splits)
  have h: "takeWhile (\<lambda>c. c \<noteq> CHR ''#'') (l @ line_end t) = l @ (if t = None then [nl] else [])"
    using plain_imp(3) [OF assms(1)] takeWhile_prefix [OF plain_imp(3) [OF assms(1)], of "CHR ''#''"]
    by (auto simp: line_end_def takeWhile_eq_all_conv list_all_iff split: option.splits)
  have b: "takeWhile (\<lambda>c. c \<noteq> backslash) (l @ (if t = None then [nl] else [])) = l @ (if t = None then [nl] else [])"
    using plain_imp(4) [OF assms(1)] by (auto simp: takeWhile_eq_all_conv list_all_iff)
  have "l @ line_end t \<noteq> [] \<and> hd (l @ line_end t) \<noteq> CHR ''#''"
    using plain_imp(3) [OF assms(1)] assms(4) by (cases l) (auto simp: line_end_def split: option.splits)
  then show ?thesis using assms(2,3) by (simp add: line_of_def c h b)
qed

section \<open>The lines a file spells\<close>

text \<open>
  A logical line in a file: comment lines before it, parts that end with a backslash, the last part,
  and a comment after that if there is one.
\<close>

record cfg_text =
  ct_comments :: "string list"
  ct_parts :: "string list"
  ct_last :: string
  ct_tail :: "string option"

definition text_ok :: "cfg_text \<Rightarrow> bool" where
  "text_ok g \<longleftrightarrow>
     (\<forall>c \<in> set (ct_comments g). comment_ok c \<and> length c \<le> 1020) \<and>
     (\<forall>p \<in> set (ct_parts g). plain p \<and> length p \<le> 1020) \<and>
     plain (ct_last g) \<and> length (concat (ct_parts g)) + length (ct_last g) \<le> 1021 \<and>
     length (ct_last g @ line_end (ct_tail g)) \<le> 1022 \<and>
     (case ct_tail g of None \<Rightarrow> True | Some c \<Rightarrow> comment_ok c \<and> ct_last g \<noteq> [])"

definition render :: "cfg_text \<Rightarrow> string" where
  "render g =
     concat (map (\<lambda>c. CHR ''#'' # c @ [nl]) (ct_comments g)) @
     concat (map (\<lambda>p. p @ [backslash, nl]) (ct_parts g)) @ ct_last g @ line_end (ct_tail g)"

definition logical :: "cfg_text \<Rightarrow> string" where
  "logical g = concat (ct_parts g) @ ct_last g @ (if ct_tail g = None then [nl] else []) @ [nl]"

lemma loop_comments:
  "\<forall>c \<in> set cs. comment_ok c \<and> length c \<le> 1020 \<Longrightarrow>
     cfg_loop env (concat (map (\<lambda>c. CHR ''#'' # c @ [nl]) cs) @ f) str st = cfg_loop env f str st"
proof (induction cs)
  case (Cons c cs)
  have l: "list_all (\<lambda>c. c \<noteq> nl) (CHR ''#'' # c)" using Cons.prems by (auto simp: comment_ok_def list_all_iff)
  have "fgets1024 (concat (map (\<lambda>c. CHR ''#'' # c @ [nl]) (c # cs)) @ f) =
      Some (CHR ''#'' # c @ [nl], concat (map (\<lambda>c. CHR ''#'' # c @ [nl]) cs) @ f)"
    using fgets_line [OF l] Cons.prems by simp
  then show ?case
    using Cons by (subst cfg_loop.simps) (simp add: line_of_comment)
qed simp

lemma loop_parts:
  "\<forall>p \<in> set ps. plain p \<and> length p \<le> 1020 \<Longrightarrow> length (concat ps) + length str \<le> 1022 \<Longrightarrow>
     cfg_loop env (concat (map (\<lambda>p. p @ [backslash, nl]) ps) @ f) str st = cfg_loop env f (str @ concat ps) st"
proof (induction ps arbitrary: str)
  case (Cons p ps)
  have l: "list_all (\<lambda>c. c \<noteq> nl) (p @ [backslash])" using Cons.prems by (simp add: plain_imp)
  have "fgets1024 (concat (map (\<lambda>p. p @ [backslash, nl]) (p # ps)) @ f) =
      Some (p @ [backslash, nl], concat (map (\<lambda>p. p @ [backslash, nl]) ps) @ f)"
    using fgets_line [OF l] Cons.prems by simp
  then show ?case
    using Cons by (subst cfg_loop.simps) (simp add: line_of_part)
qed simp

lemma loop_render:
  assumes "text_ok g"
  shows "cfg_loop env (render g @ f) [] st =
    (case cfg_line env (logical g) st of (st', Some e) \<Rightarrow> Inl e | (st', None) \<Rightarrow> cfg_loop env f [] st')"
proof -
  let ?str = "concat (ct_parts g)" and ?last = "ct_last g @ line_end (ct_tail g)"
  have ok: "plain (ct_last g)" "length ?last \<le> 1022" "length ?str + length (ct_last g) \<le> 1021"
    "case ct_tail g of None \<Rightarrow> True | Some c \<Rightarrow> comment_ok c \<and> ct_last g \<noteq> []"
    using assms by (simp_all add: text_ok_def)
  have g: "fgets1024 (?last @ f) = Some (?last, f)"
  proof (cases "ct_tail g")
    case None
    then have "length (ct_last g) \<le> 1022" using ok(2) by (simp add: line_end_def)
    from fgets_line [OF plain_imp(1) [OF ok(1)] this, of f] None show ?thesis by (simp add: line_end_def)
  next
    case (Some c)
    have "list_all (\<lambda>c. c \<noteq> nl) (ct_last g @ CHR ''#'' # c)" "length (ct_last g @ CHR ''#'' # c) \<le> 1022"
      using Some ok plain_imp(1) [OF ok(1)] by (auto simp: comment_ok_def list_all_iff line_end_def)
    from fgets_line [OF this, of f] Some show ?thesis by (simp add: line_end_def)
  qed
  have "line_of ?str ?last = Complete (logical g)"
    using line_of_last [OF ok(1) _ ok(2,4), of ?str] ok(3) by (simp add: logical_def)
  then have "cfg_loop env (?last @ f) ?str st =
      (case cfg_line env (logical g) st of (st', Some e) \<Rightarrow> Inl e | (st', None) \<Rightarrow> cfg_loop env f [] st')"
    using g by (subst cfg_loop.simps) simp
  then show ?thesis
    using assms by (simp add: render_def loop_comments loop_parts text_ok_def)
qed

fun cfg_lines :: "cfg_env \<Rightarrow> string list \<Rightarrow> cfg \<Rightarrow> cfg_error + cfg" where
  "cfg_lines env [] st = Inr st"
| "cfg_lines env (s # ss) st = (case cfg_line env s st of (st', Some e) \<Rightarrow> Inl e | (st', None) \<Rightarrow> cfg_lines env ss st')"

lemma loop_renders:
  "\<forall>g \<in> set gs. text_ok g \<Longrightarrow> cfg_loop env (concat (map render gs)) [] st = cfg_lines env (map logical gs) st"
proof (induction gs arbitrary: st)
  case Nil
  show ?case by (subst cfg_loop.simps) (simp add: fgets1024_def)
next
  case (Cons g gs)
  then show ?case
    using loop_render [of g env "concat (map render gs)" st] by (auto split: prod.splits option.splits)
qed

text \<open>C28. Reading a file that spells logical lines, each with comment lines before it, split over any number
  of continued parts and with a comment behind it, is running the handlers on exactly these
  lines, in order, up to the first error, and sorting the tables at the end.
\<close>

theorem parse_cfg_file_lines:
  assumes "\<forall>g \<in> set gs. text_ok g" and "ce_cl_ok env"
  shows "parse_cfg_file env (Some (concat (map render gs))) st =
    (case cfg_lines env (map logical gs) st of Inl e \<Rightarrow> Inl e | Inr st' \<Rightarrow> Inr (sort_cfg st'))"
  using loop_renders [OF assms(1)] assms(2) by (simp add: parse_cfg_file_def)

text \<open>A command interpreter that knows the neighbour line of port 0 only.\<close>

definition wit_cmdline :: "string \<Rightarrow> cfg_cmd" where
  "wit_cmdline s = (if take 13 s = ''neigh port 0 '' then Cmd_neigh 0 (take 17 (drop 13 s)) else Cmd_fail)"

definition wit_cfg_env :: cfg_env where
  "wit_cfg_env = \<lparr>ce_sa = \<lparr>env_inet = sample_inet, env_rand = 9, env_lib_enabled = True\<rparr>, ce_mem = True, ce_stack = (\<lambda>_ _. 0xCC),
     ce_cmdline = wit_cmdline, ce_cl_ok = True\<rparr>"

definition empty_cfg :: cfg where
  "empty_cfg = \<lparr>cf_sp4 = sp4_empty, cf_sp6 = sp6_empty, cf_sa = sa_empty, cf_rt = empty_rt, cf_flow = [],
     cf_eth = [\<lparr>eth_src = 0, eth_dst = 0\<rparr>]\<rparr>"

definition wit_text :: cfg_text where
  "wit_text = \<lparr>ct_comments = [''neighbours''], ct_parts = [''neigh port 0 ''], ct_last = ''00:11:22:33:44:55'',
     ct_tail = Some ''gw''\<rparr>"

theorem parse_cfg_file_lines_witness:
  "\<exists>st'. parse_cfg_file wit_cfg_env
      (Some (''#neighbours'' @ nl # ''neigh port 0 '' @ backslash # nl # ''00:11:22:33:44:55#gw'' @ [nl])) empty_cfg = Inr st' \<and>
     map eth_dst (cf_eth st') = [0x554433221100]"
proof -
  have ok: "\<forall>g \<in> set [wit_text]. text_ok g"
    by (simp add: wit_text_def text_ok_def plain_def comment_ok_def line_end_def)
  have cl: "ce_cl_ok wit_cfg_env" by (simp add: wit_cfg_env_def)
  have r: "concat (map render [wit_text]) =
      ''#neighbours'' @ nl # ''neigh port 0 '' @ backslash # nl # ''00:11:22:33:44:55#gw'' @ [nl]"
    by (simp add: render_def wit_text_def line_end_def)
  have m: "parse_mac ''00:11:22:33:44:55'' (map (\<lambda>_. 0xCC) [0..<6]) = ([0, 0x11, 0x22, 0x33, 0x44, 0x55], True)" by code_simp
  have w: "ethaddr_to_uint64 [0, 0x11, 0x22, 0x33, 0x44, 0x55] = 0x554433221100" by code_simp
  have "cfg_lines wit_cfg_env (map logical [wit_text]) empty_cfg =
      Inr (empty_cfg\<lparr>cf_eth := [\<lparr>eth_src = 0, eth_dst = 0x554433221100\<rparr>]\<rparr>)"
    by (simp add: logical_def wit_text_def cfg_line_def wit_cfg_env_def wit_cmdline_def cfg_parse_neigh_def m
        add_dst_ethaddr_def w empty_cfg_def)
  then show ?thesis using parse_cfg_file_lines [OF ok cl, of empty_cfg] unfolding r by (simp add: sort_cfg_def)
qed

section \<open>What an accepted file gives\<close>

definition cfg_ok :: "cfg \<Rightarrow> bool" where
  "cfg_ok st \<longleftrightarrow> sp4_ok (cf_sp4 st) \<and> sp6_ok (cf_sp6 st) \<and> sa_ok (cf_sa st) \<and> rt_ok (cf_rt st) \<and>
     length (cf_flow st) \<le> FLOW_RULES_MAX \<and>
     (\<forall>r \<in> set (vec_elems (sas_in (cf_sa st))). sa_wf r \<and> spi r \<noteq> INVALID_SPI \<and> direction r = INGRESS) \<and>
     (\<forall>r \<in> set (vec_elems (sas_out (cf_sa st))). sa_wf r \<and> spi r \<noteq> INVALID_SPI \<and> direction r = EGRESS)"

lemma extend_room: "snd (extend_sa_arr True v)"
  using sa_arr.extend_total [of True v] by auto

text \<open>While there is memory an SA line is accepted or refused for its first 32 tokens, however many it has.\<close>

lemma cfg_sa_outcome:
  "ce_mem env \<Longrightarrow> parse_tokenize_string 32 s = (toks, ok) \<Longrightarrow>
     cfg_sa_add_cfg_item_parsed env s st =
       (case parse_sa_tokens (ce_sa env) True toks (cf_sa st) of (db, e) \<Rightarrow> (st\<lparr>cf_sa := db\<rparr>, map_option Bad_status e))"
  by (auto simp: cfg_sa_add_cfg_item_parsed_def sa_room_def extend_room split: list.splits prod.splits)

lemma cfg_sa_ok:
  assumes "cfg_ok st" and "ce_mem env" and "cfg_sa_add_cfg_item_parsed env s st = (st', None)"
  shows "cfg_ok st'"
proof -
  obtain toks ok db where t: "parse_tokenize_string 32 s = (toks, ok)"
    and p: "parse_sa_tokens (ce_sa env) True toks (cf_sa st) = (db, None)" and st': "st' = st\<lparr>cf_sa := db\<rparr>"
    using assms(2,3) by (cases "parse_tokenize_string 32 s") (auto simp: cfg_sa_outcome split: prod.splits)
  have ok: "sa_ok (cf_sa st)" using assms(1) by (simp add: cfg_ok_def)
  from p have "if toks ! 0 = ''in''
      then \<exists>g v. sa_fill (ce_sa env) True INGRESS toks (sas_in (cf_sa st)) (sa_glob_of (sa_in_cnt (cf_sa st)) (cf_sa st)) = (v, g, None) \<and>
        sas_in db = v \<and> sas_out db = sas_out (cf_sa st)
      else \<exists>g v. sa_fill (ce_sa env) True EGRESS toks (sas_out (cf_sa st)) (sa_glob_of (sa_out_cnt (cf_sa st)) (cf_sa st)) = (v, g, None) \<and>
        sas_out db = v \<and> sas_in db = sas_in (cf_sa st)"
    by (auto simp: parse_sa_tokens_def split: if_splits prod.splits)
  then show ?thesis
    using assms(1) ok st' by (auto simp: cfg_ok_def sa_ok_def split: if_splits dest!: sa_fill_accepts [rotated])
qed

lemma cfg_line_ok:
  assumes "cfg_ok st" and "ce_mem env" and "cfg_line env s st = (st', None)"
  shows "cfg_ok st'"
proof (cases "ce_cmdline env s")
  case (Cmd_sp a)
  then show ?thesis
    using assms sp4_rules_of sp6_rules_of
    by (fastforce simp: cfg_line_def cfg_sp_add_cfg_item_parsed_def cfg_ok_def split: prod.splits if_splits list.splits)
next
  case (Cmd_sa a)
  then show ?thesis using assms cfg_sa_ok by (simp add: cfg_line_def)
next
  case (Cmd_rt a)
  then show ?thesis
    using assms by (auto simp: cfg_line_def cfg_rt_add_cfg_item_parsed_def cfg_ok_def dest!: parse_rt_tokens_ok [rotated] split: prod.splits if_splits)
next
  case (Cmd_flow a)
  then show ?thesis
    using assms by (auto simp: cfg_line_def cfg_flow_add_cfg_item_parsed_def cfg_ok_def dest!: parse_flow_tokens_outcome split: prod.splits if_splits)
next
  case (Cmd_neigh p a)
  then show ?thesis
    using assms by (auto simp: cfg_line_def cfg_parse_neigh_def cfg_ok_def split: prod.splits sum.splits)
qed (use assms in \<open>auto simp: cfg_line_def\<close>)

lemma cfg_loop_ok: "cfg_loop env f str st = Inr st' \<Longrightarrow> cfg_ok st \<Longrightarrow> ce_mem env \<Longrightarrow> cfg_ok st'"
proof (induction env f str st rule: cfg_loop.induct)
  case (1 env f str st)
  show ?case
  proof (cases "fgets1024 f")
    case None
    then show ?thesis using "1.prems" by (subst (asm) cfg_loop.simps) simp
  next
    case (Some cf)
    obtain chunk f' where cf: "cf = (chunk, f')" by force
    note step = "1.prems"(1) [unfolded cfg_loop.simps [of env f str st]]
    show ?thesis
    proof (cases "line_of str chunk")
      case Skipped
      then show ?thesis using "1.IH"(1) [OF Some cf [symmetric] Skipped] step "1.prems"(2,3) Some cf by simp
    next
      case (Continued s)
      then show ?thesis using "1.IH"(2) [OF Some cf [symmetric] Continued] step "1.prems"(2,3) Some cf by simp
    next
      case (Complete s)
      obtain st1 where c: "cfg_line env s st = (st1, None)"
        using step Some cf Complete by (auto split: prod.splits option.splits)
      then have "cfg_loop env f' [] st1 = Inr st'" using step Some cf Complete by simp
      then show ?thesis
        using "1.IH"(3) [OF Some cf [symmetric] Complete c [symmetric] refl] cfg_line_ok [OF "1.prems"(2,3) c] "1.prems"(3) by simp
    next
      case (Broken e)
      then show ?thesis using step Some cf by simp
    qed
  qed
qed

lemma sort_cfg_elems:
  assumes "cfg_ok st"
  shows "cfg_ok (sort_cfg st) \<and>
    vec_elems (sas_in (cf_sa (sort_cfg st))) = c_qsort sa_cmp (vec_elems (sas_in (cf_sa st))) \<and>
    vec_elems (sas_out (cf_sa (sort_cfg st))) = c_qsort sa_cmp (vec_elems (sas_out (cf_sa st)))"
  using assms
  by (auto simp: cfg_ok_def sort_cfg_def sa_sort_arr_def sa_ok_def vec_set_elems_ok length_vec_elems sp4_sort_elems
      sp6_sort_elems)

text \<open>On a sorted table the search by SPI decides membership when the SPIs lie in one half of the circle.\<close>

lemma sa_search_decides:
  assumes "spi_window b (insert w (spi ` set xs))" and "n = length xs"
  shows "(\<exists>i. sa_spi_present (c_qsort sa_cmp xs) w n = Some i) \<longleftrightarrow> w \<in> spi ` set xs"
proof -
  let ?s = "c_qsort sa_cmp xs" and ?t = "zero_sa\<lparr>spi := w\<rparr>"
  have win: "spi_window b (spi ` set (?t # ?s))" using assms(1) by simp
  have "sorted (map (\<lambda>x. unat (spi x - b)) ?s)"
    using assms(1) by (intro sa_ord.qsort_sorted) (simp add: spi_window_def)
  from sa_ord.bsearch_decides [OF win this] show ?thesis using assms(2) by (simp add: sa_spi_present_def)
qed

text \<open>C29. After a configuration file was accepted every table is well formed; every SA of the inbound table is a
  well-formed ingress SA with a valid SPI, and likewise for the outbound table; and the search by SPI
  that the policies and the lookups rest on finds an SA exactly for the SPIs configured, as long as they
  lie in one half of the 32-bit circle.
\<close>

theorem parse_cfg_file_sound:
  assumes "parse_cfg_file env file st = Inr st'" and "cfg_ok st" and "ce_mem env"
  shows "cfg_ok st' \<and>
    (\<forall>sas \<in> {vec_elems (sas_in (cf_sa st')), vec_elems (sas_out (cf_sa st'))}. \<forall>b w.
       spi_window b (insert w (spi ` set sas)) \<longrightarrow>
       ((\<exists>i. sa_spi_present sas w (length sas) = Some i) \<longleftrightarrow> w \<in> spi ` set sas))"
proof -
  obtain f st1 where "cfg_loop env f [] st = Inr st1" and st': "st' = sort_cfg st1"
    using assms(1) by (auto simp: parse_cfg_file_def split: option.splits if_splits sum.splits)
  then have ok: "cfg_ok st1" using cfg_loop_ok assms(2,3) by blast
  show ?thesis
    using sort_cfg_elems [OF ok] sa_search_decides unfolding st'
    by auto
qed

lemma empty_cfg_ok: "cfg_ok empty_cfg"
  by (simp add: cfg_ok_def empty_cfg_def sa_ok_def sa_empty_def rt_ok_def empty_rt_def FLOW_RULES_MAX_def)

text \<open>A file with one SA, for a command interpreter that knows SA lines.\<close>

definition sa_line :: string where
  "sa_line = ''sa in 5 cipher_algo null auth_algo null mode transport''"

definition sa_cfg_env :: cfg_env where
  "sa_cfg_env = \<lparr>ce_sa = \<lparr>env_inet = sample_inet, env_rand = 9, env_lib_enabled = True\<rparr>, ce_mem = True, ce_stack = (\<lambda>_ _. 0xCC),
     ce_cmdline = (\<lambda>s. if take 3 s = ''sa '' then Cmd_sa (drop 3 s) else Cmd_fail), ce_cl_ok = True\<rparr>"

lemma sa_line_parses: "\<exists>st'. parse_cfg_file sa_cfg_env (Some (sa_line @ [nl])) empty_cfg = Inr st'"
proof -
  let ?g = "\<lparr>ct_comments = [], ct_parts = [], ct_last = sa_line, ct_tail = None\<rparr>"
  let ?toks = "[''in'', ''5'', ''cipher_algo'', ''null'', ''auth_algo'', ''null'', ''mode'', ''transport'']"
  have five: "is_str_num ''5''" "atoi ''5'' = 5"
    by (simp_all add: is_str_num_def isdigit_def atoi_def strtol10_def isspace_def digit_val_def)
  have algs: "find_match_cipher_algo ''null'' = Some (cipher_algos ! 0)" "find_match_auth_algo ''null'' = Some (auth_algos ! 0)"
    by (simp_all add: find_match_cipher_algo_def find_match_auth_algo_def cipher_algos_def auth_algos_def)
  have tok: "parse_tokenize_string 32 (drop 3 (sa_line @ [nl, nl])) = (?toks, True)" by code_simp
  obtain db e where p: "parse_sa_tokens (ce_sa sa_cfg_env) True ?toks sa_empty = (db, e)" by force
  then have "e = None"
    by (auto simp: parse_sa_tokens_def sa_empty_def sa_fill_def extend_sa_arr_def extend_arr_def five algs
        vec_empty_def vec_slot_def SA_INIT_NB_def sa_loop.simps sa_step_def sa_tok_cipher_def sa_tok_auth_def
        sa_tok_mode_def app_check_def next_token_def sa_start_def sa_setters sa_finish_def Let_def
        cipher_algos_def auth_algos_def)
  then have "cfg_line sa_cfg_env (logical ?g) empty_cfg = (empty_cfg\<lparr>cf_sa := db\<rparr>, None)"
    using tok p by (simp add: cfg_line_def sa_cfg_env_def logical_def sa_line_def cfg_sa_add_cfg_item_parsed_def empty_cfg_def)
  moreover have "text_ok ?g" by (simp add: text_ok_def sa_line_def plain_def line_end_def)
  moreover have "cfg_loop env [] [] st = Inr st" for env st by (subst cfg_loop.simps) (simp add: fgets1024_def)
  ultimately show ?thesis
    using loop_render [of ?g sa_cfg_env "[]" empty_cfg]
    by (simp add: parse_cfg_file_def render_def line_end_def) (simp add: sa_cfg_env_def)
qed

theorem parse_cfg_file_sound_witness:
  "\<exists>st'. parse_cfg_file sa_cfg_env (Some (sa_line @ [nl])) empty_cfg = Inr st' \<and> cfg_ok st'"
proof -
  obtain st' where r: "parse_cfg_file sa_cfg_env (Some (sa_line @ [nl])) empty_cfg = Inr st'" using sa_line_parses by blast
  moreover have "ce_mem sa_cfg_env" by (simp add: sa_cfg_env_def)
  ultimately show ?thesis using parse_cfg_file_sound [OF r empty_cfg_ok] by blast
qed

text \<open>
  Ways a file is read otherwise than it looks: text whose last line ends with a backslash is dropped
  without an error, an address of empty fields is taken for zeros, a malformed address is accepted.
\<close>

lemma continuation_lost:
  assumes "plain p" and "length p \<le> 1020" and "ce_cl_ok env"
  shows "parse_cfg_file env (Some (p @ [backslash, nl])) st = Inr (sort_cfg st)"
proof -
  have "cfg_loop env (p @ [backslash, nl]) [] st = cfg_loop env [] p st"
    using loop_parts [of "[p]" "[]" env "[]" st] assms(1,2) by simp
  also have "\<dots> = Inr st" by (subst cfg_loop.simps) (simp add: fgets1024_def)
  finally show ?thesis using assms(3) by (simp add: parse_cfg_file_def)
qed

lemma empty_mac_fields: "parse_mac '':::::'' (replicate 6 b) = ([0, 0, 0, 0, 0, 0], True)"
proof -
  have "mac_loop (replicate 5 (Some CHR '':'') @ [None]) '':::::'' = ([0, 0, 0, 0, 0, 0], True)" by code_simp
  then show ?thesis by (simp add: parse_mac_def)
qed

text \<open>A malformed address on a valid port is accepted: the bytes before the malformed one, then the stack.\<close>

lemma malformed_mac_accepted:
  assumes "unat port < length (cf_eth st)"
  shows "\<exists>es. cfg_parse_neigh env port ''00:11:zz'' st = (st\<lparr>cf_eth := es\<rparr>, None) \<and>
    eth_dst (es ! unat port) = ethaddr_to_uint64 ([0, 0x11] @ map (ce_stack env st) [2, 3, 4, 5])"
proof -
  have "mac_loop (replicate 5 (Some CHR '':'') @ [None]) ''00:11:zz'' = ([0, 0x11], False)" by code_simp
  moreover have six: "[0..<6] = [0, 1, 2, 3, 4, 5 :: nat]" by code_simp
  ultimately have m: "parse_mac ''00:11:zz'' (map (ce_stack env st) [0..<6]) = ([0, 0x11] @ map (ce_stack env st) [2, 3, 4, 5], False)"
    by (simp add: parse_mac_def six)
  show ?thesis using assms by (auto simp: cfg_parse_neigh_def m add_dst_ethaddr_def)
qed

end
