(* ===== verification/Runtime.thy ===== *)
theory Runtime
  imports Setup
begin

text \<open>
  Around the packet path: the statistics of the cores and the telemetry and database reports made
  from them (\<open>ipsec-secgw.h\<close>, \<open>ipsec-secgw.c\<close>), reassembly of fragments on reception, the events of
  devices, the default flow rule and the release of inline sessions. What is sent to the telemetry
  library is the value of a handler; printing is left out.
\<close>

section \<open>Statistics of a core\<close>

record spd_counts =
  protect :: u64
  bypass :: u64
  discard :: u64

record core_stats =
  cs_tx :: u64
  cs_rx :: u64
  cs_rx_call :: u64
  cs_tx_call :: u64
  cs_dropped :: u64
  cs_burst_rx :: u64
  cs_rx_bytes :: u64
  cs_tx_bytes :: u64
  cs_rx_bytes_old :: u64
  cs_tx_bytes_old :: u64
  out_spd4 :: spd_counts
  out_spd6 :: spd_counts
  out_sad_miss :: u64
  in_spd4 :: spd_counts
  in_spd6 :: spd_counts
  in_sad_miss :: u64
  lpm4_miss :: u64
  lpm6_miss :: u64

definition zero_spd :: spd_counts where "zero_spd = \<lparr>protect = 0, bypass = 0, discard = 0\<rparr>"

definition zero_stats :: core_stats where
  "zero_stats = \<lparr>cs_tx = 0, cs_rx = 0, cs_rx_call = 0, cs_tx_call = 0, cs_dropped = 0, cs_burst_rx = 0,
     cs_rx_bytes = 0, cs_tx_bytes = 0, cs_rx_bytes_old = 0, cs_tx_bytes_old = 0, out_spd4 = zero_spd, out_spd6 = zero_spd,
     out_sad_miss = 0, in_spd4 = zero_spd, in_spd6 = zero_spd, in_sad_miss = 0, lpm4_miss = 0, lpm6_miss = 0\<rparr>"

text \<open>The lengths are those of the first \<open>n\<close> packets of the burst.\<close>

definition core_stats_update_rx :: "nat list \<Rightarrow> core_stats \<Rightarrow> core_stats" where
  "core_stats_update_rx lens s =
     (let n = of_nat (length lens);
          s1 = s\<lparr>cs_rx := cs_rx s + n, cs_rx_call := cs_rx_call s + 1\<rparr>;
          s2 = (if length lens = MAX_PKT_BURST then s1\<lparr>cs_burst_rx := cs_burst_rx s1 + n\<rparr> else s1)
      in fold (\<lambda>l s. s\<lparr>cs_rx_bytes := cs_rx_bytes s + of_nat l\<rparr>) lens s2)"

definition core_stats_update_tx :: "nat list \<Rightarrow> core_stats \<Rightarrow> core_stats" where
  "core_stats_update_tx lens s =
     (let s1 = s\<lparr>cs_tx := cs_tx s + of_nat (length lens), cs_tx_call := cs_tx_call s + 1\<rparr>
      in fold (\<lambda>l s. s\<lparr>cs_tx_bytes := cs_tx_bytes s + of_nat l\<rparr>) lens s1)"

definition core_stats_update_drop :: "nat \<Rightarrow> core_stats \<Rightarrow> core_stats" where
  "core_stats_update_drop n s = s\<lparr>cs_dropped := cs_dropped s + of_nat n\<rparr>"

section \<open>Totals\<close>

definition add_spd :: "spd_counts \<Rightarrow> spd_counts \<Rightarrow> spd_counts" where
  "add_spd t s = \<lparr>protect = protect t + protect s, bypass = bypass t + bypass s, discard = discard t + discard s\<rparr>"

text \<open>\<open>update_lcore_statistics\<close>: the packet counts are assigned, the others are added.\<close>

definition update_lcore_statistics :: "sys_env \<Rightarrow> (nat \<Rightarrow> core_stats) \<Rightarrow> nat \<Rightarrow> core_stats \<Rightarrow> core_stats" where
  "update_lcore_statistics sys stats core t =
     (if \<not> sy_lcore sys core then t
      else let s = stats core in
        t\<lparr>cs_rx := cs_rx s, cs_dropped := cs_dropped s, cs_tx := cs_tx s,
          out_spd6 := add_spd (out_spd6 t) (out_spd6 s), out_spd4 := add_spd (out_spd4 t) (out_spd4 s),
          out_sad_miss := out_sad_miss t + out_sad_miss s,
          in_spd6 := add_spd (in_spd6 t) (in_spd6 s), in_spd4 := add_spd (in_spd4 t) (in_spd4 s),
          in_sad_miss := in_sad_miss t + in_sad_miss s,
          lpm4_miss := lpm4_miss t + lpm4_miss s, lpm6_miss := lpm6_miss t + lpm6_miss s\<rparr>)"

text \<open>\<open>None\<close> stands for \<open>UINT32_MAX\<close>, all cores.\<close>

definition update_statistics :: "sys_env \<Rightarrow> (nat \<Rightarrow> core_stats) \<Rightarrow> nat option \<Rightarrow> core_stats" where
  "update_statistics sys stats core =
     (case core of
        Some c \<Rightarrow> update_lcore_statistics sys stats c zero_stats
      | None \<Rightarrow> fold (update_lcore_statistics sys stats) [0..<sy_max_lcore sys] zero_stats)"

section \<open>Telemetry\<close>

datatype tel = Num u64 | Dict "(string \<times> tel) list"

text \<open>The core a request names: \<open>atoi\<close> of its parameter; all cores without one.\<close>

definition tel_core :: "sys_env \<Rightarrow> string option \<Rightarrow> errno + nat option" where
  "tel_core sys params =
     (case params of
        None \<Rightarrow> Inr None
      | Some s \<Rightarrow> (let c = unat (atoi s) in if \<not> sy_lcore sys c then Inl EINVAL else Inr (Some c)))"

definition handle_telemetry_cmd_ipsec_secgw_stats ::
  "sys_env \<Rightarrow> (nat \<Rightarrow> core_stats) \<Rightarrow> string option \<Rightarrow> errno + tel" where
  "handle_telemetry_cmd_ipsec_secgw_stats sys stats params =
     (case tel_core sys params of
        Inl e \<Rightarrow> Inl e
      | Inr core \<Rightarrow>
          (let cores = (case core of Some c \<Rightarrow> [c] | None \<Rightarrow> filter (sy_lcore sys) [0..<sy_max_lcore sys]);
               total = (\<lambda>f. sum_list (map (\<lambda>c. f (stats c)) cores))
           in Inr (Dict [(''packets received'', Num (total cs_rx)), (''packets transmitted'', Num (total cs_tx)),
                         (''packets dropped'', Num (total cs_dropped))])))"

definition spd_dict :: "spd_counts \<Rightarrow> tel" where
  "spd_dict s = Dict [(''protect'', Num (protect s)), (''bypass'', Num (bypass s)), (''discard'', Num (discard s))]"

definition miss_dict :: "u64 \<Rightarrow> tel" where
  "miss_dict n = Dict [(''miss'', Num n)]"

text \<open>\<open>mem_ok\<close>: the allocation of the containers succeeded.\<close>

definition handle_telemetry_cmd_ipsec_secgw_stats_outbound ::
  "sys_env \<Rightarrow> (nat \<Rightarrow> core_stats) \<Rightarrow> bool \<Rightarrow> string option \<Rightarrow> errno + tel" where
  "handle_telemetry_cmd_ipsec_secgw_stats_outbound sys stats mem_ok params =
     (if \<not> mem_ok then Inl ENOMEM
      else case tel_core sys params of
        Inl e \<Rightarrow> Inl e
      | Inr core \<Rightarrow>
          (let t = update_statistics sys stats core
           in Inr (Dict [(''spd4'', spd_dict (out_spd4 t)), (''spd6'', spd_dict (out_spd6 t)), (''sad'', miss_dict (out_sad_miss t))])))"

definition handle_telemetry_cmd_ipsec_secgw_stats_inbound ::
  "sys_env \<Rightarrow> (nat \<Rightarrow> core_stats) \<Rightarrow> bool \<Rightarrow> string option \<Rightarrow> errno + tel" where
  "handle_telemetry_cmd_ipsec_secgw_stats_inbound sys stats mem_ok params =
     (if \<not> mem_ok then Inl ENOMEM
      else case tel_core sys params of
        Inl e \<Rightarrow> Inl e
      | Inr core \<Rightarrow>
          (let t = update_statistics sys stats core
           in Inr (Dict [(''sad'', miss_dict (in_sad_miss t)), (''spd4'', spd_dict (in_spd4 t)), (''spd6'', spd_dict (in_spd6 t))])))"

definition handle_telemetry_cmd_ipsec_secgw_stats_routing ::
  "sys_env \<Rightarrow> (nat \<Rightarrow> core_stats) \<Rightarrow> bool \<Rightarrow> string option \<Rightarrow> errno + tel" where
  "handle_telemetry_cmd_ipsec_secgw_stats_routing sys stats mem_ok params =
     (if \<not> mem_ok then Inl ENOMEM
      else case tel_core sys params of
        Inl e \<Rightarrow> Inl e
      | Inr core \<Rightarrow>
          (let t = update_statistics sys stats core
           in Inr (Dict [(''IPv4 LPM'', miss_dict (lpm4_miss t)), (''IPv6 LPM'', miss_dict (lpm6_miss t))])))"

section \<open>The periodic report\<close>

text \<open>
  \<open>print_stats_cb\<close> without the printing: it takes the growth of the byte counts of each enabled core
  since the last report, in whole megabits, and sums up over the cores below the number of ports.
\<close>

record report =
  rep_rx :: u64
  rep_tx :: u64
  rep_dropped :: u64
  rep_rx_bytes :: u64
  rep_tx_bytes :: u64
  rep_rates :: "(nat \<times> u64 \<times> u64) list"

definition mbits :: "u64 \<Rightarrow> u64" where
  "mbits bytes = bytes * 8 div 1000000"

definition report_core :: "sys_env \<Rightarrow> nat \<Rightarrow> (nat \<Rightarrow> core_stats) \<times> report \<Rightarrow> (nat \<Rightarrow> core_stats) \<times> report" where
  "report_core sys core sr =
     (case sr of (stats, r) \<Rightarrow>
      if \<not> sy_lcore sys core then (stats, r)
      else let s = stats core in
        (stats(core := s\<lparr>cs_rx_bytes_old := cs_rx_bytes s, cs_tx_bytes_old := cs_tx_bytes s\<rparr>),
         r\<lparr>rep_rx := rep_rx r + cs_rx s, rep_tx := rep_tx r + cs_tx s, rep_dropped := rep_dropped r + cs_dropped s,
           rep_rx_bytes := rep_rx_bytes r + cs_rx_bytes s, rep_tx_bytes := rep_tx_bytes r + cs_tx_bytes s,
           rep_rates := rep_rates r @ [(core, mbits (cs_rx_bytes s - cs_rx_bytes_old s), mbits (cs_tx_bytes s - cs_tx_bytes_old s))]\<rparr>))"

definition print_stats_cb :: "sys_env \<Rightarrow> nat \<Rightarrow> (nat \<Rightarrow> core_stats) \<Rightarrow> (nat \<Rightarrow> core_stats) \<times> report" where
  "print_stats_cb sys total_ports stats =
     fold (report_core sys) [0..<total_ports]
       (stats, \<lparr>rep_rx = 0, rep_tx = 0, rep_dropped = 0, rep_rx_bytes = 0, rep_tx_bytes = 0, rep_rates = []\<rparr>)"

text \<open>\<open>bytesNormalize\<close>: the unit, and the divisor of the number printed.\<close>

datatype byte_unit = Gigabytes | Megabytes | Kilobytes | Plain_bytes

definition bytesNormalize :: "u64 \<Rightarrow> byte_unit" where
  "bytesNormalize b = (if 1000000000 < b then Gigabytes else if 1000000 < b then Megabytes else if 1000 < b then Kilobytes else Plain_bytes)"

section \<open>Reassembly on reception\<close>

text \<open>
  A received buffer: its bytes from the Ethernet header on and the header lengths stored in it. The
  fragment table is the library's (\<open>frag_api\<close>): the test for fragments, the place of an IPv6
  fragment header, and adding a fragment, which gives the whole packet when it is complete.
\<close>

record rx_buf =
  rb_bytes :: "u8 list"
  rb_l2_len :: nat
  rb_l3_len :: nat

record 'f frag_api =
  fr_is_frag4 :: "u8 list \<Rightarrow> bool"
  fr_hdr6 :: "u8 list \<Rightarrow> nat option"
  fr_add4 :: "'f \<Rightarrow> rx_buf \<Rightarrow> rx_buf option \<times> 'f"
  fr_add6 :: "'f \<Rightarrow> rx_buf \<Rightarrow> rx_buf option \<times> 'f"
  fr_cksum :: "u8 list \<Rightarrow> u16"

text \<open>The header checksum is cleared and then set to what the library computes.\<close>

definition fix_cksum :: "'f frag_api \<Rightarrow> rx_buf \<Rightarrow> rx_buf" where
  "fix_cksum fr b =
     (let i = rb_l2_len b + 10; z = put_bytes i [0, 0] (rb_bytes b)
      in b\<lparr>rb_bytes := put_le16 i (fr_cksum fr (drop (rb_l2_len b) z)) z\<rparr>)"

definition rx_one :: "'f frag_api \<Rightarrow> rx_buf \<Rightarrow> 'f \<Rightarrow> errno + (rx_buf option \<times> bool \<times> 'f)" where
  "rx_one fr b f =
     (if length (rb_bytes b) < 14 then Inl UB
      else
        (let ty = be16_at (rb_bytes b) 12; ip = drop 14 (rb_bytes b) in
         if ty = 0x0800 then
           (if fr_is_frag4 fr ip then
              (case fr_add4 fr f (b\<lparr>rb_l2_len := 14, rb_l3_len := 20\<rparr>) of
                 (r, f') \<Rightarrow> Inr (map_option (fix_cksum fr) r, True, f'))
            else Inr (Some b, False, f))
         else if ty = 0x86DD then
           (case fr_hdr6 fr ip of
              None \<Rightarrow> Inr (Some b, False, f)
            | Some off \<Rightarrow>
                (case fr_add6 fr f (b\<lparr>rb_l2_len := 14, rb_l3_len := off + 8\<rparr>) of
                   (r, f') \<Rightarrow> Inr (map_option (\<lambda>m. m\<lparr>rb_l3_len := rb_l3_len m - 8\<rparr>) r, True, f')))
         else Inr (Some b, False, f)))"

text \<open>The buffers kept, in order, and whether the death row is drained.\<close>

fun rx_callback :: "'f frag_api \<Rightarrow> rx_buf list \<Rightarrow> 'f \<Rightarrow> errno + (rx_buf list \<times> bool \<times> 'f)" where
  "rx_callback fr [] f = Inr ([], False, f)"
| "rx_callback fr (b # bs) f =
     (case rx_one fr b f of
        Inl e \<Rightarrow> Inl e
      | Inr (r, s, f1) \<Rightarrow>
          (case rx_callback fr bs f1 of
             Inl e \<Rightarrow> Inl e
           | Inr (out, s', f2) \<Rightarrow> Inr ((case r of None \<Rightarrow> out | Some m \<Rightarrow> m # out), s \<or> s', f2)))"

text \<open>
  \<open>reassemble_lcore_init\<close>: the life time of a fragment in cycles, the table, and a callback for each
  receive queue; \<open>reassemble_init\<close> does so for each entry of the mapping, so that a core with several
  queues gets as many tables and installs each callback as often.
\<close>

definition frag_cycles :: "u64 \<Rightarrow> u64 \<Rightarrow> u64" where
  "frag_cycles hz ttl_ns = (hz + 999999999) div 1000000000 * ttl_ns"

record reasm =
  ra_tables :: "nat list"
  ra_callbacks :: "(nat \<times> u16 \<times> u8) list"

fun add_callbacks :: "(u16 \<Rightarrow> u8 \<Rightarrow> bool) \<Rightarrow> nat \<Rightarrow> (u16 \<times> u8) list \<Rightarrow> reasm \<Rightarrow> reasm \<times> errno option" where
  "add_callbacks cb l [] r = (r, None)"
| "add_callbacks cb l ((p, q) # qs) r =
     (if cb p q then add_callbacks cb l qs (r\<lparr>ra_callbacks := ra_callbacks r @ [(l, p, q)]\<rparr>) else (r, Some ENOMEM))"

definition reassemble_lcore_init ::
  "(nat \<Rightarrow> u64 \<Rightarrow> bool) \<Rightarrow> (u16 \<Rightarrow> u8 \<Rightarrow> bool) \<Rightarrow> u64 \<Rightarrow> rx_queues \<Rightarrow> nat \<Rightarrow> reasm \<Rightarrow> reasm \<times> errno option" where
  "reassemble_lcore_init table cb cycles rxq l r =
     (if \<not> table l cycles then (r, Some ENOMEM)
      else add_callbacks cb l (rxq l) (r\<lparr>ra_tables := ra_tables r @ [l]\<rparr>))"

fun reassemble_init ::
  "(nat \<Rightarrow> u64 \<Rightarrow> bool) \<Rightarrow> (u16 \<Rightarrow> u8 \<Rightarrow> bool) \<Rightarrow> u64 \<Rightarrow> rx_queues \<Rightarrow> lcore_params list \<Rightarrow> reasm \<Rightarrow> reasm \<times> errno option" where
  "reassemble_init table cb cycles rxq [] r = (r, None)"
| "reassemble_init table cb cycles rxq (lp # lps) r =
     (case reassemble_lcore_init table cb cycles rxq (unat (lp_lcore lp)) r of
        (r', Some e) \<Rightarrow> (r', Some e)
      | (r', None) \<Rightarrow> reassemble_init table cb cycles rxq lps r')"

section \<open>Device events and inline sessions\<close>

text \<open>
  \<open>udata\<close> gives the SA registered with the session of the event's metadata. The value is the
  return value, 0 or -1.
\<close>

datatype ipsec_event = Esn_overflow | Other_event | Event_max

definition inline_ipsec_event_esn_overflow :: "(u64 \<Rightarrow> nat option) \<Rightarrow> u64 \<Rightarrow> int" where
  "inline_ipsec_event_esn_overflow udata md = (case udata md of None \<Rightarrow> - 1 | Some sa \<Rightarrow> 0)"

definition inline_ipsec_event_callback :: "(u64 \<Rightarrow> nat option) \<Rightarrow> bool \<Rightarrow> (u64 \<times> ipsec_event) option \<Rightarrow> int" where
  "inline_ipsec_event_callback udata is_ipsec desc =
     (if \<not> is_ipsec then - 1
      else case desc of
        None \<Rightarrow> - 1
      | Some (md, Esn_overflow) \<Rightarrow> inline_ipsec_event_esn_overflow udata md
      | Some (md, _) \<Rightarrow> - 1)"

text \<open>The default rule for ESP traffic of a port, recorded when the device took it.\<close>

definition create_default_ipsec_flow :: "bool \<Rightarrow> bool \<Rightarrow> bool \<Rightarrow> u16 \<Rightarrow> (u16 \<Rightarrow> bool) \<Rightarrow> (u16 \<Rightarrow> bool)" where
  "create_default_ipsec_flow rx_security validates created port def_flow =
     (if \<not> rx_security then def_flow
      else if \<not> validates then def_flow
      else if \<not> created then def_flow
      else def_flow(port := True))"

text \<open>The sessions destroyed on exit: the handles of the inline SAs on ports still present.\<close>

definition inline_sessions_free :: "(u16 \<Rightarrow> bool) \<Rightarrow> 'd sa_ctx option \<Rightarrow> nat option list" where
  "inline_sessions_free valid ctx =
     (case ctx of
        None \<Rightarrow> []
      | Some c \<Rightarrow> map (\<lambda>sa. ses (primary sa)) (filter (\<lambda>sa. spi sa \<noteq> 0 \<and> is_inline sa \<and> valid (portid sa)) (cs_sa c)))"

section \<open>What the totals are\<close>

text \<open>The counters that are added over the cores.\<close>

definition added_counters :: "core_stats \<Rightarrow> u64 list" where
  "added_counters s =
     [protect (out_spd4 s), bypass (out_spd4 s), discard (out_spd4 s),
      protect (out_spd6 s), bypass (out_spd6 s), discard (out_spd6 s), out_sad_miss s,
      protect (in_spd4 s), bypass (in_spd4 s), discard (in_spd4 s),
      protect (in_spd6 s), bypass (in_spd6 s), discard (in_spd6 s), in_sad_miss s, lpm4_miss s, lpm6_miss s]"

lemma added_counters_step:
  "i < 16 \<Longrightarrow> added_counters (update_lcore_statistics sys stats c t) ! i =
     added_counters t ! i + (if sy_lcore sys c then added_counters (stats c) ! i else 0)"
  by (auto simp: update_lcore_statistics_def added_counters_def add_spd_def Let_def numeral_eq_Suc less_Suc_eq)

lemma added_counters_fold:
  "i < 16 \<Longrightarrow> added_counters (fold (update_lcore_statistics sys stats) cs t) ! i =
     added_counters t ! i + sum_list (map (\<lambda>c. added_counters (stats c) ! i) (filter (sy_lcore sys) cs))"
  by (induction cs arbitrary: t) (simp_all add: added_counters_step)

lemma counts_fold:
  "map (\<lambda>f. f (fold (update_lcore_statistics sys stats) cs t)) [cs_rx, cs_tx, cs_dropped] =
     (let en = filter (sy_lcore sys) cs
      in map (\<lambda>f. f (if en = [] then t else stats (last en))) [cs_rx, cs_tx, cs_dropped])"
  by (induction cs arbitrary: t) (auto simp: update_lcore_statistics_def Let_def)

text \<open>
  The statistics of all cores: each policy, database and route counter of the total is the sum of
  the counters of the enabled cores, modulo \<open>2 ^ 64\<close>; but the packet counts of the total (received,
  sent, dropped) are those of the last enabled core alone.
\<close>

theorem update_statistics_totals:
  "(\<forall>i<16. added_counters (update_statistics sys stats None) ! i =
      sum_list (map (\<lambda>c. added_counters (stats c) ! i) (filter (sy_lcore sys) [0..<sy_max_lcore sys]))) \<and>
   map (\<lambda>f. f (update_statistics sys stats None)) [cs_rx, cs_tx, cs_dropped] =
     (let en = filter (sy_lcore sys) [0..<sy_max_lcore sys]
      in map (\<lambda>f. f (if en = [] then zero_stats else stats (last en))) [cs_rx, cs_tx, cs_dropped])"
proof -
  have z: "added_counters zero_stats ! i = 0" if "i < 16" for i
    using that by (auto simp: added_counters_def zero_stats_def zero_spd_def numeral_eq_Suc less_Suc_eq)
  show ?thesis
    using added_counters_fold [of _ sys stats "[0..<sy_max_lcore sys]" zero_stats] z
      counts_fold [of sys stats "[0..<sy_max_lcore sys]" zero_stats]
    by (simp add: update_statistics_def)
qed

lemma update_statistics_totals_witness:
  "cs_rx (update_statistics \<lparr>sy_lcore = (\<lambda>l. l < 2), sy_port = (\<lambda>_. True), sy_max_lcore = 4\<rparr>
     (\<lambda>l. zero_stats\<lparr>cs_rx := of_nat (10 * l), lpm4_miss := 7\<rparr>) None) = 10"
  using update_statistics_totals [of "\<lparr>sy_lcore = (\<lambda>l. l < 2), sy_port = (\<lambda>_. True), sy_max_lcore = 4\<rparr>"
      "\<lambda>l. zero_stats\<lparr>cs_rx := of_nat (10 * l), lpm4_miss := 7\<rparr>", THEN conjunct2]
  by (simp add: numeral_eq_Suc)

section \<open>What reassembly keeps\<close>

definition is_fragment :: "'f frag_api \<Rightarrow> rx_buf \<Rightarrow> bool" where
  "is_fragment fr b \<longleftrightarrow>
     (be16_at (rb_bytes b) 12 = 0x0800 \<and> fr_is_frag4 fr (drop 14 (rb_bytes b))) \<or>
     (be16_at (rb_bytes b) 12 = 0x86DD \<and> fr_hdr6 fr (drop 14 (rb_bytes b)) \<noteq> None)"

lemma rx_one_whole: "14 \<le> length (rb_bytes b) \<Longrightarrow> \<not> is_fragment fr b \<Longrightarrow> rx_one fr b f = Inr (Some b, False, f)"
  by (auto simp: rx_one_def is_fragment_def Let_def split: option.splits)

lemma rx_one_frag:
  "rx_one fr b f = Inr (r, s, f') \<Longrightarrow> is_fragment fr b \<Longrightarrow> s"
  by (auto simp: rx_one_def is_fragment_def Let_def split: option.splits if_splits prod.splits)

text \<open>Without fragments a burst passes unchanged; it always gets through, and never grows.\<close>

lemma rx_callback_ok:
  assumes "\<forall>b \<in> set bs. 14 \<le> length (rb_bytes b)"
  shows "\<exists>out s f'. rx_callback fr bs f = Inr (out, s, f') \<and> length out \<le> length bs \<and>
    (s \<longleftrightarrow> (\<exists>b \<in> set bs. is_fragment fr b)) \<and> (\<not> s \<longrightarrow> out = bs \<and> f' = f)"
  using assms
proof (induction bs arbitrary: f)
  case (Cons b bs)
  show ?case
  proof (cases "is_fragment fr b")
    case False
    obtain out s f' where "rx_callback fr bs f = Inr (out, s, f') \<and> length out \<le> length bs \<and>
      (s \<longleftrightarrow> (\<exists>b \<in> set bs. is_fragment fr b)) \<and> (\<not> s \<longrightarrow> out = bs \<and> f' = f)"
      using Cons.IH [of f] Cons.prems by auto
    then show ?thesis using Cons.prems False by (auto simp: rx_one_whole)
  next
    case True
    have "\<exists>r s f1. rx_one fr b f = Inr (r, s, f1)"
      using Cons.prems by (auto simp: rx_one_def Let_def split: option.splits prod.splits)
    then obtain r f1 where r: "rx_one fr b f = Inr (r, True, f1)" using rx_one_frag True by fastforce
    obtain out s f' where "rx_callback fr bs f1 = Inr (out, s, f') \<and> length out \<le> length bs"
      using Cons.IH [of f1] Cons.prems by auto
    then show ?thesis using r True by (auto split: option.splits)
  qed
qed auto

end
