(* ===== verification/Kni.thy ===== *)
theory Kni
  imports Worker
begin

text \<open>
  The kernel network interface, \<open>ngtl/kni/kni.c\<close>: its configuration, the creation of the interfaces,
  the requests of the kernel (MTU, link, address), and the loops of the two cores that serve it. The
  devices and the KNI library are parameters: what a call answers may depend on all calls before it.
  A NULL pointer is \<open>None\<close>, an access C leaves undefined is \<open>UB\<close>, and \<open>rte_exit\<close> is a value of its own.
\<close>

section \<open>Ports of the interface\<close>

definition KNI_MAX_KTHREAD :: nat where "KNI_MAX_KTHREAD = 32"

record kni_port =
  kp_port :: u16
  kp_lcore_rx :: u32
  kp_lcore_tx :: u32
  kp_lcore_k :: "u32 list"
  kp_kni :: "nat list"

text \<open>
  The lists hold the used entries of the two arrays: their lengths are \<open>nb_lcore_k\<close> and, once the
  interfaces exist, \<open>nb_kni\<close>.
\<close>

type_synonym kni_params = "nat \<Rightarrow> kni_port option"

text \<open>
  \<open>parse_config_kni\<close>: the text between parentheses, split at commas into at most 35 fields. The
  numbers are cut to the width of the fields they are stored in; \<open>mem\<close> is whether memory is granted.
\<close>

definition kni_number :: "string \<Rightarrow> int" where
  "kni_number s = fst (strtoul 0 s)"

definition kni_entry :: "bool \<Rightarrow> string list \<Rightarrow> kni_params \<Rightarrow> errno + kni_params" where
  "kni_entry mem flds ps =
     (case map kni_number flds of
        a # b # c # ks \<Rightarrow>
          (let port = (of_int a :: u16) in
           if RTE_MAX_ETHPORTS \<le> unat port then Inl EFAIL
           else if ps (unat port) \<noteq> None then Inl EFAIL
           else if \<not> mem then Inl UB
           else Inr (ps(unat port \<mapsto>
             \<lparr>kp_port = port, kp_lcore_rx = ucast (of_int b :: u8), kp_lcore_tx = ucast (of_int c :: u8),
              kp_lcore_k = map (\<lambda>k. ucast (of_int k :: u8)) (take KNI_MAX_KTHREAD ks), kp_kni = []\<rparr>)))
      | _ \<Rightarrow> Inl EFAIL)"

function kni_config_loop :: "(string \<Rightarrow> string list) \<Rightarrow> bool \<Rightarrow> string \<Rightarrow> kni_params \<Rightarrow> errno + kni_params" where
  "kni_config_loop split mem s ps =
     (case dropWhile (\<lambda>c. c \<noteq> CHR ''('') s of
        [] \<Rightarrow> Inr ps
      | _ # p \<Rightarrow>
          (case dropWhile (\<lambda>c. c \<noteq> CHR '')'') p of
             [] \<Rightarrow> Inl EFAIL
           | c # p0 \<Rightarrow>
               (let e = takeWhile (\<lambda>c. c \<noteq> CHR '')'') p in
                if 256 \<le> length e then Inl EFAIL
                else case kni_entry mem (split e) ps of
                  Inl er \<Rightarrow> Inl er
                | Inr ps' \<Rightarrow> kni_config_loop split mem (c # p0) ps')))"
  by pat_completeness auto
termination
proof (relation "measure (\<lambda>(split, mem, s, ps). length s)", goal_cases)
  case (2 split mem s ps a p c p0 e ps')
  have "length (dropWhile (\<lambda>c. c \<noteq> CHR ''('') s) \<le> length s" "length (dropWhile (\<lambda>c. c \<noteq> CHR '')'') p) \<le> length p"
    by (rule length_dropWhile_le)+
  then show ?case using 2 by simp
qed simp

declare kni_config_loop.simps [simp del]

definition parse_config_kni :: "(string \<Rightarrow> string list) \<Rightarrow> bool \<Rightarrow> string \<Rightarrow> errno + kni_params" where
  "parse_config_kni split mem s = kni_config_loop split mem s (\<lambda>_. None)"

text \<open>The number of interfaces the library is told to expect.\<close>

definition kni_count :: "kni_port \<Rightarrow> nat" where
  "kni_count p = (if kp_lcore_k p \<noteq> [] then length (kp_lcore_k p) else 1)"

definition init_kni :: "kni_params \<Rightarrow> nat" where
  "init_kni ps = sum_list (map (\<lambda>i. case ps i of None \<Rightarrow> 0 | Some p \<Rightarrow> kni_count p) [0..<RTE_MAX_ETHPORTS])"

section \<open>Creating the interfaces\<close>

record kni_conf =
  kc_name :: string
  kc_core :: "u32 option"
  kc_group :: u16
  kc_mbuf_size :: nat
  kc_mac :: "u8 list"
  kc_mtu :: u16
  kc_min_mtu :: u16
  kc_max_mtu :: u16
  kc_ops :: "u16 option"

text \<open>\<open>None\<close> in \<open>kc_core\<close> is an unbound thread, in \<open>kc_ops\<close> that no operations are registered.\<close>

record kni_lib =
  kl_info :: "u16 \<Rightarrow> (u16 \<times> u16) option"
  kl_macaddr :: "u16 \<Rightarrow> bool"
  kl_mtu :: "u16 \<Rightarrow> u16 option"
  kl_alloc :: "nat list \<Rightarrow> kni_conf \<Rightarrow> nat option"

datatype kni_exit = Kx_no_pool | Kx_config | Kx_info | Kx_mac | Kx_create | Kx_undefined

definition MAX_PACKET_SZ :: nat where "MAX_PACKET_SZ = 2048"

text \<open>The interface \<open>i\<close> of a port; the first carries the address of the device type and the operations.\<close>

definition kni_conf_of :: "kni_lib \<Rightarrow> u8 list \<Rightarrow> u16 \<Rightarrow> kni_port \<Rightarrow> nat \<Rightarrow> kni_exit + kni_conf" where
  "kni_conf_of lib mac port p i =
     (let threads = (kp_lcore_k p \<noteq> []);
          conf = \<lparr>kc_name = (if threads then ''vEth'' @ show_dec (unat port) @ ''_'' @ show_dec i else ''vEth'' @ show_dec (unat port)),
                  kc_core = (if threads then Some (kp_lcore_k p ! i) else None), kc_group = port,
                  kc_mbuf_size = MAX_PACKET_SZ, kc_mac = replicate 6 0, kc_mtu = 0, kc_min_mtu = 0, kc_max_mtu = 0, kc_ops = None\<rparr>
      in if i \<noteq> 0 then Inr conf
         else case kl_info lib port of
           None \<Rightarrow> Inl Kx_info
         | Some (lo, hi) \<Rightarrow>
             (if \<not> kl_macaddr lib port then Inl Kx_mac
              else Inr (conf\<lparr>kc_mac := mac, kc_mtu := (case kl_mtu lib port of None \<Rightarrow> 0 | Some m \<Rightarrow> m),
                             kc_min_mtu := lo, kc_max_mtu := hi, kc_ops := Some port\<rparr>)))"

fun kni_alloc_loop :: "kni_lib \<Rightarrow> u8 list \<Rightarrow> u16 \<Rightarrow> kni_port \<Rightarrow> nat list \<Rightarrow> nat list \<Rightarrow> kni_exit + nat list" where
  "kni_alloc_loop lib mac port p [] ks = Inr ks"
| "kni_alloc_loop lib mac port p (i # is) ks =
     (case kni_conf_of lib mac port p i of
        Inl e \<Rightarrow> Inl e
      | Inr conf \<Rightarrow>
          (case kl_alloc lib ks conf of
             None \<Rightarrow> Inl Kx_create
           | Some k \<Rightarrow> kni_alloc_loop lib mac port p is (ks @ [k])))"

text \<open>The return value is kept: -1 when the port has no parameters.\<close>

definition kni_alloc :: "kni_lib \<Rightarrow> u8 list \<Rightarrow> u16 \<Rightarrow> kni_params \<Rightarrow> kni_exit + kni_params \<times> int" where
  "kni_alloc lib mac port ps =
     (if RTE_MAX_ETHPORTS \<le> unat port then Inr (ps, - 1)
      else case ps (unat port) of
        None \<Rightarrow> Inr (ps, - 1)
      | Some p \<Rightarrow>
          (case kni_alloc_loop lib mac port p [0..<kni_count p] [] of
             Inl e \<Rightarrow> Inl e
           | Inr ks \<Rightarrow> Inr (ps(unat port \<mapsto> p\<lparr>kp_kni := ks\<rparr>), 0)))"

text \<open>
  \<open>kni_config\<close>, with the cores and the client port of the device type. The result is the number given
  to \<open>rte_kni_init\<close>, which is called before the configuration is read, and the parameters; what
  \<open>kni_alloc\<close> returns is ignored.
\<close>

record encryptor_type =
  dt_client_port :: u8
  dt_kni_rx :: u8
  dt_kni_tx :: u8
  dt_mac :: "u8 list"

definition kni_config_text :: "encryptor_type \<Rightarrow> string" where
  "kni_config_text d = ''(0,'' @ show_dec (unat (dt_kni_rx d)) @ '','' @ show_dec (unat (dt_kni_tx d)) @ '',1)''"

definition kni_config ::
  "kni_lib \<Rightarrow> (string \<Rightarrow> string list) \<Rightarrow> bool \<Rightarrow> encryptor_type \<Rightarrow> bool \<Rightarrow> kni_params \<Rightarrow> kni_exit + nat \<times> kni_params" where
  "kni_config lib split mem d pool ps =
     (if \<not> pool then Inl Kx_no_pool
      else case parse_config_kni split mem (kni_config_text d) of
        Inl UB \<Rightarrow> Inl Kx_undefined
      | Inl e \<Rightarrow> Inl Kx_config
      | Inr ps' \<Rightarrow> map_sum id (\<lambda>(ps'', r). (init_kni ps, ps'')) (kni_alloc lib (dt_mac d) (ucast (dt_client_port d)) ps'))"

section \<open>Requests of the kernel\<close>

datatype dev_op =
    Dev_stop | Dev_configure nat nat u32 | Dev_adjust | Dev_info | Dev_rxq nat | Dev_txq nat | Dev_start
  | Dev_set_mac "u8 list"

text \<open>A call as it is logged: port, operation, what it answered, and the counter \<open>kni_pause\<close> meanwhile.\<close>

type_synonym dev_call = "u16 \<times> dev_op \<times> int \<times> u32"

record kni_dev =
  kd_log :: "dev_call list"
  kd_pause :: u32

record kni_dev_env =
  kd_valid :: "u16 \<Rightarrow> bool"
  kd_answer :: "dev_call list \<Rightarrow> u16 \<Rightarrow> dev_op \<Rightarrow> int"

text \<open>The value of a handler, or the end of the program.\<close>

datatype kni_ret = Ret int | Exit

definition call_dev :: "kni_dev_env \<Rightarrow> u16 \<Rightarrow> dev_op \<Rightarrow> kni_dev \<Rightarrow> int \<times> kni_dev" where
  "call_dev de port op' d =
     (let r = kd_answer de (kd_log d) port op' in (r, d\<lparr>kd_log := kd_log d @ [(port, op', r, kd_pause d)]\<rparr>))"

definition kni_change_mtu :: "kni_dev_env \<Rightarrow> u16 \<Rightarrow> u32 \<Rightarrow> kni_dev \<Rightarrow> kni_ret \<times> kni_dev" where
  "kni_change_mtu de port new_mtu d0 =
     (if \<not> kd_valid de port then (Ret (- 22), d0)
      else case call_dev de port Dev_stop d0 of (r, d1) \<Rightarrow>
        if r \<noteq> 0 then (Ret r, d1)
        else case call_dev de port (Dev_configure 1 1 new_mtu) d1 of (r, d2) \<Rightarrow>
          if r < 0 then (Ret r, d2)
          else case call_dev de port Dev_adjust d2 of (r, d3) \<Rightarrow>
            if r < 0 then (Exit, d3)
            else case call_dev de port Dev_info d3 of (r, d4) \<Rightarrow>
              if r \<noteq> 0 then (Ret r, d4)
              else case call_dev de port (Dev_rxq 0) d4 of (r, d5) \<Rightarrow>
                if r < 0 then (Ret r, d5)
                else case call_dev de port (Dev_txq 0) d5 of (r, d6) \<Rightarrow>
                  if r < 0 then (Ret r, d6)
                  else case call_dev de port Dev_start d6 of (r, d7) \<Rightarrow>
                    if r < 0 then (Ret r, d7) else (Ret 0, d7))"

definition pause_add :: "u32 \<Rightarrow> kni_dev \<Rightarrow> kni_dev" where
  "pause_add n d = d\<lparr>kd_pause := kd_pause d + n\<rparr>"

definition kni_config_network_interface :: "kni_dev_env \<Rightarrow> u16 \<Rightarrow> u8 \<Rightarrow> kni_dev \<Rightarrow> kni_ret \<times> kni_dev" where
  "kni_config_network_interface de port if_up d0 =
     (if \<not> kd_valid de port then (Ret (- 22), d0)
      else case call_dev de port Dev_stop (pause_add 1 d0) of (r, d1) \<Rightarrow>
        if r \<noteq> 0 then (Ret r, pause_add (- 1) d1)
        else if if_up \<noteq> 0 then
          (case call_dev de port Dev_start d1 of (r, d2) \<Rightarrow> (Ret r, pause_add (- 1) d2))
        else (Ret r, pause_add (- 1) d1))"

definition kni_config_mac_address :: "kni_dev_env \<Rightarrow> u16 \<Rightarrow> u8 list \<Rightarrow> kni_dev \<Rightarrow> kni_ret \<times> kni_dev" where
  "kni_config_mac_address de port mac d =
     (if \<not> kd_valid de port then (Ret (- 22), d)
      else case call_dev de port (Dev_set_mac mac) d of (r, d') \<Rightarrow> (Ret r, d'))"

text \<open>
  What the kernel asks of an interface. The library calls the registered operation with the port of
  \<open>kc_ops\<close>, which is the port of the interface.
\<close>

datatype kni_request = Req_mtu u32 | Req_link u8 | Req_mac "u8 list"

definition kni_handle :: "kni_dev_env \<Rightarrow> u16 \<Rightarrow> kni_request \<Rightarrow> kni_dev \<Rightarrow> kni_ret \<times> kni_dev" where
  "kni_handle de port rq d =
     (case rq of
        Req_mtu m \<Rightarrow> kni_change_mtu de port m d
      | Req_link up \<Rightarrow> kni_config_network_interface de port up d
      | Req_mac a \<Rightarrow> kni_config_mac_address de port a d)"

text \<open>
  \<open>kni_ingress\<close> asks the library to handle the requests of each interface in turn; only the first
  one, at the head of the list, has operations. \<open>None\<close> as a state is the end of the program.
\<close>

fun kni_requests :: "kni_dev_env \<Rightarrow> u16 \<Rightarrow> (nat \<Rightarrow> kni_request option) \<Rightarrow> bool \<Rightarrow> nat list \<Rightarrow> kni_dev \<Rightarrow> kni_dev option" where
  "kni_requests de port rq first [] d = Some d"
| "kni_requests de port rq first (k # ks) d =
     (case (if first then rq k else None) of
        None \<Rightarrow> kni_requests de port rq False ks d
      | Some q \<Rightarrow>
          (case kni_handle de port q d of
             (Exit, d') \<Rightarrow> None
           | (Ret r, d') \<Rightarrow> kni_requests de port rq False ks d'))"

definition kni_ingress :: "kni_dev_env \<Rightarrow> (nat \<Rightarrow> kni_request option) \<Rightarrow> kni_port option \<Rightarrow> kni_dev \<Rightarrow> kni_dev option" where
  "kni_ingress de rq po d =
     (case po of None \<Rightarrow> Some d | Some p \<Rightarrow> kni_requests de (kp_port p) rq True (kp_kni p) d)"

section \<open>Packets of the kernel\<close>

text \<open>
  The counters and what became of the packets. \<open>nic_takes\<close> is the answer of the NIC to the one packet
  it is offered. \<open>appStatsData\<close> has four entries; an index beyond them is undefined.
\<close>

record kni_tx =
  kt_sent :: "(nat \<times> pkt) list"
  kt_freed :: "pkt list"
  kt_packets :: u64
  kt_dropped :: u64
  kt_ike :: "nat \<Rightarrow> u64"

record kni_env =
  kv_route :: ev_env
  nic_takes :: "(nat \<times> pkt) list \<Rightarrow> nat \<Rightarrow> pkt \<Rightarrow> bool"

text \<open>\<open>kni_burst_free_mbufs\<close>: what is freed and the array afterwards; \<open>num\<close> is its length.\<close>

definition kni_burst_free_mbufs :: "pkt option list option \<Rightarrow> nat \<Rightarrow> pkt list \<times> pkt option list option" where
  "kni_burst_free_mbufs pkts num =
     (case pkts of
        None \<Rightarrow> ([], None)
      | Some ps \<Rightarrow> (map the (filter (\<lambda>p. p \<noteq> None) (take num ps)), Some (replicate (min num (length ps)) None @ drop num ps)))"

definition kni_send :: "kni_env \<Rightarrow> pkt \<Rightarrow> kni_tx \<Rightarrow> errno + kni_tx" where
  "kni_send env p s =
     (case get_route (kv_route env) p PLAIN_IPV4 of
        Inl e \<Rightarrow> Inl e
      | Inr port \<Rightarrow>
          (if 4 \<le> port then Inl UB
           else
             (let s1 = s\<lparr>kt_ike := (kt_ike s)(port := kt_ike s port + 1)\<rparr> in
              Inr (if nic_takes env (kt_sent s) port p
                   then s1\<lparr>kt_sent := kt_sent s @ [(port, p)], kt_packets := kt_packets s + 1\<rparr>
                   else s1\<lparr>kt_freed := kt_freed s @ fst (kni_burst_free_mbufs (Some [Some p]) 1), kt_dropped := kt_dropped s + 1\<rparr>))))"

fun kni_filter_ike_packets :: "kni_env \<Rightarrow> pkt list \<Rightarrow> kni_tx \<Rightarrow> errno + kni_tx" where
  "kni_filter_ike_packets env [] s = Inr s"
| "kni_filter_ike_packets env (p # ps) s =
     (case is_ike (m_bytes (pbuf p)) of
        Inl e \<Rightarrow> Inl e
      | Inr False \<Rightarrow> kni_filter_ike_packets env ps (s\<lparr>kt_freed := kt_freed s @ [p]\<rparr>)
      | Inr True \<Rightarrow>
          (case kni_send env p s of Inl e \<Rightarrow> Inl e | Inr s' \<Rightarrow> kni_filter_ike_packets env ps s'))"

definition PKT_BURST_SZ :: nat where "PKT_BURST_SZ = 32"

text \<open>\<open>rx\<close> is what the kernel has for each interface.\<close>

fun kni_egress_loop :: "kni_env \<Rightarrow> (nat \<Rightarrow> pkt list) \<Rightarrow> nat list \<Rightarrow> kni_tx \<Rightarrow> errno + kni_tx" where
  "kni_egress_loop env rx [] s = Inr s"
| "kni_egress_loop env rx (k # ks) s =
     (if PKT_BURST_SZ < length (rx k) then Inr s
      else case kni_filter_ike_packets env (rx k) s of Inl e \<Rightarrow> Inl e | Inr s' \<Rightarrow> kni_egress_loop env rx ks s')"

definition kni_egress :: "kni_env \<Rightarrow> (nat \<Rightarrow> pkt list) \<Rightarrow> kni_port option \<Rightarrow> kni_tx \<Rightarrow> errno + kni_tx" where
  "kni_egress env rx po s = (case po of None \<Rightarrow> Inr s | Some p \<Rightarrow> kni_egress_loop env rx (kp_kni p) s)"

section \<open>The cores of the interface\<close>

datatype lcore_rxtx = LCORE_NONE | LCORE_RX nat | LCORE_TX nat

text \<open>The first port, of those available, whose parameters name the core; its number is cut to 8 bits.\<close>

fun kni_role :: "kni_params \<Rightarrow> nat \<Rightarrow> nat list \<Rightarrow> lcore_rxtx" where
  "kni_role ps lcore [] = LCORE_NONE"
| "kni_role ps lcore (i # is) =
     (case ps i of
        None \<Rightarrow> kni_role ps lcore is
      | Some p \<Rightarrow>
          (if kp_lcore_rx p = ucast (of_nat lcore :: u8) then LCORE_RX i
           else if kp_lcore_tx p = ucast (of_nat lcore :: u8) then LCORE_TX i
           else kni_role ps lcore is))"

text \<open>The state the two loops share, with all packets the kernel has handed over so far.\<close>

record kni_sys =
  ky_stop :: u32
  ky_dev :: kni_dev
  ky_tx :: kni_tx
  ky_received :: "pkt list"

definition signal_handler_kni :: "kni_sys \<Rightarrow> kni_sys" where
  "signal_handler_kni s = s\<lparr>ky_stop := ky_stop s + 1\<rparr>"

text \<open>
  One turn of \<open>main_loop\<close>, after the flags were read: \<open>None\<close> leaves the loop, and \<open>Inl\<close> is the end of
  the program. A paused loop does nothing.
\<close>

definition rx_turn ::
  "kni_dev_env \<Rightarrow> (nat \<Rightarrow> kni_request option) \<Rightarrow> kni_port option \<Rightarrow> kni_sys \<Rightarrow> kni_ret + kni_sys option" where
  "rx_turn de rq po s =
     (if ky_stop s \<noteq> 0 then Inr None
      else if kd_pause (ky_dev s) \<noteq> 0 then Inr (Some s)
      else case kni_ingress de rq po (ky_dev s) of
        None \<Rightarrow> Inl Exit
      | Some d \<Rightarrow> Inr (Some (s\<lparr>ky_dev := d\<rparr>)))"

definition tx_turn :: "kni_env \<Rightarrow> (nat \<Rightarrow> pkt list) \<Rightarrow> kni_port option \<Rightarrow> kni_sys \<Rightarrow> errno + kni_sys option" where
  "tx_turn env rx po s =
     (if ky_stop s \<noteq> 0 then Inr None
      else if kd_pause (ky_dev s) \<noteq> 0 then Inr (Some s)
      else map_sum id (\<lambda>t. Some (s\<lparr>ky_tx := t,
             ky_received := ky_received s @ (case po of None \<Rightarrow> [] | Some p \<Rightarrow> concat (map rx (kp_kni p)))\<rparr>))
           (kni_egress env rx po (ky_tx s)))"

text \<open>
  The turns of the two cores and the signal in any order; a burst of the kernel has at most 32
  packets, as \<open>rte_kni_rx_burst\<close> promises.
\<close>

inductive kni_step :: "kni_dev_env \<Rightarrow> kni_env \<Rightarrow> kni_port option \<Rightarrow> kni_sys \<Rightarrow> kni_sys \<Rightarrow> bool"
  for de :: kni_dev_env and env :: kni_env and po :: "kni_port option" where
  step_rx: "rx_turn de rq po s = Inr (Some s') \<Longrightarrow> kni_step de env po s s'"
| step_tx: "tx_turn env rx po s = Inr (Some s') \<Longrightarrow> \<forall>k. length (rx k) \<le> PKT_BURST_SZ \<Longrightarrow> kni_step de env po s s'"
| step_stop: "kni_step de env po s (signal_handler_kni s)"

definition kni_start :: "kni_sys" where
  "kni_start = \<lparr>ky_stop = 0, ky_dev = \<lparr>kd_log = [], kd_pause = 0\<rparr>,
     ky_tx = \<lparr>kt_sent = [], kt_freed = [], kt_packets = 0, kt_dropped = 0, kt_ike = (\<lambda>_. 0)\<rparr>, ky_received = []\<rparr>"

end
