(* ===== verification/Kni_Props.thy ===== *)
theory Kni_Props
  imports Kni Worker_Props
begin

text \<open>
  The kernel interface: no packet of the kernel is lost between receiving and sending, only key exchange
  packets leave, a request of the kernel never leaves the two loops paused, and the configuration makes
  exactly the two cores of the device type serve the first port.
\<close>

section \<open>Packets of the kernel\<close>

abbreviation ike :: "pkt \<Rightarrow> bool" where "ike p \<equiv> is_ike (m_bytes (pbuf p)) = Inr True"

text \<open>What became of the packets \<open>ps\<close>.\<close>

definition kni_sound :: "kni_env \<Rightarrow> pkt list \<Rightarrow> kni_tx \<Rightarrow> bool" where
  "kni_sound env ps t \<longleftrightarrow>
     mset ps = mset (map snd (kt_sent t)) + mset (kt_freed t) \<and>
     (\<forall>(port, p) \<in> set (kt_sent t). ike p \<and> get_route (kv_route env) p PLAIN_IPV4 = Inr port \<and> port < 4) \<and>
     kt_packets t = of_nat (length (kt_sent t)) \<and>
     kt_dropped t = of_nat (length (filter ike (kt_freed t)))"

lemma kni_send_sound:
  assumes "kni_sound env ps t" and "ike p" and "kni_send env p t = Inr t'"
  shows "kni_sound env (ps @ [p]) t'"
  using assms
  by (auto simp: kni_sound_def kni_send_def kni_burst_free_mbufs_def Let_def add.commute
      split: sum.splits if_splits)

lemma kni_filter_sound:
  "kni_sound env ps t \<Longrightarrow> kni_filter_ike_packets env qs t = Inr t' \<Longrightarrow> kni_sound env (ps @ qs) t'"
proof (induction qs arbitrary: ps t)
  case (Cons q qs)
  from Cons.prems(2) obtain b where b: "is_ike (m_bytes (pbuf q)) = Inr b" by (auto split: sum.splits)
  show ?case
  proof (cases b)
    case True
    from Cons.prems(2) b True obtain t1 where t1: "kni_send env q t = Inr t1" "kni_filter_ike_packets env qs t1 = Inr t'"
      by (auto split: sum.splits)
    have "kni_sound env (ps @ [q]) t1" by (rule kni_send_sound [OF Cons.prems(1) _ t1(1)]) (use b True in simp)
    from Cons.IH [OF this t1(2)] show ?thesis by simp
  next
    case False
    have "kni_sound env (ps @ [q]) (t\<lparr>kt_freed := kt_freed t @ [q]\<rparr>)"
      using Cons.prems(1) b False by (auto simp: kni_sound_def)
    from Cons.IH [OF this] Cons.prems(2) b False show ?thesis by simp
  qed
qed simp

lemma kni_egress_loop_sound:
  "kni_sound env ps t \<Longrightarrow> \<forall>k. length (rx k) \<le> PKT_BURST_SZ \<Longrightarrow> kni_egress_loop env rx ks t = Inr t' \<Longrightarrow>
     kni_sound env (ps @ concat (map rx ks)) t'"
proof (induction env rx ks t arbitrary: ps rule: kni_egress_loop.induct)
  case (2 env rx k ks t)
  have k: "\<not> PKT_BURST_SZ < length (rx k)" using 2(3) by (simp add: not_less)
  with 2(4) obtain t1 where t1: "kni_filter_ike_packets env (rx k) t = Inr t1" "kni_egress_loop env rx ks t1 = Inr t'"
    by (auto split: sum.splits)
  from 2(1) [OF k t1(1) kni_filter_sound [OF 2(2) t1(1)] 2(3) t1(2)] show ?case by simp
qed simp

section \<open>Requests of the kernel\<close>

text \<open>What a call to the device adds to the log.\<close>

lemma call_devD:
  "call_dev de port op' d = (r, d') \<Longrightarrow> kd_log d' = kd_log d @ [(port, op', r, kd_pause d)] \<and> kd_pause d' = kd_pause d"
  by (auto simp: call_dev_def Let_def)

lemma pause_add_simps [simp]:
  "kd_pause (pause_add n d) = kd_pause d + n" "kd_log (pause_add n d) = kd_log d"
  by (simp_all add: pause_add_def)

text \<open>Whatever the devices answer, a request leaves the counter as it was.\<close>

lemma kni_handle_pause: "kd_pause (snd (kni_handle de port q d)) = kd_pause d"
  by (cases q)
    (simp_all add: kni_handle_def kni_change_mtu_def kni_config_network_interface_def kni_config_mac_address_def
       split: prod.split, auto dest!: call_devD)

lemma kni_requests_pause: "kni_requests de port rq b ks d = Some d' \<Longrightarrow> kd_pause d' = kd_pause d"
proof (induction de port rq b ks d rule: kni_requests.induct)
  case (2 de port rq b k ks d)
  show ?case
  proof (cases "if b then rq k else None")
    case None
    then show ?thesis using 2(1) [OF None] 2(3) by (simp del: if_split split: option.splits)
  next
    case (Some q)
    obtain r d1 where h: "kni_handle de port q d = (r, d1)" by (cases "kni_handle de port q d")
    with 2(3) Some obtain v where v: "r = Ret v" "kni_requests de port rq False ks d1 = Some d'"
      by (cases r) auto
    have "kd_pause d1 = kd_pause d" using kni_handle_pause [of de port q d] h by simp
    with 2(2) [OF Some h [symmetric] v(1) v(2)] show ?thesis by simp
  qed
qed simp

text \<open>
  A link request: the device is stopped, and started again when the link goes up, all while the loops
  are paused; the answer is that of the last call.
\<close>

lemma network_interface_calls:
  assumes "kd_valid de port" and "kni_config_network_interface de port up d = (r, d')"
  shows "\<exists>calls v. r = Ret v \<and> kd_log d' = kd_log d @ calls \<and>
    (\<forall>(p, c, a, n) \<in> set calls. p = port \<and> n = kd_pause d + 1) \<and> v = fst (snd (snd (last calls))) \<and>
    (v = 0 \<longrightarrow> map (\<lambda>c. fst (snd c)) calls = (if up \<noteq> 0 then [Dev_stop, Dev_start] else [Dev_stop]))"
proof -
  obtain r1 d1 where c1: "call_dev de port Dev_stop (pause_add 1 d) = (r1, d1)" by fastforce
  obtain r2 d2 where c2: "call_dev de port Dev_start d1 = (r2, d2)" by fastforce
  consider "r1 \<noteq> 0" | "r1 = 0" "up \<noteq> 0" | "r1 = 0" "up = 0" by blast
  then show ?thesis
  proof cases
    case 2
    then have "r = Ret r2" "kd_log d' = kd_log d @ [(port, Dev_stop, r1, kd_pause d + 1), (port, Dev_start, r2, kd_pause d + 1)]"
      using assms c1 c2 call_devD [OF c1] call_devD [OF c2] by (auto simp: kni_config_network_interface_def)
    then show ?thesis using 2 by (intro exI conjI) (assumption+, auto)
  qed (use assms c1 call_devD [OF c1] in \<open>auto simp: kni_config_network_interface_def\<close>)
qed

text \<open>
  A change of the MTU stops and reconfigures the port with one queue in each direction while the loops
  go on: nothing is paused.
\<close>

lemma change_mtu_calls:
  assumes "kd_valid de port" and "kni_change_mtu de port m d = (Ret 0, d')"
  shows "\<exists>calls. kd_log d' = kd_log d @ calls \<and>
    map (\<lambda>c. fst (snd c)) calls = [Dev_stop, Dev_configure 1 1 m, Dev_adjust, Dev_info, Dev_rxq 0, Dev_txq 0, Dev_start] \<and>
    (\<forall>(p, c, a, n) \<in> set calls. p = port \<and> n = kd_pause d)"
  using assms
  by (auto simp: kni_change_mtu_def split: prod.splits if_splits dest!: call_devD)

section \<open>The two loops\<close>

definition kni_inv :: "kni_env \<Rightarrow> kni_sys \<Rightarrow> bool" where
  "kni_inv env s \<longleftrightarrow> kd_pause (ky_dev s) = 0 \<and> kni_sound env (ky_received s) (ky_tx s)"

lemma kni_step_inv:
  assumes "kni_step de env po s s'" and "kni_inv env s"
  shows "kni_inv env s'"
  using assms
proof cases
  case (step_rx rq)
  then show ?thesis using assms(2)
    by (auto simp: rx_turn_def kni_ingress_def kni_inv_def dest: kni_requests_pause split: if_splits option.splits)
next
  case (step_tx rx)
  show ?thesis
  proof (cases "po = None \<or> kd_pause (ky_dev s) \<noteq> 0")
    case True
    then show ?thesis using step_tx assms(2)
      by (auto simp: tx_turn_def kni_egress_def kni_inv_def split: if_splits)
  next
    case False
    then obtain p where p: "po = Some p" by auto
    with step_tx False obtain t where t: "kni_egress_loop env rx (kp_kni p) (ky_tx s) = Inr t"
        "s' = s\<lparr>ky_tx := t, ky_received := ky_received s @ concat (map rx (kp_kni p))\<rparr>"
      by (cases "kni_egress_loop env rx (kp_kni p) (ky_tx s)") (auto simp: tx_turn_def kni_egress_def split: if_splits)
    have "kni_sound env (ky_received s @ concat (map rx (kp_kni p))) t"
      by (rule kni_egress_loop_sound [OF _ step_tx(2) t(1)]) (use assms(2) in \<open>simp add: kni_inv_def\<close>)
    then show ?thesis using t assms(2) by (simp add: kni_inv_def)
  qed
next
  case step_stop
  then show ?thesis using assms(2) by (simp add: kni_inv_def signal_handler_kni_def)
qed

text \<open>C15. The cores of the kernel interface: in every reachable state each packet the kernel handed over was
  sent or freed exactly once, only key exchange packets were sent, each on the port its route names,
  the counters are those of the packets, and no request of the kernel has left the loops paused.
\<close>

theorem kni_reachable_sound:
  assumes "(kni_step de env po)\<^sup>*\<^sup>* kni_start s"
  shows "kd_pause (ky_dev s) = 0 \<and> kni_sound env (ky_received s) (ky_tx s)"
proof -
  have "kni_inv env s"
    using assms
  proof (induction rule: rtranclp_induct)
    case base
    show ?case by (simp add: kni_inv_def kni_start_def kni_sound_def)
  qed (rule kni_step_inv)
  then show ?thesis by (simp add: kni_inv_def)
qed

text \<open>Two packets of the kernel, of which one is a key exchange packet, and a NIC that takes everything.\<close>

definition kni_frame :: "nat \<Rightarrow> u8 list \<Rightarrow> pkt" where
  "kni_frame i l4 = (sample_pkt i)\<lparr>pbuf := (pbuf (sample_pkt i))\<lparr>m_bytes := replicate 12 0 @ [8, 0] @ take 20 sample_ip4 @ l4\<rparr>\<rparr>"

definition sample_kni :: kni_env where
  "sample_kni = \<lparr>kv_route = sample_ev, nic_takes = (\<lambda>_ _ _. True)\<rparr>"

definition sample_kni_port :: kni_port where
  "sample_kni_port = \<lparr>kp_port = 0, kp_lcore_rx = 4, kp_lcore_tx = 5, kp_lcore_k = [1], kp_kni = [7]\<rparr>"

definition sample_kni_rx :: "nat \<Rightarrow> pkt list" where
  "sample_kni_rx k = (if k = 7 then [kni_frame 1 [1, 0xF4, 1, 0xF4], kni_frame 2 [0, 53, 0, 53]] else [])"

lemma kni_reachable_sound_witness:
  "case tx_turn sample_kni sample_kni_rx (Some sample_kni_port) kni_start of
     Inr (Some s) \<Rightarrow> map (\<lambda>(port, p). (port, pid p)) (kt_sent (ky_tx s)) = [(1, 1)] \<and> map pid (kt_freed (ky_tx s)) = [2] \<and>
       kni_sound sample_kni (ky_received s) (ky_tx s)
   | _ \<Rightarrow> False"
proof -
  have "case tx_turn sample_kni sample_kni_rx (Some sample_kni_port) kni_start of
     Inr (Some s) \<Rightarrow> map (\<lambda>(port, p). (port, pid p)) (kt_sent (ky_tx s)) = [(1, 1)] \<and> map pid (kt_freed (ky_tx s)) = [2]
   | _ \<Rightarrow> False"
    by code_simp
  then obtain s where s: "tx_turn sample_kni sample_kni_rx (Some sample_kni_port) kni_start = Inr (Some s)"
      "map (\<lambda>(port, p). (port, pid p)) (kt_sent (ky_tx s)) = [(1, 1)]" "map pid (kt_freed (ky_tx s)) = [2]"
    by (auto split: sum.splits option.splits)
  have "kni_step de sample_kni (Some sample_kni_port) kni_start s" for de
    by (rule step_tx [OF s(1)]) (simp add: sample_kni_rx_def PKT_BURST_SZ_def)
  from kni_reachable_sound [OF r_into_rtranclp, OF this] s show ?thesis by simp
qed

section \<open>Configuration\<close>

text \<open>\<open>rte_strsplit\<close> with a comma and room for the fields.\<close>

definition splits4 :: "(string \<Rightarrow> string list) \<Rightarrow> bool" where
  "splits4 split \<longleftrightarrow>
     (\<forall>p q r k. CHR '','' \<notin> set p \<and> CHR '','' \<notin> set q \<and> CHR '','' \<notin> set r \<and> CHR '','' \<notin> set k \<longrightarrow>
        split (p @ CHR '','' # q @ CHR '','' # r @ CHR '','' # k) = [p, q, r, k])"

text \<open>The parameters \<open>kni_config\<close> asks for.\<close>

definition kni_port0 :: "encryptor_type \<Rightarrow> nat list \<Rightarrow> kni_port" where
  "kni_port0 d ks = \<lparr>kp_port = 0, kp_lcore_rx = ucast (dt_kni_rx d), kp_lcore_tx = ucast (dt_kni_tx d), kp_lcore_k = [1], kp_kni = ks\<rparr>"

lemma kni_number_show [simp]: "n < 2 ^ 64 \<Longrightarrow> kni_number (show_dec n) = int n"
  by (simp add: kni_number_def strtoul_show)

lemma kni_number_digits: "kni_number ''0'' = 0" "kni_number ''1'' = 1"
  by code_simp+

lemma word_u8_int: "(of_int (int (unat w)) :: u8) = w"
  by simp

lemma kni_config_entry:
  assumes "CHR '')'' \<notin> set e" and "length e < 256" and "kni_entry mem (split e) ps = Inr ps'"
  shows "kni_config_loop split mem (CHR ''('' # e @ CHR '')'' # rest) ps = kni_config_loop split mem (CHR '')'' # rest) ps'"
  using assms by (subst kni_config_loop.simps) (simp add: dropWhile_sep takeWhile_sep Let_def)

lemma parse_kni_config:
  assumes "splits4 split"
  shows "parse_config_kni split True (kni_config_text d) = Inr [0 \<mapsto> kni_port0 d []]"
proof -
  let ?rx = "show_dec (unat (dt_kni_rx d))" and ?tx = "show_dec (unat (dt_kni_tx d))"
  let ?e = "''0'' @ CHR '','' # ?rx @ CHR '','' # ?tx @ CHR '','' # ''1''"
  have w: "unat (dt_kni_rx d) < 256" "unat (dt_kni_tx d) < 256" by (rule unat_u8_less)+
  then have len: "length ?rx \<le> 3" "length ?tx \<le> 3" using length_show_dec [of _ 2] by (simp_all add: numeral_eq_Suc)
  have num: "kni_number ?rx = int (unat (dt_kni_rx d))" "kni_number ?tx = int (unat (dt_kni_tx d))"
    using w by simp_all
  have "CHR '','' \<notin> set ''0''" "CHR '','' \<notin> set ''1''" by simp_all
  then have s: "split ?e = [''0'', ?rx, ?tx, ''1'']"
    by (intro assms [unfolded splits4_def, rule_format] conjI show_dec_no_sep(1))
  have e: "kni_entry True (split ?e) (\<lambda>_. None) = Inr [0 \<mapsto> kni_port0 d []]"
    unfolding s by (simp add: kni_entry_def num kni_number_digits word_u8_int RTE_MAX_ETHPORTS_def
        KNI_MAX_KTHREAD_def kni_port0_def Let_def)
  have par: "CHR '')'' \<notin> set ?e" using show_dec_no_sep(2) by auto
  have "length ?e < 256" using len by simp
  from kni_config_entry [where split = split, OF par this e, of "[]"]
  have "kni_config_loop split True (kni_config_text d) (\<lambda>_. None) = kni_config_loop split True '')'' [0 \<mapsto> kni_port0 d []]"
    by (simp add: kni_config_text_def)
  also have "\<dots> = Inr [0 \<mapsto> kni_port0 d []]" by (subst kni_config_loop.simps) simp
  finally show ?thesis by (simp add: parse_config_kni_def)
qed


text \<open>The role of a core when only the first port has parameters.\<close>

lemma kni_role_first:
  "kni_role [0 \<mapsto> p] lcore avail =
     (if 0 \<notin> set avail then LCORE_NONE
      else if kp_lcore_rx p = ucast (of_nat lcore :: u8) then LCORE_RX 0
      else if kp_lcore_tx p = ucast (of_nat lcore :: u8) then LCORE_TX 0 else LCORE_NONE)"
  by (induction avail) auto

lemma unat_ucast_u8 [simp]: "unat (ucast (w :: u8) :: u32) = unat w" "unat (ucast (w :: u8) :: u16) = unat w"
  using unat_u8_less [of w] by (simp_all add: unsigned_ucast_eq take_bit_nat_eq_self)

lemma ucast_u8_eq: "(ucast (a :: u8) :: u32) = ucast b \<longleftrightarrow> a = b"
  by (metis unat_ucast_u8(1) unsigned_word_eqI)

lemma core_u8: "n < 256 \<Longrightarrow> (w :: u8) = of_nat n \<longleftrightarrow> unat w = n"
  by (auto simp: unat_of_nat_u8)

definition kni_conf0 :: "kni_lib \<Rightarrow> encryptor_type \<Rightarrow> u16 \<times> u16 \<Rightarrow> kni_conf" where
  "kni_conf0 lib d mtus =
     \<lparr>kc_name = ''vEth0_0'', kc_core = Some 1, kc_group = 0, kc_mbuf_size = 2048, kc_mac = dt_mac d,
      kc_mtu = (case kl_mtu lib 0 of None \<Rightarrow> 0 | Some m \<Rightarrow> m), kc_min_mtu = fst mtus, kc_max_mtu = snd mtus, kc_ops = Some 0\<rparr>"

lemma kni_alloc_first:
  assumes "kl_info lib 0 = Some mtus" and "kl_macaddr lib 0" and "kl_alloc lib [] (kni_conf0 lib d mtus) = Some k"
  shows "kni_alloc lib (dt_mac d) 0 [0 \<mapsto> kni_port0 d []] = Inr ([0 \<mapsto> kni_port0 d [k]], 0)"
proof -
  have "show_dec 0 = ''0''" by code_simp
  then have "kni_conf_of lib (dt_mac d) 0 (kni_port0 d []) 0 = Inr (kni_conf0 lib d mtus)"
    using assms by (cases mtus) (simp add: kni_conf_of_def kni_conf0_def kni_port0_def MAX_PACKET_SZ_def Let_def)
  then show ?thesis
    using assms(3) by (simp add: kni_alloc_def kni_count_def RTE_MAX_ETHPORTS_def kni_port0_def upt_rec)
qed

lemma kni_config_first:
  assumes "splits4 split" and "dt_client_port d = 0" and "kl_info lib 0 = Some mtus" and "kl_macaddr lib 0"
    and "kl_alloc lib [] (kni_conf0 lib d mtus) = Some k"
  shows "kni_config lib split True d True ps = Inr (init_kni ps, [0 \<mapsto> kni_port0 d [k]])"
  using parse_kni_config [OF assms(1), of d] kni_alloc_first [OF assms(3-5)] assms(2) by (simp add: kni_config_def)

text \<open>C37. Configuring the kernel interface of a device type whose client port is the first port creates one
  interface, \<open>vEth0_0\<close>, with the address of the type and the operations of the port; of all cores the
  type's receive core runs the receiving loop, its transmit core the transmitting loop, and every other
  core none of them.
\<close>

theorem kni_config_ready:
  assumes "splits4 split" and "dt_client_port d = 0" and "kl_info lib 0 = Some mtus" and "kl_macaddr lib 0"
    and "kl_alloc lib [] (kni_conf0 lib d mtus) = Some k"
  shows "\<exists>ps'. kni_config lib split True d True ps = Inr (init_kni ps, ps') \<and> ps' = [0 \<mapsto> kni_port0 d [k]] \<and>
    (\<forall>avail lcore. 0 \<in> set avail \<and> lcore < 256 \<longrightarrow>
       kni_role ps' lcore avail =
         (if lcore = unat (dt_kni_rx d) then LCORE_RX 0 else if lcore = unat (dt_kni_tx d) then LCORE_TX 0 else LCORE_NONE))"
proof (intro exI conjI)
  show "kni_config lib split True d True ps = Inr (init_kni ps, [0 \<mapsto> kni_port0 d [k]])"
    using assms by (rule kni_config_first)
qed (auto simp: kni_role_first kni_port0_def ucast_u8_eq core_u8)

fun sample_split4 :: "string \<Rightarrow> string list" where
  "sample_split4 s =
     (let f = takeWhile (\<lambda>c. c \<noteq> CHR '',''); g = (\<lambda>s. tl (dropWhile (\<lambda>c. c \<noteq> CHR '','') s))
      in [f s, f (g s), f (g (g s)), g (g (g s))])"

lemma sample_split4_ok: "splits4 sample_split4"
  by (simp add: splits4_def takeWhile_sep dropWhile_sep Let_def)

definition sample_kni_lib :: kni_lib where
  "sample_kni_lib = \<lparr>kl_info = (\<lambda>_. Some (68, 9000)), kl_macaddr = (\<lambda>_. True), kl_mtu = (\<lambda>_. Some 1500), kl_alloc = (\<lambda>_ _. Some 7)\<rparr>"

lemma kni_config_ready_witness:
  "let d = \<lparr>dt_client_port = 0, dt_kni_rx = 4, dt_kni_tx = 5, dt_mac = [2, 0, 0, 0, 0, 1]\<rparr> in
   \<exists>ps'. kni_config sample_kni_lib sample_split4 True d True (\<lambda>_. None) = Inr (0, ps') \<and>
     kni_role ps' 4 [0, 1] = LCORE_RX 0 \<and> kni_role ps' 5 [0, 1] = LCORE_TX 0 \<and> kni_role ps' 6 [0, 1] = LCORE_NONE"
proof -
  let ?d = "\<lparr>dt_client_port = 0, dt_kni_rx = 4, dt_kni_tx = 5, dt_mac = [2, 0, 0, 0, 0, 1]\<rparr>"
  have ok: "splits4 sample_split4" "dt_client_port ?d = 0" "kl_info sample_kni_lib 0 = Some (68, 9000)"
      "kl_macaddr sample_kni_lib 0" "kl_alloc sample_kni_lib [] (kni_conf0 sample_kni_lib ?d (68, 9000)) = Some 7"
    by (simp_all add: sample_split4_ok sample_kni_lib_def del: sample_split4.simps)
  from kni_config_ready [OF ok, of "\<lambda>_. None"] obtain ps' where
    a: "kni_config sample_kni_lib sample_split4 True ?d True (\<lambda>_. None) = Inr (init_kni (\<lambda>_. None), ps')" and
    r: "\<And>avail lcore. 0 \<in> set avail \<Longrightarrow> lcore < 256 \<Longrightarrow> kni_role ps' lcore avail =
         (if lcore = unat (dt_kni_rx ?d) then LCORE_RX 0 else if lcore = unat (dt_kni_tx ?d) then LCORE_TX 0 else LCORE_NONE)"
    by blast
  have "init_kni (\<lambda>_. None) = 0" by (simp add: init_kni_def)
  moreover have "kni_role ps' 4 [0, 1] = LCORE_RX 0" "kni_role ps' 5 [0, 1] = LCORE_TX 0" "kni_role ps' 6 [0, 1] = LCORE_NONE"
    by (subst r; simp)+
  ultimately show ?thesis unfolding Let_def using a by auto
qed

text \<open>A client port other than the first has no parameters: nothing is created, and the error is ignored.\<close>

lemma kni_config_other_port:
  assumes "splits4 split" and "dt_client_port d \<noteq> 0"
  shows "kni_config lib split True d True ps = Inr (init_kni ps, [0 \<mapsto> kni_port0 d []])"
proof -
  have "unat (dt_client_port d) \<noteq> 0" using assms(2) by (simp add: unat_eq_zero)
  then have "kni_alloc lib (dt_mac d) (ucast (dt_client_port d)) [0 \<mapsto> kni_port0 d []] = Inr ([0 \<mapsto> kni_port0 d []], - 1)"
    by (simp add: kni_alloc_def)
  then show ?thesis using parse_kni_config [OF assms(1), of d] by (simp add: kni_config_def)
qed

text \<open>The library is told to expect no interface, since the parameters are read after it was started.\<close>

lemma init_kni_empty: "init_kni (\<lambda>_. None) = 0"
  by (simp add: init_kni_def)

end
