(* ===== verification/Services.thy ===== *)
theory Services
  imports Runtime Inspect
begin

text \<open>
  The services around the packet path: the reports written to the database (\<open>ngtl/db/db.c\<close>) and
  printed (\<open>ngtl/stats/stats.c\<close>), the times and addresses they spell (\<open>ngtl/utility/utility.c\<close>), the hash of
  the connection table (\<open>ngtl/hashtable/hashtable.c\<close>), and the subscriber of the message bus
  (\<open>ngtl/nats/sub.c\<close>). The database, the bus and the hash library are parameters that say which
  calls succeed. An operation handed to the database is a value; a failing one is only printed, so the
  operations made do not depend on their outcome.
\<close>

section \<open>Times and addresses as text\<close>

text \<open>\<open>inet_ntoa\<close> of an address as it is in memory.\<close>

definition dec2IP :: "u32 \<Rightarrow> string" where
  "dec2IP a =
     (case rev (bytes_of_u32 a) of
        [b0, b1, b2, b3] \<Rightarrow>
          show_dec (unat b0) @ ''.'' @ show_dec (unat b1) @ ''.'' @ show_dec (unat b2) @ ''.'' @ show_dec (unat b3)
      | _ \<Rightarrow> [])"

text \<open>\<open>%02d\<close> and \<open>%04d\<close> of a number that is not negative.\<close>

definition pad_dec :: "nat \<Rightarrow> nat \<Rightarrow> string" where
  "pad_dec w n = (let s = show_dec n in replicate (w - length s) CHR ''0'' @ s)"

text \<open>The broken-down time of the C library, with the year since 1900 and the month from 0.\<close>

record tm =
  tm_year :: nat
  tm_mon :: nat
  tm_mday :: nat
  tm_hour :: nat
  tm_min :: nat
  tm_sec :: nat

definition get_date_time :: "tm \<Rightarrow> string" where
  "get_date_time t =
     show_dec (tm_year t + 1900) @ ''-'' @ pad_dec 2 (tm_mon t + 1) @ ''-'' @ pad_dec 2 (tm_mday t) @ '' '' @
     pad_dec 2 (tm_hour t) @ '':'' @ pad_dec 2 (tm_min t) @ '':'' @ pad_dec 2 (tm_sec t)"

text \<open>The text \<open>printTime\<close> leaves in \<open>appTime.time\<close>, an array of 32 bytes.\<close>

definition time_text :: "app_time \<Rightarrow> string" where
  "time_text t =
     pad_dec 4 (unat (t_year t)) @ ''Y-'' @ pad_dec 2 (unat (t_mon t)) @ ''M-'' @ pad_dec 2 (unat (t_day t)) @ ''D '' @
     pad_dec 2 (unat (t_hrs t)) @ ''H:'' @ pad_dec 2 (unat (t_min t)) @ ''m:'' @ pad_dec 2 (unat (t_sec t)) @ ''s''"

section \<open>The database\<close>

text \<open>
  Field values. A counter is handed over as a double, the model keeps the counter; \<open>B_bytes\<close> is the
  text \<open>bytesNormalize\<close> makes of a number of bytes and \<open>B_rate\<close> that of a rate in Mb/s.
\<close>

datatype bson = B_double u64 | B_int32 u32 | B_utf8 string | B_bytes u64 | B_rate u64 | B_oid

datatype db_coll = Port_stats | Interface_stats | Device_stats | Net_stats | Up_time

definition coll_name :: "db_coll \<Rightarrow> string" where
  "coll_name c =
     (case c of Port_stats \<Rightarrow> ''portstats'' | Interface_stats \<Rightarrow> ''interfacestats'' | Device_stats \<Rightarrow> ''devicestats''
      | Net_stats \<Rightarrow> ''netstats'' | Up_time \<Rightarrow> ''mainconfigs'')"

type_synonym doc = "(string \<times> bson) list"

datatype db_op = Db_update db_coll doc doc | Db_insert db_coll doc

text \<open>The connection: \<open>None\<close> is the exit of the program, else the collections opened, in order.\<close>

record db_env =
  db_uri :: bool
  db_client :: bool
  db_open :: "string \<Rightarrow> bool"

definition init_mongo_connection :: "db_env \<Rightarrow> string list option" where
  "init_mongo_connection de =
     (let names = map coll_name [Port_stats, Interface_stats, Device_stats, Net_stats, Up_time] in
      if db_uri de \<and> db_client de \<and> list_all (db_open de) names then Some names else None)"

definition updateTimeToDB :: "app_time \<Rightarrow> db_op" where
  "updateTimeToDB t =
     Db_update Up_time [(''id'', B_int32 1)] [(''upInt'', B_double (t_total t)), (''upTime'', B_utf8 (time_text t))]"

text \<open>The names of the fields of \<open>struct appStatsStruct\<close> and of the two structures in it.\<close>

fun tcp_name :: "tcp_service \<Rightarrow> string" where
  "tcp_name FTP = ''tcpTypeFTP''"
| "tcp_name SSH = ''tcpTypeSSH''" | "tcp_name TELNET = ''tcpTypeTELNET''" | "tcp_name SMTP = ''tcpTypeSMTP''"
| "tcp_name HTTP = ''tcpTypeHTTP''" | "tcp_name HTTPS = ''tcpTypeHTTPS''" | "tcp_name IMAPS = ''tcpTypeIMAPS''"
| "tcp_name MSSQL = ''tcpTypeMSSQL''" | "tcp_name ORACLESQL = ''tcpTypeORACLESQL''" | "tcp_name PPTP = ''tcpTypePPTP''"
| "tcp_name MYSQL = ''tcpTypeMYSQL''" | "tcp_name RDP = ''tcpTypeRDP''" | "tcp_name VNC = ''tcpTypeVNC''"
| "tcp_name NETBIOS = ''tcpTypeNETBIOS''" | "tcp_name BGP = ''tcpTypeBGP''" | "tcp_name SIP = ''tcpTypeSIP''"
| "tcp_name LDAP = ''tcpTypeLDAP''" | "tcp_name SOCKS = ''tcpTypeSOCKS''" | "tcp_name SQUID = ''tcpTypeSQUID''"
| "tcp_name POSTGRESQL = ''tcpTypePOSTGRESQL''" | "tcp_name REDIS = ''tcpTypeREDIS''" | "tcp_name ELASTICSEARCH = ''tcpTypeELASTICSEARCH''"
| "tcp_name MONGODB = ''tcpTypeMONGODB''" | "tcp_name TCP_UNKNOWN = ''tcpTypeUNKNOWN''"

fun udp_name :: "udp_service \<Rightarrow> string" where
  "udp_name IKEv2 = ''udpTypeIKEv2''"
| "udp_name DNS = ''udpTypeDNS''" | "udp_name DHCP = ''udpTypeDHCP''" | "udp_name NTP = ''udpTypeNTP''"
| "udp_name SNMP = ''udpTypeSNMP''" | "udp_name SYSLOG = ''udpTypeSYSLOG''" | "udp_name RIP = ''udpTypeRIP''"
| "udp_name RADIUS = ''udpTypeRADIUS''" | "udp_name X11 = ''udpTypeX11''" | "udp_name OPENVPN = ''udpTypeOPENVPN''"
| "udp_name UDP_UNKNOWN = ''udpTypeUNKNOWN''"

fun counter_name :: "counter \<Rightarrow> string" where
  "counter_name C_eth = ''eth''"
| "counter_name C_ARP = ''ethTypeARP''" | "counter_name C_VLAN = ''ethTypeVLAN''" | "counter_name C_IPV4 = ''ethTypeIPV4''"
| "counter_name C_IPV6 = ''ethTypeIPV6''" | "counter_name C_LLDP = ''ethTypeLLDP''" | "counter_name C_ethUNKNOWN = ''ethTypeUNKNOWN''"
| "counter_name C_TCP = ''ipTypeTCP''" | "counter_name C_UDP = ''ipTypeUDP''" | "counter_name C_ICMP = ''ipTypeICMP''"
| "counter_name C_ESP = ''ipTypeESP''" | "counter_name C_IGMP = ''ipTypeIGMP''" | "counter_name C_OSPF = ''ipTypeOSPF''"
| "counter_name C_GRE = ''ipTypeGRE''" | "counter_name C_ipUNKNOWN = ''ipTypeUNKNOWN''"
| "counter_name (C_tcp t) = tcp_name t"
| "counter_name (C_udp u) = udp_name u"

text \<open>The fields of the document of a port, in the order they are written.\<close>

definition port_fields :: "(string \<times> counter) list" where
  "port_fields =
     [(''eth'', C_eth), (''ethTypeARP'', C_ARP), (''ethTypeVLAN'', C_VLAN), (''ethTypeIPV4'', C_IPV4),
      (''ethTypeIPV6'', C_IPV6), (''ethTypeLLDP'', C_LLDP), (''ethTypeUNKNOWN'', C_ethUNKNOWN),
      (''ipTypeTCP'', C_TCP), (''ipTypeUDP'', C_UDP), (''ipTypeICMP'', C_ICMP), (''ipTypeESP'', C_ESP),
      (''ipTypeIGMP'', C_IGMP), (''ipTypeOSPF'', C_OSPF), (''ipTypeGRE'', C_GRE),
      (''ipTypeUNKNOWN'', C_ipUNKNOWN), (''tcpTypeFTP'', C_tcp FTP), (''tcpTypeSSH'', C_tcp SSH),
      (''tcpTypeTELNET'', C_tcp TELNET), (''tcpTypeSMTP'', C_tcp SMTP), (''tcpTypeHTTP'', C_tcp HTTP),
      (''tcpTypeHTTPS'', C_tcp HTTPS), (''tcpTypeIMAPS'', C_tcp IMAPS), (''tcpTypeMSSQL'', C_tcp MSSQL),
      (''tcpTypeORACLESQL'', C_tcp ORACLESQL), (''tcpTypePPTP'', C_tcp PPTP), (''tcpTypeMYSQL'', C_tcp MYSQL),
      (''tcpTypeRDP'', C_tcp RDP), (''tcpTypeVNC'', C_tcp VNC), (''tcpTypeNETBIOS'', C_tcp NETBIOS),
      (''tcpTypeBGP'', C_tcp BGP), (''tcpTypeSIP'', C_tcp SIP), (''tcpTypeLDAP'', C_tcp LDAP),
      (''tcpTypeSOCKS'', C_tcp SOCKS), (''tcpTypeSQUID'', C_tcp SQUID),
      (''tcpTypePOSTGRESQL'', C_tcp POSTGRESQL), (''tcpTypeREDIS'', C_tcp REDIS),
      (''tcpTypeELASTICSEARCH'', C_tcp ELASTICSEARCH), (''tcpTypeMONGODB'', C_tcp MONGODB),
      (''tcpTypeUNKNOWN'', C_tcp TCP_UNKNOWN), (''udpTypeDNS'', C_udp DNS), (''udpTypeDHCP'', C_udp DHCP),
      (''udpTypeNTP'', C_udp NTP), (''udpTypeSNMP'', C_udp SNMP), (''udpTypeSYSLOG'', C_udp SYSLOG),
      (''udpTypeRIP'', C_udp RIP), (''udpTypeRADIUS'', C_udp RADIUS), (''udpTypeX11'', C_udp X11),
      (''udpTypeOPENVPN'', C_udp OPENVPN), (''udpTypeUNKNOWN'', C_udp UDP_UNKNOWN)]"

definition updateAppStatsToDB :: "(nat \<Rightarrow> counter \<Rightarrow> u64) \<Rightarrow> db_op list" where
  "updateAppStatsToDB st =
     map (\<lambda>port. Db_update Port_stats [(''portid'', B_int32 (of_nat port))]
            (map (\<lambda>(f, c). (f, B_double (st port c))) port_fields)) [0, 1]"

record iface_stats =
  if_received :: u64
  if_sent :: u64
  if_dropped :: u64
  if_rx_bytes :: bson
  if_tx_bytes :: bson
  if_rx_rate :: u64
  if_tx_rate :: u64

definition updateInterfaceStatsToDB :: "iface_stats \<Rightarrow> nat \<Rightarrow> db_op" where
  "updateInterfaceStatsToDB i port =
     Db_update Interface_stats [(''portid'', B_int32 (of_nat port))]
       [(''pktsReceived'', B_double (if_received i)), (''pktsSent'', B_double (if_sent i)), (''pktsDropped'', B_double (if_dropped i)),
        (''rxBytes'', if_rx_bytes i), (''txBytes'', if_tx_bytes i), (''rxRate'', B_rate (if_rx_rate i)), (''txRate'', B_rate (if_tx_rate i))]"

definition updateDeviceStatsToDB :: "report \<Rightarrow> u64 \<Rightarrow> u64 \<Rightarrow> db_op" where
  "updateDeviceStatsToDB r rx_rate tx_rate =
     Db_update Device_stats [(''deviceid'', B_int32 1)]
       [(''totalPktsReceived'', B_double (rep_rx r)), (''totalPktsSent'', B_double (rep_tx r)), (''totalPktsDropped'', B_double (rep_dropped r)),
        (''totalRxBytes'', B_bytes (rep_rx_bytes r)), (''totalTxBytes'', B_bytes (rep_tx_bytes r)),
        (''totalRxRate'', B_rate rx_rate), (''totalTxRate'', B_rate tx_rate)]"

definition insertNetstatToDB :: "tm \<Rightarrow> netstat \<Rightarrow> db_op" where
  "insertNetstatToDB t n =
     Db_insert Net_stats
       [(''_id'', B_oid), (''srcIP'', B_utf8 (dec2IP (ns_srcIP n))), (''dstIP'', B_utf8 (dec2IP (ns_dstIP n))),
        (''srcPort'', B_int32 (ucast (bswap16 (ns_srcPort n)))), (''dstPort'', B_int32 (ucast (bswap16 (ns_dstPort n)))),
        (''proto'', B_int32 (ucast (ns_proto n))), (''inPort'', B_int32 (ucast (ns_inPort n))), (''outPort'', B_int32 (ucast (ns_outPort n))),
        (''dateTime'', B_utf8 (get_date_time t))]"

section \<open>What the periodic report writes\<close>

text \<open>
  The second half of \<open>print_stats_cb\<close>: the interfaces 0 and 1 are given the numbers of the cores 0 and
  1, received on one and sent by the other. A core that was skipped has its initial rates and texts.
\<close>

definition core_rates :: "report \<Rightarrow> nat \<Rightarrow> (u64 \<times> u64) option" where
  "core_rates r c = map_of (rep_rates r) c"

definition bytes_text :: "report \<Rightarrow> nat \<Rightarrow> u64 \<Rightarrow> bson" where
  "bytes_text r c b = (if core_rates r c = None then B_utf8 [] else B_bytes b)"

definition rate_of :: "report \<Rightarrow> (u64 \<times> u64 \<Rightarrow> u64) \<Rightarrow> nat \<Rightarrow> u64" where
  "rate_of r sel c = (case core_rates r c of None \<Rightarrow> 0 | Some x \<Rightarrow> sel x)"

definition iface_of :: "(nat \<Rightarrow> core_stats) \<Rightarrow> report \<Rightarrow> nat \<Rightarrow> nat \<Rightarrow> iface_stats" where
  "iface_of stats r a b =
     \<lparr>if_received = cs_rx (stats a), if_sent = cs_tx (stats b), if_dropped = cs_dropped (stats a),
      if_rx_bytes = bytes_text r a (cs_rx_bytes (stats a)), if_tx_bytes = bytes_text r b (cs_tx_bytes (stats b)),
      if_rx_rate = rate_of r fst a, if_tx_rate = rate_of r snd b\<rparr>"

definition total_rate :: "report \<Rightarrow> (u64 \<times> u64 \<Rightarrow> u64) \<Rightarrow> u64" where
  "total_rate r sel = sum_list (map (\<lambda>(c, x). sel x) (rep_rates r))"

definition report_to_db ::
  "sys_env \<Rightarrow> nat \<Rightarrow> (nat \<Rightarrow> counter \<Rightarrow> u64) \<Rightarrow> (nat \<Rightarrow> core_stats) \<Rightarrow> app_time \<Rightarrow> db_op list \<times> (nat \<Rightarrow> core_stats) \<times> app_time" where
  "report_to_db sys ports st stats t =
     (case print_stats_cb sys ports stats of (stats', r) \<Rightarrow>
        (let t' = printTime t in
         (updateAppStatsToDB st @
          [updateInterfaceStatsToDB (iface_of stats' r 0 1) 0, updateInterfaceStatsToDB (iface_of stats' r 1 0) 1,
           updateDeviceStatsToDB r (total_rate r fst) (total_rate r snd), updateTimeToDB t'], stats', t')))"

text \<open>One turn of the log thread: the connection at the head of the queue is written.\<close>

definition logs_turn :: "tm \<Rightarrow> inspect_state \<Rightarrow> inspect_state \<times> db_op option" where
  "logs_turn t s =
     (case log_pop (ns_log s) of
        None \<Rightarrow> (s, None)
      | Some (i, l) \<Rightarrow> (s\<lparr>ns_log := l\<rparr>, Some (insertNetstatToDB t (ns_data s i))))"

section \<open>The printed counters\<close>

definition app_rows :: "(string \<times> counter) list" where
  "app_rows =
     [(''eth'', C_eth), (''ethTypeARP'', C_ARP), (''ethTypeVLAN'', C_VLAN), (''ethTypeLLDP'', C_LLDP),
      (''ethTypeIPV4'', C_IPV4), (''ethTypeIPV6'', C_IPV6), (''ethTypeUNKNOWN'', C_ethUNKNOWN),
      (''ipTypeTCP'', C_TCP), (''ipTypeUDP'', C_UDP), (''ipTypeICMP'', C_ICMP), (''ipTypeESP'', C_ESP),
      (''ipTypeIGMP'', C_IGMP), (''ipTypeOSPF'', C_OSPF), (''ipTypeGRE'', C_GRE),
      (''ipTypeUNKNOWN'', C_ipUNKNOWN), (''udpTypeDNS'', C_udp DNS), (''udpTypeDHCP'', C_udp DHCP),
      (''udpTypeNTP'', C_udp NTP), (''udpTypeSNMP'', C_udp SNMP), (''udpTypeSYSLOG'', C_udp SYSLOG),
      (''udpTypeRIP'', C_udp RIP), (''udpTypeRADIUS'', C_udp RADIUS), (''udpTypeX11'', C_udp X11),
      (''udpTypeOPENVPN'', C_udp OPENVPN), (''udpTypeUNKNOWN'', C_udp UDP_UNKNOWN),
      (''tcpTypeFTP'', C_tcp FTP), (''tcpTypeSSH'', C_tcp SSH), (''tcpTypeTELNET'', C_tcp TELNET),
      (''tcpTypeSMTP'', C_tcp SMTP), (''tcpTypeHTTP'', C_tcp HTTP), (''tcpTypeHTTPS'', C_tcp HTTPS),
      (''tcpTypeIMAPS'', C_tcp IMAPS), (''tcpTypeMSSQL'', C_tcp MSSQL),
      (''tcpTypeORACLESQL'', C_tcp ORACLESQL), (''tcpTypePPTP'', C_tcp PPTP), (''tcpTypeMYSQL'', C_tcp MYSQL),
      (''tcpTypeRDP'', C_tcp RDP), (''tcpTypeVNC'', C_tcp VNC), (''tcpTypeNETBIOS'', C_tcp NETBIOS),
      (''tcpTypeBGP'', C_tcp BGP), (''tcpTypeSIP'', C_tcp SIP), (''tcpTypeLDAP'', C_tcp LDAP),
      (''tcpTypeSOCKS'', C_tcp SOCKS), (''tcpTypeSQUID'', C_tcp SQUID),
      (''tcpTypePOSTGRESQL'', C_tcp POSTGRESQL), (''tcpTypeREDIS'', C_tcp REDIS),
      (''tcpTypeELASTICSEARCH'', C_tcp ELASTICSEARCH), (''tcpTypeMONGODB'', C_tcp MONGODB),
      (''tcpTypeUNKNOWN'', C_tcp TCP_UNKNOWN)]"

definition printAppStats :: "(nat \<Rightarrow> counter \<Rightarrow> u64) \<Rightarrow> (string \<times> u64 \<times> u64) list" where
  "printAppStats st = map (\<lambda>(l, c). (l, st 0 c, st 1 c)) app_rows"

section \<open>The hash of the connection table\<close>

text \<open>\<open>mk\<close> is the library; without the table the program ends.\<close>

definition MyHashesSetup :: "(string \<Rightarrow> nat \<Rightarrow> bool) \<Rightarrow> bool" where
  "MyHashesSetup mk = mk ''NETSTAT'' NETSTAT_ENTRIES"

section \<open>The subscriber of the message bus\<close>

datatype nats_call =
    Options_create | Set_url string | Load_ca string | Load_chain string string | Set_token | Connect | Subscribe string
  | Destroy_subscription | Destroy_connection | Destroy_options

definition nats_setup :: "nats_call list" where
  "nats_setup =
     [Options_create, Set_url ''tls://localhost:4222'', Load_ca ''/etc/nats/nats-certs/rootCA.pem'',
      Load_chain ''/etc/nats/nats-certs/client-cert.pem'' ''/etc/nats/nats-certs/client-key.pem'', Set_token, Connect,
      Subscribe ''foo'']"

text \<open>The calls up to the first that fails, and whether all succeeded.\<close>

fun nats_run :: "(nats_call \<Rightarrow> bool) \<Rightarrow> nats_call list \<Rightarrow> nats_call list \<times> bool" where
  "nats_run ok [] = ([], True)"
| "nats_run ok (c # cs) = (if ok c then (case nats_run ok cs of (ds, b) \<Rightarrow> (c # ds, b)) else ([c], False))"

text \<open>All calls of the thread, and whether it waits for messages in between, until \<open>nats_running\<close> is cleared.\<close>

definition subscriber_thread :: "(nats_call \<Rightarrow> bool) \<Rightarrow> nats_call list \<times> bool" where
  "subscriber_thread ok =
     (case nats_run ok nats_setup of (ds, b) \<Rightarrow> (ds @ [Destroy_subscription, Destroy_connection, Destroy_options], b))"

text \<open>
  A message: \<open>snprintf\<close> is told the size of both slots of 1024 bytes. A write past them is undefined.
\<close>

record nats_buf =
  nb_mem :: "char list"
  nb_count :: nat

definition nats_start :: nats_buf where
  "nats_start = \<lparr>nb_mem = replicate 2048 CHR 0x00, nb_count = 0\<rparr>"

definition onMsg :: "string \<Rightarrow> nats_buf \<Rightarrow> errno + nats_buf" where
  "onMsg msg s =
     (let off = 1024 * nb_count s; w = take 2047 (takeWhile (\<lambda>c. c \<noteq> CHR 0x00) msg) @ [CHR 0x00] in
      if 2048 < off + length w then Inl UB
      else Inr \<lparr>nb_mem = take off (nb_mem s) @ w @ drop (off + length w) (nb_mem s),
                nb_count = (if nb_count s + 1 = 2 then 0 else nb_count s + 1)\<rparr>)"

text \<open>What the report prints of a slot: the text up to the first NUL.\<close>

definition ike_text :: "nats_buf \<Rightarrow> nat \<Rightarrow> string" where
  "ike_text s i = takeWhile (\<lambda>c. c \<noteq> CHR 0x00) (drop (1024 * i) (nb_mem s))"

end
