(* ===== verification/Services_Props.thy ===== *)
theory Services_Props
  imports Services
begin

text \<open>
  The services: each counter is written to the database under its own name, the texts made of times
  fit their buffers, and the slots of the message bus keep apart as long as messages are short.
\<close>

section \<open>Counters in the database\<close>

lemma tcp_field: "map_of port_fields (tcp_name t) = Some (C_tcp t)"
  by (cases t; hypsubst; code_simp)

lemma udp_field: "map_of port_fields (udp_name u) = (if u = IKEv2 then None else Some (C_udp u))"
  by (cases u; hypsubst; code_simp)

lemma counter_field: "map_of port_fields (counter_name c) = (if c = C_udp IKEv2 then None else Some c)"
proof (cases c)
  case (C_tcp t)
  then show ?thesis using tcp_field [of t] by simp
next
  case (C_udp u)
  then show ?thesis using udp_field [of u] by simp
qed (hypsubst, code_simp)+

lemma port_fields_distinct: "distinct (map fst port_fields)"
  by code_simp

lemma app_rows_counters: "set (map snd app_rows) = set (map snd port_fields)"
  by (simp add: app_rows_def port_fields_def insert_commute)

text \<open>C38. What is written to the database of the two ports: one document for each, in which every counter
  stands under the name of its own field, with no name twice, except the counter of key exchange
  packets, which is not written.
\<close>

theorem updateAppStatsToDB_faithful:
  "\<exists>d0 d1. updateAppStatsToDB st =
       [Db_update Port_stats [(''portid'', B_int32 0)] d0, Db_update Port_stats [(''portid'', B_int32 1)] d1] \<and>
     map fst d0 = map fst port_fields \<and> map fst d1 = map fst port_fields \<and> distinct (map fst port_fields) \<and>
     map_of d0 (counter_name c) = (if c = C_udp IKEv2 then None else Some (B_double (st 0 c))) \<and>
     map_of d1 (counter_name c) = (if c = C_udp IKEv2 then None else Some (B_double (st 1 c)))"
proof -
  define d where "d p = map (\<lambda>(f, c). (f, B_double (st p c))) port_fields" for p
  have m: "map_of (d p) n = map_option (\<lambda>c. B_double (st p c)) (map_of port_fields n)" for p n
    by (simp add: d_def map_of_map)
  have f: "map fst (d p) = map fst port_fields" for p by (auto simp: d_def)
  have "updateAppStatsToDB st =
      [Db_update Port_stats [(''portid'', B_int32 0)] (d 0), Db_update Port_stats [(''portid'', B_int32 1)] (d 1)]"
    by (simp add: updateAppStatsToDB_def d_def)
  then show ?thesis using m f port_fields_distinct counter_field by (intro exI [of _ "d 0"] exI [of _ "d 1"]) simp
qed

section \<open>Times\<close>

text \<open>The clock stays in range, so that its text fits the 32 bytes of \<open>appTime.time\<close>.\<close>

definition time_ok :: "app_time \<Rightarrow> bool" where
  "time_ok t \<longleftrightarrow> unat (t_sec t) < 60 \<and> unat (t_min t) < 60 \<and> unat (t_hrs t) < 24 \<and> unat (t_day t) < 30 \<and> unat (t_mon t) < 12"

lemma inc_in_range:
  assumes "unat (w :: u8) < n" and "n < 256" and "w + 1 \<noteq> of_nat n"
  shows "unat (w + 1) < n"
proof -
  have "unat (w + 1) = unat w + 1" using assms(1,2) by (simp add: unat_plus_if_size word_size)
  moreover have "unat (w + 1) \<noteq> n" using assms(2,3) by auto
  ultimately show ?thesis using assms(1) by linarith
qed

lemma printTime_ok:
  assumes "time_ok t"
  shows "time_ok (printTime t)"
proof -
  have r: "t_sec t + 1 \<noteq> 60 \<Longrightarrow> unat (t_sec t + 1) < 60" "t_min t + 1 \<noteq> 60 \<Longrightarrow> unat (t_min t + 1) < 60"
    "t_hrs t + 1 \<noteq> 24 \<Longrightarrow> unat (t_hrs t + 1) < 24" "t_day t + 1 \<noteq> 30 \<Longrightarrow> unat (t_day t + 1) < 30"
    "t_mon t + 1 \<noteq> 12 \<Longrightarrow> unat (t_mon t + 1) < 12"
    using assms inc_in_range [of "t_sec t" 60] inc_in_range [of "t_min t" 60] inc_in_range [of "t_hrs t" 24]
      inc_in_range [of "t_day t" 30] inc_in_range [of "t_mon t" 12]
    by (simp_all add: time_ok_def)
  have "t_min t \<noteq> 60" "t_hrs t \<noteq> 24" "t_day t \<noteq> 30" "t_mon t \<noteq> 12" using assms by (auto simp: time_ok_def)
  then show ?thesis using assms r by (simp add: printTime_def time_ok_def Let_def)
qed

lemma length_pad_dec: "n < 10 ^ Suc k \<Longrightarrow> Suc k \<le> w \<Longrightarrow> length (pad_dec w n) = w"
  using length_show_dec [of n k] by (simp add: pad_dec_def Let_def)

lemma time_text_fits:
  assumes "time_ok t"
  shows "length (time_text t) < 32"
proof -
  have "length (pad_dec 2 n) = 2" if "n < 100" for n using length_pad_dec [of n 1 2] that by simp
  moreover have "length (pad_dec 4 (unat (t_year t))) = 4"
    using length_pad_dec [of "unat (t_year t)" 2 4] unat_u8_less [of "t_year t"] by simp
  ultimately show ?thesis using assms by (simp add: time_text_def time_ok_def)
qed

section \<open>The message bus\<close>

definition nats_ok :: "nats_buf \<Rightarrow> bool" where
  "nats_ok s \<longleftrightarrow> length (nb_mem s) = 2048 \<and> nb_count s < 2"

lemma takeWhile_nul: "\<forall>c \<in> set m. c \<noteq> z \<Longrightarrow> takeWhile (\<lambda>c. c \<noteq> z) (m @ z # r) = m"
  by (induction m) auto

text \<open>
  A message of at most 1023 characters fills its slot, the other slot keeps its bytes, and the next
  message goes to the other slot.
\<close>

lemma onMsg_short:
  assumes "nats_ok s" and "\<forall>c \<in> set msg. c \<noteq> CHR 0x00" and "length msg \<le> 1023"
  shows "\<exists>s'. onMsg msg s = Inr s' \<and> nats_ok s' \<and> nb_count s' = 1 - nb_count s \<and> ike_text s' (nb_count s) = msg \<and>
    take 1024 (drop (1024 * (1 - nb_count s)) (nb_mem s')) = take 1024 (drop (1024 * (1 - nb_count s)) (nb_mem s))"
proof -
  have m: "takeWhile (\<lambda>c. c \<noteq> CHR 0x00) msg = msg" using assms(2) by (simp add: takeWhile_eq_all_conv)
  let ?off = "1024 * nb_count s" and ?w = "msg @ [CHR 0x00]"
  let ?mem = "take ?off (nb_mem s) @ ?w @ drop (?off + length ?w) (nb_mem s)"
  let ?s' = "\<lparr>nb_mem = ?mem, nb_count = (if nb_count s + 1 = 2 then 0 else nb_count s + 1)\<rparr>"
  have c: "nb_count s = 0 \<or> nb_count s = 1" "length (nb_mem s) = 2048" using assms(1) by (auto simp: nats_ok_def)
  have "take 2047 msg = msg" "\<not> 2048 < ?off + length ?w" using assms(3) c(1) by auto
  then have r: "onMsg msg s = Inr ?s'" unfolding onMsg_def m Let_def by simp
  have ok: "nats_ok ?s'" using assms(3) c by (auto simp: nats_ok_def)
  have t: "ike_text ?s' (nb_count s) = msg"
    using c takeWhile_nul [OF assms(2)] by (elim disjE) (simp_all add: ike_text_def)
  have "take 1024 (drop (1024 * (1 - nb_count s)) ?mem) = take 1024 (drop (1024 * (1 - nb_count s)) (nb_mem s))"
    using c assms(3) by (elim disjE) (simp_all add: min_def drop_Cons' Suc_diff_le)
  then show ?thesis using r ok t c(1) by (intro exI [of _ ?s']) auto
qed

text \<open>A longer one runs into the next slot, and from the second slot past the array.\<close>

lemma onMsg_overflow:
  assumes "nb_count s = 1" and "\<forall>c \<in> set msg. c \<noteq> CHR 0x00" and "1023 < length msg"
  shows "onMsg msg s = Inl UB"
proof -
  have m: "takeWhile (\<lambda>c. c \<noteq> CHR 0x00) msg = msg" using assms(2) by (simp add: takeWhile_eq_all_conv)
  show ?thesis using assms by (simp add: onMsg_def m Let_def min_def)
qed

text \<open>The thread waits for messages exactly when every step of its connection succeeded.\<close>

lemma nats_run_all: "snd (nats_run ok cs) \<longleftrightarrow> list_all ok cs"
  by (induction cs) (auto split: prod.splits)

lemma subscriber_waits: "snd (subscriber_thread ok) \<longleftrightarrow> list_all ok nats_setup"
  by (simp add: subscriber_thread_def nats_run_all split: prod.splits) (metis nats_run_all snd_conv)

end
