(* ===== verification/Start_Up.thy ===== *)
theory Start_Up
  imports Config_File_Props Runtime Event_Helper Kni_Props Services_Props
begin

text \<open>
  \<open>main\<close> of \<open>ipsec-secgw.c\<close>: how the parts are put together at start-up, in the order of the code, with
  every way it ends early. The definitions of the parts are called as they are; what is new here is
  the order, the state they hand on, and the loops over cores, ports and sockets. EAL, devices and
  libraries are the parameters of the parts, collected in \<open>gw_env\<close>.
\<close>

section \<open>Surroundings and outcomes\<close>

record ('d, 'c, 'e, 'l, 'm) gw_env =
  gv_eal :: bool
  gv_opts :: "opt list"
  gv_split :: "string \<Rightarrow> string list"
  gv_files :: "string \<Rightarrow> string option"
  gv_cfg :: cfg_env
  gv_eh :: eh_env
  gv_next_core :: u8
  gv_cdev_sizes :: "(nat \<times> nat option) list"
  gv_port_sizes :: "u16 \<Rightarrow> nat option"
  gv_cdev :: cdev_env
  gv_pool :: "string \<Rightarrow> u32 \<Rightarrow> bool"
  gv_port :: port_env
  gv_rx_security :: u64
  gv_tx_bit :: "tx_offload \<Rightarrow> u64"
  gv_sqn_flag :: u64
  gv_event :: "ev_op \<Rightarrow> ev_ret"
  gv_dev_start :: "u16 \<Rightarrow> bool"
  gv_flow_valid :: "u16 \<Rightarrow> bool"
  gv_flow_create :: "u16 \<Rightarrow> bool"
  gv_promisc :: "u16 \<Rightarrow> bool"
  gv_hz :: u64
  gv_frag_table :: "nat \<Rightarrow> u64 \<Rightarrow> bool"
  gv_rx_cb :: "u16 \<Rightarrow> u8 \<Rightarrow> bool"
  gv_sockets :: "nat list"
  gv_init :: "'d init_env"
  gv_acl4 :: "(fields4, 'c) acl_build"
  gv_acl6 :: "(fields6, 'e) acl_build"
  gv_lpm4 :: "('l, u32) lpm_api"
  gv_lpm6 :: "('m, u8 list) lpm_api"
  gv_rule_valid :: "u16 \<Rightarrow> fl_item list \<times> u16 \<Rightarrow> bool"
  gv_rule_create :: "u16 \<Rightarrow> fl_item list \<times> u16 \<Rightarrow> bool"
  gv_hash :: "string \<Rightarrow> nat \<Rightarrow> bool"
  gv_db :: db_env
  gv_kni :: kni_lib
  gv_kni_split :: "string \<Rightarrow> string list"
  gv_kni_mem :: bool

abbreviation gv_sys :: "('d, 'c, 'e, 'l, 'm) gw_env \<Rightarrow> sys_env" where "gv_sys env \<equiv> ee_sys (gv_eh env)"
abbreviation gv_ports :: "('d, 'c, 'e, 'l, 'm) gw_env \<Rightarrow> u16 list" where "gv_ports env \<equiv> ee_eths (gv_eh env)"

datatype start_exit =
    St_eal | St_args | St_cfg cfg_error | St_unprotected | St_poll | St_event | St_rx_queues | St_undefined
  | St_cdev cdev_exit | St_pool | St_caps | St_port port_exit | St_eh errno | St_dev_start | St_promisc
  | St_reasm | St_sa sa_exit | St_sp4 exit_cause | St_sp6 exit_cause | St_rt | St_hash | St_db | St_kni kni_exit

section \<open>Command line and configuration\<close>

text \<open>\<open>ethaddr_tbl\<close>: four source addresses of the program, zero for the other ports.\<close>

definition ethaddr_tbl :: "ethaddr_info list" where
  "ethaddr_tbl =
     map (\<lambda>a. \<lparr>eth_src = ethaddr_to_uint64 a, eth_dst = 0\<rparr>)
       [[0x00, 0x16, 0x3e, 0x7e, 0x94, 0x9a], [0x00, 0x16, 0x3e, 0x22, 0xa1, 0xd9],
        [0x00, 0x16, 0x3e, 0x08, 0x69, 0x26], [0x00, 0x16, 0x3e, 0x49, 0x9e, 0xdd]] @
     replicate 28 \<lparr>eth_src = 0, eth_dst = 0\<rparr>"

definition no_cfg :: cfg where
  "no_cfg = \<lparr>cf_sp4 = sp4_empty, cf_sp6 = sp6_empty, cf_sa = sa_empty, cf_rt = empty_rt, cf_flow = [], cf_eth = ethaddr_tbl\<rparr>"

text \<open>The options of the IPsec library.\<close>

definition app_prm :: "u64 \<Rightarrow> settings \<Rightarrow> app_sa_prm" where
  "app_prm sqn st =
     \<lparr>prm_enable = (if sa_enable st then 1 else 0), prm_window_size = sa_window_size st,
      prm_enable_esn = (if sa_esn st then 1 else 0), prm_cache_sz = sa_cache_sz st,
      prm_flags = (if sa_sqn_atom st then sqn else 0)\<rparr>"

text \<open>The SA lines depend on whether the library is enabled.\<close>

definition load_config :: "('d, 'c, 'e, 'l, 'm) gw_env \<Rightarrow> start_exit + settings \<times> cfg" where
  "load_config env =
     (if \<not> gv_eal env then Inl St_eal
      else case parse_args (gv_split env) (gv_opts env) of
        None \<Rightarrow> Inl St_args
      | Some st \<Rightarrow>
          (let ce = (gv_cfg env)\<lparr>ce_sa := (ce_sa (gv_cfg env))\<lparr>env_lib_enabled := sa_enable st\<rparr>\<rparr> in
           case parse_cfg_file ce (case cfgfile st of None \<Rightarrow> None | Some f \<Rightarrow> gv_files env f) no_cfg of
             Inl e \<Rightarrow> Inl (St_cfg e)
           | Inr cfg \<Rightarrow>
               (if unprotected_mask st AND enabled_port_mask st \<noteq> unprotected_mask st then Inl St_unprotected
                else Inr (st, cfg))))"

section \<open>Queues and crypto devices\<close>

definition map_queues ::
  "('d, 'c, 'e, 'l, 'm) gw_env \<Rightarrow> settings \<Rightarrow> cfg \<Rightarrow> start_exit + lcore_params list \<times> sched_type \<times> rx_queues" where
  "map_queues env st cfg =
     (case check_poll_mode_params (gv_sys env) st of
        Some UB \<Rightarrow> Inl St_undefined
      | Some e \<Rightarrow> Inl St_poll
      | None \<Rightarrow>
          (case check_event_mode_params st (cf_sa cfg) (gv_next_core env) (gv_ports env) of
             Ev_fault \<Rightarrow> Inl St_undefined
           | Ev_error \<Rightarrow> Inl St_event
           | Ev_exit \<Rightarrow> Inl St_event
           | Ev_ok lps sched \<Rightarrow>
               (case init_lcore_rx_queues lps (\<lambda>_. []) of
                  (rxq, Some e) \<Rightarrow> Inl St_rx_queues
                | (rxq, None) \<Rightarrow> Inr (lps, sched, rxq))))"

text \<open>The size of the sessions, and the queue pairs; event mode asks for one for each port.\<close>

definition start_crypto ::
  "('d, 'c, 'e, 'l, 'm) gw_env \<Rightarrow> settings \<Rightarrow> cfg \<Rightarrow> lcore_params list \<Rightarrow> start_exit + nat \<times> cdev_run" where
  "start_crypto env st cfg lps =
     (case max_session_size (gv_cdev_sizes env) (enabled_port_mask st) (map (\<lambda>p. (p, gv_port_sizes env p)) (gv_ports env)) of
        Inl e \<Rightarrow> Inl St_undefined
      | Inr sz \<Rightarrow>
          (case cryptodevs_init (gv_cdev env) st (db_crypto_sessions (cf_sa cfg)) lps
                  (if eh_mode st = Event_mode then of_nat (length (gv_ports env)) else 0) of
             Inl e \<Rightarrow> Inl (St_cdev e)
           | Inr r \<Rightarrow> Inr (sz, r)))"

section \<open>Memory pools\<close>

fun enabled_among :: "u32 \<Rightarrow> u16 list \<Rightarrow> errno + u16 list" where
  "enabled_among msk [] = Inr []"
| "enabled_among msk (p # ps) =
     (case port_in_mask msk p of
        Inl e \<Rightarrow> Inl e
      | Inr b \<Rightarrow> (case enabled_among msk ps of Inl e \<Rightarrow> Inl e | Inr qs \<Rightarrow> Inr (if b then p # qs else qs)))"

definition enabled_lcores :: "sys_env \<Rightarrow> nat list" where
  "enabled_lcores sys = filter (sy_lcore sys) [0..<sy_max_lcore sys]"

definition nb_bufs_of :: "sys_env \<Rightarrow> settings \<Rightarrow> lcore_params list \<Rightarrow> u16 list \<Rightarrow> u16 \<Rightarrow> u32" where
  "nb_bufs_of sys st lps eps nb_crypto_qp =
     (if nb_bufs_in_pool st \<noteq> 0 then nb_bufs_in_pool st
      else
        (let n = of_nat (length (enabled_lcores sys)) in
         calculate_nb_mbufs n 1024 1024 (frag_tbl_sz st) (of_nat (length eps)) nb_crypto_qp
           (sum_list (map (\<lambda>p. ucast (get_port_nb_rx_queues lps p)) eps)) n))"

text \<open>The pools of a socket; \<open>mk\<close> creates a pool of a name and a number of elements.\<close>

definition pool_init :: "(string \<Rightarrow> u32 \<Rightarrow> bool) \<Rightarrow> bool \<Rightarrow> nat \<Rightarrow> u32 \<Rightarrow> bool" where
  "pool_init mk ms socket nb \<longleftrightarrow>
     mk (''mbuf_pool_'' @ show_dec socket) nb \<and> (ms \<longrightarrow> mk (''mbuf_pool_indir_'' @ show_dec socket) nb)"

definition session_pool_init :: "(string \<Rightarrow> u32 \<Rightarrow> bool) \<Rightarrow> nat \<Rightarrow> u32 \<Rightarrow> u32 \<Rightarrow> bool" where
  "session_pool_init mk socket nsess lcores = mk (''sess_mp_'' @ show_dec socket) (nb_pool_sessions nsess lcores)"

definition session_priv_pool_init :: "(string \<Rightarrow> u32 \<Rightarrow> bool) \<Rightarrow> nat \<Rightarrow> u32 \<Rightarrow> u32 \<Rightarrow> bool" where
  "session_priv_pool_init mk socket nsess lcores = mk (''sess_mp_priv_'' @ show_dec socket) (nb_pool_sessions nsess lcores)"

text \<open>One set of pools for each socket of an enabled core.\<close>

fun make_pools ::
  "('d, 'c, 'e, 'l, 'm) gw_env \<Rightarrow> settings \<Rightarrow> u32 \<Rightarrow> u32 \<Rightarrow> nat list \<Rightarrow> nat list \<Rightarrow> start_exit + nat list" where
  "make_pools env st nb nsess [] done = Inr done"
| "make_pools env st nb nsess (l # ls) done =
     (let s = (if pe_numa (gv_port env) then unat (pe_socket (gv_port env) l) else 0);
          n = of_nat (length (enabled_lcores (gv_sys env))) in
      if s \<in> set done then make_pools env st nb nsess ls done
      else if pool_init (gv_pool env) (multi_seg_required st) s nb \<and> session_pool_init (gv_pool env) s nsess n \<and>
              session_priv_pool_init (gv_pool env) s nsess n
      then make_pools env st nb nsess ls (done @ [s])
      else Inl St_pool)"

section \<open>Ports\<close>

definition tx_bits :: "(tx_offload \<Rightarrow> u64) \<Rightarrow> tx_offload set \<Rightarrow> u64" where
  "tx_bits f tx =
     (if TX_SECURITY \<in> tx then f TX_SECURITY else 0) OR (if TX_TCP_TSO \<in> tx then f TX_TCP_TSO else 0) OR
     (if TX_IPV4_CKSUM \<in> tx then f TX_IPV4_CKSUM else 0)"

text \<open>Each enabled port with its result, whether it decrypts, and whether it asked for the checksum offload.\<close>

type_synonym port_entry = "u16 \<times> port_result \<times> bool \<times> bool"

fun init_ports ::
  "('d, 'c, 'e, 'l, 'm) gw_env \<Rightarrow> settings \<Rightarrow> cfg \<Rightarrow> lcore_params list \<Rightarrow> rx_queues \<Rightarrow> u16 list \<Rightarrow> start_exit + port_entry list" where
  "init_ports env st cfg lps rxq [] = Inr []"
| "init_ports env st cfg lps rxq (p # ps) =
     (case sa_check_offloads (gv_init env) (cf_sa cfg) p of
        Inl e \<Rightarrow> Inl St_caps
      | Inr (rx, tx) \<Rightarrow>
          (case port_init (gv_port env) (gv_sys env) st lps (of_nat (length (enabled_lcores (gv_sys env)))) rxq p
                  (if rx then gv_rx_security env else 0) (tx_bits (gv_tx_bit env) tx) of
             Inl e \<Rightarrow> Inl (St_port e)
           | Inr r \<Rightarrow> map_sum id ((#) (p, r, rx, TX_IPV4_CKSUM \<in> tx)) (init_ports env st cfg lps rxq ps)))"

text \<open>The cores use the checksum offload when every port in the mask has it.\<close>

definition cksum_ports :: "port_entry list \<Rightarrow> u32" where
  "cksum_ports es = fold (\<lambda>(p, r, rx, ck) m. if ck then m OR push_bit (unat p) 1 else m) es 0"

definition hw_cksum :: "settings \<Rightarrow> port_entry list \<Rightarrow> bool" where
  "hw_cksum st es \<longleftrightarrow> cksum_ports es = enabled_port_mask st"

definition start_events ::
  "('d, 'c, 'e, 'l, 'm) gw_env \<Rightarrow> settings \<Rightarrow> sched_type \<Rightarrow> start_exit + eventmode_conf" where
  "start_events env st sched =
     (let em = (eh_conf_init (gv_eh env))\<lparr>em_sched := sched, em_vector := event_vector st,
                 em_vector_size := ucast (vector_size st), em_vector_tmo := vector_tmo_ns st\<rparr>
      in if eh_mode st \<noteq> Event_mode then Inr em
         else case eh_devs_init (gv_eh env) (gv_event env) (enabled_port_mask st) em None of
           ((log, Some e), em') \<Rightarrow> Inl (St_eh e)
         | ((log, None), em') \<Rightarrow> Inr em')"

text \<open>Starting the ports; the value is the ports with a default flow.\<close>

fun start_ports ::
  "('d, 'c, 'e, 'l, 'm) gw_env \<Rightarrow> settings \<Rightarrow> port_entry list \<Rightarrow> (u16 \<Rightarrow> bool) \<Rightarrow> start_exit + (u16 \<Rightarrow> bool)" where
  "start_ports env st [] fl = Inr fl"
| "start_ports env st ((p, r, rx, ck) # es) fl =
     (if \<not> gv_dev_start env p then Inl St_dev_start
      else
        (let fl' = create_default_ipsec_flow rx (gv_flow_valid env p) (gv_flow_create env p) p fl in
         if promiscuous_on st \<and> \<not> gv_promisc env p then Inl St_promisc
         else start_ports env st es fl'))"

definition start_reassembly ::
  "('d, 'c, 'e, 'l, 'm) gw_env \<Rightarrow> settings \<Rightarrow> lcore_params list \<Rightarrow> rx_queues \<Rightarrow> start_exit + reasm" where
  "start_reassembly env st lps rxq =
     (let r0 = \<lparr>ra_tables = [], ra_callbacks = []\<rparr> in
      if frag_tbl_sz st = 0 then Inr r0
      else case reassemble_init (gv_frag_table env) (gv_rx_cb env) (frag_cycles (gv_hz env) (frag_ttl_ns st)) rxq lps r0 of
        (r, Some e) \<Rightarrow> Inl St_reasm
      | (r, None) \<Rightarrow> Inr r)"

section \<open>The sockets\<close>

record ('d, 'c, 'e, 'l, 'm) socket =
  sk_sa :: "'d socket_sa"
  sk_in4 :: "'c option"
  sk_out4 :: "'c option"
  sk_in6 :: "'e option"
  sk_out6 :: "'e option"
  sk_rt4 :: "'l option"
  sk_rt6 :: "'m option"

definition no_socket :: "('d, 'c, 'e, 'l, 'm) socket" where
  "no_socket = \<lparr>sk_sa = \<lparr>so_in = None, so_out = None\<rparr>, sk_in4 = None, sk_out4 = None, sk_in6 = None, sk_out6 = None,
     sk_rt4 = None, sk_rt6 = None\<rparr>"

definition table_of :: "'d sa_ctx option \<Rightarrow> ipsec_sa list" where
  "table_of c = (case c of None \<Rightarrow> [] | Some t \<Rightarrow> cs_sa t)"

text \<open>
  One socket: SAs, IPv4 and IPv6 policies, routes. The policies of the configuration are changed by the
  initialisation, so that the next socket starts from the changed ones.
\<close>

definition init_socket ::
  "('d, 'c, 'e, 'l, 'm) gw_env \<Rightarrow> 'd init_env \<Rightarrow> nat \<Rightarrow> cfg \<Rightarrow> ('d, 'c, 'e, 'l, 'm) socket \<Rightarrow>
     start_exit + cfg \<times> ('d, 'c, 'e, 'l, 'm) socket" where
  "init_socket env ie s cfg sk =
     (case sa_init (ie\<lparr>in_sp4 := cf_sp4 cfg, in_sp6 := cf_sp6 cfg\<rparr>) (cf_sa cfg) (sk_sa sk) of
        Inl e \<Rightarrow> Inl (St_sa e)
      | Inr so \<Rightarrow>
          (case sp4_init (gv_acl4 env) (int s) \<lparr>sa_in = table_of (so_in so), sa_out = table_of (so_out so),
                  sp_ip4_in = sk_in4 sk, sp_ip4_out = sk_out4 sk\<rparr> (cf_sp4 cfg) of
             Inl e \<Rightarrow> Inl (St_sp4 e)
           | Inr (c4, db4) \<Rightarrow>
               (case sp6_init (gv_acl6 env) (int s) \<lparr>sa6_in = table_of (so_in so), sa6_out = table_of (so_out so),
                       sp_ip6_in = sk_in6 sk, sp_ip6_out = sk_out6 sk\<rparr> (cf_sp6 cfg) of
                  Inl e \<Rightarrow> Inl (St_sp6 e)
                | Inr (c6, db6) \<Rightarrow>
                    (case rt_init (gv_lpm4 env) (gv_lpm6 env) (cf_rt cfg) (sk_rt4 sk) (sk_rt6 sk) of
                       None \<Rightarrow> Inl St_rt
                     | Some (l, m) \<Rightarrow>
                         Inr (cfg\<lparr>cf_sp4 := db4, cf_sp6 := db6\<rparr>,
                              \<lparr>sk_sa = so, sk_in4 = sp_ip4_in c4, sk_out4 = sp_ip4_out c4, sk_in6 = sp_ip6_in c6,
                               sk_out6 = sp_ip6_out c6, sk_rt4 = Some l, sk_rt6 = Some m\<rparr>)))))"

fun init_sockets ::
  "('d, 'c, 'e, 'l, 'm) gw_env \<Rightarrow> 'd init_env \<Rightarrow> nat list \<Rightarrow> nat list \<Rightarrow> cfg \<Rightarrow> (nat \<Rightarrow> ('d, 'c, 'e, 'l, 'm) socket) \<Rightarrow>
     start_exit + cfg \<times> (nat \<Rightarrow> ('d, 'c, 'e, 'l, 'm) socket)" where
  "init_sockets env ie pools [] cfg sk = Inr (cfg, sk)"
| "init_sockets env ie pools (s # ss) cfg sk =
     (if s \<in> set pools \<and> so_in (sk_sa (sk s)) = None \<and> so_out (sk_sa (sk s)) = None
      then (case init_socket env ie s cfg (sk s) of
              Inl e \<Rightarrow> Inl e
            | Inr (cfg', x) \<Rightarrow> init_sockets env ie pools ss cfg' (sk(s := x)))
      else init_sockets env ie pools ss cfg sk)"

section \<open>Services\<close>

text \<open>
  The type given with \<open>-d\<close>; without it every field is zero. The first bytes of the address are those of
  the type.
\<close>

definition encryptor_of :: "settings \<Rightarrow> encryptor_type" where
  "encryptor_of st =
     (case device_type st of
        None \<Rightarrow> \<lparr>dt_client_port = 0, dt_kni_rx = 0, dt_kni_tx = 0, dt_mac = [0, 0, 0, 0, 0, 0]\<rparr>
      | Some (ports, client, rx, tx, b) \<Rightarrow>
          \<lparr>dt_client_port = of_nat client, dt_kni_rx = of_nat rx, dt_kni_tx = of_nat tx, dt_mac = [2, 0, 0, 0, 0, b]\<rparr>)"

definition start_services :: "('d, 'c, 'e, 'l, 'm) gw_env \<Rightarrow> settings \<Rightarrow> nat list \<Rightarrow> start_exit + kni_params" where
  "start_services env st pools =
     (if \<not> MyHashesSetup (gv_hash env) then Inl St_hash
      else case init_mongo_connection (gv_db env) of
        None \<Rightarrow> Inl St_db
      | Some names \<Rightarrow>
          (case kni_config (gv_kni env) (gv_kni_split env) (gv_kni_mem env) (encryptor_of st) (0 \<in> set pools) (\<lambda>_. None) of
             Inl e \<Rightarrow> Inl (St_kni e)
           | Inr (n, ps) \<Rightarrow> Inr ps))"

text \<open>
  \<open>check_all_ports_link_status\<close> waits until all links are up, at most 90 rounds of 100 ms; the value
  is the number of rounds waited. In the last round, after the flag was set, it only prints.
\<close>

datatype link = Link_failed | Link_down | Link_up

definition links_up :: "u32 \<Rightarrow> u16 list \<Rightarrow> (u16 \<Rightarrow> link) \<Rightarrow> bool" where
  "links_up msk ports lk = list_all (\<lambda>p. port_in_mask msk p = Inr True \<longrightarrow> lk p = Link_up) ports"

fun status_loop :: "u32 \<Rightarrow> u16 list \<Rightarrow> (nat \<Rightarrow> u16 \<Rightarrow> link) \<Rightarrow> nat list \<Rightarrow> bool \<Rightarrow> nat" where
  "status_loop msk ports lk [] flag = 0"
| "status_loop msk ports lk (c # cs) flag =
     (if flag then 0
      else
        (let up = links_up msk ports (lk c)
         in (if up then 0 else 1) + status_loop msk ports lk cs (up \<or> c = 89)))"

definition check_all_ports_link_status :: "u32 \<Rightarrow> u16 list \<Rightarrow> (nat \<Rightarrow> u16 \<Rightarrow> link) \<Rightarrow> nat" where
  "check_all_ports_link_status msk ports lk = status_loop msk ports lk [0..<91] False"

section \<open>Start-up\<close>

record ('d, 'c, 'e, 'l, 'm) gateway =
  gw_settings :: settings
  gw_cfg :: cfg
  gw_lps :: "lcore_params list"
  gw_rxq :: rx_queues
  gw_cdev :: cdev_run
  gw_nb_bufs :: u32
  gw_pools :: "nat list"
  gw_ports :: "port_entry list"
  gw_em :: eventmode_conf
  gw_reasm :: reasm
  gw_sockets :: "nat \<Rightarrow> ('d, 'c, 'e, 'l, 'm) socket"
  gw_def_flow :: "u16 \<Rightarrow> bool"
  gw_flow :: "flow_rule_entry list"
  gw_kni :: kni_params

text \<open>What the initialisation of SAs sees: the options of the library and the default flows of the ports.\<close>

definition init_env_of :: "('d, 'c, 'e, 'l, 'm) gw_env \<Rightarrow> settings \<Rightarrow> (u16 \<Rightarrow> bool) \<Rightarrow> 'd init_env" where
  "init_env_of env st fl =
     (gv_init env)\<lparr>in_dev := (in_dev (gv_init env))\<lparr>env_prm := app_prm (gv_sqn_flag env) st, rx_def_flow := fl\<rparr>\<rparr>"

definition start_devices ::
  "('d, 'c, 'e, 'l, 'm) gw_env \<Rightarrow> settings \<Rightarrow> cfg \<Rightarrow> lcore_params list \<Rightarrow> sched_type \<Rightarrow> rx_queues \<Rightarrow>
     start_exit + port_entry list \<times> eventmode_conf \<times> (u16 \<Rightarrow> bool) \<times> reasm" where
  "start_devices env st cfg lps sched rxq =
     (case enabled_among (enabled_port_mask st) (gv_ports env) of
        Inl e \<Rightarrow> Inl St_undefined
      | Inr eps \<Rightarrow>
          (case init_ports env st cfg lps rxq eps of
             Inl e \<Rightarrow> Inl e
           | Inr es \<Rightarrow>
               (case start_events env st sched of
                  Inl e \<Rightarrow> Inl e
                | Inr em \<Rightarrow>
                    (case start_ports env st es (\<lambda>_. False) of
                       Inl e \<Rightarrow> Inl e
                     | Inr fl \<Rightarrow>
                         (case start_reassembly env st lps rxq of
                            Inl e \<Rightarrow> Inl e
                          | Inr ra \<Rightarrow> Inr (es, em, fl, ra))))))"

definition start_memory ::
  "('d, 'c, 'e, 'l, 'm) gw_env \<Rightarrow> settings \<Rightarrow> cfg \<Rightarrow> lcore_params list \<Rightarrow> cdev_run \<Rightarrow> start_exit + u32 \<times> nat list" where
  "start_memory env st cfg lps cd =
     (case enabled_among (enabled_port_mask st) (gv_ports env) of
        Inl e \<Rightarrow> Inl St_undefined
      | Inr eps \<Rightarrow>
          (let nb = nb_bufs_of (gv_sys env) st lps eps (cr_total cd) in
           map_sum id (Pair nb) (make_pools env st nb (db_crypto_sessions (cf_sa cfg)) (enabled_lcores (gv_sys env)) [])))"

definition gateway_main :: "('d, 'c, 'e, 'l, 'm) gw_env \<Rightarrow> start_exit + ('d, 'c, 'e, 'l, 'm) gateway" where
  "gateway_main env =
     (case load_config env of Inl e \<Rightarrow> Inl e | Inr (st, cfg) \<Rightarrow>
      case map_queues env st cfg of Inl e \<Rightarrow> Inl e | Inr (lps, sched, rxq) \<Rightarrow>
      case start_crypto env st cfg lps of Inl e \<Rightarrow> Inl e | Inr (sz, cd) \<Rightarrow>
      case start_memory env st cfg lps cd of Inl e \<Rightarrow> Inl e | Inr (nb, pools) \<Rightarrow>
      case start_devices env st cfg lps sched rxq of Inl e \<Rightarrow> Inl e | Inr (es, em, fl, ra) \<Rightarrow>
      case init_sockets env (init_env_of env st fl) pools (gv_sockets env) cfg (\<lambda>_. no_socket) of Inl e \<Rightarrow> Inl e | Inr (cfg', sk) \<Rightarrow>
      case start_services env st pools of Inl e \<Rightarrow> Inl e | Inr kp \<Rightarrow>
        Inr \<lparr>gw_settings = st, gw_cfg = cfg', gw_lps = lps, gw_rxq = rxq, gw_cdev = cd, gw_nb_bufs = nb, gw_pools = pools,
             gw_ports = es, gw_em = em, gw_reasm = ra, gw_sockets = sk, gw_def_flow = fl,
             gw_flow = flow_init (gv_rule_valid env) (gv_rule_create env) (cf_flow cfg'), gw_kni = kp\<rparr>)"

text \<open>What the cores then do.\<close>

definition lcore_runs :: "('d, 'c, 'e, 'l, 'm) gateway \<Rightarrow> nat \<Rightarrow> role" where
  "lcore_runs gw lcore =
     (let d = encryptor_of (gw_settings gw) in
      ipsec_launch_one_lcore (unat (dt_kni_rx d)) (unat (dt_kni_tx d)) (eh_mode (gw_settings gw)) lcore)"

section \<open>Shut-down\<close>

text \<open>
  The signal handler: the flags all loops read are set, but then it leaves the program itself; the
  second component is whether it does.
\<close>

record quit_flags =
  qf_force_quit :: bool
  qf_nats_running :: bool
  qf_kni :: kni_sys

datatype signal = SIGINT | SIGTERM | SIG_other

definition signal_handler :: "signal \<Rightarrow> quit_flags \<Rightarrow> quit_flags \<times> bool" where
  "signal_handler sg q =
     (if sg = SIGINT \<or> sg = SIGTERM
      then (\<lparr>qf_force_quit = True, qf_nats_running = False, qf_kni = signal_handler_kni (qf_kni q)\<rparr>, True)
      else (q, False))"

text \<open>
  The end of \<open>main\<close>, when all cores have returned: the event devices, the inline sessions of each
  socket, crypto devices, ports with their default flow, the database, EAL. Only the first of these can
  fail, the others print. \<open>valid\<close> says which ports are still there, \<open>ncdev\<close> is the number of crypto devices.
\<close>

datatype close_op =
    Destroy_session "nat option" | Cdev_stop nat | Cdev_close nat | Flow_destroy u16 | Eth_stop u16 | Eth_close u16
  | Mongo_cleanup | Eal_cleanup

definition socket_sessions :: "(u16 \<Rightarrow> bool) \<Rightarrow> ('d, 'c, 'e, 'l, 'm) socket \<Rightarrow> nat option list" where
  "socket_sessions valid sk = inline_sessions_free valid (so_in (sk_sa sk)) @ inline_sessions_free valid (so_out (sk_sa sk))"

definition close_port :: "(u16 \<Rightarrow> bool) \<Rightarrow> u16 \<Rightarrow> close_op list" where
  "close_port fl p = (if fl p then [Flow_destroy p] else []) @ [Eth_stop p, Eth_close p]"

definition gateway_shutdown ::
  "(ev_op \<Rightarrow> ev_ret) \<Rightarrow> (u16 \<Rightarrow> bool) \<Rightarrow> nat \<Rightarrow> ('d, 'c, 'e, 'l, 'm) gw_env \<Rightarrow> ('d, 'c, 'e, 'l, 'm) gateway \<Rightarrow> start_exit + close_op list" where
  "gateway_shutdown dv valid ncdev env gw =
     (case (if eh_mode (gw_settings gw) = Event_mode then snd (eh_devs_uninit dv (gw_em gw)) else None) of
        Some e \<Rightarrow> Inl (St_eh e)
      | None \<Rightarrow>
          (case enabled_among (enabled_port_mask (gw_settings gw)) (gv_ports env) of
             Inl e \<Rightarrow> Inl St_undefined
           | Inr eps \<Rightarrow>
               Inr (map Destroy_session (concat (map (\<lambda>s. socket_sessions valid (gw_sockets gw s)) (gv_sockets env))) @
                    concat (map (\<lambda>c. [Cdev_stop c, Cdev_close c]) [0..<ncdev]) @
                    concat (map (close_port (gw_def_flow gw)) eps) @ [Mongo_cleanup, Eal_cleanup])))"

end
