(* ===== verification/Start_Up_Example.thy ===== *)
theory Start_Up_Example
  imports Start_Up SA_Init_Props Setup_Props
begin

text \<open>
  An example of the start-up: one socket, two ports, two cores; a file with a rule for each direction that lets a network pass, and a
  route to it. The libraries accept everything; the classifier is the list of rules itself. Reading the
  file is evaluated piece by piece.
\<close>

definition gw_cmdline :: "string \<Rightarrow> cfg_cmd" where
  "gw_cmdline s = (if take 3 s = ''sp '' then Cmd_sp (drop 3 s) else if take 3 s = ''rt '' then Cmd_rt (drop 3 s) else Cmd_fail)"

definition sp_line :: "string \<Rightarrow> string" where
  "sp_line dir = ''ipv4 '' @ dir @ '' esp bypass pri 1 dst 192.168.1.0/24 sport 0:999 dport 0:999''"

definition rt_line :: string where "rt_line = ''ipv4 dst 192.168.1.0/24 port 1''"

definition gw_file :: string where
  "gw_file = ''sp '' @ sp_line ''in'' @ [nl] @ ''sp '' @ sp_line ''out'' @ [nl] @ ''rt '' @ rt_line @ [nl]"

definition sample_eh :: eh_env where
  "sample_eh = \<lparr>ee_sys = sample_sys, ee_next = (\<lambda>_ _ _. 1), ee_nb_eventdev = 0, ee_nb_eth = 2, ee_eths = [0, 1],
     ee_info = (\<lambda>_. Inl EINVAL), ee_rx_caps = (\<lambda>_ _. Inr True), ee_tx_caps = (\<lambda>_ _. Inr True),
     ee_limits = (\<lambda>_ _. Inl EINVAL), ee_tx_port = (\<lambda>_. Inl EINVAL), ee_nb_bufs = 0\<rparr>"

definition gw_ce :: cfg_env where
  "gw_ce = \<lparr>ce_sa = \<lparr>env_inet = sample_inet, env_rand = 9, env_lib_enabled = False\<rparr>, ce_mem = True,
     ce_stack = (\<lambda>_ _. 0), ce_cmdline = gw_cmdline, ce_cl_ok = True\<rparr>"

definition sample_gw :: "((u32 \<times> nat) list, acl4_rule list, acl6_rule list, u32 \<times> nat \<Rightarrow> u8 option, u8 list \<times> nat \<Rightarrow> u8 option) gw_env" where
  "sample_gw =
     \<lparr>gv_eal = True, gv_opts = [Opt_p ''3'', Opt_u ''2'', Opt_f ''f'', Opt_config ''(0,0,0)''], gv_split = sample_split,
      gv_files = (\<lambda>_. Some gw_file), gv_cfg = gw_ce, gv_eh = sample_eh, gv_next_core = 1,
      gv_cdev_sizes = [], gv_port_sizes = (\<lambda>_. None), gv_cdev = sample_cdevs, gv_pool = (\<lambda>_ _. True), gv_port = sample_ports,
      gv_rx_security = 0x8000, gv_tx_bit = (\<lambda>_. 2), gv_sqn_flag = 1, gv_event = (\<lambda>_. Done), gv_dev_start = (\<lambda>_. True),
      gv_flow_valid = (\<lambda>_. True), gv_flow_create = (\<lambda>_. True), gv_promisc = (\<lambda>_. True), gv_hz = 1, gv_frag_table = (\<lambda>_ _. True),
      gv_rx_cb = (\<lambda>_ _. True), gv_sockets = [0],
      gv_init = sample_init_env\<lparr>in_caps := (\<lambda>_. Inr \<lparr>cap_rx_sec = True, cap_tx_sec = True, cap_tx_tso = True, cap_tx_cksum = True\<rparr>)\<rparr>,
      gv_acl4 = (\<lambda>_ _ rs. Some rs), gv_acl6 = (\<lambda>_ _ rs. Some rs), gv_lpm4 = map_lpm pre4 32, gv_lpm6 = map_lpm pre6 128,
      gv_rule_valid = (\<lambda>_ _. True), gv_rule_create = (\<lambda>_ _. True), gv_hash = (\<lambda>_ _. True),
      gv_db = \<lparr>db_uri = True, db_client = True, db_open = (\<lambda>_. True)\<rparr>, gv_kni = sample_kni_lib, gv_kni_split = sample_split4,
      gv_kni_mem = True\<rparr>"

text \<open>What the file gives: the rule in both directions, the route, nothing else.\<close>

definition gw_rule :: acl4_rule where
  "gw_rule = \<lparr>data = \<lparr>category_mask = 1, priority = 1, userdata = BYPASS\<rparr>,
     field = \<lparr>proto4 = (0, 0), src4 = (0, 0), dst4 = (0xC0A80100, 24), sport4 = (0, 999), dport4 = (0, 999)\<rparr>\<rparr>"

definition one_rule_vec :: "acl4_rule vec \<Rightarrow> bool" where
  "one_rule_vec v \<longleftrightarrow> vec_elems v = [gw_rule] \<and> v_cnt v = 1"

definition gw_cfg_of :: "cfg \<Rightarrow> bool" where
  "gw_cfg_of c \<longleftrightarrow> cf_sa c = sa_empty \<and> cf_sp6 c = sp6_empty \<and> cf_flow c = [] \<and>
     one_rule_vec (acl4_rules_in (cf_sp4 c)) \<and> one_rule_vec (acl4_rules_out (cf_sp4 c)) \<and>
     routes4 (cf_rt c) = [\<lparr>rt_dst = 0xC0A80100, rt_depth = 24, rt_if_out = 1\<rparr>] \<and> routes6 (cf_rt c) = []"

lemma one_rule_sorted: "one_rule_vec v \<Longrightarrow> one_rule_vec (vec_set_elems (c_qsort sp4_cmp (vec_elems v)) v)"
  by (cases "v_tbl v") (auto simp: one_rule_vec_def vec_elems_def vec_set_elems_def)

definition sp_toks :: "string \<Rightarrow> string list" where
  "sp_toks dir = [''ipv4'', dir, ''esp'', ''bypass'', ''pri'', ''1'', ''dst'', ''192.168.1.0/24'', ''sport'', ''0:999'', ''dport'', ''0:999'']"

lemma sp_line_parsed:
  obtains d1 d2 where "cfg_sp_add_cfg_item_parsed gw_ce (sp_line ''in'' @ [nl, nl]) no_cfg = (no_cfg\<lparr>cf_sp4 := d1\<rparr>, None)"
    and "\<And>c. cf_sp4 c = d1 \<Longrightarrow> cfg_sp_add_cfg_item_parsed gw_ce (sp_line ''out'' @ [nl, nl]) c = (c\<lparr>cf_sp4 := d2\<rparr>, None)"
    and "one_rule_vec (acl4_rules_in d2)" and "one_rule_vec (acl4_rules_out d2)"
proof -
  have t: "parse_tokenize_string 32 (sp_line ''in'' @ [nl, nl]) = (sp_toks ''in'', True)"
      "parse_tokenize_string 32 (sp_line ''out'' @ [nl, nl]) = (sp_toks ''out'', True)"
    by code_simp+
  let ?p = "\<lambda>dir. parse_sp4_tokens sample_inet True (sp_toks dir)"
  have c: "case ?p ''in'' sp4_empty of (d1, e) \<Rightarrow> e = None \<and> (case ?p ''out'' d1 of (d2, e) \<Rightarrow> e = None \<and>
      vec_elems (acl4_rules_in d2) = [gw_rule] \<and> v_cnt (acl4_rules_in d2) = 1 \<and>
      vec_elems (acl4_rules_out d2) = [gw_rule] \<and> v_cnt (acl4_rules_out d2) = 1)"
    by code_simp
  obtain d1 e1 where d1: "?p ''in'' sp4_empty = (d1, e1)" by (cases "?p ''in'' sp4_empty")
  obtain d2 e2 where d2: "?p ''out'' d1 = (d2, e2)" by (cases "?p ''out'' d1")
  have "e1 = None" "e2 = None" "one_rule_vec (acl4_rules_in d2)" "one_rule_vec (acl4_rules_out d2)"
    using c d1 d2 by (simp_all add: one_rule_vec_def)
  then show ?thesis using d1 d2
    by (intro that [of d1 d2]) (simp_all add: cfg_sp_add_cfg_item_parsed_def t sp_toks_def gw_ce_def no_cfg_def)
qed

lemma rt_line_parsed:
  obtains db where "\<And>c. cf_rt c = empty_rt \<Longrightarrow> cfg_rt_add_cfg_item_parsed gw_ce (rt_line @ [nl, nl]) c = (c\<lparr>cf_rt := db\<rparr>, None)"
    and "routes4 db = [\<lparr>rt_dst = 0xC0A80100, rt_depth = 24, rt_if_out = 1\<rparr>]" and "routes6 db = []"
proof -
  let ?toks = "[''ipv4'', ''dst'', ''192.168.1.0/24'', ''port'', ''1'']"
  have t: "parse_tokenize_string 32 (rt_line @ [nl, nl]) = (?toks, True)" by code_simp
  have "case parse_rt_tokens sample_inet ?toks empty_rt of
      (db, e) \<Rightarrow> e = None \<and> routes4 db = [\<lparr>rt_dst = 0xC0A80100, rt_depth = 24, rt_if_out = 1\<rparr>] \<and> routes6 db = []"
    by code_simp
  then obtain db where "parse_rt_tokens sample_inet ?toks empty_rt = (db, None)"
      "routes4 db = [\<lparr>rt_dst = 0xC0A80100, rt_depth = 24, rt_if_out = 1\<rparr>]" "routes6 db = []"
    by (auto split: prod.splits)
  then show ?thesis by (intro that [of db]) (simp_all add: cfg_rt_add_cfg_item_parsed_def t gw_ce_def)
qed

lemma gw_file_parsed:
  obtains c where "parse_cfg_file gw_ce (Some gw_file) no_cfg = Inr c" and "gw_cfg_of c"
proof -
  obtain d1 d4 where sp: "cfg_sp_add_cfg_item_parsed gw_ce (sp_line ''in'' @ [nl, nl]) no_cfg = (no_cfg\<lparr>cf_sp4 := d1\<rparr>, None)"
      "\<And>c. cf_sp4 c = d1 \<Longrightarrow> cfg_sp_add_cfg_item_parsed gw_ce (sp_line ''out'' @ [nl, nl]) c = (c\<lparr>cf_sp4 := d4\<rparr>, None)"
    and d4: "one_rule_vec (acl4_rules_in d4)" "one_rule_vec (acl4_rules_out d4)"
    by (rule sp_line_parsed) blast
  obtain dr where rt: "\<And>c. cf_rt c = empty_rt \<Longrightarrow> cfg_rt_add_cfg_item_parsed gw_ce (rt_line @ [nl, nl]) c = (c\<lparr>cf_rt := dr\<rparr>, None)"
    and dr: "routes4 dr = [\<lparr>rt_dst = 0xC0A80100, rt_depth = 24, rt_if_out = 1\<rparr>]" "routes6 dr = []"
    by (rule rt_line_parsed) blast
  let ?f1 = "''sp '' @ sp_line ''out'' @ [nl] @ ''rt '' @ rt_line @ [nl]" and ?f2 = "''rt '' @ rt_line @ [nl]"
  have f: "fgets1024 gw_file = Some (''sp '' @ sp_line ''in'' @ [nl], ?f1)" "fgets1024 ?f1 = Some (''sp '' @ sp_line ''out'' @ [nl], ?f2)"
      "fgets1024 ?f2 = Some (''rt '' @ rt_line @ [nl], [])" "fgets1024 [] = None"
    by code_simp+
  have l: "line_of [] (''sp '' @ sp_line ''in'' @ [nl]) = Complete (''sp '' @ sp_line ''in'' @ [nl, nl])"
      "line_of [] (''sp '' @ sp_line ''out'' @ [nl]) = Complete (''sp '' @ sp_line ''out'' @ [nl, nl])"
      "line_of [] (''rt '' @ rt_line @ [nl]) = Complete (''rt '' @ rt_line @ [nl, nl])"
    by code_simp+
  have k: "ce_cmdline gw_ce (''sp '' @ x) = Cmd_sp x" "ce_cmdline gw_ce (''rt '' @ x) = Cmd_rt x" for x
    by (simp_all add: gw_ce_def gw_cmdline_def)
  note step = f l k option.case prod.case line_step.case cfg_line_def cfg_cmd.case
  let ?c1 = "no_cfg\<lparr>cf_sp4 := d1\<rparr>" and ?c2 = "no_cfg\<lparr>cf_sp4 := d4\<rparr>" and ?c = "no_cfg\<lparr>cf_sp4 := d4, cf_rt := dr\<rparr>"
  have "cfg_loop gw_ce gw_file [] no_cfg = cfg_loop gw_ce ?f1 [] ?c1"
    by (subst cfg_loop.simps) (simp only: step sp(1))
  also have "\<dots> = cfg_loop gw_ce ?f2 [] ?c2"
    by (subst cfg_loop.simps) (simp only: step, subst sp(2), simp_all)
  also have "\<dots> = cfg_loop gw_ce [] [] ?c"
    by (subst cfg_loop.simps) (simp only: step, subst rt, simp_all add: no_cfg_def)
  also have "\<dots> = Inr ?c" by (subst cfg_loop.simps) (simp add: f)
  finally have p: "parse_cfg_file gw_ce (Some gw_file) no_cfg = Inr (sort_cfg ?c)"
    by (simp add: parse_cfg_file_def gw_ce_def)
  have q: "c_qsort sp6_cmp [] = []" "c_qsort sa_cmp [] = []" by simp_all
  have "gw_cfg_of (sort_cfg ?c)"
    using one_rule_sorted [OF d4(1)] one_rule_sorted [OF d4(2)] dr q
    by (simp add: gw_cfg_of_def sort_cfg_def no_cfg_def sa_sort_arr_def sp4_sort_arr_def sp6_sort_arr_def sa_empty_def
        sp6_empty_def vec_set_elems_def [of "[]"] vec_empty_def vec_elems_def [of "\<lparr>v_tbl = None, v_cnt = 0, v_sz = 0\<rparr>"])
  with p show ?thesis by (rule that)
qed

section \<open>The stages of the start-up\<close>

definition gw_lps_ex :: "lcore_params list" where
  "gw_lps_ex = [\<lparr>lp_port = 0, lp_queue = 0, lp_lcore = 0\<rparr>]"

definition gw_rxq_ex :: rx_queues where "gw_rxq_ex = fst (init_lcore_rx_queues gw_lps_ex (\<lambda>_. []))"

definition gw_st :: settings where
  "gw_st = default_settings\<lparr>enabled_port_mask := 3, unprotected_mask := 2, cfgfile := Some ''f'', lcore_cfg := Some gw_lps_ex\<rparr>"

lemma sample_args: "parse_args sample_split (gv_opts sample_gw) = Some gw_st"
  by code_simp

lemma config_loaded:
  obtains c where "load_config sample_gw = Inr (gw_st, c)" and "gw_cfg_of c"
proof -
  obtain c where c: "parse_cfg_file gw_ce (Some gw_file) no_cfg = Inr c" "gw_cfg_of c" by (rule gw_file_parsed)
  have st: "cfgfile gw_st = Some ''f''" "sa_enable gw_st = False" "unprotected_mask gw_st = 2" "enabled_port_mask gw_st = 3"
    by (simp_all add: gw_st_def default_settings_def)
  have e: "gv_eal sample_gw" "gv_split sample_gw = sample_split" "gv_files sample_gw = (\<lambda>_. Some gw_file)" "gv_cfg sample_gw = gw_ce"
    by (simp_all add: sample_gw_def)
  have "gw_ce\<lparr>ce_sa := ce_sa gw_ce\<lparr>env_lib_enabled := False\<rparr>\<rparr> = gw_ce" by (simp add: gw_ce_def)
  then have "load_config sample_gw = Inr (gw_st, c)"
    using c(1) by (simp add: load_config_def e sample_args st)
  then show ?thesis using c(2) by (rule that)
qed

lemma queues_mapped:
  assumes "cf_sa c = sa_empty"
  obtains sched where "map_queues sample_gw gw_st c = Inr (gw_lps_ex, sched, gw_rxq_ex)"
proof -
  have a: "check_poll_mode_params (gv_sys sample_gw) gw_st = None" by code_simp
  have "case check_event_mode_params gw_st sa_empty (gv_next_core sample_gw) (gv_ports sample_gw) of Ev_ok lps s \<Rightarrow> lps = gw_lps_ex | _ \<Rightarrow> False"
    by code_simp
  then obtain s where b: "check_event_mode_params gw_st sa_empty (gv_next_core sample_gw) (gv_ports sample_gw) = Ev_ok gw_lps_ex s"
    by (auto split: ev_check.splits)
  have "snd (init_lcore_rx_queues gw_lps_ex (\<lambda>_. [])) = None" by code_simp
  then have "init_lcore_rx_queues gw_lps_ex (\<lambda>_. []) = (gw_rxq_ex, None)"
    by (cases "init_lcore_rx_queues gw_lps_ex (\<lambda>_. [])") (simp add: gw_rxq_ex_def)
  with a b show ?thesis by (intro that [of s]) (simp add: map_queues_def assms)
qed

lemma crypto_started:
  assumes "cf_sa c = sa_empty"
  obtains sz cd where "start_crypto sample_gw gw_st c gw_lps_ex = Inr (sz, cd)"
proof -
  have "case max_session_size (gv_cdev_sizes sample_gw) (enabled_port_mask gw_st) (map (\<lambda>p. (p, gv_port_sizes sample_gw p)) (gv_ports sample_gw)) of
      Inl _ \<Rightarrow> False | Inr _ \<Rightarrow> True" by code_simp
  moreover have "case cryptodevs_init (gv_cdev sample_gw) gw_st (db_crypto_sessions sa_empty) gw_lps_ex 0 of Inl _ \<Rightarrow> False | Inr _ \<Rightarrow> True"
    by code_simp
  moreover have "eh_mode gw_st = Poll_mode" by (simp add: gw_st_def default_settings_def)
  ultimately show ?thesis
    using that by (auto simp: start_crypto_def assms split: sum.splits)
qed

lemma ports_enabled: "enabled_among (enabled_port_mask gw_st) (gv_ports sample_gw) = Inr [0, 1]"
  by code_simp

lemma memory_started:
  obtains nb where "start_memory sample_gw gw_st c gw_lps_ex cd = Inr (nb, [0])"
proof -
  have l: "enabled_lcores (gv_sys sample_gw) = [0, 1]" by code_simp
  have "make_pools sample_gw gw_st nb ns [0, 1] [] = Inr [0]" for nb ns
    by (simp add: sample_gw_def sample_ports_def pool_init_def session_pool_init_def session_priv_pool_init_def Let_def)
  then show ?thesis by (intro that) (simp add: start_memory_def ports_enabled l Let_def)
qed

lemma devices_started:
  assumes "cf_sa c = sa_empty"
  obtains es em fl ra where "start_devices sample_gw gw_st c gw_lps_ex sched gw_rxq_ex = Inr (es, em, fl, ra)"
proof -
  have m: "eh_mode gw_st = Poll_mode" "frag_tbl_sz gw_st = 0" by (simp_all add: gw_st_def default_settings_def)
  have s: "sa_check_offloads (gv_init sample_gw) (cf_sa c) p = Inr (False, {})" for p
    by (simp add: sa_check_offloads_def assms sa_empty_def vec_empty_def vec_elems_def sample_gw_def)
  let ?init = "\<lambda>p. port_init (gv_port sample_gw) (gv_sys sample_gw) gw_st gw_lps_ex (of_nat (length (enabled_lcores (gv_sys sample_gw)))) gw_rxq_ex p 0 0"
  have "case ?init 0 of Inl _ \<Rightarrow> False | Inr _ \<Rightarrow> True" "case ?init 1 of Inl _ \<Rightarrow> False | Inr _ \<Rightarrow> True"
    by code_simp+
  then obtain r0 r1 where r: "?init 0 = Inr r0" "?init 1 = Inr r1" by (auto split: sum.splits)
  have t: "tx_bits (gv_tx_bit sample_gw) {} = 0" by (simp add: tx_bits_def)
  have "init_ports sample_gw gw_st c gw_lps_ex gw_rxq_ex [0, 1] = Inr [(0, r0, False, False), (1, r1, False, False)]"
    by (simp add: s r t)
  moreover have "start_ports sample_gw gw_st [(0, r0, False, False), (1, r1, False, False)] (\<lambda>_. False) = Inr (\<lambda>_. False)"
    by (simp add: sample_gw_def gw_st_def default_settings_def create_default_ipsec_flow_def)
  ultimately show ?thesis
    by (intro that) (simp add: start_devices_def ports_enabled start_events_def start_reassembly_def m Let_def)
qed

text \<open>The socket, with its one rule and its one route.\<close>

lemma socket_started:
  assumes "gw_cfg_of c"
  obtains c' sk where "init_sockets sample_gw (init_env_of sample_gw gw_st fl) [0] (gv_sockets sample_gw) c (\<lambda>_. no_socket) = Inr (c', sk)"
    and "sk_sa (sk 0) = \<lparr>so_in = None, so_out = None\<rparr>"
proof -
  let ?ie = "(init_env_of sample_gw gw_st fl)\<lparr>in_sp4 := cf_sp4 c, in_sp6 := cf_sp6 c\<rparr>"
  let ?so = "\<lparr>so_in = None, so_out = None\<rparr>"
  have c: "cf_sa c = sa_empty" "cf_sp6 c = sp6_empty"
      "routes4 (cf_rt c) = [\<lparr>rt_dst = 0xC0A80100, rt_depth = 24, rt_if_out = 1\<rparr>]" "routes6 (cf_rt c) = []"
    using assms by (simp_all add: gw_cfg_of_def)
  have r: "vec_elems (acl4_rules_in (cf_sp4 c)) = [gw_rule]" "vec_elems (acl4_rules_out (cf_sp4 c)) = [gw_rule]" "userdata (data gw_rule) = BYPASS"
    using assms by (simp_all add: gw_cfg_of_def one_rule_vec_def gw_rule_def)
  have vc: "v_cnt (vec_set_elems rs v) = v_cnt v" "v_cnt (acl4_rules_in (cf_sp4 c)) = 1" "v_cnt (acl4_rules_out (cf_sp4 c)) = 1"
    for rs :: "acl4_rule list" and v
    using assms by (simp_all add: vec_set_elems_def gw_cfg_of_def one_rule_vec_def)
  have sa: "sa_init ?ie sa_empty ?so = Inr ?so"
    by (simp add: sa_init_def sa_init_in_def sa_init_out_def sa_empty_def vec_empty_def vec_elems_def)
  obtain c4 db4 where p4: "sp4_init (gv_acl4 sample_gw) (int 0) \<lparr>sa_in = [], sa_out = [], sp_ip4_in = None, sp_ip4_out = None\<rparr> (cf_sp4 c) = Inr (c4, db4)"
    using r vc by (simp add: sp4_init_def check_spi_value4_def check_spi_vec_def acl_init_opt_def acl_init_def sample_gw_def)
  obtain c6 db6 where p6: "sp6_init (gv_acl6 sample_gw) (int 0) \<lparr>sa6_in = [], sa6_out = [], sp_ip6_in = None, sp_ip6_out = None\<rparr> sp6_empty = Inr (c6, db6)"
    by (simp add: sp6_init_def check_spi_value6_def check_spi_vec_def sp6_empty_def acl_init_opt_def vec_elems_def vec_empty_def vec_set_elems_def)
  obtain l m where rt: "rt_init (gv_lpm4 sample_gw) (gv_lpm6 sample_gw) (cf_rt c) None None = Some (l, m)"
    by (simp add: rt_init_def sample_gw_def map_lpm_def c)
  have n: "gv_sockets sample_gw = [0]" by (simp add: sample_gw_def)
  let ?sk = "\<lparr>sk_sa = ?so, sk_in4 = sp_ip4_in c4, sk_out4 = sp_ip4_out c4, sk_in6 = sp_ip6_in c6, sk_out6 = sp_ip6_out c6,
    sk_rt4 = Some l, sk_rt6 = Some m\<rparr>"
  show ?thesis
    by (rule that [of "c\<lparr>cf_sp4 := db4, cf_sp6 := db6\<rparr>" "(\<lambda>_. no_socket)(0 := ?sk)"])
      (use sa p4 p6 rt c in \<open>simp_all add: n init_socket_def no_socket_def table_of_def\<close>)
qed

lemma services_started:
  obtains ps where "start_services sample_gw gw_st [0] = Inr ps"
proof -
  let ?d = "encryptor_of gw_st"
  have d: "dt_client_port ?d = 0" by (simp add: encryptor_of_def gw_st_def default_settings_def)
  have k: "gv_kni sample_gw = sample_kni_lib" "gv_kni_split sample_gw = sample_split4" "gv_kni_mem sample_gw" "gv_hash sample_gw = (\<lambda>_ _. True)"
      "gv_db sample_gw = \<lparr>db_uri = True, db_client = True, db_open = (\<lambda>_. True)\<rparr>"
    by (simp_all add: sample_gw_def del: sample_split4.simps)
  have "kl_info sample_kni_lib 0 = Some (68, 9000)" "kl_macaddr sample_kni_lib 0"
      "kl_alloc sample_kni_lib [] (kni_conf0 sample_kni_lib ?d (68, 9000)) = Some 7"
    by (simp_all add: sample_kni_lib_def)
  from kni_config_first [OF sample_split4_ok d this] show ?thesis
    by (intro that) (simp add: start_services_def k MyHashesSetup_def init_mongo_connection_def del: sample_split4.simps)
qed

text \<open>The start-up reaches the launch of the cores.\<close>

lemma sample_gw_started:
  obtains gw c where "gateway_main sample_gw = Inr gw" and "gw_pools gw = [0]" and "load_config sample_gw = Inr (gw_settings gw, c)"
    and "gw_cfg_of c" and "sk_sa (gw_sockets gw 0) = \<lparr>so_in = None, so_out = None\<rparr>"
proof -
  obtain c where c: "load_config sample_gw = Inr (gw_st, c)" "gw_cfg_of c" by (rule config_loaded)
  then have e: "cf_sa c = sa_empty" by (simp add: gw_cfg_of_def)
  obtain sched where q: "map_queues sample_gw gw_st c = Inr (gw_lps_ex, sched, gw_rxq_ex)" by (rule queues_mapped [OF e])
  obtain sz cd where k: "start_crypto sample_gw gw_st c gw_lps_ex = Inr (sz, cd)" by (rule crypto_started [OF e])
  obtain nb where m: "start_memory sample_gw gw_st c gw_lps_ex cd = Inr (nb, [0])" by (rule memory_started)
  obtain es em fl ra where d: "start_devices sample_gw gw_st c gw_lps_ex sched gw_rxq_ex = Inr (es, em, fl, ra)"
    by (rule devices_started [OF e])
  obtain c' sk where s: "init_sockets sample_gw (init_env_of sample_gw gw_st fl) [0] (gv_sockets sample_gw) c (\<lambda>_. no_socket) = Inr (c', sk)"
    and sk: "sk_sa (sk 0) = \<lparr>so_in = None, so_out = None\<rparr>"
    by (rule socket_started [OF c(2)])
  obtain ps where v: "start_services sample_gw gw_st [0] = Inr ps" by (rule services_started)
  obtain gw where "gateway_main sample_gw = Inr gw" "gw_pools gw = [0]" "gw_settings gw = gw_st" "gw_sockets gw = sk"
    by (simp add: gateway_main_def c(1) q k m d s v)
  with c sk show ?thesis by (intro that [of gw c]) simp_all
qed

end
