(* ===== verification/Start_Up_Props.thy ===== *)
theory Start_Up_Props
  imports Start_Up_Example
begin

text \<open>
  What holds when start-up reaches the launch of the cores: the guarantees of the parts put together,
  from the text of the configuration file to the tables of the data path. With more than one socket the
  policies of the later ones refer to other SAs than configured.
\<close>

section \<open>Policies\<close>

text \<open>
  The rules \<open>R\<close> of the file were resolved to \<open>R'\<close> against the SAs of the socket, and the classifier, if
  there is any rule, was built from \<open>R'\<close>.
\<close>

definition policies_up ::
  "ipsec_sa list \<Rightarrow> ('f, 'c) acl_build \<Rightarrow> string \<Rightarrow> nat \<Rightarrow> 'f acl_rule list \<Rightarrow> 'f acl_rule list \<Rightarrow> 'c option \<Rightarrow> bool" where
  "policies_up sas build name s R R' ctx \<longleftrightarrow>
     list_all2 (resolved_in sas) R R' \<and>
     (if R = [] then ctx = None else ctx \<noteq> None \<and> ctx = build name (int s) R')"

lemma acl_init_opt_up:
  assumes "check_spi_vec sas v = (v', True)" and "vec_ok v" and "acl_init_opt build name (int s) v' = Inr c"
  shows "policies_up sas build name s (vec_elems v) (vec_elems v') c \<and> vec_ok v'"
proof -
  have v: "vec_ok v'" "v_cnt v' = v_cnt v" using check_spi_vec_ok [OF assms(2,1)] by simp_all
  have "vec_elems v = [] \<longleftrightarrow> v_cnt v' = 0" using length_vec_elems [OF assms(2)] v(2) by auto
  moreover have "if v_cnt v' = 0 then c = None else \<exists>x. build name (int s) (vec_elems v') = Some x \<and> c = Some x"
    using assms(3) by (auto simp: acl_init_opt_def acl_init_def split: if_splits option.splits) metis
  ultimately show ?thesis
    using check_spi_vec_resolved [OF assms(2,1)] v(1) by (auto simp: policies_up_def split: if_splits)
qed

lemma sp4_init_up:
  assumes "sp4_init build (int s) ctx db = Inr (ctx', db')" and "sp4_ok db" and "sp_ip4_in ctx = None" and "sp_ip4_out ctx = None"
  shows "policies_up (sa_in ctx) build ''sp_ip4_in'' s (vec_elems (acl4_rules_in db)) (vec_elems (acl4_rules_in db')) (sp_ip4_in ctx') \<and>
    policies_up (sa_out ctx) build ''sp_ip4_out'' s (vec_elems (acl4_rules_out db)) (vec_elems (acl4_rules_out db')) (sp_ip4_out ctx') \<and>
    sp4_ok db'"
proof -
  obtain v w ci co where c: "check_spi_vec (sa_in ctx) (acl4_rules_in db) = (v, True)"
      "check_spi_vec (sa_out ctx) (acl4_rules_out db) = (w, True)"
    and a: "acl_init_opt build ''sp_ip4_in'' (int s) v = Inr ci" "acl_init_opt build ''sp_ip4_out'' (int s) w = Inr co"
    and db': "acl4_rules_in db' = v" "acl4_rules_out db' = w" and ctx: "sp_ip4_in ctx' = ci" "sp_ip4_out ctx' = co"
    using assms(1,3,4)
    by (fastforce simp: sp4_init_def check_spi_value4_def Let_def split: if_splits prod.splits sum.splits option.splits)
  have ok: "vec_ok (acl4_rules_in db)" "vec_ok (acl4_rules_out db)" using assms(2) by (simp_all add: sp4_ok_def)
  show ?thesis using acl_init_opt_up [OF c(1) ok(1) a(1)] acl_init_opt_up [OF c(2) ok(2) a(2)] db' ctx by (simp add: sp4_ok_def)
qed

lemma sp6_init_up:
  assumes "sp6_init build (int s) ctx db = Inr (ctx', db')" and "sp6_ok db" and "sp_ip6_in ctx = None" and "sp_ip6_out ctx = None"
  shows "policies_up (sa6_in ctx) build ''sp_ip6_in'' s (vec_elems (acl6_rules_in db)) (vec_elems (acl6_rules_in db')) (sp_ip6_in ctx') \<and>
    policies_up (sa6_out ctx) build ''sp_ip6_out'' s (vec_elems (acl6_rules_out db)) (vec_elems (acl6_rules_out db')) (sp_ip6_out ctx') \<and>
    sp6_ok db'"
proof -
  obtain v w ci co where c: "check_spi_vec (sa6_in ctx) (acl6_rules_in db) = (v, True)"
      "check_spi_vec (sa6_out ctx) (acl6_rules_out db) = (w, True)"
    and a: "acl_init_opt build ''sp_ip6_in'' (int s) v = Inr ci" "acl_init_opt build ''sp_ip6_out'' (int s) w = Inr co"
    and db': "acl6_rules_in db' = v" "acl6_rules_out db' = w" and ctx: "sp_ip6_in ctx' = ci" "sp_ip6_out ctx' = co"
    using assms(1,3,4)
    by (fastforce simp: sp6_init_def check_spi_value6_def Let_def split: if_splits prod.splits sum.splits option.splits)
  have ok: "vec_ok (acl6_rules_in db)" "vec_ok (acl6_rules_out db)" using assms(2) by (simp_all add: sp6_ok_def)
  show ?thesis using acl_init_opt_up [OF c(1) ok(1) a(1)] acl_init_opt_up [OF c(2) ok(2) a(2)] db' ctx by (simp add: sp6_ok_def)
qed

section \<open>A socket\<close>

definition socket_up ::
  "('d, 'c, 'e, 'l, 'm) gw_env \<Rightarrow> 'd init_env \<Rightarrow> nat \<Rightarrow> cfg \<Rightarrow> cfg \<Rightarrow> ('d, 'c, 'e, 'l, 'm) socket \<Rightarrow> bool" where
  "socket_up env ie s cfg cfg' sk \<longleftrightarrow>
     (let ins = vec_elems (sas_in (cf_sa cfg)); outs = vec_elems (sas_out (cf_sa cfg));
          ti = table_of (so_in (sk_sa sk)); to = table_of (so_out (sk_sa sk)) in
      (case so_in (sk_sa sk) of None \<Rightarrow> ins = []
       | Some c \<Rightarrow> table_up (ie\<lparr>in_sp4 := cf_sp4 cfg, in_sp6 := cf_sp6 cfg\<rparr>) True ins c \<and>
                   dbs_made (sa_in_cnt (cf_sa cfg)) (cs_sad c)) \<and>
      (case so_out (sk_sa sk) of None \<Rightarrow> outs = [] | Some c \<Rightarrow> table_up (ie\<lparr>in_sp4 := cf_sp4 cfg, in_sp6 := cf_sp6 cfg\<rparr>) False outs c) \<and>
      policies_up ti (gv_acl4 env) ''sp_ip4_in'' s (vec_elems (acl4_rules_in (cf_sp4 cfg))) (vec_elems (acl4_rules_in (cf_sp4 cfg'))) (sk_in4 sk) \<and>
      policies_up to (gv_acl4 env) ''sp_ip4_out'' s (vec_elems (acl4_rules_out (cf_sp4 cfg))) (vec_elems (acl4_rules_out (cf_sp4 cfg'))) (sk_out4 sk) \<and>
      policies_up ti (gv_acl6 env) ''sp_ip6_in'' s (vec_elems (acl6_rules_in (cf_sp6 cfg))) (vec_elems (acl6_rules_in (cf_sp6 cfg'))) (sk_in6 sk) \<and>
      policies_up to (gv_acl6 env) ''sp_ip6_out'' s (vec_elems (acl6_rules_out (cf_sp6 cfg))) (vec_elems (acl6_rules_out (cf_sp6 cfg'))) (sk_out6 sk) \<and>
      (\<exists>l m. sk_rt4 sk = Some l \<and> sk_rt6 sk = Some m \<and>
         (\<forall>ip. lpm_lookup (gv_lpm4 env) l ip = map_option rt_if_out (best_route pre4 ip (routes4 (cf_rt cfg)))) \<and>
         (\<forall>ip. lpm_lookup (gv_lpm6 env) m ip = map_option rt_if_out (best_route pre6 ip (routes6 (cf_rt cfg))))))"

text \<open>The libraries the sockets rest on.\<close>

definition libraries_ok :: "('d, 'c, 'e, 'l, 'm) gw_env \<Rightarrow> bool" where
  "libraries_ok env \<longleftrightarrow> sad_api_ok (in_sad (gv_init env)) \<and> lpm_ok pre4 32 (gv_lpm4 env) \<and> lpm_ok pre6 128 (gv_lpm6 env) \<and>
     ce_mem (gv_cfg env)"

lemma rt_init_up:
  assumes "rt_init L4 L6 db None None = Some (l, m)" and "lpm_ok pre4 32 L4" and "lpm_ok pre6 128 L6"
  shows "(\<forall>ip. lpm_lookup L4 l ip = map_option rt_if_out (best_route pre4 ip (routes4 db))) \<and>
    (\<forall>ip. lpm_lookup L6 m ip = map_option rt_if_out (best_route pre6 ip (routes6 db)))"
proof -
  obtain l0 m0 where "lpm_create L4 = Some l0" "lpm_fill L4 (routes4 db) l0 = Some l"
    "lpm_create L6 = Some m0" "lpm_fill L6 (routes6 db) m0 = Some m"
    using assms(1) by (auto simp: rt_init_def split: option.splits)
  then show ?thesis using lpm_fill_best [OF assms(2)] lpm_fill_best [OF assms(3)] by simp
qed

lemma init_socket_up:
  assumes "init_socket env ie s cfg no_socket = Inr (cfg', sk)" and "libraries_ok env" and "cfg_ok cfg"
    and "in_sad ie = in_sad (gv_init env)"
  shows "socket_up env ie s cfg cfg' sk \<and> cfg_ok cfg'"
proof -
  let ?ie = "ie\<lparr>in_sp4 := cf_sp4 cfg, in_sp6 := cf_sp6 cfg\<rparr>"
  obtain so c4 db4 c6 db6 l m where a: "sa_init ?ie (cf_sa cfg) \<lparr>so_in = None, so_out = None\<rparr> = Inr so"
    and p4: "sp4_init (gv_acl4 env) (int s) \<lparr>sa_in = table_of (so_in so), sa_out = table_of (so_out so), sp_ip4_in = None, sp_ip4_out = None\<rparr>
        (cf_sp4 cfg) = Inr (c4, db4)"
    and p6: "sp6_init (gv_acl6 env) (int s) \<lparr>sa6_in = table_of (so_in so), sa6_out = table_of (so_out so), sp_ip6_in = None, sp_ip6_out = None\<rparr>
        (cf_sp6 cfg) = Inr (c6, db6)"
    and r: "rt_init (gv_lpm4 env) (gv_lpm6 env) (cf_rt cfg) None None = Some (l, m)"
    and cfg': "cfg' = cfg\<lparr>cf_sp4 := db4, cf_sp6 := db6\<rparr>"
    and sk: "sk = \<lparr>sk_sa = so, sk_in4 = sp_ip4_in c4, sk_out4 = sp_ip4_out c4, sk_in6 = sp_ip6_in c6, sk_out6 = sp_ip6_out c6,
        sk_rt4 = Some l, sk_rt6 = Some m\<rparr>"
    using assms(1) by (auto simp: init_socket_def no_socket_def split: sum.splits prod.splits option.splits)
  have ok: "sp4_ok (cf_sp4 cfg)" "sp6_ok (cf_sp6 cfg)" using assms(3) by (simp_all add: cfg_ok_def)
  have "sad_api_ok (in_sad ?ie)" using assms(2,4) by (simp add: libraries_ok_def)
  from sa_init_up [OF this a] sp4_init_up [OF p4 ok(1)] sp6_init_up [OF p6 ok(2)] rt_init_up [OF r] assms(2)
  show ?thesis using assms(3) unfolding socket_up_def cfg' sk by (simp add: libraries_ok_def cfg_ok_def)
qed

section \<open>The whole start-up\<close>

lemma no_cfg_ok: "cfg_ok no_cfg"
  by (simp add: cfg_ok_def no_cfg_def sa_ok_def sa_empty_def rt_ok_def empty_rt_def FLOW_RULES_MAX_def)

lemma parse_cfg_file_ok:
  assumes "parse_cfg_file env file st = Inr st'" and "cfg_ok st" and "ce_mem env"
  shows "cfg_ok st'"
proof -
  obtain f st1 where "cfg_loop env f [] st = Inr st1" and st': "st' = sort_cfg st1"
    using assms(1) by (auto simp: parse_cfg_file_def split: option.splits if_splits sum.splits)
  then show ?thesis using cfg_loop_ok assms(2,3) sort_cfg_elems by blast
qed

lemma load_config_ok:
  assumes "load_config env = Inr (st, cfg)" and "libraries_ok env"
  shows "cfg_ok cfg \<and> unprotected_mask st AND enabled_port_mask st = unprotected_mask st"
  using assms by (auto simp: load_config_def libraries_ok_def Let_def intro: parse_cfg_file_ok [OF _ no_cfg_ok]
      split: if_splits option.splits sum.splits)

lemma init_sockets_one:
  assumes "init_sockets env ie pools [s] cfg (\<lambda>_. no_socket) = Inr (cfg', sk)" and "s \<in> set pools"
  shows "init_socket env ie s cfg no_socket = Inr (cfg', sk s)"
  using assms by (auto simp: no_socket_def split: sum.splits prod.splits)

text \<open>What the cores poll: the queues mapped to them, and in poll mode only on cores and ports that are there.\<close>

definition polls_mapped :: "sys_env \<Rightarrow> settings \<Rightarrow> lcore_params list \<Rightarrow> rx_queues \<Rightarrow> bool" where
  "polls_mapped sys st lps rxq \<longleftrightarrow>
     (\<forall>l. rxq l = core_queues lps l) \<and>
     (eh_mode st = Poll_mode \<longrightarrow>
        (\<forall>l. \<forall>(p, q) \<in> set (rxq l). sy_lcore sys l \<and> sy_port sys p \<and> bit (enabled_port_mask st) (unat p)))"

lemma map_queues_polls:
  assumes "map_queues env st cfg = Inr (lps, sched, rxq)"
  shows "polls_mapped (gv_sys env) st lps rxq"
proof -
  have i: "init_lcore_rx_queues lps (\<lambda>_. []) = (rxq, None)" and
    e: "check_event_mode_params st (cf_sa cfg) (gv_next_core env) (gv_ports env) = Ev_ok lps sched" and
    c: "check_poll_mode_params (gv_sys env) st = None"
    using assms by (auto simp: map_queues_def split: option.splits errno.splits ev_check.splits prod.splits)
  have q: "rxq l = core_queues lps l" for l
    using init_lcore_rx_queues_ok [OF i] by simp
  have "sy_lcore (gv_sys env) l \<and> sy_port (gv_sys env) p \<and> bit (enabled_port_mask st) (unat p)"
    if "eh_mode st = Poll_mode" and "(p, q') \<in> set (rxq l)" for l p q'
  proof -
    have "lcore_cfg st = Some lps"
      using e c that(1) by (auto simp: check_event_mode_params_def check_poll_mode_params_def Let_def split: if_splits option.splits)
    then have "check_poll_loop (gv_sys env) (enabled_port_mask st) lps = None"
      using c that(1) by (simp add: check_poll_mode_params_def)
    from check_poll_loop_ok [OF this] that(2) q [of l] show ?thesis by (auto simp: core_queues_def)
  qed
  then show ?thesis using q by (auto simp: polls_mapped_def)
qed

lemma gateway_main_up:
  assumes "gateway_main env = Inr gw" and "libraries_ok env" and "gv_sockets env = [s]" and "s \<in> set (gw_pools gw)"
  shows "\<exists>cfg. load_config env = Inr (gw_settings gw, cfg) \<and> cfg_ok cfg \<and>
    unprotected_mask (gw_settings gw) AND enabled_port_mask (gw_settings gw) = unprotected_mask (gw_settings gw) \<and>
    polls_mapped (gv_sys env) (gw_settings gw) (gw_lps gw) (gw_rxq gw) \<and>
    socket_up env (init_env_of env (gw_settings gw) (gw_def_flow gw)) s cfg (gw_cfg gw) (gw_sockets gw s)"
proof -
  let ?fl = "gw_def_flow gw"
  from assms(1) obtain cfg sched where l: "load_config env = Inr (gw_settings gw, cfg)"
    and q: "map_queues env (gw_settings gw) cfg = Inr (gw_lps gw, sched, gw_rxq gw)"
    and so: "init_sockets env (init_env_of env (gw_settings gw) ?fl) (gw_pools gw) (gv_sockets env) cfg (\<lambda>_. no_socket) =
      Inr (gw_cfg gw, gw_sockets gw)"
    by (auto simp: gateway_main_def split: sum.splits prod.splits)
  from load_config_ok [OF l assms(2)]
  have ok: "cfg_ok cfg" "unprotected_mask (gw_settings gw) AND enabled_port_mask (gw_settings gw) = unprotected_mask (gw_settings gw)"
    by simp_all
  have "init_socket env (init_env_of env (gw_settings gw) ?fl) s cfg no_socket = Inr (gw_cfg gw, gw_sockets gw s)"
    by (rule init_sockets_one) (use so assms(3,4) in auto)
  from init_socket_up [OF this assms(2) ok(1)]
  have "socket_up env (init_env_of env (gw_settings gw) ?fl) s cfg (gw_cfg gw) (gw_sockets gw s)"
    by (simp add: init_env_of_def)
  then show ?thesis using l ok map_queues_polls [OF q] by blast
qed

text \<open>C5. When start-up reaches the launch of the cores on a machine with one socket: the configuration read from
  the command line and the file is well formed and its unprotected ports are enabled; the cores poll
  exactly the queues mapped to them, on cores and ports that exist and are enabled; and the socket's
  tables are those of the file: every SA up to the first one that must be refused, for one of the
  reasons of C11, is installed, inbound with its entries in the databases, every protect rule of both
  families and directions was resolved to an SA of the table with the SPI of the rule and the
  classifiers are built from the resolved rules, and the routing tables return the port of the longest
  configured prefix.
\<close>

theorem gateway_main_sound:
  assumes "gateway_main env = Inr gw" and "libraries_ok env" and "gv_sockets env = [s]" and "s \<in> set (gw_pools gw)"
  shows "\<exists>cfg. load_config env = Inr (gw_settings gw, cfg) \<and> cfg_ok cfg \<and>
    unprotected_mask (gw_settings gw) AND enabled_port_mask (gw_settings gw) = unprotected_mask (gw_settings gw) \<and>
    polls_mapped (gv_sys env) (gw_settings gw) (gw_lps gw) (gw_rxq gw) \<and>
    socket_up env (init_env_of env (gw_settings gw) (gw_def_flow gw)) s cfg (gw_cfg gw) (gw_sockets gw s)"
  using assms by (rule gateway_main_up)

lemma sample_gw_libraries: "libraries_ok sample_gw"
  by (simp add: libraries_ok_def sample_gw_def sample_init_env_def map_sad_ok map_lpm_ok gw_ce_def)

text \<open>The witness: the file of the example, from its text to the tables of the socket.\<close>

lemma gateway_main_sound_witness:
  "\<exists>gw cfg. gateway_main sample_gw = Inr gw \<and> load_config sample_gw = Inr (gw_settings gw, cfg) \<and> cfg_ok cfg \<and>
     vec_elems (acl4_rules_in (cf_sp4 cfg)) = [gw_rule] \<and> vec_elems (acl4_rules_out (cf_sp4 cfg)) = [gw_rule] \<and>
     socket_up sample_gw (init_env_of sample_gw (gw_settings gw) (gw_def_flow gw)) 0 cfg (gw_cfg gw) (gw_sockets gw 0)"
proof -
  obtain gw c where g: "gateway_main sample_gw = Inr gw" "gw_pools gw = [0]" "load_config sample_gw = Inr (gw_settings gw, c)" "gw_cfg_of c"
    by (rule sample_gw_started)
  have "gv_sockets sample_gw = [0]" "0 \<in> set (gw_pools gw)" by (simp_all add: sample_gw_def g(2))
  from gateway_main_sound [OF g(1) sample_gw_libraries this] obtain cfg
    where "load_config sample_gw = Inr (gw_settings gw, cfg)" "cfg_ok cfg"
      "socket_up sample_gw (init_env_of sample_gw (gw_settings gw) (gw_def_flow gw)) 0 cfg (gw_cfg gw) (gw_sockets gw 0)"
    by blast
  moreover from this(1) have "cfg = c" using g(3) by simp
  ultimately show ?thesis using g(1,4) by (auto simp: gw_cfg_of_def one_rule_vec_def)
qed

section \<open>A second socket\<close>

text \<open>C39. The rules are resolved in place, so that the initialisation of a second socket takes the index of an SA
  plus one, left by the first socket, for an SPI: a protect rule that the first socket resolved to its
  SA number \<open>j\<close> refers, on the second socket, to an SA with the SPI \<open>j + 1\<close>, whatever SPI the file gave.
\<close>

theorem sp4_second_socket:
  assumes "sp4_ok db" and "sp4_init build (int s1) ctx1 db = Inr (ctx1', db1)" and "sp4_init build (int s2) ctx2 db1 = Inr (ctx2', db2)"
    and "sp_ip4_in ctx1 = None" and "sp_ip4_out ctx1 = None" and "sp_ip4_in ctx2 = None" and "sp_ip4_out ctx2 = None"
    and "i < length (vec_elems (acl4_rules_in db))" and "rule_action (vec_elems (acl4_rules_in db) ! i) = Protect w"
    and "length (sa_in ctx1) < 2 ^ 32 - 1"
  shows "\<exists>j k. j < length (sa_in ctx1) \<and> spi (sa_in ctx1 ! j) = w \<and> k < length (sa_in ctx2) \<and>
    spi (sa_in ctx2 ! k) = of_nat j + 1 \<and> userdata (data (vec_elems (acl4_rules_in db2) ! i)) = of_nat k + 1"
proof -
  let ?R = "vec_elems (acl4_rules_in db)" and ?R1 = "vec_elems (acl4_rules_in db1)" and ?R2 = "vec_elems (acl4_rules_in db2)"
  from sp4_init_up [OF assms(2,1,4,5)] have u1: "list_all2 (resolved_in (sa_in ctx1)) ?R ?R1" and ok: "sp4_ok db1"
    by (simp_all add: policies_up_def)
  from sp4_init_up [OF assms(3) ok assms(6,7)] have u2: "list_all2 (resolved_in (sa_in ctx2)) ?R1 ?R2"
    by (simp add: policies_up_def)
  obtain j where j: "j < length (sa_in ctx1)" "spi (sa_in ctx1 ! j) = w" "userdata (data (?R1 ! i)) = of_nat j + 1"
    using list_all2_nthD [OF u1 assms(8)] assms(9) by (auto simp: resolved_in_def)
  have "unat (of_nat j + 1 :: u32) = j + 1"
    using j(1) assms(10) unat_of_nat_u32 [of "j + 1"] by (simp add: add.commute)
  then have "of_nat j + 1 \<noteq> (0 :: u32)" "of_nat j + 1 \<noteq> (0xFFFFFFFF :: u32)"
    using j(1) assms(10) by (auto dest: arg_cong [where f = unat])
  then have p: "rule_action (?R1 ! i) = Protect (of_nat j + 1)" using j(3) by (simp add: rule_action_Protect)
  have "i < length ?R1" using assms(8) list_all2_lengthD [OF u1] by simp
  from list_all2_nthD [OF u2 this] p obtain k where "k < length (sa_in ctx2)" "spi (sa_in ctx2 ! k) = of_nat j + 1" "userdata (data (?R2 ! i)) = of_nat k + 1"
    by (auto simp: resolved_in_def)
  then show ?thesis using j by blast
qed

text \<open>
  Three SAs with the SPIs 2, 3 and 5 on both sockets and one rule that protects with SPI 3: on the first
  socket it names the SA with SPI 3, on the second the SA with SPI 2.
\<close>

definition three_sas :: "nat socket_sp4" where
  "three_sas = \<lparr>sa_in = map (\<lambda>w. zero_sa\<lparr>spi := w\<rparr>) [2, 3, 5], sa_out = [], sp_ip4_in = None, sp_ip4_out = None\<rparr>"

definition one_rule :: sp4_db where
  "one_rule = sp4_empty\<lparr>acl4_rules_in := \<lparr>v_tbl = Some [zero_rule4\<lparr>data := (data zero_rule4)\<lparr>userdata := 3\<rparr>\<rparr>], v_cnt = 1, v_sz = 1\<rparr>\<rparr>"

lemma sp4_second_socket_witness:
  "\<exists>c1 db1 c2 db2 j k. sp4_init (\<lambda>n s rs. Some (length rs)) (int 0) three_sas one_rule = Inr (c1, db1) \<and>
     sp4_init (\<lambda>n s rs. Some (length rs)) (int 1) three_sas db1 = Inr (c2, db2) \<and>
     spi (sa_in three_sas ! j) = 3 \<and> spi (sa_in three_sas ! k) = of_nat j + 1 \<and>
     userdata (data (vec_elems (acl4_rules_in db2) ! 0)) = of_nat k + 1 \<and> userdata (data (vec_elems (acl4_rules_in db2) ! 0)) = 1"
proof -
  let ?r1 = "sp4_init (\<lambda>n s rs. Some (length rs)) (int 0) three_sas one_rule"
  let ?r2 = "\<lambda>db. sp4_init (\<lambda>n s rs. Some (length rs)) (int 1) three_sas db"
  have c: "case ?r1 of Inl _ \<Rightarrow> False | Inr (c1, db1) \<Rightarrow>
      (case ?r2 db1 of Inl _ \<Rightarrow> False | Inr (c2, db2) \<Rightarrow> userdata (data (vec_elems (acl4_rules_in db2) ! 0)) = 1)"
    by code_simp
  obtain c1 db1 where r1: "?r1 = Inr (c1, db1)" using c by (cases ?r1) auto
  obtain c2 db2 where r2: "?r2 db1 = Inr (c2, db2)" using c r1 by (cases "?r2 db1") auto
  have u: "userdata (data (vec_elems (acl4_rules_in db2) ! 0)) = 1" using c r1 r2 by simp
  have ok: "sp4_ok one_rule"
    by (simp add: one_rule_def sp4_ok_def vec_ok_def sp4_empty_def vec_empty_def)
  have n: "0 < length (vec_elems (acl4_rules_in one_rule))" "rule_action (vec_elems (acl4_rules_in one_rule) ! 0) = Protect 3"
    by (simp_all add: one_rule_def sp4_empty_def vec_elems_def rule_action_Protect)
  obtain j k where "spi (sa_in three_sas ! j) = 3" "spi (sa_in three_sas ! k) = of_nat j + 1"
    "userdata (data (vec_elems (acl4_rules_in db2) ! 0)) = of_nat k + 1"
    using sp4_second_socket [OF ok r1 r2 _ _ _ _ n] by (auto simp: three_sas_def)
  then show ?thesis using r1 r2 u by blast
qed

section \<open>Waiting for the links\<close>

lemma status_loop_bound: "m < 90 \<or> flag \<Longrightarrow> status_loop msk ports lk [m..<91] flag \<le> 90 - m"
proof (induction "91 - m" arbitrary: m flag)
  case (Suc n)
  then have m: "[m..<91] = m # [Suc m..<91]" by (simp add: upt_conv_Cons)
  show ?case
  proof (cases flag)
    case False
    then have "m < 90" using Suc.prems by simp
    then have "status_loop msk ports lk [Suc m..<91] f \<le> 90 - Suc m" if "f = (links_up msk ports (lk m) \<or> m = 89)" for f
      by (intro Suc.hyps(1)) (use Suc.hyps(2) that in auto)
    then show ?thesis unfolding m using \<open>m < 90\<close> False by (auto simp: Let_def)
  qed (simp add: m)
qed simp

lemma link_status_ends: "check_all_ports_link_status msk ports lk \<le> 90"
  using status_loop_bound [of 0 False] by (simp add: check_all_ports_link_status_def)

section \<open>Shut-down\<close>

lemma enabled_among_iff:
  "enabled_among msk ps = Inr qs \<Longrightarrow> set qs = {p \<in> set ps. port_in_mask msk p = Inr True}"
proof (induction ps arbitrary: qs)
  case (Cons p ps)
  obtain b qs' where b: "port_in_mask msk p = Inr b" and q: "enabled_among msk ps = Inr qs'" and qs: "qs = (if b then p # qs' else qs')"
    using Cons.prems by (cases "port_in_mask msk p"; cases "enabled_among msk ps") auto
  show ?case
  proof (cases b)
    case True
    then have "{q \<in> set (p # ps). port_in_mask msk q = Inr True} = insert p {q \<in> set ps. port_in_mask msk q = Inr True}"
      using b by auto
    then show ?thesis using Cons.IH [OF q] True by (simp only: qs if_True list.set)
  next
    case False
    then have "port_in_mask msk p \<noteq> Inr True" using b by simp
    then have "{q \<in> set (p # ps). port_in_mask msk q = Inr True} = {q \<in> set ps. port_in_mask msk q = Inr True}"
      by auto
    then show ?thesis using Cons.IH [OF q] False by (simp only: qs if_False)
  qed
qed simp

text \<open>
  The ports closed are the enabled ones, each after it was stopped, and no session is destroyed once the
  first device is closed.
\<close>

lemma shutdown_ports:
  assumes "gateway_shutdown dv valid n env gw = Inr ops"
  shows "Eth_close p \<in> set ops \<longleftrightarrow> p \<in> set (gv_ports env) \<and> port_in_mask (enabled_port_mask (gw_settings gw)) p = Inr True"
    and "\<exists>ses rest. ops = map Destroy_session ses @ rest \<and> (\<forall>x. Destroy_session x \<notin> set rest)"
proof -
  obtain eps ses where e: "enabled_among (enabled_port_mask (gw_settings gw)) (gv_ports env) = Inr eps"
    and o: "ops = map Destroy_session ses @ concat (map (\<lambda>c. [Cdev_stop c, Cdev_close c]) [0..<n]) @
        concat (map (close_port (gw_def_flow gw)) eps) @ [Mongo_cleanup, Eal_cleanup]"
    using assms unfolding gateway_shutdown_def
    by (cases "if eh_mode (gw_settings gw) = Event_mode then snd (eh_devs_uninit dv (gw_em gw)) else None";
        cases "enabled_among (enabled_port_mask (gw_settings gw)) (gv_ports env)") auto
  show "Eth_close p \<in> set ops \<longleftrightarrow> p \<in> set (gv_ports env) \<and> port_in_mask (enabled_port_mask (gw_settings gw)) p = Inr True"
    using enabled_among_iff [OF e] by (auto simp: o close_port_def)
  show "\<exists>ses rest. ops = map Destroy_session ses @ rest \<and> (\<forall>x. Destroy_session x \<notin> set rest)"
    unfolding o by (intro exI conjI) (rule refl, auto simp: close_port_def)
qed

text \<open>The loops never get there: a caught signal ends the program in the handler.\<close>

lemma signal_ends_program: "sg \<noteq> SIG_other \<Longrightarrow> snd (signal_handler sg q)"
  by (cases sg) (simp_all add: signal_handler_def)

end
