(* ===== verification/Policy.thy ===== *)
theory Policy
  imports Start_Up_Props Traffic_Props
begin

text \<open>
  The policy of the configuration file against what the data path does. \<open>sp4.c\<close> and \<open>sp6.c\<close> describe
  the layout of their rules to the classifier (\<open>ip4_defs\<close>, \<open>ip6_defs\<close>); with the documented meaning of such
  a layout a rule of the file matches a packet or not. After start-up the outbound and the inbound
  checks do with every packet what the rules of the file say.
\<close>

section \<open>The layout of the rules\<close>

datatype acl_type = TYPE_BITMASK | TYPE_MASK | TYPE_RANGE

record acl_def =
  fd_type :: acl_type
  fd_size :: nat
  fd_index :: nat
  fd_input :: nat
  fd_offset :: nat

text \<open>Offsets count from the protocol field, byte 9 of the IPv4 header and byte 6 of the IPv6 header.\<close>

definition ip4_defs :: "acl_def list" where
  "ip4_defs =
     [\<lparr>fd_type = TYPE_BITMASK, fd_size = 1, fd_index = 0, fd_input = 0, fd_offset = 0\<rparr>,
      \<lparr>fd_type = TYPE_MASK, fd_size = 4, fd_index = 1, fd_input = 1, fd_offset = 12 - 9\<rparr>,
      \<lparr>fd_type = TYPE_MASK, fd_size = 4, fd_index = 2, fd_input = 2, fd_offset = 16 - 9\<rparr>,
      \<lparr>fd_type = TYPE_RANGE, fd_size = 2, fd_index = 3, fd_input = 3, fd_offset = 20 - 9\<rparr>,
      \<lparr>fd_type = TYPE_RANGE, fd_size = 2, fd_index = 4, fd_input = 3, fd_offset = 20 - 9 + 2\<rparr>]"

definition ip6_defs :: "acl_def list" where
  "ip6_defs =
     [\<lparr>fd_type = TYPE_BITMASK, fd_size = 1, fd_index = 0, fd_input = 0, fd_offset = 0\<rparr>,
      \<lparr>fd_type = TYPE_MASK, fd_size = 4, fd_index = 1, fd_input = 1, fd_offset = 2\<rparr>,
      \<lparr>fd_type = TYPE_MASK, fd_size = 4, fd_index = 2, fd_input = 2, fd_offset = 6\<rparr>,
      \<lparr>fd_type = TYPE_MASK, fd_size = 4, fd_index = 3, fd_input = 3, fd_offset = 10\<rparr>,
      \<lparr>fd_type = TYPE_MASK, fd_size = 4, fd_index = 4, fd_input = 4, fd_offset = 14\<rparr>,
      \<lparr>fd_type = TYPE_MASK, fd_size = 4, fd_index = 5, fd_input = 5, fd_offset = 18\<rparr>,
      \<lparr>fd_type = TYPE_MASK, fd_size = 4, fd_index = 6, fd_input = 6, fd_offset = 22\<rparr>,
      \<lparr>fd_type = TYPE_MASK, fd_size = 4, fd_index = 7, fd_input = 7, fd_offset = 26\<rparr>,
      \<lparr>fd_type = TYPE_MASK, fd_size = 4, fd_index = 8, fd_input = 8, fd_offset = 30\<rparr>,
      \<lparr>fd_type = TYPE_RANGE, fd_size = 2, fd_index = 9, fd_input = 9, fd_offset = 34\<rparr>,
      \<lparr>fd_type = TYPE_RANGE, fd_size = 2, fd_index = 10, fd_input = 9, fd_offset = 36\<rparr>]"

text \<open>The fields of a rule in the order of the array \<open>field\<close>: value, and mask, prefix length or upper bound.\<close>

definition fields4_list :: "fields4 \<Rightarrow> (u32 \<times> u32) list" where
  "fields4_list f =
     [map_prod ucast ucast (proto4 f), src4 f, dst4 f, map_prod ucast ucast (sport4 f), map_prod ucast ucast (dport4 f)]"

definition fields6_list :: "fields6 \<Rightarrow> (u32 \<times> u32) list" where
  "fields6_list f =
     [map_prod ucast ucast (proto6 f)] @ src6 f @ dst6 f @ [map_prod ucast ucast (sport6 f), map_prod ucast ucast (dport6 f)]"

section \<open>What a layout means\<close>

text \<open>
  The meaning \<open>librte_acl\<close> documents for the three types of field: the bytes at the offset, in network
  order, agree with the value on the bits of the mask, or on its first bits, or lie in the range.
\<close>

definition field_input :: "acl_def \<Rightarrow> u8 list \<Rightarrow> u32" where
  "field_input d b = foldl (\<lambda>w x. push_bit 8 w OR ucast x) 0 (take (fd_size d) (drop (fd_offset d) b))"

definition field_matches :: "acl_def \<Rightarrow> u32 \<times> u32 \<Rightarrow> u8 list \<Rightarrow> bool" where
  "field_matches d = (\<lambda>(v, m) b.
     let x = field_input d b in
     case fd_type d of
       TYPE_BITMASK \<Rightarrow> x AND m = v AND m
     | TYPE_MASK \<Rightarrow> drop_bit (8 * fd_size d - unat m) x = drop_bit (8 * fd_size d - unat m) v
     | TYPE_RANGE \<Rightarrow> v \<le> x \<and> x \<le> m)"

definition fields_match :: "acl_def list \<Rightarrow> (u32 \<times> u32) list \<Rightarrow> u8 list \<Rightarrow> bool" where
  "fields_match defs fs b \<longleftrightarrow> list_all2 (\<lambda>d f. field_matches d f b) defs fs"

definition match4 :: "fields4 \<Rightarrow> u8 list \<Rightarrow> bool" where "match4 f = fields_match ip4_defs (fields4_list f)"
definition match6 :: "fields6 \<Rightarrow> u8 list \<Rightarrow> bool" where "match6 f = fields_match ip6_defs (fields6_list f)"

text \<open>The bytes a layout reads.\<close>

definition acl_span :: "acl_def list \<Rightarrow> nat" where
  "acl_span defs = fold max (map (\<lambda>d. fd_offset d + fd_size d) defs) 0"

lemma acl_spans: "acl_span ip4_defs = 15" "acl_span ip6_defs = 38"
  by (simp_all add: acl_span_def ip4_defs_def ip6_defs_def)

text \<open>
  A rule that decides: it matches and no matching rule has a higher priority, which is a signed
  number. Among rules of equal priority the library does not say which one decides.
\<close>

definition decisive :: "('f \<Rightarrow> u8 list \<Rightarrow> bool) \<Rightarrow> 'f acl_rule list \<Rightarrow> u8 list \<Rightarrow> 'f acl_rule \<Rightarrow> bool" where
  "decisive mt R b r \<longleftrightarrow> r \<in> set R \<and> mt (field r) b \<and>
     list_all (\<lambda>r'. mt (field r') b \<longrightarrow> sint (priority (data r')) \<le> sint (priority (data r))) R"

text \<open>
  What the code relies on of the classifier: on input long enough, the value of a decisive rule, or
  zero when no rule matches.
\<close>

definition acl_result :: "('f \<Rightarrow> u8 list \<Rightarrow> bool) \<Rightarrow> 'f acl_rule list \<Rightarrow> u8 list \<Rightarrow> u32 \<Rightarrow> bool" where
  "acl_result mt R b w \<longleftrightarrow>
     (if list_ex (\<lambda>r. mt (field r) b) R then \<exists>r. decisive mt R b r \<and> w = userdata (data r) else w = 0)"

definition acl_ok :: "('f \<Rightarrow> u8 list \<Rightarrow> bool) \<Rightarrow> nat \<Rightarrow> ('f, 'c) acl_build \<Rightarrow> ('c \<Rightarrow> u8 list \<Rightarrow> u32) \<Rightarrow> bool" where
  "acl_ok mt n build cls \<longleftrightarrow>
     (\<forall>name s R c b. build name s R = Some c \<and> n \<le> length b \<longrightarrow> acl_result mt R b (cls c b))"

text \<open>What the rules of the file say of a packet.\<close>

definition policy_says :: "('f \<Rightarrow> u8 list \<Rightarrow> bool) \<Rightarrow> 'f acl_rule list \<Rightarrow> u8 list \<Rightarrow> sp_action \<Rightarrow> bool" where
  "policy_says mt R b a \<longleftrightarrow>
     (if list_ex (\<lambda>r. mt (field r) b) R then \<exists>r. decisive mt R b r \<and> a = rule_action r else a = Discard)"

section \<open>Resolving keeps the policy\<close>

text \<open>The value of a resolved rule and the action of the rule of the file.\<close>

definition value_of :: "ipsec_sa list \<Rightarrow> u32 \<Rightarrow> sp_action \<Rightarrow> bool" where
  "value_of sas w a \<longleftrightarrow>
     (case a of
        Discard \<Rightarrow> w = DISCARD
      | Bypass \<Rightarrow> w = BYPASS
      | Protect v \<Rightarrow> w \<notin> {BYPASS, DISCARD} \<and> unat (w - 1) < length sas \<and> spi (sas ! unat (w - 1)) = v)"

lemma index_value:
  assumes "i < n" and "n < 2 ^ 32 - 1"
  shows "of_nat i + 1 \<notin> {BYPASS, DISCARD} \<and> unat ((of_nat i + 1 :: u32) - 1) = i"
proof -
  have "unat (of_nat i + 1 :: u32) = i + 1" using assms unat_of_nat_u32 [of "i + 1"] by (simp add: add.commute)
  then have "of_nat i + 1 \<noteq> (0 :: u32)" "of_nat i + 1 \<noteq> (0xFFFFFFFF :: u32)"
    using assms by (auto dest: arg_cong [where f = unat])
  moreover have "unat ((of_nat i + 1 :: u32) - 1) = i" using assms by (simp add: unat_of_nat_u32)
  ultimately show ?thesis by simp
qed

lemma resolved_value:
  assumes "resolved_in sas r r'" and "length sas < 2 ^ 32 - 1"
  shows "value_of sas (userdata (data r')) (rule_action r)"
proof (cases "rule_action r")
  case (Protect v)
  then obtain i where "i < length sas" "spi (sas ! i) = v" "userdata (data r') = of_nat i + 1"
    using assms(1) by (auto simp: resolved_in_def)
  then show ?thesis using index_value [OF _ assms(2), of i] Protect by (simp add: value_of_def)
qed (use assms(1) in \<open>auto simp: resolved_in_def value_of_def rule_action_def split: if_splits\<close>)

lemma resolved_policy:
  assumes "list_all2 (resolved_in sas) R R'" and "length sas < 2 ^ 32 - 1" and "acl_result mt R' b w"
  shows "\<exists>a. policy_says mt R b a \<and> value_of sas w a"
proof -
  have n: "length R' = length R" using list_all2_lengthD [OF assms(1)] by simp
  have e: "field (R' ! k) = field (R ! k)" "priority (data (R' ! k)) = priority (data (R ! k))" if "k < length R" for k
    using list_all2_nthD [OF assms(1) that] by (simp_all add: resolved_in_def)
  have some: "list_ex (\<lambda>r. mt (field r) b) R' = list_ex (\<lambda>r. mt (field r) b) R"
    by (auto simp: list_ex_iff in_set_conv_nth n e) (metis e(1) n nth_mem)+
  show ?thesis
  proof (cases "list_ex (\<lambda>r. mt (field r) b) R")
    case True
    then obtain r' where d: "decisive mt R' b r'" and w: "w = userdata (data r')"
      using assms(3) some by (auto simp: acl_result_def)
    then obtain k where k: "k < length R" "r' = R' ! k" by (auto simp: decisive_def in_set_conv_nth n)
    have "decisive mt R b (R ! k)"
      using d k by (auto simp: decisive_def list_all_length n e)
    moreover have "value_of sas w (rule_action (R ! k))"
      using resolved_value [OF list_all2_nthD [OF assms(1) k(1)] assms(2)] w k(2) by simp
    ultimately show ?thesis using True by (auto simp: policy_says_def)
  next
    case False
    then show ?thesis using assms(3) some by (auto simp: acl_result_def policy_says_def value_of_def)
  qed
qed

section \<open>The outbound check follows the file\<close>

text \<open>The bytes the classifier is given.\<close>

abbreviation acl_bytes :: "bool \<Rightarrow> pkt \<Rightarrow> u8 list" where
  "acl_bytes v6 p \<equiv> drop (acl_ofs v6) (m_bytes (pbuf p))"

text \<open>Without any rule everything is sent in clear.\<close>

definition spd_follows ::
  "('f \<Rightarrow> u8 list \<Rightarrow> bool) \<Rightarrow> bool \<Rightarrow> 'f acl_rule list \<Rightarrow> ipsec_sa list \<Rightarrow> pkt list \<Rightarrow>
     pkt list \<times> (pkt \<times> u32) list \<times> pkt list \<times> spd_stats \<Rightarrow> bool" where
  "spd_follows mt v6 R sas ps = (\<lambda>(clear, protected, dropped, st).
     (if R = [] then clear = ps \<and> protected = [] \<and> dropped = []
      else (\<forall>p \<in> set clear. policy_says mt R (acl_bytes v6 p) Bypass) \<and>
           (\<forall>(p, i) \<in> set protected. unat i < length sas \<and> policy_says mt R (acl_bytes v6 p) (Protect (spi (sas ! unat i)))) \<and>
           (\<forall>p \<in> set dropped. policy_says mt R (acl_bytes v6 p) Discard) \<and>
           mset clear + mset (map fst protected) + mset dropped = mset ps))"

lemma res_value: "value_of sas w a \<Longrightarrow>
    (case a of Discard \<Rightarrow> res_action w = Discard | Bypass \<Rightarrow> res_action w = Bypass
     | Protect v \<Rightarrow> res_action w = Protect (w - 1) \<and> unat (w - 1) < length sas \<and> spi (sas ! unat (w - 1)) = v)"
  by (auto simp: value_of_def res_action_def split: sp_action.splits)

lemma spd_split: "mset (filter (\<lambda>p. pol p = Bypass) ps) + mset (filter (\<lambda>p. is_protect (pol p)) ps) + mset (filter (\<lambda>p. pol p = Discard) ps) = mset ps"
proof (induction ps)
  case (Cons p ps)
  then show ?case by (cases "pol p") (simp_all add: is_protect_def)
qed simp

text \<open>What the classifier of a socket returns for a packet that is long enough.\<close>

lemma policies_up_value:
  assumes "policies_up sas build name s R R' ctx" and "acl_ok mt n build cls" and "length sas < 2 ^ 32 - 1" and "R \<noteq> []"
    and "n \<le> length b"
  obtains c a where "ctx = Some c" and "policy_says mt R b a" and "value_of sas (cls c b) a"
proof -
  obtain c where c: "ctx = Some c" "build name (int s) R' = Some c" using assms(1,4) by (auto simp: policies_up_def)
  have r: "list_all2 (resolved_in sas) R R'" using assms(1) by (simp add: policies_up_def)
  have "acl_result mt R' b (cls c b)" using assms(2,5) c(2) by (simp add: acl_ok_def)
  from resolved_policy [OF r assms(3) this] obtain a where "policy_says mt R b a" "value_of sas (cls c b) a" by blast
  with c(1) show ?thesis by (rule that)
qed

lemma outbound_follows:
  assumes "policies_up sas build name s R R' ctx" and "acl_ok mt n build cls" and "length sas < 2 ^ 32 - 1"
    and "\<forall>p \<in> set ps. n + acl_ofs v6 \<le> length (m_bytes (pbuf p))"
  shows "spd_follows mt v6 R sas ps (outbound_spd_lookup (map_option cls ctx) v6 ps st)"
proof (cases "R = []")
  case True
  then show ?thesis using assms(1) by (simp add: policies_up_def outbound_spd_lookup_def spd_follows_def)
next
  case False
  then obtain c where c: "ctx = Some c" using assms(1) by (auto simp: policies_up_def)
  define pol where "pol = (\<lambda>p. res_action (classify (cls c) v6 p))"
  have v: "\<exists>a. policy_says mt R (acl_bytes v6 p) a \<and> value_of sas (classify (cls c) v6 p) a" if "p \<in> set ps" for p
  proof -
    have "n \<le> length (acl_bytes v6 p)" using assms(4) that by fastforce
    from policies_up_value [OF assms(1-3) False this] obtain c' a
      where "ctx = Some c'" "policy_says mt R (acl_bytes v6 p) a" "value_of sas (cls c' (acl_bytes v6 p)) a" by blast
    then show ?thesis using c by (auto simp: classify_def)
  qed
  have out: "outbound_spd_lookup (map_option cls ctx) v6 ps st =
      (filter (\<lambda>p. pol p = Bypass) ps, map (\<lambda>p. (p, sa_of_action (pol p))) (filter (\<lambda>p. is_protect (pol p)) ps),
       filter (\<lambda>p. pol p = Discard) ps, tally st (map pol ps))"
    by (simp add: c outbound_spd_lookup_def spd_loop_refines spd_spec_def pol_def)
  have says: "case pol p of Protect i \<Rightarrow> unat i < length sas \<and> policy_says mt R (acl_bytes v6 p) (Protect (spi (sas ! unat i)))
      | a \<Rightarrow> policy_says mt R (acl_bytes v6 p) a" if "p \<in> set ps" for p
    using v [OF that] by (auto simp: pol_def dest!: res_value split: sp_action.splits)
  have m: "map fst (map (\<lambda>p. (p, sa_of_action (pol p))) qs) = qs" for qs by (induction qs) simp_all
  have "\<forall>p \<in> set (filter (\<lambda>p. pol p = Bypass) ps). policy_says mt R (acl_bytes v6 p) Bypass"
    "\<forall>p \<in> set (filter (\<lambda>p. pol p = Discard) ps). policy_says mt R (acl_bytes v6 p) Discard"
    "\<forall>(p, i) \<in> set (map (\<lambda>p. (p, sa_of_action (pol p))) (filter (\<lambda>p. is_protect (pol p)) ps)).
       unat i < length sas \<and> policy_says mt R (acl_bytes v6 p) (Protect (spi (sas ! unat i)))"
    using says by (fastforce simp: sa_of_action_def is_protect_def split: sp_action.splits)+
  then show ?thesis using False unfolding out spd_follows_def by (simp add: m spd_split del: mset_filter mset_map map_map)
qed

section \<open>The inbound check follows the file\<close>

text \<open>
  When the action of the file admits the packet at index \<open>i\<close>: one that went through IPsec (from index
  \<open>lim\<close> on, or decrypted by the NIC) under an SA with the SPI of the rule, or any packet of a bypass rule.
\<close>

definition policy_admits :: "ipsec_sa list \<Rightarrow> nat \<Rightarrow> nat \<Rightarrow> pkt \<Rightarrow> sp_action \<Rightarrow> bool" where
  "policy_admits sas lim i p a =
     (case a of
        Bypass \<Rightarrow> True
      | Discard \<Rightarrow> False
      | Protect w \<Rightarrow> (lim \<le> i \<or> rx_sec_offload (pbuf p)) \<and> (case p_sa p of None \<Rightarrow> False | Some j \<Rightarrow> spi (sas ! j) = w))"

definition sp_sa_follows ::
  "('f \<Rightarrow> u8 list \<Rightarrow> bool) \<Rightarrow> bool \<Rightarrow> 'f acl_rule list \<Rightarrow> ipsec_sa list \<Rightarrow> nat \<Rightarrow> pkt list \<Rightarrow>
     errno + pkt list \<times> pkt list \<times> spd_stats \<Rightarrow> bool" where
  "sp_sa_follows mt v6 R sas lim ps r \<longleftrightarrow>
     (\<exists>adm st. r = Inr (map snd (filter adm (enumerate 0 ps)), map snd (filter (\<lambda>x. \<not> adm x) (enumerate 0 ps)), st) \<and>
        (if R = [] then \<forall>x. adm x
         else \<forall>(i, p) \<in> set (enumerate 0 ps). \<exists>a. policy_says mt R (acl_bytes v6 p) a \<and> (adm (i, p) \<longleftrightarrow> policy_admits sas lim i p a)))"

lemma admits_value:
  "value_of sas w a \<Longrightarrow> admits sas lim i p (res_action w) = policy_admits sas lim i p a"
  by (auto simp: admits_def policy_admits_def dest!: res_value split: sp_action.splits option.splits)

lemma inbound_follows:
  assumes "policies_up sas build name s R R' ctx" and "acl_ok mt n build cls" and "length sas < 2 ^ 32 - 1"
    and "\<forall>p \<in> set ps. n + acl_ofs v6 \<le> length (m_bytes (pbuf p))"
  shows "sp_sa_follows mt v6 R sas lim ps (inbound_sp_sa (map_option cls ctx) v6 sas lim ps st)"
proof (cases "R = []")
  case True
  then have "ctx = None" using assms(1) by (simp add: policies_up_def)
  then show ?thesis using True
    by (auto simp: inbound_sp_sa_def sp_sa_follows_def intro!: exI [of _ "\<lambda>_. True"])
next
  case False
  then obtain c where c: "ctx = Some c" using assms(1) by (auto simp: policies_up_def)
  let ?cl = "classify (cls c) v6"
  let ?adm = "\<lambda>(i, p). admits sas lim i p (res_action (?cl p))"
  have v: "\<exists>a. policy_says mt R (acl_bytes v6 p) a \<and> value_of sas (?cl p) a" if "p \<in> set ps" for p
  proof -
    have "n \<le> length (acl_bytes v6 p)" using assms(4) that by fastforce
    from policies_up_value [OF assms(1-3) False this] obtain c' a
      where "ctx = Some c'" "policy_says mt R (acl_bytes v6 p) a" "value_of sas (cls c' (acl_bytes v6 p)) a" by blast
    then show ?thesis using c by (auto simp: classify_def)
  qed
  have "\<forall>p \<in> set ps. ?cl p \<notin> {BYPASS, DISCARD} \<longrightarrow> unat (?cl p - 1) < length sas"
    using v by (force simp: value_of_def split: sp_action.splits)
  then obtain keep free st' where r: "sp_sa_loop ?cl sas lim 0 ps st = Inr (keep, free, st')"
    using sp_sa_loop_total by (metis prod_cases3)
  have "inbound_sp_sa (map_option cls ctx) v6 sas lim ps st =
      Inr (map snd (filter ?adm (enumerate 0 ps)), map snd (filter (\<lambda>x. \<not> ?adm x) (enumerate 0 ps)), st')"
    using sp_sa_loop_refines [OF r] r by (simp add: inbound_sp_sa_def c case_prod_unfold)
  moreover have "\<forall>(i, p) \<in> set (enumerate 0 ps). \<exists>a. policy_says mt R (acl_bytes v6 p) a \<and> (?adm (i, p) \<longleftrightarrow> policy_admits sas lim i p a)"
    using v admits_value by (fastforce simp: enumerate_eq_zip dest: set_zip_rightD)
  ultimately show ?thesis using False unfolding sp_sa_follows_def
    by (intro exI [of _ ?adm] exI [of _ st'] conjI) auto
qed

section \<open>The gateway follows the file\<close>

text \<open>The SAs of a socket for one direction.\<close>

abbreviation sas_of_in :: "('d, 'c, 'e, 'l, 'm) socket \<Rightarrow> ipsec_sa list" where "sas_of_in sk \<equiv> table_of (so_in (sk_sa sk))"
abbreviation sas_of_out :: "('d, 'c, 'e, 'l, 'm) socket \<Rightarrow> ipsec_sa list" where "sas_of_out sk \<equiv> table_of (so_out (sk_sa sk))"

text \<open>
  C6. From the configuration file to the packets that leave: on a gateway that has started with one
  socket the outbound check sends in clear exactly packets a bypass rule of the file decides, gives
  to an SA only packets a protect rule decides, and then to an SA with the SPI of that rule, and drops
  only packets a discard rule or no rule decides; each packet takes one of these ways. A rule decides a
  packet when its fields match the packet's bytes and no matching rule has a higher priority.
\<close>

theorem gateway_outbound_policy:
  assumes "gateway_main env = Inr gw" and "libraries_ok env" and "gv_sockets env = [s]" and "s \<in> set (gw_pools gw)"
    and "acl_ok match4 (acl_span ip4_defs) (gv_acl4 env) cls4" and "acl_ok match6 (acl_span ip6_defs) (gv_acl6 env) cls6"
    and "length (sas_of_out (gw_sockets gw s)) < 2 ^ 32 - 1"
    and "\<forall>p \<in> set ps4. 24 \<le> length (m_bytes (pbuf p))" and "\<forall>p \<in> set ps6. 44 \<le> length (m_bytes (pbuf p))"
  shows "\<exists>cfg. load_config env = Inr (gw_settings gw, cfg) \<and>
    spd_follows match4 False (vec_elems (acl4_rules_out (cf_sp4 cfg))) (sas_of_out (gw_sockets gw s)) ps4
      (outbound_spd_lookup (map_option cls4 (sk_out4 (gw_sockets gw s))) False ps4 st4) \<and>
    spd_follows match6 True (vec_elems (acl6_rules_out (cf_sp6 cfg))) (sas_of_out (gw_sockets gw s)) ps6
      (outbound_spd_lookup (map_option cls6 (sk_out6 (gw_sockets gw s))) True ps6 st6)"
proof -
  obtain cfg where l: "load_config env = Inr (gw_settings gw, cfg)"
    and up: "socket_up env (init_env_of env (gw_settings gw) (gw_def_flow gw)) s cfg (gw_cfg gw) (gw_sockets gw s)"
    using gateway_main_up [OF assms(1-4)] by blast
  have b: "\<forall>p \<in> set ps4. acl_span ip4_defs + acl_ofs False \<le> length (m_bytes (pbuf p))"
      "\<forall>p \<in> set ps6. acl_span ip6_defs + acl_ofs True \<le> length (m_bytes (pbuf p))"
    using assms(8,9) by (simp_all add: acl_spans acl_ofs_def)
  show ?thesis
    using l up outbound_follows [OF _ assms(5,7) b(1)] outbound_follows [OF _ assms(6,7) b(2)]
    by (intro exI [of _ cfg]) (auto simp: socket_up_def Let_def)
qed

text \<open>
  C7. From the configuration file to the packets that are let in: on a gateway that has started with one
  socket the inbound check of either family lets a packet through exactly when a rule that decides it
  admits it: a bypass rule, or a protect rule when the packet came out of IPsec under an SA with the
  SPI of the rule. Every other packet is freed, and without rules for the family all pass.
\<close>

theorem gateway_inbound_policy:
  assumes "gateway_main env = Inr gw" and "libraries_ok env" and "gv_sockets env = [s]" and "s \<in> set (gw_pools gw)"
    and "acl_ok match4 (acl_span ip4_defs) (gv_acl4 env) cls4" and "acl_ok match6 (acl_span ip6_defs) (gv_acl6 env) cls6"
    and "length (sas_of_in (gw_sockets gw s)) < 2 ^ 32 - 1"
    and "\<forall>p \<in> set ps4. 24 \<le> length (m_bytes (pbuf p))" and "\<forall>p \<in> set ps6. 44 \<le> length (m_bytes (pbuf p))"
  shows "\<exists>cfg. load_config env = Inr (gw_settings gw, cfg) \<and>
    sp_sa_follows match4 False (vec_elems (acl4_rules_in (cf_sp4 cfg))) (sas_of_in (gw_sockets gw s)) lim4 ps4
      (inbound_sp_sa (map_option cls4 (sk_in4 (gw_sockets gw s))) False (sas_of_in (gw_sockets gw s)) lim4 ps4 st4) \<and>
    sp_sa_follows match6 True (vec_elems (acl6_rules_in (cf_sp6 cfg))) (sas_of_in (gw_sockets gw s)) lim6 ps6
      (inbound_sp_sa (map_option cls6 (sk_in6 (gw_sockets gw s))) True (sas_of_in (gw_sockets gw s)) lim6 ps6 st6)"
proof -
  obtain cfg where l: "load_config env = Inr (gw_settings gw, cfg)"
    and up: "socket_up env (init_env_of env (gw_settings gw) (gw_def_flow gw)) s cfg (gw_cfg gw) (gw_sockets gw s)"
    using gateway_main_up [OF assms(1-4)] by blast
  have b: "\<forall>p \<in> set ps4. acl_span ip4_defs + acl_ofs False \<le> length (m_bytes (pbuf p))"
      "\<forall>p \<in> set ps6. acl_span ip6_defs + acl_ofs True \<le> length (m_bytes (pbuf p))"
    using assms(8,9) by (simp_all add: acl_spans acl_ofs_def)
  show ?thesis
    using l up inbound_follows [OF _ assms(5,7) b(1)] inbound_follows [OF _ assms(6,7) b(2)]
    by (intro exI [of _ cfg]) (auto simp: socket_up_def Let_def)
qed

section \<open>An example\<close>

text \<open>A classifier that goes through the rules.\<close>

definition list_acl :: "('f \<Rightarrow> u8 list \<Rightarrow> bool) \<Rightarrow> 'f acl_rule list \<Rightarrow> u8 list \<Rightarrow> u32" where
  "list_acl mt R b = (case filter (decisive mt R b) R of [] \<Rightarrow> 0 | r # _ \<Rightarrow> userdata (data r))"

lemma decisive_ex:
  assumes "list_ex (\<lambda>r. mt (field r) b) R"
  shows "\<exists>r \<in> set R. decisive mt R b r"
proof -
  let ?M = "set (filter (\<lambda>r. mt (field r) b) R)" and ?f = "\<lambda>r. sint (priority (data r))"
  have "?M \<noteq> {}" using assms by (auto simp: list_ex_iff filter_empty_conv)
  then obtain r where r: "r \<in> ?M" "?f r = Max (?f ` ?M)"
    using Max_in [of "?f ` ?M"] by fastforce
  then have "\<forall>r' \<in> ?M. ?f r' \<le> ?f r" by simp
  then show ?thesis using r(1) by (intro bexI [of _ r]) (auto simp: decisive_def list_all_iff)
qed

lemma list_acl_ok: "acl_ok mt n (\<lambda>_ _ R. Some R) (list_acl mt)"
proof -
  have "acl_result mt R b (list_acl mt R b)" for R b
  proof (cases "list_ex (\<lambda>r. mt (field r) b) R")
    case True
    then obtain r rs where f: "filter (decisive mt R b) R = r # rs"
      using decisive_ex [of mt b R] True by (cases "filter (decisive mt R b) R") (auto simp: filter_empty_conv)
    have "r \<in> set (filter (decisive mt R b) R)" by (simp only: f) simp
    then have "decisive mt R b r" by simp
    then show ?thesis using True f by (auto simp: acl_result_def list_acl_def)
  next
    case False
    then have "filter (decisive mt R b) R = []" by (auto simp: decisive_def filter_empty_conv list_ex_iff)
    then show ?thesis using False by (simp add: acl_result_def list_acl_def)
  qed
  then show ?thesis by (simp add: acl_ok_def)
qed

text \<open>Two packets of 24 bytes, to 192.168.1.5 and to 192.168.2.5, with the ports 7 and 9.\<close>

definition ports_pkt :: "u8 \<Rightarrow> pkt" where
  "ports_pkt net = (sample_pkt 1)\<lparr>pbuf := (pbuf (sample_pkt 1))\<lparr>m_bytes :=
     [0x45, 0, 0, 24, 0, 0, 0, 0, 64, 17, 0, 0, 10, 0, 0, 1, 192, 168, net, 5, 0, 7, 0, 9]\<rparr>\<rparr>"

lemma ports_pkt_policy:
  "policy_says match4 [gw_rule] (acl_bytes False (ports_pkt 1)) Bypass"
  "policy_says match4 [gw_rule] (acl_bytes False (ports_pkt 2)) Discard"
proof -
  have "match4 (field gw_rule) (acl_bytes False (ports_pkt 1))" "\<not> match4 (field gw_rule) (acl_bytes False (ports_pkt 2))"
    by code_simp+
  moreover have "rule_action gw_rule = Bypass" by code_simp
  ultimately show "policy_says match4 [gw_rule] (acl_bytes False (ports_pkt 1)) Bypass"
      "policy_says match4 [gw_rule] (acl_bytes False (ports_pkt 2)) Discard"
    by (simp_all add: policy_says_def decisive_def del: word_neq_0_conv)
qed

lemma gateway_outbound_policy_witness:
  "\<exists>gw. gateway_main sample_gw = Inr gw \<and>
     spd_follows match4 False [gw_rule] [] [ports_pkt 1, ports_pkt 2]
       (outbound_spd_lookup (map_option (list_acl match4) (sk_out4 (gw_sockets gw 0))) False [ports_pkt 1, ports_pkt 2]
          \<lparr>n_protect = 0, n_bypass = 0, n_discard = 0\<rparr>) \<and>
     policy_says match4 [gw_rule] (acl_bytes False (ports_pkt 1)) Bypass \<and>
     policy_says match4 [gw_rule] (acl_bytes False (ports_pkt 2)) Discard"
proof -
  obtain gw c where g: "gateway_main sample_gw = Inr gw" "gw_pools gw = [0]" "load_config sample_gw = Inr (gw_settings gw, c)" "gw_cfg_of c"
      "sk_sa (gw_sockets gw 0) = \<lparr>so_in = None, so_out = None\<rparr>"
    by (rule sample_gw_started)
  have s: "gv_sockets sample_gw = [0]" "0 \<in> set (gw_pools gw)" by (simp_all add: sample_gw_def g(2))
  have a: "acl_ok match4 (acl_span ip4_defs) (gv_acl4 sample_gw) (list_acl match4)"
      "acl_ok match6 (acl_span ip6_defs) (gv_acl6 sample_gw) (list_acl match6)"
    by (simp_all add: sample_gw_def list_acl_ok)
  have n: "length (sas_of_out (gw_sockets gw 0)) < 2 ^ 32 - 1" by (simp add: g(5) table_of_def)
  have b: "\<forall>p \<in> set [ports_pkt 1, ports_pkt 2]. 24 \<le> length (m_bytes (pbuf p))" "\<forall>p \<in> set []. 44 \<le> length (m_bytes (pbuf p))"
    by (simp_all add: ports_pkt_def)
  from gateway_outbound_policy [OF g(1) sample_gw_libraries s a n b] g(1,3-5) show ?thesis
    by (fastforce simp: gw_cfg_of_def one_rule_vec_def table_of_def intro: ports_pkt_policy)
qed

lemma gateway_inbound_policy_witness:
  "\<exists>gw. gateway_main sample_gw = Inr gw \<and>
     sp_sa_follows match4 False [gw_rule] [] 0 [ports_pkt 1, ports_pkt 2]
       (inbound_sp_sa (map_option (list_acl match4) (sk_in4 (gw_sockets gw 0))) False [] 0 [ports_pkt 1, ports_pkt 2]
          \<lparr>n_protect = 0, n_bypass = 0, n_discard = 0\<rparr>) \<and>
     policy_says match4 [gw_rule] (acl_bytes False (ports_pkt 1)) Bypass \<and>
     policy_says match4 [gw_rule] (acl_bytes False (ports_pkt 2)) Discard"
proof -
  obtain gw c where g: "gateway_main sample_gw = Inr gw" "gw_pools gw = [0]" "load_config sample_gw = Inr (gw_settings gw, c)" "gw_cfg_of c"
      "sk_sa (gw_sockets gw 0) = \<lparr>so_in = None, so_out = None\<rparr>"
    by (rule sample_gw_started)
  have s: "gv_sockets sample_gw = [0]" "0 \<in> set (gw_pools gw)" by (simp_all add: sample_gw_def g(2))
  have a: "acl_ok match4 (acl_span ip4_defs) (gv_acl4 sample_gw) (list_acl match4)"
      "acl_ok match6 (acl_span ip6_defs) (gv_acl6 sample_gw) (list_acl match6)"
    by (simp_all add: sample_gw_def list_acl_ok)
  have n: "length (sas_of_in (gw_sockets gw 0)) < 2 ^ 32 - 1" by (simp add: g(5) table_of_def)
  have b: "\<forall>p \<in> set [ports_pkt 1, ports_pkt 2]. 24 \<le> length (m_bytes (pbuf p))" "\<forall>p \<in> set []. 44 \<le> length (m_bytes (pbuf p))"
    by (simp_all add: ports_pkt_def)
  from gateway_inbound_policy [OF g(1) sample_gw_libraries s a n b] g(1,3-5) show ?thesis
    by (fastforce simp: gw_cfg_of_def one_rule_vec_def table_of_def intro: ports_pkt_policy)
qed

end
