(* ===== verification/Spec2Isabelle.thy ===== *)
theory Spec2Isabelle
  imports SP4 SP6 SA_Config IPIP ESP SAD Sessions Flow Process Worker_Props SA_Init_Props Setup_Props
    Event_Helper_Props Start_Up_Props Policy
begin

text \<open>
  A model of the IPsec security gateway, a DPDK application in C, and the theorems that make its parts
  correct. This theory only collects the others; the definitions keep the names of the C functions.

  \<^bold>\<open>The program.\<close> \<open>main\<close> reads the command line and a configuration file of security policies (SP),
  security associations (SA), routes, flow rules and neighbours; starts crypto devices, ports and, in
  event mode, an event device; builds for each CPU socket the tables of SAs, policies and routes; and
  launches a loop on every core. In poll mode a core receives bursts from its queues, classifies them,
  checks inbound traffic against policies and SAs, gives what is to be protected to crypto devices,
  collects what they finished, routes and transmits. In event mode the NIC does the cryptography and the
  workers only check and forward. Two cores exchange packets with the kernel, and every packet is
  inspected and counted on the way.

  \<^bold>\<open>Theories and files.\<close> Lines are below \<open>src/\<close>; \<open>X_Props\<close> holds the lemmas about \<open>X\<close>.

  \<^item> Base. \<open>Prelude\<close>: machine types, byte order, string functions of C, collections of simplification
    rules. \<open>Tokens\<close>: \<open>parser.h\<close> and the primitives of \<open>parser.c\<close>. \<open>Tables\<close>: the growable sorted array that
    \<open>sp4.c\<close>, \<open>sp6.c\<close> and \<open>sa.c\<close> repeat. \<open>Accounting\<close>: the contract of a loop body that neither loses nor
    invents packets.
  \<^item> Configuration. \<open>SP_Rules\<close>, \<open>SP4\<close>, \<open>SP6\<close>: \<open>sp4.c\<close>, \<open>sp6.c\<close>. \<open>SA_Types\<close>, \<open>SA_Config\<close>: \<open>ipsec.h\<close> and the
    parser of \<open>sa.c\<close>. \<open>Route\<close>: \<open>rt.c\<close>. \<open>Flow\<close>: \<open>flow.c\<close>. \<open>Config_File\<close>, \<open>Config_File_Props\<close>: the file reader and the line
    handlers of \<open>parser.c\<close>. \<open>Args\<close>: \<open>parse_args\<close> of \<open>ipsec-secgw.c\<close>.
  \<^item> Start-up. \<open>Sessions\<close>: sessions and flow rules of \<open>ipsec.c\<close>. \<open>SA_Init\<close>, \<open>SA_Init_Props\<close>: \<open>sa_init\<close> of \<open>sa.c\<close>.
    \<open>Setup\<close>, \<open>Setup_Props\<close>: queues, crypto devices and ports of \<open>ipsec-secgw.c\<close>. \<open>Event_Helper\<close>, \<open>Event_Helper_Props\<close>:
    \<open>event_helper.c\<close>. \<open>Start_Up\<close>, \<open>Start_Up_Props\<close>, with \<open>Start_Up_Example\<close>: \<open>main\<close>, from the first argument to the
    launch of the cores, and the end of the program.
  \<^item> Data path. \<open>IPIP\<close>: \<open>ipip.h\<close>. \<open>ESP\<close>: \<open>esp.c\<close>. \<open>SAD\<close>: \<open>sad.h\<close>, \<open>sad.c\<close> and the lookups of \<open>sa.c\<close>. \<open>Queues\<close>, \<open>Queues_Inv\<close>:
    the queue engine of \<open>ipsec.c\<close>. \<open>Process\<close>: \<open>ipsec_process.c\<close>. \<open>Traffic\<close>, \<open>Transmit\<close>, \<open>Poll\<close> with their \<open>_Props\<close>: the
    poll-mode worker of \<open>ipsec-secgw.c\<close>. \<open>Worker\<close>, \<open>Worker_Props\<close>: \<open>ipsec_worker.c\<close>. \<open>Policy\<close>: the policies of the
    file followed through start-up to the decision on a packet.
  \<^item> Around it. \<open>Inspect\<close>: \<open>dpi\<close> of \<open>ngtl/stats\<close>, \<open>ngtl/logs\<close>, the connection table and the ARP responder. \<open>Runtime\<close>: statistics,
    telemetry, reassembly. \<open>Kni\<close>, \<open>Kni_Props\<close>: \<open>ngtl/kni/kni.c\<close>. \<open>Services\<close>, \<open>Services_Props\<close>: \<open>ngtl/db/db.c\<close>,
    \<open>ngtl/utility/utility.c\<close>, \<open>ngtl/hashtable/hashtable.c\<close>, \<open>ngtl/nats/sub.c\<close>, the display of \<open>ngtl/stats/stats.c\<close>.

  \<^bold>\<open>How the state corresponds.\<close> A C structure is a record, an enumeration a datatype, an integer of \<open>w\<close> bits
  a word. Arrays with a counter are lists, growable arrays a record of table, count and size. A pointer
  into an array is an index, a NULL pointer \<open>None\<close>. Static variables are arguments, returned updated. A
  packet is a record with its bytes and an identity, so that its way can be followed; freed and sent
  packets are collected. Errors are values: \<open>errno\<close> with \<open>UB\<close> for what C leaves undefined,
  \<open>parse_error\<close> for the message of a check, \<open>cfg_error\<close> for a panic of the file reader, \<open>start_exit\<close> for the
  exits of \<open>main\<close>. \<open>APP_CHECK\<close> sets the parse status on success too, so a failed check
  without a return after it is forgotten; the handlers of \<open>Config_File\<close> follow that.

  \<^bold>\<open>Parameters and contracts.\<close> Code outside the repository is an argument. Where a theorem relies on it, a
  named hypothesis states its documented behaviour, and a witness discharges it with a concrete
  function: \<open>mbuf_api_ok\<close> (mbuf functions), \<open>crypto_dev_ok\<close> (a crypto device returns what it was given),
  \<open>esp_device_ok\<close> (it leaves the clear part alone and answers the inverse operation with the bytes
  sealed), \<open>ipsec_lib_ok\<close> (\<open>librte_ipsec\<close>), \<open>sad_api_ok\<close> (the SA database keyed by SPI), \<open>lpm_ok\<close> (longest
  prefix match), \<open>acl_ok\<close> (a matching rule of the highest priority decides), \<open>hash_ok\<close> (connection hash), \<open>next_ok\<close>
  (\<open>rte_get_next_lcore\<close>), \<open>links_ok\<close> (an event device that links and unlinks what it is told to).

  \<^bold>\<open>Interfaces.\<close> \<open>grow_array\<close> (extend, write a slot, commit) is interpreted by the SA and both policy tables;
  \<open>spi_order\<close> (sort and search by the 32-bit difference of SPIs) by the same three; \<open>token_loop\<close> (a loop
  over the tokens of a line keeps what each step keeps) by the SA and both policy parsers;
  \<open>packet_step\<close> (the balance of a state grows by the packets of the step) by every loop of the data path.

  \<^bold>\<open>What the lemmas show.\<close>

  \<^item> Parsing: accepted lines add exactly the entry they spell and rejected ones add none; lines and files
    written in the documented form are read back; after an accepted file all tables are well formed and
    the search by SPI decides membership.
  \<^item> Start-up: the SAs of a table are installed up to the first that must be refused, for an exact list of
    reasons; queue pairs are never shared; the core searches of event mode end; the whole of \<open>main\<close>
    leads from the text of the file to the tables of the data path.
  \<^item> Policy: the outbound and inbound checks refine an abstract policy, on given rules and, through start-up, on the
    rules of the file. The cache of the SA database is invisible.
  \<^item> ESP: layout of a packet and of the operation asked of the device, offsets inside the packet, and
    the round trip through both ends of a tunnel.
  \<^item> Conservation: in every reachable state of the poll loop, of the queue engine, of the event workers and of
    the kernel interface each packet is accounted for exactly once.

  \<^bold>\<open>Loops, bounds and fuel.\<close> Token loops, the file reader, the bulk loop and the binary search are recursions
  with a measure. Fuel is used where the length of a walk depends on a parameter, and always shown to be
  enough: \<open>next_active_loop\<close> has \<open>max_lcore + 1\<close> steps and \<open>next_eth_loop\<close> \<open>2 * max_lcore + 2\<close>, more than one
  round over the cores; the walk over IPv6 extension headers (\<open>ext_loop\<close>) one step per byte;
  \<open>xf_chain\<close> follows three pointers where chains have at most two; the link check of
  \<open>check_all_ports_link_status\<close> makes at most its 91 rounds. The main loops do not end; they are the step
  relations \<open>poll_step\<close> and \<open>kni_step\<close>, whose reachable states the theorems are about.

  \<^bold>\<open>Not modelled.\<close> Printing to the terminal and packet capture (\<open>DUMP_PCAP\<close>); \<open>parse_json_message\<close>, which is never
  called; the allocation of per-core memory and the banner lines at the start of the worker loops; the mask
  argument of address parsing where no caller reads it; build files, tests and sample configurations. Threads run
  as interleavings of whole calls. \<open>qsort\<close> and \<open>bsearch\<close> are those of the C library of the target.
\<close>

end
